(* ===== verification/Go_Prelude.thy ===== *)
theory Go_Prelude
  imports Main "HOL-Library.List_Lexorder" "HOL-Library.Char_ord" "HOL-Library.Product_Lexorder"
begin

text \<open>
  Shared vocabulary of the development: the Go standard-library functions the modelled
  code calls on strings (\<open>strings.TrimSpace\<close>, \<open>strconv\<close> decimal printing), the
  keep-the-first loop that the code writes with a \<open>seen\<close> map, truncating division of
  signed integers, and the generic list lemmas the components share.

  A Go string is a byte sequence, here a \<open>string\<close> (list of 8-bit characters).
  \<open>strings.TrimSpace\<close> also removes multi-byte Unicode spaces; the model removes the
  six ASCII ones, so it describes strings whose outer characters are not multi-byte spaces.
  A Go \<open>uint\<close> identifier is a \<open>nat\<close>, a Go \<open>time.Time\<close> an \<open>int\<close> (nanoseconds).
\<close>

named_theorems go_defs \<open>definitions of the helper functions of the Go prelude\<close>

subsection \<open>Strings\<close>

definition is_space :: "char \<Rightarrow> bool" where
  "is_space c \<longleftrightarrow> c \<in> set [CHR 0x09, CHR 0x0A, CHR 0x0B, CHR 0x0C, CHR 0x0D, CHR '' '']"

definition trim_space :: "string \<Rightarrow> string" where
  "trim_space s = rev (dropWhile is_space (rev (dropWhile is_space s)))"

lemma dropWhile_idem [simp]: "dropWhile P (dropWhile P xs) = dropWhile P xs"
  by (induction xs) auto

lemma dropWhile_rev_Nil_iff: "dropWhile P (rev xs) = [] \<longleftrightarrow> (\<forall>x \<in> set xs. P x)"
  by (simp add: dropWhile_eq_Nil_conv)

lemma dropWhile_hd_False: "dropWhile P xs = y # ys \<Longrightarrow> \<not> P y"
  by (induction xs) (auto split: if_splits)

lemma dropWhile_fixpoint: "xs = [] \<or> \<not> P (hd xs) \<Longrightarrow> dropWhile P xs = xs"
  by (cases xs) auto

text \<open>Trimming on the right keeps the first character when there is a non-space one.\<close>

lemma hd_rev_dropWhile_rev:
  assumes "ys = y # ys'" "\<not> P y"
  shows "\<exists>zs. rev (dropWhile P (rev ys)) = y # zs"
proof -
  have "dropWhile P (rev ys' @ [y]) \<noteq> []"
    using assms(2) by (auto simp: dropWhile_eq_Nil_conv)
  moreover have "dropWhile P (rev ys' @ [y]) = dropWhile P (rev ys') @ [y]
      \<or> dropWhile P (rev ys' @ [y]) = [y]"
    using assms(2) by (induction "rev ys'" arbitrary: ys') (auto simp: dropWhile_append)
  ultimately show ?thesis
    using assms(1) by (metis append_Cons append_Nil rev.simps(2) rev_append rev_rev_ident)
qed

lemma trim_space_Nil [simp]: "trim_space [] = []"
  by (simp add: trim_space_def)

lemma trim_space_idem [simp]: "trim_space (trim_space s) = trim_space s"
proof (cases "dropWhile is_space s")
  case Nil
  then have "trim_space s = []" unfolding trim_space_def by (simp only: rev.simps dropWhile.simps)
  then show ?thesis by simp
next
  case (Cons y ys)
  then have ny: "\<not> is_space y" by (rule dropWhile_hd_False)
  obtain zs where zs: "rev (dropWhile is_space (rev (dropWhile is_space s))) = y # zs"
    using hd_rev_dropWhile_rev [where P = is_space, OF Cons ny] by auto
  then have "dropWhile is_space (trim_space s) = trim_space s"
    using ny by (simp add: trim_space_def)
  then show ?thesis by (simp add: trim_space_def)
qed

lemma set_trim_space: "set (trim_space s) \<subseteq> set s"
  unfolding trim_space_def by (metis set_dropWhileD set_rev subsetI)

text \<open>Decimal printing of an unsigned integer (\<open>strconv.FormatUint\<close>, \<open>%d\<close>).\<close>

definition digit_char :: "nat \<Rightarrow> char" where
  "digit_char d = char_of (48 + d)"

fun show_nat :: "nat \<Rightarrow> string" where
  "show_nat n = (if n < 10 then [digit_char n] else show_nat (n div 10) @ [digit_char (n mod 10)])"

declare show_nat.simps [simp del]

definition digit_val :: "char \<Rightarrow> nat" where
  "digit_val c = of_char c - 48"

definition read_nat :: "string \<Rightarrow> nat" where
  "read_nat s = foldl (\<lambda>acc c. 10 * acc + digit_val c) 0 s"

lemma digit_val_digit_char: "d < 10 \<Longrightarrow> digit_val (digit_char d) = d"
  by (simp add: digit_val_def digit_char_def)

lemma read_show_nat [simp]: "read_nat (show_nat n) = n"
proof (induction n rule: show_nat.induct)
  case (1 n)
  show ?case
  proof (cases "n < 10")
    case True
    then show ?thesis by (simp add: show_nat.simps [of n] read_nat_def digit_val_digit_char)
  next
    case False
    with 1 have "read_nat (show_nat (n div 10)) = n div 10" by simp
    with False show ?thesis
      by (simp add: show_nat.simps [of n] read_nat_def digit_val_digit_char)
  qed
qed

lemma show_nat_inj: "show_nat m = show_nat n \<longleftrightarrow> m = n"
  by (metis read_show_nat)

lemma show_nat_nonempty [simp]: "show_nat n \<noteq> []"
  by (subst show_nat.simps) simp

lemma show_nat_digits: "c \<in> set (show_nat n) \<Longrightarrow> c \<in> digit_char ` {0..9}"
proof (induction n rule: show_nat.induct)
  case (1 n)
  then show ?case
    by (cases "n < 10") (auto simp: show_nat.simps [of n] intro!: imageI)
qed

subsection \<open>The \<open>seen\<close>-map loop\<close>

text \<open>
  The code removes duplicates with a \<open>map[key]struct{}\<close> and \<open>continue\<close>: the first
  element of each key stays, in order. The model threads the keys seen so far.
\<close>

fun uniq_by :: "('a \<Rightarrow> 'k) \<Rightarrow> 'k list \<Rightarrow> 'a list \<Rightarrow> 'a list" where
  "uniq_by key seen [] = []"
| "uniq_by key seen (x # xs) =
     (if key x \<in> set seen then uniq_by key seen xs else x # uniq_by key (key x # seen) xs)"

lemma set_uniq_by_subset: "set (uniq_by key seen xs) \<subseteq> set xs"
  by (induction xs arbitrary: seen) (auto split: if_splits)

lemma uniq_by_keys:
  "key ` set (uniq_by key seen xs) = key ` set xs - set seen"
  by (induction xs arbitrary: seen) (auto split: if_splits)

lemma distinct_uniq_by: "distinct (map key (uniq_by key seen xs))"
proof (induction xs arbitrary: seen)
  case (Cons x xs)
  have "key x \<notin> key ` set (uniq_by key (key x # seen) xs)"
    by (simp add: uniq_by_keys)
  with Cons show ?case by simp
qed simp

lemma uniq_by_id: "distinct (map key xs) \<Longrightarrow> key ` set xs \<inter> set seen = {} \<Longrightarrow> uniq_by key seen xs = xs"
  by (induction xs arbitrary: seen) auto

lemma uniq_by_idem: "uniq_by key [] (uniq_by key [] xs) = uniq_by key [] xs"
  by (rule uniq_by_id) (auto intro: distinct_uniq_by)

lemma length_uniq_by: "length (uniq_by key seen xs) \<le> length xs"
  by (induction xs arbitrary: seen) (auto intro: le_SucI)

lemma uniq_by_eq_Nil: "uniq_by key [] xs = [] \<longleftrightarrow> xs = []"
  by (cases xs) auto

subsection \<open>Signed division and modulus\<close>

text \<open>Go truncates integer division towards zero; the modulus takes the dividend's sign.\<close>

definition go_div :: "int \<Rightarrow> int \<Rightarrow> int" where
  "go_div a b = sgn a * sgn b * (\<bar>a\<bar> div \<bar>b\<bar>)"

definition go_mod :: "int \<Rightarrow> int \<Rightarrow> int" where
  "go_mod a b = a - b * go_div a b"

text \<open>The conversion \<open>int8(x)\<close> keeps the low eight bits.\<close>

definition wrap_int8 :: "int \<Rightarrow> int" where
  "wrap_int8 x = (x + 128) mod 256 - 128"

lemma wrap_int8_id: "- 128 \<le> x \<Longrightarrow> x < 128 \<Longrightarrow> wrap_int8 x = x"
  by (simp add: wrap_int8_def mod_pos_pos_trivial)

lemma wrap_int8_range: "- 128 \<le> wrap_int8 x \<and> wrap_int8 x < 128"
  by (simp add: wrap_int8_def)

lemma go_div_nonneg: "0 \<le> a \<Longrightarrow> 0 < b \<Longrightarrow> go_div a b = a div b"
  by (cases "a = 0") (simp_all add: go_div_def)

lemma go_mod_nonneg: "0 \<le> a \<Longrightarrow> 0 < b \<Longrightarrow> go_mod a b = a mod b"
  by (simp add: go_mod_def go_div_nonneg minus_mult_div_eq_mod)

subsection \<open>Counting lemmas\<close>

lemma length_filter_split: "length (filter P xs) + length (filter (\<lambda>x. \<not> P x) xs) = length xs"
  by (induction xs) auto

lemma sum_list_map_const: "(\<And>x. x \<in> set xs \<Longrightarrow> f x = (c::nat)) \<Longrightarrow> sum_list (map f xs) = c * length xs"
  by (induction xs) auto

lemma find_SomeD: "find P xs = Some x \<Longrightarrow> x \<in> set xs \<and> P x"
  by (induction xs) (auto split: if_splits)

lemma find_filter_cong: "(\<And>y. y \<in> set xs \<Longrightarrow> P y \<Longrightarrow> Q y) \<Longrightarrow> find P (filter Q xs) = find P xs"
  by (induction xs) auto

lemma filter_commute: "filter P (filter Q xs) = filter Q (filter P xs)"
  by (simp add: conj_commute)

lemma find_None_iff_all: "find P xs = None \<longleftrightarrow> (\<forall>x \<in> set xs. \<not> P x)"
  by (induction xs) auto

end
