(* ===== verification/Biz_Errors.thy ===== *)
theory Biz_Errors
  imports Go_Prelude
begin

text \<open>
  The business error codes of \<open>pkg/errors/codes.go\<close> and the errors the services return.
  \<open>Biz c\<close> stands for a \<open>*BizError\<close> with code \<open>c\<close>: the display message and the cause are not
  kept, since no modelled code branches on them (the rendered text, where the code stores
  it, is a parameter). \<open>RawErr\<close> is an error handed through from below (database driver,
  Redis client, transaction commit), \<open>JoinErr\<close> the result of \<open>errors.Join\<close>.
\<close>

type_synonym biz_code = nat

abbreviation (input) CodeSuccess :: biz_code where "CodeSuccess \<equiv> 0"
abbreviation (input) CodeUnknown :: biz_code where "CodeUnknown \<equiv> 10000"
abbreviation (input) CodeInvalidParams :: biz_code where "CodeInvalidParams \<equiv> 10001"
abbreviation (input) CodeBindFailed :: biz_code where "CodeBindFailed \<equiv> 10002"
abbreviation (input) CodeValidateFailed :: biz_code where "CodeValidateFailed \<equiv> 10003"
abbreviation (input) CodeInternalError :: biz_code where "CodeInternalError \<equiv> 10004"
abbreviation (input) CodeDBError :: biz_code where "CodeDBError \<equiv> 10005"
abbreviation (input) CodeRedisError :: biz_code where "CodeRedisError \<equiv> 10006"
abbreviation (input) CodeThirdPartyError :: biz_code where "CodeThirdPartyError \<equiv> 10007"
abbreviation (input) CodeTooManyRequests :: biz_code where "CodeTooManyRequests \<equiv> 10008"
abbreviation (input) CodeUnauthorized :: biz_code where "CodeUnauthorized \<equiv> 11000"
abbreviation (input) CodeTokenExpired :: biz_code where "CodeTokenExpired \<equiv> 11001"
abbreviation (input) CodeTokenMalformed :: biz_code where "CodeTokenMalformed \<equiv> 11002"
abbreviation (input) CodeTokenInvalid :: biz_code where "CodeTokenInvalid \<equiv> 11003"
abbreviation (input) CodeTokenBlacklisted :: biz_code where "CodeTokenBlacklisted \<equiv> 11004"
abbreviation (input) CodeLoginRequired :: biz_code where "CodeLoginRequired \<equiv> 11005"
abbreviation (input) CodePermissionDenied :: biz_code where "CodePermissionDenied \<equiv> 11006"
abbreviation (input) CodeUserNotFound :: biz_code where "CodeUserNotFound \<equiv> 20001"
abbreviation (input) CodeUserAlreadyExists :: biz_code where "CodeUserAlreadyExists \<equiv> 20002"
abbreviation (input) CodePasswordError :: biz_code where "CodePasswordError \<equiv> 20003"
abbreviation (input) CodeUserFrozen :: biz_code where "CodeUserFrozen \<equiv> 20004"
abbreviation (input) CodeUserDisabled :: biz_code where "CodeUserDisabled \<equiv> 20005"
abbreviation (input) CodePhoneAlreadyUsed :: biz_code where "CodePhoneAlreadyUsed \<equiv> 20006"
abbreviation (input) CodeEmailAlreadyUsed :: biz_code where "CodeEmailAlreadyUsed \<equiv> 20007"
abbreviation (input) CodeCaptchaError :: biz_code where "CodeCaptchaError \<equiv> 20008"
abbreviation (input) CodeCaptchaExpired :: biz_code where "CodeCaptchaExpired \<equiv> 20009"
abbreviation (input) CodeEmailSendFailed :: biz_code where "CodeEmailSendFailed \<equiv> 20010"
abbreviation (input) CodeUserStatusConflict :: biz_code where "CodeUserStatusConflict \<equiv> 20011"
abbreviation (input) CodeOrgNotFound :: biz_code where "CodeOrgNotFound \<equiv> 30001"
abbreviation (input) CodeOrgAlreadyExists :: biz_code where "CodeOrgAlreadyExists \<equiv> 30002"
abbreviation (input) CodeOrgNameDuplicate :: biz_code where "CodeOrgNameDuplicate \<equiv> 30003"
abbreviation (input) CodeNotOrgMember :: biz_code where "CodeNotOrgMember \<equiv> 30004"
abbreviation (input) CodeOrgHasMembers :: biz_code where "CodeOrgHasMembers \<equiv> 30005"
abbreviation (input) CodeOrgOwnerOnly :: biz_code where "CodeOrgOwnerOnly \<equiv> 30006"
abbreviation (input) CodeInviteCodeInvalid :: biz_code where "CodeInviteCodeInvalid \<equiv> 30007"
abbreviation (input) CodeOrgBuiltinProtected :: biz_code where "CodeOrgBuiltinProtected \<equiv> 30008"
abbreviation (input) CodeOrgMemberStatusConflict :: biz_code where "CodeOrgMemberStatusConflict \<equiv> 30009"
abbreviation (input) CodeOrgMemberRemoved :: biz_code where "CodeOrgMemberRemoved \<equiv> 30010"
abbreviation (input) CodeOrgOwnerTransferRequired :: biz_code where "CodeOrgOwnerTransferRequired \<equiv> 30011"
abbreviation (input) CodeOrgCannotLeaveBuiltin :: biz_code where "CodeOrgCannotLeaveBuiltin \<equiv> 30012"
abbreviation (input) CodeRoleNotFound :: biz_code where "CodeRoleNotFound \<equiv> 30101"
abbreviation (input) CodeRoleAlreadyExists :: biz_code where "CodeRoleAlreadyExists \<equiv> 30102"
abbreviation (input) CodeMenuNotFound :: biz_code where "CodeMenuNotFound \<equiv> 30201"
abbreviation (input) CodeMenuCodeDuplicate :: biz_code where "CodeMenuCodeDuplicate \<equiv> 30202"
abbreviation (input) CodeMenuHasChildren :: biz_code where "CodeMenuHasChildren \<equiv> 30203"
abbreviation (input) CodeAPINotFound :: biz_code where "CodeAPINotFound \<equiv> 30301"
abbreviation (input) CodeAPIAlreadyExists :: biz_code where "CodeAPIAlreadyExists \<equiv> 30302"
abbreviation (input) CodeOJAccountNotBound :: biz_code where "CodeOJAccountNotBound \<equiv> 40001"
abbreviation (input) CodeOJAccountBound :: biz_code where "CodeOJAccountBound \<equiv> 40002"
abbreviation (input) CodeOJPlatformInvalid :: biz_code where "CodeOJPlatformInvalid \<equiv> 40003"
abbreviation (input) CodeOJIdentifierInvalid :: biz_code where "CodeOJIdentifierInvalid \<equiv> 40004"
abbreviation (input) CodeOJBindCoolDown :: biz_code where "CodeOJBindCoolDown \<equiv> 40005"
abbreviation (input) CodeOJSyncFailed :: biz_code where "CodeOJSyncFailed \<equiv> 40006"
abbreviation (input) CodeOJCredentialInvalid :: biz_code where "CodeOJCredentialInvalid \<equiv> 40007"
abbreviation (input) CodeOJSyncDisabled :: biz_code where "CodeOJSyncDisabled \<equiv> 40008"
abbreviation (input) CodeOJTaskNotFound :: biz_code where "CodeOJTaskNotFound \<equiv> 40101"
abbreviation (input) CodeOJTaskNotEditable :: biz_code where "CodeOJTaskNotEditable \<equiv> 40102"
abbreviation (input) CodeOJTaskExecuteAtInvalid :: biz_code where "CodeOJTaskExecuteAtInvalid \<equiv> 40103"
abbreviation (input) CodeOJTaskQuestionNotFound :: biz_code where "CodeOJTaskQuestionNotFound \<equiv> 40104"
abbreviation (input) CodeOJTaskVisibleDenied :: biz_code where "CodeOJTaskVisibleDenied \<equiv> 40105"
abbreviation (input) CodeOJTaskDeleted :: biz_code where "CodeOJTaskDeleted \<equiv> 40106"
abbreviation (input) CodeOJTaskExecutionNotFound :: biz_code where "CodeOJTaskExecutionNotFound \<equiv> 40107"
abbreviation (input) CodeOJTaskPendingConfirmation :: biz_code where "CodeOJTaskPendingConfirmation \<equiv> 40108"
abbreviation (input) CodeOJTaskQuestionAmbiguous :: biz_code where "CodeOJTaskQuestionAmbiguous \<equiv> 40109"
abbreviation (input) CodeAIConversationNotFound :: biz_code where "CodeAIConversationNotFound \<equiv> 50001"
abbreviation (input) CodeAIInterruptNotFound :: biz_code where "CodeAIInterruptNotFound \<equiv> 50002"
abbreviation (input) CodeAIInterruptConflict :: biz_code where "CodeAIInterruptConflict \<equiv> 50003"
abbreviation (input) CodeAIConversationBusy :: biz_code where "CodeAIConversationBusy \<equiv> 50004"
abbreviation (input) CodeAIInterruptUnavailable :: biz_code where "CodeAIInterruptUnavailable \<equiv> 50005"
abbreviation (input) CodeAIStreamingUnsupported :: biz_code where "CodeAIStreamingUnsupported \<equiv> 50006"
abbreviation (input) CodeAIRequestRejected :: biz_code where "CodeAIRequestRejected \<equiv> 50007"
abbreviation (input) CodeAIMessageNotFound :: biz_code where "CodeAIMessageNotFound \<equiv> 50008"

definition all_biz_codes :: "biz_code list" where
  "all_biz_codes = [
     CodeSuccess, CodeUnknown, CodeInvalidParams, CodeBindFailed, CodeValidateFailed,
     CodeInternalError, CodeDBError, CodeRedisError, CodeThirdPartyError, CodeTooManyRequests,
     CodeUnauthorized, CodeTokenExpired, CodeTokenMalformed, CodeTokenInvalid,
     CodeTokenBlacklisted, CodeLoginRequired, CodePermissionDenied, CodeUserNotFound,
     CodeUserAlreadyExists, CodePasswordError, CodeUserFrozen, CodeUserDisabled,
     CodePhoneAlreadyUsed, CodeEmailAlreadyUsed, CodeCaptchaError, CodeCaptchaExpired,
     CodeEmailSendFailed, CodeUserStatusConflict, CodeOrgNotFound, CodeOrgAlreadyExists,
     CodeOrgNameDuplicate, CodeNotOrgMember, CodeOrgHasMembers, CodeOrgOwnerOnly,
     CodeInviteCodeInvalid, CodeOrgBuiltinProtected, CodeOrgMemberStatusConflict,
     CodeOrgMemberRemoved, CodeOrgOwnerTransferRequired, CodeOrgCannotLeaveBuiltin,
     CodeRoleNotFound, CodeRoleAlreadyExists, CodeMenuNotFound, CodeMenuCodeDuplicate,
     CodeMenuHasChildren, CodeAPINotFound, CodeAPIAlreadyExists, CodeOJAccountNotBound,
     CodeOJAccountBound, CodeOJPlatformInvalid, CodeOJIdentifierInvalid, CodeOJBindCoolDown,
     CodeOJSyncFailed, CodeOJCredentialInvalid, CodeOJSyncDisabled, CodeOJTaskNotFound,
     CodeOJTaskNotEditable, CodeOJTaskExecuteAtInvalid, CodeOJTaskQuestionNotFound,
     CodeOJTaskVisibleDenied, CodeOJTaskDeleted, CodeOJTaskExecutionNotFound,
     CodeOJTaskPendingConfirmation, CodeOJTaskQuestionAmbiguous, CodeAIConversationNotFound,
     CodeAIInterruptNotFound, CodeAIInterruptConflict, CodeAIConversationBusy,
     CodeAIInterruptUnavailable, CodeAIStreamingUnsupported, CodeAIRequestRejected,
     CodeAIMessageNotFound]"

text \<open>The table of numbers ascends, so no number is used twice.\<close>

fun ascending :: "nat list \<Rightarrow> bool" where
  "ascending (x # y # zs) = (x < y \<and> ascending (y # zs))"
| "ascending _ = True"

lemma ascending_lower: "ascending (x # xs) \<Longrightarrow> y \<in> set xs \<Longrightarrow> x < y"
proof (induction xs arbitrary: x)
  case (Cons z zs)
  then show ?case by (cases "y = z") (auto intro: less_trans)
qed simp

lemma ascending_distinct: "ascending xs \<Longrightarrow> distinct xs"
proof (induction xs)
  case (Cons x xs)
  then have "ascending xs" by (cases xs) auto
  with Cons show ?case by (auto dest: ascending_lower)
qed simp

lemma all_biz_codes_distinct: "distinct all_biz_codes"
  by (rule ascending_distinct) (simp add: all_biz_codes_def)

datatype go_err = Biz biz_code | RawErr | LockFailed | JoinErr go_err go_err

text \<open>\<open>errors.Join(a, b)\<close> drops nil arguments and is nil when both are.\<close>

fun join_errs :: "go_err option \<Rightarrow> go_err option \<Rightarrow> go_err option" where
  "join_errs None e = e"
| "join_errs e None = e"
| "join_errs (Some a) (Some b) = Some (JoinErr a b)"

lemma join_errs_None_iff [simp]: "join_errs a b = None \<longleftrightarrow> a = None \<and> b = None"
  by (cases a; cases b) auto

text \<open>\<open>errors.Is(err, redislock.ErrLockFailed)\<close>.\<close>

fun is_lock_failed :: "go_err \<Rightarrow> bool" where
  "is_lock_failed LockFailed = True"
| "is_lock_failed (JoinErr a b) = (is_lock_failed a \<or> is_lock_failed b)"
| "is_lock_failed _ = False"

end
