(* ===== verification/OJ_Consts.thy ===== *)
theory OJ_Consts
  imports Biz_Errors
begin

text \<open>
  The OJ task vocabulary of \<open>internal/model/consts/ojTask.go\<close>: each Go string type with its
  constants is a datatype plus the function to the stored string; the \<open>IsValid...\<close>
  predicates on raw strings are kept as the code has them and shown to recognise exactly
  the encodings. Task modes and platforms stay strings, because requests carry them raw.
\<close>

subsection \<open>Modes and platforms\<close>

definition mode_immediate :: string where "mode_immediate = ''immediate''"
definition mode_scheduled :: string where "mode_scheduled = ''scheduled''"
definition platform_luogu :: string where "platform_luogu = ''luogu''"
definition platform_leetcode :: string where "platform_leetcode = ''leetcode''"
definition platform_lanqiao :: string where "platform_lanqiao = ''lanqiao''"

lemmas mode_defs = mode_immediate_def mode_scheduled_def
lemmas platform_defs = platform_luogu_def platform_leetcode_def platform_lanqiao_def

lemma modes_distinct [simp]: "mode_immediate \<noteq> mode_scheduled" "mode_scheduled \<noteq> mode_immediate"
  by (simp_all add: mode_defs)

lemma platforms_distinct [simp]:
  "platform_luogu \<noteq> platform_leetcode" "platform_leetcode \<noteq> platform_luogu"
  "platform_luogu \<noteq> platform_lanqiao" "platform_lanqiao \<noteq> platform_luogu"
  "platform_leetcode \<noteq> platform_lanqiao" "platform_lanqiao \<noteq> platform_leetcode"
  by (simp_all add: platform_defs)

definition is_valid_oj_task_mode :: "string \<Rightarrow> bool" where
  "is_valid_oj_task_mode m \<longleftrightarrow> m = mode_immediate \<or> m = mode_scheduled"

subsection \<open>Task and execution statuses\<close>

datatype task_status = TScheduled | TQueued | TExecuting | TSucceeded | TFailed | TDeleted

fun task_status_str :: "task_status \<Rightarrow> string" where
  "task_status_str TScheduled = ''scheduled''"
| "task_status_str TQueued = ''queued''"
| "task_status_str TExecuting = ''executing''"
| "task_status_str TSucceeded = ''succeeded''"
| "task_status_str TFailed = ''failed''"
| "task_status_str TDeleted = ''deleted''"

definition is_valid_oj_task_status :: "string \<Rightarrow> bool" where
  "is_valid_oj_task_status s \<longleftrightarrow>
     s \<in> set [''scheduled'', ''queued'', ''executing'', ''succeeded'', ''failed'', ''deleted'']"

datatype exec_status = EScheduled | EQueued | EExecuting | ESucceeded | EFailed | ECancelled

fun exec_status_str :: "exec_status \<Rightarrow> string" where
  "exec_status_str EScheduled = ''scheduled''"
| "exec_status_str EQueued = ''queued''"
| "exec_status_str EExecuting = ''executing''"
| "exec_status_str ESucceeded = ''succeeded''"
| "exec_status_str EFailed = ''failed''"
| "exec_status_str ECancelled = ''cancelled''"

definition is_valid_oj_task_execution_status :: "string \<Rightarrow> bool" where
  "is_valid_oj_task_execution_status s \<longleftrightarrow>
     s \<in> set [''scheduled'', ''queued'', ''executing'', ''succeeded'', ''failed'', ''cancelled'']"

lemma task_status_str_inj: "task_status_str a = task_status_str b \<longleftrightarrow> a = b"
  by (cases a; cases b) simp_all

lemma exec_status_str_inj: "exec_status_str a = exec_status_str b \<longleftrightarrow> a = b"
  by (cases a; cases b) simp_all

lemma range_task_status_str: "s \<in> range task_status_str \<longleftrightarrow> is_valid_oj_task_status s"
proof
  assume "s \<in> range task_status_str"
  then obtain a where "s = task_status_str a" by blast
  then show "is_valid_oj_task_status s" by (cases a) (simp_all add: is_valid_oj_task_status_def)
next
  assume "is_valid_oj_task_status s"
  then have "s \<in> set (map task_status_str [TScheduled, TQueued, TExecuting, TSucceeded, TFailed, TDeleted])"
    by (simp add: is_valid_oj_task_status_def)
  then show "s \<in> range task_status_str" unfolding set_map by blast
qed

lemma range_exec_status_str: "s \<in> range exec_status_str \<longleftrightarrow> is_valid_oj_task_execution_status s"
proof
  assume "s \<in> range exec_status_str"
  then obtain a where "s = exec_status_str a" by blast
  then show "is_valid_oj_task_execution_status s"
    by (cases a) (simp_all add: is_valid_oj_task_execution_status_def)
next
  assume "is_valid_oj_task_execution_status s"
  then have "s \<in> set (map exec_status_str [EScheduled, EQueued, EExecuting, ESucceeded, EFailed, ECancelled])"
    by (simp add: is_valid_oj_task_execution_status_def)
  then show "s \<in> range exec_status_str" unfolding set_map by blast
qed

subsection \<open>Triggers, results and resolution\<close>

datatype trigger_type = CreateImmediate | ScheduleDue | ExecuteNow | RetryTrigger

datatype item_result = RCompleted | RPending

text \<open>\<open>NoReason\<close> is the empty string the code stores beside a completed result.\<close>

datatype pending_reason = NoReason | AccountUnbound | Unsolved | QuestionNotFound

datatype res_status = ResResolved | ResPending | ResInvalid

text \<open>Question bank rows carry the status as an \<open>int8\<close>.\<close>

definition source_verified :: int where "source_verified = 1"
definition source_pending :: int where "source_pending = 2"
definition source_invalid :: int where "source_invalid = 3"

definition source_status_label :: "int \<Rightarrow> string" where
  "source_status_label s =
     (if s = source_verified then ''verified'' else if s = source_pending then ''pending''
      else if s = source_invalid then ''invalid'' else ''unknown'')"

definition capability_oj_task_manage :: string where
  "capability_oj_task_manage = ''oj.task.manage''"

end
