(* ===== verification/Svc_Monad.thy ===== *)
theory Svc_Monad
  imports Go_Prelude
begin

text \<open>
  A Go service method returns \<open>(value, error)\<close> and changes the state behind its receiver.
  Its model is a function from the state to a result (\<open>Inl\<close> the error, \<open>Inr\<close> the value)
  and the state after it; on an error the state is the one the code leaves, not the one it
  started from. \<open>hoare P m Q E\<close>: from a state with \<open>P\<close>, a normal return satisfies \<open>Q\<close> and an
  error return \<open>E\<close>. The rules in \<open>svc_intro\<close> decompose a method along its code.
\<close>

type_synonym ('s, 'e, 'a) svc = "'s \<Rightarrow> ('e + 'a) \<times> 's"

named_theorems svc_intro \<open>introduction rules for hoare triples of service methods\<close>

definition svc_return :: "'a \<Rightarrow> ('s, 'e, 'a) svc" where
  "svc_return a s = (Inr a, s)"

definition svc_throw :: "'e \<Rightarrow> ('s, 'e, 'a) svc" where
  "svc_throw e s = (Inl e, s)"

text \<open>\<open>if err != nil { return err }\<close> after every call.\<close>

definition svc_bind :: "('s, 'e, 'a) svc \<Rightarrow> ('a \<Rightarrow> ('s, 'e, 'b) svc) \<Rightarrow> ('s, 'e, 'b) svc" where
  "svc_bind m f s = (case m s of (Inl e, s') \<Rightarrow> (Inl e, s') | (Inr a, s') \<Rightarrow> f a s')"

text \<open>A call whose error the caller inspects instead of returning it.\<close>

definition svc_try :: "('s, 'e, 'a) svc \<Rightarrow> ('s, 'f, 'e + 'a) svc" where
  "svc_try m s = (case m s of (r, s') \<Rightarrow> (Inr r, s'))"

text \<open>\<open>return bizerrors.Wrap(code, err)\<close>: the error is replaced on its way out.\<close>

definition svc_wrap :: "('e \<Rightarrow> 'f) \<Rightarrow> ('s, 'e, 'a) svc \<Rightarrow> ('s, 'f, 'a) svc" where
  "svc_wrap g m s = (case m s of (Inl e, s') \<Rightarrow> (Inl (g e), s') | (Inr a, s') \<Rightarrow> (Inr a, s'))"

definition svc_lift :: "'e + 'a \<Rightarrow> ('s, 'e, 'a) svc" where
  "svc_lift r s = (r, s)"

text \<open>A \<open>for\<close> loop that collects one result per element and stops at the first error.\<close>

fun svc_map :: "('a \<Rightarrow> ('s, 'e, 'b) svc) \<Rightarrow> 'a list \<Rightarrow> ('s, 'e, 'b list) svc" where
  "svc_map f [] = svc_return []"
| "svc_map f (x # xs) = svc_bind (f x) (\<lambda>y. svc_bind (svc_map f xs) (\<lambda>ys. svc_return (y # ys)))"

fun svc_iter :: "('a \<Rightarrow> ('s, 'e, unit) svc) \<Rightarrow> 'a list \<Rightarrow> ('s, 'e, unit) svc" where
  "svc_iter f [] = svc_return ()"
| "svc_iter f (x # xs) = svc_bind (f x) (\<lambda>_. svc_iter f xs)"

text \<open>\<open>if err != nil { ... }\<close> where the branch does not return the error: a handler, and the rest.\<close>

definition svc_catch ::
  "('s, 'e, 'a) svc \<Rightarrow> ('e \<Rightarrow> ('s, 'f, 'b) svc) \<Rightarrow> ('a \<Rightarrow> ('s, 'f, 'b) svc) \<Rightarrow> ('s, 'f, 'b) svc" where
  "svc_catch m h k s = (case m s of (Inl e, s') \<Rightarrow> h e s' | (Inr a, s') \<Rightarrow> k a s')"

lemmas svc_defs = svc_catch_def svc_return_def svc_throw_def svc_bind_def svc_try_def svc_wrap_def svc_lift_def

subsection \<open>Equations\<close>

lemma svc_bind_return [simp]: "svc_bind (svc_return a) f = f a"
  by (rule ext) (simp add: svc_defs)

lemma svc_bind_throw [simp]: "svc_bind (svc_throw e) f = svc_throw e"
  by (rule ext) (simp add: svc_defs)

lemma svc_return_apply [simp]: "svc_return a s = (Inr a, s)"
  by (simp add: svc_return_def)

lemma svc_throw_apply [simp]: "svc_throw e s = (Inl e, s)"
  by (simp add: svc_throw_def)

lemma svc_lift_apply [simp]: "svc_lift r s = (r, s)"
  by (simp add: svc_lift_def)

lemma svc_bind_Inr [simp]: "m s = (Inr a, s') \<Longrightarrow> svc_bind m f s = f a s'"
  by (simp add: svc_bind_def)

lemma svc_bind_Inl [simp]: "m s = (Inl e, s') \<Longrightarrow> svc_bind m f s = (Inl e, s')"
  by (simp add: svc_bind_def)

lemma svc_bind_Inr_iff:
  "svc_bind m f s = (Inr b, t) \<longleftrightarrow> (\<exists>a s'. m s = (Inr a, s') \<and> f a s' = (Inr b, t))"
  by (auto simp: svc_bind_def split: prod.splits sum.splits)

lemma svc_bind_Inl_iff:
  "svc_bind m f s = (Inl e, t) \<longleftrightarrow>
     m s = (Inl e, t) \<or> (\<exists>a s'. m s = (Inr a, s') \<and> f a s' = (Inl e, t))"
  by (auto simp: svc_bind_def split: prod.splits sum.splits)

lemma svc_wrap_Inr_iff: "svc_wrap g m s = (Inr a, t) \<longleftrightarrow> m s = (Inr a, t)"
  by (auto simp: svc_wrap_def split: prod.splits sum.splits)

lemma svc_wrap_Inl_iff: "svc_wrap g m s = (Inl e, t) \<longleftrightarrow> (\<exists>d. m s = (Inl d, t) \<and> e = g d)"
  by (auto simp: svc_wrap_def split: prod.splits sum.splits)

lemma svc_try_iff: "svc_try m s = (r, t) \<longleftrightarrow> (\<exists>q. m s = (q, t) \<and> r = Inr q)"
  by (auto simp: svc_try_def split: prod.splits)

lemma svc_catch_iff:
  "svc_catch m h k s = (r, t) \<longleftrightarrow>
     (\<exists>e s'. m s = (Inl e, s') \<and> h e s' = (r, t)) \<or> (\<exists>a s'. m s = (Inr a, s') \<and> k a s' = (r, t))"
  by (auto simp: svc_catch_def split: prod.splits sum.splits)

lemmas svc_iffs = svc_bind_Inr_iff svc_bind_Inl_iff svc_wrap_Inr_iff svc_wrap_Inl_iff svc_try_iff

lemma svc_map_length: "svc_map f xs s = (Inr ys, t) \<Longrightarrow> length ys = length xs"
  by (induction xs arbitrary: s ys t) (auto simp: svc_iffs)

subsection \<open>Triples\<close>

definition hoare ::
  "('s \<Rightarrow> bool) \<Rightarrow> ('s, 'e, 'a) svc \<Rightarrow> ('a \<Rightarrow> 's \<Rightarrow> bool) \<Rightarrow> ('e \<Rightarrow> 's \<Rightarrow> bool) \<Rightarrow> bool" where
  "hoare P m Q E \<longleftrightarrow>
     (\<forall>s. P s \<longrightarrow> (case m s of (Inl e, s') \<Rightarrow> E e s' | (Inr a, s') \<Rightarrow> Q a s'))"

lemma hoareI:
  assumes "\<And>s a s'. P s \<Longrightarrow> m s = (Inr a, s') \<Longrightarrow> Q a s'"
    and "\<And>s e s'. P s \<Longrightarrow> m s = (Inl e, s') \<Longrightarrow> E e s'"
  shows "hoare P m Q E"
  using assms by (auto simp: hoare_def split: prod.splits sum.splits)

lemma hoare_Inr: "hoare P m Q E \<Longrightarrow> P s \<Longrightarrow> m s = (Inr a, s') \<Longrightarrow> Q a s'"
  unfolding hoare_def by (drule spec [where x = s]) simp

lemma hoare_Inl: "hoare P m Q E \<Longrightarrow> P s \<Longrightarrow> m s = (Inl e, s') \<Longrightarrow> E e s'"
  unfolding hoare_def by (drule spec [where x = s]) simp

lemma hoare_return [svc_intro]: "(\<And>s. P s \<Longrightarrow> Q a s) \<Longrightarrow> hoare P (svc_return a) Q E"
  by (auto simp: hoare_def)

lemma hoare_throw [svc_intro]: "(\<And>s. P s \<Longrightarrow> E e s) \<Longrightarrow> hoare P (svc_throw e) Q E"
  by (auto simp: hoare_def)

lemma hoare_bind:
  assumes "hoare P m R E" and "\<And>a. hoare (R a) (f a) Q E"
  shows "hoare P (svc_bind m f) Q E"
proof (rule hoareI)
  fix s b t assume "P s" "svc_bind m f s = (Inr b, t)"
  then show "Q b t" using assms by (auto simp: svc_bind_Inr_iff dest: hoare_Inr)
next
  fix s e t assume "P s" "svc_bind m f s = (Inl e, t)"
  then show "E e t" using assms by (auto simp: svc_bind_Inl_iff dest: hoare_Inr hoare_Inl)
qed

lemma hoare_wrap [svc_intro]: "hoare P m Q (\<lambda>e. E (g e)) \<Longrightarrow> hoare P (svc_wrap g m) Q E"
  by (rule hoareI) (auto simp: svc_iffs dest: hoare_Inr hoare_Inl)

lemma hoare_conseq:
  assumes "hoare P m Q E" "\<And>s. P' s \<Longrightarrow> P s" "\<And>a s. Q a s \<Longrightarrow> Q' a s" "\<And>e s. E e s \<Longrightarrow> E' e s"
  shows "hoare P' m Q' E'"
  using assms by (intro hoareI) (blast dest: hoare_Inr hoare_Inl)+

subsection \<open>Invariants\<close>

text \<open>\<open>keeps I m\<close>: whatever \<open>m\<close> returns, value or error, it keeps \<open>I\<close>.\<close>

definition keeps :: "('s \<Rightarrow> bool) \<Rightarrow> ('s, 'e, 'a) svc \<Rightarrow> bool" where
  "keeps I m \<longleftrightarrow> (\<forall>s. I s \<longrightarrow> I (snd (m s)))"

named_theorems keeps_intro \<open>methods that keep an invariant\<close>

lemma keepsI: "(\<And>s r t. I s \<Longrightarrow> m s = (r, t) \<Longrightarrow> I t) \<Longrightarrow> keeps I m"
  by (auto simp: keeps_def) (metis prod.collapse)

lemma keepsD: "keeps I m \<Longrightarrow> I s \<Longrightarrow> m s = (r, t) \<Longrightarrow> I t"
  by (auto simp: keeps_def dest: spec [where x = s])

lemma keeps_return [keeps_intro]: "keeps I (svc_return a)"
  by (simp add: keeps_def)

lemma keeps_throw [keeps_intro]: "keeps I (svc_throw e)"
  by (simp add: keeps_def)

lemma keeps_lift [keeps_intro]: "keeps I (svc_lift r)"
  by (simp add: keeps_def)

lemma keeps_bind [keeps_intro]: "keeps I m \<Longrightarrow> (\<And>a. keeps I (f a)) \<Longrightarrow> keeps I (svc_bind m f)"
  by (simp add: keeps_def svc_bind_def split: prod.splits sum.splits) (metis snd_conv)

lemma keeps_wrap [keeps_intro]: "keeps I m \<Longrightarrow> keeps I (svc_wrap g m)"
  by (simp add: keeps_def svc_wrap_def split: prod.splits sum.splits) (metis snd_conv)

lemma keeps_try [keeps_intro]: "keeps I m \<Longrightarrow> keeps I (svc_try m)"
  by (simp add: keeps_def svc_try_def split: prod.splits) (metis snd_conv)

lemma keeps_catch [keeps_intro]:
  "keeps I m \<Longrightarrow> (\<And>e. keeps I (h e)) \<Longrightarrow> (\<And>a. keeps I (k a)) \<Longrightarrow> keeps I (svc_catch m h k)"
  by (simp add: keeps_def svc_catch_def split: prod.splits sum.splits) (metis snd_conv)

lemma keeps_if [keeps_intro]: "keeps I m \<Longrightarrow> keeps I n \<Longrightarrow> keeps I (if b then m else n)"
  by simp

lemma keeps_case_option [keeps_intro]:
  "keeps I m \<Longrightarrow> (\<And>x. keeps I (f x)) \<Longrightarrow> keeps I (case z of None \<Rightarrow> m | Some x \<Rightarrow> f x)"
  by (cases z) simp_all

lemma keeps_case_list [keeps_intro]:
  "keeps I m \<Longrightarrow> (\<And>x xs. keeps I (f x xs)) \<Longrightarrow> keeps I (case z of [] \<Rightarrow> m | x # xs \<Rightarrow> f x xs)"
  by (cases z) simp_all

lemma keeps_case_sum [keeps_intro]:
  "(\<And>x. keeps I (f x)) \<Longrightarrow> (\<And>y. keeps I (g y)) \<Longrightarrow> keeps I (case z of Inl x \<Rightarrow> f x | Inr y \<Rightarrow> g y)"
  by (cases z) simp_all

lemma keeps_case_prod [keeps_intro]:
  "(\<And>x y. keeps I (f x y)) \<Longrightarrow> keeps I (case z of (x, y) \<Rightarrow> f x y)"
  by (cases z) simp

lemma keeps_map [keeps_intro]: "(\<And>x. keeps I (f x)) \<Longrightarrow> keeps I (svc_map f xs)"
  by (induction xs) (auto intro!: keeps_intro)

lemma keeps_iter [keeps_intro]: "(\<And>x. keeps I (f x)) \<Longrightarrow> keeps I (svc_iter f xs)"
  by (induction xs) (auto intro!: keeps_intro)

end
