(* ===== verification/Row_Table.thy ===== *)
theory Row_Table
  imports Svc_Monad
begin

text \<open>
  A relational table as the repositories use it: rows with a primary key, read by key
  (\<open>First(&row, id)\<close>) and written back whole (\<open>Save(row)\<close>, which replaces the row of the
  key and inserts it when there is none). The locale \<open>row_store\<close> is the interface the
  services rely on, the list implementation below provides it, and every table of the
  model is an interpretation of it.
\<close>

locale row_store =
  fixes row_key :: "'r \<Rightarrow> 'k"
    and tbl_get :: "'t \<Rightarrow> 'k \<Rightarrow> 'r option"
    and tbl_put :: "'r \<Rightarrow> 't \<Rightarrow> 't"
  assumes get_put: "tbl_get (tbl_put r t) k = (if k = row_key r then Some r else tbl_get t k)"
    and get_key: "tbl_get t k = Some r \<Longrightarrow> row_key r = k"
begin

lemma get_put_same [simp]: "tbl_get (tbl_put r t) (row_key r) = Some r"
  by (simp add: get_put)

lemma get_put_other: "k \<noteq> row_key r \<Longrightarrow> tbl_get (tbl_put r t) k = tbl_get t k"
  by (simp add: get_put)

lemma put_put: "row_key r = row_key q \<Longrightarrow> tbl_get (tbl_put r (tbl_put q t)) = tbl_get (tbl_put r t)"
  by (rule ext) (simp add: get_put)

lemma put_get_id: "tbl_get t k = Some r \<Longrightarrow> tbl_get (tbl_put r t) = tbl_get t"
  using get_key by (intro ext) (auto simp: get_put)

text \<open>A property of all rows survives a write of a row that has it.\<close>

lemma put_all:
  assumes "\<And>k q. tbl_get t k = Some q \<Longrightarrow> P q" "P r" "tbl_get (tbl_put r t) k = Some q"
  shows "P q"
  using assms by (auto simp: get_put split: if_splits)

text \<open>Read-modify-write keeps the key set when the key is kept.\<close>

lemma rmw_dom:
  assumes "tbl_get t k = Some r" "row_key (f r) = row_key r"
  shows "dom (tbl_get (tbl_put (f r) t)) = dom (tbl_get t)"
  using assms get_key by (auto simp: get_put dom_def split: if_splits)

end

subsection \<open>Tables as lists of rows\<close>

definition row_get :: "('r \<Rightarrow> 'k) \<Rightarrow> 'r list \<Rightarrow> 'k \<Rightarrow> 'r option" where
  "row_get key rows k = find (\<lambda>r. key r = k) rows"

fun row_put :: "('r \<Rightarrow> 'k) \<Rightarrow> 'r \<Rightarrow> 'r list \<Rightarrow> 'r list" where
  "row_put key r [] = [r]"
| "row_put key r (x # xs) = (if key x = key r then r # xs else x # row_put key r xs)"

lemma row_get_Nil [simp]: "row_get key [] k = None"
  by (simp add: row_get_def)

lemma row_get_Cons [simp]:
  "row_get key (x # xs) k = (if key x = k then Some x else row_get key xs k)"
  by (simp add: row_get_def)

lemma row_get_put: "row_get key (row_put key r rows) k = (if k = key r then Some r else row_get key rows k)"
  by (induction rows) auto

lemma row_get_key: "row_get key rows k = Some r \<Longrightarrow> key r = k"
  by (auto simp: row_get_def dest: find_SomeD)

lemma row_get_set: "row_get key rows k = Some r \<Longrightarrow> r \<in> set rows"
  by (auto simp: row_get_def dest: find_SomeD)

lemma row_get_None_iff: "row_get key rows k = None \<longleftrightarrow> k \<notin> key ` set rows"
  by (auto simp: row_get_def find_None_iff_all)

lemma row_get_append:
  "row_get key (xs @ ys) k = (case row_get key xs k of None \<Rightarrow> row_get key ys k | Some r \<Rightarrow> Some r)"
  by (induction xs) auto

lemma set_row_put: "set (row_put key r rows) \<subseteq> insert r (set rows)"
  by (induction rows) auto

lemma keys_row_put: "key ` set (row_put key r rows) = insert (key r) (key ` set rows)"
  by (induction rows) (auto split: if_splits)

lemma distinct_row_put: "distinct (map key rows) \<Longrightarrow> distinct (map key (row_put key r rows))"
proof (induction rows)
  case (Cons x xs)
  have "key x \<notin> key ` set (row_put key r xs)" if "key x \<noteq> key r"
    using Cons.prems that by (simp add: keys_row_put)
  with Cons show ?case by auto
qed simp

lemma map_row_put: "f r = f q \<Longrightarrow> row_get key rows (key r) = Some q \<Longrightarrow> map f (row_put key r rows) = map f rows"
  by (induction rows) (auto split: if_splits)

lemma in_row_put_iff:
  "distinct (map key rows) \<Longrightarrow>
   q \<in> set (row_put key r rows) \<longleftrightarrow> q = r \<or> (q \<in> set rows \<and> key q \<noteq> key r)"
  by (induction rows) (auto split: if_splits simp: image_iff)

lemma row_get_in_set: "distinct (map key rows) \<Longrightarrow> r \<in> set rows \<Longrightarrow> row_get key rows (key r) = Some r"
  by (induction rows) auto

end
