(* ===== verification/Outbox_Store.thy ===== *)
theory Outbox_Store
  imports Biz_Errors Row_Table
begin

text \<open>
  The outbox table: \<open>entity.OutboxEvent\<close> and the queries of
  \<open>internal/repository/system/outboxRepo.go\<close> as functions on the list of rows. The columns
  \<open>id\<close>, \<open>updated_at\<close> and \<open>deleted_at\<close> of \<open>MODEL\<close> are kept only as far as a query reads them.
\<close>

datatype outbox_status = OPending | OPublished | OFailed

record outbox_event =
  ob_event_id :: string
  ob_type :: string
  ob_agg_id :: string
  ob_agg_type :: string
  ob_payload :: string
  ob_trace_id :: string
  ob_request_id :: string
  ob_traceparent :: string
  ob_tracestate :: string
  ob_status :: outbox_status
  ob_retry :: nat
  ob_error :: string
  ob_published_at :: "int option"
  ob_created_at :: int
  ob_updated_at :: int

definition outbox_create :: "outbox_event \<Rightarrow> outbox_event list \<Rightarrow> outbox_event list" where
  "outbox_create e rows = rows @ [e]"

definition get_pending_events :: "nat \<Rightarrow> nat \<Rightarrow> outbox_event list \<Rightarrow> outbox_event list" where
  "get_pending_events lim max_retries rows =
     take lim (sort_key ob_created_at
       (filter (\<lambda>e. ob_status e = OPending \<and> ob_retry e < max_retries) rows))"

definition mark_as_published :: "int \<Rightarrow> string \<Rightarrow> outbox_event list \<Rightarrow> outbox_event list" where
  "mark_as_published now eid rows =
     map (\<lambda>e. if ob_event_id e = eid
          then e\<lparr>ob_status := OPublished, ob_published_at := Some now, ob_updated_at := now\<rparr> else e) rows"

text \<open>
  \<open>MarkAsFailed\<close> updates two columns of one row, and one assignment reads the column the
  other writes: \<open>status\<close> is a \<open>CASE\<close> on \<open>retry_count + 1\<close>, \<open>retry_count\<close> becomes
  \<open>retry_count + 1\<close>. Which \<open>retry_count\<close> the \<open>CASE\<close> sees belongs to the database engine, so it
  is the parameter \<open>ltr\<close>: \<open>False\<close> is the simultaneous assignment of standard SQL, \<open>True\<close> an
  engine that assigns from left to right, with the columns in the alphabetical order in
  which the mapper writes a map of updates (\<open>retry_count\<close> before \<open>status\<close>).
\<close>

definition retry_seen :: "bool \<Rightarrow> nat \<Rightarrow> nat" where
  "retry_seen ltr n = (if ltr then n + 1 else n)"

definition mark_as_failed ::
  "bool \<Rightarrow> int \<Rightarrow> string \<Rightarrow> string \<Rightarrow> nat \<Rightarrow> outbox_event list \<Rightarrow> outbox_event list" where
  "mark_as_failed ltr now eid msg max_retries rows =
     map (\<lambda>e. if ob_event_id e = eid
          then e\<lparr>ob_status := (if max_retries \<le> retry_seen ltr (ob_retry e) + 1 then OFailed else OPending),
                 ob_error := msg, ob_retry := ob_retry e + 1, ob_updated_at := now\<rparr> else e) rows"

definition delete_published_before :: "int \<Rightarrow> outbox_event list \<Rightarrow> outbox_event list" where
  "delete_published_before before rows =
     filter (\<lambda>e. \<not> (ob_status e = OPublished \<and>
       (case ob_published_at e of None \<Rightarrow> False | Some t \<Rightarrow> t < before))) rows"

definition delete_failed_before :: "int \<Rightarrow> outbox_event list \<Rightarrow> outbox_event list" where
  "delete_failed_before before rows =
     filter (\<lambda>e. \<not> (ob_status e = OFailed \<and> ob_updated_at e < before)) rows"

definition count_by_status :: "outbox_event list \<Rightarrow> outbox_status \<Rightarrow> nat" where
  "count_by_status rows st = length (filter (\<lambda>e. ob_status e = st) rows)"

subsection \<open>Lemmas\<close>

lemma ids_mark_as_published [simp]: "map ob_event_id (mark_as_published n i rows) = map ob_event_id rows"
  by (induction rows) (auto simp: mark_as_published_def)

lemma ids_mark_as_failed [simp]: "map ob_event_id (mark_as_failed l n i m x rows) = map ob_event_id rows"
  by (induction rows) (auto simp: mark_as_failed_def)

lemma get_pending_eventsD:
  "e \<in> set (get_pending_events lim mr rows) \<Longrightarrow> e \<in> set rows \<and> ob_status e = OPending \<and> ob_retry e < mr"
  unfolding get_pending_events_def by (drule in_set_takeD) simp

lemma length_get_pending_events: "length (get_pending_events lim mr rows) \<le> lim"
  by (simp add: get_pending_events_def)

lemma sorted_get_pending_events: "sorted (map ob_created_at (get_pending_events lim mr rows))"
  unfolding get_pending_events_def by (simp add: take_map [symmetric] sorted_wrt_take)

lemma delete_published_keeps_pending:
  "e \<in> set rows \<Longrightarrow> ob_status e \<noteq> OPublished \<Longrightarrow> e \<in> set (delete_published_before t rows)"
  by (auto simp: delete_published_before_def)

lemma count_by_status_total:
  "count_by_status rows OPending + count_by_status rows OPublished + count_by_status rows OFailed
     = length rows"
proof (induction rows)
  case (Cons e rows)
  then show ?case by (cases "ob_status e") (simp_all add: count_by_status_def)
qed (simp add: count_by_status_def)

end
