(* ===== verification/OJ_Store.thy ===== *)
theory OJ_Store
  imports OJ_Consts Outbox_Store
begin

text \<open>
  The tables of the OJ task component (\<open>internal/model/entity/ojTask.go\<close>), the rows of other
  components it reads, and the repository operations of \<open>ojTaskRepo.go\<close> and
  \<open>ojTaskExecutionRepo.go\<close> as steps on a \<open>world\<close>.

  A world holds the component's own tables \<open>w_db\<close>, the facts it only reads \<open>w_ext\<close>, and the
  environment: a step counter and, per step, whether the database call of that step fails
  (\<open>w_fault\<close>), the time a call of \<open>time.Now()\<close> returns (\<open>w_time\<close>) and a fresh UUID
  (\<open>w_uuid\<close>). Every database call takes one step, so a property that holds for every
  \<open>w_fault\<close> holds whichever calls fail. Time stamps and soft-delete columns of \<open>MODEL\<close> are
  left out (no modelled code reads them and these rows are never soft-deleted); primary
  keys are drawn from one increasing counter. Nil pointers inside row slices, which the
  mapper never produces, are not represented.
\<close>

subsection \<open>Entities\<close>

record oj_task =
  t_id :: nat
  t_root :: "nat option"
  t_parent :: "nat option"
  t_version :: nat
  t_title :: string
  t_desc :: string
  t_mode :: string
  t_status :: task_status
  t_exec_at :: "int option"
  t_created_by :: nat
  t_updated_by :: nat

record task_org =
  to_id :: nat
  to_task :: nat
  to_org :: nat

record oj_item =
  i_id :: nat
  i_task :: nat
  i_sort :: nat
  i_platform :: string
  i_title :: string
  i_mode :: string
  i_qid :: nat
  i_qcode :: string
  i_qtitle :: string
  i_res :: res_status
  i_note :: string

record oj_intake =
  k_id :: nat
  k_task :: nat
  k_item :: nat
  k_platform :: string
  k_title :: string
  k_status :: res_status
  k_qid :: nat
  k_note :: string

record oj_exec =
  e_id :: nat
  e_task :: nat
  e_trigger :: trigger_type
  e_planned :: int
  e_started :: "int option"
  e_finished :: "int option"
  e_requested :: nat
  e_status :: exec_status
  e_error :: string
  e_total_users :: nat
  e_done_users :: nat
  e_pend_users :: nat
  e_total_items :: nat
  e_done_items :: nat
  e_pend_items :: nat

record exec_user =
  u_id :: nat
  u_exec :: nat
  u_user :: nat
  u_uuid :: string
  u_name :: string
  u_avatar :: string
  u_status :: int
  u_done :: nat
  u_pend :: nat
  u_all :: bool

record exec_user_org =
  uo_id :: nat
  uo_euser :: nat
  uo_org :: nat
  uo_name :: string

record exec_user_item =
  ui_id :: nat
  ui_exec :: nat
  ui_user :: nat
  ui_euser :: nat
  ui_item :: nat
  ui_result :: item_result
  ui_reason :: pending_reason

record oj_db =
  db_tasks :: "oj_task list"
  db_orgs :: "task_org list"
  db_items :: "oj_item list"
  db_intakes :: "oj_intake list"
  db_execs :: "oj_exec list"
  db_eusers :: "exec_user list"
  db_euorgs :: "exec_user_org list"
  db_euitems :: "exec_user_item list"
  db_outbox :: "outbox_event list"
  db_next :: nat

subsection \<open>Rows of other components and configuration\<close>

record org_row =
  og_id :: nat
  og_name :: string
  og_owner :: nat

record member_row =
  m_user :: nat
  m_org :: nat
  m_active :: bool

record user_row =
  us_id :: nat
  us_uuid :: string
  us_name :: string
  us_avatar :: string
  us_status :: int

record luogu_row =
  lg_id :: nat
  lg_pid :: string
  lg_title :: string
  lg_status :: int

record leetcode_row =
  lc_id :: nat
  lc_slug :: string
  lc_title :: string
  lc_status :: int

record lanqiao_row =
  lq_id :: nat
  lq_problem :: nat
  lq_title :: string
  lq_status :: int

record detail_row =
  d_id :: nat
  d_user :: nat

record token_claims =
  c_platform :: string
  c_title :: string
  c_qid :: nat

datatype lock_answer = LockTaken | LockBusy | LockError

text \<open>
  The answers of code outside the component: string comparison under the database's collation
  (\<open>x_str_eq\<close>) and the title query of each question bank, which uses it, the signing library, the policy engine, Redis.
\<close>

record oj_ext =
  x_str_eq :: "string \<Rightarrow> string \<Rightarrow> bool"
  x_orgs :: "org_row list"
  x_members :: "member_row list"
  x_users :: "user_row list"
  x_luogu :: "string \<Rightarrow> luogu_row list"
  x_luogu_id :: "nat \<Rightarrow> luogu_row option"
  x_leetcode :: "string \<Rightarrow> leetcode_row list"
  x_leetcode_id :: "nat \<Rightarrow> leetcode_row option"
  x_lanqiao :: "string \<Rightarrow> lanqiao_row list"
  x_lanqiao_id :: "nat \<Rightarrow> lanqiao_row option"
  x_luogu_details :: "detail_row list"
  x_leetcode_details :: "detail_row list"
  x_lanqiao_details :: "detail_row list"
  x_luogu_solved :: "(nat \<times> nat) list"
  x_leetcode_solved :: "(nat \<times> nat) list"
  x_lanqiao_solved :: "(nat \<times> nat) list"
  x_roles :: "nat \<Rightarrow> string list"
  x_enforce :: "string \<Rightarrow> string \<Rightarrow> string \<Rightarrow> go_err + bool"
  x_secret :: string
  x_sign :: "string \<Rightarrow> token_claims \<Rightarrow> int \<Rightarrow> int \<Rightarrow> go_err + string"
  x_parse :: "string \<Rightarrow> string \<Rightarrow> int \<Rightarrow> token_claims option"
  x_errtext :: "go_err \<Rightarrow> string"
  x_topic :: string
  x_trace :: "string \<times> string \<times> string \<times> string"
  x_preflight :: bool
  x_lock_on :: bool
  x_batch :: int

record world =
  w_db :: oj_db
  w_ext :: oj_ext
  w_step :: nat
  w_fault :: "nat \<Rightarrow> bool"
  w_time :: "nat \<Rightarrow> int"
  w_uuid :: "nat \<Rightarrow> string"
  w_lock :: "nat \<Rightarrow> lock_answer"

type_synonym 'a oj = "(world, go_err, 'a) svc"

subsection \<open>Database calls and transactions\<close>

definition tick :: "world \<Rightarrow> world" where
  "tick w = w\<lparr>w_step := Suc (w_step w)\<rparr>"

definition db_call :: "(oj_db \<Rightarrow> 'a \<times> oj_db) \<Rightarrow> 'a oj" where
  "db_call f w =
     (if w_fault w (w_step w) then (Inl RawErr, tick w)
      else (case f (w_db w) of (a, d) \<Rightarrow> (Inr a, (tick w)\<lparr>w_db := d\<rparr>)))"

definition db_read :: "(oj_db \<Rightarrow> 'a) \<Rightarrow> 'a oj" where
  "db_read f = db_call (\<lambda>d. (f d, d))"

definition db_write :: "(oj_db \<Rightarrow> oj_db) \<Rightarrow> unit oj" where
  "db_write f = db_call (\<lambda>d. ((), f d))"

definition ext_read :: "(oj_ext \<Rightarrow> 'a) \<Rightarrow> 'a oj" where
  "ext_read f w = db_call (\<lambda>d. (f (w_ext w), d)) w"

definition config :: "(oj_ext \<Rightarrow> 'a) \<Rightarrow> 'a oj" where
  "config f w = (Inr (f (w_ext w)), w)"

definition now :: "int oj" where
  "now w = (Inr (w_time w (w_step w)), tick w)"

definition new_uuid :: "string oj" where
  "new_uuid w = (Inr (w_uuid w (w_step w)), tick w)"

text \<open>\<open>bizerrors.Wrap(code, err)\<close> on whatever error comes up.\<close>

definition wrap_err :: "biz_code \<Rightarrow> 'a oj \<Rightarrow> 'a oj" where
  "wrap_err c = svc_wrap (\<lambda>_. Biz c)"

abbreviation db_err :: "'a oj \<Rightarrow> 'a oj" where
  "db_err \<equiv> wrap_err CodeDBError"

text \<open>
  \<open>txRunner.InTx\<close>: an error of the function rolls the tables back and is returned as it is;
  otherwise the commit may fail (one more call), which rolls back too.
\<close>

definition in_tx :: "'a oj \<Rightarrow> 'a oj" where
  "in_tx m w =
     (case m w of
        (Inl e, w') \<Rightarrow> (Inl e, w'\<lparr>w_db := w_db w\<rparr>)
      | (Inr a, w') \<Rightarrow>
          (if w_fault w' (w_step w') then (Inl RawErr, (tick w')\<lparr>w_db := w_db w\<rparr>)
           else (Inr a, tick w')))"

end
