(* ===== verification/OJ_Repo.thy ===== *)
theory OJ_Repo
  imports OJ_Store
begin

text \<open>
  The repository methods of \<open>ojTaskRepo.go\<close> and \<open>ojTaskExecutionRepo.go\<close>: each is one
  database call (the \<open>Replace...\<close> methods two), with the query's \<open>WHERE\<close>, \<open>ORDER BY\<close> and
  \<open>LIMIT\<close> written out. The pure parts come first, the calls after them, then the
  interpretation of the table interface for the three tables that are read and saved by
  primary key.
\<close>

subsection \<open>Identifiers\<close>

fun number_rows :: "(nat \<Rightarrow> 'r \<Rightarrow> 'r) \<Rightarrow> nat \<Rightarrow> 'r list \<Rightarrow> 'r list" where
  "number_rows f n [] = []"
| "number_rows f n (r # rs) = f n r # number_rows f (Suc n) rs"

lemma length_number_rows [simp]: "length (number_rows f n rs) = length rs"
  by (induction rs arbitrary: n) auto

lemma map_number_rows: "(\<And>k r. g (f k r) = g r) \<Longrightarrow> map g (number_rows f n rs) = map g rs"
  by (induction rs arbitrary: n) auto

lemma ids_number_rows: "(\<And>k r. g (f k r) = k) \<Longrightarrow> map g (number_rows f n rs) = [n ..< n + length rs]"
proof (induction rs arbitrary: n)
  case (Cons r rs)
  then show ?case by (simp add: upt_conv_Cons del: upt.upt_Suc)
qed simp

subsection \<open>Tasks\<close>

definition task_create :: "oj_task \<Rightarrow> oj_task oj" where
  "task_create t = db_call (\<lambda>d.
     let t' = t\<lparr>t_id := db_next d\<rparr>
     in (t', d\<lparr>db_tasks := db_tasks d @ [t'], db_next := Suc (db_next d)\<rparr>))"

definition task_update :: "oj_task \<Rightarrow> unit oj" where
  "task_update t = db_write (\<lambda>d. d\<lparr>db_tasks := row_put t_id t (db_tasks d)\<rparr>)"

definition task_update_root :: "nat \<Rightarrow> nat \<Rightarrow> unit oj" where
  "task_update_root tid rid = db_write (\<lambda>d. d\<lparr>db_tasks :=
     map (\<lambda>t. if t_id t = tid then t\<lparr>t_root := Some rid\<rparr> else t) (db_tasks d)\<rparr>)"

definition task_get :: "nat \<Rightarrow> oj_task option oj" where
  "task_get tid = db_read (\<lambda>d. row_get t_id (db_tasks d) tid)"

definition latest_version :: "nat \<Rightarrow> oj_task list \<Rightarrow> oj_task option" where
  "latest_version rid ts =
     (case rev (sort_key (\<lambda>t. (t_version t, t_id t)) (filter (\<lambda>t. t_root t = Some rid) ts)) of
        [] \<Rightarrow> None | t # _ \<Rightarrow> Some t)"

definition task_latest_by_root :: "nat \<Rightarrow> oj_task option oj" where
  "task_latest_by_root rid = db_read (\<lambda>d. latest_version rid (db_tasks d))"

definition orgs_create :: "task_org list \<Rightarrow> unit oj" where
  "orgs_create rows =
     (if rows = [] then svc_return ()
      else db_write (\<lambda>d. d\<lparr>db_orgs := db_orgs d @ number_rows (\<lambda>k r. r\<lparr>to_id := k\<rparr>) (db_next d) rows,
                           db_next := db_next d + length rows\<rparr>))"

definition orgs_replace :: "nat \<Rightarrow> task_org list \<Rightarrow> unit oj" where
  "orgs_replace tid rows =
     svc_bind (db_write (\<lambda>d. d\<lparr>db_orgs := filter (\<lambda>r. to_task r \<noteq> tid) (db_orgs d)\<rparr>))
       (\<lambda>_. orgs_create rows)"

definition orgs_by_task :: "nat \<Rightarrow> task_org list \<Rightarrow> task_org list" where
  "orgs_by_task tid rows = sort_key to_org (filter (\<lambda>r. to_task r = tid) rows)"

definition orgs_list :: "nat \<Rightarrow> task_org list oj" where
  "orgs_list tid = db_read (\<lambda>d. orgs_by_task tid (db_orgs d))"

text \<open>\<open>ListTaskOrgsWithNames\<close>: a left join, so an organisation without a row has the name \<open>''''\<close>.\<close>

definition orgs_with_names :: "nat \<Rightarrow> (nat \<times> string) list oj" where
  "orgs_with_names tid w = db_read (\<lambda>d.
     map (\<lambda>r. (to_org r, case row_get og_id (x_orgs (w_ext w)) (to_org r) of
                           None \<Rightarrow> '''' | Some o' \<Rightarrow> og_name o'))
       (orgs_by_task tid (db_orgs d))) w"

definition items_create :: "oj_item list \<Rightarrow> oj_item list oj" where
  "items_create rows =
     (if rows = [] then svc_return []
      else db_call (\<lambda>d.
        let rows' = number_rows (\<lambda>k r. r\<lparr>i_id := k\<rparr>) (db_next d) rows
        in (rows', d\<lparr>db_items := db_items d @ rows', db_next := db_next d + length rows\<rparr>)))"

definition items_replace :: "nat \<Rightarrow> oj_item list \<Rightarrow> oj_item list oj" where
  "items_replace tid rows =
     svc_bind (db_write (\<lambda>d. d\<lparr>db_items := filter (\<lambda>r. i_task r \<noteq> tid) (db_items d)\<rparr>))
       (\<lambda>_. items_create rows)"

definition item_update :: "oj_item \<Rightarrow> unit oj" where
  "item_update i = db_write (\<lambda>d. d\<lparr>db_items := row_put i_id i (db_items d)\<rparr>)"

definition item_get :: "nat \<Rightarrow> oj_item option oj" where
  "item_get iid = db_read (\<lambda>d. row_get i_id (db_items d) iid)"

definition items_by_task :: "nat \<Rightarrow> oj_item list \<Rightarrow> oj_item list" where
  "items_by_task tid rows = sort_key (\<lambda>i. (i_sort i, i_id i)) (filter (\<lambda>r. i_task r = tid) rows)"

definition items_list :: "nat \<Rightarrow> oj_item list oj" where
  "items_list tid = db_read (\<lambda>d. items_by_task tid (db_items d))"

definition intakes_create :: "oj_intake list \<Rightarrow> unit oj" where
  "intakes_create rows =
     (if rows = [] then svc_return ()
      else db_write (\<lambda>d. d\<lparr>db_intakes := db_intakes d @ number_rows (\<lambda>k r. r\<lparr>k_id := k\<rparr>) (db_next d) rows,
                           db_next := db_next d + length rows\<rparr>))"

definition intake_update :: "oj_intake \<Rightarrow> unit oj" where
  "intake_update k = db_write (\<lambda>d. d\<lparr>db_intakes := row_put k_id k (db_intakes d)\<rparr>)"

definition intakes_replace :: "nat \<Rightarrow> oj_intake list \<Rightarrow> unit oj" where
  "intakes_replace tid rows =
     svc_bind (db_write (\<lambda>d. d\<lparr>db_intakes := filter (\<lambda>r. k_task r \<noteq> tid) (db_intakes d)\<rparr>))
       (\<lambda>_. intakes_create rows)"

definition intakes_list :: "nat \<Rightarrow> oj_intake list oj" where
  "intakes_list tid = db_read (\<lambda>d. sort_key k_item (filter (\<lambda>r. k_task r = tid) (db_intakes d)))"

definition intakes_pending_by_title :: "string \<Rightarrow> string \<Rightarrow> oj_intake list oj" where
  "intakes_pending_by_title platform title w =
     db_read (\<lambda>d. sort_key k_item (filter (\<lambda>r. x_str_eq (w_ext w) (k_platform r) platform
        \<and> x_str_eq (w_ext w) (k_title r) title \<and> k_status r = ResPending) (db_intakes d))) w"

subsection \<open>Executions\<close>

definition exec_create :: "oj_exec \<Rightarrow> oj_exec oj" where
  "exec_create e = db_call (\<lambda>d.
     let e' = e\<lparr>e_id := db_next d\<rparr>
     in (e', d\<lparr>db_execs := db_execs d @ [e'], db_next := Suc (db_next d)\<rparr>))"

definition exec_update :: "oj_exec \<Rightarrow> unit oj" where
  "exec_update e = db_write (\<lambda>d. d\<lparr>db_execs := row_put e_id e (db_execs d)\<rparr>)"

definition exec_get :: "nat \<Rightarrow> oj_exec option oj" where
  "exec_get eid = db_read (\<lambda>d. row_get e_id (db_execs d) eid)"

definition exec_by_task :: "nat \<Rightarrow> oj_exec option oj" where
  "exec_by_task tid = db_read (\<lambda>d. find (\<lambda>e. e_task e = tid) (db_execs d))"

text \<open>The dispatch projection keeps four columns of the row.\<close>

record dispatch_row =
  r_exec :: nat
  r_task :: nat
  r_status :: exec_status
  r_planned :: int

definition dispatch_row_of :: "oj_exec \<Rightarrow> dispatch_row" where
  "dispatch_row_of e = \<lparr>r_exec = e_id e, r_task = e_task e, r_status = e_status e, r_planned = e_planned e\<rparr>"

definition exec_get_dispatch :: "nat \<Rightarrow> dispatch_row option oj" where
  "exec_get_dispatch eid = db_read (\<lambda>d.
     (case row_get e_id (db_execs d) eid of
        None \<Rightarrow> None
      | Some e \<Rightarrow> if e_id e = 0 then None else Some (dispatch_row_of e)))"

definition due_rows :: "exec_status list \<Rightarrow> int \<Rightarrow> int \<Rightarrow> oj_exec list \<Rightarrow> dispatch_row list" where
  "due_rows sts before lim es =
     (let rows = map dispatch_row_of (sort_key (\<lambda>e. (e_planned e, e_id e))
                   (filter (\<lambda>e. e_status e \<in> set sts \<and> e_planned e \<le> before) es))
      in if sts = [] then [] else if 0 < lim then take (nat lim) rows else rows)"

definition exec_list_due :: "exec_status list \<Rightarrow> int \<Rightarrow> int \<Rightarrow> dispatch_row list oj" where
  "exec_list_due sts before lim =
     (if sts = [] then svc_return [] else db_read (\<lambda>d. due_rows sts before lim (db_execs d)))"

text \<open>
  \<open>ClaimExecution\<close> is one conditional \<open>UPDATE\<close>; the number of affected rows says whether this
  caller moved the execution to executing.
\<close>

definition claimable :: "nat \<Rightarrow> exec_status list \<Rightarrow> oj_exec \<Rightarrow> bool" where
  "claimable eid sts e \<longleftrightarrow> e_id e = eid \<and> e_status e \<in> set sts"

definition claim_rows :: "nat \<Rightarrow> exec_status list \<Rightarrow> int \<Rightarrow> oj_exec list \<Rightarrow> oj_exec list" where
  "claim_rows eid sts at es =
     map (\<lambda>e. if claimable eid sts e then e\<lparr>e_status := EExecuting, e_started := Some at\<rparr> else e) es"

definition exec_claim :: "nat \<Rightarrow> exec_status list \<Rightarrow> int \<Rightarrow> bool oj" where
  "exec_claim eid sts at = db_call (\<lambda>d.
     (filter (claimable eid sts) (db_execs d) \<noteq> [],
      d\<lparr>db_execs := claim_rows eid sts at (db_execs d)\<rparr>))"

definition eusers_create :: "exec_user list \<Rightarrow> unit oj" where
  "eusers_create rows =
     (if rows = [] then svc_return ()
      else db_write (\<lambda>d. d\<lparr>db_eusers := db_eusers d @ number_rows (\<lambda>k r. r\<lparr>u_id := k\<rparr>) (db_next d) rows,
                           db_next := db_next d + length rows\<rparr>))"

definition eusers_list :: "nat \<Rightarrow> exec_user list oj" where
  "eusers_list eid = db_read (\<lambda>d. sort_key u_user (filter (\<lambda>u. u_exec u = eid) (db_eusers d)))"

definition euorgs_create :: "exec_user_org list \<Rightarrow> unit oj" where
  "euorgs_create rows =
     (if rows = [] then svc_return ()
      else db_write (\<lambda>d. d\<lparr>db_euorgs := db_euorgs d @ number_rows (\<lambda>k r. r\<lparr>uo_id := k\<rparr>) (db_next d) rows,
                           db_next := db_next d + length rows\<rparr>))"

definition euitems_create :: "exec_user_item list \<Rightarrow> unit oj" where
  "euitems_create rows =
     (if rows = [] then svc_return ()
      else db_write (\<lambda>d. d\<lparr>db_euitems := db_euitems d @ number_rows (\<lambda>k r. r\<lparr>ui_id := k\<rparr>) (db_next d) rows,
                           db_next := db_next d + length rows\<rparr>))"

definition outbox_insert :: "outbox_event \<Rightarrow> unit oj" where
  "outbox_insert e = db_write (\<lambda>d. d\<lparr>db_outbox := outbox_create e (db_outbox d)\<rparr>)"

lemmas repo_write_defs =
  task_create_def task_update_def task_update_root_def orgs_create_def orgs_replace_def
  items_create_def items_replace_def item_update_def intakes_create_def intake_update_def
  intakes_replace_def exec_create_def exec_update_def exec_claim_def eusers_create_def
  euorgs_create_def euitems_create_def outbox_insert_def

lemmas repo_read_defs =
  task_get_def task_latest_by_root_def orgs_list_def orgs_with_names_def item_get_def items_list_def
  intakes_pending_by_title_def
  intakes_list_def exec_get_def exec_by_task_def exec_get_dispatch_def exec_list_due_def
  eusers_list_def

subsection \<open>The saved tables provide the table interface\<close>

interpretation task_tbl: row_store t_id "row_get t_id" "row_put t_id"
  by unfold_locales (auto simp: row_get_put dest: row_get_key)

interpretation exec_tbl: row_store e_id "row_get e_id" "row_put e_id"
  by unfold_locales (auto simp: row_get_put dest: row_get_key)

interpretation item_tbl: row_store i_id "row_get i_id" "row_put i_id"
  by unfold_locales (auto simp: row_get_put dest: row_get_key)

subsection \<open>Lemmas\<close>

lemma due_rows_status:
  "r \<in> set (due_rows sts before lim es) \<Longrightarrow> r_status r \<in> set sts \<and> r_planned r \<le> before"
  by (auto simp: due_rows_def Let_def dispatch_row_of_def dest!: in_set_takeD split: if_splits)

lemma due_rows_source:
  "r \<in> set (due_rows sts before lim es) \<Longrightarrow> \<exists>e \<in> set es. r = dispatch_row_of e"
  by (auto simp: due_rows_def Let_def dest!: in_set_takeD split: if_splits)

lemma due_rows_limit: "0 < lim \<Longrightarrow> length (due_rows sts before lim es) \<le> nat lim"
  by (simp add: due_rows_def Let_def)

lemma due_rows_sorted: "sorted (map (\<lambda>r. (r_planned r, r_exec r)) (due_rows sts before lim es))"
proof -
  let ?ys = "sort_key (\<lambda>e. (e_planned e, e_id e))
    (filter (\<lambda>e. e_status e \<in> set sts \<and> e_planned e \<le> before) es)"
  have eq: "map (\<lambda>r. (r_planned r, r_exec r)) (map dispatch_row_of ?ys) = map (\<lambda>e. (e_planned e, e_id e)) ?ys"
    by (simp add: dispatch_row_of_def)
  have "sorted (map (\<lambda>r. (r_planned r, r_exec r)) (map dispatch_row_of ?ys))"
    unfolding eq by (rule sorted_sort_key)
  then show ?thesis
    by (auto simp: due_rows_def Let_def take_map [symmetric] intro!: sorted_wrt_take simp del: map_map)
qed

lemma ids_claim_rows [simp]: "map e_id (claim_rows eid sts at es) = map e_id es"
  by (induction es) (auto simp: claim_rows_def)

lemma latest_version_in:
  "latest_version rid ts = Some t \<Longrightarrow> t \<in> set ts \<and> t_root t = Some rid"
proof -
  let ?s = "sort_key (\<lambda>t. (t_version t, t_id t)) (filter (\<lambda>t. t_root t = Some rid) ts)"
  assume "latest_version rid ts = Some t"
  then obtain xs where xs: "rev ?s = t # xs"
    by (auto simp: latest_version_def split: list.splits)
  have "t \<in> set (rev ?s)" unfolding xs by simp
  then show ?thesis by simp
qed

lemma latest_version_max:
  assumes "latest_version rid ts = Some t" "q \<in> set ts" "t_root q = Some rid"
  shows "t_version q \<le> t_version t"
proof -
  let ?s = "sort_key (\<lambda>t. (t_version t, t_id t)) (filter (\<lambda>t. t_root t = Some rid) ts)"
  obtain xs where xs: "rev ?s = t # xs"
    using assms(1) by (auto simp: latest_version_def split: list.splits)
  then have s: "?s = rev xs @ [t]" by (metis rev.simps(2) rev_rev_ident)
  have "sorted (map (\<lambda>t. (t_version t, t_id t)) ?s)" by simp
  then have le: "\<forall>q \<in> set xs. (t_version q, t_id q) \<le> (t_version t, t_id t)"
    by (simp only: s) (auto simp: sorted_append)
  have "q \<in> set ?s" using assms(2,3) by simp
  then have "q = t \<or> q \<in> set xs" by (simp only: s) auto
  with le show ?thesis by (auto simp: less_eq_prod_def)
qed

lemma latest_version_None_iff: "latest_version rid ts = None \<longleftrightarrow> (\<forall>t \<in> set ts. t_root t \<noteq> Some rid)"
proof -
  let ?s = "sort_key (\<lambda>t. (t_version t, t_id t)) (filter (\<lambda>t. t_root t = Some rid) ts)"
  have "latest_version rid ts = None \<longleftrightarrow> set ?s = {}"
    by (simp only: latest_version_def set_empty) (simp split: list.splits)
  also have "\<dots> \<longleftrightarrow> (\<forall>t \<in> set ts. t_root t \<noteq> Some rid)" by auto
  finally show ?thesis .
qed

end
