(* ===== verification/Authorization.thy ===== *)
theory Authorization
  imports OJ_Repo
begin

text \<open>
  The business authorisation of \<open>internal/service/system/authorizationSvc.go\<close> that the OJ
  task service relies on: who may use a capability inside an organisation. The policy
  engine behind \<open>casbinSvc.HasPermission\<close> is the parameter \<open>x_enforce\<close>; an organisation row
  is read with \<open>orgRepo.GetByID\<close>, whose "record not found" is told apart from other errors.
\<close>

definition role_super_admin :: string where
  "role_super_admin = ''super_admin''"

definition action_operate :: string where
  "action_operate = ''operate''"

definition build_subject :: "nat \<Rightarrow> nat \<Rightarrow> string" where
  "build_subject uid oid = show_nat uid @ ''@'' @ show_nat oid"

definition has_permission :: "string \<Rightarrow> string \<Rightarrow> string \<Rightarrow> bool oj" where
  "has_permission subject object action w =
     (let s = trim_space subject; p = trim_space object; a = trim_space action
      in if s = [] \<or> p = [] \<or> a = [] then (Inl RawErr, w)
         else (x_enforce (w_ext w) s p a, w))"

definition load_global_roles :: "nat \<Rightarrow> (string list \<times> bool) oj" where
  "load_global_roles uid =
     svc_bind (ext_read (\<lambda>x. x_roles x uid)) (\<lambda>roles.
       svc_return (roles, role_super_admin \<in> set roles))"

definition is_super_admin :: "nat \<Rightarrow> bool oj" where
  "is_super_admin uid = svc_bind (load_global_roles uid) (\<lambda>r. svc_return (snd r))"

definition check_subject_capability :: "string \<Rightarrow> string \<Rightarrow> bool oj" where
  "check_subject_capability subject cap =
     (if trim_space subject = [] \<or> trim_space cap = [] then svc_throw RawErr
      else svc_wrap (\<lambda>_. RawErr) (has_permission (trim_space subject) (trim_space cap) action_operate))"

definition check_user_capability_in_org :: "nat \<Rightarrow> nat \<Rightarrow> string \<Rightarrow> bool oj" where
  "check_user_capability_in_org uid oid cap = check_subject_capability (build_subject uid oid) cap"

definition org_get :: "nat \<Rightarrow> org_row option oj" where
  "org_get oid = ext_read (\<lambda>x. row_get og_id (x_orgs x) oid)"

definition can_operate_org_capability :: "nat \<Rightarrow> nat \<Rightarrow> string \<Rightarrow> bool oj" where
  "can_operate_org_capability operator oid cap =
     (if trim_space cap = [] then svc_throw (Biz CodeInvalidParams)
      else svc_bind (db_err (org_get oid)) (\<lambda>org.
        (case org of
           None \<Rightarrow> svc_throw (Biz CodeOrgNotFound)
         | Some og \<Rightarrow>
             if operator = og_owner og then svc_return True
             else svc_bind (db_err (load_global_roles operator)) (\<lambda>r.
               if snd r then svc_return True
               else wrap_err CodeInternalError (check_user_capability_in_org operator oid cap)))))"

definition authorize_org_capability :: "nat \<Rightarrow> nat \<Rightarrow> string \<Rightarrow> unit oj" where
  "authorize_org_capability operator oid cap =
     svc_bind (can_operate_org_capability operator oid cap) (\<lambda>ok.
       if ok then svc_return () else svc_throw (Biz CodePermissionDenied))"

lemmas authorization_defs =
  has_permission_def load_global_roles_def is_super_admin_def check_subject_capability_def
  check_user_capability_in_org_def org_get_def can_operate_org_capability_def
  authorize_org_capability_def

subsection \<open>What a grant means\<close>

text \<open>
  The abstract contract: an operator may use a capability in an existing organisation as its
  owner, as a super administrator, or by a policy for the subject \<open>user@org\<close>.
\<close>

definition may_operate :: "oj_ext \<Rightarrow> nat \<Rightarrow> nat \<Rightarrow> string \<Rightarrow> bool" where
  "may_operate x operator oid cap \<longleftrightarrow>
     (case row_get og_id (x_orgs x) oid of
        None \<Rightarrow> False
      | Some og \<Rightarrow> operator = og_owner og \<or> role_super_admin \<in> set (x_roles x operator)
          \<or> x_enforce x (build_subject operator oid) (trim_space cap) action_operate = Inr True)"

lemma is_space_digit: "c \<in> digit_char ` {0..9} \<Longrightarrow> \<not> is_space c"
proof -
  assume "c \<in> digit_char ` {0..9}"
  then obtain d where d: "c = digit_char d" "d \<le> 9" by auto
  then have "d \<in> set [0 ..< 10]" by simp
  moreover have "\<forall>d \<in> set [0 ..< 10]. \<not> is_space (digit_char d)"
    by (simp add: upt_rec is_space_def digit_char_def char_of_def)
  ultimately show ?thesis using d by blast
qed

lemma trim_space_outer:
  "s \<noteq> [] \<Longrightarrow> \<not> is_space (hd s) \<Longrightarrow> \<not> is_space (last s) \<Longrightarrow> trim_space s = s"
  by (simp add: trim_space_def dropWhile_fixpoint hd_rev)

lemma trim_build_subject [simp]: "trim_space (build_subject u o') = build_subject u o'"
proof (rule trim_space_outer)
  show "build_subject u o' \<noteq> []" by (simp add: build_subject_def)
  have "hd (show_nat u) \<in> set (show_nat u)" by simp
  then have "\<not> is_space (hd (show_nat u))" by (rule is_space_digit [OF show_nat_digits])
  then show "\<not> is_space (hd (build_subject u o'))" by (simp add: build_subject_def)
  have "last (show_nat o') \<in> set (show_nat o')" by simp
  then have "\<not> is_space (last (show_nat o'))" by (rule is_space_digit [OF show_nat_digits])
  then show "\<not> is_space (last (build_subject u o'))" by (simp add: build_subject_def)
qed

lemma build_subject_nonempty [simp]: "build_subject u o' \<noteq> []"
  by (simp add: build_subject_def)

lemma action_operate_trim [simp]: "trim_space action_operate = action_operate" "action_operate \<noteq> []"
  by (simp_all add: trim_space_def action_operate_def is_space_def)

lemma authorize_org_capability_Inr:
  assumes "authorize_org_capability op oid cap w = (Inr (), w')"
  shows "may_operate (w_ext w) op oid cap"
  using assms
  by (auto simp: authorization_defs may_operate_def svc_iffs wrap_err_def ext_read_def db_call_def
      tick_def Let_def split: if_splits option.splits sum.splits)

end
