(* ===== verification/OJ_Resolution.thy ===== *)
theory OJ_Resolution
  imports Authorization
begin

text \<open>
  Draft validation and question resolution (\<open>ojTask_resolution.go\<close>, the token codec of
  \<open>ojTask_analysis_token.go\<close>, \<open>validateOrgIDs\<close> of \<open>ojTaskSvc.go\<close>): a request is checked and
  normalised, then every item is bound to a verified question of its platform's bank, left
  pending, or refused as ambiguous. Signing and parsing of tokens is the parameter
  \<open>x_sign\<close>/\<open>x_parse\<close>.
\<close>

subsection \<open>Requests and drafts\<close>

record item_req =
  q_platform :: string
  q_title :: string
  q_token :: string

record draft_req =
  dr_title :: string
  dr_desc :: string
  dr_mode :: string
  dr_exec_at :: "int option"
  dr_orgs :: "nat list"
  dr_items :: "item_req list"

record norm_item =
  ni_platform :: string
  ni_title :: string
  ni_token :: string

record norm_draft =
  nd_title :: string
  nd_desc :: string
  nd_mode :: string
  nd_exec_at :: "int option"
  nd_orgs :: "nat list"
  nd_items :: "norm_item list"

record candidate =
  cd_platform :: string
  cd_qid :: nat
  cd_code :: string
  cd_title :: string

record valid_item =
  vi_sort :: nat
  vi_platform :: string
  vi_title :: string
  vi_mode :: string
  vi_qid :: nat
  vi_qcode :: string
  vi_qtitle :: string
  vi_res :: res_status
  vi_note :: string

record valid_draft =
  vd_title :: string
  vd_desc :: string
  vd_mode :: string
  vd_exec_at :: "int option"
  vd_orgs :: "nat list"
  vd_items :: "valid_item list"

definition normalize_oj_task_title :: "string \<Rightarrow> string" where
  "normalize_oj_task_title t = trim_space t"

definition input_mode_title :: string where
  "input_mode_title = ''title''"

subsection \<open>The token codec\<close>

definition token_ttl :: int where
  "token_ttl = 24 * 3600 * 1000000000"

definition token_encode :: "string \<Rightarrow> string \<Rightarrow> nat \<Rightarrow> string oj" where
  "token_encode platform title qid =
     svc_bind (config x_secret) (\<lambda>secret.
       if secret = [] then svc_throw RawErr
       else if trim_space platform = [] \<or> trim_space title = [] \<or> qid = 0 then svc_throw RawErr
       else svc_bind now (\<lambda>t.
         svc_bind (config x_sign) (\<lambda>sign.
           svc_lift (sign secret
             \<lparr>c_platform = trim_space platform, c_title = trim_space title, c_qid = qid\<rparr>
             t (t + token_ttl)))))"

definition token_decode :: "string \<Rightarrow> token_claims oj" where
  "token_decode token =
     svc_bind (config x_secret) (\<lambda>secret.
       if secret = [] then svc_throw RawErr
       else svc_bind now (\<lambda>t.
         svc_bind (config x_parse) (\<lambda>parse.
           (case parse secret (trim_space token) t of
              None \<Rightarrow> svc_throw RawErr
            | Some c \<Rightarrow>
                if trim_space (c_platform c) = [] \<or> trim_space (c_title c) = [] \<or> c_qid c = 0
                then svc_throw RawErr else svc_return c))))"

subsection \<open>Candidates\<close>

definition map_luogu_candidates :: "luogu_row list \<Rightarrow> candidate list" where
  "map_luogu_candidates rows =
     map (\<lambda>r. \<lparr>cd_platform = platform_luogu, cd_qid = lg_id r, cd_code = lg_pid r, cd_title = lg_title r\<rparr>)
       (filter (\<lambda>r. lg_id r \<noteq> 0 \<and> lg_status r = source_verified) rows)"

definition map_leetcode_candidates :: "leetcode_row list \<Rightarrow> candidate list" where
  "map_leetcode_candidates rows =
     map (\<lambda>r. \<lparr>cd_platform = platform_leetcode, cd_qid = lc_id r, cd_code = lc_slug r, cd_title = lc_title r\<rparr>)
       (filter (\<lambda>r. lc_id r \<noteq> 0 \<and> lc_status r = source_verified) rows)"

definition map_lanqiao_candidates :: "lanqiao_row list \<Rightarrow> candidate list" where
  "map_lanqiao_candidates rows =
     map (\<lambda>r. \<lparr>cd_platform = platform_lanqiao, cd_qid = lq_id r, cd_code = show_nat (lq_problem r), cd_title = lq_title r\<rparr>)
       (filter (\<lambda>r. lq_id r \<noteq> 0 \<and> lq_status r = source_verified) rows)"

definition find_exact_title_candidates :: "string \<Rightarrow> string \<Rightarrow> candidate list oj" where
  "find_exact_title_candidates platform title =
     (if platform = platform_luogu then
        svc_bind (db_err (ext_read (\<lambda>x. x_luogu x title))) (\<lambda>rows. svc_return (map_luogu_candidates rows))
      else if platform = platform_leetcode then
        svc_bind (db_err (ext_read (\<lambda>x. x_leetcode x title))) (\<lambda>rows. svc_return (map_leetcode_candidates rows))
      else if platform = platform_lanqiao then
        svc_bind (db_err (ext_read (\<lambda>x. x_lanqiao x title))) (\<lambda>rows. svc_return (map_lanqiao_candidates rows))
      else svc_throw (Biz CodeInvalidParams))"

definition candidate_key :: "candidate \<Rightarrow> string" where
  "candidate_key c = cd_platform c @ '':'' @ show_nat (cd_qid c)"

definition deduplicate_analyze_candidates :: "candidate list \<Rightarrow> candidate list" where
  "deduplicate_analyze_candidates cs = uniq_by candidate_key [] cs"

definition find_verified_title_candidates :: "string \<Rightarrow> string \<Rightarrow> candidate list oj" where
  "find_verified_title_candidates platform title =
     svc_bind (find_exact_title_candidates platform title) (\<lambda>cs.
       svc_return (deduplicate_analyze_candidates cs))"

definition get_verified_candidate_by_id :: "string \<Rightarrow> nat \<Rightarrow> candidate oj" where
  "get_verified_candidate_by_id platform qid =
     (if qid = 0 then svc_throw (Biz CodeOJTaskQuestionNotFound)
      else if platform = platform_luogu then
        svc_bind (db_err (ext_read (\<lambda>x. x_luogu_id x qid))) (\<lambda>row.
          (case row of
             None \<Rightarrow> svc_throw (Biz CodeOJTaskQuestionNotFound)
           | Some r \<Rightarrow>
               if lg_id r = 0 \<or> lg_status r \<noteq> source_verified then svc_throw (Biz CodeOJTaskQuestionNotFound)
               else svc_return \<lparr>cd_platform = platform, cd_qid = lg_id r, cd_code = lg_pid r, cd_title = lg_title r\<rparr>))
      else if platform = platform_leetcode then
        svc_bind (db_err (ext_read (\<lambda>x. x_leetcode_id x qid))) (\<lambda>row.
          (case row of
             None \<Rightarrow> svc_throw (Biz CodeOJTaskQuestionNotFound)
           | Some r \<Rightarrow>
               if lc_id r = 0 \<or> lc_status r \<noteq> source_verified then svc_throw (Biz CodeOJTaskQuestionNotFound)
               else svc_return \<lparr>cd_platform = platform, cd_qid = lc_id r, cd_code = lc_slug r, cd_title = lc_title r\<rparr>))
      else if platform = platform_lanqiao then
        svc_bind (db_err (ext_read (\<lambda>x. x_lanqiao_id x qid))) (\<lambda>row.
          (case row of
             None \<Rightarrow> svc_throw (Biz CodeOJTaskQuestionNotFound)
           | Some r \<Rightarrow>
               if lq_id r = 0 \<or> lq_status r \<noteq> source_verified then svc_throw (Biz CodeOJTaskQuestionNotFound)
               else svc_return \<lparr>cd_platform = platform, cd_qid = lq_id r, cd_code = show_nat (lq_problem r), cd_title = lq_title r\<rparr>))
      else svc_throw (Biz CodeInvalidParams))"

subsection \<open>Binding an item\<close>

definition build_resolved_item :: "string \<Rightarrow> string \<Rightarrow> candidate \<Rightarrow> valid_item" where
  "build_resolved_item platform title c =
     \<lparr>vi_sort = 0, vi_platform = platform, vi_title = title, vi_mode = input_mode_title,
      vi_qid = cd_qid c, vi_qcode = cd_code c, vi_qtitle = cd_title c,
      vi_res = ResResolved, vi_note = ''''\<rparr>"

definition build_pending_item :: "string \<Rightarrow> string \<Rightarrow> string \<Rightarrow> valid_item" where
  "build_pending_item platform title note =
     \<lparr>vi_sort = 0, vi_platform = platform, vi_title = title, vi_mode = input_mode_title,
      vi_qid = 0, vi_qcode = '''', vi_qtitle = '''', vi_res = ResPending, vi_note = note\<rparr>"

definition resolve_question_by_id :: "string \<Rightarrow> string \<Rightarrow> nat \<Rightarrow> valid_item oj" where
  "resolve_question_by_id platform title qid =
     svc_bind (get_verified_candidate_by_id platform qid) (\<lambda>c.
       svc_return (build_resolved_item platform title c))"

definition awaiting_question_sync :: string where
  "awaiting_question_sync = ''awaiting_question_sync''"

definition materialize_item :: "norm_item \<Rightarrow> valid_item oj" where
  "materialize_item item =
     (if ni_token item \<noteq> [] then
        svc_bind (wrap_err CodeInvalidParams (token_decode (ni_token item))) (\<lambda>c.
          if c_platform c \<noteq> ni_platform item \<or> normalize_oj_task_title (c_title c) \<noteq> ni_title item
          then svc_throw (Biz CodeInvalidParams)
          else resolve_question_by_id (ni_platform item) (ni_title item) (c_qid c))
      else
        svc_bind (find_verified_title_candidates (ni_platform item) (ni_title item)) (\<lambda>cs.
          (case cs of
             [] \<Rightarrow> svc_return (build_pending_item (ni_platform item) (ni_title item) awaiting_question_sync)
           | [c] \<Rightarrow> svc_return (build_resolved_item (ni_platform item) (ni_title item) c)
           | _ \<Rightarrow> svc_throw (Biz CodeOJTaskQuestionAmbiguous))))"

fun res_status_str :: "res_status \<Rightarrow> string" where
  "res_status_str ResResolved = ''resolved''"
| "res_status_str ResPending = ''pending_resolution''"
| "res_status_str ResInvalid = ''invalid''"

definition materialized_item_key :: "valid_item \<Rightarrow> string" where
  "materialized_item_key v =
     vi_platform v @ ''|'' @ vi_title v @ ''|'' @ show_nat (vi_qid v) @ ''|'' @ res_status_str (vi_res v)"

text \<open>The loop threads the result so far; the \<open>seen\<close> map holds exactly the keys of its rows.\<close>

fun materialize_loop :: "valid_item list \<Rightarrow> norm_item list \<Rightarrow> valid_item list oj" where
  "materialize_loop acc [] = svc_return acc"
| "materialize_loop acc (item # items) =
     svc_bind (materialize_item item) (\<lambda>v.
       if materialized_item_key v \<in> set (map materialized_item_key acc)
       then materialize_loop acc items
       else materialize_loop (acc @ [v\<lparr>vi_sort := length acc + 1\<rparr>]) items)"

definition materialize_items :: "norm_item list \<Rightarrow> valid_item list oj" where
  "materialize_items items =
     (if items = [] then svc_throw (Biz CodeInvalidParams)
      else svc_bind (materialize_loop [] items) (\<lambda>result.
        if result = [] then svc_throw (Biz CodeInvalidParams) else svc_return result))"

definition materialize_draft :: "norm_draft \<Rightarrow> valid_draft oj" where
  "materialize_draft d =
     svc_bind (materialize_items (nd_items d)) (\<lambda>items.
       svc_return \<lparr>vd_title = nd_title d, vd_desc = nd_desc d, vd_mode = nd_mode d,
                   vd_exec_at = nd_exec_at d, vd_orgs = nd_orgs d, vd_items = items\<rparr>)"

subsection \<open>Draft validation\<close>

fun validate_org_ids_loop :: "nat list \<Rightarrow> nat list \<Rightarrow> nat list oj" where
  "validate_org_ids_loop normalized [] =
     (if normalized = [] then svc_throw (Biz CodeInvalidParams) else svc_return normalized)"
| "validate_org_ids_loop normalized (oid # oids) =
     (if oid = 0 then svc_throw (Biz CodeInvalidParams)
      else if oid \<in> set normalized then validate_org_ids_loop normalized oids
      else svc_bind (db_err (org_get oid)) (\<lambda>org.
        (case org of
           None \<Rightarrow> svc_throw (Biz CodeOrgNotFound)
         | Some og \<Rightarrow>
             if og_id og = 0 then svc_throw (Biz CodeOrgNotFound)
             else validate_org_ids_loop (normalized @ [oid]) oids)))"

definition validate_org_ids :: "nat list \<Rightarrow> nat list oj" where
  "validate_org_ids oids =
     (if oids = [] then svc_throw (Biz CodeInvalidParams) else validate_org_ids_loop [] oids)"

fun validate_items_loop :: "item_req list \<Rightarrow> go_err + norm_item list" where
  "validate_items_loop [] = Inr []"
| "validate_items_loop (i # is') =
     (let platform = trim_space (q_platform i); title = normalize_oj_task_title (q_title i)
      in if platform = [] \<or> title = [] then Inl (Biz CodeInvalidParams)
         else (case validate_items_loop is' of
                 Inl e \<Rightarrow> Inl e
               | Inr ns \<Rightarrow> Inr (\<lparr>ni_platform = platform, ni_title = title,
                                 ni_token = trim_space (q_token i)\<rparr> # ns)))"

definition validate_items :: "item_req list \<Rightarrow> go_err + norm_item list" where
  "validate_items items = (if items = [] then Inl (Biz CodeInvalidParams) else validate_items_loop items)"

text \<open>The mode switch of \<open>validateDraft\<close>: what it makes of \<open>execute_at\<close>.\<close>

definition normalize_execute_at :: "string \<Rightarrow> int option \<Rightarrow> int \<Rightarrow> go_err + int option" where
  "normalize_execute_at mode at t =
     (if mode = mode_immediate then
        (case at of None \<Rightarrow> Inr None | Some _ \<Rightarrow> Inl (Biz CodeOJTaskExecuteAtInvalid))
      else
        (case at of
           None \<Rightarrow> Inl (Biz CodeOJTaskExecuteAtInvalid)
         | Some a \<Rightarrow> if t < a then Inr (Some a) else Inl (Biz CodeOJTaskExecuteAtInvalid)))"

definition validate_draft :: "draft_req \<Rightarrow> norm_draft oj" where
  "validate_draft r =
     (if trim_space (dr_title r) = [] then svc_throw (Biz CodeInvalidParams)
      else if \<not> is_valid_oj_task_mode (trim_space (dr_mode r)) then svc_throw (Biz CodeInvalidParams)
      else svc_bind now (\<lambda>t.
        svc_bind (svc_lift (normalize_execute_at (trim_space (dr_mode r)) (dr_exec_at r) t)) (\<lambda>at.
        svc_bind (validate_org_ids (dr_orgs r)) (\<lambda>orgs.
        svc_bind (svc_lift (validate_items (dr_items r))) (\<lambda>items.
          svc_return \<lparr>nd_title = trim_space (dr_title r), nd_desc = trim_space (dr_desc r),
            nd_mode = trim_space (dr_mode r), nd_exec_at = at, nd_orgs = orgs, nd_items = items\<rparr>)))))"

end
