(* ===== verification/OJ_Task_Service.thy ===== *)
theory OJ_Task_Service
  imports OJ_Resolution
begin

text \<open>
  The commands of \<open>ojTaskSvc.go\<close>: creating, updating, deleting, revising and retrying a task
  version and executing a scheduled one now, each with its guards, its database calls in
  order and its transaction, and the outbox trigger of \<open>ojTaskOutbox.go\<close> that a queued
  execution publishes inside that transaction. A task is versioned: every version is a row
  of its own with the id of the first version as root, and has one execution row.
\<close>

subsection \<open>Pure helpers\<close>

definition normalize_uint_slice :: "nat list \<Rightarrow> nat list" where
  "normalize_uint_slice vs = uniq_by (\<lambda>v. v) [] (filter (\<lambda>v. v \<noteq> 0) vs)"

definition merge_uint_slices :: "nat list \<Rightarrow> nat list \<Rightarrow> nat list" where
  "merge_uint_slices l r = normalize_uint_slice (l @ r)"

definition effective_root_task_id :: "oj_task \<Rightarrow> nat" where
  "effective_root_task_id t =
     (case t_root t of Some r \<Rightarrow> if 0 < r then r else t_id t | None \<Rightarrow> t_id t)"

definition resolve_execution_trigger :: "string \<Rightarrow> trigger_type" where
  "resolve_execution_trigger mode = (if mode = mode_immediate then CreateImmediate else ScheduleDue)"

definition task_org_ids :: "task_org list \<Rightarrow> nat list" where
  "task_org_ids orgs = normalize_uint_slice (filter (\<lambda>v. v \<noteq> 0) (map to_org orgs))"

definition build_task_org_rows :: "nat \<Rightarrow> nat list \<Rightarrow> task_org list" where
  "build_task_org_rows tid oids = map (\<lambda>oid. \<lparr>to_id = 0, to_task = tid, to_org = oid\<rparr>) oids"

definition build_task_item_rows :: "nat \<Rightarrow> valid_item list \<Rightarrow> oj_item list" where
  "build_task_item_rows tid items =
     map (\<lambda>v. \<lparr>i_id = 0, i_task = tid, i_sort = vi_sort v, i_platform = vi_platform v,
               i_title = vi_title v, i_mode = vi_mode v, i_qid = vi_qid v, i_qcode = vi_qcode v,
               i_qtitle = vi_qtitle v, i_res = vi_res v, i_note = vi_note v\<rparr>) items"

definition build_task_intake_rows :: "nat \<Rightarrow> oj_item list \<Rightarrow> oj_intake list" where
  "build_task_intake_rows tid items =
     map (\<lambda>i. \<lparr>k_id = 0, k_task = tid, k_item = i_id i, k_platform = i_platform i,
               k_title = i_title i, k_status = i_res i, k_qid = i_qid i, k_note = i_note i\<rparr>)
       (filter (\<lambda>i. i_id i \<noteq> 0 \<and> i_res i = ResPending) items)"

definition item_to_valid :: "oj_item \<Rightarrow> valid_item" where
  "item_to_valid i =
     \<lparr>vi_sort = i_sort i, vi_platform = i_platform i, vi_title = i_title i, vi_mode = i_mode i,
      vi_qid = i_qid i, vi_qcode = i_qcode i, vi_qtitle = i_qtitle i, vi_res = i_res i,
      vi_note = i_note i\<rparr>"

definition valid_item_order :: "valid_item \<Rightarrow> nat \<times> string \<times> string \<times> nat" where
  "valid_item_order v = (vi_sort v, vi_platform v, vi_title v, vi_qid v)"

definition task_items_to_validated :: "oj_item list \<Rightarrow> valid_item list" where
  "task_items_to_validated items =
     number_rows (\<lambda>n v. v\<lparr>vi_sort := n\<rparr>) 1 (sort_key valid_item_order (map item_to_valid items))"

definition authorize_manage_org_ids :: "nat \<Rightarrow> nat list \<Rightarrow> unit oj" where
  "authorize_manage_org_ids operator oids =
     svc_iter (\<lambda>oid. authorize_org_capability operator oid capability_oj_task_manage)
       (normalize_uint_slice oids)"

subsection \<open>The outbox trigger\<close>

definition trigger_payload :: "nat \<Rightarrow> nat \<Rightarrow> string" where
  "trigger_payload eid tid =
     ''{'' @ [CHR 0x22] @ ''execution_id'' @ [CHR 0x22] @ '':'' @ show_nat eid @
     '','' @ [CHR 0x22] @ ''task_id'' @ [CHR 0x22] @ '':'' @ show_nat tid @ ''}''"

definition build_trigger_event :: "nat \<Rightarrow> nat \<Rightarrow> outbox_event oj" where
  "build_trigger_event eid tid =
     (if eid = 0 \<or> tid = 0 then svc_throw RawErr
      else svc_bind (config x_topic) (\<lambda>topic.
        if trim_space topic = [] then svc_throw RawErr
        else svc_bind (config x_trace) (\<lambda>(trace, request, parent, tstate).
          svc_bind new_uuid (\<lambda>u.
            svc_bind now (\<lambda>t.
              svc_return \<lparr>ob_event_id = u, ob_type = trim_space topic, ob_agg_id = show_nat eid,
                ob_agg_type = ''oj_task_execution'', ob_payload = trigger_payload eid tid,
                ob_trace_id = trace, ob_request_id = request, ob_traceparent = parent,
                ob_tracestate = tstate, ob_status = OPending, ob_retry = 0, ob_error = '''',
                ob_published_at = None, ob_created_at = t, ob_updated_at = t\<rparr>)))))"

text \<open>
  The wake-up signal \<open>notify\<close> sends after the insert is fire-and-forget (its error is only
  logged) and is left out.
\<close>

definition publish_trigger_in_tx :: "nat \<Rightarrow> nat \<Rightarrow> unit oj" where
  "publish_trigger_in_tx eid tid = svc_bind (build_trigger_event eid tid) outbox_insert"

definition publish_queued_execution_trigger_in_tx :: "nat \<Rightarrow> nat \<Rightarrow> unit oj" where
  "publish_queued_execution_trigger_in_tx eid tid =
     (if eid = 0 \<or> tid = 0 then svc_return () else db_err (publish_trigger_in_tx eid tid))"

subsection \<open>Creating a version\<close>

record create_resp =
  cr_task :: nat
  cr_exec :: nat
  cr_status :: task_status

definition new_execution :: "nat \<Rightarrow> trigger_type \<Rightarrow> int \<Rightarrow> nat \<Rightarrow> exec_status \<Rightarrow> oj_exec" where
  "new_execution tid trigger planned operator st =
     \<lparr>e_id = 0, e_task = tid, e_trigger = trigger, e_planned = planned, e_started = None,
      e_finished = None, e_requested = operator, e_status = st, e_error = '''',
      e_total_users = 0, e_done_users = 0, e_pend_users = 0,
      e_total_items = 0, e_done_items = 0, e_pend_items = 0\<rparr>"

definition create_task_version ::
  "nat option \<Rightarrow> nat option \<Rightarrow> nat \<Rightarrow> nat \<Rightarrow> valid_draft \<Rightarrow> trigger_type \<Rightarrow> create_resp oj" where
  "create_task_version root parent version operator draft trigger =
     svc_bind now (\<lambda>t0.
       let immediate = (vd_mode draft = mode_immediate);
           tstatus = (if immediate then TQueued else TScheduled);
           estatus = (if immediate then EQueued else EScheduled);
           planned = (if immediate then t0 else (case vd_exec_at draft of None \<Rightarrow> t0 | Some a \<Rightarrow> a))
       in svc_bind (db_err (task_create
            \<lparr>t_id = 0, t_root = root, t_parent = parent, t_version = version, t_title = vd_title draft,
             t_desc = vd_desc draft, t_mode = vd_mode draft, t_status = tstatus,
             t_exec_at = vd_exec_at draft, t_created_by = operator, t_updated_by = operator\<rparr>)) (\<lambda>task.
          svc_bind (if root = None \<or> root = Some 0
                    then db_err (task_update_root (t_id task) (t_id task)) else svc_return ()) (\<lambda>_.
          svc_bind (db_err (orgs_create (build_task_org_rows (t_id task) (vd_orgs draft)))) (\<lambda>_.
          svc_bind (db_err (items_create (build_task_item_rows (t_id task) (vd_items draft)))) (\<lambda>items.
          svc_bind (db_err (intakes_create (build_task_intake_rows (t_id task) items))) (\<lambda>_.
          svc_bind (db_err (exec_create (new_execution (t_id task) trigger planned operator estatus))) (\<lambda>e.
          svc_bind (if e_status e = EQueued
                    then publish_queued_execution_trigger_in_tx (e_id e) (t_id task) else svc_return ()) (\<lambda>_.
            svc_return \<lparr>cr_task = t_id task, cr_exec = e_id e, cr_status = t_status task\<rparr>))))))))"

definition create_task :: "nat \<Rightarrow> draft_req \<Rightarrow> create_resp oj" where
  "create_task operator req =
     svc_bind (validate_draft req) (\<lambda>draft.
     svc_bind (authorize_manage_org_ids operator (nd_orgs draft)) (\<lambda>_.
       in_tx (svc_bind (materialize_draft draft) (\<lambda>md.
         create_task_version None None 1 operator md (resolve_execution_trigger (nd_mode draft))))))"

subsection \<open>Loading\<close>

definition load_editable_scheduled_task :: "nat \<Rightarrow> (oj_task \<times> oj_exec \<times> nat list) oj" where
  "load_editable_scheduled_task tid =
     svc_bind (db_err (task_get tid)) (\<lambda>task.
       (case task of
          None \<Rightarrow> svc_throw (Biz CodeOJTaskNotFound)
        | Some t \<Rightarrow>
            if t_status t = TDeleted then svc_throw (Biz CodeOJTaskDeleted)
            else svc_bind (db_err (exec_by_task tid)) (\<lambda>ex.
              (case ex of
                 None \<Rightarrow> svc_throw (Biz CodeOJTaskExecutionNotFound)
               | Some e \<Rightarrow>
                   if t_mode t \<noteq> mode_scheduled \<or> t_status t \<noteq> TScheduled \<or> e_status e \<noteq> EScheduled
                   then svc_throw (Biz CodeOJTaskNotEditable)
                   else svc_bind (db_err (orgs_list tid)) (\<lambda>orgs.
                     svc_return (t, e, task_org_ids orgs))))))"

definition load_task_with_execution :: "nat \<Rightarrow> (oj_task \<times> oj_exec option \<times> nat list) oj" where
  "load_task_with_execution tid =
     svc_bind (db_err (task_get tid)) (\<lambda>task.
       (case task of
          None \<Rightarrow> svc_throw (Biz CodeOJTaskNotFound)
        | Some t \<Rightarrow>
            svc_bind (db_err (exec_by_task tid)) (\<lambda>ex.
              svc_bind (db_err (orgs_list tid)) (\<lambda>orgs.
                svc_return (t, ex, task_org_ids orgs)))))"

definition next_version_no :: "nat \<Rightarrow> nat oj" where
  "next_version_no rid =
     svc_bind (db_err (task_latest_by_root rid)) (\<lambda>t.
       svc_return (case t of None \<Rightarrow> 1 | Some t' \<Rightarrow> t_version t' + 1))"

subsection \<open>Commands on an existing task\<close>

definition update_task :: "nat \<Rightarrow> nat \<Rightarrow> draft_req \<Rightarrow> unit oj" where
  "update_task operator tid req =
     svc_bind (validate_draft req) (\<lambda>draft.
       in_tx (svc_bind (load_editable_scheduled_task tid) (\<lambda>(task, e, orgs).
         svc_bind (authorize_manage_org_ids operator (merge_uint_slices orgs (nd_orgs draft))) (\<lambda>_.
           if nd_exec_at draft = None then svc_throw (Biz CodeOJTaskExecuteAtInvalid)
           else svc_bind (materialize_draft draft) (\<lambda>md.
             svc_bind (db_err (task_update
               (task\<lparr>t_title := vd_title md, t_desc := vd_desc md, t_exec_at := vd_exec_at md,
                     t_updated_by := operator\<rparr>))) (\<lambda>_.
             svc_bind (db_err (orgs_replace (t_id task) (build_task_org_rows (t_id task) (vd_orgs md)))) (\<lambda>_.
             svc_bind (db_err (items_replace (t_id task) (build_task_item_rows (t_id task) (vd_items md)))) (\<lambda>items.
             svc_bind (db_err (intakes_replace (t_id task) (build_task_intake_rows (t_id task) items))) (\<lambda>_.
               db_err (exec_update
                 (e\<lparr>e_planned := the (vd_exec_at md), e_requested := operator\<rparr>)))))))))))"

definition delete_task :: "nat \<Rightarrow> nat \<Rightarrow> unit oj" where
  "delete_task operator tid =
     in_tx (svc_bind (load_editable_scheduled_task tid) (\<lambda>(task, e, orgs).
       svc_bind (authorize_manage_org_ids operator orgs) (\<lambda>_.
       svc_bind now (\<lambda>t.
       svc_bind (db_err (task_update (task\<lparr>t_status := TDeleted, t_updated_by := operator\<rparr>))) (\<lambda>_.
         db_err (exec_update
           (e\<lparr>e_status := ECancelled, e_finished := Some t, e_error := ''''\<rparr>)))))))"

definition requeue_execution :: "nat \<Rightarrow> int \<Rightarrow> oj_exec \<Rightarrow> oj_exec" where
  "requeue_execution operator t e =
     e\<lparr>e_status := EQueued, e_trigger := ExecuteNow, e_planned := t, e_requested := operator,
       e_started := None, e_finished := None, e_error := '''',
       e_total_users := 0, e_done_users := 0, e_pend_users := 0,
       e_total_items := 0, e_done_items := 0, e_pend_items := 0\<rparr>"

definition execute_task_now :: "nat \<Rightarrow> nat \<Rightarrow> create_resp oj" where
  "execute_task_now operator tid =
     in_tx (svc_bind (load_editable_scheduled_task tid) (\<lambda>(task, e, orgs).
       svc_bind (authorize_manage_org_ids operator orgs) (\<lambda>_.
       svc_bind now (\<lambda>t.
       svc_bind (db_err (task_update (task\<lparr>t_status := TQueued, t_updated_by := operator\<rparr>))) (\<lambda>_.
       svc_bind (db_err (exec_update (requeue_execution operator t e))) (\<lambda>_.
       svc_bind (publish_queued_execution_trigger_in_tx (e_id e) (t_id task)) (\<lambda>_.
         svc_return \<lparr>cr_task = t_id task, cr_exec = e_id e, cr_status = TQueued\<rparr>)))))))"

definition revise_task :: "nat \<Rightarrow> nat \<Rightarrow> draft_req \<Rightarrow> create_resp oj" where
  "revise_task operator tid req =
     svc_bind (validate_draft req) (\<lambda>draft.
     svc_bind (load_task_with_execution tid) (\<lambda>(source, ex, orgs).
       if t_status source = TDeleted then svc_throw (Biz CodeOJTaskDeleted)
       else if ex = None then svc_throw (Biz CodeOJTaskExecutionNotFound)
       else svc_bind (authorize_manage_org_ids operator (merge_uint_slices orgs (nd_orgs draft))) (\<lambda>_.
         in_tx (svc_bind (materialize_draft draft) (\<lambda>md.
           svc_bind (next_version_no (effective_root_task_id source)) (\<lambda>v.
             create_task_version (Some (effective_root_task_id source)) (Some (t_id source)) v operator md
               (resolve_execution_trigger (vd_mode md))))))))"

definition retry_draft :: "oj_task \<Rightarrow> nat list \<Rightarrow> oj_item list \<Rightarrow> valid_draft" where
  "retry_draft source orgs items =
     \<lparr>vd_title = t_title source, vd_desc = t_desc source, vd_mode = mode_immediate,
      vd_exec_at = None, vd_orgs = orgs, vd_items = task_items_to_validated items\<rparr>"

definition retry_task :: "nat \<Rightarrow> nat \<Rightarrow> create_resp oj" where
  "retry_task operator tid =
     svc_bind (load_task_with_execution tid) (\<lambda>(source, ex, orgs).
       if t_status source = TDeleted then svc_throw (Biz CodeOJTaskDeleted)
       else (case ex of
          None \<Rightarrow> svc_throw (Biz CodeOJTaskExecutionNotFound)
        | Some e \<Rightarrow>
            if e_status e \<noteq> ESucceeded \<and> e_status e \<noteq> EFailed then svc_throw (Biz CodeOJTaskNotEditable)
            else svc_bind (authorize_manage_org_ids operator orgs) (\<lambda>_.
              svc_bind (db_err (items_list tid)) (\<lambda>items.
                in_tx (svc_bind (next_version_no (effective_root_task_id source)) (\<lambda>v.
                  create_task_version (Some (effective_root_task_id source)) (Some (t_id source)) v operator
                    (retry_draft source orgs items) RetryTrigger))))))"

end
