(* ===== verification/OJ_Preflight.thy ===== *)
theory OJ_Preflight
  imports OJ_Task_Service
begin

text \<open>
  The two places where an item that could not be bound when its task was written is bound
  later: \<open>ojTask_preflight.go\<close>, just before the execution freezes the facts, and
  \<open>ojTask_question_upsert.go\<close>, when a question appears in a bank. Items and their intake
  rows are objects the code mutates and then saves; the model passes the changed rows on.
\<close>

definition apply_resolved_candidate_to_task_item ::
  "oj_item \<Rightarrow> candidate \<Rightarrow> string \<Rightarrow> bool \<times> oj_item" where
  "apply_resolved_candidate_to_task_item i c note =
     (i_qid i \<noteq> cd_qid c \<or> i_qcode i \<noteq> cd_code c \<or> i_qtitle i \<noteq> cd_title c \<or>
        i_res i \<noteq> ResResolved \<or> i_note i \<noteq> note,
      i\<lparr>i_qid := cd_qid c, i_qcode := cd_code c, i_qtitle := cd_title c, i_res := ResResolved,
        i_note := note\<rparr>)"

definition note_title_missing :: string where
  "note_title_missing = ''preflight_input_title_missing''"

definition note_auto_resolved :: string where
  "note_auto_resolved = ''preflight_auto_resolved''"

definition note_resolution_failed :: string where
  "note_resolution_failed = ''preflight_resolution_failed''"

definition note_upsert_resolved :: string where
  "note_upsert_resolved = ''auto_resolved_from_question_upsert''"

definition invalidate_intake :: "string \<Rightarrow> oj_intake \<Rightarrow> oj_intake" where
  "invalidate_intake note k = k\<lparr>k_status := ResInvalid, k_note := note\<rparr>"

definition resolve_intake :: "nat \<Rightarrow> oj_intake \<Rightarrow> oj_intake" where
  "resolve_intake qid k = k\<lparr>k_status := ResResolved, k_qid := qid, k_note := ''''\<rparr>"

text \<open>The result says whether to save the item, the item as it is now, and the intake to save.\<close>

definition preflight_task_item :: "oj_item \<Rightarrow> oj_intake option \<Rightarrow> (bool \<times> oj_item \<times> oj_intake option) oj" where
  "preflight_task_item i intake =
     (if i_id i = 0 then svc_return (False, i, None)
      else if i_res i = ResResolved \<and> 0 < i_qid i then svc_return (False, i, None)
      else if i_title i = [] then
        svc_return (True, i\<lparr>i_res := ResInvalid, i_note := note_title_missing\<rparr>,
                    map_option (invalidate_intake note_title_missing) intake)
      else if i_res i \<noteq> ResPending then svc_return (False, i, None)
      else svc_bind (find_verified_title_candidates (i_platform i) (i_title i)) (\<lambda>cs.
        (case cs of
           [c] \<Rightarrow> (case apply_resolved_candidate_to_task_item i c note_auto_resolved of
                     (changed, i') \<Rightarrow> svc_return (changed, i', map_option (resolve_intake (cd_qid c)) intake))
         | _ \<Rightarrow> svc_return (True, i\<lparr>i_res := ResInvalid, i_note := note_resolution_failed\<rparr>,
                            map_option (invalidate_intake note_resolution_failed) intake))))"

text \<open>The map from item to intake keeps the last intake of an item.\<close>

definition intake_of :: "oj_intake list \<Rightarrow> nat \<Rightarrow> oj_intake option" where
  "intake_of ks iid = find (\<lambda>k. k_item k = iid) (rev (filter (\<lambda>k. k_item k \<noteq> 0) ks))"

definition preflight_step :: "oj_intake list \<Rightarrow> oj_item \<Rightarrow> unit oj" where
  "preflight_step intakes i =
     (if i_id i = 0 then svc_return ()
      else svc_bind (preflight_task_item i (intake_of intakes (i_id i))) (\<lambda>(item_changed, i', intake_changed).
        svc_bind (if item_changed then db_err (item_update i') else svc_return ()) (\<lambda>_.
          (case intake_changed of
             None \<Rightarrow> svc_return ()
           | Some k \<Rightarrow> db_err (intake_update k)))))"

definition preflight_check :: "nat \<Rightarrow> unit oj" where
  "preflight_check tid =
     svc_bind (config x_preflight) (\<lambda>enabled.
       if \<not> enabled \<or> tid = 0 then svc_return ()
       else in_tx (svc_bind (db_err (items_list tid)) (\<lambda>items.
         svc_bind (db_err (intakes_list tid)) (\<lambda>intakes.
           svc_iter (preflight_step intakes) items))))"

definition upsert_step :: "string \<Rightarrow> candidate \<Rightarrow> oj_intake \<Rightarrow> unit oj" where
  "upsert_step title c k =
     (if k_item k = 0 then svc_return ()
      else svc_bind (db_err (item_get (k_item k))) (\<lambda>item.
        (case item of
           None \<Rightarrow> svc_return ()
         | Some i \<Rightarrow>
             if i_id i = 0 \<or> i_res i \<noteq> ResPending \<or> normalize_oj_task_title (i_title i) \<noteq> title
             then svc_return ()
             else (case apply_resolved_candidate_to_task_item i c note_upsert_resolved of
               (changed, i') \<Rightarrow>
                 svc_bind (if changed then db_err (item_update i') else svc_return ()) (\<lambda>_.
                   db_err (intake_update (resolve_intake (cd_qid c) k)))))))"

definition handle_question_upserted :: "string \<Rightarrow> string \<Rightarrow> unit oj" where
  "handle_question_upserted platform title =
     (if trim_space platform = [] \<or> trim_space title = [] then svc_throw (Biz CodeInvalidParams)
      else in_tx (svc_bind (find_verified_title_candidates platform (normalize_oj_task_title title)) (\<lambda>cs.
        (case cs of
           [c] \<Rightarrow> svc_bind (db_err (intakes_pending_by_title platform (normalize_oj_task_title title)))
                    (svc_iter (upsert_step (normalize_oj_task_title title) c))
         | _ \<Rightarrow> svc_return ()))))"

end
