(* ===== verification/OJ_Snapshot.thy ===== *)
theory OJ_Snapshot
  imports OJ_Preflight
begin

text \<open>
  Freezing the facts of an execution (\<open>buildExecutionSnapshot\<close>, the fact loaders and
  \<open>resolveOJTaskItemResult\<close> of \<open>ojTaskDispatcher.go\<close>): every active member of the task's
  organisations gets one result per item, and the totals are counted along the way. The
  two nested loops are folds over the same accumulators the code mutates.
\<close>

subsection \<open>Facts of a platform\<close>

record facts =
  f_details :: "detail_row list"
  f_solved :: "(nat \<times> nat) list"

definition load_facts ::
  "(oj_ext \<Rightarrow> detail_row list) \<Rightarrow> (oj_ext \<Rightarrow> (nat \<times> nat) list) \<Rightarrow> nat list \<Rightarrow> facts oj" where
  "load_facts details solved uids =
     svc_bind (if uids = [] then svc_return []
               else db_err (ext_read (\<lambda>x. filter (\<lambda>d. d_user d \<in> set uids) (details x)))) (\<lambda>ds.
       let ds' = filter (\<lambda>d. d_id d \<noteq> 0) ds
       in svc_bind (if ds' = [] then svc_return []
                    else db_err (ext_read (\<lambda>x. filter (\<lambda>p. fst p \<in> set (map d_id ds')) (solved x)))) (\<lambda>ss.
            svc_return \<lparr>f_details = ds', f_solved = ss\<rparr>))"

definition load_luogu_execution_facts :: "nat list \<Rightarrow> facts oj" where
  "load_luogu_execution_facts = load_facts x_luogu_details x_luogu_solved"

definition load_leetcode_execution_facts :: "nat list \<Rightarrow> facts oj" where
  "load_leetcode_execution_facts = load_facts x_leetcode_details x_leetcode_solved"

definition load_lanqiao_execution_facts :: "nat list \<Rightarrow> facts oj" where
  "load_lanqiao_execution_facts = load_facts x_lanqiao_details x_lanqiao_solved"

definition detail_of :: "facts \<Rightarrow> nat \<Rightarrow> detail_row option" where
  "detail_of f uid = find (\<lambda>d. d_user d = uid) (rev (f_details f))"

definition platform_result :: "facts \<Rightarrow> nat \<Rightarrow> nat \<Rightarrow> item_result \<times> pending_reason" where
  "platform_result f uid qid =
     (case detail_of f uid of
        None \<Rightarrow> (RPending, AccountUnbound)
      | Some d \<Rightarrow> if (d_id d, qid) \<in> set (f_solved f) then (RCompleted, NoReason) else (RPending, Unsolved))"

definition resolve_oj_task_item_result ::
  "facts \<Rightarrow> facts \<Rightarrow> facts \<Rightarrow> nat \<Rightarrow> oj_item \<Rightarrow> item_result \<times> pending_reason" where
  "resolve_oj_task_item_result luogu leetcode lanqiao uid i =
     (if i_res i \<noteq> ResResolved \<or> i_qid i = 0 then (RPending, QuestionNotFound)
      else if i_platform i = platform_luogu then platform_result luogu uid (i_qid i)
      else if i_platform i = platform_leetcode then platform_result leetcode uid (i_qid i)
      else if i_platform i = platform_lanqiao then platform_result lanqiao uid (i_qid i)
      else (RPending, Unsolved))"

subsection \<open>The snapshot\<close>

record user_org_draft =
  od_user :: nat
  od_org :: nat
  od_name :: string

record user_item_draft =
  xd_user :: nat
  xd_item :: nat
  xd_result :: item_result
  xd_reason :: pending_reason

record snapshot =
  sn_users :: "exec_user list"
  sn_orgs :: "user_org_draft list"
  sn_items :: "user_item_draft list"
  sn_total_users :: nat
  sn_done_users :: nat
  sn_pend_users :: nat
  sn_total_items :: nat
  sn_done_items :: nat
  sn_pend_items :: nat

definition empty_snapshot :: snapshot where
  "empty_snapshot =
     \<lparr>sn_users = [], sn_orgs = [], sn_items = [], sn_total_users = 0, sn_done_users = 0,
      sn_pend_users = 0, sn_total_items = 0, sn_done_items = 0, sn_pend_items = 0\<rparr>"

type_synonym resolver = "nat \<Rightarrow> oj_item \<Rightarrow> item_result \<times> pending_reason"

fun snapshot_item_step :: "resolver \<Rightarrow> exec_user \<times> snapshot \<Rightarrow> oj_item \<Rightarrow> exec_user \<times> snapshot" where
  "snapshot_item_step res (eu, s) i =
     (case res (u_user eu) i of (result, reason) \<Rightarrow>
        let eu' = (if result = RCompleted then eu\<lparr>u_done := u_done eu + 1\<rparr> else eu\<lparr>u_pend := u_pend eu + 1\<rparr>);
            s' = (if result = RCompleted then s\<lparr>sn_done_items := sn_done_items s + 1\<rparr>
                  else s\<lparr>sn_pend_items := sn_pend_items s + 1\<rparr>)
        in (eu', s'\<lparr>sn_total_items := sn_total_items s' + 1,
                    sn_items := sn_items s' @ [\<lparr>xd_user = u_user eu, xd_item = i_id i,
                                                xd_result = result, xd_reason = reason\<rparr>]\<rparr>))"

definition snapshot_user_step ::
  "resolver \<Rightarrow> oj_item list \<Rightarrow> (nat \<Rightarrow> nat list) \<Rightarrow> (nat \<Rightarrow> string) \<Rightarrow> nat \<Rightarrow> snapshot \<Rightarrow> user_row \<Rightarrow> snapshot" where
  "snapshot_user_step res items orgs_of name_of eid s user =
     (let orgs = sort (normalize_uint_slice (orgs_of (us_id user)));
          eu = \<lparr>u_id = 0, u_exec = eid, u_user = us_id user, u_uuid = us_uuid user, u_name = us_name user,
                u_avatar = us_avatar user, u_status = wrap_int8 (us_status user), u_done = 0, u_pend = 0, u_all = False\<rparr>;
          s1 = s\<lparr>sn_orgs := sn_orgs s @
                   map (\<lambda>oid. \<lparr>od_user = us_id user, od_org = oid, od_name = name_of oid\<rparr>) orgs\<rparr>
      in (case foldl (snapshot_item_step res) (eu, s1) items of (eu', s2) \<Rightarrow>
            let eu'' = eu'\<lparr>u_all := (u_pend eu' = 0)\<rparr>;
                s3 = (if u_all eu'' then s2\<lparr>sn_done_users := sn_done_users s2 + 1\<rparr>
                      else s2\<lparr>sn_pend_users := sn_pend_users s2 + 1\<rparr>)
            in s3\<lparr>sn_total_users := sn_total_users s3 + 1, sn_users := sn_users s3 @ [eu'']\<rparr>))"

definition org_name_of :: "(nat \<times> string) list \<Rightarrow> nat \<Rightarrow> string" where
  "org_name_of orgs oid =
     (case find (\<lambda>o'. fst o' = oid) (rev orgs) of None \<Rightarrow> '''' | Some o' \<Rightarrow> snd o')"

definition active_pairs :: "nat list \<Rightarrow> member_row list \<Rightarrow> (nat \<times> nat) list" where
  "active_pairs oids ms =
     sort (map (\<lambda>m. (m_user m, m_org m)) (filter (\<lambda>m. m_org m \<in> set oids \<and> m_active m) ms))"

definition list_active_user_org_pairs :: "nat list \<Rightarrow> (nat \<times> nat) list oj" where
  "list_active_user_org_pairs oids =
     (if oids = [] then svc_return [] else ext_read (\<lambda>x. active_pairs oids (x_members x)))"

definition users_by_ids :: "nat list \<Rightarrow> user_row list oj" where
  "users_by_ids uids =
     (if uids = [] then svc_return [] else ext_read (\<lambda>x. filter (\<lambda>u. us_id u \<in> set uids) (x_users x)))"

definition user_of :: "user_row list \<Rightarrow> nat \<Rightarrow> user_row option" where
  "user_of users uid = find (\<lambda>u. us_id u = uid) (rev (filter (\<lambda>u. us_id u \<noteq> 0) users))"

definition build_execution_snapshot :: "oj_task \<Rightarrow> oj_exec \<Rightarrow> snapshot oj" where
  "build_execution_snapshot task e =
     svc_bind (db_err (orgs_with_names (t_id task))) (\<lambda>orgs0.
     svc_bind (db_err (items_list (t_id task))) (\<lambda>items0.
       let items = sort_key (\<lambda>i. (i_sort i, i_id i)) items0;
           orgs = filter (\<lambda>o'. fst o' \<noteq> 0) orgs0
       in svc_bind (db_err (list_active_user_org_pairs (map fst orgs))) (\<lambda>pairs0.
          let pairs = filter (\<lambda>p. fst p \<noteq> 0 \<and> snd p \<noteq> 0) pairs0;
              uids = sort (remdups (map fst pairs))
          in if uids = [] then svc_return empty_snapshot
             else svc_bind (db_err (users_by_ids uids)) (\<lambda>users.
               if \<exists>uid \<in> set uids. user_of users uid = None then svc_throw (Biz CodeInternalError)
               else svc_bind (load_luogu_execution_facts uids) (\<lambda>luogu.
                    svc_bind (load_leetcode_execution_facts uids) (\<lambda>leetcode.
                    svc_bind (load_lanqiao_execution_facts uids) (\<lambda>lanqiao.
                      svc_return (foldl
                        (snapshot_user_step (resolve_oj_task_item_result luogu leetcode lanqiao) items
                          (\<lambda>uid. map snd (filter (\<lambda>p. fst p = uid) pairs)) (org_name_of orgs) (e_id e))
                        empty_snapshot (map (\<lambda>uid. the (user_of users uid)) uids))))))))) "

end
