(* ===== verification/OJ_Dispatch.thy ===== *)
theory OJ_Dispatch
  imports OJ_Snapshot
begin

text \<open>
  Running an execution (\<open>ojTaskDispatcher.go\<close>): take the execution lock, claim the row, move
  the task to executing, run the preflight, freeze the snapshot and write it in one
  transaction; a failure on the way moves execution and task to failed. The scheduler
  \<open>dispatch_pending_executions\<close> and the event subscriber \<open>execute_execution_by_id\<close> both go
  through \<open>dispatch_single_execution\<close> and differ in which outcomes they report.
\<close>

datatype attempt = Executed | Noop | TerminalFailed go_err | RetryableError go_err

definition dispatchable_statuses :: "exec_status list" where
  "dispatchable_statuses = [EScheduled, EQueued]"

definition is_dispatchable :: "exec_status \<Rightarrow> bool" where
  "is_dispatchable s \<longleftrightarrow> (case s of EScheduled \<Rightarrow> True | EQueued \<Rightarrow> True | _ \<Rightarrow> False)"

lemma is_dispatchable_iff: "is_dispatchable s \<longleftrightarrow> s \<in> set dispatchable_statuses"
  by (cases s) (simp_all add: is_dispatchable_def dispatchable_statuses_def)

fun dispatch_attempt_result_error :: "attempt \<Rightarrow> go_err option" where
  "dispatch_attempt_result_error (TerminalFailed e) = Some e"
| "dispatch_attempt_result_error (RetryableError e) = Some e"
| "dispatch_attempt_result_error _ = None"

fun trigger_attempt_result_error :: "attempt \<Rightarrow> go_err option" where
  "trigger_attempt_result_error (RetryableError e) = Some e"
| "trigger_attempt_result_error _ = None"

text \<open>\<open>acquireOJTaskExecutionLock\<close>; the value says whether another holder has the lock.\<close>

definition acquire_execution_lock :: "bool oj" where
  "acquire_execution_lock w =
     (if \<not> x_lock_on (w_ext w) then (Inr False, w)
      else (case w_lock w (w_step w) of
              LockTaken \<Rightarrow> (Inr False, tick w)
            | LockBusy \<Rightarrow> (Inr True, tick w)
            | LockError \<Rightarrow> (Inl (Biz CodeRedisError), tick w)))"

subsection \<open>Failing\<close>

definition default_failure_message :: string where
  "default_failure_message = ''oj task execution failed''"

definition failure_message :: "(go_err \<Rightarrow> string) \<Rightarrow> go_err \<Rightarrow> string" where
  "failure_message text cause =
     (let m = trim_space (text cause) in if m = [] then default_failure_message else m)"

definition failed_execution :: "string \<Rightarrow> int \<Rightarrow> oj_exec \<Rightarrow> oj_exec" where
  "failed_execution msg t e =
     e\<lparr>e_status := EFailed, e_finished := Some t, e_error := msg,
       e_started := (case e_started e of None \<Rightarrow> Some t | Some s \<Rightarrow> Some s),
       e_total_users := 0, e_done_users := 0, e_pend_users := 0,
       e_total_items := 0, e_done_items := 0, e_pend_items := 0\<rparr>"

definition set_task_status :: "task_status \<Rightarrow> oj_exec option \<Rightarrow> oj_task \<Rightarrow> oj_task" where
  "set_task_status st e t =
     (let t' = t\<lparr>t_status := st\<rparr>
      in case e of
           None \<Rightarrow> t'
         | Some e' \<Rightarrow> if 0 < e_requested e' then t'\<lparr>t_updated_by := e_requested e'\<rparr> else t')"

definition mark_execution_failed :: "nat \<Rightarrow> nat \<Rightarrow> go_err \<Rightarrow> unit oj" where
  "mark_execution_failed tid eid cause =
     svc_bind (config x_errtext) (\<lambda>text.
     svc_bind now (\<lambda>t.
     svc_bind (exec_get eid) (\<lambda>ex.
     svc_bind (case ex of
                 None \<Rightarrow> svc_return ()
               | Some e \<Rightarrow> exec_update (failed_execution (failure_message text cause) t e)) (\<lambda>_.
     svc_bind (task_get tid) (\<lambda>task.
       (case task of
          None \<Rightarrow> svc_return ()
        | Some tk \<Rightarrow> task_update (set_task_status TFailed ex tk)))))))"

definition fail_execution_attempt :: "nat \<Rightarrow> nat \<Rightarrow> go_err \<Rightarrow> attempt oj" where
  "fail_execution_attempt tid eid cause =
     svc_catch (mark_execution_failed tid eid cause)
       (\<lambda>e. svc_return (RetryableError (JoinErr cause (Biz CodeDBError))))
       (\<lambda>_. svc_return (TerminalFailed cause))"

subsection \<open>Writing the snapshot\<close>

definition exec_user_id_of :: "exec_user list \<Rightarrow> nat \<Rightarrow> nat option" where
  "exec_user_id_of created uid =
     map_option u_id (find (\<lambda>u. u_user u = uid) (rev (filter (\<lambda>u. u_user u \<noteq> 0) created)))"

fun user_org_rows :: "exec_user list \<Rightarrow> user_org_draft list \<Rightarrow> go_err + exec_user_org list" where
  "user_org_rows created [] = Inr []"
| "user_org_rows created (d # ds) =
     (case exec_user_id_of created (od_user d) of
        None \<Rightarrow> Inl (Biz CodeInternalError)
      | Some k \<Rightarrow> (case user_org_rows created ds of
          Inl e \<Rightarrow> Inl e
        | Inr rs \<Rightarrow> Inr (\<lparr>uo_id = 0, uo_euser = k, uo_org = od_org d, uo_name = od_name d\<rparr> # rs)))"

fun user_item_rows :: "nat \<Rightarrow> exec_user list \<Rightarrow> user_item_draft list \<Rightarrow> go_err + exec_user_item list" where
  "user_item_rows eid created [] = Inr []"
| "user_item_rows eid created (d # ds) =
     (case exec_user_id_of created (xd_user d) of
        None \<Rightarrow> Inl (Biz CodeInternalError)
      | Some k \<Rightarrow> (case user_item_rows eid created ds of
          Inl e \<Rightarrow> Inl e
        | Inr rs \<Rightarrow> Inr (\<lparr>ui_id = 0, ui_exec = eid, ui_user = xd_user d, ui_euser = k, ui_item = xd_item d,
                          ui_result = xd_result d, ui_reason = xd_reason d\<rparr> # rs)))"

definition finished_execution :: "snapshot \<Rightarrow> int \<Rightarrow> oj_exec \<Rightarrow> oj_exec" where
  "finished_execution s t e =
     e\<lparr>e_status := ESucceeded, e_finished := Some t, e_error := '''',
       e_total_users := sn_total_users s, e_done_users := sn_done_users s, e_pend_users := sn_pend_users s,
       e_total_items := sn_total_items s, e_done_items := sn_done_items s, e_pend_items := sn_pend_items s\<rparr>"

definition persist_execution_snapshot :: "oj_task \<Rightarrow> oj_exec \<Rightarrow> snapshot \<Rightarrow> unit oj" where
  "persist_execution_snapshot task e s =
     in_tx (svc_bind (db_err (eusers_create (sn_users s))) (\<lambda>_.
       svc_bind (db_err (eusers_list (e_id e))) (\<lambda>created.
       svc_bind (svc_lift (user_org_rows created (sn_orgs s))) (\<lambda>org_rows.
       svc_bind (db_err (euorgs_create org_rows)) (\<lambda>_.
       svc_bind (svc_lift (user_item_rows (e_id e) created (sn_items s))) (\<lambda>item_rows.
       svc_bind (db_err (euitems_create item_rows)) (\<lambda>_.
       svc_bind now (\<lambda>t.
       svc_bind (db_err (exec_update (finished_execution s t e))) (\<lambda>_.
         db_err (task_update (set_task_status TSucceeded (Some e) task))))))))))) "

subsection \<open>One attempt\<close>

text \<open>What an attempt does once it has claimed the execution and loaded both rows.\<close>

definition run_loaded_execution :: "dispatch_row \<Rightarrow> oj_task \<Rightarrow> oj_exec \<Rightarrow> attempt oj" where
  "run_loaded_execution row task0 e =
     (let task = set_task_status TExecuting (Some e) task0 in
     svc_catch (db_err (task_update task)) (fail_execution_attempt (r_task row) (r_exec row)) (\<lambda>_.
     svc_catch (preflight_check (t_id task)) (fail_execution_attempt (t_id task) (e_id e)) (\<lambda>_.
     svc_catch (build_execution_snapshot task e) (fail_execution_attempt (t_id task) (e_id e)) (\<lambda>s.
     svc_catch (persist_execution_snapshot task e s) (fail_execution_attempt (t_id task) (e_id e)) (\<lambda>_.
       svc_return Executed)))))"

definition run_claimed_execution :: "dispatch_row \<Rightarrow> attempt oj" where
  "run_claimed_execution row =
     svc_catch (db_err (task_get (r_task row))) (fail_execution_attempt (r_task row) (r_exec row)) (\<lambda>tk.
       (case tk of
          None \<Rightarrow> fail_execution_attempt (r_task row) (r_exec row) (Biz CodeOJTaskNotFound)
        | Some task0 \<Rightarrow>
     svc_catch (db_err (exec_get (r_exec row))) (fail_execution_attempt (r_task row) (r_exec row)) (\<lambda>ex.
       (case ex of
          None \<Rightarrow> fail_execution_attempt (r_task row) (r_exec row) (Biz CodeOJTaskExecutionNotFound)
        | Some e \<Rightarrow> run_loaded_execution row task0 e))))"

definition dispatch_single_execution :: "dispatch_row \<Rightarrow> attempt oj" where
  "dispatch_single_execution row =
     (if r_exec row = 0 \<or> r_task row = 0 then svc_return Noop
      else if \<not> is_dispatchable (r_status row) then svc_return Noop
      else svc_catch acquire_execution_lock (\<lambda>e. svc_return (RetryableError e)) (\<lambda>contended.
        if contended then svc_return Noop
        else svc_bind now (\<lambda>t.
          svc_catch (db_err (exec_claim (r_exec row) dispatchable_statuses t))
            (\<lambda>e. svc_return (RetryableError e)) (\<lambda>claimed.
              if \<not> claimed then svc_return Noop else run_claimed_execution row))))"

definition execute_single_execution_by_id :: "nat \<Rightarrow> attempt oj" where
  "execute_single_execution_by_id eid =
     (if eid = 0 then svc_return Noop
      else svc_catch (db_err (exec_get_dispatch eid)) (\<lambda>e. svc_return (RetryableError e)) (\<lambda>row.
        (case row of None \<Rightarrow> svc_return Noop | Some r \<Rightarrow> dispatch_single_execution r)))"

text \<open>The subscriber's entry point: an error asks for redelivery, \<open>nil\<close> acknowledges.\<close>

definition execute_execution_by_id :: "nat \<Rightarrow> unit oj" where
  "execute_execution_by_id eid =
     svc_bind (execute_single_execution_by_id eid) (\<lambda>a.
       (case trigger_attempt_result_error a of None \<Rightarrow> svc_return () | Some e \<Rightarrow> svc_throw e))"

subsection \<open>The scheduler\<close>

definition resolve_dispatch_batch_size :: "int \<Rightarrow> int" where
  "resolve_dispatch_batch_size n = (if n \<le> 0 then 10 else n)"

fun dispatch_loop :: "go_err option \<Rightarrow> dispatch_row list \<Rightarrow> go_err option oj" where
  "dispatch_loop joined [] = svc_return joined"
| "dispatch_loop joined (row # rows) =
     svc_bind (dispatch_single_execution row) (\<lambda>a.
       dispatch_loop (join_errs joined (dispatch_attempt_result_error a)) rows)"

text \<open>The branch of one worker; the concurrent branch runs the same attempts interleaved.\<close>

definition dispatch_pending_executions :: "unit oj" where
  "dispatch_pending_executions =
     svc_bind (config x_batch) (\<lambda>batch.
     svc_bind now (\<lambda>t.
     svc_bind (db_err (exec_list_due dispatchable_statuses t (resolve_dispatch_batch_size batch))) (\<lambda>rows.
     svc_bind (dispatch_loop None rows) (\<lambda>joined.
       (case joined of None \<Rightarrow> svc_return () | Some e \<Rightarrow> svc_throw e)))))"

end
