(* ===== verification/OJ_Invariant.thy ===== *)
theory OJ_Invariant
  imports OJ_Dispatch
begin

text \<open>
  What the tables of the OJ task component always satisfy, as a predicate on \<open>oj_db\<close> alone:
  keys, the one-to-one link of task versions and executions, the admissible pairs of
  statuses, the counters, the version numbers. Two lemmas carry every operation: replacing
  a linked task and execution together, and appending a new pair.
\<close>

subsection \<open>Admissible status pairs\<close>

fun status_compat :: "task_status \<Rightarrow> exec_status \<Rightarrow> bool" where
  "status_compat ts EScheduled = (ts = TScheduled)"
| "status_compat ts EQueued = (ts = TQueued)"
| "status_compat ts EExecuting = (ts = TScheduled \<or> ts = TQueued \<or> ts = TExecuting)"
| "status_compat ts ESucceeded = (ts = TSucceeded)"
| "status_compat ts EFailed = (ts = TScheduled \<or> ts = TQueued \<or> ts = TExecuting \<or> ts = TFailed)"
| "status_compat ts ECancelled = (ts = TDeleted)"

text \<open>The order in which an execution moves through its statuses.\<close>

fun status_le :: "exec_status \<Rightarrow> exec_status \<Rightarrow> bool" where
  "status_le EScheduled _ = True"
| "status_le EQueued t = (t \<in> {EQueued, EExecuting, ESucceeded, EFailed})"
| "status_le EExecuting t = (t \<in> {EExecuting, ESucceeded, EFailed})"
| "status_le s t = (s = t)"

definition terminal :: "exec_status \<Rightarrow> bool" where
  "terminal s \<longleftrightarrow> s \<in> {ESucceeded, EFailed, ECancelled}"

lemma status_le_refl [simp]: "status_le s s"
  by (cases s) auto

lemma status_le_trans: "status_le a b \<Longrightarrow> status_le b c \<Longrightarrow> status_le a c"
  by (cases a; cases b; cases c) auto

lemma status_le_antisym: "status_le a b \<Longrightarrow> status_le b a \<Longrightarrow> a = b"
  by (cases a; cases b) auto

lemma terminal_max: "terminal s \<Longrightarrow> status_le s t \<Longrightarrow> t = s"
  by (cases s) (auto simp: terminal_def)

subsection \<open>The invariant\<close>

definition counts_ok :: "oj_exec \<Rightarrow> bool" where
  "counts_ok e \<longleftrightarrow>
     e_total_users e = e_done_users e + e_pend_users e \<and>
     e_total_items e = e_done_items e + e_pend_items e \<and>
     (e_status e \<noteq> ESucceeded \<longrightarrow> e_total_users e = 0 \<and> e_total_items e = 0)"

definition schedule_ok :: "oj_task \<Rightarrow> oj_exec \<Rightarrow> bool" where
  "schedule_ok t e \<longleftrightarrow>
     (e_status e = EScheduled \<longrightarrow> t_mode t = mode_scheduled \<and> t_exec_at t = Some (e_planned e))"

definition timing_ok :: "oj_exec \<Rightarrow> bool" where
  "timing_ok e \<longleftrightarrow>
     (e_status e \<in> {EExecuting, ESucceeded, EFailed} \<longrightarrow> e_started e \<noteq> None) \<and>
     (terminal (e_status e) \<longleftrightarrow> e_finished e \<noteq> None) \<and>
     (e_error e \<noteq> [] \<longleftrightarrow> e_status e = EFailed)"

definition queued_ok :: "outbox_event list \<Rightarrow> oj_exec \<Rightarrow> bool" where
  "queued_ok outbox e \<longleftrightarrow>
     (e_status e = EQueued \<longrightarrow>
        (\<exists>o' \<in> set outbox. ob_payload o' = trigger_payload (e_id e) (e_task e)))"

definition pair_ok :: "outbox_event list \<Rightarrow> oj_task \<Rightarrow> oj_exec \<Rightarrow> bool" where
  "pair_ok outbox t e \<longleftrightarrow>
     status_compat (t_status t) (e_status e) \<and> schedule_ok t e \<and> counts_ok e \<and> timing_ok e \<and>
     queued_ok outbox e"

definition keys_ok :: "oj_db \<Rightarrow> bool" where
  "keys_ok d \<longleftrightarrow>
     0 < db_next d \<and> distinct (map t_id (db_tasks d)) \<and> distinct (map e_id (db_execs d)) \<and>
     (\<forall>t \<in> set (db_tasks d). 0 < t_id t \<and> t_id t < db_next d) \<and>
     (\<forall>e \<in> set (db_execs d). 0 < e_id e \<and> e_id e < db_next d)"

definition links_ok :: "oj_db \<Rightarrow> bool" where
  "links_ok d \<longleftrightarrow>
     distinct (map e_task (db_execs d)) \<and> e_task ` set (db_execs d) = t_id ` set (db_tasks d)"

definition versions_ok :: "oj_db \<Rightarrow> bool" where
  "versions_ok d \<longleftrightarrow>
     distinct (map (\<lambda>t. (t_root t, t_version t)) (db_tasks d)) \<and>
     (\<forall>t \<in> set (db_tasks d). 0 < t_version t \<and> (\<exists>q \<in> set (db_tasks d). t_root t = Some (t_id q)))"

definition pairs_ok :: "oj_db \<Rightarrow> bool" where
  "pairs_ok d \<longleftrightarrow>
     (\<forall>t \<in> set (db_tasks d). \<forall>e \<in> set (db_execs d). e_task e = t_id t \<longrightarrow> pair_ok (db_outbox d) t e)"

definition db_inv :: "oj_db \<Rightarrow> bool" where
  "db_inv d \<longleftrightarrow> keys_ok d \<and> links_ok d \<and> versions_ok d \<and> pairs_ok d"

lemmas db_inv_defs = db_inv_def keys_ok_def links_ok_def versions_ok_def pairs_ok_def

subsection \<open>How the tables evolve\<close>

definition task_evolves :: "oj_task \<Rightarrow> oj_task \<Rightarrow> bool" where
  "task_evolves t t' \<longleftrightarrow>
     t_id t' = t_id t \<and> t_root t' = t_root t \<and> t_parent t' = t_parent t \<and> t_version t' = t_version t \<and>
     t_mode t' = t_mode t \<and> t_created_by t' = t_created_by t"

definition exec_evolves :: "oj_exec \<Rightarrow> oj_exec \<Rightarrow> bool" where
  "exec_evolves e e' \<longleftrightarrow>
     e_id e' = e_id e \<and> e_task e' = e_task e \<and> status_le (e_status e) (e_status e') \<and>
     (terminal (e_status e) \<longrightarrow> e' = e)"

definition db_evolves :: "oj_db \<Rightarrow> oj_db \<Rightarrow> bool" where
  "db_evolves d d' \<longleftrightarrow>
     (\<forall>t \<in> set (db_tasks d). \<exists>t' \<in> set (db_tasks d'). task_evolves t t') \<and>
     (\<forall>e \<in> set (db_execs d). \<exists>e' \<in> set (db_execs d'). exec_evolves e e') \<and>
     set (map ob_event_id (db_outbox d)) \<subseteq> set (map ob_event_id (db_outbox d')) \<and>
     db_next d \<le> db_next d'"

lemma task_evolves_refl [simp]: "task_evolves t t"
  by (simp add: task_evolves_def)

lemma exec_evolves_refl [simp]: "exec_evolves e e"
  by (simp add: exec_evolves_def)

lemma exec_evolves_trans: "exec_evolves a b \<Longrightarrow> exec_evolves b c \<Longrightarrow> exec_evolves a c"
  by (auto simp: exec_evolves_def intro: status_le_trans dest: terminal_max)

lemma db_evolves_refl [simp]: "db_evolves d d"
  by (auto simp: db_evolves_def intro: task_evolves_refl exec_evolves_refl)

lemma db_evolves_trans:
  assumes "db_evolves a b" "db_evolves b c"
  shows "db_evolves a c"
proof -
  have t: "\<exists>t' \<in> set (db_tasks c). task_evolves t t'" if "t \<in> set (db_tasks a)" for t
  proof -
    obtain u where "u \<in> set (db_tasks b)" "task_evolves t u" using assms(1) \<open>t \<in> _\<close> unfolding db_evolves_def by blast
    moreover then obtain v where "v \<in> set (db_tasks c)" "task_evolves u v" using assms(2) unfolding db_evolves_def by blast
    ultimately show ?thesis by (auto simp: task_evolves_def)
  qed
  have e: "\<exists>e' \<in> set (db_execs c). exec_evolves e e'" if "e \<in> set (db_execs a)" for e
  proof -
    obtain u where "u \<in> set (db_execs b)" "exec_evolves e u" using assms(1) \<open>e \<in> _\<close> unfolding db_evolves_def by blast
    moreover then obtain v where "v \<in> set (db_execs c)" "exec_evolves u v" using assms(2) unfolding db_evolves_def by blast
    ultimately show ?thesis by (blast intro: exec_evolves_trans)
  qed
  from t e assms show ?thesis unfolding db_evolves_def by (meson order_trans)
qed

subsection \<open>Replacing a linked pair\<close>

definition put_pair :: "oj_task \<Rightarrow> oj_exec \<Rightarrow> oj_db \<Rightarrow> oj_db" where
  "put_pair t e d = d\<lparr>db_tasks := row_put t_id t (db_tasks d), db_execs := row_put e_id e (db_execs d)\<rparr>"

lemma row_put_present: "row_get key rows k = Some r \<Longrightarrow> row_put key r rows = rows"
  by (induction rows) (auto split: if_splits dest: row_get_key)

lemma in_row_put_image:
  assumes "row_get key rows (key r) = Some r0" "f r = f r0"
  shows "f ` set (row_put key r rows) = f ` set rows"
  using map_row_put [of f r r0 key rows] assms by (metis set_map)

text \<open>The link determines partner rows.\<close>

lemma linked_exec_unique:
  "db_inv d \<Longrightarrow> e \<in> set (db_execs d) \<Longrightarrow> e' \<in> set (db_execs d) \<Longrightarrow> e_task e = e_task e' \<Longrightarrow> e = e'"
  by (auto simp: db_inv_defs distinct_map dest: inj_onD)

lemma task_key_unique:
  "db_inv d \<Longrightarrow> t \<in> set (db_tasks d) \<Longrightarrow> t' \<in> set (db_tasks d) \<Longrightarrow> t_id t = t_id t' \<Longrightarrow> t = t'"
  by (auto simp: db_inv_defs distinct_map dest: inj_onD)

lemma exec_key_unique:
  "db_inv d \<Longrightarrow> e \<in> set (db_execs d) \<Longrightarrow> e' \<in> set (db_execs d) \<Longrightarrow> e_id e = e_id e' \<Longrightarrow> e = e'"
  by (auto simp: db_inv_defs distinct_map dest: inj_onD)

lemma task_get_iff: "db_inv d \<Longrightarrow> row_get t_id (db_tasks d) k = Some t \<longleftrightarrow> t \<in> set (db_tasks d) \<and> t_id t = k"
  by (auto simp: db_inv_defs dest: row_get_set row_get_key intro: row_get_in_set)

lemma exec_get_iff: "db_inv d \<Longrightarrow> row_get e_id (db_execs d) k = Some e \<longleftrightarrow> e \<in> set (db_execs d) \<and> e_id e = k"
  by (auto simp: db_inv_defs dest: row_get_set row_get_key intro: row_get_in_set)

lemma exec_of_task:
  assumes "db_inv d" "t \<in> set (db_tasks d)"
  obtains e where "e \<in> set (db_execs d)" "e_task e = t_id t" "pair_ok (db_outbox d) t e"
proof -
  have "t_id t \<in> e_task ` set (db_execs d)" using assms by (auto simp: db_inv_defs)
  then obtain e where "e \<in> set (db_execs d)" "e_task e = t_id t" by auto
  then show ?thesis using that assms by (auto simp: db_inv_defs)
qed

lemma task_of_exec:
  assumes "db_inv d" "e \<in> set (db_execs d)"
  obtains t where "t \<in> set (db_tasks d)" "e_task e = t_id t" "pair_ok (db_outbox d) t e"
proof -
  have "e_task e \<in> t_id ` set (db_tasks d)" using assms by (auto simp: db_inv_defs)
  then obtain t where "t \<in> set (db_tasks d)" "e_task e = t_id t" by auto
  then show ?thesis using that assms by (auto simp: db_inv_defs)
qed

lemma put_pair_inv:
  assumes inv: "db_inv d" and t0: "t0 \<in> set (db_tasks d)" and e0: "e0 \<in> set (db_execs d)"
    and link: "e_task e0 = t_id t0"
    and t: "task_evolves t0 t" and e: "e_id e = e_id e0" "e_task e = e_task e0"
    and ok: "pair_ok (db_outbox d) t e"
  shows "db_inv (put_pair t e d)"
proof -
  have dt: "distinct (map t_id (db_tasks d))" and de: "distinct (map e_id (db_execs d))"
    using inv by (auto simp: db_inv_defs)
  have gt: "row_get t_id (db_tasks d) (t_id t) = Some t0"
    using inv t0 t by (simp add: task_get_iff task_evolves_def)
  have ge: "row_get e_id (db_execs d) (e_id e) = Some e0"
    using inv e0 e by (simp add: exec_get_iff)
  have mt: "map f (row_put t_id t (db_tasks d)) = map f (db_tasks d)" if "f t = f t0" for f :: "oj_task \<Rightarrow> 'b"
    using map_row_put [of f t t0 t_id "db_tasks d"] gt that by simp
  have me: "map f (row_put e_id e (db_execs d)) = map f (db_execs d)" if "f e = f e0" for f :: "oj_exec \<Rightarrow> 'b"
    using map_row_put [of f e e0 e_id "db_execs d"] ge that by simp
  have tid: "map t_id (row_put t_id t (db_tasks d)) = map t_id (db_tasks d)" using t by (intro mt) (simp add: task_evolves_def)
  have eid: "map e_id (row_put e_id e (db_execs d)) = map e_id (db_execs d)" using e by (intro me) simp
  have etk: "map e_task (row_put e_id e (db_execs d)) = map e_task (db_execs d)" using e by (intro me) simp
  have trv: "map (\<lambda>t. (t_root t, t_version t)) (row_put t_id t (db_tasks d)) = map (\<lambda>t. (t_root t, t_version t)) (db_tasks d)"
    using t by (intro mt) (simp add: task_evolves_def)
  have st: "q \<in> set (row_put t_id t (db_tasks d)) \<longleftrightarrow> q = t \<or> (q \<in> set (db_tasks d) \<and> t_id q \<noteq> t_id t)" for q
    by (rule in_row_put_iff [OF dt])
  have se: "q \<in> set (row_put e_id e (db_execs d)) \<longleftrightarrow> q = e \<or> (q \<in> set (db_execs d) \<and> e_id q \<noteq> e_id e)" for q
    by (rule in_row_put_iff [OF de])
  have keys: "keys_ok (put_pair t e d)"
    using inv t e t0 e0 tid eid by (auto simp: keys_ok_def db_inv_def put_pair_def st se task_evolves_def)
  have links: "links_ok (put_pair t e d)"
    using inv tid etk by (simp add: links_ok_def db_inv_def put_pair_def flip: set_map)
  have roots: "\<exists>q' \<in> set (row_put t_id t (db_tasks d)). t_id q' = k" if "q \<in> set (db_tasks d)" "t_id q = k" for q k
  proof -
    have "k \<in> set (map t_id (row_put t_id t (db_tasks d)))" unfolding tid using that by auto
    then show ?thesis by auto
  qed
  have "0 < t_version q \<and> (\<exists>p \<in> set (row_put t_id t (db_tasks d)). t_root q = Some (t_id p))"
    if q: "q \<in> set (row_put t_id t (db_tasks d))" for q
  proof -
    obtain q0 where q0: "q0 \<in> set (db_tasks d)" "t_root q = t_root q0" "t_version q = t_version q0"
      using q t t0 unfolding st task_evolves_def by metis
    then obtain p where "p \<in> set (db_tasks d)" "t_root q0 = Some (t_id p)" "0 < t_version q0"
      using inv by (auto simp: db_inv_defs)
    with q0 roots [of p "t_id p"] show ?thesis by (metis)
  qed
  then have versions: "versions_ok (put_pair t e d)"
    using inv trv by (simp add: versions_ok_def db_inv_def put_pair_def)
  have "pair_ok (db_outbox d) q f"
    if "q \<in> set (row_put t_id t (db_tasks d))" "f \<in> set (row_put e_id e (db_execs d))" "e_task f = t_id q" for q f
  proof (cases "q = t")
    case True
    then have "f = e"
      using that e link t inv e0 by (auto simp: se task_evolves_def dest: linked_exec_unique [OF inv])
    with True ok show ?thesis by simp
  next
    case False
    then have "q \<in> set (db_tasks d)" "t_id q \<noteq> t_id t" using that by (auto simp: st)
    moreover then have "f \<in> set (db_execs d)" using that e link t by (auto simp: se task_evolves_def)
    ultimately show ?thesis using inv that by (auto simp: db_inv_def pairs_ok_def)
  qed
  then have "pairs_ok (put_pair t e d)" by (simp add: pairs_ok_def put_pair_def)
  with keys links versions show ?thesis by (simp add: db_inv_def)
qed

lemma put_pair_evolves:
  assumes "db_inv d" "t0 \<in> set (db_tasks d)" "e0 \<in> set (db_execs d)" "task_evolves t0 t" "exec_evolves e0 e"
  shows "db_evolves d (put_pair t e d)"
proof -
  have dt: "distinct (map t_id (db_tasks d))" and de: "distinct (map e_id (db_execs d))"
    using assms by (auto simp: db_inv_defs)
  have kt: "t_id t = t_id t0" and ke: "e_id e = e_id e0"
    using assms by (auto simp: task_evolves_def exec_evolves_def)
  have "\<exists>t' \<in> set (row_put t_id t (db_tasks d)). task_evolves q t'" if "q \<in> set (db_tasks d)" for q
  proof (cases "t_id q = t_id t")
    case True
    then have "q = t0" using task_key_unique [OF assms(1) that assms(2)] kt by simp
    with assms(4) show ?thesis by (auto simp: in_row_put_iff [OF dt])
  next
    case False with that show ?thesis
      by (intro bexI [of _ q]) (auto simp: in_row_put_iff [OF dt])
  qed
  moreover have "\<exists>e' \<in> set (row_put e_id e (db_execs d)). exec_evolves q e'" if "q \<in> set (db_execs d)" for q
  proof (cases "e_id q = e_id e")
    case True
    then have "q = e0" using exec_key_unique [OF assms(1) that assms(3)] ke by simp
    with assms(5) show ?thesis by (auto simp: in_row_put_iff [OF de])
  next
    case False with that show ?thesis
      by (intro bexI [of _ q]) (auto simp: in_row_put_iff [OF de])
  qed
  ultimately show ?thesis by (simp add: db_evolves_def put_pair_def)
qed

subsection \<open>Appending a pair\<close>

lemma queued_ok_mono: "queued_ok a e \<Longrightarrow> set a \<subseteq> set b \<Longrightarrow> queued_ok b e"
  by (auto simp: queued_ok_def)

lemma pair_ok_mono: "pair_ok a t e \<Longrightarrow> set a \<subseteq> set b \<Longrightarrow> pair_ok b t e"
  by (auto simp: pair_ok_def intro: queued_ok_mono)

lemma append_pair_inv:
  assumes inv: "db_inv d"
    and d': "db_tasks d' = db_tasks d @ [t]" "db_execs d' = db_execs d @ [e]"
      "set (db_outbox d) \<subseteq> set (db_outbox d')"
    and ids: "t_id t = db_next d" "e_task e = t_id t" "db_next d \<le> e_id e" "t_id t < db_next d'" "e_id e < db_next d'"
    and ok: "pair_ok (db_outbox d') t e"
    and root: "t_root t = Some (t_id t) \<or> (\<exists>q \<in> set (db_tasks d). t_root t = Some (t_id q))"
    and fresh: "0 < t_version t" "\<And>q. q \<in> set (db_tasks d) \<Longrightarrow> t_root q = t_root t \<Longrightarrow> t_version q \<noteq> t_version t"
  shows "db_inv d'"
proof -
  have tlt: "q \<in> set (db_tasks d) \<Longrightarrow> 0 < t_id q \<and> t_id q < db_next d" for q
    using inv by (auto simp: db_inv_defs)
  have elt: "q \<in> set (db_execs d) \<Longrightarrow> 0 < e_id q \<and> e_id q < db_next d" for q
    using inv by (auto simp: db_inv_defs)
  have etk: "q \<in> set (db_execs d) \<Longrightarrow> e_task q < db_next d" for q
    using inv by (metis task_of_exec tlt)
  have "keys_ok d'"
    using inv ids by (auto simp: keys_ok_def d' db_inv_def dest: tlt elt)
  moreover have "links_ok d'"
    using inv ids tlt by (fastforce simp: links_ok_def d' db_inv_def dest: etk)
  moreover have "(t_root t, t_version t) \<notin> (\<lambda>t. (t_root t, t_version t)) ` set (db_tasks d)"
    using fresh(2) by fastforce
  then have "versions_ok d'"
    using inv root fresh(1) by (auto simp: versions_ok_def d' db_inv_def)
  moreover have "pair_ok (db_outbox d') q f"
    if qf: "q \<in> set (db_tasks d) \<or> q = t" "f \<in> set (db_execs d) \<or> f = e" "e_task f = t_id q" for q f
  proof -
    consider "q = t" "f = e" | "q \<in> set (db_tasks d)" "f \<in> set (db_execs d)"
      using qf ids tlt etk by (metis less_irrefl)
    then show ?thesis
    proof cases
      case 1 with ok show ?thesis by simp
    next
      case 2 with inv qf have "pair_ok (db_outbox d) q f" by (auto simp: db_inv_def pairs_ok_def)
      then show ?thesis using d'(3) by (rule pair_ok_mono)
    qed
  qed
  then have "pairs_ok d'" by (auto simp: pairs_ok_def d')
  ultimately show ?thesis by (simp add: db_inv_def)
qed

lemma append_pair_evolves:
  assumes "db_tasks d' = db_tasks d @ [t]" "db_execs d' = db_execs d @ [e]"
    "set (db_outbox d) \<subseteq> set (db_outbox d')" "db_next d \<le> db_next d'"
  shows "db_evolves d d'"
  using assms unfolding db_evolves_def
  by (auto intro: task_evolves_refl exec_evolves_refl bexI)

text \<open>Rows outside the two core tables do not matter.\<close>

definition same_core :: "oj_db \<Rightarrow> oj_db \<Rightarrow> bool" where
  "same_core d d' \<longleftrightarrow>
     db_tasks d' = db_tasks d \<and> db_execs d' = db_execs d \<and> db_outbox d' = db_outbox d \<and> db_next d \<le> db_next d'"

lemma same_core_refl [simp]: "same_core d d"
  by (simp add: same_core_def)

lemma same_core_trans: "same_core a b \<Longrightarrow> same_core b c \<Longrightarrow> same_core a c"
  by (auto simp: same_core_def)

lemma same_core_inv: "same_core d d' \<Longrightarrow> db_inv d \<Longrightarrow> db_inv d'"
  by (auto simp: same_core_def db_inv_defs intro: less_le_trans)

lemma same_core_evolves: "same_core d d' \<Longrightarrow> db_evolves d d'"
  by (auto simp: same_core_def db_evolves_def intro: task_evolves_refl exec_evolves_refl)

end
