(* ===== verification/OJ_Effects.thy ===== *)
theory OJ_Effects
  imports OJ_Invariant
begin

text \<open>
  How the calls change the tables. A method is \<open>stable\<close> when it changes neither the tables
  nor the rows of other components, whatever it returns; the collection \<open>stable_intro\<close>
  decides this along the code. A writing call that succeeds has its effect stated by a
  lemma of the bundle \<open>repo_effects\<close>.
\<close>

subsection \<open>Stable methods\<close>

definition same_data :: "world \<Rightarrow> world \<Rightarrow> bool" where
  "same_data w0 w \<longleftrightarrow> w_db w = w_db w0 \<and> w_ext w = w_ext w0"

definition stable :: "'a oj \<Rightarrow> bool" where
  "stable m \<longleftrightarrow> (\<forall>w0. keeps (same_data w0) m)"

named_theorems stable_intro \<open>methods that change no data\<close>

lemma stableD: "m w = (r, w') \<Longrightarrow> stable m \<Longrightarrow> w_db w' = w_db w \<and> w_ext w' = w_ext w"
  using keepsD [of "same_data w" m w r w'] by (simp add: stable_def same_data_def)

lemma stable_run: "stable m \<Longrightarrow> m w = (r, w') \<Longrightarrow> w_db w' = w_db w \<and> w_ext w' = w_ext w"
  by (rule stableD)

lemma stableI: "(\<And>w r w'. m w = (r, w') \<Longrightarrow> w_db w' = w_db w \<and> w_ext w' = w_ext w) \<Longrightarrow> stable m"
  by (auto simp: stable_def same_data_def intro!: keepsI)

lemma stable_basic [stable_intro]:
  "stable (svc_return a)" "stable (svc_throw e)" "stable (svc_lift r)"
  by (simp_all add: stable_def keeps_intro)

lemma stable_bind [stable_intro]: "stable m \<Longrightarrow> (\<And>a. stable (f a)) \<Longrightarrow> stable (svc_bind m f)"
  by (simp add: stable_def keeps_bind)

lemma stable_wrap [stable_intro]: "stable m \<Longrightarrow> stable (svc_wrap g m)"
  by (simp add: stable_def keeps_wrap)

lemma stable_wrap_err [stable_intro]: "stable m \<Longrightarrow> stable (wrap_err c m)"
  by (simp add: wrap_err_def stable_wrap)

lemma stable_if [stable_intro]: "stable m \<Longrightarrow> stable n \<Longrightarrow> stable (if b then m else n)"
  by simp

lemma stable_case_option [stable_intro]:
  "stable m \<Longrightarrow> (\<And>x. stable (f x)) \<Longrightarrow> stable (case z of None \<Rightarrow> m | Some x \<Rightarrow> f x)"
  by (cases z) simp_all

lemma stable_case_list [stable_intro]:
  "stable m \<Longrightarrow> (\<And>x xs. stable (f x xs)) \<Longrightarrow> stable (case z of [] \<Rightarrow> m | x # xs \<Rightarrow> f x xs)"
  by (cases z) simp_all

lemma stable_case_prod [stable_intro]:
  "(\<And>x y. stable (f x y)) \<Longrightarrow> stable (case z of (x, y) \<Rightarrow> f x y)"
  by (cases z) simp

lemma stable_let [stable_intro]: "stable (f z) \<Longrightarrow> stable (let x = z in f x)"
  by simp

lemma stable_iter [stable_intro]: "(\<And>x. stable (f x)) \<Longrightarrow> stable (svc_iter f xs)"
  by (simp add: stable_def keeps_iter)

lemma tick_simps [simp]:
  "w_db (tick w) = w_db w" "w_ext (tick w) = w_ext w" "w_fault (tick w) = w_fault w"
  "w_time (tick w) = w_time w" "w_uuid (tick w) = w_uuid w" "w_lock (tick w) = w_lock w"
  "w_step (tick w) = Suc (w_step w)"
  by (simp_all add: tick_def)

lemma stable_read [stable_intro]: "stable (db_read f)" "stable (ext_read g)" "stable (config g)"
  by (auto intro!: stableI simp: db_read_def ext_read_def config_def db_call_def split: if_splits)

lemma stable_env [stable_intro]: "stable now" "stable new_uuid"
  by (auto intro!: stableI simp: now_def new_uuid_def)

lemma stable_repo_reads [stable_intro]:
  "stable (task_get k)" "stable (task_latest_by_root k)" "stable (orgs_list k)"
  "stable (items_list k)" "stable (item_get k)" "stable (intakes_list k)"
  "stable (exec_get k)" "stable (exec_by_task k)" "stable (exec_get_dispatch k)"
  "stable (exec_list_due sts t lim)" "stable (eusers_list k)"
  by (simp_all add: repo_read_defs stable_intro)

lemma stable_orgs_with_names [stable_intro]: "stable (orgs_with_names k)"
  by (auto intro!: stableI simp: orgs_with_names_def dest: stableD [OF _ stable_read(1)])

lemma stable_intakes_pending [stable_intro]: "stable (intakes_pending_by_title p t)"
  by (auto intro!: stableI simp: intakes_pending_by_title_def dest: stableD [OF _ stable_read(1)])

subsection \<open>Transactions\<close>

lemma in_tx_Inr: "in_tx m w = (Inr a, w') \<Longrightarrow> \<exists>v. m w = (Inr a, v) \<and> w_db w' = w_db v \<and> w_ext w' = w_ext v"
  by (auto simp: in_tx_def split: prod.splits sum.splits if_splits)

lemma in_tx_Inl: "in_tx m w = (Inl e, w') \<Longrightarrow> w_db w' = w_db w"
  by (auto simp: in_tx_def split: prod.splits sum.splits if_splits)

lemma in_tx_ext: "keeps (\<lambda>w. w_ext w = x) m \<Longrightarrow> keeps (\<lambda>w. w_ext w = x) (in_tx m)"
  by (auto simp: in_tx_def keeps_def split: prod.splits sum.splits if_splits)

text \<open>An invariant of the tables holds after a transaction if it holds after every success.\<close>

lemma keeps_in_tx:
  assumes "\<And>w a w'. I (w_db w) \<Longrightarrow> m w = (Inr a, w') \<Longrightarrow> I (w_db w')"
  shows "keeps (\<lambda>w. I (w_db w)) (in_tx m)"
proof (rule keepsI)
  fix w r w' assume I: "I (w_db w)" and run: "in_tx m w = (r, w')"
  show "I (w_db w')"
  proof (cases r)
    case (Inl e) with run I show ?thesis by (auto dest: in_tx_Inl)
  next
    case (Inr a) with run obtain v where "m w = (Inr a, v)" "w_db w' = w_db v" by (auto dest: in_tx_Inr)
    with assms I show ?thesis by simp
  qed
qed

lemma keeps_stable: "stable m \<Longrightarrow> keeps (\<lambda>w. I (w_db w)) m"
  by (auto intro!: keepsI dest: stableD)

subsection \<open>Effects of the writing calls\<close>

lemma db_call_Inr_iff:
  "db_call f w = (Inr a, w') \<longleftrightarrow>
     \<not> w_fault w (w_step w) \<and> a = fst (f (w_db w)) \<and> w' = (tick w)\<lparr>w_db := snd (f (w_db w))\<rparr>"
  by (auto simp: db_call_def split: prod.splits)

lemma db_call_Inl_iff: "db_call f w = (Inl e, w') \<longleftrightarrow> w_fault w (w_step w) \<and> e = RawErr \<and> w' = tick w"
  by (auto simp: db_call_def split: prod.splits)

lemma wrap_err_Inr_iff: "wrap_err c m w = (Inr a, w') \<longleftrightarrow> m w = (Inr a, w')"
  by (simp add: wrap_err_def svc_wrap_Inr_iff)

lemma wrap_err_Inl_iff: "wrap_err c m w = (Inl e, w') \<longleftrightarrow> (\<exists>d. m w = (Inl d, w') \<and> e = Biz c)"
  by (auto simp: wrap_err_def svc_wrap_Inl_iff)

lemma task_create_effect:
  "task_create t w = (Inr a, w') \<Longrightarrow>
     a = t\<lparr>t_id := db_next (w_db w)\<rparr> \<and> w_ext w' = w_ext w \<and>
     w_db w' = (w_db w)\<lparr>db_tasks := db_tasks (w_db w) @ [a], db_next := Suc (db_next (w_db w))\<rparr>"
  by (auto simp: task_create_def db_call_Inr_iff Let_def)

lemma task_update_effect:
  "task_update t w = (Inr a, w') \<Longrightarrow>
     w_ext w' = w_ext w \<and> w_db w' = (w_db w)\<lparr>db_tasks := row_put t_id t (db_tasks (w_db w))\<rparr>"
  by (auto simp: task_update_def db_write_def db_call_Inr_iff)

lemma task_update_root_effect:
  "task_update_root k r w = (Inr a, w') \<Longrightarrow>
     w_ext w' = w_ext w \<and>
     w_db w' = (w_db w)\<lparr>db_tasks := map (\<lambda>t. if t_id t = k then t\<lparr>t_root := Some r\<rparr> else t) (db_tasks (w_db w))\<rparr>"
  by (auto simp: task_update_root_def db_write_def db_call_Inr_iff)

lemma exec_create_effect:
  "exec_create e w = (Inr a, w') \<Longrightarrow>
     a = e\<lparr>e_id := db_next (w_db w)\<rparr> \<and> w_ext w' = w_ext w \<and>
     w_db w' = (w_db w)\<lparr>db_execs := db_execs (w_db w) @ [a], db_next := Suc (db_next (w_db w))\<rparr>"
  by (auto simp: exec_create_def db_call_Inr_iff Let_def)

lemma exec_update_effect:
  "exec_update e w = (Inr a, w') \<Longrightarrow>
     w_ext w' = w_ext w \<and> w_db w' = (w_db w)\<lparr>db_execs := row_put e_id e (db_execs (w_db w))\<rparr>"
  by (auto simp: exec_update_def db_write_def db_call_Inr_iff)

lemma exec_claim_effect:
  "exec_claim k sts at w = (Inr a, w') \<Longrightarrow>
     a = (filter (claimable k sts) (db_execs (w_db w)) \<noteq> []) \<and> w_ext w' = w_ext w \<and>
     w_db w' = (w_db w)\<lparr>db_execs := claim_rows k sts at (db_execs (w_db w))\<rparr>"
  by (auto simp: exec_claim_def db_call_Inr_iff)

lemma outbox_insert_effect:
  "outbox_insert e w = (Inr a, w') \<Longrightarrow>
     w_ext w' = w_ext w \<and> w_db w' = (w_db w)\<lparr>db_outbox := db_outbox (w_db w) @ [e]\<rparr>"
  by (auto simp: outbox_insert_def outbox_create_def db_write_def db_call_Inr_iff)

text \<open>Calls on the tables of organisations, items, intakes and snapshot rows keep the core.\<close>

definition core_stable :: "'a oj \<Rightarrow> bool" where
  "core_stable m \<longleftrightarrow> (\<forall>d x. keeps (\<lambda>w. same_core d (w_db w) \<and> w_ext w = x) m)"

lemma core_stableD: "m w = (r, w') \<Longrightarrow> core_stable m \<Longrightarrow> same_core (w_db w) (w_db w') \<and> w_ext w' = w_ext w"
  using keepsD [of "\<lambda>v. same_core (w_db w) (w_db v) \<and> w_ext v = w_ext w" m w r w']
  by (simp add: core_stable_def)

lemma core_run: "core_stable m \<Longrightarrow> m w = (r, w') \<Longrightarrow> same_core (w_db w) (w_db w') \<and> w_ext w' = w_ext w"
  by (rule core_stableD)

lemma core_stableI:
  assumes "\<And>w r w'. m w = (r, w') \<Longrightarrow> same_core (w_db w) (w_db w') \<and> w_ext w' = w_ext w"
  shows "core_stable m"
  unfolding core_stable_def by (intro allI keepsI) (meson assms same_core_trans)

named_theorems core_intro \<open>methods that keep tasks, executions and outbox\<close>

lemma core_of_stable: "stable m \<Longrightarrow> core_stable m"
  by (auto intro!: core_stableI dest: stableD)

lemma core_basic [core_intro]: "core_stable (svc_return a)" "core_stable (svc_throw e)" "core_stable (svc_lift r)"
  by (simp_all add: core_of_stable stable_intro)

lemma core_bind [core_intro]: "core_stable m \<Longrightarrow> (\<And>a. core_stable (f a)) \<Longrightarrow> core_stable (svc_bind m f)"
  by (simp add: core_stable_def keeps_bind)

lemma core_wrap_err [core_intro]: "core_stable m \<Longrightarrow> core_stable (wrap_err c m)"
  by (simp add: core_stable_def wrap_err_def keeps_wrap)

lemma core_if [core_intro]: "core_stable m \<Longrightarrow> core_stable n \<Longrightarrow> core_stable (if b then m else n)"
  by simp

lemma core_case_option [core_intro]:
  "core_stable m \<Longrightarrow> (\<And>x. core_stable (f x)) \<Longrightarrow> core_stable (case z of None \<Rightarrow> m | Some x \<Rightarrow> f x)"
  by (cases z) simp_all

lemma core_case_list [core_intro]:
  "core_stable m \<Longrightarrow> (\<And>x xs. core_stable (f x xs)) \<Longrightarrow> core_stable (case z of [] \<Rightarrow> m | x # xs \<Rightarrow> f x xs)"
  by (cases z) simp_all

lemma core_case_prod [core_intro]:
  "(\<And>x y. core_stable (f x y)) \<Longrightarrow> core_stable (case z of (x, y) \<Rightarrow> f x y)"
  by (cases z) simp

lemma core_iter [core_intro]: "(\<And>x. core_stable (f x)) \<Longrightarrow> core_stable (svc_iter f xs)"
  by (simp add: core_stable_def keeps_iter)

lemma core_in_tx [core_intro]:
  assumes "core_stable m"
  shows "core_stable (in_tx m)"
proof (rule core_stableI)
  fix w r w' assume run: "in_tx m w = (r, w')"
  obtain q v where m: "m w = (q, v)" by fastforce
  have "same_core (w_db w) (w_db v) \<and> w_ext v = w_ext w" using core_stableD [OF m assms] .
  with run m show "same_core (w_db w) (w_db w') \<and> w_ext w' = w_ext w"
    by (auto simp: in_tx_def split: sum.splits if_splits)
qed

lemma core_db_call:
  "(\<And>d. same_core d (snd (f d))) \<Longrightarrow> core_stable (db_call f)"
  by (auto intro!: core_stableI simp: db_call_def split: if_splits prod.splits) (metis snd_conv)

lemma core_rows [core_intro]:
  "core_stable (orgs_create os)" "core_stable (items_create is)" "core_stable (item_update i)"
  "core_stable (intakes_create ks)" "core_stable (intake_update k)"
  "core_stable (eusers_create us)" "core_stable (euorgs_create uos)" "core_stable (euitems_create uis)"
  by (auto simp: repo_write_defs db_write_def same_core_def Let_def intro!: core_db_call core_intro)

lemma core_replace [core_intro]:
  "core_stable (orgs_replace k os)" "core_stable (items_replace k is)" "core_stable (intakes_replace k ks)"
  unfolding orgs_replace_def items_replace_def intakes_replace_def db_write_def
  by (auto intro!: core_bind core_rows core_db_call simp: same_core_def)

lemma keeps_core:
  assumes "core_stable m" "\<And>d d'. same_core d d' \<Longrightarrow> I d \<Longrightarrow> I d'"
  shows "keeps (\<lambda>w. I (w_db w)) m"
  using assms by (intro keepsI) (blast dest: core_stableD)

lemmas repo_effects =
  task_create_effect task_update_effect task_update_root_effect exec_create_effect
  exec_update_effect exec_claim_effect outbox_insert_effect

end
