(* ===== verification/OJ_Commands.thy ===== *)
theory OJ_Commands
  imports OJ_Effects
begin

text \<open>
  Every command of the task service keeps the invariant of the tables and only lets them
  evolve. Checks and loads change nothing; the effect of a successful command on tasks,
  executions and outbox is one replaced or one appended pair.
\<close>

subsection \<open>Checks and loads are stable\<close>

lemma stable_authorize [stable_intro]: "stable (authorize_org_capability op oid cap)"
proof -
  have "stable (has_permission s p a)" for s p a
    by (auto intro!: stableI simp: has_permission_def Let_def split: if_splits)
  then show ?thesis
    by (auto simp: authorization_defs intro!: stable_intro simp flip: has_permission_def)
qed

lemma stable_org_get [stable_intro]: "stable (org_get oid)"
  by (simp add: org_get_def stable_intro)

lemma stable_authorize_manage [stable_intro]: "stable (authorize_manage_org_ids op oids)"
  by (simp add: authorize_manage_org_ids_def stable_intro)

lemma stable_validate_org_ids [stable_intro]: "stable (validate_org_ids oids)"
proof -
  have "stable (validate_org_ids_loop ns oids)" for ns
    by (induction oids arbitrary: ns) (auto intro!: stable_intro)
  then show ?thesis by (simp add: validate_org_ids_def stable_intro)
qed

lemma stable_validate_draft [stable_intro]: "stable (validate_draft r)"
  unfolding validate_draft_def by (intro stable_intro)

lemma stable_find_candidates [stable_intro]: "stable (find_verified_title_candidates p t)"
  unfolding find_verified_title_candidates_def find_exact_title_candidates_def by (intro stable_intro)

lemma stable_materialize_item [stable_intro]: "stable (materialize_item i)"
  unfolding materialize_item_def resolve_question_by_id_def get_verified_candidate_by_id_def
    token_decode_def
  by (intro stable_intro)

lemma stable_materialize_draft [stable_intro]: "stable (materialize_draft d)"
proof -
  have "stable (materialize_loop acc ns)" for acc ns
    by (induction ns arbitrary: acc) (auto intro!: stable_intro)
  then show ?thesis unfolding materialize_draft_def materialize_items_def by (intro stable_intro)
qed

lemma stable_load_editable [stable_intro]: "stable (load_editable_scheduled_task tid)"
  unfolding load_editable_scheduled_task_def by (intro stable_intro)

lemma stable_load_task [stable_intro]: "stable (load_task_with_execution tid)"
  unfolding load_task_with_execution_def by (intro stable_intro)

lemma stable_next_version [stable_intro]: "stable (next_version_no r)"
  unfolding next_version_no_def by (intro stable_intro)

lemma stable_build_trigger [stable_intro]: "stable (build_trigger_event e t)"
  unfolding build_trigger_event_def by (intro stable_intro)

subsection \<open>What the loads deliver\<close>

lemma db_read_Inr_iff: "db_read f w = (Inr a, w') \<longleftrightarrow> \<not> w_fault w (w_step w) \<and> a = f (w_db w) \<and> w' = tick w"
  by (auto simp: db_read_def db_call_Inr_iff tick_def)

lemma load_editable_Inr:
  assumes "load_editable_scheduled_task tid w = (Inr (t, e, oids), w')"
  shows "row_get t_id (db_tasks (w_db w)) tid = Some t"
    "find (\<lambda>e. e_task e = tid) (db_execs (w_db w)) = Some e"
    "t_mode t = mode_scheduled" "t_status t = TScheduled" "e_status e = EScheduled"
    "oids = task_org_ids (orgs_by_task tid (db_orgs (w_db w)))"
  using assms
  by (auto simp: load_editable_scheduled_task_def svc_iffs wrap_err_Inr_iff repo_read_defs db_read_Inr_iff
      split: option.splits if_splits)

lemma load_task_Inr:
  assumes "load_task_with_execution tid w = (Inr (t, e, oids), w')"
  shows "row_get t_id (db_tasks (w_db w)) tid = Some t"
    "e = find (\<lambda>e. e_task e = tid) (db_execs (w_db w))"
    "oids = task_org_ids (orgs_by_task tid (db_orgs (w_db w)))"
  using assms
  by (auto simp: load_task_with_execution_def svc_iffs wrap_err_Inr_iff repo_read_defs db_read_Inr_iff
      split: option.splits if_splits)

lemma next_version_Inr:
  assumes "next_version_no r w = (Inr v, w')"
  shows "0 < v" "t \<in> set (db_tasks (w_db w)) \<Longrightarrow> t_root t = Some r \<Longrightarrow> t_version t < v"
proof -
  have v: "v = (case latest_version r (db_tasks (w_db w)) of None \<Rightarrow> 1 | Some t \<Rightarrow> t_version t + 1)"
    using assms by (auto simp: next_version_no_def svc_iffs wrap_err_Inr_iff repo_read_defs db_read_Inr_iff)
  then show "0 < v" by (simp split: option.splits)
  assume "t \<in> set (db_tasks (w_db w))" "t_root t = Some r"
  then show "t_version t < v"
    unfolding v by (auto simp: latest_version_None_iff dest: latest_version_max split: option.splits)
qed

text \<open>The trigger row a queued execution publishes.\<close>

lemma publish_trigger_effect:
  assumes "publish_queued_execution_trigger_in_tx eid tid w = (Inr a, w')" "0 < eid" "0 < tid"
  shows "\<exists>o'. ob_payload o' = trigger_payload eid tid \<and> ob_agg_id o' = show_nat eid \<and>
              ob_status o' = OPending \<and> ob_retry o' = 0 \<and>
              w_db w' = (w_db w)\<lparr>db_outbox := db_outbox (w_db w) @ [o']\<rparr> \<and> w_ext w' = w_ext w"
proof -
  obtain o' v where b: "build_trigger_event eid tid w = (Inr o', v)" "outbox_insert o' v = (Inr a, w')"
    using assms by (auto simp: publish_queued_execution_trigger_in_tx_def publish_trigger_in_tx_def
        wrap_err_Inr_iff svc_iffs)
  have o': "ob_payload o' = trigger_payload eid tid" "ob_agg_id o' = show_nat eid" "ob_status o' = OPending" "ob_retry o' = 0"
    using b(1) by (auto simp: build_trigger_event_def svc_iffs split: if_splits prod.splits)
  have "w_db v = w_db w \<and> w_ext v = w_ext w" using b(1) by (rule stableD) (intro stable_intro)
  with o' outbox_insert_effect [OF b(2)] show ?thesis by auto
qed

subsection \<open>Creating a version\<close>

text \<open>What a successful creation leaves: one new task, one new execution, at most one trigger.\<close>

definition created_version ::
  "nat option \<Rightarrow> nat option \<Rightarrow> nat \<Rightarrow> nat \<Rightarrow> valid_draft \<Rightarrow> trigger_type \<Rightarrow> oj_db \<Rightarrow> oj_task \<Rightarrow> oj_exec \<Rightarrow> oj_db \<Rightarrow> bool" where
  "created_version root parent v op draft trig d t e d' \<longleftrightarrow>
     db_tasks d' = db_tasks d @ [t] \<and> db_execs d' = db_execs d @ [e] \<and>
     t_id t = db_next d \<and> e_task e = t_id t \<and> db_next d < e_id e \<and> e_id e < db_next d' \<and>
     t_root t = (if root = None \<or> root = Some 0 then Some (t_id t) else root) \<and>
     t_parent t = parent \<and> t_version t = v \<and> t_mode t = vd_mode draft \<and> t_exec_at t = vd_exec_at draft \<and>
     t_title t = vd_title draft \<and> t_created_by t = op \<and>
     t_status t = (if vd_mode draft = mode_immediate then TQueued else TScheduled) \<and>
     e_status e = (if vd_mode draft = mode_immediate then EQueued else EScheduled) \<and>
     e_trigger e = trig \<and> e_requested e = op \<and>
     (vd_mode draft \<noteq> mode_immediate \<longrightarrow> (\<forall>a. vd_exec_at draft = Some a \<longrightarrow> e_planned e = a)) \<and>
     e_started e = None \<and> e_finished e = None \<and> e_error e = [] \<and> counts_ok e \<and>
     (if vd_mode draft = mode_immediate
      then \<exists>o'. db_outbox d' = db_outbox d @ [o'] \<and> ob_payload o' = trigger_payload (e_id e) (t_id t) \<and>
                ob_agg_id o' = show_nat (e_id e) \<and> ob_status o' = OPending \<and> ob_retry o' = 0
      else db_outbox d' = db_outbox d)"

lemma map_update_root_new:
  assumes "\<And>t. t \<in> set ts \<Longrightarrow> t_id t < t_id u"
  shows "map (\<lambda>t. if t_id t = t_id u then t\<lparr>t_root := Some r\<rparr> else t) (ts @ [u]) = ts @ [u\<lparr>t_root := Some r\<rparr>]"
proof -
  have "map (\<lambda>t. if t_id t = t_id u then t\<lparr>t_root := Some r\<rparr> else t) ts = ts"
    using assms by (intro map_idI) fastforce
  then show ?thesis by simp
qed

text \<open>The first two calls of a creation insert the task with its root.\<close>

lemma create_root_effect:
  assumes keys: "keys_ok (w_db w)"
    and c: "task_create t0 w = (Inr t1, w1)"
    and r: "(if root = None \<or> root = Some 0 then db_err (task_update_root (t_id t1) (t_id t1))
             else svc_return ()) w1 = (Inr u, w2)"
    and t0: "t_root t0 = root"
  shows "\<exists>t. t = t1\<lparr>t_root := (if root = None \<or> root = Some 0 then Some (t_id t1) else root)\<rparr> \<and>
     t_id t1 = db_next (w_db w) \<and> t1 = t0\<lparr>t_id := db_next (w_db w)\<rparr> \<and>
     w_db w2 = (w_db w)\<lparr>db_tasks := db_tasks (w_db w) @ [t], db_next := Suc (db_next (w_db w))\<rparr> \<and>
     w_ext w2 = w_ext w"
proof -
  from task_create_effect [OF c]
  have t1: "t1 = t0\<lparr>t_id := db_next (w_db w)\<rparr>" "w_ext w1 = w_ext w"
    and db1: "w_db w1 = (w_db w)\<lparr>db_tasks := db_tasks (w_db w) @ [t1], db_next := Suc (db_next (w_db w))\<rparr>"
    by auto
  then have id1: "t_id t1 = db_next (w_db w)" by simp
  have lt: "t \<in> set (db_tasks (w_db w)) \<Longrightarrow> t_id t < t_id t1" for t
    using keys id1 by (auto simp: keys_ok_def)
  show ?thesis
  proof (cases "root = None \<or> root = Some 0")
    case True
    with r have "task_update_root (t_id t1) (t_id t1) w1 = (Inr u, w2)" by (simp add: wrap_err_Inr_iff)
    from task_update_root_effect [OF this] have "w_ext w2 = w_ext w"
      "w_db w2 = (w_db w)\<lparr>db_tasks := db_tasks (w_db w) @ [t1\<lparr>t_root := Some (t_id t1)\<rparr>], db_next := Suc (db_next (w_db w))\<rparr>"
      using t1(2) map_update_root_new [OF lt, of "db_tasks (w_db w)"] by (simp_all add: db1 del: map_append)
    with True t1 id1 show ?thesis by simp
  next
    case False
    with r have "w2 = w1" by auto
    with False t1 id1 db1 t0 show ?thesis by auto
  qed
qed

text \<open>The calls of a successful creation, with the states between them.\<close>

lemma create_version_steps:
  assumes run: "create_task_version root parent v op draft trig w = (Inr r, w')"
    and keys: "keys_ok (w_db w)"
  obtains n t w2 u2 w3 its w4 u4 w5 e w6 u6 where
    "t = \<lparr>t_id = db_next (w_db w), t_root = (if root = None \<or> root = Some 0 then Some (db_next (w_db w)) else root),
          t_parent = parent, t_version = v, t_title = vd_title draft, t_desc = vd_desc draft, t_mode = vd_mode draft,
          t_status = (if vd_mode draft = mode_immediate then TQueued else TScheduled),
          t_exec_at = vd_exec_at draft, t_created_by = op, t_updated_by = op\<rparr>"
    "w_db w2 = (w_db w)\<lparr>db_tasks := db_tasks (w_db w) @ [t], db_next := Suc (db_next (w_db w))\<rparr>" "w_ext w2 = w_ext w"
    "orgs_create (build_task_org_rows (t_id t) (vd_orgs draft)) w2 = (Inr u2, w3)"
    "items_create (build_task_item_rows (t_id t) (vd_items draft)) w3 = (Inr its, w4)"
    "intakes_create (build_task_intake_rows (t_id t) its) w4 = (Inr u4, w5)"
    "exec_create (new_execution (t_id t) trig
        (if vd_mode draft = mode_immediate then n else (case vd_exec_at draft of None \<Rightarrow> n | Some a \<Rightarrow> a)) op
        (if vd_mode draft = mode_immediate then EQueued else EScheduled)) w5 = (Inr e, w6)"
    "(if e_status e = EQueued then publish_queued_execution_trigger_in_tx (e_id e) (t_id t) else svc_return ()) w6 = (Inr u6, w')"
    "r = \<lparr>cr_task = t_id t, cr_exec = e_id e, cr_status = t_status t\<rparr>"
proof -
  define tst where "tst = (if vd_mode draft = mode_immediate then TQueued else TScheduled)"
  define est where "est = (if vd_mode draft = mode_immediate then EQueued else EScheduled)"
  obtain t0 w0 where n: "now w = (Inr t0, w0)" by (auto simp: now_def)
  define pl where "pl = (if vd_mode draft = mode_immediate then t0 else (case vd_exec_at draft of None \<Rightarrow> t0 | Some a \<Rightarrow> a))"
  define T where "T = \<lparr>t_id = 0, t_root = root, t_parent = parent, t_version = v, t_title = vd_title draft,
             t_desc = vd_desc draft, t_mode = vd_mode draft, t_status = tst,
             t_exec_at = vd_exec_at draft, t_created_by = op, t_updated_by = op\<rparr>"
  have w0: "w_db w0 = w_db w" "w_ext w0 = w_ext w"
    using stableD [of now, OF n] by (simp_all add: stable_intro)
  obtain t1 w1 u1 w2 u2 w3 its w4 u4 w5 e w6 u6 where
    c1: "task_create T w0 = (Inr t1, w1)"
    and c2: "(if root = None \<or> root = Some 0 then db_err (task_update_root (t_id t1) (t_id t1)) else svc_return ()) w1 = (Inr u1, w2)"
    and c3: "orgs_create (build_task_org_rows (t_id t1) (vd_orgs draft)) w2 = (Inr u2, w3)"
    and c4: "items_create (build_task_item_rows (t_id t1) (vd_items draft)) w3 = (Inr its, w4)"
    and c5: "intakes_create (build_task_intake_rows (t_id t1) its) w4 = (Inr u4, w5)"
    and c6: "exec_create (new_execution (t_id t1) trig pl op est) w5 = (Inr e, w6)"
    and c7: "(if e_status e = EQueued then publish_queued_execution_trigger_in_tx (e_id e) (t_id t1) else svc_return ()) w6 = (Inr u6, w')"
    and r: "r = \<lparr>cr_task = t_id t1, cr_exec = e_id e, cr_status = t_status t1\<rparr>"
    using run n unfolding create_task_version_def Let_def
    by (auto simp: svc_bind_Inr_iff wrap_err_Inr_iff simp flip: tst_def est_def pl_def T_def)
  obtain t where t: "t = t1\<lparr>t_root := (if root = None \<or> root = Some 0 then Some (t_id t1) else root)\<rparr>"
    and t1: "t_id t1 = db_next (w_db w)" "t1 = T\<lparr>t_id := db_next (w_db w)\<rparr>"
    and db2: "w_db w2 = (w_db w)\<lparr>db_tasks := db_tasks (w_db w) @ [t], db_next := Suc (db_next (w_db w))\<rparr>"
    and x2: "w_ext w2 = w_ext w"
    using create_root_effect [OF _ c1 c2] keys w0 by (auto simp: T_def)
  show thesis
    by (rule that [OF _ db2 x2, of u2 w3 its w4 u4 w5 t0 e w6 u6])
      (use c3 c4 c5 c6 c7 [unfolded t1(1)] r t1 in \<open>simp_all add: t T_def tst_def est_def pl_def split: if_split_asm\<close>)
qed

lemma create_version_effect:
  assumes run: "create_task_version root parent v op draft trig w = (Inr r, w')"
    and keys: "keys_ok (w_db w)"
  shows "\<exists>t e. created_version root parent v op draft trig (w_db w) t e (w_db w') \<and> w_ext w' = w_ext w \<and>
     r = \<lparr>cr_task = t_id t, cr_exec = e_id e, cr_status = t_status t\<rparr>"
proof -
  obtain n t w2 u2 w3 its w4 u4 w5 e w6 u6 where
    t: "t = \<lparr>t_id = db_next (w_db w), t_root = (if root = None \<or> root = Some 0 then Some (db_next (w_db w)) else root),
          t_parent = parent, t_version = v, t_title = vd_title draft, t_desc = vd_desc draft, t_mode = vd_mode draft,
          t_status = (if vd_mode draft = mode_immediate then TQueued else TScheduled),
          t_exec_at = vd_exec_at draft, t_created_by = op, t_updated_by = op\<rparr>"
    and db2: "w_db w2 = (w_db w)\<lparr>db_tasks := db_tasks (w_db w) @ [t], db_next := Suc (db_next (w_db w))\<rparr>"
    and x2: "w_ext w2 = w_ext w"
    and c3: "orgs_create (build_task_org_rows (t_id t) (vd_orgs draft)) w2 = (Inr u2, w3)"
    and c4: "items_create (build_task_item_rows (t_id t) (vd_items draft)) w3 = (Inr its, w4)"
    and c5: "intakes_create (build_task_intake_rows (t_id t) its) w4 = (Inr u4, w5)"
    and c6: "exec_create (new_execution (t_id t) trig
        (if vd_mode draft = mode_immediate then n else (case vd_exec_at draft of None \<Rightarrow> n | Some a \<Rightarrow> a)) op
        (if vd_mode draft = mode_immediate then EQueued else EScheduled)) w5 = (Inr e, w6)"
    and c7: "(if e_status e = EQueued then publish_queued_execution_trigger_in_tx (e_id e) (t_id t) else svc_return ()) w6 = (Inr u6, w')"
    and r: "r = \<lparr>cr_task = t_id t, cr_exec = e_id e, cr_status = t_status t\<rparr>"
    by (rule create_version_steps [OF run keys])
  have core: "same_core (w_db w2) (w_db w5)" "w_ext w5 = w_ext w"
    using core_run [OF core_rows(1) c3] core_run [OF core_rows(2) c4] core_run [OF core_rows(4) c5] x2
    by (auto intro: same_core_trans)
  from exec_create_effect [OF c6]
  have e: "e = (new_execution (t_id t) trig
        (if vd_mode draft = mode_immediate then n else (case vd_exec_at draft of None \<Rightarrow> n | Some a \<Rightarrow> a)) op
        (if vd_mode draft = mode_immediate then EQueued else EScheduled))\<lparr>e_id := db_next (w_db w5)\<rparr>" "w_ext w6 = w_ext w"
    and db6: "w_db w6 = (w_db w5)\<lparr>db_execs := db_execs (w_db w5) @ [e], db_next := Suc (db_next (w_db w5))\<rparr>"
    using core by auto
  have next5: "Suc (db_next (w_db w)) \<le> db_next (w_db w5)" using core db2 by (simp add: same_core_def)
  have pos: "0 < e_id e" "0 < t_id t" using e t next5 keys by (auto simp: keys_ok_def)
  have last: "w_ext w' = w_ext w \<and> db_tasks (w_db w') = db_tasks (w_db w6) \<and> db_execs (w_db w') = db_execs (w_db w6) \<and>
      db_next (w_db w') = db_next (w_db w6) \<and>
      (if vd_mode draft = mode_immediate
      then \<exists>o'. db_outbox (w_db w') = db_outbox (w_db w6) @ [o'] \<and> ob_payload o' = trigger_payload (e_id e) (t_id t) \<and>
                ob_agg_id o' = show_nat (e_id e) \<and> ob_status o' = OPending \<and> ob_retry o' = 0
      else db_outbox (w_db w') = db_outbox (w_db w6))"
  proof (cases "vd_mode draft = mode_immediate")
    case True
    then have "publish_queued_execution_trigger_in_tx (e_id e) (t_id t) w6 = (Inr u6, w')"
      using c7 e by (simp add: new_execution_def)
    from publish_trigger_effect [OF this pos] True e(2) show ?thesis by auto
  next
    case False
    then show ?thesis using c7 e by (simp add: new_execution_def)
  qed
  have "created_version root parent v op draft trig (w_db w) t e (w_db w')"
    using last core next5 unfolding created_version_def
    by (cases "vd_mode draft = mode_immediate"; cases root)
      (auto simp: db6 db2 t e new_execution_def same_core_def counts_ok_def)
  with last r show ?thesis by blast
qed

subsection \<open>The commands keep the invariant\<close>

text \<open>\<open>J d\<close>: the tables satisfy the invariant and have evolved from \<open>d\<close>.\<close>

definition db_ok :: "oj_db \<Rightarrow> oj_db \<Rightarrow> bool" where
  "db_ok d0 d \<longleftrightarrow> db_inv d \<and> db_evolves d0 d"

definition preserves :: "'a oj \<Rightarrow> bool" where
  "preserves m \<longleftrightarrow> (\<forall>d0. keeps (\<lambda>w. db_ok d0 (w_db w)) m)"

lemma preservesD: "m w = (r, w') \<Longrightarrow> preserves m \<Longrightarrow> db_inv (w_db w) \<Longrightarrow> db_inv (w_db w') \<and> db_evolves (w_db w) (w_db w')"
  using keepsD [of "\<lambda>v. db_ok (w_db w) (w_db v)" m w r w'] by (simp add: preserves_def db_ok_def)

lemma preservesI:
  assumes "\<And>w r w'. db_inv (w_db w) \<Longrightarrow> m w = (r, w') \<Longrightarrow> db_inv (w_db w') \<and> db_evolves (w_db w) (w_db w')"
  shows "preserves m"
  unfolding preserves_def db_ok_def by (intro allI keepsI) (meson assms db_evolves_trans)

named_theorems preserves_intro \<open>methods that keep the invariant of the tables\<close>

lemma preserves_of_core: "core_stable m \<Longrightarrow> preserves m"
  by (intro preservesI) (blast dest: core_stableD intro: same_core_inv same_core_evolves)

lemma preserves_of_stable: "stable m \<Longrightarrow> preserves m"
  by (rule preserves_of_core [OF core_of_stable])

lemma preserves_bind [preserves_intro]:
  "preserves m \<Longrightarrow> (\<And>a. preserves (f a)) \<Longrightarrow> preserves (svc_bind m f)"
  by (simp add: preserves_def keeps_bind)

text \<open>The same with what the first method guarantees of its result.\<close>

lemma preserves_bind_post:
  assumes "preserves m" "\<And>w a w'. m w = (Inr a, w') \<Longrightarrow> Q a" "\<And>a. Q a \<Longrightarrow> preserves (f a)"
  shows "preserves (svc_bind m f)"
proof (rule preservesI)
  fix w r w' assume inv: "db_inv (w_db w)" and run: "svc_bind m f w = (r, w')"
  obtain q v where m: "m w = (q, v)" by fastforce
  have v: "db_inv (w_db v) \<and> db_evolves (w_db w) (w_db v)" using preservesD [OF m assms(1) inv] .
  show "db_inv (w_db w') \<and> db_evolves (w_db w) (w_db w')"
  proof (cases q)
    case (Inl e) with run m v show ?thesis by simp
  next
    case (Inr a)
    with run m have "f a v = (r, w')" by simp
    then show ?thesis
      using preservesD [OF _ assms(3) [OF assms(2) [OF m [unfolded Inr]]]] v by (meson db_evolves_trans)
  qed
qed

lemma preserves_basic [preserves_intro]: "preserves (svc_return a)" "preserves (svc_throw e)" "preserves (svc_lift r)"
  by (simp_all add: preserves_def keeps_intro)

lemma preserves_if [preserves_intro]: "preserves m \<Longrightarrow> preserves n \<Longrightarrow> preserves (if b then m else n)"
  by simp

lemma preserves_case_option [preserves_intro]:
  "preserves m \<Longrightarrow> (\<And>x. preserves (f x)) \<Longrightarrow> preserves (case z of None \<Rightarrow> m | Some x \<Rightarrow> f x)"
  by (cases z) simp_all

lemma preserves_case_prod [preserves_intro]:
  "(\<And>x y. preserves (f x y)) \<Longrightarrow> preserves (case z of (x, y) \<Rightarrow> f x y)"
  by (cases z) simp

lemma preserves_catch [preserves_intro]:
  "preserves m \<Longrightarrow> (\<And>e. preserves (h e)) \<Longrightarrow> (\<And>a. preserves (k a)) \<Longrightarrow> preserves (svc_catch m h k)"
  by (simp add: preserves_def keeps_catch)

lemma preserves_wrap_err [preserves_intro]: "preserves m \<Longrightarrow> preserves (wrap_err c m)"
  by (simp add: preserves_def wrap_err_def keeps_wrap)

lemma preserves_in_tx:
  assumes "\<And>w a w'. db_inv (w_db w) \<Longrightarrow> m w = (Inr a, w') \<Longrightarrow> db_inv (w_db w') \<and> db_evolves (w_db w) (w_db w')"
  shows "preserves (in_tx m)"
  unfolding preserves_def db_ok_def
  by (intro allI keeps_in_tx [where I = "\<lambda>d. db_inv d \<and> db_evolves _ d"]) (meson assms db_evolves_trans)

lemma created_version_ok:
  assumes inv: "db_inv d" and c: "created_version root parent v op draft trig d t e d'"
    and root: "root = None \<or> (\<exists>q \<in> set (db_tasks d). root = Some (t_id q))"
    and v: "0 < v" "\<And>q. q \<in> set (db_tasks d) \<Longrightarrow> t_root q = root \<Longrightarrow> t_version q < v"
    and mode: "vd_mode draft = mode_immediate \<or> (vd_mode draft = mode_scheduled \<and> vd_exec_at draft \<noteq> None)"
  shows "db_inv d' \<and> db_evolves d d'"
proof
  note c = c [unfolded created_version_def]
  have outbox: "set (db_outbox d) \<subseteq> set (db_outbox d')" using c by (auto split: if_splits)
  have nz: "root \<noteq> Some 0" using root inv by (auto simp: db_inv_defs)
  have fresh: "t_root q \<noteq> Some (t_id t)" if q: "q \<in> set (db_tasks d)" for q
  proof
    assume "t_root q = Some (t_id t)"
    then obtain p where "p \<in> set (db_tasks d)" "t_id p = t_id t"
      using inv q by (force simp: db_inv_defs)
    then show False using c inv by (auto simp: db_inv_defs)
  qed
  have pair: "pair_ok (db_outbox d') t e"
    using c mode by (auto simp: pair_ok_def schedule_ok_def timing_ok_def queued_ok_def terminal_def split: if_splits)
  show "db_inv d'"
  proof (rule append_pair_inv [where d = d and t = t and e = e])
    show "t_root t = Some (t_id t) \<or> (\<exists>q \<in> set (db_tasks d). t_root t = Some (t_id q))"
      using c root by (auto split: if_splits)
    show "t_version q \<noteq> t_version t" if q: "q \<in> set (db_tasks d)" "t_root q = t_root t" for q
    proof (cases "root = None")
      case True then show ?thesis using c q fresh by (auto split: if_splits)
    next
      case False
      then have "t_root t = root" "t_version t = v" using c nz by (auto split: if_splits)
      with v(2) [OF q(1)] q(2) show ?thesis by simp
    qed
  qed (use c inv outbox pair v(1) in \<open>auto simp: db_inv_defs\<close>)
  show "db_evolves d d'"
    by (rule append_pair_evolves [where t = t and e = e]) (use c outbox in auto)
qed

lemma validate_draft_mode:
  assumes "validate_draft r w = (Inr d, w')"
  shows "(nd_mode d = mode_immediate \<and> nd_exec_at d = None) \<or>
         (nd_mode d = mode_scheduled \<and> nd_exec_at d \<noteq> None)"
  using assms
  by (auto simp: validate_draft_def svc_iffs normalize_execute_at_def is_valid_oj_task_mode_def
      split: if_splits option.splits)

lemma materialize_draft_fields:
  assumes "materialize_draft d w = (Inr md, w')"
  shows "vd_mode md = nd_mode d \<and> vd_exec_at md = nd_exec_at d \<and> vd_orgs md = nd_orgs d \<and> vd_title md = nd_title d"
  using assms by (auto simp: materialize_draft_def svc_iffs)

text \<open>Creating a version inside a transaction, for the three commands that do it.\<close>

definition draft_mode_ok :: "valid_draft \<Rightarrow> bool" where
  "draft_mode_ok d \<longleftrightarrow> vd_mode d = mode_immediate \<or> (vd_mode d = mode_scheduled \<and> vd_exec_at d \<noteq> None)"

lemma create_version_ok:
  assumes inv: "db_inv (w_db w)" and run: "create_task_version root parent v op md trig w = (Inr a, w')"
    and root: "root = None \<or> (\<exists>q \<in> set (db_tasks (w_db w)). root = Some (t_id q))"
    and v: "0 < v" "\<And>q. q \<in> set (db_tasks (w_db w)) \<Longrightarrow> t_root q = root \<Longrightarrow> t_version q < v"
    and mode: "draft_mode_ok md"
  shows "db_inv (w_db w') \<and> db_evolves (w_db w) (w_db w')"
proof -
  obtain t e where "created_version root parent v op md trig (w_db w) t e (w_db w')"
    using create_version_effect [OF run] inv by (auto simp: db_inv_def)
  from created_version_ok [OF inv this root v] mode show ?thesis by (simp add: draft_mode_ok_def)
qed

lemma root_not_None: "db_inv d \<Longrightarrow> q \<in> set (db_tasks d) \<Longrightarrow> t_root q \<noteq> None"
  by (auto simp: db_inv_defs)

lemma preserves_create_task [preserves_intro]: "preserves (create_task op req)"
  unfolding create_task_def
proof (intro preserves_bind_post [where Q = "\<lambda>d. (nd_mode d = mode_immediate \<and> nd_exec_at d = None) \<or>
         (nd_mode d = mode_scheduled \<and> nd_exec_at d \<noteq> None)"] preserves_bind preserves_in_tx
         preserves_of_stable stable_intro)
  fix draft w a w'
  assume d: "(nd_mode draft = mode_immediate \<and> nd_exec_at draft = None) \<or>
         (nd_mode draft = mode_scheduled \<and> nd_exec_at draft \<noteq> None)"
    and inv: "db_inv (w_db w)"
    and "svc_bind (materialize_draft draft) (\<lambda>md.
         create_task_version None None 1 op md (resolve_execution_trigger (nd_mode draft))) w = (Inr a, w')"
  then obtain md v where m: "materialize_draft draft w = (Inr md, v)"
    and c: "create_task_version None None 1 op md (resolve_execution_trigger (nd_mode draft)) v = (Inr a, w')"
    by (auto simp: svc_bind_Inr_iff)
  have v: "w_db v = w_db w" using stable_run [OF stable_materialize_draft m] by simp
  have "db_inv (w_db w') \<and> db_evolves (w_db v) (w_db w')"
    by (rule create_version_ok [OF _ c])
      (use d inv v materialize_draft_fields [OF m] root_not_None in \<open>auto simp: draft_mode_ok_def\<close>)
  then show "db_inv (w_db w') \<and> db_evolves (w_db w) (w_db w')" by (simp add: v)
qed (auto dest: validate_draft_mode)

subsection \<open>Commands that first load a row\<close>

definition preserves_from :: "(oj_db \<Rightarrow> bool) \<Rightarrow> 'a oj \<Rightarrow> bool" where
  "preserves_from P m \<longleftrightarrow>
     (\<forall>w r w'. db_inv (w_db w) \<longrightarrow> P (w_db w) \<longrightarrow> m w = (r, w') \<longrightarrow>
        db_inv (w_db w') \<and> db_evolves (w_db w) (w_db w'))"

lemma preserves_from_True: "preserves_from (\<lambda>_. True) m \<Longrightarrow> preserves m"
  by (intro preservesI) (auto simp: preserves_from_def)

lemma from_preserves: "preserves m \<Longrightarrow> preserves_from P m"
  by (auto simp: preserves_from_def dest: preservesD)

lemma from_stable_bind:
  assumes "stable m"
    and "\<And>w a w'. db_inv (w_db w) \<Longrightarrow> P (w_db w) \<Longrightarrow> m w = (Inr a, w') \<Longrightarrow> Q a (w_db w)"
    and "\<And>a. preserves_from (Q a) (f a)"
  shows "preserves_from P (svc_bind m f)"
  unfolding preserves_from_def
proof (intro allI impI)
  fix w r w' assume inv: "db_inv (w_db w)" and P: "P (w_db w)" and run: "svc_bind m f w = (r, w')"
  obtain q v where m: "m w = (q, v)" by fastforce
  have v: "w_db v = w_db w" using stable_run [OF assms(1) m] by simp
  show "db_inv (w_db w') \<and> db_evolves (w_db w) (w_db w')"
  proof (cases q)
    case (Inl e) with run m v inv show ?thesis by simp
  next
    case (Inr a)
    with run m have "f a v = (r, w')" by simp
    moreover have "Q a (w_db v)" using assms(2) [OF inv P] m Inr v by simp
    ultimately show ?thesis using assms(3) [of a] inv v unfolding preserves_from_def by metis
  qed
qed

lemma from_in_tx:
  assumes "\<And>w a w'. db_inv (w_db w) \<Longrightarrow> P (w_db w) \<Longrightarrow> m w = (Inr a, w') \<Longrightarrow> db_inv (w_db w') \<and> db_evolves (w_db w) (w_db w')"
  shows "preserves_from P (in_tx m)"
  unfolding preserves_from_def
proof (intro allI impI)
  fix w r w' assume inv: "db_inv (w_db w)" and P: "P (w_db w)" and run: "in_tx m w = (r, w')"
  show "db_inv (w_db w') \<and> db_evolves (w_db w) (w_db w')"
  proof (cases r)
    case (Inl e) with run inv show ?thesis by (auto dest: in_tx_Inl)
  next
    case (Inr a) with run obtain v where "m w = (Inr a, v)" "w_db w' = w_db v" by (auto dest: in_tx_Inr)
    with assms [OF inv P] show ?thesis by simp
  qed
qed

lemma from_if: "preserves_from P m \<Longrightarrow> preserves_from P n \<Longrightarrow> preserves_from P (if b then m else n)"
  by simp

lemma effective_root: "db_inv d \<Longrightarrow> t \<in> set (db_tasks d) \<Longrightarrow>
  t_root t = Some (effective_root_task_id t) \<and> (\<exists>q \<in> set (db_tasks d). effective_root_task_id t = t_id q)"
  by (force simp: db_inv_defs effective_root_task_id_def split: option.splits)

lemma linked_rows:
  assumes "db_inv d" "row_get t_id (db_tasks d) tid = Some t" "find (\<lambda>e. e_task e = tid) (db_execs d) = Some e"
  shows "t \<in> set (db_tasks d)" "t_id t = tid" "e \<in> set (db_execs d)" "e_task e = t_id t" "pair_ok (db_outbox d) t e"
proof -
  show t: "t \<in> set (db_tasks d)" "t_id t = tid" using assms(2) by (auto dest: row_get_key row_get_set)
  show e: "e \<in> set (db_execs d)" "e_task e = t_id t" using find_SomeD [OF assms(3)] t by auto
  show "pair_ok (db_outbox d) t e" using assms(1) t e by (auto simp: db_inv_def pairs_ok_def)
qed

lemma loaded_editable:
  assumes "load_editable_scheduled_task tid w = (Inr (t, e, oids), w')" "db_inv (w_db w)"
  shows "t \<in> set (db_tasks (w_db w))" "t_id t = tid" "e \<in> set (db_execs (w_db w))" "e_task e = t_id t"
    "pair_ok (db_outbox (w_db w)) t e" "t_mode t = mode_scheduled" "t_status t = TScheduled"
    "e_status e = EScheduled"
  by (rule linked_rows [OF assms(2) load_editable_Inr(1,2) [OF assms(1)]])+ (rule load_editable_Inr [OF assms(1)])+

text \<open>Inside a transaction: the versions of \<open>ReviseTask\<close> and \<open>RetryTask\<close>.\<close>

lemma next_version_create_ok:
  assumes inv: "db_inv (w_db w)" and src: "src \<in> set (db_tasks (w_db w))"
    and run: "svc_bind (next_version_no (effective_root_task_id src)) (\<lambda>v.
        create_task_version (Some (effective_root_task_id src)) parent v op md trig) w = (Inr a, w')"
    and mode: "draft_mode_ok md"
  shows "db_inv (w_db w') \<and> db_evolves (w_db w) (w_db w')"
proof -
  let ?r = "effective_root_task_id src"
  obtain v u where n: "next_version_no ?r w = (Inr v, u)"
    and c: "create_task_version (Some ?r) parent v op md trig u = (Inr a, w')"
    using run by (auto simp: svc_bind_Inr_iff)
  have u: "w_db u = w_db w" using stable_run [OF stable_next_version n] by simp
  have "db_inv (w_db w') \<and> db_evolves (w_db u) (w_db w')"
    by (rule create_version_ok [OF _ c])
      (use inv u src mode next_version_Inr [OF n] effective_root [OF inv src] in auto)
  then show ?thesis by (simp add: u)
qed

lemma from_version_tx:
  assumes "draft_mode_ok md"
  shows "preserves_from (\<lambda>d. src \<in> set (db_tasks d))
    (in_tx (svc_bind (next_version_no (effective_root_task_id src)) (\<lambda>v.
        create_task_version (Some (effective_root_task_id src)) parent v op md trig)))"
  by (rule from_in_tx) (rule next_version_create_ok [OF _ _ _ assms])

lemma from_throw: "preserves_from P (svc_throw e)"
  by (rule from_preserves [OF preserves_basic(2)])

lemma loaded_source: "load_task_with_execution tid w = (Inr (t, e, oids), w') \<Longrightarrow> t \<in> set (db_tasks (w_db w))"
  by (rule row_get_set [OF load_task_Inr(1)])

lemma preserves_retry_task [preserves_intro]: "preserves (retry_task op tid)"
proof -
  have body: "preserves_from (\<lambda>d. src \<in> set (db_tasks d))
     (if t_status src = TDeleted then svc_throw (Biz CodeOJTaskDeleted)
       else (case ex of
          None \<Rightarrow> svc_throw (Biz CodeOJTaskExecutionNotFound)
        | Some e \<Rightarrow>
            if e_status e \<noteq> ESucceeded \<and> e_status e \<noteq> EFailed then svc_throw (Biz CodeOJTaskNotEditable)
            else svc_bind (authorize_manage_org_ids op orgs) (\<lambda>_.
              svc_bind (db_err (items_list tid)) (\<lambda>items.
                in_tx (svc_bind (next_version_no (effective_root_task_id src)) (\<lambda>v.
                  create_task_version (Some (effective_root_task_id src)) (Some (t_id src)) v op
                    (retry_draft src orgs items) RetryTrigger))))))" for src ex orgs
    by (cases ex) (auto simp: draft_mode_ok_def retry_draft_def
        intro!: from_throw from_stable_bind [where Q = "\<lambda>_ d. src \<in> set (db_tasks d)"] from_version_tx stable_intro
        simp del: in_tx_def)
  show ?thesis
    unfolding retry_task_def
    by (rule preserves_from_True, rule from_stable_bind [where Q = "\<lambda>(src, _, _) d. src \<in> set (db_tasks d)"])
      (auto intro: stable_load_task body dest: loaded_source simp del: if_split)
qed

lemma from_materialize_version_tx:
  assumes "(nd_mode d = mode_immediate \<and> nd_exec_at d = None) \<or> (nd_mode d = mode_scheduled \<and> nd_exec_at d \<noteq> None)"
  shows "preserves_from (\<lambda>db. src \<in> set (db_tasks db))
    (in_tx (svc_bind (materialize_draft d) (\<lambda>md.
           svc_bind (next_version_no (effective_root_task_id src)) (\<lambda>v.
             create_task_version (Some (effective_root_task_id src)) parent v op md (trig md)))))"
proof (rule from_in_tx)
  fix w a w' assume inv: "db_inv (w_db w)" and src: "src \<in> set (db_tasks (w_db w))"
    and "svc_bind (materialize_draft d) (\<lambda>md.
           svc_bind (next_version_no (effective_root_task_id src)) (\<lambda>v.
             create_task_version (Some (effective_root_task_id src)) parent v op md (trig md))) w = (Inr a, w')"
  then obtain md u where m: "materialize_draft d w = (Inr md, u)"
    and n: "svc_bind (next_version_no (effective_root_task_id src)) (\<lambda>v.
             create_task_version (Some (effective_root_task_id src)) parent v op md (trig md)) u = (Inr a, w')"
    by (auto simp: svc_bind_Inr_iff [of "materialize_draft d"])
  have u: "w_db u = w_db w" using stable_run [OF stable_materialize_draft m] by simp
  have "draft_mode_ok md" using materialize_draft_fields [OF m] assms by (auto simp: draft_mode_ok_def)
  from next_version_create_ok [OF _ _ n this] inv src u
  show "db_inv (w_db w') \<and> db_evolves (w_db w) (w_db w')" by simp
qed

text \<open>What \<open>ReviseTask\<close> does with the version it has loaded.\<close>

definition revise_loaded :: "nat \<Rightarrow> norm_draft \<Rightarrow> oj_task \<times> oj_exec option \<times> nat list \<Rightarrow> create_resp oj" where
  "revise_loaded op d = (\<lambda>(source, ex, orgs).
       if t_status source = TDeleted then svc_throw (Biz CodeOJTaskDeleted)
       else if ex = None then svc_throw (Biz CodeOJTaskExecutionNotFound)
       else svc_bind (authorize_manage_org_ids op (merge_uint_slices orgs (nd_orgs d))) (\<lambda>_.
         in_tx (svc_bind (materialize_draft d) (\<lambda>md.
           svc_bind (next_version_no (effective_root_task_id source)) (\<lambda>v.
             create_task_version (Some (effective_root_task_id source)) (Some (t_id source)) v op md
               (resolve_execution_trigger (vd_mode md)))))))"

lemma preserves_revise_loaded:
  assumes "(nd_mode d = mode_immediate \<and> nd_exec_at d = None) \<or> (nd_mode d = mode_scheduled \<and> nd_exec_at d \<noteq> None)"
  shows "preserves_from (\<lambda>db. fst x \<in> set (db_tasks db)) (revise_loaded op d x)"
  unfolding revise_loaded_def
  by (cases x) (auto intro!: from_if from_throw from_materialize_version_tx [OF assms] stable_intro
      from_stable_bind [where Q = "\<lambda>_ db. fst x \<in> set (db_tasks db)"] simp del: if_split)

lemma revise_task_split:
  "revise_task op tid req =
     svc_bind (validate_draft req) (\<lambda>d. svc_bind (load_task_with_execution tid) (revise_loaded op d))"
  by (simp only: revise_task_def revise_loaded_def)

lemma preserves_revise_task [preserves_intro]: "preserves (revise_task op tid req)"
proof -
  have "preserves (svc_bind (load_task_with_execution tid) (revise_loaded op d))"
    if "(nd_mode d = mode_immediate \<and> nd_exec_at d = None) \<or> (nd_mode d = mode_scheduled \<and> nd_exec_at d \<noteq> None)" for d
    by (rule preserves_from_True, rule from_stable_bind [where Q = "\<lambda>x db. fst x \<in> set (db_tasks db)"])
      (auto intro: stable_load_task preserves_revise_loaded [OF that] dest: loaded_source)
  then show ?thesis
    unfolding revise_task_split
    by (rule preserves_bind_post [OF preserves_of_stable [OF stable_validate_draft]])
      (erule validate_draft_mode)
qed

subsection \<open>Commands that change a loaded pair\<close>

text \<open>A transaction whose net effect on tasks and executions is one replaced pair.\<close>

lemma replaced_pair_ok:
  assumes inv: "db_inv d" and t: "t \<in> set (db_tasks d)" and e: "e \<in> set (db_execs d)" and link: "e_task e = t_id t"
    and t': "task_evolves t t'" and e': "exec_evolves e e'"
    and d': "db_tasks d' = row_put t_id t' (db_tasks d)" "db_execs d' = row_put e_id e' (db_execs d)"
      "set (db_outbox d) \<subseteq> set (db_outbox d')" "db_next d \<le> db_next d'"
    and ok: "pair_ok (db_outbox d') t' e'"
  shows "db_inv d' \<and> db_evolves d d'"
proof
  let ?d = "d\<lparr>db_outbox := db_outbox d'\<rparr>"
  have inv': "db_inv ?d" using inv d'(3) by (auto simp: db_inv_defs intro: pair_ok_mono [of "db_outbox d"])
  have "db_inv (put_pair t' e' ?d)"
    by (rule put_pair_inv [OF inv', of t e]) (use t e link t' e' ok in \<open>auto simp: exec_evolves_def\<close>)
  moreover have core: "same_core (put_pair t' e' ?d) d'"
    using d' by (simp add: same_core_def put_pair_def)
  ultimately show "db_inv d'" by (rule same_core_inv [rotated])
  have "db_evolves d ?d" using d'(3) by (auto simp: db_evolves_def intro: task_evolves_refl exec_evolves_refl)
  moreover have "db_evolves ?d (put_pair t' e' ?d)"
    by (rule put_pair_evolves [OF inv', of t e]) (use t e t' e' in auto)
  moreover have "db_evolves (put_pair t' e' ?d) d'"
    using core by (rule same_core_evolves)
  ultimately show "db_evolves d d'" by (blast intro: db_evolves_trans)
qed

lemmas pair_ok_defs = pair_ok_def counts_ok_def timing_ok_def schedule_ok_def queued_ok_def terminal_def
  task_evolves_def exec_evolves_def

lemma preserves_delete_task [preserves_intro]: "preserves (delete_task op tid)"
  unfolding delete_task_def
proof (rule preserves_in_tx, elim svc_bind_Inr_iff [THEN iffD1, elim_format] exE conjE)
  fix w r w' x w1 assume inv: "db_inv (w_db w)" and "load_editable_scheduled_task tid w = (Inr x, w1)"
    and "(case x of (task, e, orgs) \<Rightarrow>
       svc_bind (authorize_manage_org_ids op orgs) (\<lambda>_.
       svc_bind now (\<lambda>t.
       svc_bind (db_err (task_update (task\<lparr>t_status := TDeleted, t_updated_by := op\<rparr>))) (\<lambda>_.
         db_err (exec_update
           (e\<lparr>e_status := ECancelled, e_finished := Some t, e_error := ''''\<rparr>)))))) w1 = (Inr r, w')"
  then obtain t e orgs u1 w2 n w3 u3 w4 where
    load: "load_editable_scheduled_task tid w = (Inr (t, e, orgs), w1)"
    and a: "authorize_manage_org_ids op orgs w1 = (Inr u1, w2)" and n: "now w2 = (Inr n, w3)"
    and tu: "task_update (t\<lparr>t_status := TDeleted, t_updated_by := op\<rparr>) w3 = (Inr u3, w4)"
    and eu: "exec_update (e\<lparr>e_status := ECancelled, e_finished := Some n, e_error := ''''\<rparr>) w4 = (Inr r, w')"
    by (cases x) (auto simp: svc_bind_Inr_iff wrap_err_Inr_iff)
  have w3: "w_db w3 = w_db w"
    using stable_run [OF stable_load_editable load] stable_run [OF stable_authorize_manage a]
      stable_run [OF stable_env(1) n] by simp
  note l = loaded_editable [OF load inv]
  show "db_inv (w_db w') \<and> db_evolves (w_db w) (w_db w')"
    by (rule replaced_pair_ok [OF inv l(1,3,4), of "t\<lparr>t_status := TDeleted, t_updated_by := op\<rparr>"
          "e\<lparr>e_status := ECancelled, e_finished := Some n, e_error := ''''\<rparr>"])
      (use task_update_effect [OF tu] exec_update_effect [OF eu] w3 l(5-8) in \<open>auto simp: pair_ok_defs\<close>)
qed

lemma preserves_execute_task_now [preserves_intro]: "preserves (execute_task_now op tid)"
  unfolding execute_task_now_def
proof (rule preserves_in_tx, elim svc_bind_Inr_iff [THEN iffD1, elim_format] exE conjE)
  fix w r w' x w1 assume inv: "db_inv (w_db w)" and "load_editable_scheduled_task tid w = (Inr x, w1)"
    and "(case x of (task, e, orgs) \<Rightarrow>
       svc_bind (authorize_manage_org_ids op orgs) (\<lambda>_.
       svc_bind now (\<lambda>t.
       svc_bind (db_err (task_update (task\<lparr>t_status := TQueued, t_updated_by := op\<rparr>))) (\<lambda>_.
       svc_bind (db_err (exec_update (requeue_execution op t e))) (\<lambda>_.
       svc_bind (publish_queued_execution_trigger_in_tx (e_id e) (t_id task)) (\<lambda>_.
         svc_return \<lparr>cr_task = t_id task, cr_exec = e_id e, cr_status = TQueued\<rparr>)))))) w1 = (Inr r, w')"
  then obtain t e orgs u1 w2 n w3 u3 w4 u4 w5 u5 where
    load: "load_editable_scheduled_task tid w = (Inr (t, e, orgs), w1)"
    and a: "authorize_manage_org_ids op orgs w1 = (Inr u1, w2)" and n: "now w2 = (Inr n, w3)"
    and tu: "task_update (t\<lparr>t_status := TQueued, t_updated_by := op\<rparr>) w3 = (Inr u3, w4)"
    and eu: "exec_update (requeue_execution op n e) w4 = (Inr u4, w5)"
    and pub: "publish_queued_execution_trigger_in_tx (e_id e) (t_id t) w5 = (Inr u5, w')"
    by (cases x) (auto simp: svc_bind_Inr_iff wrap_err_Inr_iff)
  have w3: "w_db w3 = w_db w"
    using stable_run [OF stable_load_editable load] stable_run [OF stable_authorize_manage a]
      stable_run [OF stable_env(1) n] by simp
  note l = loaded_editable [OF load inv]
  have "0 < e_id e" "0 < t_id t" using inv l(1,3) by (auto simp: db_inv_defs)
  then obtain o' where o': "ob_payload o' = trigger_payload (e_id e) (t_id t)"
    "w_db w' = (w_db w5)\<lparr>db_outbox := db_outbox (w_db w5) @ [o']\<rparr>"
    using publish_trigger_effect [OF pub] by auto
  show "db_inv (w_db w') \<and> db_evolves (w_db w) (w_db w')"
    by (rule replaced_pair_ok [OF inv l(1,3,4), of "t\<lparr>t_status := TQueued, t_updated_by := op\<rparr>"
          "requeue_execution op n e"])
      (use task_update_effect [OF tu] exec_update_effect [OF eu] w3 o' l(4-8) in
        \<open>auto simp: pair_ok_defs requeue_execution_def\<close>)
qed

lemma preserves_update_task [preserves_intro]: "preserves (update_task op tid req)"
  unfolding update_task_def
proof (intro preserves_bind [OF preserves_of_stable [OF stable_validate_draft]] preserves_in_tx,
    elim svc_bind_Inr_iff [THEN iffD1, elim_format] exE conjE)
  fix draft w r w' x w1 assume inv: "db_inv (w_db w)" and "load_editable_scheduled_task tid w = (Inr x, w1)"
    and "(case x of (task, e, orgs) \<Rightarrow>
         svc_bind (authorize_manage_org_ids op (merge_uint_slices orgs (nd_orgs draft))) (\<lambda>_.
           if nd_exec_at draft = None then svc_throw (Biz CodeOJTaskExecuteAtInvalid)
           else svc_bind (materialize_draft draft) (\<lambda>md.
             svc_bind (db_err (task_update
               (task\<lparr>t_title := vd_title md, t_desc := vd_desc md, t_exec_at := vd_exec_at md,
                     t_updated_by := op\<rparr>))) (\<lambda>_.
             svc_bind (db_err (orgs_replace (t_id task) (build_task_org_rows (t_id task) (vd_orgs md)))) (\<lambda>_.
             svc_bind (db_err (items_replace (t_id task) (build_task_item_rows (t_id task) (vd_items md)))) (\<lambda>items.
             svc_bind (db_err (intakes_replace (t_id task) (build_task_intake_rows (t_id task) items))) (\<lambda>_.
               db_err (exec_update
                 (e\<lparr>e_planned := the (vd_exec_at md), e_requested := op\<rparr>))))))))) w1 = (Inr r, w')"
  then obtain t e orgs u1 w2 md w3 u3 w4 u4 w5 its w6 u6 w7 where
    load: "load_editable_scheduled_task tid w = (Inr (t, e, orgs), w1)"
    and a: "authorize_manage_org_ids op (merge_uint_slices orgs (nd_orgs draft)) w1 = (Inr u1, w2)"
    and at: "nd_exec_at draft \<noteq> None"
    and m: "materialize_draft draft w2 = (Inr md, w3)"
    and tu: "task_update (t\<lparr>t_title := vd_title md, t_desc := vd_desc md, t_exec_at := vd_exec_at md,
               t_updated_by := op\<rparr>) w3 = (Inr u3, w4)"
    and r1: "orgs_replace (t_id t) (build_task_org_rows (t_id t) (vd_orgs md)) w4 = (Inr u4, w5)"
    and r2: "items_replace (t_id t) (build_task_item_rows (t_id t) (vd_items md)) w5 = (Inr its, w6)"
    and r3: "intakes_replace (t_id t) (build_task_intake_rows (t_id t) its) w6 = (Inr u6, w7)"
    and eu: "exec_update (e\<lparr>e_planned := the (vd_exec_at md), e_requested := op\<rparr>) w7 = (Inr r, w')"
    by (cases x) (auto simp: svc_bind_Inr_iff wrap_err_Inr_iff split: if_splits)
  have w3: "w_db w3 = w_db w"
    using stable_run [OF stable_load_editable load] stable_run [OF stable_authorize_manage a]
      stable_run [OF stable_materialize_draft m] by simp
  have core: "same_core (w_db w4) (w_db w7)"
    using core_stableD [OF r1 core_replace(1)] core_stableD [OF r2 core_replace(2)]
      core_stableD [OF r3 core_replace(3)] by (blast intro: same_core_trans)
  have planned: "vd_exec_at md = Some (the (vd_exec_at md))" using at materialize_draft_fields [OF m] by auto
  note l = loaded_editable [OF load inv]
  show "db_inv (w_db w') \<and> db_evolves (w_db w) (w_db w')"
    by (rule replaced_pair_ok [OF inv l(1,3,4), of "t\<lparr>t_title := vd_title md, t_desc := vd_desc md,
            t_exec_at := vd_exec_at md, t_updated_by := op\<rparr>" "e\<lparr>e_planned := the (vd_exec_at md), e_requested := op\<rparr>"])
      (use task_update_effect [OF tu] exec_update_effect [OF eu] w3 core planned l(4-8) in
        \<open>auto simp: pair_ok_defs same_core_def\<close>)
qed

end
