(* ===== verification/OJ_Snapshot_Spec.thy ===== *)
theory OJ_Snapshot_Spec
  imports OJ_Commands
begin

text \<open>
  The snapshot declaratively: one row per user, one result per user and item, and counters
  that are the sizes of the corresponding sets of rows. The accumulating loops of
  \<open>buildExecutionSnapshot\<close> compute exactly this.
\<close>

definition item_done :: "resolver \<Rightarrow> nat \<Rightarrow> oj_item \<Rightarrow> bool" where
  "item_done res uid i \<longleftrightarrow> fst (res uid i) = RCompleted"

definition spec_user :: "resolver \<Rightarrow> oj_item list \<Rightarrow> nat \<Rightarrow> user_row \<Rightarrow> exec_user" where
  "spec_user res items eid u =
     \<lparr>u_id = 0, u_exec = eid, u_user = us_id u, u_uuid = us_uuid u, u_name = us_name u,
      u_avatar = us_avatar u, u_status = wrap_int8 (us_status u),
      u_done = length (filter (item_done res (us_id u)) items),
      u_pend = length (filter (\<lambda>i. \<not> item_done res (us_id u) i) items),
      u_all = (\<forall>i \<in> set items. item_done res (us_id u) i)\<rparr>"

definition spec_orgs :: "(nat \<Rightarrow> nat list) \<Rightarrow> (nat \<Rightarrow> string) \<Rightarrow> user_row \<Rightarrow> user_org_draft list" where
  "spec_orgs orgs_of name_of u =
     map (\<lambda>oid. \<lparr>od_user = us_id u, od_org = oid, od_name = name_of oid\<rparr>)
       (sort (normalize_uint_slice (orgs_of (us_id u))))"

definition spec_items :: "resolver \<Rightarrow> oj_item list \<Rightarrow> nat \<Rightarrow> user_item_draft list" where
  "spec_items res items uid =
     map (\<lambda>i. \<lparr>xd_user = uid, xd_item = i_id i, xd_result = fst (res uid i), xd_reason = snd (res uid i)\<rparr>) items"

definition snapshot_spec ::
  "resolver \<Rightarrow> oj_item list \<Rightarrow> (nat \<Rightarrow> nat list) \<Rightarrow> (nat \<Rightarrow> string) \<Rightarrow> nat \<Rightarrow> user_row list \<Rightarrow> snapshot" where
  "snapshot_spec res items orgs_of name_of eid users =
     (let us = map (spec_user res items eid) users
      in \<lparr>sn_users = us, sn_orgs = concat (map (spec_orgs orgs_of name_of) users),
          sn_items = concat (map (\<lambda>u. spec_items res items (us_id u)) users),
          sn_total_users = length us, sn_done_users = length (filter u_all us),
          sn_pend_users = length (filter (\<lambda>u. \<not> u_all u) us),
          sn_total_items = length users * length items, sn_done_items = sum_list (map u_done us),
          sn_pend_items = sum_list (map u_pend us)\<rparr>)"

subsection \<open>The inner loop\<close>

lemma item_result_not_completed: "r \<noteq> RCompleted \<longleftrightarrow> r = RPending"
  by (cases r) auto

lemma item_loop:
  "foldl (snapshot_item_step res) (eu, s) items =
     (eu\<lparr>u_done := u_done eu + length (filter (item_done res (u_user eu)) items),
         u_pend := u_pend eu + length (filter (\<lambda>i. \<not> item_done res (u_user eu) i) items)\<rparr>,
      s\<lparr>sn_items := sn_items s @ spec_items res items (u_user eu),
        sn_total_items := sn_total_items s + length items,
        sn_done_items := sn_done_items s + length (filter (item_done res (u_user eu)) items),
        sn_pend_items := sn_pend_items s + length (filter (\<lambda>i. \<not> item_done res (u_user eu) i) items)\<rparr>)"
proof (induction items arbitrary: eu s)
  case Nil
  then show ?case by (simp add: spec_items_def)
next
  case (Cons i items)
  then show ?case
    by (cases "res (u_user eu) i") (simp add: Let_def item_done_def spec_items_def)
qed

subsection \<open>The outer loop\<close>

lemma filter_all_iff: "length (filter (\<lambda>x. \<not> P x) xs) = 0 \<longleftrightarrow> (\<forall>x \<in> set xs. P x)"
  by (simp add: filter_empty_conv)

lemma user_step:
  "snapshot_user_step res items orgs_of name_of eid s u =
     (let eu = spec_user res items eid u
      in s\<lparr>sn_users := sn_users s @ [eu], sn_orgs := sn_orgs s @ spec_orgs orgs_of name_of u,
           sn_items := sn_items s @ spec_items res items (us_id u),
           sn_total_users := sn_total_users s + 1,
           sn_done_users := sn_done_users s + (if u_all eu then 1 else 0),
           sn_pend_users := sn_pend_users s + (if u_all eu then 0 else 1),
           sn_total_items := sn_total_items s + length items,
           sn_done_items := sn_done_items s + u_done eu,
           sn_pend_items := sn_pend_items s + u_pend eu\<rparr>)"
  unfolding snapshot_user_step_def item_loop Let_def
  by (simp add: spec_user_def spec_orgs_def filter_empty_conv)

lemma user_loop:
  "foldl (snapshot_user_step res items orgs_of name_of eid) s users =
     (let p = snapshot_spec res items orgs_of name_of eid users
      in s\<lparr>sn_users := sn_users s @ sn_users p, sn_orgs := sn_orgs s @ sn_orgs p,
           sn_items := sn_items s @ sn_items p,
           sn_total_users := sn_total_users s + sn_total_users p,
           sn_done_users := sn_done_users s + sn_done_users p,
           sn_pend_users := sn_pend_users s + sn_pend_users p,
           sn_total_items := sn_total_items s + sn_total_items p,
           sn_done_items := sn_done_items s + sn_done_items p,
           sn_pend_items := sn_pend_items s + sn_pend_items p\<rparr>)"
proof (induction users arbitrary: s)
  case Nil
  then show ?case by (simp add: snapshot_spec_def Let_def)
next
  case (Cons u users)
  show ?case
    by (subst foldl_Cons, subst Cons.IH) (simp add: user_step snapshot_spec_def Let_def)
qed

lemma snapshot_loop_spec:
  "foldl (snapshot_user_step res items orgs_of name_of eid) empty_snapshot users =
     snapshot_spec res items orgs_of name_of eid users"
  by (simp add: user_loop empty_snapshot_def Let_def)

subsection \<open>Counters\<close>

definition snapshot_balanced :: "snapshot \<Rightarrow> bool" where
  "snapshot_balanced s \<longleftrightarrow>
     sn_total_users s = length (sn_users s) \<and> sn_total_items s = length (sn_items s) \<and>
     sn_total_users s = sn_done_users s + sn_pend_users s \<and>
     sn_total_items s = sn_done_items s + sn_pend_items s \<and>
     sn_done_items s = length (filter (\<lambda>x. xd_result x = RCompleted) (sn_items s))"

lemma done_plus_pend:
  "sum_list (map u_done (map (spec_user res items eid) users)) + sum_list (map u_pend (map (spec_user res items eid) users))
     = length users * length items"
proof (induction users)
  case (Cons u users)
  then show ?case
    using length_filter_split [of "item_done res (us_id u)" items] by (simp add: spec_user_def)
qed simp

lemma length_spec_items: "length (concat (map (\<lambda>u. spec_items res items (us_id u)) users)) = length users * length items"
  by (induction users) (simp_all add: spec_items_def)

lemma completed_spec_items:
  "length (filter (\<lambda>x. xd_result x = RCompleted) (concat (map (\<lambda>u. spec_items res items (us_id u)) users)))
     = sum_list (map u_done (map (spec_user res items eid) users))"
proof (induction users)
  case (Cons u users)
  have "length (filter (\<lambda>x. xd_result x = RCompleted) (spec_items res items (us_id u)))
      = u_done (spec_user res items eid u)"
    by (simp add: spec_items_def spec_user_def filter_map o_def item_done_def [abs_def])
  with Cons show ?case by simp
qed simp

lemma snapshot_spec_balanced: "snapshot_balanced (snapshot_spec res items orgs_of name_of eid users)"
proof -
  let ?us = "map (spec_user res items eid) users"
  have "length (filter u_all ?us) + length (filter (\<lambda>u. \<not> u_all u) ?us) = length ?us"
    by (rule length_filter_split)
  then show ?thesis
    using done_plus_pend [of res items eid users] completed_spec_items [of res items users eid]
    by (simp only: snapshot_balanced_def snapshot_spec_def Let_def snapshot.simps length_spec_items)
qed

subsection \<open>What \<open>buildExecutionSnapshot\<close> returns\<close>

lemma stable_load_facts [stable_intro]:
  "stable (load_luogu_execution_facts uids)" "stable (load_leetcode_execution_facts uids)"
  "stable (load_lanqiao_execution_facts uids)"
  unfolding load_luogu_execution_facts_def load_leetcode_execution_facts_def
    load_lanqiao_execution_facts_def load_facts_def
  by (intro stable_intro)+

lemma stable_users_pairs [stable_intro]: "stable (users_by_ids uids)" "stable (list_active_user_org_pairs oids)"
  unfolding users_by_ids_def list_active_user_org_pairs_def by (intro stable_intro)+

lemma stable_build_snapshot [stable_intro]: "stable (build_execution_snapshot t e)"
  unfolding build_execution_snapshot_def Let_def by (intro stable_intro)

text \<open>The facts of a platform as the other components store them.\<close>

definition bound_detail :: "detail_row list \<Rightarrow> nat \<Rightarrow> detail_row option" where
  "bound_detail ds uid = find (\<lambda>d. d_user d = uid) (rev (filter (\<lambda>d. d_id d \<noteq> 0) ds))"

definition fact_result :: "detail_row list \<Rightarrow> (nat \<times> nat) list \<Rightarrow> nat \<Rightarrow> nat \<Rightarrow> item_result \<times> pending_reason" where
  "fact_result ds ss uid qid =
     (case bound_detail ds uid of
        None \<Rightarrow> (RPending, AccountUnbound)
      | Some d \<Rightarrow> if (d_id d, qid) \<in> set ss then (RCompleted, NoReason) else (RPending, Unsolved))"

definition world_result :: "oj_ext \<Rightarrow> resolver" where
  "world_result x uid i =
     (if i_res i \<noteq> ResResolved \<or> i_qid i = 0 then (RPending, QuestionNotFound)
      else if i_platform i = platform_luogu then fact_result (x_luogu_details x) (x_luogu_solved x) uid (i_qid i)
      else if i_platform i = platform_leetcode then fact_result (x_leetcode_details x) (x_leetcode_solved x) uid (i_qid i)
      else if i_platform i = platform_lanqiao then fact_result (x_lanqiao_details x) (x_lanqiao_solved x) uid (i_qid i)
      else (RPending, Unsolved))"

definition member_pairs :: "oj_ext \<Rightarrow> nat list \<Rightarrow> (nat \<times> nat) list" where
  "member_pairs x oids = filter (\<lambda>p. fst p \<noteq> 0 \<and> snd p \<noteq> 0) (active_pairs oids (x_members x))"

definition task_orgs_named :: "oj_ext \<Rightarrow> oj_db \<Rightarrow> nat \<Rightarrow> (nat \<times> string) list" where
  "task_orgs_named x d tid =
     filter (\<lambda>o'. fst o' \<noteq> 0) (map (\<lambda>r. (to_org r, case row_get og_id (x_orgs x) (to_org r) of
                           None \<Rightarrow> '''' | Some o' \<Rightarrow> og_name o')) (orgs_by_task tid (db_orgs d)))"

definition expected_snapshot :: "oj_ext \<Rightarrow> oj_db \<Rightarrow> nat \<Rightarrow> nat \<Rightarrow> snapshot" where
  "expected_snapshot x d tid eid =
     (let orgs = task_orgs_named x d tid; pairs = member_pairs x (map fst orgs);
          uids = sort (remdups (map fst pairs))
      in snapshot_spec (world_result x) (items_by_task tid (db_items d))
           (\<lambda>uid. map snd (filter (\<lambda>p. fst p = uid) pairs)) (org_name_of orgs) eid
           (map (\<lambda>uid. the (user_of (x_users x) uid)) uids))"

lemma ext_read_Inr_iff: "ext_read f w = (Inr a, w') \<longleftrightarrow> \<not> w_fault w (w_step w) \<and> a = f (w_ext w) \<and> w' = tick w"
  by (auto simp: ext_read_def db_call_Inr_iff tick_def)

lemma filter_Nil_if: "xs = [] \<Longrightarrow> filter (\<lambda>p. g p \<in> set xs) ys = []"
  by simp

lemma load_facts_Inr:
  assumes "load_facts dt sv uids w = (Inr f, w')"
  shows "f_details f = filter (\<lambda>d. d_id d \<noteq> 0) (filter (\<lambda>d. d_user d \<in> set uids) (dt (w_ext w)))"
    "f_solved f = filter (\<lambda>p. fst p \<in> set (map d_id (f_details f))) (sv (w_ext w))"
  using assms unfolding load_facts_def Let_def
  by (auto simp: svc_bind_Inr_iff wrap_err_Inr_iff ext_read_Inr_iff filter_empty_conv split: if_splits)

lemma platform_result_fact:
  assumes run: "load_facts dt sv uids w = (Inr f, w')" and uid: "uid \<in> set uids"
  shows "platform_result f uid qid = fact_result (dt (w_ext w)) (sv (w_ext w)) uid qid"
proof -
  have b: "detail_of f uid = bound_detail (dt (w_ext w)) uid"
    unfolding detail_of_def bound_detail_def load_facts_Inr(1) [OF run]
    by (subst filter_commute, subst rev_filter, rule find_filter_cong) (use uid in auto)
  have "(d_id d, qid) \<in> set (f_solved f) \<longleftrightarrow> (d_id d, qid) \<in> set (sv (w_ext w))" if "detail_of f uid = Some d" for d
  proof -
    have "d \<in> set (f_details f)" using that by (auto simp: detail_of_def dest: find_SomeD)
    then show ?thesis by (auto simp: load_facts_Inr(2) [OF run])
  qed
  with b show ?thesis by (simp add: platform_result_def fact_result_def split: option.splits)
qed

lemma snapshot_spec_cong:
  assumes "\<And>u i. u \<in> set users \<Longrightarrow> res (us_id u) i = res' (us_id u) i"
  shows "snapshot_spec res items orgs_of name_of eid users = snapshot_spec res' items orgs_of name_of eid users"
proof -
  have "spec_user res items eid u = spec_user res' items eid u" if "u \<in> set users" for u
    using assms [OF that] by (simp add: spec_user_def item_done_def [abs_def])
  moreover have "spec_items res items (us_id u) = spec_items res' items (us_id u)" if "u \<in> set users" for u
    using assms [OF that] by (simp add: spec_items_def)
  ultimately show ?thesis by (simp add: snapshot_spec_def Let_def cong: map_cong)
qed

lemma user_of_filter: "uid \<in> set uids \<Longrightarrow> user_of (filter (\<lambda>u. us_id u \<in> set uids) xs) uid = user_of xs uid"
  unfolding user_of_def by (subst filter_commute, subst rev_filter, rule find_filter_cong) auto

lemma user_of_id: "user_of xs uid = Some u \<Longrightarrow> us_id u = uid"
  by (auto simp: user_of_def dest: find_SomeD)

lemma platform_facts:
  assumes "load_luogu_execution_facts uids w1 = (Inr luogu, w2)"
    and "load_leetcode_execution_facts uids w2 = (Inr leetcode, w3)"
    and "load_lanqiao_execution_facts uids w3 = (Inr lanqiao, w4)"
    and "uid \<in> set uids"
  shows "resolve_oj_task_item_result luogu leetcode lanqiao uid i = world_result (w_ext w1) uid i"
proof -
  have x: "w_ext w2 = w_ext w1" "w_ext w3 = w_ext w1"
    using stable_run [OF stable_load_facts(1) assms(1)] stable_run [OF stable_load_facts(2) assms(2)] by auto
  show ?thesis
    using platform_result_fact [OF assms(1) [unfolded load_luogu_execution_facts_def] assms(4)]
      platform_result_fact [OF assms(2) [unfolded load_leetcode_execution_facts_def] assms(4)]
      platform_result_fact [OF assms(3) [unfolded load_lanqiao_execution_facts_def] assms(4)]
    by (simp add: resolve_oj_task_item_result_def world_result_def x)
qed

text \<open>The queries before the facts, put together.\<close>

lemma snapshot_queries:
  assumes "orgs_with_names tid w = (Inr orgs0, w1)" "items_list tid w1 = (Inr items0, w2)"
    "list_active_user_org_pairs (map fst (filter (\<lambda>o'. fst o' \<noteq> 0) orgs0)) w2 = (Inr pairs0, w3)"
  shows "filter (\<lambda>o'. fst o' \<noteq> 0) orgs0 = task_orgs_named (w_ext w) (w_db w) tid"
    "sort_key (\<lambda>i. (i_sort i, i_id i)) items0 = items_by_task tid (db_items (w_db w))"
    "filter (\<lambda>p. fst p \<noteq> 0 \<and> snd p \<noteq> 0) pairs0
       = member_pairs (w_ext w) (map fst (task_orgs_named (w_ext w) (w_db w) tid))"
    "w_ext w3 = w_ext w"
proof -
  have w1: "w_db w1 = w_db w" "w_ext w1 = w_ext w" using stable_run [OF stable_orgs_with_names assms(1)] by auto
  have w2: "w_db w2 = w_db w" "w_ext w2 = w_ext w" using stable_run [OF stable_repo_reads(4) assms(2)] w1 by auto
  show orgs: "filter (\<lambda>o'. fst o' \<noteq> 0) orgs0 = task_orgs_named (w_ext w) (w_db w) tid"
    using assms(1) by (auto simp: orgs_with_names_def task_orgs_named_def db_read_Inr_iff)
  show "sort_key (\<lambda>i. (i_sort i, i_id i)) items0 = items_by_task tid (db_items (w_db w))"
    using assms(2) w1 by (auto simp: items_list_def items_by_task_def db_read_Inr_iff intro!: sort_key_id_if_sorted)
  show "filter (\<lambda>p. fst p \<noteq> 0 \<and> snd p \<noteq> 0) pairs0
       = member_pairs (w_ext w) (map fst (task_orgs_named (w_ext w) (w_db w) tid))"
    using assms(3) w2 unfolding orgs
    by (auto simp: list_active_user_org_pairs_def member_pairs_def active_pairs_def ext_read_Inr_iff split: if_splits)
  show "w_ext w3 = w_ext w" using stable_run [OF stable_users_pairs(2) assms(3)] w2 by simp
qed

lemma users_by_ids_Inr: "uids \<noteq> [] \<Longrightarrow> users_by_ids uids w = (Inr us, w') \<Longrightarrow> us = filter (\<lambda>u. us_id u \<in> set uids) (x_users (w_ext w))"
  by (simp add: users_by_ids_def ext_read_Inr_iff)

lemma build_snapshot_expected:
  assumes run: "build_execution_snapshot t e w = (Inr s, w')"
  shows "s = expected_snapshot (w_ext w) (w_db w) (t_id t) (e_id e)"
proof -
  obtain orgs0 w1 items0 w2 pairs0 w3 where
    q: "orgs_with_names (t_id t) w = (Inr orgs0, w1)" "items_list (t_id t) w1 = (Inr items0, w2)"
      "list_active_user_org_pairs (map fst (filter (\<lambda>o'. fst o' \<noteq> 0) orgs0)) w2 = (Inr pairs0, w3)"
    using run unfolding build_execution_snapshot_def Let_def
    by (auto simp: svc_bind_Inr_iff wrap_err_Inr_iff simp del: neq0_conv)
  note Q = snapshot_queries [OF q]
  define orgs where "orgs = task_orgs_named (w_ext w) (w_db w) (t_id t)"
  define pairs where "pairs = member_pairs (w_ext w) (map fst orgs)"
  define uids where "uids = sort (remdups (map fst pairs))"
  define items where "items = items_by_task (t_id t) (db_items (w_db w))"
  define orgs_of where "orgs_of = (\<lambda>uid. map snd (filter (\<lambda>p. fst p = uid) pairs))"
  have Q': "filter (\<lambda>o'. fst o' \<noteq> 0) orgs0 = orgs" "filter (\<lambda>p. fst p \<noteq> 0 \<and> snd p \<noteq> 0) pairs0 = pairs"
    using Q(1,3) by (simp_all only: orgs_def pairs_def)
  have Q2: "sort_key (\<lambda>i. (i_sort i, i_id i)) items0 = items" using Q(2) by (simp only: items_def)
  note Q' = Q' Q2
  have q': "db_err (orgs_with_names (t_id t)) w = (Inr orgs0, w1)" "db_err (items_list (t_id t)) w1 = (Inr items0, w2)"
    "db_err (list_active_user_org_pairs (map fst orgs)) w2 = (Inr pairs0, w3)"
    using q by (simp_all only: wrap_err_Inr_iff Q')
  have exp: "expected_snapshot (w_ext w) (w_db w) (t_id t) (e_id e) =
      snapshot_spec (world_result (w_ext w)) items orgs_of (org_name_of orgs) (e_id e)
        (map (\<lambda>uid. the (user_of (x_users (w_ext w)) uid)) uids)"
    by (simp add: expected_snapshot_def Let_def orgs_def pairs_def uids_def items_def orgs_of_def)
  have rest: "(if uids = [] then svc_return empty_snapshot
             else svc_bind (db_err (users_by_ids uids)) (\<lambda>users.
               if \<exists>uid \<in> set uids. user_of users uid = None then svc_throw (Biz CodeInternalError)
               else svc_bind (load_luogu_execution_facts uids) (\<lambda>luogu.
                    svc_bind (load_leetcode_execution_facts uids) (\<lambda>leetcode.
                    svc_bind (load_lanqiao_execution_facts uids) (\<lambda>lanqiao.
                      svc_return (foldl
                        (snapshot_user_step (resolve_oj_task_item_result luogu leetcode lanqiao) items
                          orgs_of (org_name_of orgs) (e_id e))
                        empty_snapshot (map (\<lambda>uid. the (user_of users uid)) uids))))))) w3 = (Inr s, w')"
    using run unfolding build_execution_snapshot_def Let_def
    by (simp only: svc_bind_Inr [of "db_err (orgs_with_names (t_id t))" w, OF q'(1)]
        svc_bind_Inr [of "db_err (items_list (t_id t))" w1, OF q'(2)] Q'
        svc_bind_Inr [of "db_err (list_active_user_org_pairs (map fst orgs))" w2, OF q'(3)]
        uids_def [symmetric] orgs_of_def [symmetric])
  show ?thesis
  proof (cases "uids = []")
    case True
    with rest show ?thesis by (simp add: exp snapshot_spec_def empty_snapshot_def)
  next
    case False
    with rest obtain us w4 luogu w5 leetcode w6 lanqiao w7 where
      us: "users_by_ids uids w3 = (Inr us, w4)" and some: "\<And>uid. uid \<in> set uids \<Longrightarrow> user_of us uid \<noteq> None"
      and f: "load_luogu_execution_facts uids w4 = (Inr luogu, w5)"
        "load_leetcode_execution_facts uids w5 = (Inr leetcode, w6)"
        "load_lanqiao_execution_facts uids w6 = (Inr lanqiao, w7)"
      and s: "s = snapshot_spec (resolve_oj_task_item_result luogu leetcode lanqiao) items orgs_of
                (org_name_of orgs) (e_id e) (map (\<lambda>uid. the (user_of us uid)) uids)"
      by (auto simp: svc_bind_Inr_iff wrap_err_Inr_iff snapshot_loop_spec split: if_splits)
    have x: "w_ext w4 = w_ext w" using stable_run [OF stable_users_pairs(1) us] Q(4) by simp
    have same: "user_of us uid = user_of (x_users (w_ext w)) uid" if "uid \<in> set uids" for uid
      using users_by_ids_Inr [OF False us] user_of_filter [OF that] Q(4) by simp
    have "resolve_oj_task_item_result luogu leetcode lanqiao (us_id u) i = world_result (w_ext w) (us_id u) i"
      if "u \<in> set (map (\<lambda>uid. the (user_of us uid)) uids)" for u i
    proof -
      have "us_id u \<in> set uids" using that some by (fastforce dest: user_of_id)
      then show ?thesis using platform_facts [OF f] x by simp
    qed
    then show ?thesis
      unfolding s exp by (subst snapshot_spec_cong) (auto simp: same cong: map_cong)
  qed
qed

lemma expected_snapshot_balanced: "snapshot_balanced (expected_snapshot x d tid eid)"
  by (simp add: expected_snapshot_def Let_def snapshot_spec_balanced)

lemma build_snapshot_balanced: "build_execution_snapshot t e w = (Inr s, w') \<Longrightarrow> snapshot_balanced s"
  by (drule build_snapshot_expected) (simp add: expected_snapshot_balanced)

end
