(* ===== verification/OJ_Run.thy ===== *)
theory OJ_Run
  imports OJ_Snapshot_Spec
begin

text \<open>
  Running executions keeps the invariant. An attempt is not one transaction, so this holds
  at every point where a call may fail: between the claim and the final write the row is
  executing and linked to its task (\<open>claimed\<close>), and every way out ends in a pair of
  statuses the invariant admits.
\<close>

subsection \<open>Sequencing with postconditions\<close>

lemma from_bind:
  assumes "preserves_from P m"
    and "\<And>w a w'. db_inv (w_db w) \<Longrightarrow> P (w_db w) \<Longrightarrow> m w = (Inr a, w') \<Longrightarrow> Q a (w_db w')"
    and "\<And>a. preserves_from (Q a) (f a)"
  shows "preserves_from P (svc_bind m f)"
  unfolding preserves_from_def
proof (intro allI impI)
  fix w r w' assume inv: "db_inv (w_db w)" and P: "P (w_db w)" and run: "svc_bind m f w = (r, w')"
  obtain q v where m: "m w = (q, v)" by fastforce
  have v: "db_inv (w_db v) \<and> db_evolves (w_db w) (w_db v)"
    using assms(1) inv P m unfolding preserves_from_def by blast
  show "db_inv (w_db w') \<and> db_evolves (w_db w) (w_db w')"
  proof (cases q)
    case (Inl e) with run m v show ?thesis by simp
  next
    case (Inr a)
    with run m have "f a v = (r, w')" by simp
    moreover have "Q a (w_db v)" using assms(2) [OF inv P] m Inr by simp
    ultimately have "db_inv (w_db w') \<and> db_evolves (w_db v) (w_db w')"
      using assms(3) [of a] v unfolding preserves_from_def by blast
    with v show ?thesis by (blast intro: db_evolves_trans)
  qed
qed

lemma from_catch:
  assumes "preserves_from P m"
    and "\<And>w e w'. db_inv (w_db w) \<Longrightarrow> P (w_db w) \<Longrightarrow> m w = (Inl e, w') \<Longrightarrow> E (w_db w')"
    and "\<And>w a w'. db_inv (w_db w) \<Longrightarrow> P (w_db w) \<Longrightarrow> m w = (Inr a, w') \<Longrightarrow> Q a (w_db w')"
    and "\<And>e. preserves_from E (h e)" and "\<And>a. preserves_from (Q a) (k a)"
  shows "preserves_from P (svc_catch m h k)"
  unfolding preserves_from_def
proof (intro allI impI)
  fix w r w' assume inv: "db_inv (w_db w)" and P: "P (w_db w)" and run: "svc_catch m h k w = (r, w')"
  obtain q v where m: "m w = (q, v)" by fastforce
  have v: "db_inv (w_db v) \<and> db_evolves (w_db w) (w_db v)"
    using assms(1) inv P m unfolding preserves_from_def by blast
  have "db_inv (w_db w') \<and> db_evolves (w_db v) (w_db w')"
  proof (cases q)
    case (Inl e)
    with run m have "h e v = (r, w')" by (simp add: svc_catch_def)
    moreover have "E (w_db v)" using assms(2) [OF inv P] m Inl by simp
    ultimately show ?thesis using assms(4) [of e] v unfolding preserves_from_def by blast
  next
    case (Inr a)
    with run m have "k a v = (r, w')" by (simp add: svc_catch_def)
    moreover have "Q a (w_db v)" using assms(3) [OF inv P] m Inr by simp
    ultimately show ?thesis using assms(5) [of a] v unfolding preserves_from_def by blast
  qed
  with v show "db_inv (w_db w') \<and> db_evolves (w_db w) (w_db w')" by (blast intro: db_evolves_trans)
qed

lemma from_return: "preserves_from P (svc_return a)"
  by (rule from_preserves [OF preserves_basic(1)])

lemma from_stable: "stable m \<Longrightarrow> preserves_from P m"
  by (rule from_preserves [OF preserves_of_stable])

lemma from_weaken: "preserves_from P m \<Longrightarrow> (\<And>d. Q d \<Longrightarrow> P d) \<Longrightarrow> preserves_from Q m"
  by (simp add: preserves_from_def)

lemma from_case_option:
  "preserves_from P m \<Longrightarrow> (\<And>x. z = Some x \<Longrightarrow> preserves_from P (f x)) \<Longrightarrow>
     preserves_from P (case z of None \<Rightarrow> m | Some x \<Rightarrow> f x)"
  by (cases z) simp_all

text \<open>A condition on the values at hand may be used as a fact.\<close>

lemma from_fact: "(A \<Longrightarrow> preserves_from P m) \<Longrightarrow> preserves_from (\<lambda>d. A \<and> P d) m"
  by (auto simp: preserves_from_def)

text \<open>A stable method followed by more, with an error handler that starts from the same tables.\<close>

lemma from_stable_catch:
  assumes "stable m"
    and "\<And>w a w'. db_inv (w_db w) \<Longrightarrow> P (w_db w) \<Longrightarrow> m w = (Inr a, w') \<Longrightarrow> Q a (w_db w)"
    and "\<And>e. preserves_from P (h e)" and "\<And>a. preserves_from (Q a) (k a)"
  shows "preserves_from P (svc_catch m h k)"
proof (rule from_catch [where E = P and Q = Q, OF from_stable [OF assms(1)] _ _ assms(3,4)])
  fix w a w' assume "db_inv (w_db w)" "P (w_db w)" "m w = (Inr a, w')"
  then show "Q a (w_db w')" using assms(2) stable_run [OF assms(1)] by metis
qed (auto dest: stable_run [OF assms(1)])

subsection \<open>One row replaced\<close>

lemma update_exec_ok:
  assumes run: "exec_update e' w = (r, w')" and inv: "db_inv (w_db w)"
    and e: "e \<in> set (db_execs (w_db w))" and ev: "exec_evolves e e'"
    and ok: "\<And>t. t \<in> set (db_tasks (w_db w)) \<Longrightarrow> e_task e = t_id t \<Longrightarrow> pair_ok (db_outbox (w_db w)) t e \<Longrightarrow>
               pair_ok (db_outbox (w_db w)) t e'"
  shows "db_inv (w_db w') \<and> db_evolves (w_db w) (w_db w')"
    and "r = Inr u \<Longrightarrow> e' \<in> set (db_execs (w_db w')) \<and> db_tasks (w_db w') = db_tasks (w_db w)"
proof -
  obtain t where t: "t \<in> set (db_tasks (w_db w))" "e_task e = t_id t" "pair_ok (db_outbox (w_db w)) t e"
    by (rule task_of_exec [OF inv e])
  have pt: "row_put t_id t (db_tasks (w_db w)) = db_tasks (w_db w)"
    using inv t(1) by (intro row_put_present [where k = "t_id t"]) (simp add: task_get_iff)
  have d: "(r = Inl RawErr \<and> w_db w' = w_db w) \<or>
      (r = Inr () \<and> w_db w' = (w_db w)\<lparr>db_execs := row_put e_id e' (db_execs (w_db w))\<rparr>)"
    using run by (auto simp: exec_update_def db_write_def db_call_def split: if_splits)
  have "db_inv ((w_db w)\<lparr>db_execs := row_put e_id e' (db_execs (w_db w))\<rparr>) \<and>
        db_evolves (w_db w) ((w_db w)\<lparr>db_execs := row_put e_id e' (db_execs (w_db w))\<rparr>)"
    by (rule replaced_pair_ok [OF inv t(1) e t(2), of t e']) (use ok t ev pt in auto)
  with d inv show "db_inv (w_db w') \<and> db_evolves (w_db w) (w_db w')" by auto
  assume "r = Inr u"
  with d have "w_db w' = (w_db w)\<lparr>db_execs := row_put e_id e' (db_execs (w_db w))\<rparr>" by auto
  then show "e' \<in> set (db_execs (w_db w')) \<and> db_tasks (w_db w') = db_tasks (w_db w)"
    using inv by (auto simp: in_row_put_iff db_inv_defs)
qed

lemma update_task_ok:
  assumes run: "task_update t' w = (r, w')" and inv: "db_inv (w_db w)"
    and t: "t \<in> set (db_tasks (w_db w))" and ev: "task_evolves t t'"
    and ok: "\<And>e. e \<in> set (db_execs (w_db w)) \<Longrightarrow> e_task e = t_id t \<Longrightarrow> pair_ok (db_outbox (w_db w)) t e \<Longrightarrow>
               pair_ok (db_outbox (w_db w)) t' e"
  shows "db_inv (w_db w') \<and> db_evolves (w_db w) (w_db w')"
    and "r = Inr u \<Longrightarrow> t' \<in> set (db_tasks (w_db w')) \<and> db_execs (w_db w') = db_execs (w_db w)"
proof -
  obtain e where e: "e \<in> set (db_execs (w_db w))" "e_task e = t_id t" "pair_ok (db_outbox (w_db w)) t e"
    by (rule exec_of_task [OF inv t])
  have pe: "row_put e_id e (db_execs (w_db w)) = db_execs (w_db w)"
    using inv e(1) by (intro row_put_present [where k = "e_id e"]) (simp add: exec_get_iff)
  have d: "(r = Inl RawErr \<and> w_db w' = w_db w) \<or>
      (r = Inr () \<and> w_db w' = (w_db w)\<lparr>db_tasks := row_put t_id t' (db_tasks (w_db w))\<rparr>)"
    using run by (auto simp: task_update_def db_write_def db_call_def split: if_splits)
  have "db_inv ((w_db w)\<lparr>db_tasks := row_put t_id t' (db_tasks (w_db w))\<rparr>) \<and>
        db_evolves (w_db w) ((w_db w)\<lparr>db_tasks := row_put t_id t' (db_tasks (w_db w))\<rparr>)"
    by (rule replaced_pair_ok [OF inv t e(1,2), of t' e]) (use ok e ev pe in auto)
  with d inv show "db_inv (w_db w') \<and> db_evolves (w_db w) (w_db w')" by auto
  assume "r = Inr u"
  with d have "w_db w' = (w_db w)\<lparr>db_tasks := row_put t_id t' (db_tasks (w_db w))\<rparr>" by auto
  then show "t' \<in> set (db_tasks (w_db w')) \<and> db_execs (w_db w') = db_execs (w_db w)"
    using inv by (auto simp: in_row_put_iff db_inv_defs)
qed

subsection \<open>Failing\<close>

text \<open>The execution \<open>eid\<close> of task \<open>tid\<close> has the status \<open>st\<close>.\<close>

definition exec_is :: "nat \<Rightarrow> nat \<Rightarrow> exec_status \<Rightarrow> oj_db \<Rightarrow> bool" where
  "exec_is tid eid st d \<longleftrightarrow> (\<exists>e \<in> set (db_execs d). e_id e = eid \<and> e_task e = tid \<and> e_status e = st)"

lemma failure_message_nonempty [simp]: "failure_message er c \<noteq> []"
  by (simp add: failure_message_def Let_def default_failure_message_def)

lemma set_task_status_simps [simp]:
  "t_id (set_task_status st e t) = t_id t" "t_status (set_task_status st e t) = st"
  "t_mode (set_task_status st e t) = t_mode t" "t_exec_at (set_task_status st e t) = t_exec_at t"
  "task_evolves t (set_task_status st e t)"
  by (simp_all add: set_task_status_def task_evolves_def Let_def split: option.splits)

lemma from_mark_failed: "preserves_from (exec_is tid eid EExecuting) (mark_execution_failed tid eid cause)"
  unfolding mark_execution_failed_def
proof (rule from_stable_bind [where Q = "\<lambda>_. exec_is tid eid EExecuting", OF stable_read(3)],
    assumption, rule from_stable_bind [where Q = "\<lambda>_. exec_is tid eid EExecuting", OF stable_env(1)],
    assumption, rule from_stable_bind [OF stable_repo_reads(7)])
  let ?Q = "\<lambda>ex d. \<exists>e \<in> set (db_execs d). ex = Some e \<and> e_id e = eid \<and> e_task e = tid \<and> e_status e = EExecuting"
  let ?R = "\<lambda>ex d. \<exists>e \<in> set (db_execs d). \<exists>e0. ex = Some e0 \<and> e_id e = eid \<and> e_task e = tid \<and> e_status e = EFailed"
  show "?Q ex (w_db w)" if "db_inv (w_db w)" "exec_is tid eid EExecuting (w_db w)" "exec_get eid w = (Inr ex, w')" for w ex w'
    using that by (auto simp: exec_is_def exec_get_def db_read_Inr_iff exec_get_iff)
  fix er t and ex :: "oj_exec option"
  show "preserves_from (?Q ex) (svc_bind (case ex of None \<Rightarrow> svc_return ()
       | Some e \<Rightarrow> exec_update (failed_execution (failure_message er cause) t e)) (\<lambda>_.
     svc_bind (task_get tid) (\<lambda>task. (case task of None \<Rightarrow> svc_return ()
        | Some tk \<Rightarrow> task_update (set_task_status TFailed ex tk)))))"
  proof (rule from_bind [where Q = "\<lambda>_. ?R ex"])
    have ev: "exec_evolves e (failed_execution m t e)" if "e_status e = EExecuting" for m e
      using that by (simp add: failed_execution_def exec_evolves_def terminal_def)
    have ok: "pair_ok ob tk (failed_execution (failure_message er cause) t e)"
      if "pair_ok ob tk e" "e_status e = EExecuting" for ob tk e
      using that by (auto simp: failed_execution_def pair_ok_defs split: option.splits)
    show "preserves_from (?Q ex) (case ex of None \<Rightarrow> svc_return ()
       | Some e \<Rightarrow> exec_update (failed_execution (failure_message er cause) t e))"
      unfolding preserves_from_def
      by (auto dest!: update_exec_ok(1) [OF _ _ _ ev ok])
    show "?R ex (w_db w')" if a: "db_inv (w_db w)" "?Q ex (w_db w)" "(case ex of None \<Rightarrow> svc_return ()
       | Some e \<Rightarrow> exec_update (failed_execution (failure_message er cause) t e)) w = (Inr u, w')" for w u w'
    proof -
      obtain e where e: "e \<in> set (db_execs (w_db w))" "ex = Some e" "e_id e = eid" "e_task e = tid" "e_status e = EExecuting"
        using a(2) by auto
      then have "exec_update (failed_execution (failure_message er cause) t e) w = (Inr u, w')" using a(3) by simp
      from update_exec_ok(2) [OF this a(1) e(1) ev [OF e(5)] ok [OF _ e(5)] refl]
      have "failed_execution (failure_message er cause) t e \<in> set (db_execs (w_db w'))" by simp
      then show ?thesis using e
        by (intro bexI [of _ "failed_execution (failure_message er cause) t e"]) (simp_all add: failed_execution_def)
    qed
    show "preserves_from (?R ex) (svc_bind (task_get tid) (\<lambda>task. (case task of None \<Rightarrow> svc_return ()
        | Some tk \<Rightarrow> task_update (set_task_status TFailed ex tk))))"
    proof (rule from_stable_bind [OF stable_repo_reads(1), where Q = "\<lambda>task d. ?R ex d \<and>
        (\<forall>tk. task = Some tk \<longrightarrow> tk \<in> set (db_tasks d) \<and> t_id tk = tid)"])
      fix task
      have okt: "pair_ok (db_outbox d) (set_task_status TFailed ex tk) e"
        if a: "db_inv d" "?R ex d" "e \<in> set (db_execs d)" "e_task e = t_id tk" "t_id tk = tid" "pair_ok (db_outbox d) tk e" for d tk e
      proof -
        obtain f where "f \<in> set (db_execs d)" "e_task f = tid" "e_status f = EFailed" using a(2) by auto
        then have "e_status e = EFailed" using linked_exec_unique [OF a(1,3), of f] a(4,5) by simp
        with a(6) show ?thesis by (auto simp: pair_ok_defs)
      qed
      show "preserves_from (\<lambda>d. ?R ex d \<and> (\<forall>tk. task = Some tk \<longrightarrow> tk \<in> set (db_tasks d) \<and> t_id tk = tid))
         (case task of None \<Rightarrow> svc_return () | Some tk \<Rightarrow> task_update (set_task_status TFailed ex tk))"
      proof (cases task)
        case None then show ?thesis by (simp add: from_return)
      next
        case (Some tk)
        have "db_inv (w_db w') \<and> db_evolves (w_db w) (w_db w')"
          if a: "db_inv (w_db w)" "?R ex (w_db w)" "tk \<in> set (db_tasks (w_db w))" "t_id tk = tid"
            "task_update (set_task_status TFailed ex tk) w = (r, w')" for w r w'
          by (rule update_task_ok(1) [OF a(5,1,3) set_task_status_simps(5)])
            (rule okt [OF a(1,2) _ _ a(4)])
        then show ?thesis unfolding Some preserves_from_def by simp
      qed
    qed (auto simp: task_get_def db_read_Inr_iff dest: row_get_set row_get_key)
  qed
qed

lemma from_fail_attempt [intro]: "preserves_from (exec_is tid eid EExecuting) (fail_execution_attempt tid eid cause)"
  unfolding fail_execution_attempt_def
  by (rule from_catch [where E = "\<lambda>_. True" and Q = "\<lambda>_ _. True"]) (auto intro: from_mark_failed from_return)

subsection \<open>Preflight and question upserts keep the core\<close>

lemma core_find_candidates [core_intro]: "core_stable (find_verified_title_candidates p t)"
  by (rule core_of_stable) (rule stable_find_candidates)

lemma core_stable_reads [core_intro]:
  "core_stable (items_list k)" "core_stable (intakes_list k)" "core_stable (item_get k)"
  "core_stable (intakes_pending_by_title p t)" "core_stable (config g)"
  by (simp_all add: core_of_stable stable_intro)

lemma core_preflight_item [core_intro]: "core_stable (preflight_task_item i k)"
  unfolding preflight_task_item_def by (intro core_intro)

lemma core_preflight [core_intro]: "core_stable (preflight_check tid)"
  unfolding preflight_check_def preflight_step_def by (intro core_intro)

lemma core_upsert [core_intro]: "core_stable (handle_question_upserted p t)"
  unfolding handle_question_upserted_def upsert_step_def
  by (intro core_intro)

lemma preserves_handle_question_upserted [preserves_intro]: "preserves (handle_question_upserted p t)"
  by (rule preserves_of_core) (rule core_upsert)

lemma exec_is_core: "same_core d d' \<Longrightarrow> exec_is tid eid st d \<Longrightarrow> exec_is tid eid st d'"
  by (simp add: exec_is_def same_core_def)

subsection \<open>Writing the snapshot\<close>

text \<open>What the attempt knows after it has moved the task to executing.\<close>

definition running :: "oj_task \<Rightarrow> oj_exec \<Rightarrow> oj_db \<Rightarrow> bool" where
  "running t e d \<longleftrightarrow>
     t \<in> set (db_tasks d) \<and> e \<in> set (db_execs d) \<and> e_task e = t_id t \<and> e_status e = EExecuting"

lemma running_exec_is: "running t e d \<Longrightarrow> exec_is (t_id t) (e_id e) EExecuting d"
  by (auto simp: running_def exec_is_def)

lemma running_core: "same_core d d' \<Longrightarrow> running t e d \<Longrightarrow> running t e d'"
  by (simp add: running_def same_core_def)

lemma persist_effect:
  assumes run: "persist_execution_snapshot t e s w = (Inr u, w')"
  shows "\<exists>n. db_execs (w_db w') = row_put e_id (finished_execution s n e) (db_execs (w_db w)) \<and>
    db_tasks (w_db w') = row_put t_id (set_task_status TSucceeded (Some e) t) (db_tasks (w_db w)) \<and>
    db_outbox (w_db w') = db_outbox (w_db w) \<and> db_next (w_db w) \<le> db_next (w_db w') \<and> w_ext w' = w_ext w"
proof -
  obtain v where "w_db w' = w_db v" "w_ext w' = w_ext v"
    and "svc_bind (db_err (eusers_create (sn_users s))) (\<lambda>_.
       svc_bind (db_err (eusers_list (e_id e))) (\<lambda>created.
       svc_bind (svc_lift (user_org_rows created (sn_orgs s))) (\<lambda>org_rows.
       svc_bind (db_err (euorgs_create org_rows)) (\<lambda>_.
       svc_bind (svc_lift (user_item_rows (e_id e) created (sn_items s))) (\<lambda>item_rows.
       svc_bind (db_err (euitems_create item_rows)) (\<lambda>_.
       svc_bind now (\<lambda>n.
       svc_bind (db_err (exec_update (finished_execution s n e))) (\<lambda>_.
         db_err (task_update (set_task_status TSucceeded (Some e) t)))))))))) w = (Inr u, v)"
    using in_tx_Inr [OF run [unfolded persist_execution_snapshot_def]] by blast
  then obtain u1 w1 created w2 orgs u3 w4 items u5 w6 n w7 u7 w8 where
    a: "eusers_create (sn_users s) w = (Inr u1, w1)" "eusers_list (e_id e) w1 = (Inr created, w2)"
      "euorgs_create orgs w2 = (Inr u3, w4)" "euitems_create items w4 = (Inr u5, w6)" "now w6 = (Inr n, w7)"
    and eu: "exec_update (finished_execution s n e) w7 = (Inr u7, w8)"
    and tu: "task_update (set_task_status TSucceeded (Some e) t) w8 = (Inr u, v)"
    by (auto simp: svc_bind_Inr_iff wrap_err_Inr_iff)
  have "same_core (w_db w) (w_db w1) \<and> w_ext w1 = w_ext w" by (rule core_run [OF core_rows(6) a(1)])
  moreover have "same_core (w_db w1) (w_db w2) \<and> w_ext w2 = w_ext w1"
    by (rule core_run [OF core_of_stable [OF stable_repo_reads(11)] a(2)])
  moreover have "same_core (w_db w2) (w_db w4) \<and> w_ext w4 = w_ext w2" by (rule core_run [OF core_rows(7) a(3)])
  moreover have "same_core (w_db w4) (w_db w6) \<and> w_ext w6 = w_ext w4" by (rule core_run [OF core_rows(8) a(4)])
  moreover have "w_db w7 = w_db w6 \<and> w_ext w7 = w_ext w6" by (rule stable_run [OF stable_env(1) a(5)])
  ultimately have "same_core (w_db w) (w_db w7)" "w_ext w7 = w_ext w" by (auto intro: same_core_trans)
  with exec_update_effect [OF eu] task_update_effect [OF tu] \<open>w_db w' = w_db v\<close> \<open>w_ext w' = w_ext v\<close>
  show ?thesis by (intro exI [of _ n]) (simp add: same_core_def)
qed

lemma persist_error: "persist_execution_snapshot t e s w = (Inl er, w') \<Longrightarrow> w_db w' = w_db w"
  unfolding persist_execution_snapshot_def by (rule in_tx_Inl)

lemma from_persist:
  assumes "snapshot_balanced s"
  shows "preserves_from (running t e) (persist_execution_snapshot t e s)"
  unfolding preserves_from_def
proof (intro allI impI)
  fix w r w' assume inv: "db_inv (w_db w)" and run: "running t e (w_db w)"
    and p: "persist_execution_snapshot t e s w = (r, w')"
  show "db_inv (w_db w') \<and> db_evolves (w_db w) (w_db w')"
  proof (cases r)
    case (Inl er) with p inv show ?thesis by (auto dest: persist_error)
  next
    case (Inr u)
    have r: "t \<in> set (db_tasks (w_db w))" "e \<in> set (db_execs (w_db w))" "e_task e = t_id t" "e_status e = EExecuting"
      using run by (auto simp: running_def)
    have ok: "pair_ok (db_outbox (w_db w)) t e" using inv r by (auto simp: db_inv_def pairs_ok_def)
    obtain n where n: "db_execs (w_db w') = row_put e_id (finished_execution s n e) (db_execs (w_db w))"
      "db_tasks (w_db w') = row_put t_id (set_task_status TSucceeded (Some e) t) (db_tasks (w_db w))"
      "db_outbox (w_db w') = db_outbox (w_db w)" "db_next (w_db w) \<le> db_next (w_db w')"
      using persist_effect [OF p [unfolded Inr]] by blast
    show ?thesis
      by (rule replaced_pair_ok [OF inv r(1,2,3) set_task_status_simps(5), of "finished_execution s n e"])
        (use n r ok assms in \<open>auto simp: finished_execution_def pair_ok_defs snapshot_balanced_def\<close>)
  qed
qed

subsection \<open>One attempt\<close>

lemma from_core_catch:
  assumes "core_stable m" and P: "\<And>d d'. same_core d d' \<Longrightarrow> P d \<Longrightarrow> P d'"
    and "\<And>e. preserves_from P (h e)" and "\<And>a. preserves_from P (k a)"
  shows "preserves_from P (svc_catch m h k)"
  by (rule from_catch [where E = P and Q = "\<lambda>_. P", OF from_preserves [OF preserves_of_core [OF assms(1)]] _ _ assms(3,4)])
    (auto dest!: core_run [OF assms(1)] intro: P)

lemma from_snapshot_and_persist:
  "preserves_from (running t e)
     (svc_catch (build_execution_snapshot t e) (fail_execution_attempt (t_id t) (e_id e)) (\<lambda>s.
     svc_catch (persist_execution_snapshot t e s) (fail_execution_attempt (t_id t) (e_id e)) (\<lambda>_.
       svc_return Executed)))"
proof (rule from_stable_catch [where Q = "\<lambda>s d. snapshot_balanced s \<and> running t e d", OF stable_build_snapshot])
  show "snapshot_balanced s \<and> running t e (w_db w)"
    if "running t e (w_db w)" "build_execution_snapshot t e w = (Inr s, w')" for w s w'
    using that by (auto dest: build_snapshot_balanced)
  show "preserves_from (\<lambda>d. snapshot_balanced s \<and> running t e d)
     (svc_catch (persist_execution_snapshot t e s) (fail_execution_attempt (t_id t) (e_id e)) (\<lambda>_. svc_return Executed))" for s
  proof (rule from_fact, rule from_catch [where E = "running t e" and Q = "\<lambda>_ _. True", OF from_persist])
    show "running t e (w_db w')" if "running t e (w_db w)" "persist_execution_snapshot t e s w = (Inl er, w')" for w er w'
      using that persist_error by metis
  qed (auto intro: from_return from_weaken [OF from_fail_attempt running_exec_is])
qed (rule from_weaken [OF from_fail_attempt running_exec_is])

lemma from_run_loaded:
  assumes "t_id task0 = r_task row" "e_id e = r_exec row"
  shows "preserves_from (\<lambda>d. task0 \<in> set (db_tasks d) \<and> e \<in> set (db_execs d) \<and> e_task e = r_task row \<and> e_status e = EExecuting)
    (run_loaded_execution row task0 e)" (is "preserves_from ?P _")
  unfolding run_loaded_execution_def Let_def
proof (rule from_catch [where E = "exec_is (r_task row) (r_exec row) EExecuting"
      and Q = "\<lambda>_. running (set_task_status TExecuting (Some e) task0) e"])
  let ?task = "set_task_status TExecuting (Some e) task0"
  have ok: "pair_ok (db_outbox d) ?task f"
    if a: "db_inv d" "?P d" "f \<in> set (db_execs d)" "e_task f = t_id task0" "pair_ok (db_outbox d) task0 f" for d f
  proof -
    have "f = e" using linked_exec_unique [OF a(1,3), of e] a(2,4) assms by simp
    with a show ?thesis by (auto simp: pair_ok_defs)
  qed
  show "preserves_from ?P (db_err (task_update ?task))"
    unfolding preserves_from_def
  proof (intro allI impI)
    fix w r w' assume inv: "db_inv (w_db w)" and P: "?P (w_db w)" and "db_err (task_update ?task) w = (r, w')"
    then obtain r' where run: "task_update ?task w = (r', w')"
      by (auto simp: wrap_err_def svc_wrap_def split: prod.splits sum.splits)
    show "db_inv (w_db w') \<and> db_evolves (w_db w) (w_db w')"
      by (rule update_task_ok(1) [OF run inv _ set_task_status_simps(5)]) (use P ok [OF inv P] in auto)
  qed
  show "exec_is (r_task row) (r_exec row) EExecuting (w_db w')"
    if "?P (w_db w)" "db_err (task_update ?task) w = (Inl er, w')" for w er w'
    using that assms by (auto simp: wrap_err_Inl_iff task_update_def db_write_def db_call_Inl_iff exec_is_def)
  show "running ?task e (w_db w')"
    if a: "db_inv (w_db w)" "?P (w_db w)" "db_err (task_update ?task) w = (Inr u, w')" for w u w'
  proof -
    have run: "task_update ?task w = (Inr u, w')" using a(3) by (simp add: wrap_err_Inr_iff)
    have t: "task0 \<in> set (db_tasks (w_db w))" using a(2) by simp
    have "?task \<in> set (db_tasks (w_db w')) \<and> db_execs (w_db w') = db_execs (w_db w)"
      by (rule update_task_ok(2) [OF run a(1) t set_task_status_simps(5) ok [OF a(1,2)] refl])
    with a(2) assms show ?thesis by (simp add: running_def)
  qed
  show "preserves_from (running ?task e)
    (svc_catch (preflight_check (t_id ?task)) (fail_execution_attempt (t_id ?task) (e_id e)) (\<lambda>_.
     svc_catch (build_execution_snapshot ?task e) (fail_execution_attempt (t_id ?task) (e_id e)) (\<lambda>s.
     svc_catch (persist_execution_snapshot ?task e s) (fail_execution_attempt (t_id ?task) (e_id e)) (\<lambda>_.
       svc_return Executed))))"
    by (rule from_core_catch [OF core_preflight running_core _ from_snapshot_and_persist], assumption, assumption)
      (rule from_weaken [OF from_fail_attempt running_exec_is])
qed (rule from_fail_attempt)

lemma task_get_Inr: "db_inv (w_db w) \<Longrightarrow> db_err (task_get k) w = (Inr (Some t), w') \<Longrightarrow> t \<in> set (db_tasks (w_db w)) \<and> t_id t = k"
  by (auto simp: wrap_err_Inr_iff task_get_def db_read_Inr_iff dest: row_get_set [OF sym] row_get_key [OF sym])

lemma exec_get_Inr:
  assumes "db_inv (w_db w)" "exec_is tid k st (w_db w)" "db_err (exec_get k) w = (Inr (Some e), w')"
  shows "e \<in> set (db_execs (w_db w)) \<and> e_id e = k \<and> e_task e = tid \<and> e_status e = st"
proof -
  have e: "e \<in> set (db_execs (w_db w))" "e_id e = k"
    using assms(1,3) by (auto simp: wrap_err_Inr_iff exec_get_def db_read_Inr_iff dest: row_get_set [OF sym] row_get_key [OF sym])
  obtain f where "f \<in> set (db_execs (w_db w))" "e_id f = k" "e_task f = tid" "e_status f = st"
    using assms(2) by (auto simp: exec_is_def)
  with e exec_key_unique [OF assms(1), of f e] show ?thesis by simp
qed

lemma from_run_claimed:
  "preserves_from (exec_is (r_task row) (r_exec row) EExecuting) (run_claimed_execution row)"
  unfolding run_claimed_execution_def
proof (rule from_stable_catch [OF stable_wrap_err [OF stable_repo_reads(1)]])
  let ?P = "exec_is (r_task row) (r_exec row) EExecuting"
  let ?fail = "fail_execution_attempt (r_task row) (r_exec row)"
  let ?T = "\<lambda>tk d. (\<forall>t. tk = Some t \<longrightarrow> t_id t = r_task row) \<and> (?P d \<and> (\<forall>t. tk = Some t \<longrightarrow> t \<in> set (db_tasks d)))"
  show "?T tk (w_db w)"
    if "db_inv (w_db w)" "?P (w_db w)" "db_err (task_get (r_task row)) w = (Inr tk, w')" for w tk w'
    using that by (auto dest: task_get_Inr)
  show "preserves_from (?T tk)
    (case tk of None \<Rightarrow> ?fail (Biz CodeOJTaskNotFound)
     | Some task0 \<Rightarrow> svc_catch (db_err (exec_get (r_exec row))) ?fail (\<lambda>ex.
       (case ex of None \<Rightarrow> ?fail (Biz CodeOJTaskExecutionNotFound)
        | Some e \<Rightarrow> run_loaded_execution row task0 e)))" for tk
  proof (rule from_fact, rule from_case_option)
    show "preserves_from (\<lambda>d. ?P d \<and> (\<forall>t. tk = Some t \<longrightarrow> t \<in> set (db_tasks d))) (?fail (Biz CodeOJTaskNotFound))"
      by (rule from_weaken [OF from_fail_attempt]) simp
    fix task0 assume tk: "tk = Some task0" and ids: "\<forall>t. tk = Some t \<longrightarrow> t_id t = r_task row"
    let ?E = "\<lambda>ex d. (\<forall>e. ex = Some e \<longrightarrow> e_id e = r_exec row) \<and>
        (?P d \<and> task0 \<in> set (db_tasks d) \<and> (\<forall>e. ex = Some e \<longrightarrow> e \<in> set (db_execs d) \<and> e_task e = r_task row \<and> e_status e = EExecuting))"
    show "preserves_from (\<lambda>d. ?P d \<and> (\<forall>t. tk = Some t \<longrightarrow> t \<in> set (db_tasks d)))
     (svc_catch (db_err (exec_get (r_exec row))) ?fail (\<lambda>ex.
       (case ex of None \<Rightarrow> ?fail (Biz CodeOJTaskExecutionNotFound)
        | Some e \<Rightarrow> run_loaded_execution row task0 e)))"
    proof (rule from_stable_catch [where Q = ?E, OF stable_wrap_err [OF stable_repo_reads(7)]])
      show "?E ex (w_db w)"
        if "db_inv (w_db w)" "?P (w_db w) \<and> (\<forall>t. tk = Some t \<longrightarrow> t \<in> set (db_tasks (w_db w)))"
          "db_err (exec_get (r_exec row)) w = (Inr ex, w')" for w ex w'
        using that tk by (auto dest: exec_get_Inr)
      show "preserves_from (?E ex) (case ex of None \<Rightarrow> ?fail (Biz CodeOJTaskExecutionNotFound)
        | Some e \<Rightarrow> run_loaded_execution row task0 e)" for ex
      proof (rule from_fact, rule from_case_option)
        fix e assume "ex = Some e" "\<forall>e. ex = Some e \<longrightarrow> e_id e = r_exec row"
        then show "preserves_from (\<lambda>d. ?P d \<and> task0 \<in> set (db_tasks d) \<and>
            (\<forall>e. ex = Some e \<longrightarrow> e \<in> set (db_execs d) \<and> e_task e = r_task row \<and> e_status e = EExecuting))
          (run_loaded_execution row task0 e)"
          using ids tk by (intro from_weaken [OF from_run_loaded]) auto
      qed (rule from_weaken [OF from_fail_attempt], simp)
    qed (rule from_weaken [OF from_fail_attempt], simp)
  qed
qed (rule from_fail_attempt)

subsection \<open>Claiming\<close>

text \<open>The row of the listing names an execution of that task.\<close>

definition row_ok :: "dispatch_row \<Rightarrow> oj_db \<Rightarrow> bool" where
  "row_ok row d \<longleftrightarrow> (\<exists>e \<in> set (db_execs d). e_id e = r_exec row \<and> e_task e = r_task row)"

lemma row_ok_evolves: "db_evolves d d' \<Longrightarrow> row_ok row d \<Longrightarrow> row_ok row d'"
  unfolding db_evolves_def row_ok_def exec_evolves_def by metis

lemma claim_rows_unique:
  assumes "distinct (map e_id es)" "e \<in> set es" "e_id e = k"
  shows "claim_rows k sts at es =
    (if e_status e \<in> set sts then row_put e_id (e\<lparr>e_status := EExecuting, e_started := Some at\<rparr>) es else es)"
    and "filter (claimable k sts) es \<noteq> [] \<longleftrightarrow> e_status e \<in> set sts"
proof -
  have u: "q = e" if "q \<in> set es" "e_id q = k" for q
    using inj_onD [of e_id "set es" q e] assms that by (simp add: distinct_map)
  show "filter (claimable k sts) es \<noteq> [] \<longleftrightarrow> e_status e \<in> set sts"
    unfolding claimable_def filter_empty_conv using assms(2,3) u by metis
  let ?c = "\<lambda>e. e\<lparr>e_status := EExecuting, e_started := Some at\<rparr>"
  have "map (\<lambda>q. if claimable k sts q then ?c q else q) xs =
      (if e_status e \<in> set sts \<and> e \<in> set xs then row_put e_id (?c e) xs else xs)"
    if "set xs \<subseteq> set es" "distinct (map e_id xs)" for xs
    using that
  proof (induction xs)
    case (Cons x xs)
    show ?case
    proof (cases "e_id x = k")
      case True
      then have x: "x = e" using u Cons.prems by simp
      then have "e \<notin> set xs" using Cons.prems(2) by auto
      moreover have "map (\<lambda>q. if claimable k sts q then ?c q else q) xs = xs"
        using Cons.IH Cons.prems \<open>e \<notin> set xs\<close> by simp
      ultimately show ?thesis using x assms(3) by (simp add: claimable_def)
    next
      case False
      then have "\<not> claimable k sts x" "x \<noteq> e" using assms(3) by (auto simp: claimable_def)
      then show ?thesis using False Cons.IH Cons.prems assms(3) by simp
    qed
  qed simp
  from this [of es] assms(1,2)
  show "claim_rows k sts at es =
    (if e_status e \<in> set sts then row_put e_id (?c e) es else es)"
    by (simp add: claim_rows_def)
qed

lemma from_claim:
  "preserves_from (row_ok row) (db_err (exec_claim (r_exec row) dispatchable_statuses t))"
  "db_inv (w_db w) \<Longrightarrow> row_ok row (w_db w) \<Longrightarrow>
     db_err (exec_claim (r_exec row) dispatchable_statuses t) w = (Inr True, w') \<Longrightarrow>
     exec_is (r_task row) (r_exec row) EExecuting (w_db w')"
proof -
  let ?c = "\<lambda>e. e\<lparr>e_status := EExecuting, e_started := Some t\<rparr>"
  show "preserves_from (row_ok row) (db_err (exec_claim (r_exec row) dispatchable_statuses t))"
    unfolding preserves_from_def
  proof (intro allI impI)
    fix w r w' assume inv: "db_inv (w_db w)" and ro: "row_ok row (w_db w)"
      and run: "db_err (exec_claim (r_exec row) dispatchable_statuses t) w = (r, w')"
    obtain e where e: "e \<in> set (db_execs (w_db w))" "e_id e = r_exec row" "e_task e = r_task row"
      using ro by (auto simp: row_ok_def)
    have d: "distinct (map e_id (db_execs (w_db w)))" using inv by (auto simp: db_inv_defs)
    note c = claim_rows_unique(1) [OF d e(1,2)]
    show "db_inv (w_db w') \<and> db_evolves (w_db w) (w_db w')"
    proof (cases r)
      case (Inl er) with run inv show ?thesis by (auto simp: wrap_err_Inl_iff exec_claim_def db_call_Inl_iff)
    next
      case (Inr a)
      then have db: "w_db w' = (w_db w)\<lparr>db_execs := claim_rows (r_exec row) dispatchable_statuses t (db_execs (w_db w))\<rparr>"
        using run exec_claim_effect [of "r_exec row" dispatchable_statuses t w a w'] by (simp add: wrap_err_Inr_iff)
      show ?thesis
      proof (cases "e_status e \<in> set dispatchable_statuses")
        case False with db c inv show ?thesis by simp
      next
        case True
        obtain tk where tk: "tk \<in> set (db_tasks (w_db w))" "e_task e = t_id tk" "pair_ok (db_outbox (w_db w)) tk e"
          by (rule task_of_exec [OF inv e(1)])
        have pt: "row_put t_id tk (db_tasks (w_db w)) = db_tasks (w_db w)"
          using inv tk(1) by (intro row_put_present [where k = "t_id tk"]) (simp add: task_get_iff)
        have st: "e_status e = EScheduled \<or> e_status e = EQueued" using True by (simp add: dispatchable_statuses_def)
        have ok: "pair_ok (db_outbox (w_db w)) tk (?c e)" "exec_evolves e (?c e)"
          using tk(3) st by (elim disjE; simp add: pair_ok_defs)+
        have "w_db w' = (w_db w)\<lparr>db_execs := row_put e_id (?c e) (db_execs (w_db w))\<rparr>"
          using db c True by simp
        then show ?thesis
          by (intro replaced_pair_ok [OF inv tk(1) e(1) tk(2) task_evolves_refl ok(2)]) (simp_all add: pt ok(1))
      qed
    qed
  qed
  assume inv: "db_inv (w_db w)" and ro: "row_ok row (w_db w)"
    and run: "db_err (exec_claim (r_exec row) dispatchable_statuses t) w = (Inr True, w')"
  obtain e where e: "e \<in> set (db_execs (w_db w))" "e_id e = r_exec row" "e_task e = r_task row"
    using ro by (auto simp: row_ok_def)
  have d: "distinct (map e_id (db_execs (w_db w)))" using inv by (auto simp: db_inv_defs)
  have "exec_claim (r_exec row) dispatchable_statuses t w = (Inr True, w')" using run by (simp add: wrap_err_Inr_iff)
  from exec_claim_effect [OF this] claim_rows_unique(1) [OF d e(1,2), of dispatchable_statuses t]
    claim_rows_unique(2) [OF d e(1,2), of dispatchable_statuses]
  have "db_execs (w_db w') = row_put e_id (?c e) (db_execs (w_db w))" by auto
  then have "?c e \<in> set (db_execs (w_db w'))" using d by (auto simp: in_row_put_iff)
  with e show "exec_is (r_task row) (r_exec row) EExecuting (w_db w')"
    by (auto simp: exec_is_def intro!: bexI [of _ "?c e"])
qed

lemma stable_acquire [stable_intro]: "stable acquire_execution_lock"
  by (auto intro!: stableI simp: acquire_execution_lock_def split: if_splits lock_answer.splits)

lemma from_dispatch_single: "preserves_from (row_ok row) (dispatch_single_execution row)"
  unfolding dispatch_single_execution_def
proof (rule from_if [OF from_return], rule from_if [OF from_return],
    rule from_stable_catch [where Q = "\<lambda>_. row_ok row", OF stable_acquire _ from_return], assumption,
    rule from_if [OF from_return], rule from_stable_bind [where Q = "\<lambda>_. row_ok row", OF stable_env(1)], assumption)
  fix t
  show "preserves_from (row_ok row)
    (svc_catch (db_err (exec_claim (r_exec row) dispatchable_statuses t)) (\<lambda>e. svc_return (RetryableError e))
      (\<lambda>claimed. if \<not> claimed then svc_return Noop else run_claimed_execution row))"
  proof (rule from_catch [where E = "\<lambda>_. True" and Q = "\<lambda>a d. a \<longrightarrow> exec_is (r_task row) (r_exec row) EExecuting d", OF from_claim(1)])
    show "preserves_from (\<lambda>d. a \<longrightarrow> exec_is (r_task row) (r_exec row) EExecuting d)
        (if \<not> a then svc_return Noop else run_claimed_execution row)" for a
      by (auto intro: from_return from_weaken [OF from_run_claimed])
  qed (auto intro: from_return dest: from_claim(2))
qed

subsection \<open>The entry points\<close>

lemma preserves_execute_execution_by_id [preserves_intro]: "preserves (execute_execution_by_id eid)"
proof -
  have "preserves (execute_single_execution_by_id eid)"
    unfolding execute_single_execution_by_id_def
  proof (rule preserves_if, rule preserves_basic(1), rule preserves_from_True,
      rule from_stable_catch [where Q = "\<lambda>x d. \<forall>r. x = Some r \<longrightarrow> row_ok r d", OF stable_wrap_err [OF stable_repo_reads(9)]])
    show "\<forall>r. x = Some r \<longrightarrow> row_ok r (w_db w)" if "db_err (exec_get_dispatch eid) w = (Inr x, w')" for w x w'
      using that by (auto simp: wrap_err_Inr_iff exec_get_dispatch_def db_read_Inr_iff row_ok_def dispatch_row_of_def
          dest: row_get_set row_get_key split: option.splits if_splits)
    show "preserves_from (\<lambda>d. \<forall>r. x = Some r \<longrightarrow> row_ok r d)
        (case x of None \<Rightarrow> svc_return Noop | Some r \<Rightarrow> dispatch_single_execution r)" for x
      by (cases x) (auto intro: from_return from_dispatch_single)
  qed (rule from_return)
  then show ?thesis
    unfolding execute_execution_by_id_def by (auto intro!: preserves_bind preserves_basic split: option.split)
qed

lemma from_dispatch_loop: "preserves_from (\<lambda>d. \<forall>r \<in> set rows. row_ok r d) (dispatch_loop j rows)"
proof (induction rows arbitrary: j)
  case (Cons row rows)
  show ?case unfolding dispatch_loop.simps
  proof (rule from_bind [where Q = "\<lambda>_ d. \<forall>r \<in> set rows. row_ok r d"])
    show "preserves_from (\<lambda>d. \<forall>r \<in> set (row # rows). row_ok r d) (dispatch_single_execution row)"
      by (rule from_weaken [OF from_dispatch_single]) simp
    show "\<forall>r \<in> set rows. row_ok r (w_db w')"
      if a: "db_inv (w_db w)" "\<forall>r \<in> set (row # rows). row_ok r (w_db w)" "dispatch_single_execution row w = (Inr q, w')" for w q w'
    proof -
      have "db_evolves (w_db w) (w_db w')"
        using from_dispatch_single [of row] a unfolding preserves_from_def by auto
      then show ?thesis using a(2) by (auto intro: row_ok_evolves)
    qed
  qed (rule Cons.IH)
qed (simp add: from_return)

lemma preserves_dispatch_pending [preserves_intro]: "preserves dispatch_pending_executions"
  unfolding dispatch_pending_executions_def
proof (rule preserves_bind [OF preserves_of_stable [OF stable_read(3)]],
    rule preserves_bind [OF preserves_of_stable [OF stable_env(1)]], rule preserves_from_True,
    rule from_stable_bind [where Q = "\<lambda>rows d. \<forall>r \<in> set rows. row_ok r d"])
  fix t batch
  let ?due = "db_err (exec_list_due dispatchable_statuses t (resolve_dispatch_batch_size batch))"
  show "stable ?due" by (intro stable_intro)
  show "\<forall>r \<in> set rows. row_ok r (w_db w)" if "?due w = (Inr rows, w')" for w rows w'
    using that by (auto simp: wrap_err_Inr_iff exec_list_due_def db_read_Inr_iff row_ok_def dispatchable_statuses_def
        dispatch_row_of_def dest!: due_rows_source intro: bexI)
  show "preserves_from (\<lambda>d. \<forall>r \<in> set rows. row_ok r d) (svc_bind (dispatch_loop None rows)
     (\<lambda>joined. (case joined of None \<Rightarrow> svc_return () | Some e \<Rightarrow> svc_throw e)))" for rows
    by (rule from_bind [where Q = "\<lambda>_ _. True", OF from_dispatch_loop])
      (auto intro: from_return from_throw split: option.split)
qed

end
