(* ===== verification/OJ_Lifecycle.thy ===== *)
theory OJ_Lifecycle
  imports OJ_Run
begin

text \<open>
  The component as a transition system: any sequence of commands, scheduler rounds, trigger
  deliveries, question events and outbox bookkeeping, each succeeding or failing at any of
  its calls, with arbitrary changes of the other components, of time and of the faults in
  between. Reachable tables satisfy the invariant, and rows evolve monotonically.
\<close>

inductive oj_step :: "world \<Rightarrow> world \<Rightarrow> bool" where
  step_create: "create_task op req w = (r, w') \<Longrightarrow> oj_step w w'"
| step_update: "update_task op tid req w = (r, w') \<Longrightarrow> oj_step w w'"
| step_delete: "delete_task op tid w = (r, w') \<Longrightarrow> oj_step w w'"
| step_execute_now: "execute_task_now op tid w = (r, w') \<Longrightarrow> oj_step w w'"
| step_revise: "revise_task op tid req w = (r, w') \<Longrightarrow> oj_step w w'"
| step_retry: "retry_task op tid w = (r, w') \<Longrightarrow> oj_step w w'"
| step_upserted: "handle_question_upserted platform title w = (r, w') \<Longrightarrow> oj_step w w'"
| step_dispatch: "dispatch_pending_executions w = (r, w') \<Longrightarrow> oj_step w w'"
| step_trigger: "execute_execution_by_id eid w = (r, w') \<Longrightarrow> oj_step w w'"
| step_published: "oj_step w (w\<lparr>w_db := (w_db w)\<lparr>db_outbox := mark_as_published t ev (db_outbox (w_db w))\<rparr>\<rparr>)"
| step_failed: "oj_step w (w\<lparr>w_db := (w_db w)\<lparr>db_outbox := mark_as_failed ltr t ev msg mr (db_outbox (w_db w))\<rparr>\<rparr>)"
| step_environment: "w_db w' = w_db w \<Longrightarrow> oj_step w w'"

inductive_cases oj_step_cases: "oj_step w w'"

definition empty_db :: oj_db where
  "empty_db = \<lparr>db_tasks = [], db_orgs = [], db_items = [], db_intakes = [], db_execs = [], db_eusers = [],
     db_euorgs = [], db_euitems = [], db_outbox = [], db_next = 1\<rparr>"

definition oj_reachable :: "world \<Rightarrow> bool" where
  "oj_reachable w \<longleftrightarrow> (\<exists>w0. w_db w0 = empty_db \<and> oj_step\<^sup>*\<^sup>* w0 w)"

lemma empty_db_inv: "db_inv empty_db"
  by (simp add: db_inv_defs empty_db_def)

lemma payloads_mark_published: "map ob_payload (mark_as_published t ev rows) = map ob_payload rows"
  by (induction rows) (auto simp: mark_as_published_def)

lemma payloads_mark_failed: "map ob_payload (mark_as_failed l t ev m mr rows) = map ob_payload rows"
  by (induction rows) (auto simp: mark_as_failed_def)

lemma outbox_status_ok:
  assumes "db_inv d" "map ob_payload obs = map ob_payload (db_outbox d)" "map ob_event_id obs = map ob_event_id (db_outbox d)"
  shows "db_inv (d\<lparr>db_outbox := obs\<rparr>) \<and> db_evolves d (d\<lparr>db_outbox := obs\<rparr>)"
proof
  have "queued_ok obs e" if "queued_ok (db_outbox d) e" for e
  proof -
    have "ob_payload ` set obs = ob_payload ` set (db_outbox d)" using assms(2) by (metis set_map)
    then have "(\<exists>o' \<in> set obs. ob_payload o' = p) \<longleftrightarrow> (\<exists>o' \<in> set (db_outbox d). ob_payload o' = p)" for p
      by (metis (no_types, lifting) image_iff)
    with that show ?thesis by (simp add: queued_ok_def)
  qed
  then show "db_inv (d\<lparr>db_outbox := obs\<rparr>)" using assms(1) by (auto simp: db_inv_defs pair_ok_def)
  have "set (map ob_event_id (db_outbox d)) = set (map ob_event_id obs)" using assms(3) by simp
  then show "db_evolves d (d\<lparr>db_outbox := obs\<rparr>)"
    by (auto simp: db_evolves_def intro: task_evolves_refl exec_evolves_refl)
qed

lemma oj_step_ok: "oj_step w w' \<Longrightarrow> db_inv (w_db w) \<Longrightarrow> db_inv (w_db w') \<and> db_evolves (w_db w) (w_db w')"
proof (induction rule: oj_step.induct)
  case (step_published w t ev)
  then show ?case by (simp add: outbox_status_ok payloads_mark_published)
next
  case (step_failed w ltr t ev msg mr)
  then show ?case by (simp add: outbox_status_ok payloads_mark_failed)
qed (auto dest: preservesD intro: preserves_intro)

lemma oj_steps_ok: "oj_step\<^sup>*\<^sup>* w w' \<Longrightarrow> db_inv (w_db w) \<Longrightarrow> db_inv (w_db w') \<and> db_evolves (w_db w) (w_db w')"
proof (induction rule: rtranclp_induct)
  case (step u v)
  then show ?case using oj_step_ok by (blast intro: db_evolves_trans)
qed simp

lemma oj_reachable_inv: "oj_reachable w \<Longrightarrow> db_inv (w_db w)"
  unfolding oj_reachable_def using oj_steps_ok empty_db_inv by metis

lemma oj_reachable_step: "oj_reachable w \<Longrightarrow> oj_step w w' \<Longrightarrow> oj_reachable w'"
  unfolding oj_reachable_def by (meson rtranclp.rtrancl_into_rtrancl)

end
