(* ===== verification/OJ_Behaviour.thy ===== *)
theory OJ_Behaviour
  imports OJ_Lifecycle
begin

text \<open>
  What each command of the task service does when it succeeds, beyond keeping the
  invariant: the rows it leaves, the guards it has checked, the authorisation behind it,
  and that a failing command leaves the tables as they were.
\<close>

subsection \<open>Rows of a new version\<close>

lemma orgs_create_effect:
  "orgs_create rows w = (Inr a, w') \<Longrightarrow>
     w_db w' = (w_db w)\<lparr>db_orgs := db_orgs (w_db w) @ number_rows (\<lambda>k r. r\<lparr>to_id := k\<rparr>) (db_next (w_db w)) rows,
                        db_next := db_next (w_db w) + length rows\<rparr>"
  by (auto simp: orgs_create_def db_write_def db_call_Inr_iff split: if_splits)

lemma items_create_effect:
  "items_create rows w = (Inr a, w') \<Longrightarrow>
     a = number_rows (\<lambda>k r. r\<lparr>i_id := k\<rparr>) (db_next (w_db w)) rows \<and>
     w_db w' = (w_db w)\<lparr>db_items := db_items (w_db w) @ a, db_next := db_next (w_db w) + length rows\<rparr>"
  by (auto simp: items_create_def db_call_Inr_iff Let_def split: if_splits)

lemma intakes_create_effect:
  "intakes_create rows w = (Inr a, w') \<Longrightarrow>
     w_db w' = (w_db w)\<lparr>db_intakes := db_intakes (w_db w) @ number_rows (\<lambda>k r. r\<lparr>k_id := k\<rparr>) (db_next (w_db w)) rows,
                        db_next := db_next (w_db w) + length rows\<rparr>"
  by (auto simp: intakes_create_def db_write_def db_call_Inr_iff split: if_splits)

text \<open>The organisation, item and intake rows a draft turns into.\<close>

definition draft_rows :: "nat \<Rightarrow> valid_draft \<Rightarrow> task_org list \<Rightarrow> oj_item list \<Rightarrow> oj_intake list \<Rightarrow> bool" where
  "draft_rows tid draft os is' ks \<longleftrightarrow>
     map to_org os = vd_orgs draft \<and> (\<forall>o' \<in> set os. to_task o' = tid) \<and>
     map item_to_valid is' = vd_items draft \<and> (\<forall>i \<in> set is'. i_task i = tid \<and> 0 < i_id i) \<and>
     distinct (map i_id is') \<and>
     map (\<lambda>k. (k_item k, k_platform k, k_title k)) ks =
       map (\<lambda>i. (i_id i, i_platform i, i_title i)) (filter (\<lambda>i. i_res i = ResPending) is') \<and>
     (\<forall>k \<in> set ks. k_task k = tid \<and> k_status k = ResPending)"

lemma item_rows_valid: "map item_to_valid (number_rows (\<lambda>k r. r\<lparr>i_id := k\<rparr>) n (build_task_item_rows tid vs)) = vs"
  by (induction vs arbitrary: n) (auto simp: build_task_item_rows_def item_to_valid_def)

lemma item_rows_task:
  "i \<in> set (number_rows (\<lambda>k r. r\<lparr>i_id := k\<rparr>) n (build_task_item_rows tid vs)) \<Longrightarrow> i_task i = tid \<and> n \<le> i_id i"
  by (induction vs arbitrary: n) (auto simp: build_task_item_rows_def dest: Suc_leD)

lemma org_rows_task:
  "map to_org (number_rows (\<lambda>k r. r\<lparr>to_id := k\<rparr>) n (build_task_org_rows tid os)) = os"
  "o' \<in> set (number_rows (\<lambda>k r. r\<lparr>to_id := k\<rparr>) n (build_task_org_rows tid os)) \<Longrightarrow> to_task o' = tid"
  by (induction os arbitrary: n) (auto simp: build_task_org_rows_def)

lemma number_rows_Pair: "(\<And>k r. g (f k r) = g r) \<Longrightarrow> (\<And>r. r \<in> set rs \<Longrightarrow> P (g r)) \<Longrightarrow> x \<in> set (number_rows f n rs) \<Longrightarrow> P (g x)"
  by (induction rs arbitrary: n) auto

lemma draft_rows_built:
  assumes "0 < n"
    and its: "its = number_rows (\<lambda>k r. r\<lparr>i_id := k\<rparr>) n (build_task_item_rows tid (vd_items draft))"
  shows "draft_rows tid draft (number_rows (\<lambda>k r. r\<lparr>to_id := k\<rparr>) m (build_task_org_rows tid (vd_orgs draft))) its
      (number_rows (\<lambda>k r. r\<lparr>k_id := k\<rparr>) p (build_task_intake_rows tid its))"
proof -
  have pos: "0 < i_id i" if "i \<in> set its" for i using that assms item_rows_task by fastforce
  have keep: "filter (\<lambda>i. i_id i \<noteq> 0 \<and> i_res i = ResPending) its = filter (\<lambda>i. i_res i = ResPending) its"
    using pos by (intro filter_cong) auto
  have dist: "distinct (map i_id its)"
    unfolding its by (subst ids_number_rows) auto
  have intakes: "map (\<lambda>k. (k_item k, k_platform k, k_title k)) (number_rows (\<lambda>k r. r\<lparr>k_id := k\<rparr>) p (build_task_intake_rows tid its))
      = map (\<lambda>i. (i_id i, i_platform i, i_title i)) (filter (\<lambda>i. i_res i = ResPending) its)"
    by (subst map_number_rows) (simp_all add: build_task_intake_rows_def keep [simplified] o_def)
  have status: "k_task k = tid \<and> k_status k = ResPending"
    if "k \<in> set (number_rows (\<lambda>k r. r\<lparr>k_id := k\<rparr>) p (build_task_intake_rows tid its))" for k
  proof -
    have "(k_task r, k_status r) = (tid, ResPending)" if "r \<in> set (build_task_intake_rows tid its)" for r
      using that by (auto simp: build_task_intake_rows_def)
    then have "(k_task k, k_status k) = (tid, ResPending)"
      using number_rows_Pair [where g = "\<lambda>k. (k_task k, k_status k)" and P = "\<lambda>q. q = (tid, ResPending)", OF _ _ that]
      by simp
    then show ?thesis by simp
  qed
  show ?thesis
    unfolding draft_rows_def
    using dist pos intakes status item_rows_task [of _ n tid "vd_items draft"] org_rows_task item_rows_valid
    by (auto simp: its)
qed

lemma create_version_rows:
  assumes run: "create_task_version root parent v op draft trig w = (Inr r, w')"
    and keys: "keys_ok (w_db w)"
  shows "\<exists>os is' ks. db_orgs (w_db w') = db_orgs (w_db w) @ os \<and> db_items (w_db w') = db_items (w_db w) @ is' \<and>
     db_intakes (w_db w') = db_intakes (w_db w) @ ks \<and> draft_rows (cr_task r) draft os is' ks"
proof -
  obtain n t w2 u2 w3 its w4 u4 w5 e w6 u6 where
    t: "t = \<lparr>t_id = db_next (w_db w), t_root = (if root = None \<or> root = Some 0 then Some (db_next (w_db w)) else root),
          t_parent = parent, t_version = v, t_title = vd_title draft, t_desc = vd_desc draft, t_mode = vd_mode draft,
          t_status = (if vd_mode draft = mode_immediate then TQueued else TScheduled),
          t_exec_at = vd_exec_at draft, t_created_by = op, t_updated_by = op\<rparr>"
    and db2: "w_db w2 = (w_db w)\<lparr>db_tasks := db_tasks (w_db w) @ [t], db_next := Suc (db_next (w_db w))\<rparr>"
    and c: "orgs_create (build_task_org_rows (t_id t) (vd_orgs draft)) w2 = (Inr u2, w3)"
      "items_create (build_task_item_rows (t_id t) (vd_items draft)) w3 = (Inr its, w4)"
      "intakes_create (build_task_intake_rows (t_id t) its) w4 = (Inr u4, w5)"
      "exec_create (new_execution (t_id t) trig
        (if vd_mode draft = mode_immediate then n else (case vd_exec_at draft of None \<Rightarrow> n | Some a \<Rightarrow> a)) op
        (if vd_mode draft = mode_immediate then EQueued else EScheduled)) w5 = (Inr e, w6)"
    and p: "(if e_status e = EQueued then publish_queued_execution_trigger_in_tx (e_id e) (t_id t) else svc_return ()) w6 = (Inr u6, w')"
    and r: "r = \<lparr>cr_task = t_id t, cr_exec = e_id e, cr_status = t_status t\<rparr>"
    by (rule create_version_steps [OF run keys])
  note eff = orgs_create_effect [OF c(1)] items_create_effect [OF c(2)] intakes_create_effect [OF c(3)] exec_create_effect [OF c(4)]
  have pos: "0 < e_id e" "0 < t_id t" using keys eff db2 t by (auto simp: keys_ok_def)
  have last: "db_orgs (w_db w') = db_orgs (w_db w6) \<and> db_items (w_db w') = db_items (w_db w6) \<and> db_intakes (w_db w') = db_intakes (w_db w6)"
  proof (cases "e_status e = EQueued")
    case True
    with p have "publish_queued_execution_trigger_in_tx (e_id e) (t_id t) w6 = (Inr u6, w')" by simp
    from publish_trigger_effect [OF this pos] show ?thesis by auto
  qed (use p in auto)
  have "draft_rows (t_id t) draft (number_rows (\<lambda>k r. r\<lparr>to_id := k\<rparr>) (db_next (w_db w2)) (build_task_org_rows (t_id t) (vd_orgs draft)))
      its (number_rows (\<lambda>k r. r\<lparr>k_id := k\<rparr>) (db_next (w_db w4)) (build_task_intake_rows (t_id t) its))"
    by (rule draft_rows_built [where n = "db_next (w_db w3)"]) (use eff db2 keys in \<open>auto simp: keys_ok_def\<close>)
  then show ?thesis using last eff db2 r by auto
qed

subsection \<open>Validated organisations\<close>

lemma uniq_by_seen_cong: "set s = set s' \<Longrightarrow> uniq_by key s xs = uniq_by key s' xs"
proof (induction xs arbitrary: s s')
  case (Cons x xs)
  have mem: "key x \<in> set s \<longleftrightarrow> key x \<in> set s'" and more: "set (key x # s) = set (key x # s')"
    using Cons.prems by auto
  show ?case by (simp only: uniq_by.simps mem Cons.IH [OF Cons.prems] Cons.IH [OF more])
qed simp

definition known_org :: "oj_ext \<Rightarrow> nat \<Rightarrow> bool" where
  "known_org x oid \<longleftrightarrow> oid \<noteq> 0 \<and> row_get og_id (x_orgs x) oid \<noteq> None"

lemma validate_loop_Inr:
  "validate_org_ids_loop ns oids w = (Inr r, w') \<Longrightarrow>
     r = ns @ uniq_by (\<lambda>v. v) ns oids \<and> r \<noteq> [] \<and> (\<forall>oid \<in> set oids - set ns. known_org (w_ext w) oid)"
proof (induction oids arbitrary: ns w)
  case Nil
  then show ?case by (auto split: if_splits)
next
  case (Cons oid oids)
  show ?case
  proof (cases "oid \<in> set ns")
    case True
    with Cons.prems have "validate_org_ids_loop ns oids w = (Inr r, w')" by (auto split: if_splits)
    from Cons.IH [OF this] True show ?thesis by auto
  next
    case False
    then obtain og w1 where og: "row_get og_id (x_orgs (w_ext w)) oid = Some og" "oid \<noteq> 0"
      and r: "validate_org_ids_loop (ns @ [oid]) oids w1 = (Inr r, w')" and w1: "w_ext w1 = w_ext w"
      using Cons.prems
      by (auto simp: svc_bind_Inr_iff wrap_err_Inr_iff org_get_def ext_read_Inr_iff split: if_splits option.splits)
    have u: "uniq_by (\<lambda>v. v) (ns @ [oid]) oids = uniq_by (\<lambda>v. v) (oid # ns) oids" by (rule uniq_by_seen_cong) auto
    from Cons.IH [OF r, unfolded u] False og w1 show ?thesis by (auto simp: known_org_def)
  qed
qed

lemma validate_org_ids_Inr:
  assumes "validate_org_ids oids w = (Inr r, w')"
  shows "r = uniq_by (\<lambda>v. v) [] oids" "oids \<noteq> []" "\<And>oid. oid \<in> set oids \<Longrightarrow> known_org (w_ext w) oid"
  using assms validate_loop_Inr [of "[]" oids w r w'] by (auto simp: validate_org_ids_def split: if_splits)

lemma no_fault_ext_read: "(\<And>n. \<not> w_fault w n) \<Longrightarrow> ext_read f w = (Inr (f (w_ext w)), tick w)"
  by (simp add: ext_read_def db_call_def tick_def)

lemma validate_loop_complete:
  assumes "\<And>n. \<not> w_fault w n" "\<forall>oid \<in> set oids - set ns. known_org (w_ext w) oid" "ns = [] \<longrightarrow> oids \<noteq> []" "0 \<notin> set ns"
  shows "\<exists>r w'. validate_org_ids_loop ns oids w = (Inr r, w')"
  using assms
proof (induction oids arbitrary: ns w)
  case (Cons oid oids)
  show ?case
  proof (cases "oid \<in> set ns")
    case True
    then have "oid \<noteq> 0" "ns \<noteq> []" using Cons.prems(4) by (metis, auto)
    with True Cons.IH [of w ns] Cons.prems show ?thesis by auto
  next
    case False
    then obtain og where og: "row_get og_id (x_orgs (w_ext w)) oid = Some og" "oid \<noteq> 0" "og_id og = oid"
      using Cons.prems(2) by (auto simp: known_org_def dest: row_get_key)
    have "\<exists>r w'. validate_org_ids_loop (ns @ [oid]) oids (tick w) = (Inr r, w')"
      using Cons.IH [of "tick w" "ns @ [oid]"] Cons.prems og by auto
    with False og Cons.prems(1) show ?thesis
      by (auto simp: svc_bind_def wrap_err_def svc_wrap_def org_get_def no_fault_ext_read)
  qed
qed (auto split: if_splits)

lemma validate_org_ids_complete:
  assumes "\<And>n. \<not> w_fault w n"
  shows "(\<exists>r w'. validate_org_ids oids w = (Inr r, w')) \<longleftrightarrow> oids \<noteq> [] \<and> (\<forall>oid \<in> set oids. known_org (w_ext w) oid)"
proof
  assume "\<exists>r w'. validate_org_ids oids w = (Inr r, w')"
  then show "oids \<noteq> [] \<and> (\<forall>oid \<in> set oids. known_org (w_ext w) oid)" using validate_org_ids_Inr by blast
next
  assume "oids \<noteq> [] \<and> (\<forall>oid \<in> set oids. known_org (w_ext w) oid)"
  then show "\<exists>r w'. validate_org_ids oids w = (Inr r, w')"
    using validate_loop_complete [OF assms, of oids "[]"] by (auto simp: validate_org_ids_def)
qed

subsection \<open>Validated drafts\<close>

text \<open>What a draft that passed validation looks like.\<close>

definition valid_request :: "oj_ext \<Rightarrow> int \<Rightarrow> draft_req \<Rightarrow> norm_draft \<Rightarrow> bool" where
  "valid_request x t req d \<longleftrightarrow>
     nd_title d = trim_space (dr_title req) \<and> nd_title d \<noteq> [] \<and> nd_desc d = trim_space (dr_desc req) \<and>
     nd_mode d = trim_space (dr_mode req) \<and> nd_exec_at d = dr_exec_at req \<and>
     (nd_mode d = mode_immediate \<and> nd_exec_at d = None \<or>
      nd_mode d = mode_scheduled \<and> (\<exists>a. nd_exec_at d = Some a \<and> t < a)) \<and>
     nd_orgs d = uniq_by (\<lambda>v. v) [] (dr_orgs req) \<and> nd_orgs d \<noteq> [] \<and>
     (\<forall>oid \<in> set (dr_orgs req). known_org x oid) \<and>
     nd_items d \<noteq> [] \<and>
     map ni_platform (nd_items d) = map (trim_space \<circ> q_platform) (dr_items req) \<and>
     map ni_title (nd_items d) = map (trim_space \<circ> q_title) (dr_items req) \<and>
     map ni_token (nd_items d) = map (trim_space \<circ> q_token) (dr_items req) \<and>
     (\<forall>i \<in> set (nd_items d). ni_platform i \<noteq> [] \<and> ni_title i \<noteq> [])"

lemma validate_items_loop_Inr:
  "validate_items_loop is' = Inr ns \<Longrightarrow>
     map ni_platform ns = map (trim_space \<circ> q_platform) is' \<and> map ni_title ns = map (trim_space \<circ> q_title) is' \<and>
     map ni_token ns = map (trim_space \<circ> q_token) is' \<and> (\<forall>i \<in> set ns. ni_platform i \<noteq> [] \<and> ni_title i \<noteq> [])"
  by (induction is' arbitrary: ns)
    (auto simp: Let_def normalize_oj_task_title_def split: if_splits sum.splits)

lemma validate_draft_Inr:
  assumes "validate_draft req w = (Inr d, w')"
  shows "valid_request (w_ext w) (w_time w (w_step w)) req d"
proof -
  obtain orgs w1 w2 items where
    o': "validate_org_ids (dr_orgs req) w1 = (Inr orgs, w2)" and w1: "w1 = tick w"
    and i: "validate_items (dr_items req) = Inr items"
    and d: "nd_title d = trim_space (dr_title req)" "nd_desc d = trim_space (dr_desc req)" "nd_mode d = trim_space (dr_mode req)"
      "nd_orgs d = orgs" "nd_items d = items" "trim_space (dr_title req) \<noteq> []" "is_valid_oj_task_mode (trim_space (dr_mode req))"
    and m: "normalize_execute_at (trim_space (dr_mode req)) (dr_exec_at req) (w_time w (w_step w)) = Inr (nd_exec_at d)"
    using assms by (auto simp: validate_draft_def svc_bind_Inr_iff now_def split: if_splits)
  have "items \<noteq> []" "validate_items_loop (dr_items req) = Inr items"
    using i by (auto simp: validate_items_def split: if_splits sum.splits list.splits dest: validate_items_loop_Inr)
  moreover have "uniq_by (\<lambda>v. v) [] (dr_orgs req) \<noteq> []" using validate_org_ids_Inr(2) [OF o'] by (simp add: uniq_by_eq_Nil)
  moreover have "nd_exec_at d = dr_exec_at req \<and> (nd_mode d = mode_immediate \<and> nd_exec_at d = None \<or>
      nd_mode d = mode_scheduled \<and> (\<exists>a. nd_exec_at d = Some a \<and> w_time w (w_step w) < a))"
    using m d by (cases "dr_exec_at req")
      (auto simp: normalize_execute_at_def is_valid_oj_task_mode_def dest!: sym [where t = "nd_exec_at d"] split: if_splits)
  ultimately show ?thesis
    using d validate_org_ids_Inr [OF o'] validate_items_loop_Inr w1 unfolding valid_request_def by auto
qed

subsection \<open>Authorisation behind a command\<close>

lemma set_normalize [simp]: "set (normalize_uint_slice vs) = set vs - {0}"
  using uniq_by_keys [of "\<lambda>v. v" "[]" "filter (\<lambda>v. v \<noteq> 0) vs"] by (auto simp: normalize_uint_slice_def)

lemma distinct_normalize [simp]: "distinct (normalize_uint_slice vs)"
  using distinct_uniq_by [of "\<lambda>v. v" "[]"] by (simp add: normalize_uint_slice_def)

lemma iter_authorize_Inr:
  "svc_iter (\<lambda>oid. authorize_org_capability op oid cap) oids w = (Inr u, w') \<Longrightarrow>
     \<forall>oid \<in> set oids. may_operate (w_ext w) op oid cap"
proof (induction oids arbitrary: w)
  case (Cons oid oids)
  then obtain w1 where a: "authorize_org_capability op oid cap w = (Inr (), w1)"
    and r: "svc_iter (\<lambda>oid. authorize_org_capability op oid cap) oids w1 = (Inr u, w')"
    by (auto simp: svc_bind_Inr_iff)
  have "w_ext w1 = w_ext w" using stable_run [OF stable_authorize a] by simp
  with Cons.IH [OF r] authorize_org_capability_Inr [OF a] show ?case by simp
qed simp

lemma authorize_manage_Inr:
  "authorize_manage_org_ids op oids w = (Inr u, w') \<Longrightarrow>
     \<forall>oid \<in> set oids - {0}. may_operate (w_ext w) op oid capability_oj_task_manage"
  unfolding authorize_manage_org_ids_def by (drule iter_authorize_Inr) simp

subsection \<open>Materialised items\<close>

text \<open>The verified questions of a bank whose title matches, one per question.\<close>

definition title_candidates :: "oj_ext \<Rightarrow> string \<Rightarrow> string \<Rightarrow> candidate list" where
  "title_candidates x p t = deduplicate_analyze_candidates
     (if p = platform_luogu then map_luogu_candidates (x_luogu x t)
      else if p = platform_leetcode then map_leetcode_candidates (x_leetcode x t)
      else if p = platform_lanqiao then map_lanqiao_candidates (x_lanqiao x t) else [])"

definition known_platform :: "string \<Rightarrow> bool" where
  "known_platform p \<longleftrightarrow> p = platform_luogu \<or> p = platform_leetcode \<or> p = platform_lanqiao"

lemma find_candidates_Inr:
  "find_verified_title_candidates p t w = (Inr cs, w') \<Longrightarrow> known_platform p \<and> cs = title_candidates (w_ext w) p t"
  by (auto simp: find_verified_title_candidates_def find_exact_title_candidates_def title_candidates_def known_platform_def
      svc_bind_Inr_iff wrap_err_Inr_iff ext_read_Inr_iff split: if_splits)

text \<open>The verified question with a given id.\<close>

definition question_by_id :: "oj_ext \<Rightarrow> string \<Rightarrow> nat \<Rightarrow> candidate option" where
  "question_by_id x p qid =
     (if p = platform_luogu then
        (case x_luogu_id x qid of None \<Rightarrow> None | Some r \<Rightarrow>
           if lg_id r = 0 \<or> lg_status r \<noteq> source_verified then None
           else Some \<lparr>cd_platform = p, cd_qid = lg_id r, cd_code = lg_pid r, cd_title = lg_title r\<rparr>)
      else if p = platform_leetcode then
        (case x_leetcode_id x qid of None \<Rightarrow> None | Some r \<Rightarrow>
           if lc_id r = 0 \<or> lc_status r \<noteq> source_verified then None
           else Some \<lparr>cd_platform = p, cd_qid = lc_id r, cd_code = lc_slug r, cd_title = lc_title r\<rparr>)
      else if p = platform_lanqiao then
        (case x_lanqiao_id x qid of None \<Rightarrow> None | Some r \<Rightarrow>
           if lq_id r = 0 \<or> lq_status r \<noteq> source_verified then None
           else Some \<lparr>cd_platform = p, cd_qid = lq_id r, cd_code = show_nat (lq_problem r), cd_title = lq_title r\<rparr>)
      else None)"

lemma get_candidate_Inr:
  "get_verified_candidate_by_id p qid w = (Inr c, w') \<Longrightarrow> qid \<noteq> 0 \<and> question_by_id (w_ext w) p qid = Some c"
  by (auto simp: get_verified_candidate_by_id_def question_by_id_def svc_bind_Inr_iff wrap_err_Inr_iff ext_read_Inr_iff
      split: if_splits option.splits)

text \<open>What an item may be bound to: by a token, to the question the token names; by its title
  alone, to the only match; or to nothing, when there is no match.\<close>

definition bound_item :: "oj_ext \<Rightarrow> norm_item \<Rightarrow> valid_item \<Rightarrow> bool" where
  "bound_item x i v \<longleftrightarrow>
     (if ni_token i \<noteq> [] then
        (\<exists>t cl q. x_parse x (x_secret x) (trim_space (ni_token i)) t = Some cl \<and> c_platform cl = ni_platform i \<and>
           trim_space (c_title cl) = ni_title i \<and> question_by_id x (ni_platform i) (c_qid cl) = Some q \<and>
           v = build_resolved_item (ni_platform i) (ni_title i) q)
      else
        (\<exists>q. title_candidates x (ni_platform i) (ni_title i) = [q] \<and>
           v = build_resolved_item (ni_platform i) (ni_title i) q) \<or>
        (title_candidates x (ni_platform i) (ni_title i) = [] \<and> known_platform (ni_platform i) \<and>
           v = build_pending_item (ni_platform i) (ni_title i) awaiting_question_sync))"

lemma token_decode_Inr:
  "token_decode tok w = (Inr cl, w') \<Longrightarrow>
     w_ext w' = w_ext w \<and> (\<exists>t. x_parse (w_ext w) (x_secret (w_ext w)) (trim_space tok) t = Some cl)"
  by (auto simp: token_decode_def svc_bind_Inr_iff config_def now_def split: if_splits option.splits)

lemma materialize_item_Inr:
  assumes "materialize_item i w = (Inr v, w')"
  shows "bound_item (w_ext w) i v"
proof (cases "ni_token i = []")
  case True
  then obtain cs w1 where cs: "find_verified_title_candidates (ni_platform i) (ni_title i) w = (Inr cs, w1)"
    and r: "(case cs of [] \<Rightarrow> svc_return (build_pending_item (ni_platform i) (ni_title i) awaiting_question_sync)
           | [c] \<Rightarrow> svc_return (build_resolved_item (ni_platform i) (ni_title i) c)
           | _ \<Rightarrow> svc_throw (Biz CodeOJTaskQuestionAmbiguous)) w1 = (Inr v, w')"
    using assms by (auto simp: materialize_item_def svc_bind_Inr_iff)
  from find_candidates_Inr [OF cs] r True show ?thesis
    by (auto simp: bound_item_def split: list.splits)
next
  case False
  then obtain cl w1 where cl: "token_decode (ni_token i) w = (Inr cl, w1)"
    and g: "c_platform cl = ni_platform i" "trim_space (c_title cl) = ni_title i"
    and r: "resolve_question_by_id (ni_platform i) (ni_title i) (c_qid cl) w1 = (Inr v, w')"
    using assms by (auto simp: materialize_item_def svc_bind_Inr_iff wrap_err_Inr_iff normalize_oj_task_title_def split: if_splits)
  obtain q where q: "get_verified_candidate_by_id (ni_platform i) (c_qid cl) w1 = (Inr q, w')"
    "v = build_resolved_item (ni_platform i) (ni_title i) q"
    using r by (auto simp: resolve_question_by_id_def svc_bind_Inr_iff)
  from token_decode_Inr [OF cl] get_candidate_Inr [OF q(1)] q(2) g False show ?thesis
    by (auto simp: bound_item_def)
qed

definition numbered :: "nat \<Rightarrow> valid_item list \<Rightarrow> valid_item list" where
  "numbered n vs = number_rows (\<lambda>k v. v\<lparr>vi_sort := k\<rparr>) n vs"

lemma key_sort [simp]: "materialized_item_key (v\<lparr>vi_sort := n\<rparr>) = materialized_item_key v"
  by (simp add: materialized_item_key_def)

lemma keys_numbered: "map materialized_item_key (numbered n vs) = map materialized_item_key vs"
  by (simp add: numbered_def map_number_rows)

lemma sorts_numbered: "map vi_sort (numbered n vs) = [n ..< n + length vs]"
  by (simp add: numbered_def ids_number_rows)

lemma materialize_loop_Inr:
  "materialize_loop acc items w = (Inr rs, w') \<Longrightarrow>
     \<exists>vs. list_all2 (bound_item (w_ext w)) items vs \<and>
       rs = acc @ numbered (length acc + 1) (uniq_by materialized_item_key (map materialized_item_key acc) vs)"
proof (induction items arbitrary: acc w)
  case Nil
  then show ?case by (intro exI [of _ "[]"]) (auto simp: numbered_def)
next
  case (Cons i items)
  let ?key = materialized_item_key
  obtain v w1 where v: "materialize_item i w = (Inr v, w1)"
    and r: "(if ?key v \<in> set (map ?key acc) then materialize_loop acc items
       else materialize_loop (acc @ [v\<lparr>vi_sort := length acc + 1\<rparr>]) items) w1 = (Inr rs, w')"
    using Cons.prems by (auto simp: svc_bind_Inr_iff)
  have w1: "w_ext w1 = w_ext w" using stable_run [OF stable_materialize_item v] by simp
  note b = materialize_item_Inr [OF v]
  show ?case
  proof (cases "?key v \<in> set (map ?key acc)")
    case True
    with r have "materialize_loop acc items w1 = (Inr rs, w')" by simp
    from Cons.IH [OF this] obtain vs where
      "list_all2 (bound_item (w_ext w)) items vs" "rs = acc @ numbered (length acc + 1) (uniq_by ?key (map ?key acc) vs)"
      by (auto simp: w1)
    with True b show ?thesis by (intro exI [of _ "v # vs"]) simp
  next
    case False
    with r have "materialize_loop (acc @ [v\<lparr>vi_sort := length acc + 1\<rparr>]) items w1 = (Inr rs, w')" by simp
    from Cons.IH [OF this] obtain vs where vs:
      "list_all2 (bound_item (w_ext w)) items vs"
      "rs = (acc @ [v\<lparr>vi_sort := length acc + 1\<rparr>]) @
         numbered (length acc + 2) (uniq_by ?key (map ?key acc @ [?key v]) vs)"
      by (auto simp: w1)
    have "uniq_by ?key (map ?key acc @ [?key v]) vs = uniq_by ?key (?key v # map ?key acc) vs"
      by (rule uniq_by_seen_cong) auto
    with vs False b show ?thesis by (intro exI [of _ "v # vs"]) (simp add: numbered_def)
  qed
qed

lemma materialize_items_Inr:
  assumes "materialize_items items w = (Inr rs, w')"
  shows "\<exists>vs. list_all2 (bound_item (w_ext w)) items vs \<and> rs = numbered 1 (uniq_by materialized_item_key [] vs)"
    "rs \<noteq> []"
  using assms materialize_loop_Inr [of "[]" items w rs w']
  by (auto simp: materialize_items_def svc_bind_Inr_iff split: if_splits)

text \<open>The draft after materialisation, relative to the validated one.\<close>

definition materialized :: "oj_ext \<Rightarrow> norm_draft \<Rightarrow> valid_draft \<Rightarrow> bool" where
  "materialized x d md \<longleftrightarrow>
     vd_title md = nd_title d \<and> vd_desc md = nd_desc d \<and> vd_mode md = nd_mode d \<and> vd_exec_at md = nd_exec_at d \<and>
     vd_orgs md = nd_orgs d \<and> vd_items md \<noteq> [] \<and>
     (\<exists>vs. list_all2 (bound_item x) (nd_items d) vs \<and> vd_items md = numbered 1 (uniq_by materialized_item_key [] vs))"

lemma materialize_draft_Inr:
  "materialize_draft d w = (Inr md, w') \<Longrightarrow> materialized (w_ext w) d md"
  by (auto simp: materialize_draft_def svc_bind_Inr_iff materialized_def dest: materialize_items_Inr [simplified])

subsection \<open>Successful commands\<close>

text \<open>The new version of a command, with its rows, over the tables before it.\<close>

definition new_version ::
  "nat option \<Rightarrow> nat option \<Rightarrow> nat \<Rightarrow> nat \<Rightarrow> valid_draft \<Rightarrow> trigger_type \<Rightarrow> oj_db \<Rightarrow> create_resp \<Rightarrow> oj_db \<Rightarrow> bool" where
  "new_version root parent v op draft trig d r d' \<longleftrightarrow>
     (\<exists>t e os is' ks. created_version root parent v op draft trig d t e d' \<and>
        r = \<lparr>cr_task = t_id t, cr_exec = e_id e, cr_status = t_status t\<rparr> \<and>
        db_orgs d' = db_orgs d @ os \<and> db_items d' = db_items d @ is' \<and> db_intakes d' = db_intakes d @ ks \<and>
        draft_rows (t_id t) draft os is' ks)"

lemma create_version_new:
  assumes "create_task_version root parent v op draft trig w = (Inr r, w')" "keys_ok (w_db w)"
  shows "new_version root parent v op draft trig (w_db w) r (w_db w')"
  using create_version_effect [OF assms] create_version_rows [OF assms] unfolding new_version_def by fastforce

lemma create_task_Inr:
  assumes run: "create_task op req w = (Inr r, w')" and inv: "db_inv (w_db w)"
  shows "\<exists>d md. valid_request (w_ext w) (w_time w (w_step w)) req d \<and> materialized (w_ext w) d md \<and>
     (\<forall>oid \<in> set (dr_orgs req). may_operate (w_ext w) op oid capability_oj_task_manage) \<and>
     new_version None None 1 op md (resolve_execution_trigger (nd_mode d)) (w_db w) r (w_db w')"
proof -
  obtain d w1 u w2 where v: "validate_draft req w = (Inr d, w1)"
    and a: "authorize_manage_org_ids op (nd_orgs d) w1 = (Inr u, w2)"
    and tx: "in_tx (svc_bind (materialize_draft d) (\<lambda>md.
         create_task_version None None 1 op md (resolve_execution_trigger (nd_mode d)))) w2 = (Inr r, w')"
    using run unfolding create_task_def by (auto simp: svc_bind_Inr_iff)
  obtain md w3 w4 where m: "materialize_draft d w2 = (Inr md, w3)"
    and c: "create_task_version None None 1 op md (resolve_execution_trigger (nd_mode d)) w3 = (Inr r, w4)"
    and w4: "w_db w' = w_db w4"
    using in_tx_Inr [OF tx] by (auto simp: svc_bind_Inr_iff)
  have s: "w_db w1 = w_db w" "w_ext w1 = w_ext w" "w_db w2 = w_db w" "w_ext w2 = w_ext w" "w_db w3 = w_db w"
    using stable_run [OF stable_validate_draft v] stable_run [OF stable_authorize_manage a]
      stable_run [OF stable_materialize_draft m] by auto
  have "new_version None None 1 op md (resolve_execution_trigger (nd_mode d)) (w_db w) r (w_db w')"
    using create_version_new [OF c] inv by (simp add: s w4 db_inv_def)
  moreover have "set (nd_orgs d) = set (dr_orgs req)" "0 \<notin> set (dr_orgs req)"
    using validate_draft_Inr [OF v] uniq_by_keys [of "\<lambda>v. v" "[]" "dr_orgs req"]
    by (auto simp: valid_request_def known_org_def)
  ultimately show ?thesis
    using validate_draft_Inr [OF v] materialize_draft_Inr [OF m] authorize_manage_Inr [OF a] s by fastforce
qed

text \<open>The tables after \<open>ReviseTask\<close> and \<open>RetryTask\<close>: a version after the latest of the family.\<close>

definition next_version_of :: "oj_db \<Rightarrow> nat \<Rightarrow> nat \<Rightarrow> bool" where
  "next_version_of d r v \<longleftrightarrow>
     (\<exists>q \<in> set (db_tasks d). t_root q = Some r \<and> v = t_version q + 1) \<and>
     (\<forall>q \<in> set (db_tasks d). t_root q = Some r \<longrightarrow> t_version q < v)"

lemma next_version_of_Inr:
  assumes "next_version_no r w = (Inr v, w')" "q \<in> set (db_tasks (w_db w))" "t_root q = Some r"
  shows "next_version_of (w_db w) r v"
proof -
  have "v = (case latest_version r (db_tasks (w_db w)) of None \<Rightarrow> 1 | Some t \<Rightarrow> t_version t + 1)"
    using assms(1) by (auto simp: next_version_no_def svc_iffs wrap_err_Inr_iff repo_read_defs db_read_Inr_iff)
  moreover obtain t where t: "latest_version r (db_tasks (w_db w)) = Some t"
    using assms(2,3) latest_version_None_iff by (metis not_None_eq)
  ultimately have "v = t_version t + 1" by simp
  with latest_version_in [OF t] next_version_Inr(2) [OF assms(1)] show ?thesis
    unfolding next_version_of_def by blast
qed

lemma retry_task_Inr:
  assumes run: "retry_task op tid w = (Inr r, w')" and inv: "db_inv (w_db w)"
  shows "\<exists>src e v root. src \<in> set (db_tasks (w_db w)) \<and> t_id src = tid \<and> t_status src \<noteq> TDeleted \<and>
     e \<in> set (db_execs (w_db w)) \<and> e_task e = tid \<and> e_status e \<in> {ESucceeded, EFailed} \<and>
     t_root src = Some root \<and> next_version_of (w_db w) root v \<and>
     (\<forall>oid \<in> set (task_org_ids (orgs_by_task tid (db_orgs (w_db w)))). may_operate (w_ext w) op oid capability_oj_task_manage) \<and>
     new_version (Some root) (Some tid) v op
       (retry_draft src (task_org_ids (orgs_by_task tid (db_orgs (w_db w)))) (items_by_task tid (db_items (w_db w))))
       RetryTrigger (w_db w) r (w_db w')"
proof -
  obtain src ex orgs w1 where l: "load_task_with_execution tid w = (Inr (src, ex, orgs), w1)"
    and r1: "(if t_status src = TDeleted then svc_throw (Biz CodeOJTaskDeleted)
       else (case ex of
          None \<Rightarrow> svc_throw (Biz CodeOJTaskExecutionNotFound)
        | Some e \<Rightarrow>
            if e_status e \<noteq> ESucceeded \<and> e_status e \<noteq> EFailed then svc_throw (Biz CodeOJTaskNotEditable)
            else svc_bind (authorize_manage_org_ids op orgs) (\<lambda>_.
              svc_bind (db_err (items_list tid)) (\<lambda>items.
                in_tx (svc_bind (next_version_no (effective_root_task_id src)) (\<lambda>v.
                  create_task_version (Some (effective_root_task_id src)) (Some (t_id src)) v op
                    (retry_draft src orgs items) RetryTrigger)))))) w1 = (Inr r, w')"
    using run unfolding retry_task_def by (auto simp: svc_bind_Inr_iff [of "load_task_with_execution tid"])
  obtain e u w2 items w3 where ex: "ex = Some e" and st: "t_status src \<noteq> TDeleted" "e_status e \<in> {ESucceeded, EFailed}"
    and a: "authorize_manage_org_ids op orgs w1 = (Inr u, w2)"
    and i: "items_list tid w2 = (Inr items, w3)"
    and tx: "in_tx (svc_bind (next_version_no (effective_root_task_id src)) (\<lambda>v.
                  create_task_version (Some (effective_root_task_id src)) (Some (t_id src)) v op
                    (retry_draft src orgs items) RetryTrigger)) w3 = (Inr r, w')"
    using r1 by (auto simp: svc_bind_Inr_iff wrap_err_Inr_iff split: if_splits option.splits)
  obtain v w4 w5 where n: "next_version_no (effective_root_task_id src) w3 = (Inr v, w4)"
    and c: "create_task_version (Some (effective_root_task_id src)) (Some (t_id src)) v op (retry_draft src orgs items) RetryTrigger w4 = (Inr r, w5)"
    and w5: "w_db w' = w_db w5"
    using in_tx_Inr [OF tx] by (auto simp: svc_bind_Inr_iff)
  have s: "w_db w1 = w_db w" "w_ext w1 = w_ext w" "w_db w2 = w_db w" "w_db w3 = w_db w" "w_db w4 = w_db w"
    using stable_run [OF stable_load_task l] stable_run [OF stable_authorize_manage a]
      stable_run [OF stable_repo_reads(4) i] stable_run [OF stable_next_version n] by auto
  note L = load_task_Inr [OF l]
  have src: "src \<in> set (db_tasks (w_db w))" "t_id src = tid" using L(1) by (auto dest: row_get_set row_get_key)
  have e: "e \<in> set (db_execs (w_db w))" "e_task e = tid" using L(2) ex find_SomeD [of _ "db_execs (w_db w)" e] by auto
  have root: "t_root src = Some (effective_root_task_id src)" using effective_root [OF inv src(1)] by simp
  have it: "items = items_by_task tid (db_items (w_db w))" using i s by (simp add: items_list_def db_read_Inr_iff)
  have "0 \<notin> set orgs" by (auto simp: L(3) task_org_ids_def)
  then have auth: "\<forall>oid \<in> set orgs. may_operate (w_ext w) op oid capability_oj_task_manage"
    using authorize_manage_Inr [OF a] s by auto
  show ?thesis
    using src e st root auth create_version_new [OF c] next_version_of_Inr [OF n _ root] inv
    by (intro exI [of _ src] exI [of _ e] exI [of _ v] exI [of _ "effective_root_task_id src"])
      (simp add: s w5 db_inv_def it L(3))
qed

lemma revise_task_Inr:
  assumes run: "revise_task op tid req w = (Inr r, w')" and inv: "db_inv (w_db w)"
  shows "\<exists>src d md v root. src \<in> set (db_tasks (w_db w)) \<and> t_id src = tid \<and> t_status src \<noteq> TDeleted \<and>
     valid_request (w_ext w) (w_time w (w_step w)) req d \<and> materialized (w_ext w) d md \<and>
     t_root src = Some root \<and> next_version_of (w_db w) root v \<and>
     (\<forall>oid \<in> set (dr_orgs req) \<union> set (task_org_ids (orgs_by_task tid (db_orgs (w_db w)))).
        may_operate (w_ext w) op oid capability_oj_task_manage) \<and>
     new_version (Some root) (Some tid) v op md (resolve_execution_trigger (vd_mode md)) (w_db w) r (w_db w')"
proof -
  obtain d w0 src ex orgs w1 where vd: "validate_draft req w = (Inr d, w0)"
    and l: "load_task_with_execution tid w0 = (Inr (src, ex, orgs), w1)"
    and r1: "(if t_status src = TDeleted then svc_throw (Biz CodeOJTaskDeleted)
       else if ex = None then svc_throw (Biz CodeOJTaskExecutionNotFound)
       else svc_bind (authorize_manage_org_ids op (merge_uint_slices orgs (nd_orgs d))) (\<lambda>_.
         in_tx (svc_bind (materialize_draft d) (\<lambda>md.
           svc_bind (next_version_no (effective_root_task_id src)) (\<lambda>v.
             create_task_version (Some (effective_root_task_id src)) (Some (t_id src)) v op md
               (resolve_execution_trigger (vd_mode md))))))) w1 = (Inr r, w')"
    using run unfolding revise_task_def
    by (auto simp: svc_bind_Inr_iff [of "load_task_with_execution tid"] svc_bind_Inr_iff [of "validate_draft req"])
  obtain u w2 where st: "t_status src \<noteq> TDeleted"
    and a: "authorize_manage_org_ids op (merge_uint_slices orgs (nd_orgs d)) w1 = (Inr u, w2)"
    and tx: "in_tx (svc_bind (materialize_draft d) (\<lambda>md.
           svc_bind (next_version_no (effective_root_task_id src)) (\<lambda>v.
             create_task_version (Some (effective_root_task_id src)) (Some (t_id src)) v op md
               (resolve_execution_trigger (vd_mode md))))) w2 = (Inr r, w')"
    using r1 by (auto simp: svc_bind_Inr_iff [of "authorize_manage_org_ids _ _"] split: if_splits)
  obtain md w3 v w4 w5 where m: "materialize_draft d w2 = (Inr md, w3)"
    and n: "next_version_no (effective_root_task_id src) w3 = (Inr v, w4)"
    and c: "create_task_version (Some (effective_root_task_id src)) (Some (t_id src)) v op md
               (resolve_execution_trigger (vd_mode md)) w4 = (Inr r, w5)"
    and w5: "w_db w' = w_db w5"
    using in_tx_Inr [OF tx] by (auto simp: svc_bind_Inr_iff)
  have s: "w_db w0 = w_db w" "w_ext w0 = w_ext w" "w_db w1 = w_db w" "w_ext w1 = w_ext w" "w_db w2 = w_db w"
    "w_ext w2 = w_ext w" "w_db w3 = w_db w" "w_db w4 = w_db w"
    using stable_run [OF stable_validate_draft vd] stable_run [OF stable_load_task l] stable_run [OF stable_authorize_manage a]
      stable_run [OF stable_materialize_draft m] stable_run [OF stable_next_version n] by auto
  note L = load_task_Inr [OF l]
  have src: "src \<in> set (db_tasks (w_db w))" "t_id src = tid" using L(1) s by (auto dest: row_get_set row_get_key)
  have root: "t_root src = Some (effective_root_task_id src)" using effective_root [OF inv src(1)] by simp
  have V: "valid_request (w_ext w) (w_time w (w_step w)) req d" by (rule validate_draft_Inr [OF vd])
  have "set (nd_orgs d) = set (dr_orgs req)" "0 \<notin> set (dr_orgs req)"
    using V uniq_by_keys [of "\<lambda>v. v" "[]" "dr_orgs req"] by (auto simp: valid_request_def known_org_def)
  moreover have "0 \<notin> set orgs" by (auto simp: L(3) task_org_ids_def)
  ultimately have "\<forall>oid \<in> set (dr_orgs req) \<union> set orgs. may_operate (w_ext w) op oid capability_oj_task_manage"
    using authorize_manage_Inr [OF a] s by (auto simp: merge_uint_slices_def)
  then show ?thesis
    using src st root V materialize_draft_Inr [OF m] create_version_new [OF c] next_version_of_Inr [OF n _ root] inv
    by (intro exI [of _ src] exI [of _ d] exI [of _ md] exI [of _ v] exI [of _ "effective_root_task_id src"])
      (simp add: s w5 db_inv_def L(3))
qed

text \<open>The pair of rows a command on a scheduled version has in hand.\<close>

definition editable :: "oj_db \<Rightarrow> nat \<Rightarrow> oj_task \<Rightarrow> oj_exec \<Rightarrow> bool" where
  "editable d tid t e \<longleftrightarrow>
     t \<in> set (db_tasks d) \<and> t_id t = tid \<and> e \<in> set (db_execs d) \<and> e_task e = tid \<and>
     t_mode t = mode_scheduled \<and> t_status t = TScheduled \<and> e_status e = EScheduled"

definition operates_all :: "oj_ext \<Rightarrow> nat \<Rightarrow> nat list \<Rightarrow> bool" where
  "operates_all x op oids \<longleftrightarrow> (\<forall>oid \<in> set oids. may_operate x op oid capability_oj_task_manage)"

lemma editable_loaded:
  assumes "load_editable_scheduled_task tid w = (Inr (t, e, oids), w')" "db_inv (w_db w)"
  shows "editable (w_db w) tid t e"
  using loaded_editable [OF assms] by (simp add: editable_def)

lemma delete_task_Inr:
  assumes run: "delete_task op tid w = (Inr r, w')" and inv: "db_inv (w_db w)"
  shows "\<exists>t e n. editable (w_db w) tid t e \<and>
     operates_all (w_ext w) op (task_org_ids (orgs_by_task tid (db_orgs (w_db w)))) \<and>
     w_db w' = put_pair (t\<lparr>t_status := TDeleted, t_updated_by := op\<rparr>)
       (e\<lparr>e_status := ECancelled, e_finished := Some n, e_error := []\<rparr>) (w_db w)"
proof -
  obtain t e orgs w1 u1 w2 n w3 u3 w4 v where
    load: "load_editable_scheduled_task tid w = (Inr (t, e, orgs), w1)"
    and a: "authorize_manage_org_ids op orgs w1 = (Inr u1, w2)" and n: "now w2 = (Inr n, w3)"
    and tu: "task_update (t\<lparr>t_status := TDeleted, t_updated_by := op\<rparr>) w3 = (Inr u3, w4)"
    and eu: "exec_update (e\<lparr>e_status := ECancelled, e_finished := Some n, e_error := ''''\<rparr>) w4 = (Inr r, v)"
    and v: "w_db w' = w_db v"
    using in_tx_Inr [OF run [unfolded delete_task_def]] by (auto simp: svc_bind_Inr_iff wrap_err_Inr_iff)
  have w3: "w_db w3 = w_db w" "w_ext w1 = w_ext w"
    using stable_run [OF stable_load_editable load] stable_run [OF stable_authorize_manage a]
      stable_run [OF stable_env(1) n] by auto
  have "0 \<notin> set orgs" by (auto simp: load_editable_Inr(6) [OF load] task_org_ids_def)
  then show ?thesis
    using editable_loaded [OF load inv] authorize_manage_Inr [OF a] task_update_effect [OF tu] exec_update_effect [OF eu] w3 v
    by (intro exI [of _ t] exI [of _ e] exI [of _ n]) (auto simp: put_pair_def operates_all_def load_editable_Inr(6) [OF load])
qed

lemma execute_task_now_Inr:
  assumes run: "execute_task_now op tid w = (Inr r, w')" and inv: "db_inv (w_db w)"
  shows "\<exists>t e n o'. editable (w_db w) tid t e \<and>
     operates_all (w_ext w) op (task_org_ids (orgs_by_task tid (db_orgs (w_db w)))) \<and>
     ob_payload o' = trigger_payload (e_id e) tid \<and> ob_agg_id o' = show_nat (e_id e) \<and>
     ob_status o' = OPending \<and> ob_retry o' = 0 \<and>
     w_db w' = (put_pair (t\<lparr>t_status := TQueued, t_updated_by := op\<rparr>) (requeue_execution op n e) (w_db w))
       \<lparr>db_outbox := db_outbox (w_db w) @ [o']\<rparr> \<and>
     r = \<lparr>cr_task = tid, cr_exec = e_id e, cr_status = TQueued\<rparr>"
proof -
  obtain t e orgs w1 u1 w2 n w3 u3 w4 u4 w5 u5 v where
    load: "load_editable_scheduled_task tid w = (Inr (t, e, orgs), w1)"
    and a: "authorize_manage_org_ids op orgs w1 = (Inr u1, w2)" and n: "now w2 = (Inr n, w3)"
    and tu: "task_update (t\<lparr>t_status := TQueued, t_updated_by := op\<rparr>) w3 = (Inr u3, w4)"
    and eu: "exec_update (requeue_execution op n e) w4 = (Inr u4, w5)"
    and pub: "publish_queued_execution_trigger_in_tx (e_id e) (t_id t) w5 = (Inr u5, v)"
    and v: "w_db w' = w_db v" and r: "r = \<lparr>cr_task = t_id t, cr_exec = e_id e, cr_status = TQueued\<rparr>"
    using in_tx_Inr [OF run [unfolded execute_task_now_def]] by (auto simp: svc_bind_Inr_iff wrap_err_Inr_iff)
  have w3: "w_db w3 = w_db w" "w_ext w1 = w_ext w"
    using stable_run [OF stable_load_editable load] stable_run [OF stable_authorize_manage a]
      stable_run [OF stable_env(1) n] by auto
  note l = loaded_editable [OF load inv]
  have "0 < e_id e" "0 < t_id t" using inv l(1,3) by (auto simp: db_inv_defs)
  from publish_trigger_effect [OF pub this] obtain o' where
    o': "ob_payload o' = trigger_payload (e_id e) tid" "ob_agg_id o' = show_nat (e_id e)" "ob_status o' = OPending"
      "ob_retry o' = 0" "w_db v = (w_db w5)\<lparr>db_outbox := db_outbox (w_db w5) @ [o']\<rparr>"
    using l(2) by auto
  have "0 \<notin> set orgs" by (auto simp: load_editable_Inr(6) [OF load] task_org_ids_def)
  then show ?thesis
    using editable_loaded [OF load inv] authorize_manage_Inr [OF a] task_update_effect [OF tu] exec_update_effect [OF eu] w3 v o' r l(2)
    by (intro exI [of _ t] exI [of _ e] exI [of _ n] exI [of _ o'])
      (auto simp: put_pair_def operates_all_def load_editable_Inr(6) [OF load])
qed

lemma replace_rows_effects:
  "orgs_replace tid os w = (Inr a1, w1) \<Longrightarrow> w_db w1 = (w_db w)\<lparr>db_orgs := filter (\<lambda>r. to_task r \<noteq> tid) (db_orgs (w_db w)) @
     number_rows (\<lambda>k r. r\<lparr>to_id := k\<rparr>) (db_next (w_db w)) os, db_next := db_next (w_db w) + length os\<rparr>"
  "items_replace tid is' w = (Inr a2, w1) \<Longrightarrow> a2 = number_rows (\<lambda>k r. r\<lparr>i_id := k\<rparr>) (db_next (w_db w)) is' \<and>
     w_db w1 = (w_db w)\<lparr>db_items := filter (\<lambda>r. i_task r \<noteq> tid) (db_items (w_db w)) @ a2, db_next := db_next (w_db w) + length is'\<rparr>"
  "intakes_replace tid ks w = (Inr a3, w1) \<Longrightarrow> w_db w1 = (w_db w)\<lparr>db_intakes := filter (\<lambda>r. k_task r \<noteq> tid) (db_intakes (w_db w)) @
     number_rows (\<lambda>k r. r\<lparr>k_id := k\<rparr>) (db_next (w_db w)) ks, db_next := db_next (w_db w) + length ks\<rparr>"
  by (auto simp: orgs_replace_def items_replace_def intakes_replace_def svc_bind_Inr_iff db_write_def db_call_Inr_iff
      dest!: orgs_create_effect items_create_effect intakes_create_effect)

lemma update_task_Inr:
  assumes run: "update_task op tid req w = (Inr r, w')" and inv: "db_inv (w_db w)"
  shows "\<exists>t e d md at os is' ks. editable (w_db w) tid t e \<and>
     valid_request (w_ext w) (w_time w (w_step w)) req d \<and> materialized (w_ext w) d md \<and>
     dr_exec_at req = Some at \<and> w_time w (w_step w) < at \<and>
     operates_all (w_ext w) op (dr_orgs req @ task_org_ids (orgs_by_task tid (db_orgs (w_db w)))) \<and>
     draft_rows tid md os is' ks \<and>
     w_db w' = (put_pair (t\<lparr>t_title := vd_title md, t_desc := vd_desc md, t_exec_at := Some at, t_updated_by := op\<rparr>)
        (e\<lparr>e_planned := at, e_requested := op\<rparr>) (w_db w))
       \<lparr>db_orgs := filter (\<lambda>r. to_task r \<noteq> tid) (db_orgs (w_db w)) @ os,
        db_items := filter (\<lambda>r. i_task r \<noteq> tid) (db_items (w_db w)) @ is',
        db_intakes := filter (\<lambda>r. k_task r \<noteq> tid) (db_intakes (w_db w)) @ ks,
        db_next := db_next (w_db w')\<rparr>"
proof -
  obtain d w0 where vd: "validate_draft req w = (Inr d, w0)"
    and tx: "in_tx (svc_bind (load_editable_scheduled_task tid) (\<lambda>(task, e, orgs).
         svc_bind (authorize_manage_org_ids op (merge_uint_slices orgs (nd_orgs d))) (\<lambda>_.
           if nd_exec_at d = None then svc_throw (Biz CodeOJTaskExecuteAtInvalid)
           else svc_bind (materialize_draft d) (\<lambda>md.
             svc_bind (db_err (task_update
               (task\<lparr>t_title := vd_title md, t_desc := vd_desc md, t_exec_at := vd_exec_at md,
                     t_updated_by := op\<rparr>))) (\<lambda>_.
             svc_bind (db_err (orgs_replace (t_id task) (build_task_org_rows (t_id task) (vd_orgs md)))) (\<lambda>_.
             svc_bind (db_err (items_replace (t_id task) (build_task_item_rows (t_id task) (vd_items md)))) (\<lambda>items.
             svc_bind (db_err (intakes_replace (t_id task) (build_task_intake_rows (t_id task) items))) (\<lambda>_.
               db_err (exec_update
                 (e\<lparr>e_planned := the (vd_exec_at md), e_requested := op\<rparr>)))))))))) w0 = (Inr r, w')"
    using run unfolding update_task_def by (auto simp: svc_bind_Inr_iff [of "validate_draft req"])
  obtain t e orgs w1 u1 w2 md w3 u3 w4 u4 w5 its w6 u6 w7 v where
    load: "load_editable_scheduled_task tid w0 = (Inr (t, e, orgs), w1)"
    and a: "authorize_manage_org_ids op (merge_uint_slices orgs (nd_orgs d)) w1 = (Inr u1, w2)"
    and at: "nd_exec_at d \<noteq> None"
    and m: "materialize_draft d w2 = (Inr md, w3)"
    and tu: "task_update (t\<lparr>t_title := vd_title md, t_desc := vd_desc md, t_exec_at := vd_exec_at md,
               t_updated_by := op\<rparr>) w3 = (Inr u3, w4)"
    and r1: "orgs_replace (t_id t) (build_task_org_rows (t_id t) (vd_orgs md)) w4 = (Inr u4, w5)"
    and r2: "items_replace (t_id t) (build_task_item_rows (t_id t) (vd_items md)) w5 = (Inr its, w6)"
    and r3: "intakes_replace (t_id t) (build_task_intake_rows (t_id t) its) w6 = (Inr u6, w7)"
    and eu: "exec_update (e\<lparr>e_planned := the (vd_exec_at md), e_requested := op\<rparr>) w7 = (Inr r, v)"
    and v: "w_db w' = w_db v"
    using in_tx_Inr [OF tx] by (auto simp: svc_bind_Inr_iff wrap_err_Inr_iff split: if_splits)
  have s: "w_db w0 = w_db w" "w_ext w0 = w_ext w" "w_ext w1 = w_ext w" "w_ext w2 = w_ext w" "w_db w3 = w_db w"
    using stable_run [OF stable_validate_draft vd] stable_run [OF stable_load_editable load]
      stable_run [OF stable_authorize_manage a] stable_run [OF stable_materialize_draft m] by auto
  have V: "valid_request (w_ext w) (w_time w (w_step w)) req d" by (rule validate_draft_Inr [OF vd])
  have M: "materialized (w_ext w) d md" using materialize_draft_Inr [OF m] s by simp
  obtain a0 where a0: "dr_exec_at req = Some a0" "vd_exec_at md = Some a0" "w_time w (w_step w) < a0"
    using V M at by (auto simp: valid_request_def materialized_def)
  have tid: "t_id t = tid" using load_editable_Inr(1) [OF load] by (rule row_get_key)
  note R = replace_rows_effects(1) [OF r1] replace_rows_effects(2) [OF r2] replace_rows_effects(3) [OF r3]
  define os where "os = number_rows (\<lambda>k r. r\<lparr>to_id := k\<rparr>) (db_next (w_db w4)) (build_task_org_rows tid (vd_orgs md))"
  define ks where "ks = number_rows (\<lambda>k r. r\<lparr>k_id := k\<rparr>) (db_next (w_db w6)) (build_task_intake_rows tid its)"
  have rows: "draft_rows tid md os its ks"
    unfolding os_def ks_def
    by (rule draft_rows_built [where n = "db_next (w_db w5)"])
      (use R tid task_update_effect [OF tu] s inv in \<open>auto simp: db_inv_defs\<close>)
  have "0 \<notin> set orgs" "orgs = task_org_ids (orgs_by_task tid (db_orgs (w_db w)))"
    using load_editable_Inr(6) [OF load] s by (auto simp: task_org_ids_def)
  moreover have "set (nd_orgs d) = set (dr_orgs req)" "0 \<notin> set (dr_orgs req)"
    using V uniq_by_keys [of "\<lambda>v. v" "[]" "dr_orgs req"] by (auto simp: valid_request_def known_org_def)
  ultimately have auth: "operates_all (w_ext w) op (dr_orgs req @ task_org_ids (orgs_by_task tid (db_orgs (w_db w))))"
    using authorize_manage_Inr [OF a] s by (auto simp: operates_all_def merge_uint_slices_def)
  have "w_db w' = (put_pair (t\<lparr>t_title := vd_title md, t_desc := vd_desc md, t_exec_at := Some a0, t_updated_by := op\<rparr>)
        (e\<lparr>e_planned := a0, e_requested := op\<rparr>) (w_db w))
       \<lparr>db_orgs := filter (\<lambda>r. to_task r \<noteq> tid) (db_orgs (w_db w)) @ os,
        db_items := filter (\<lambda>r. i_task r \<noteq> tid) (db_items (w_db w)) @ its,
        db_intakes := filter (\<lambda>r. k_task r \<noteq> tid) (db_intakes (w_db w)) @ ks,
        db_next := db_next (w_db w')\<rparr>"
    using task_update_effect [OF tu] exec_update_effect [OF eu] R s v tid a0(2)
    by (auto simp: put_pair_def os_def ks_def)
  with editable_loaded [OF load] inv s V M a0 auth rows show ?thesis by metis
qed

end
