(* ===== verification/OJ_Attempts.thy ===== *)
theory OJ_Attempts
  imports OJ_Behaviour
begin

text \<open>
  Failing commands, and the outcomes of execution attempts: a command that returns an error
  leaves the tables as they were; an attempt on an execution that is not waiting does
  nothing; a successful attempt stores exactly the expected snapshot; a failed one leaves the
  execution failed, unless recording the failure fails too.
\<close>

subsection \<open>Commands are atomic\<close>

definition atomic :: "'a oj \<Rightarrow> bool" where
  "atomic m \<longleftrightarrow> (\<forall>w e w'. m w = (Inl e, w') \<longrightarrow> w_db w' = w_db w)"

lemma atomicD: "atomic m \<Longrightarrow> m w = (Inl e, w') \<Longrightarrow> w_db w' = w_db w"
  by (simp add: atomic_def)

named_theorems atomic_intro \<open>methods whose errors leave the tables unchanged\<close>

lemma atomic_stable_bind [atomic_intro]: "stable m \<Longrightarrow> (\<And>a. atomic (f a)) \<Longrightarrow> atomic (svc_bind m f)"
  by (auto simp: atomic_def svc_bind_Inl_iff dest: stable_run)

lemma atomic_in_tx [atomic_intro]: "atomic (in_tx m)"
  by (auto simp: atomic_def dest: in_tx_Inl)

lemma atomic_throw [atomic_intro]: "atomic (svc_throw e)"
  by (auto simp: atomic_def)

lemma atomic_if [atomic_intro]: "atomic m \<Longrightarrow> atomic n \<Longrightarrow> atomic (if b then m else n)"
  by simp

lemma atomic_case_option [atomic_intro]:
  "atomic m \<Longrightarrow> (\<And>x. atomic (f x)) \<Longrightarrow> atomic (case z of None \<Rightarrow> m | Some x \<Rightarrow> f x)"
  by (cases z) simp_all

lemma atomic_case_prod [atomic_intro]: "(\<And>x y. atomic (f x y)) \<Longrightarrow> atomic (case z of (x, y) \<Rightarrow> f x y)"
  by (cases z) simp

lemma atomic_commands:
  "atomic (create_task op req)" "atomic (update_task op tid req)" "atomic (delete_task op tid)"
  "atomic (execute_task_now op tid)" "atomic (revise_task op tid req)" "atomic (retry_task op tid)"
  "atomic (handle_question_upserted p t)"
  unfolding create_task_def update_task_def delete_task_def execute_task_now_def revise_task_def retry_task_def
    handle_question_upserted_def
  by (intro atomic_intro stable_intro)+

subsection \<open>Attempts always return\<close>

lemma attempt_total:
  "\<exists>a w'. fail_execution_attempt tid eid c w = (Inr a, w')"
  "\<exists>a w'. run_claimed_execution row w = (Inr a, w')"
  "\<exists>a w'. dispatch_single_execution row w = (Inr a, w')"
proof -
  have c: "\<exists>a w'. svc_catch m h k w = (Inr a, w')"
    if "\<And>e v. \<exists>a w'. h e v = (Inr a, w')" "\<And>x v. \<exists>a w'. k x v = (Inr a, w')"
    for m :: "'x oj" and h :: "go_err \<Rightarrow> attempt oj" and k :: "'x \<Rightarrow> attempt oj" and w
    using that by (auto simp: svc_catch_def split: prod.split sum.split)
  have f: "\<exists>a w'. fail_execution_attempt tid eid c w = (Inr a, w')" for tid eid c w
    unfolding fail_execution_attempt_def by (rule c) auto
  then show "\<exists>a w'. fail_execution_attempt tid eid c w = (Inr a, w')" .
  have r: "\<exists>a w'. run_loaded_execution row t e w = (Inr a, w')" for row t e w
    unfolding run_loaded_execution_def Let_def by (intro c f) auto
  have d: "\<exists>a w'. run_claimed_execution row w = (Inr a, w')" for row w
    unfolding run_claimed_execution_def by (intro c f) (auto simp: f r intro!: c split: option.split)
  then show "\<exists>a w'. run_claimed_execution row w = (Inr a, w')" .
  have n: "\<exists>a w'. svc_bind now f w = (Inr a, w')" if "\<And>x v. \<exists>a w'. f x v = (Inr a, w')" for f :: "int \<Rightarrow> attempt oj" and w
    using that by (auto simp: svc_bind_def now_def)
  have "\<exists>a w'. svc_catch acquire_execution_lock (\<lambda>e. svc_return (RetryableError e)) (\<lambda>contended.
        if contended then svc_return Noop
        else svc_bind now (\<lambda>t.
          svc_catch (db_err (exec_claim (r_exec row) dispatchable_statuses t))
            (\<lambda>e. svc_return (RetryableError e)) (\<lambda>claimed.
              if \<not> claimed then svc_return Noop else run_claimed_execution row))) w = (Inr a, w')"
    by (rule c) (auto intro!: n c simp: d)
  then show "\<exists>a w'. dispatch_single_execution row w = (Inr a, w')"
    unfolding dispatch_single_execution_def by auto
qed

subsection \<open>Executions that are not waiting\<close>

lemma claim_idle:
  assumes "\<And>e. e \<in> set (db_execs (w_db w)) \<Longrightarrow> e_id e = k \<Longrightarrow> e_status e \<notin> set sts"
    and "exec_claim k sts t w = (Inr a, w')"
  shows "\<not> a \<and> w_db w' = w_db w"
proof -
  have "\<not> claimable k sts e" if "e \<in> set (db_execs (w_db w))" for e
    using assms(1) that by (auto simp: claimable_def)
  then have "filter (claimable k sts) (db_execs (w_db w)) = []" "claim_rows k sts t (db_execs (w_db w)) = db_execs (w_db w)"
    by (auto simp: claim_rows_def filter_empty_conv intro: map_idI)
  with exec_claim_effect [OF assms(2)] show ?thesis by simp
qed

lemma dispatch_idle:
  assumes "\<And>e. e \<in> set (db_execs (w_db w)) \<Longrightarrow> e_id e = r_exec row \<Longrightarrow> e_status e \<notin> set dispatchable_statuses"
    and "dispatch_single_execution row w = (Inr a, w')"
  shows "w_db w' = w_db w \<and> (a = Noop \<or> (\<exists>er. a = RetryableError er))"
proof (cases "r_exec row = 0 \<or> r_task row = 0 \<or> \<not> is_dispatchable (r_status row)")
  case True
  with assms(2) show ?thesis unfolding dispatch_single_execution_def
    by (cases "r_exec row = 0 \<or> r_task row = 0") (simp_all del: neq0_conv)
next
  case False
  obtain q w1 where q: "acquire_execution_lock w = (q, w1)" by fastforce
  have w1: "w_db w1 = w_db w" using stable_run [OF stable_acquire q] by simp
  show ?thesis
  proof (cases q)
    case (Inl e) with False q w1 assms(2) show ?thesis
      by (auto simp: dispatch_single_execution_def svc_catch_def)
  next
    case (Inr contended)
    show ?thesis
    proof (cases contended)
      case True with False q w1 Inr assms(2) show ?thesis
        by (auto simp: dispatch_single_execution_def svc_catch_def)
    next
      case no: False
      obtain t w2 where n: "now w1 = (Inr t, w2)" by (auto simp: now_def)
      have w2: "w_db w2 = w_db w" using stable_run [OF stable_env(1) n] w1 by simp
      have run: "svc_catch (db_err (exec_claim (r_exec row) dispatchable_statuses t))
            (\<lambda>e. svc_return (RetryableError e)) (\<lambda>claimed.
              if \<not> claimed then svc_return Noop else run_claimed_execution row) w2 = (Inr a, w')"
        using False q Inr no n assms(2) by (auto simp: dispatch_single_execution_def svc_catch_def)
      then consider (err) e where "exec_claim (r_exec row) dispatchable_statuses t w2 = (Inl RawErr, w')" "a = RetryableError e"
        | (ok) c w3 where "exec_claim (r_exec row) dispatchable_statuses t w2 = (Inr c, w3)"
            "(if \<not> c then svc_return Noop else run_claimed_execution row) w3 = (Inr a, w')"
        by (auto simp: svc_catch_iff wrap_err_Inl_iff wrap_err_Inr_iff exec_claim_def db_call_Inl_iff)
      then show ?thesis
      proof cases
        case err then show ?thesis using w2 by (auto simp: exec_claim_def db_call_Inl_iff)
      next
        case ok
        have "\<not> c \<and> w_db w3 = w_db w2" by (rule claim_idle [OF _ ok(1)]) (use assms(1) w2 in auto)
        with ok w2 show ?thesis by auto
      qed
    qed
  qed
qed

subsection \<open>The rows a successful attempt stores\<close>

lemma eusers_create_effect:
  "eusers_create rows w = (Inr a, w') \<Longrightarrow>
     w_db w' = (w_db w)\<lparr>db_eusers := db_eusers (w_db w) @ number_rows (\<lambda>k r. r\<lparr>u_id := k\<rparr>) (db_next (w_db w)) rows,
                        db_next := db_next (w_db w) + length rows\<rparr>"
  by (auto simp: eusers_create_def db_write_def db_call_Inr_iff split: if_splits)

lemma euorgs_create_effect:
  "euorgs_create rows w = (Inr a, w') \<Longrightarrow>
     w_db w' = (w_db w)\<lparr>db_euorgs := db_euorgs (w_db w) @ number_rows (\<lambda>k r. r\<lparr>uo_id := k\<rparr>) (db_next (w_db w)) rows,
                        db_next := db_next (w_db w) + length rows\<rparr>"
  by (auto simp: euorgs_create_def db_write_def db_call_Inr_iff split: if_splits)

lemma euitems_create_effect:
  "euitems_create rows w = (Inr a, w') \<Longrightarrow>
     w_db w' = (w_db w)\<lparr>db_euitems := db_euitems (w_db w) @ number_rows (\<lambda>k r. r\<lparr>ui_id := k\<rparr>) (db_next (w_db w)) rows,
                        db_next := db_next (w_db w) + length rows\<rparr>"
  by (auto simp: euitems_create_def db_write_def db_call_Inr_iff split: if_splits)

lemma user_item_rows_Inr:
  "user_item_rows eid created ds = Inr rs \<Longrightarrow>
     map (\<lambda>r. (ui_user r, ui_item r, ui_result r, ui_reason r)) rs = map (\<lambda>d. (xd_user d, xd_item d, xd_result d, xd_reason d)) ds \<and>
     (\<forall>r \<in> set rs. ui_exec r = eid \<and> exec_user_id_of created (ui_user r) = Some (ui_euser r))"
  by (induction ds arbitrary: rs) (auto split: option.splits sum.splits)

lemma user_org_rows_Inr:
  "user_org_rows created ds = Inr rs \<Longrightarrow>
     map (\<lambda>r. (uo_org r, uo_name r)) rs = map (\<lambda>d. (od_org d, od_name d)) ds \<and>
     map (Some \<circ> uo_euser) rs = map (exec_user_id_of created \<circ> od_user) ds"
  by (induction ds arbitrary: rs) (auto split: option.splits sum.splits)

text \<open>The result rows of a snapshot, and that each hangs on the stored row of its user.\<close>

definition snapshot_stored :: "nat \<Rightarrow> snapshot \<Rightarrow> oj_db \<Rightarrow> oj_db \<Rightarrow> bool" where
  "snapshot_stored eid s d d' \<longleftrightarrow>
     (\<exists>us uos uis. db_eusers d' = db_eusers d @ us \<and> db_euorgs d' = db_euorgs d @ uos \<and> db_euitems d' = db_euitems d @ uis \<and>
        map (\<lambda>u. u\<lparr>u_id := 0\<rparr>) us = map (\<lambda>u. u\<lparr>u_id := 0\<rparr>) (sn_users s) \<and>
        map (\<lambda>r. (uo_org r, uo_name r)) uos = map (\<lambda>d. (od_org d, od_name d)) (sn_orgs s) \<and>
        map (\<lambda>r. (ui_user r, ui_item r, ui_result r, ui_reason r)) uis =
          map (\<lambda>d. (xd_user d, xd_item d, xd_result d, xd_reason d)) (sn_items s) \<and>
        (\<forall>r \<in> set uis. ui_exec r = eid \<and>
           (\<exists>u \<in> set (db_eusers d'). u_exec u = eid \<and> u_user u = ui_user r \<and> u_id u = ui_euser r)))"

lemma exec_user_id_of_SomeD: "exec_user_id_of created uid = Some k \<Longrightarrow> \<exists>u \<in> set created. u_user u = uid \<and> u_id u = k"
  by (auto simp: exec_user_id_of_def dest!: find_SomeD)

lemma number_rows_all: "(\<And>k r. g (f k r) = g r) \<Longrightarrow> \<forall>r \<in> set rs. P (g r) \<Longrightarrow> \<forall>x \<in> set (number_rows f n rs). P (g x)"
  by (induction rs arbitrary: n) auto

lemma persist_rows:
  assumes run: "persist_execution_snapshot t e s w = (Inr u, w')"
  shows "snapshot_stored (e_id e) s (w_db w) (w_db w')" "db_orgs (w_db w') = db_orgs (w_db w)"
    "db_items (w_db w') = db_items (w_db w)"
proof -
  obtain v where wv: "w_db w' = w_db v"
    and "svc_bind (db_err (eusers_create (sn_users s))) (\<lambda>_.
       svc_bind (db_err (eusers_list (e_id e))) (\<lambda>created.
       svc_bind (svc_lift (user_org_rows created (sn_orgs s))) (\<lambda>org_rows.
       svc_bind (db_err (euorgs_create org_rows)) (\<lambda>_.
       svc_bind (svc_lift (user_item_rows (e_id e) created (sn_items s))) (\<lambda>item_rows.
       svc_bind (db_err (euitems_create item_rows)) (\<lambda>_.
       svc_bind now (\<lambda>n.
       svc_bind (db_err (exec_update (finished_execution s n e))) (\<lambda>_.
         db_err (task_update (set_task_status TSucceeded (Some e) t)))))))))) w = (Inr u, v)"
    using in_tx_Inr [OF run [unfolded persist_execution_snapshot_def]] by blast
  then obtain u1 w1 created w2 orgs u3 w4 items u5 w6 n w7 u7 w8 where
    c1: "eusers_create (sn_users s) w = (Inr u1, w1)" and c2: "eusers_list (e_id e) w1 = (Inr created, w2)"
    and o': "user_org_rows created (sn_orgs s) = Inr orgs" and c3: "euorgs_create orgs w2 = (Inr u3, w4)"
    and i: "user_item_rows (e_id e) created (sn_items s) = Inr items" and c4: "euitems_create items w4 = (Inr u5, w6)"
    and n: "now w6 = (Inr n, w7)"
    and eu: "exec_update (finished_execution s n e) w7 = (Inr u7, w8)"
    and tu: "task_update (set_task_status TSucceeded (Some e) t) w8 = (Inr u, v)"
    by (auto simp: svc_bind_Inr_iff wrap_err_Inr_iff)
  have st: "w_db w2 = w_db w1" "w_db w7 = w_db w6"
    using stable_run [OF stable_repo_reads(11) c2] stable_run [OF stable_env(1) n] by auto
  note eff = eusers_create_effect [OF c1] euorgs_create_effect [OF c3] euitems_create_effect [OF c4]
    exec_update_effect [OF eu] task_update_effect [OF tu] st
  show "db_orgs (w_db w') = db_orgs (w_db w)" "db_items (w_db w') = db_items (w_db w)" using eff wv by auto
  have created: "created = sort_key u_user (filter (\<lambda>u. u_exec u = e_id e) (db_eusers (w_db w')))"
    using c2 eff wv by (simp add: eusers_list_def db_read_Inr_iff)
  define us where "us = number_rows (\<lambda>k r. r\<lparr>u_id := k\<rparr>) (db_next (w_db w)) (sn_users s)"
  define uos where "uos = number_rows (\<lambda>k r. r\<lparr>uo_id := k\<rparr>) (db_next (w_db w2)) orgs"
  define uis where "uis = number_rows (\<lambda>k r. r\<lparr>ui_id := k\<rparr>) (db_next (w_db w4)) items"
  have d': "db_eusers (w_db w') = db_eusers (w_db w) @ us" "db_euorgs (w_db w') = db_euorgs (w_db w) @ uos"
    "db_euitems (w_db w') = db_euitems (w_db w) @ uis"
    using eff wv by (simp_all add: us_def uos_def uis_def)
  have m1: "map (\<lambda>u. u\<lparr>u_id := 0\<rparr>) us = map (\<lambda>u. u\<lparr>u_id := 0\<rparr>) (sn_users s)"
    by (simp add: us_def map_number_rows)
  have m2: "map (\<lambda>r. (uo_org r, uo_name r)) uos = map (\<lambda>d. (od_org d, od_name d)) (sn_orgs s)"
    using user_org_rows_Inr [OF o'] by (simp add: uos_def map_number_rows)
  have m3: "map (\<lambda>r. (ui_user r, ui_item r, ui_result r, ui_reason r)) uis =
      map (\<lambda>d. (xd_user d, xd_item d, xd_result d, xd_reason d)) (sn_items s)"
    using user_item_rows_Inr [OF i] by (simp add: uis_def map_number_rows)
  let ?P = "\<lambda>(x, us', k). x = e_id e \<and> exec_user_id_of created us' = Some k"
  have "\<forall>r \<in> set uis. ?P (ui_exec r, ui_user r, ui_euser r)"
    unfolding uis_def
    by (rule number_rows_all [where g = "\<lambda>r. (ui_exec r, ui_user r, ui_euser r)" and P = ?P])
      (use user_item_rows_Inr [OF i] in auto)
  then have "\<forall>r \<in> set uis. ui_exec r = e_id e \<and>
      (\<exists>u \<in> set (db_eusers (w_db w')). u_exec u = e_id e \<and> u_user u = ui_user r \<and> u_id u = ui_euser r)"
  proof (intro ballI)
    fix r assume "r \<in> set uis"
    with \<open>\<forall>r \<in> set uis. ?P (ui_exec r, ui_user r, ui_euser r)\<close>
    have "ui_exec r = e_id e" "exec_user_id_of created (ui_user r) = Some (ui_euser r)" by auto
    moreover from exec_user_id_of_SomeD [OF this(2)]
    obtain u where "u \<in> set created" "u_user u = ui_user r" "u_id u = ui_euser r" by blast
    ultimately show "ui_exec r = e_id e \<and>
      (\<exists>u \<in> set (db_eusers (w_db w')). u_exec u = e_id e \<and> u_user u = ui_user r \<and> u_id u = ui_euser r)"
      by (auto simp: created)
  qed
  with d' m1 m2 m3 show "snapshot_stored (e_id e) s (w_db w) (w_db w')"
    unfolding snapshot_stored_def by blast
qed

subsection \<open>Successful attempts\<close>

lemma fail_outcome:
  "fail_execution_attempt tid eid c w = (Inr a, w') \<Longrightarrow>
     a = TerminalFailed c \<or> a = RetryableError (JoinErr c (Biz CodeDBError))"
  by (auto simp: fail_execution_attempt_def svc_catch_iff)

lemma run_loaded_executed:
  assumes "run_loaded_execution row t0 e w = (Inr Executed, w')"
  shows "\<exists>s w1 w2 w3. task_update (set_task_status TExecuting (Some e) t0) w = (Inr (), w1) \<and>
    preflight_check (t_id t0) w1 = (Inr (), w2) \<and>
    build_execution_snapshot (set_task_status TExecuting (Some e) t0) e w2 = (Inr s, w3) \<and>
    persist_execution_snapshot (set_task_status TExecuting (Some e) t0) e s w3 = (Inr (), w')"
proof -
  have no: "fail_execution_attempt tid eid c v \<noteq> (Inr Executed, v')" for tid eid c v v'
    using fail_outcome by fastforce
  from assms show ?thesis
    unfolding run_loaded_execution_def Let_def
    by (auto simp: svc_catch_iff wrap_err_Inr_iff no)
qed

lemma run_claimed_executed:
  assumes "run_claimed_execution row w = (Inr Executed, w')"
  shows "\<exists>t0 e w1 w2. task_get (r_task row) w = (Inr (Some t0), w1) \<and> exec_get (r_exec row) w1 = (Inr (Some e), w2) \<and>
    run_loaded_execution row t0 e w2 = (Inr Executed, w')"
proof -
  have no: "fail_execution_attempt tid eid c v \<noteq> (Inr Executed, v')" for tid eid c v v'
    using fail_outcome by fastforce
  from assms show ?thesis
    unfolding run_claimed_execution_def
    by (auto simp: svc_catch_iff wrap_err_Inr_iff no split: option.splits)
qed

lemma dispatch_claimed:
  assumes "dispatch_single_execution row w = (Inr a, w')" "a \<noteq> Noop" "\<And>e. a \<noteq> RetryableError e"
  shows "\<exists>t w1 w2. w_db w1 = w_db w \<and> w_ext w1 = w_ext w \<and>
    exec_claim (r_exec row) dispatchable_statuses t w1 = (Inr True, w2) \<and> run_claimed_execution row w2 = (Inr a, w')"
proof -
  have run: "svc_catch acquire_execution_lock (\<lambda>e. svc_return (RetryableError e)) (\<lambda>contended.
        if contended then svc_return Noop
        else svc_bind now (\<lambda>t.
          svc_catch (db_err (exec_claim (r_exec row) dispatchable_statuses t))
            (\<lambda>e. svc_return (RetryableError e)) (\<lambda>claimed.
              if \<not> claimed then svc_return Noop else run_claimed_execution row))) w = (Inr a, w')"
    using assms unfolding dispatch_single_execution_def by (auto split: if_splits)
  obtain w0 where l: "acquire_execution_lock w = (Inr False, w0)"
    and r0: "svc_bind now (\<lambda>t.
          svc_catch (db_err (exec_claim (r_exec row) dispatchable_statuses t))
            (\<lambda>e. svc_return (RetryableError e)) (\<lambda>claimed.
              if \<not> claimed then svc_return Noop else run_claimed_execution row)) w0 = (Inr a, w')"
    using run assms(2,3) by (auto simp: svc_catch_iff split: if_splits)
  obtain t w1 where n: "now w0 = (Inr t, w1)" by (auto simp: now_def)
  obtain w2 where "exec_claim (r_exec row) dispatchable_statuses t w1 = (Inr True, w2)"
    "run_claimed_execution row w2 = (Inr a, w')"
    using r0 n assms(2,3) by (auto simp: svc_catch_iff wrap_err_Inr_iff split: if_splits)
  moreover have "w_db w1 = w_db w" "w_ext w1 = w_ext w"
    using stable_run [OF stable_acquire l] stable_run [OF stable_env(1) n] by auto
  ultimately show ?thesis by blast
qed

definition result_tables :: "oj_db \<Rightarrow> exec_user list \<times> exec_user_org list \<times> exec_user_item list" where
  "result_tables d = (db_eusers d, db_euorgs d, db_euitems d)"

lemma keeps_success_in_tx: "keeps (\<lambda>w. I (w_db w)) m \<Longrightarrow> keeps (\<lambda>w. I (w_db w)) (in_tx m)"
  by (rule keeps_in_tx) (rule keepsD)

lemma stable_preflight_item [stable_intro]: "stable (preflight_task_item i k)"
  unfolding preflight_task_item_def by (intro stable_intro)

lemma preflight_keeps_results: "keeps (\<lambda>w. result_tables (w_db w) = X) (preflight_check tid)"
proof -
  let ?I = "\<lambda>w. result_tables (w_db w) = X"
  have wr: "keeps ?I (wrap_err c (db_write f))" if "\<And>d. result_tables (f d) = result_tables d" for c f
    using that by (auto intro!: keepsI simp: wrap_err_def svc_wrap_def db_write_def db_call_def split: prod.splits sum.splits if_splits)
  have upd: "keeps ?I (wrap_err c (item_update i))" "keeps ?I (wrap_err c (intake_update k))" for c i k
    unfolding item_update_def intake_update_def by (rule wr, simp add: result_tables_def)+
  have st: "keeps ?I m" if "stable m" for m :: "'a oj" using that by (rule keeps_stable)
  have step: "keeps ?I (preflight_step ks i)" for ks i
    unfolding preflight_step_def
    by (intro keeps_if keeps_bind keeps_return keeps_case_prod keeps_case_option upd st [OF stable_preflight_item])
  show ?thesis
    unfolding preflight_check_def
    by (intro keeps_bind keeps_if keeps_return keeps_success_in_tx keeps_iter step st stable_intro)
qed

lemma row_waiting:
  assumes "db_inv (w_db w)" "row_ok row (w_db w)" "exec_claim (r_exec row) dispatchable_statuses t w = (Inr True, w')"
  shows "\<exists>e \<in> set (db_execs (w_db w)). e_id e = r_exec row \<and> e_task e = r_task row \<and> is_dispatchable (e_status e)"
proof -
  obtain e where e: "e \<in> set (db_execs (w_db w))" "e_id e = r_exec row" "e_task e = r_task row"
    using assms(2) by (auto simp: row_ok_def)
  have d: "distinct (map e_id (db_execs (w_db w)))" using assms(1) by (auto simp: db_inv_defs)
  have "e_status e \<in> set dispatchable_statuses"
    using exec_claim_effect [OF assms(3)] claim_rows_unique(2) [OF d e(1,2)] by simp
  with e show ?thesis by (auto simp: is_dispatchable_iff)
qed

lemma claim_keeps_results: "exec_claim k sts t w = (Inr a, w') \<Longrightarrow> result_tables (w_db w') = result_tables (w_db w)"
  by (drule exec_claim_effect) (simp add: result_tables_def)

lemma executed_effect:
  assumes run: "dispatch_single_execution row w = (Inr Executed, w')" and inv: "db_inv (w_db w)" and ok: "row_ok row (w_db w)"
  defines "s \<equiv> expected_snapshot (w_ext w) (w_db w') (r_task row) (r_exec row)"
  shows "\<exists>e \<in> set (db_execs (w_db w)). \<exists>e' \<in> set (db_execs (w_db w')). \<exists>t' \<in> set (db_tasks (w_db w')).
     e_id e = r_exec row \<and> is_dispatchable (e_status e) \<and>
     e_id e' = r_exec row \<and> e_task e' = r_task row \<and> e_status e' = ESucceeded \<and>
     e_total_users e' = sn_total_users s \<and> e_done_users e' = sn_done_users s \<and> e_pend_users e' = sn_pend_users s \<and>
     e_total_items e' = sn_total_items s \<and> e_done_items e' = sn_done_items s \<and> e_pend_items e' = sn_pend_items s \<and>
     t_id t' = r_task row \<and> t_status t' = TSucceeded \<and> snapshot_stored (r_exec row) s (w_db w) (w_db w')"
proof -
  obtain t w1 w2 where w1: "w_db w1 = w_db w" "w_ext w1 = w_ext w"
    and cl: "exec_claim (r_exec row) dispatchable_statuses t w1 = (Inr True, w2)"
    and rc: "run_claimed_execution row w2 = (Inr Executed, w')"
    using dispatch_claimed [OF run] by auto
  have cl': "db_err (exec_claim (r_exec row) dispatchable_statuses t) w1 = (Inr True, w2)" using cl by (simp add: wrap_err_Inr_iff)
  have inv2: "db_inv (w_db w2)" using from_claim(1) inv ok cl' w1 unfolding preserves_from_def by metis
  have is2: "exec_is (r_task row) (r_exec row) EExecuting (w_db w2)"
    by (rule from_claim(2) [OF _ _ cl']) (use inv ok w1 in auto)
  have x2: "w_ext w2 = w_ext w" using exec_claim_effect [OF cl] w1 by simp
  obtain t0 e w3 w4 where tg: "task_get (r_task row) w2 = (Inr (Some t0), w3)"
    and eg: "exec_get (r_exec row) w3 = (Inr (Some e), w4)" and rl: "run_loaded_execution row t0 e w4 = (Inr Executed, w')"
    using run_claimed_executed [OF rc] by auto
  have w3: "w_db w3 = w_db w2" "w_ext w3 = w_ext w" using stable_run [OF stable_repo_reads(1) tg] x2 by auto
  have w4: "w_db w4 = w_db w2" "w_ext w4 = w_ext w" using stable_run [OF stable_repo_reads(7) eg] w3 by auto
  have t0: "t_id t0 = r_task row" using task_get_Inr [of w2 "r_task row" t0 w3] inv2 tg by (simp add: wrap_err_Inr_iff)
  have e: "e \<in> set (db_execs (w_db w2))" "e_id e = r_exec row" "e_task e = r_task row"
    using exec_get_Inr [of w3 "r_task row" "r_exec row" EExecuting e w4] inv2 is2 eg w3 by (simp_all add: wrap_err_Inr_iff)
  let ?task = "set_task_status TExecuting (Some e) t0"
  obtain sn w5 w6 w7 where tu: "task_update ?task w4 = (Inr (), w5)" and pf: "preflight_check (t_id t0) w5 = (Inr (), w6)"
    and bs: "build_execution_snapshot ?task e w6 = (Inr sn, w7)" and ps: "persist_execution_snapshot ?task e sn w7 = (Inr (), w')"
    using run_loaded_executed [OF rl] by blast
  have x5: "w_ext w5 = w_ext w" using task_update_effect [OF tu] w4 by simp
  have c6: "same_core (w_db w5) (w_db w6)" "w_ext w6 = w_ext w" using core_run [OF core_preflight pf] x5 by auto
  have w7: "w_db w7 = w_db w6" using stable_run [OF stable_build_snapshot bs] by simp
  obtain n where n: "db_execs (w_db w') = row_put e_id (finished_execution sn n e) (db_execs (w_db w7))"
    "db_tasks (w_db w') = row_put t_id (set_task_status TSucceeded (Some e) ?task) (db_tasks (w_db w7))"
    using persist_effect [OF ps] by blast
  note pr = persist_rows [OF ps]
  have same: "expected_snapshot x d tid eid = expected_snapshot x d2 tid eid"
    if "db_orgs d = db_orgs d2" "db_items d = db_items d2" for x d d2 tid eid
    using that by (simp add: expected_snapshot_def task_orgs_named_def)
  have "sn = expected_snapshot (w_ext w) (w_db w6) (r_task row) (r_exec row)"
    using build_snapshot_expected [OF bs] c6(2) t0 e(2) by simp
  also have "\<dots> = s" unfolding s_def by (rule same) (simp_all add: pr(2,3) w7)
  finally have sn: "sn = s" .
  have in_put: "q \<in> set (row_put key q rows)" for key :: "'r \<Rightarrow> nat" and q rows by (induction rows) auto
  have "result_tables (w_db w6) = result_tables (w_db w5)"
    using keepsD [OF preflight_keeps_results [of "result_tables (w_db w5)"] _ pf] by simp
  then have "result_tables (w_db w7) = result_tables (w_db w)"
    using w7 task_update_effect [OF tu] w4 claim_keeps_results [OF cl] w1 by (simp add: result_tables_def)
  then have "snapshot_stored (r_exec row) s (w_db w) (w_db w')"
    using pr(1) e sn by (simp add: snapshot_stored_def result_tables_def)
  moreover obtain e0 where "e0 \<in> set (db_execs (w_db w))" "e_id e0 = r_exec row" "is_dispatchable (e_status e0)"
    using row_waiting [OF _ _ cl] inv ok w1 by auto
  moreover have "finished_execution s n e \<in> set (db_execs (w_db w'))" "set_task_status TSucceeded (Some e) ?task \<in> set (db_tasks (w_db w'))"
    unfolding n sn by (rule in_put)+
  moreover have "e_id (finished_execution s n e) = r_exec row" "e_task (finished_execution s n e) = r_task row"
    using e by (simp_all add: finished_execution_def)
  moreover have "t_id (set_task_status TSucceeded (Some e) ?task) = r_task row" using t0 by simp
  ultimately show ?thesis
    by - (rule bexI [of _ e0], rule bexI [of _ "finished_execution s n e"],
      rule bexI [of _ "set_task_status TSucceeded (Some e) ?task"], simp_all add: finished_execution_def)
qed

subsection \<open>Failed attempts\<close>

text \<open>The rows a recorded failure leaves: the execution failed with the message, and the task failed.\<close>

definition recorded_failure :: "nat \<Rightarrow> nat \<Rightarrow> string \<Rightarrow> oj_db \<Rightarrow> bool" where
  "recorded_failure tid eid msg d \<longleftrightarrow>
     (\<exists>e \<in> set (db_execs d). e_id e = eid \<and> e_task e = tid \<and> e_status e = EFailed \<and> e_error e = msg \<and>
        e_started e \<noteq> None \<and> e_finished e \<noteq> None) \<and>
     (\<exists>t \<in> set (db_tasks d). t_id t = tid \<and> t_status t = TFailed)"

lemma in_row_put: "q \<in> set (row_put key q rows)"
  by (induction rows) auto

definition linked_rows :: "nat \<Rightarrow> nat \<Rightarrow> oj_db \<Rightarrow> bool" where
  "linked_rows tid eid d \<longleftrightarrow>
     (\<exists>e. row_get e_id (db_execs d) eid = Some e \<and> e_task e = tid) \<and> (\<exists>t. row_get t_id (db_tasks d) tid = Some t)"

lemma exec_is_linked_rows: "db_inv d \<Longrightarrow> exec_is tid eid st d \<Longrightarrow> linked_rows tid eid d"
  using exec_get_iff [of d eid] task_get_iff [of d tid]
  by (auto simp: exec_is_def linked_rows_def) (metis task_of_exec)

lemma mark_failed_effect:
  assumes run: "mark_execution_failed tid eid c w = (Inr u, w')" and ex: "linked_rows tid eid (w_db w)"
  shows "recorded_failure tid eid (failure_message (x_errtext (w_ext w)) c) (w_db w')"
proof -
  let ?msg = "failure_message (x_errtext (w_ext w)) c"
  obtain e t where ge: "row_get e_id (db_execs (w_db w)) eid = Some e" "e_task e = tid"
    and gt: "row_get t_id (db_tasks (w_db w)) tid = Some t" using ex by (auto simp: linked_rows_def)
  have ids: "e_id e = eid" "t_id t = tid" using row_get_key ge(1) gt by fastforce+
  have "svc_bind (exec_update (failed_execution ?msg (w_time w (w_step w)) e)) (\<lambda>_. svc_bind (task_get tid) (\<lambda>task.
       (case task of None \<Rightarrow> svc_return () | Some tk \<Rightarrow> task_update (set_task_status TFailed (Some e) tk)))) (tick (tick w)) = (Inr u, w')"
    using run ge unfolding mark_execution_failed_def
    by (auto simp: svc_bind_Inr_iff config_def now_def exec_get_def db_read_Inr_iff)
  then obtain w2 r w3 where eu: "exec_update (failed_execution ?msg (w_time w (w_step w)) e) (tick (tick w)) = (Inr (), w2)"
    and tg: "task_get tid w2 = (Inr r, w3)"
    and tu: "(case r of None \<Rightarrow> svc_return () | Some tk \<Rightarrow> task_update (set_task_status TFailed (Some e) tk)) w3 = (Inr u, w')"
    unfolding svc_bind_Inr_iff by auto
  note eu' = exec_update_effect [OF eu]
  have r: "r = Some t" "w_db w3 = w_db w2" using tg gt eu' by (auto simp: task_get_def db_read_Inr_iff)
  have tu': "task_update (set_task_status TFailed (Some e) t) w3 = (Inr u, w')" using tu r(1) by simp
  have "failed_execution ?msg (w_time w (w_step w)) e \<in> set (db_execs (w_db w'))"
    "set_task_status TFailed (Some e) t \<in> set (db_tasks (w_db w'))"
    using eu' task_update_effect [OF tu'] r(2) by (simp_all add: in_row_put)
  then show ?thesis
    unfolding recorded_failure_def using ids ge(2)
    by (intro conjI bexI [of _ "failed_execution ?msg (w_time w (w_step w)) e"] bexI [of _ "set_task_status TFailed (Some e) t"])
      (simp_all add: failed_execution_def split: option.split)
qed

lemma fail_attempt_failed:
  assumes "fail_execution_attempt tid eid c0 w = (Inr (TerminalFailed c), w')" "linked_rows tid eid (w_db w)"
  shows "recorded_failure tid eid (failure_message (x_errtext (w_ext w)) c) (w_db w')"
  using assms by (auto simp: fail_execution_attempt_def svc_catch_iff intro: mark_failed_effect)

lemma db_call_keeps_ext: "keeps (\<lambda>w. w_ext w = x) (db_call f)"
  by (rule keepsI) (auto simp: db_call_def split: if_splits prod.splits)

lemma persist_keeps_ext: "persist_execution_snapshot t e s w = (r, w') \<Longrightarrow> w_ext w' = w_ext w"
proof (erule keepsD [rotated 2])
  have "keeps (\<lambda>v. w_ext v = w_ext w) now" by (rule keepsI) (auto simp: now_def)
  then show "keeps (\<lambda>v. w_ext v = w_ext w) (persist_execution_snapshot t e s)"
    unfolding persist_execution_snapshot_def wrap_err_def eusers_create_def eusers_list_def euorgs_create_def
      euitems_create_def exec_update_def task_update_def db_write_def db_read_def
    by (intro in_tx_ext keeps_intro db_call_keeps_ext)
qed simp

lemma run_loaded_failed:
  assumes run: "run_loaded_execution row t0 e w = (Inr (TerminalFailed c), w')" and ids: "t_id t0 = r_task row" "e_id e = r_exec row"
  shows "\<exists>v c0. fail_execution_attempt (r_task row) (r_exec row) c0 v = (Inr (TerminalFailed c), w') \<and> w_ext v = w_ext w \<and>
    (w_db v = w_db w \<or> (\<exists>w1. task_update (set_task_status TExecuting (Some e) t0) w = (Inr (), w1) \<and> same_core (w_db w1) (w_db v)))"
proof -
  let ?task = "set_task_status TExecuting (Some e) t0"
  let ?fail = "fail_execution_attempt (r_task row) (r_exec row)"
  consider (a) er v where "db_err (task_update ?task) w = (Inl er, v)" "?fail er v = (Inr (TerminalFailed c), w')"
    | (b) w1 er v where "task_update ?task w = (Inr (), w1)" "preflight_check (t_id t0) w1 = (Inl er, v)" "?fail er v = (Inr (TerminalFailed c), w')"
    | (c) w1 u w2 er v where "task_update ?task w = (Inr (), w1)" "preflight_check (t_id t0) w1 = (Inr u, w2)"
        "build_execution_snapshot ?task e w2 = (Inl er, v)" "?fail er v = (Inr (TerminalFailed c), w')"
    | (d) w1 u w2 s w3 er v where "task_update ?task w = (Inr (), w1)" "preflight_check (t_id t0) w1 = (Inr u, w2)"
        "build_execution_snapshot ?task e w2 = (Inr s, w3)" "persist_execution_snapshot ?task e s w3 = (Inl er, v)"
        "?fail er v = (Inr (TerminalFailed c), w')"
    using run ids unfolding run_loaded_execution_def Let_def by (auto simp: svc_catch_iff wrap_err_Inr_iff)
  then show ?thesis
  proof cases
    case a
    then show ?thesis by (auto simp: wrap_err_Inl_iff task_update_def db_write_def db_call_Inl_iff)
  next
    case b
    then show ?thesis using core_run [OF core_preflight b(2)] task_update_effect [OF b(1)] by auto
  next
    case c
    then show ?thesis
      using core_run [OF core_preflight c(2)] task_update_effect [OF c(1)] stable_run [OF stable_build_snapshot c(3)] by auto
  next
    case d
    have "w_db v = w_db w2" "w_ext v = w_ext w"
      using persist_keeps_ext [OF d(4)] persist_error [OF d(4)] stable_run [OF stable_build_snapshot d(3)]
        core_run [OF core_preflight d(2)] task_update_effect [OF d(1)] by simp_all
    moreover have "same_core (w_db w1) (w_db w2)" using core_run [OF core_preflight d(2)] by simp
    ultimately show ?thesis using d(1,5) by metis
  qed
qed

lemma dispatch_failed:
  assumes run: "dispatch_single_execution row w = (Inr (TerminalFailed c), w')" and inv: "db_inv (w_db w)" and ok: "row_ok row (w_db w)"
  shows "recorded_failure (r_task row) (r_exec row) (failure_message (x_errtext (w_ext w)) c) (w_db w')"
proof -
  obtain t w1 w2 where w1: "w_db w1 = w_db w" "w_ext w1 = w_ext w"
    and cl: "exec_claim (r_exec row) dispatchable_statuses t w1 = (Inr True, w2)"
    and rc: "run_claimed_execution row w2 = (Inr (TerminalFailed c), w')"
    using dispatch_claimed [OF run] by auto
  have cl': "db_err (exec_claim (r_exec row) dispatchable_statuses t) w1 = (Inr True, w2)" using cl by (simp add: wrap_err_Inr_iff)
  have inv2: "db_inv (w_db w2)" using from_claim(1) inv ok cl' w1 unfolding preserves_from_def by metis
  have is2: "exec_is (r_task row) (r_exec row) EExecuting (w_db w2)"
    by (rule from_claim(2) [OF _ _ cl']) (use inv ok w1 in auto)
  note lk = exec_is_linked_rows [OF inv2 is2]
  have x2: "w_ext w2 = w_ext w" using exec_claim_effect [OF cl] w1 by simp
  let ?fail = "fail_execution_attempt (r_task row) (r_exec row)"
  consider (fail) c0 v where "?fail c0 v = (Inr (TerminalFailed c), w')" "w_db v = w_db w2" "w_ext v = w_ext w"
    | (go) t0 e w3 w4 where "task_get (r_task row) w2 = (Inr (Some t0), w3)" "exec_get (r_exec row) w3 = (Inr (Some e), w4)"
        "run_loaded_execution row t0 e w4 = (Inr (TerminalFailed c), w')"
    using rc x2 stable_run [OF stable_repo_reads(1)] stable_run [OF stable_repo_reads(7)] unfolding run_claimed_execution_def
    by (auto simp: svc_catch_iff wrap_err_Inr_iff wrap_err_Inl_iff split: option.splits)
  then show ?thesis
  proof cases
    case fail with fail_attempt_failed [OF fail(1)] lk show ?thesis by simp
  next
    case go
    have t0: "t_id t0 = r_task row" and e: "e_id e = r_exec row"
      using go(1,2) by (auto simp: task_get_def exec_get_def db_read_Inr_iff dest!: row_get_key [OF sym])
    have w4: "w_db w4 = w_db w2" "w_ext w4 = w_ext w"
      using stable_run [OF stable_repo_reads(7) go(2)] stable_run [OF stable_repo_reads(1) go(1)] x2 by auto
    obtain v c0 where f: "?fail c0 v = (Inr (TerminalFailed c), w')" "w_ext v = w_ext w4"
      and v: "w_db v = w_db w4 \<or> (\<exists>w1. task_update (set_task_status TExecuting (Some e) t0) w4 = (Inr (), w1) \<and> same_core (w_db w1) (w_db v))"
      using run_loaded_failed [OF go(3) t0 e] by blast
    have "linked_rows (r_task row) (r_exec row) (w_db v)"
      using v lk w4 t0 by (auto simp: linked_rows_def same_core_def task_tbl.get_put dest!: task_update_effect)
    with fail_attempt_failed [OF f(1)] f(2) w4 show ?thesis by simp
  qed
qed

subsection \<open>An attempt whose failure cannot be recorded\<close>

lemma redelivery_noop:
  assumes "db_inv (w_db w)" "e \<in> set (db_execs (w_db w))" "\<not> is_dispatchable (e_status e)" "\<not> w_fault w (w_step w)"
  shows "execute_execution_by_id (e_id e) w = (Inr (), tick w)"
proof -
  have "row_get e_id (db_execs (w_db w)) (e_id e) = Some e" using exec_get_iff [OF assms(1)] assms(2) by simp
  moreover have "0 < e_id e" using assms(1,2) by (auto simp: db_inv_defs)
  ultimately show ?thesis
    using assms(3,4)
    by (auto simp: execute_execution_by_id_def execute_single_execution_by_id_def exec_get_dispatch_def db_read_def db_call_def
        svc_catch_def svc_bind_def wrap_err_def svc_wrap_def dispatch_single_execution_def dispatch_row_of_def split: if_splits)
qed

lemma claimed_never_waits:
  assumes "db_inv (w_db w)" "exec_is (r_task row) (r_exec row) EExecuting (w_db w)" "run_claimed_execution row w = (r, w')"
  shows "db_inv (w_db w') \<and> (\<exists>e \<in> set (db_execs (w_db w')). e_id e = r_exec row \<and> \<not> is_dispatchable (e_status e))"
proof -
  have ev: "db_inv (w_db w')" "db_evolves (w_db w) (w_db w')" using from_run_claimed [of row] assms unfolding preserves_from_def by auto
  obtain e where e: "e \<in> set (db_execs (w_db w))" "e_id e = r_exec row" "e_status e = EExecuting" using assms(2) by (auto simp: exec_is_def)
  obtain e' where "e' \<in> set (db_execs (w_db w'))" "exec_evolves e e'" using ev(2) e(1) unfolding db_evolves_def by blast
  with e ev(1) show ?thesis by (intro conjI bexI [of _ e']) (auto simp: exec_evolves_def is_dispatchable_def split: exec_status.splits)
qed

end
