(* ===== verification/Demo_World.thy ===== *)
theory Demo_World
  imports OJ_Attempts
begin

text \<open>
  One concrete world on which the properties are exercised: an organisation with two active
  members and one former one, one verified question, an owner who asks for an immediate task
  with one known and one unknown title. The runs below are evaluated by the simplifier along
  the code; \<open>run_congs\<close> keeps it from looking into a continuation before the state that
  reaches it is known.
\<close>

subsection \<open>The world\<close>

definition demo_ext :: oj_ext where
  "demo_ext = \<lparr>x_str_eq = (\<lambda>a b. a = b),
     x_orgs = [\<lparr>og_id = 7, og_name = ''team'', og_owner = 1\<rparr>],
     x_members = [\<lparr>m_user = 1, m_org = 7, m_active = True\<rparr>, \<lparr>m_user = 2, m_org = 7, m_active = True\<rparr>,
                  \<lparr>m_user = 3, m_org = 7, m_active = False\<rparr>],
     x_users = [\<lparr>us_id = 1, us_uuid = ''u1'', us_name = ''ann'', us_avatar = '''', us_status = 1\<rparr>,
                \<lparr>us_id = 2, us_uuid = ''u2'', us_name = ''bob'', us_avatar = '''', us_status = 1\<rparr>],
     x_luogu = (\<lambda>t. if t = ''A+B'' then [\<lparr>lg_id = 5, lg_pid = ''P1001'', lg_title = ''A+B'', lg_status = 1\<rparr>] else []),
     x_luogu_id = (\<lambda>k. None), x_leetcode = (\<lambda>t. []), x_leetcode_id = (\<lambda>k. None),
     x_lanqiao = (\<lambda>t. []), x_lanqiao_id = (\<lambda>k. None),
     x_luogu_details = [\<lparr>d_id = 11, d_user = 1\<rparr>, \<lparr>d_id = 12, d_user = 2\<rparr>], x_leetcode_details = [], x_lanqiao_details = [],
     x_luogu_solved = [(11, 5)], x_leetcode_solved = [], x_lanqiao_solved = [],
     x_roles = (\<lambda>u. []), x_enforce = (\<lambda>s p a. Inr False), x_secret = ''k'',
     x_sign = (\<lambda>s c a b. Inl RawErr), x_parse = (\<lambda>s tok t. None), x_errtext = (\<lambda>e. ''failed''),
     x_topic = ''oj.exec'', x_trace = ('''', '''', '''', ''''), x_preflight = True, x_lock_on = False, x_batch = 10\<rparr>"

definition demo_world :: world where
  "demo_world = \<lparr>w_db = empty_db, w_ext = demo_ext, w_step = 0, w_fault = (\<lambda>n. False), w_time = (\<lambda>n. 1000 + int n),
     w_uuid = (\<lambda>n. ''ev''), w_lock = (\<lambda>n. LockTaken)\<rparr>"

definition demo_items :: "item_req list" where
  "demo_items = [\<lparr>q_platform = ''luogu'', q_title = '' A+B'', q_token = ''''\<rparr>, \<lparr>q_platform = ''luogu'', q_title = ''C'', q_token = ''''\<rparr>]"

definition demo_req :: draft_req where
  "demo_req = \<lparr>dr_title = ''week 1'', dr_desc = '''', dr_mode = ''immediate'', dr_exec_at = None, dr_orgs = [7], dr_items = demo_items\<rparr>"

definition demo_req_later :: draft_req where
  "demo_req_later = \<lparr>dr_title = ''week 2'', dr_desc = '''', dr_mode = ''scheduled'', dr_exec_at = Some 5000, dr_orgs = [7, 7], dr_items = demo_items\<rparr>"

lemma demo_world_simps [simp]:
  "w_db demo_world = empty_db" "w_ext demo_world = demo_ext" "w_step demo_world = 0" "w_fault demo_world n = False"
  "w_time demo_world n = 1000 + int n" "w_uuid demo_world n = ''ev''" "w_lock demo_world n = LockTaken"
  by (simp_all add: demo_world_def)

lemma demo_ext_simps [simp]:
  "x_orgs demo_ext = [\<lparr>og_id = 7, og_name = ''team'', og_owner = 1\<rparr>]"
  "x_luogu demo_ext t = (if t = ''A+B'' then [\<lparr>lg_id = 5, lg_pid = ''P1001'', lg_title = ''A+B'', lg_status = 1\<rparr>] else [])"
  "x_topic demo_ext = ''oj.exec''" "x_trace demo_ext = ('''', '''', '''', '''')"
  "x_members demo_ext = [\<lparr>m_user = 1, m_org = 7, m_active = True\<rparr>, \<lparr>m_user = 2, m_org = 7, m_active = True\<rparr>,
                  \<lparr>m_user = 3, m_org = 7, m_active = False\<rparr>]"
  "x_users demo_ext = [\<lparr>us_id = 1, us_uuid = ''u1'', us_name = ''ann'', us_avatar = '''', us_status = 1\<rparr>,
                \<lparr>us_id = 2, us_uuid = ''u2'', us_name = ''bob'', us_avatar = '''', us_status = 1\<rparr>]"
  "x_luogu_details demo_ext = [\<lparr>d_id = 11, d_user = 1\<rparr>, \<lparr>d_id = 12, d_user = 2\<rparr>]" "x_leetcode_details demo_ext = []" "x_lanqiao_details demo_ext = []"
  "x_luogu_solved demo_ext = [(11, 5)]" "x_leetcode_solved demo_ext = []" "x_lanqiao_solved demo_ext = []"
  "x_roles demo_ext u = []" "x_enforce demo_ext s p a = Inr False" "x_preflight demo_ext = True" "x_lock_on demo_ext = False" "x_batch demo_ext = 10"
  "x_errtext demo_ext e = ''failed''"
  by (simp_all add: demo_ext_def)

lemma demo_req_simps [simp]:
  "dr_title demo_req = ''week 1''" "dr_desc demo_req = ''''" "dr_mode demo_req = ''immediate''" "dr_exec_at demo_req = None"
  "dr_orgs demo_req = [7]" "dr_items demo_req = demo_items"
  "dr_title demo_req_later = ''week 2''" "dr_desc demo_req_later = ''''" "dr_mode demo_req_later = ''scheduled''" "dr_exec_at demo_req_later = Some 5000"
  "dr_orgs demo_req_later = [7, 7]" "dr_items demo_req_later = demo_items"
  by (simp_all add: demo_req_def demo_req_later_def)

subsection \<open>Evaluating runs\<close>

lemma svc_bind_cong: "w = w' \<Longrightarrow> svc_bind m f w = svc_bind m f w'" by simp
lemma svc_catch_cong: "w = w' \<Longrightarrow> svc_catch m h k w = svc_catch m h k w'" by simp
lemma svc_wrap_cong: "w = w' \<Longrightarrow> svc_wrap g m w = svc_wrap g m w'" by simp
lemma wrap_err_cong: "w = w' \<Longrightarrow> wrap_err g m w = wrap_err g m w'" by simp
lemma in_tx_cong: "w = w' \<Longrightarrow> in_tx m w = in_tx m w'" by simp
lemma svc_iter_cong: "xs = xs' \<Longrightarrow> w = w' \<Longrightarrow> svc_iter m xs w = svc_iter m xs' w'" by simp
lemma db_call_cong: "w = w' \<Longrightarrow> db_call f w = db_call f w'" by simp
lemma let_weak_cong: "a = b \<Longrightarrow> Let a f = Let b f" by simp
lemma case_prod_weak_cong: "a = b \<Longrightarrow> case_prod f a = case_prod f b" by simp
lemma case_sum_weak_cong: "a = b \<Longrightarrow> case_sum f g a = case_sum f g b" by simp
lemma case_option_weak_cong: "a = b \<Longrightarrow> case_option f g a = case_option f g b" by simp
lemma case_list_weak_cong: "a = b \<Longrightarrow> case_list f g a = case_list f g b" by simp

lemmas run_congs = svc_bind_cong svc_catch_cong svc_wrap_cong wrap_err_cong in_tx_cong svc_iter_cong db_call_cong
  let_weak_cong case_prod_weak_cong case_sum_weak_cong case_option_weak_cong case_list_weak_cong

lemmas run_defs = svc_bind_def svc_catch_def svc_wrap_def svc_lift_def wrap_err_def in_tx_def db_call_def db_read_def
  db_write_def ext_read_def config_def now_def new_uuid_def tick_def Let_def

lemmas string_defs = mode_defs platform_defs trim_space_def is_space_def capability_oj_task_manage_def input_mode_title_def
  awaiting_question_sync_def source_verified_def

lemmas draft_defs = validate_draft_def validate_org_ids_def validate_items_def normalize_execute_at_def is_valid_oj_task_mode_def
  org_get_def normalize_oj_task_title_def authorize_manage_org_ids_def normalize_uint_slice_def authorization_defs
  materialize_draft_def materialize_items_def materialize_item_def find_verified_title_candidates_def find_exact_title_candidates_def
  map_luogu_candidates_def deduplicate_analyze_candidates_def candidate_key_def build_resolved_item_def build_pending_item_def
  materialized_item_key_def demo_items_def

lemmas version_defs = resolve_execution_trigger_def create_task_version_def build_task_org_rows_def build_task_item_rows_def
  build_task_intake_rows_def new_execution_def publish_queued_execution_trigger_in_tx_def publish_trigger_in_tx_def
  build_trigger_event_def

lemmas repo_defs = repo_write_defs repo_read_defs outbox_create_def

lemma show_small: "n < 10 \<Longrightarrow> show_nat n = [digit_char n]" by (simp add: show_nat.simps)
lemma show_big: "\<not> n < 10 \<Longrightarrow> show_nat n = show_nat (n div 10) @ [digit_char (n mod 10)]" by (subst show_nat.simps) simp
lemma digit_chars: "digit_char 0 = CHR ''0''" "digit_char 1 = CHR ''1''" "digit_char (Suc 0) = CHR ''1''" "digit_char 2 = CHR ''2''"
  "digit_char 3 = CHR ''3''" "digit_char 4 = CHR ''4''" "digit_char 5 = CHR ''5''" "digit_char 6 = CHR ''6''" "digit_char 7 = CHR ''7''"
  "digit_char 8 = CHR ''8''" "digit_char 9 = CHR ''9''"
  by code_simp+

lemmas show_simps = show_small show_big digit_chars
lemmas run_simps = run_defs string_defs draft_defs version_defs repo_defs show_simps One_nat_def [symmetric]

definition demo_item :: "nat \<Rightarrow> oj_item" where
  "demo_item k = \<lparr>i_id = k, i_task = 1, i_sort = 1, i_platform = ''luogu'', i_title = ''A+B'', i_mode = ''title'', i_qid = 5,
     i_qcode = ''P1001'', i_qtitle = ''A+B'', i_res = ResResolved, i_note = ''''\<rparr>"

definition demo_open_item :: oj_item where
  "demo_open_item = \<lparr>i_id = 4, i_task = 1, i_sort = 2, i_platform = ''luogu'', i_title = ''C'', i_mode = ''title'', i_qid = 0,
     i_qcode = '''', i_qtitle = '''', i_res = ResPending, i_note = ''awaiting_question_sync''\<rparr>"

definition demo_task :: "string \<Rightarrow> string \<Rightarrow> task_status \<Rightarrow> int option \<Rightarrow> oj_task" where
  "demo_task title mode st at = \<lparr>t_id = 1, t_root = Some 1, t_parent = None, t_version = 1, t_title = title, t_desc = '''', t_mode = mode,
     t_status = st, t_exec_at = at, t_created_by = 1, t_updated_by = 1\<rparr>"

definition demo_exec :: "trigger_type \<Rightarrow> int \<Rightarrow> exec_status \<Rightarrow> oj_exec" where
  "demo_exec tr at st = \<lparr>e_id = 6, e_task = 1, e_trigger = tr, e_planned = at, e_started = None, e_finished = None, e_requested = 1,
     e_status = st, e_error = '''', e_total_users = 0, e_done_users = 0, e_pend_users = 0, e_total_items = 0, e_done_items = 0, e_pend_items = 0\<rparr>"

definition demo_trigger :: "int \<Rightarrow> outbox_event" where
  "demo_trigger t = \<lparr>ob_event_id = ''ev'', ob_type = ''oj.exec'', ob_agg_id = ''6'', ob_agg_type = ''oj_task_execution'',
     ob_payload = trigger_payload 6 1, ob_trace_id = '''', ob_request_id = '''', ob_traceparent = '''', ob_tracestate = '''',
     ob_status = OPending, ob_retry = 0, ob_error = '''', ob_published_at = None, ob_created_at = t, ob_updated_at = t\<rparr>"

definition demo_db :: "oj_task \<Rightarrow> oj_exec \<Rightarrow> outbox_event list \<Rightarrow> oj_db" where
  "demo_db t e ob = \<lparr>db_tasks = [t], db_orgs = [\<lparr>to_id = 2, to_task = 1, to_org = 7\<rparr>], db_items = [demo_item 3, demo_open_item],
     db_intakes = [\<lparr>k_id = 5, k_task = 1, k_item = 4, k_platform = ''luogu'', k_title = ''C'', k_status = ResPending, k_qid = 0,
       k_note = ''awaiting_question_sync''\<rparr>],
     db_execs = [e], db_eusers = [], db_euorgs = [], db_euitems = [], db_outbox = ob, db_next = 7\<rparr>"

text \<open>After creating the immediate task, and after creating the scheduled one.\<close>

definition queued_db :: oj_db where
  "queued_db = demo_db (demo_task ''week 1'' ''immediate'' TQueued None) (demo_exec CreateImmediate 1005 EQueued) [demo_trigger 1013]"

definition scheduled_db :: oj_db where
  "scheduled_db = demo_db (demo_task ''week 2'' ''scheduled'' TScheduled (Some 5000)) (demo_exec ScheduleDue 5000 EScheduled) []"

lemmas demo_db_defs = demo_item_def demo_open_item_def demo_task_def demo_exec_def demo_trigger_def demo_db_def queued_db_def scheduled_db_def

definition world_at :: "nat \<Rightarrow> oj_db \<Rightarrow> world" where
  "world_at n d = demo_world\<lparr>w_db := d, w_step := n\<rparr>"

lemma world_at_simps [simp]:
  "w_db (world_at n d) = d" "w_ext (world_at n d) = demo_ext" "w_step (world_at n d) = n" "w_fault (world_at n d) k = False"
  "w_time (world_at n d) k = 1000 + int k" "w_uuid (world_at n d) k = ''ev''" "w_lock (world_at n d) k = LockTaken"
  by (simp_all add: world_at_def)

subsection \<open>Runs\<close>

lemma run_create: "create_task 1 demo_req demo_world =
    (Inr \<lparr>cr_task = 1, cr_exec = 6, cr_status = TQueued\<rparr>, world_at 16 queued_db)"
  by (simp add: create_task_def run_simps empty_db_def demo_db_defs world_at_def cong: run_congs del: One_nat_def)

lemma run_create_later: "create_task 1 demo_req_later demo_world =
    (Inr \<lparr>cr_task = 1, cr_exec = 6, cr_status = TScheduled\<rparr>, world_at 13 scheduled_db)"
  by (simp add: create_task_def run_simps empty_db_def demo_db_defs world_at_def cong: run_congs del: One_nat_def)

lemma demo_inv: "db_inv queued_db" "db_inv scheduled_db"
  by (simp_all add: db_inv_defs demo_db_defs pair_ok_defs terminal_def mode_defs)

lemma demo_world_reachable: "oj_reachable demo_world"
  unfolding oj_reachable_def by (rule exI [of _ demo_world]) simp

lemma demo_reachable: "oj_reachable (world_at 16 queued_db)" "oj_reachable (world_at 13 scheduled_db)"
  using step_create [OF run_create] step_create [OF run_create_later] demo_world_simps(1)
  unfolding oj_reachable_def by blast+

lemmas dispatch_defs = execute_execution_by_id_def execute_single_execution_by_id_def dispatch_single_execution_def dispatch_row_of_def
  is_dispatchable_def dispatchable_statuses_def acquire_execution_lock_def claimable_def claim_rows_def run_claimed_execution_def
  run_loaded_execution_def preflight_check_def preflight_step_def preflight_task_item_def intake_of_def invalidate_intake_def
  note_resolution_failed_def items_by_task_def orgs_by_task_def apply_resolved_candidate_to_task_item_def set_task_status_def

lemmas snapshot_defs = build_execution_snapshot_def load_luogu_execution_facts_def load_leetcode_execution_facts_def
  load_lanqiao_execution_facts_def load_facts_def detail_of_def platform_result_def resolve_oj_task_item_result_def empty_snapshot_def
  snapshot_user_step_def org_name_of_def active_pairs_def list_active_user_org_pairs_def users_by_ids_def user_of_def
  normalize_uint_slice_def exec_user_id_of_def finished_execution_def persist_execution_snapshot_def wrap_int8_def

lemmas failure_defs = mark_execution_failed_def fail_execution_attempt_def failed_execution_def failure_message_def

definition demo_row :: dispatch_row where
  "demo_row = \<lparr>r_exec = 6, r_task = 1, r_status = EQueued, r_planned = 1005\<rparr>"

definition executed_db :: oj_db where
  "executed_db = queued_db\<lparr>db_tasks := [demo_task ''week 1'' ''immediate'' TSucceeded None],
     db_items := [demo_item 3, demo_open_item\<lparr>i_res := ResInvalid, i_note := ''preflight_resolution_failed''\<rparr>],
     db_intakes := [\<lparr>k_id = 5, k_task = 1, k_item = 4, k_platform = ''luogu'', k_title = ''C'', k_status = ResInvalid, k_qid = 0,
       k_note = ''preflight_resolution_failed''\<rparr>],
     db_execs := [(demo_exec CreateImmediate 1005 ESucceeded)\<lparr>e_started := Some 1016, e_finished := Some 1039, e_total_users := 2,
       e_done_users := 0, e_pend_users := 2, e_total_items := 4, e_done_items := 1, e_pend_items := 3\<rparr>],
     db_eusers := [\<lparr>u_id = 7, u_exec = 6, u_user = 1, u_uuid = ''u1'', u_name = ''ann'', u_avatar = '''', u_status = 1, u_done = 1,
         u_pend = 1, u_all = False\<rparr>,
       \<lparr>u_id = 8, u_exec = 6, u_user = 2, u_uuid = ''u2'', u_name = ''bob'', u_avatar = '''', u_status = 1, u_done = 0, u_pend = 2,
         u_all = False\<rparr>],
     db_euorgs := [\<lparr>uo_id = 9, uo_euser = 7, uo_org = 7, uo_name = ''team''\<rparr>, \<lparr>uo_id = 10, uo_euser = 8, uo_org = 7, uo_name = ''team''\<rparr>],
     db_euitems := [\<lparr>ui_id = 11, ui_exec = 6, ui_user = 1, ui_euser = 7, ui_item = 3, ui_result = RCompleted, ui_reason = NoReason\<rparr>,
       \<lparr>ui_id = 12, ui_exec = 6, ui_user = 1, ui_euser = 7, ui_item = 4, ui_result = RPending, ui_reason = QuestionNotFound\<rparr>,
       \<lparr>ui_id = 13, ui_exec = 6, ui_user = 2, ui_euser = 8, ui_item = 3, ui_result = RPending, ui_reason = Unsolved\<rparr>,
       \<lparr>ui_id = 14, ui_exec = 6, ui_user = 2, ui_euser = 8, ui_item = 4, ui_result = RPending, ui_reason = QuestionNotFound\<rparr>],
     db_next := 15\<rparr>"

lemma run_dispatch: "dispatch_single_execution demo_row (world_at 16 queued_db) = (Inr Executed, world_at 43 executed_db)"
  by (simp add: run_simps demo_db_defs executed_db_def demo_row_def dispatch_defs snapshot_defs world_at_def
      cong: run_congs del: One_nat_def)

lemma executed_inv: "db_inv executed_db"
  by (simp add: db_inv_defs executed_db_def demo_db_defs pair_ok_defs terminal_def)

text \<open>A world in which the database calls of the steps \<open>ks\<close> fail.\<close>

definition faulty_at :: "nat set \<Rightarrow> nat \<Rightarrow> oj_db \<Rightarrow> world" where
  "faulty_at ks n d = (world_at n d)\<lparr>w_fault := (\<lambda>k. k \<in> ks)\<rparr>"

lemma faulty_at_simps [simp]: "w_db (faulty_at ks n d) = d" "w_ext (faulty_at ks n d) = demo_ext" "w_step (faulty_at ks n d) = n"
  by (simp_all add: faulty_at_def)

lemma run_failed: "fst (dispatch_single_execution demo_row (faulty_at {23} 16 queued_db)) = Inr (TerminalFailed (Biz CodeDBError))"
  by (simp add: run_simps demo_db_defs demo_row_def dispatch_defs snapshot_defs failure_defs faulty_at_def world_at_def
      cong: run_congs del: One_nat_def)

lemma run_delete: "fst (delete_task 1 1 (world_at 13 scheduled_db)) = Inr ()"
  by (simp add: delete_task_def load_editable_scheduled_task_def task_org_ids_def run_simps demo_db_defs dispatch_defs world_at_def
      cong: run_congs del: One_nat_def)

lemma run_execute_now: "fst (execute_task_now 1 1 (world_at 13 scheduled_db)) = Inr \<lparr>cr_task = 1, cr_exec = 6, cr_status = TQueued\<rparr>"
  by (simp add: execute_task_now_def load_editable_scheduled_task_def task_org_ids_def requeue_execution_def run_simps demo_db_defs
      dispatch_defs world_at_def cong: run_congs del: One_nat_def)

lemma run_update: "fst (update_task 1 1 demo_req_later (world_at 13 scheduled_db)) = Inr ()"
  by (simp add: update_task_def load_editable_scheduled_task_def task_org_ids_def merge_uint_slices_def run_simps demo_db_defs
      dispatch_defs world_at_def cong: run_congs del: One_nat_def)

lemmas derive_defs = load_task_with_execution_def effective_root_task_id_def next_version_no_def latest_version_def
  task_org_ids_def merge_uint_slices_def retry_draft_def task_items_to_validated_def item_to_valid_def valid_item_order_def

lemma run_revise: "fst (revise_task 1 1 demo_req (world_at 13 scheduled_db)) = Inr \<lparr>cr_task = 7, cr_exec = 12, cr_status = TQueued\<rparr>"
  by (simp add: revise_task_def derive_defs run_simps demo_db_defs dispatch_defs world_at_def cong: run_congs del: One_nat_def)

lemma run_retry: "fst (retry_task 1 1 (world_at 43 executed_db)) = Inr \<lparr>cr_task = 15, cr_exec = 19, cr_status = TQueued\<rparr>"
  by (simp add: retry_task_def derive_defs run_simps executed_db_def demo_db_defs dispatch_defs world_at_def
      cong: run_congs del: One_nat_def)

text \<open>The world after the trigger of \<open>queued_db\<close> was delivered.\<close>

lemma run_trigger: "execute_execution_by_id 6 (world_at 15 queued_db) = (Inr (), world_at 43 executed_db)"
  by (simp add: run_simps demo_db_defs executed_db_def demo_row_def dispatch_defs snapshot_defs world_at_def
      cong: run_congs del: One_nat_def)

lemma executed_reachable: "oj_reachable (world_at 43 executed_db)"
proof -
  have "oj_reachable (world_at 15 queued_db)"
    by (rule oj_reachable_step [OF demo_reachable(1)], rule step_environment) simp
  then show ?thesis by (rule oj_reachable_step) (rule step_trigger [OF run_trigger])
qed

lemma run_pair: "fst (m w) = r \<Longrightarrow> m w = (r, snd (m w))"
  by (cases "m w") simp


text \<open>An execution that has been claimed; loading its task fails, and so does recording that.\<close>

definition executing_db :: oj_db where
  "executing_db = demo_db (demo_task ''week 1'' ''immediate'' TQueued None)
     ((demo_exec CreateImmediate 1005 EExecuting)\<lparr>e_started := Some 1016\<rparr>) [demo_trigger 1013]"

lemma run_unrecorded:
  "fst (run_claimed_execution demo_row (faulty_at {18, 20} 18 executing_db)) = Inr (RetryableError (JoinErr (Biz CodeDBError) (Biz CodeDBError)))"
  "db_inv executing_db" "exec_is 1 6 EExecuting executing_db"
  "\<not> w_fault (snd (run_claimed_execution demo_row (faulty_at {18, 20} 18 executing_db)))
      (w_step (snd (run_claimed_execution demo_row (faulty_at {18, 20} 18 executing_db))))"
  by (simp_all add: run_simps executing_db_def demo_db_defs demo_row_def dispatch_defs failure_defs faulty_at_def world_at_def
      db_inv_defs pair_ok_defs terminal_def exec_is_def cong: run_congs del: One_nat_def)

text \<open>A world whose signing library signs one set of claims.\<close>

definition signing_ext :: oj_ext where
  "signing_ext = demo_ext\<lparr>
     x_sign := (\<lambda>s c i e. if c = \<lparr>c_platform = ''luogu'', c_title = ''A+B'', c_qid = 5\<rparr> then Inr ''tok'' else Inl RawErr),
     x_parse := (\<lambda>s k t. if k = ''tok'' then Some \<lparr>c_platform = ''luogu'', c_title = ''A+B'', c_qid = 5\<rparr> else None)\<rparr>"

definition signing_world :: "nat \<Rightarrow> world" where
  "signing_world n = demo_world\<lparr>w_ext := signing_ext, w_step := n\<rparr>"

lemma signing_secret [simp]: "x_secret demo_ext = ''k''"
  by (simp add: demo_ext_def)

lemmas signing_defs = signing_world_def signing_ext_def

end

