(* ===== verification/OJ_Binding.thy ===== *)
theory OJ_Binding
  imports OJ_Attempts
begin

text \<open>
  Binding items after their task was written: what the preflight check leaves behind; which
  executions the scheduler picks; and that an analysis token is read back as it was issued.
\<close>

subsection \<open>The preflight check\<close>

lemma case_singleton:
  "(case cs of [] \<Rightarrow> a | [c] \<Rightarrow> f c | c # d # ds \<Rightarrow> a) = (if length cs = 1 then f (hd cs) else a)"
  by (cases cs rule: remdups_adj.cases) simp_all

lemma preflight_item_result:
  assumes run: "preflight_task_item i k w = (Inr (changed, i', kc), w')" and i: "i_id i \<noteq> 0"
  shows "i_id i' = i_id i \<and> i_task i' = i_task i \<and> i_res i' \<noteq> ResPending \<and> (\<not> changed \<longrightarrow> i' = i) \<and> w_db w' = w_db w"
proof -
  have "w_db w' = w_db w" using stable_run [OF stable_preflight_item run] by simp
  moreover have "i_id i' = i_id i \<and> i_task i' = i_task i \<and> i_res i' \<noteq> ResPending \<and> (\<not> changed \<longrightarrow> i' = i)"
  proof (cases "i_title i \<noteq> [] \<and> i_res i = ResPending")
    case False with run i show ?thesis unfolding preflight_task_item_def by (auto split: if_splits)
  next
    case True
    obtain cs v where "find_verified_title_candidates (i_platform i) (i_title i) w = (Inr cs, v)"
      using run i True unfolding preflight_task_item_def by (auto simp: svc_bind_Inr_iff)
    with run i True show ?thesis
      unfolding preflight_task_item_def case_singleton apply_resolved_candidate_to_task_item_def
      by (auto split: if_splits)
  qed
  ultimately show ?thesis by simp
qed

lemma preflight_step_effect:
  assumes run: "preflight_step ks i w = (Inr u, w')" and i: "i_id i \<noteq> 0" "row_get i_id (db_items (w_db w)) (i_id i) = Some i"
  shows "\<exists>i'. i_id i' = i_id i \<and> i_task i' = i_task i \<and> i_res i' \<noteq> ResPending \<and>
    db_items (w_db w') = row_put i_id i' (db_items (w_db w))"
proof -
  obtain ch i' kc w1 w2 u2 where it: "preflight_task_item i (intake_of ks (i_id i)) w = (Inr (ch, i', kc), w1)"
    and up: "(if ch then db_err (item_update i') else svc_return ()) w1 = (Inr u2, w2)"
    and kc: "(case kc of None \<Rightarrow> svc_return () | Some k \<Rightarrow> db_err (intake_update k)) w2 = (Inr u, w')"
    using run i(1) unfolding preflight_step_def by (auto simp: svc_bind_Inr_iff split: prod.splits)
  note r = preflight_item_result [OF it i(1)]
  have same: "row_put i_id i (db_items (w_db w)) = db_items (w_db w)" by (rule row_put_present [OF i(2)])
  have "db_items (w_db w2) = row_put i_id i' (db_items (w_db w))"
    using up r same by (cases ch) (auto simp: wrap_err_Inr_iff item_update_def db_write_def db_call_Inr_iff)
  moreover have "db_items (w_db w') = db_items (w_db w2)"
    using kc by (auto simp: wrap_err_Inr_iff intake_update_def db_write_def db_call_Inr_iff split: option.splits)
  ultimately show ?thesis using r by (intro exI [of _ i']) simp
qed

lemma preflight_loop_effect:
  assumes "svc_iter (preflight_step ks) is' w = (Inr u, w')" "distinct (map i_id is')" "\<forall>i \<in> set is'. i_id i \<noteq> 0"
    and "\<forall>i \<in> set is'. row_get i_id (db_items (w_db w)) (i_id i) = Some i"
  shows "map i_id (db_items (w_db w')) = map i_id (db_items (w_db w)) \<and>
    (\<forall>k. k \<notin> i_id ` set is' \<longrightarrow> row_get i_id (db_items (w_db w')) k = row_get i_id (db_items (w_db w)) k) \<and>
    (\<forall>i \<in> set is'. \<exists>q. row_get i_id (db_items (w_db w')) (i_id i) = Some q \<and> i_res q \<noteq> ResPending)"
  using assms
proof (induction is' arbitrary: w)
  case (Cons i is')
  obtain v where st: "preflight_step ks i w = (Inr (), v)" and rest: "svc_iter (preflight_step ks) is' v = (Inr u, w')"
    using Cons.prems(1) by (auto simp: svc_bind_Inr_iff)
  obtain i' where i': "i_id i' = i_id i" "i_res i' \<noteq> ResPending" "db_items (w_db v) = row_put i_id i' (db_items (w_db w))"
    using preflight_step_effect [OF st] Cons.prems by auto
  have keys: "map i_id (db_items (w_db v)) = map i_id (db_items (w_db w))"
    using Cons.prems(4) i' by (simp add: map_row_put [where q = i])
  have fresh: "row_get i_id (db_items (w_db v)) (i_id j) = Some j" if j: "j \<in> set is'" for j
  proof -
    have "i_id j \<noteq> i_id i" using Cons.prems(2) j by (metis distinct.simps(2) image_eqI list.map(2) list.set_map)
    then show ?thesis using Cons.prems(4) j by (simp add: i' row_get_put)
  qed
  have IH: "map i_id (db_items (w_db w')) = map i_id (db_items (w_db v))"
    "\<And>k. k \<notin> i_id ` set is' \<Longrightarrow> row_get i_id (db_items (w_db w')) k = row_get i_id (db_items (w_db v)) k"
    "\<forall>i \<in> set is'. \<exists>q. row_get i_id (db_items (w_db w')) (i_id i) = Some q \<and> i_res q \<noteq> ResPending"
    using Cons.IH [OF rest] Cons.prems(2,3) fresh by simp_all
  have "row_get i_id (db_items (w_db w')) (i_id i) = Some i'"
    using IH(2) [of "i_id i"] Cons.prems(2) by (simp add: i' row_get_put)
  moreover have "row_get i_id (db_items (w_db w')) k = row_get i_id (db_items (w_db w)) k" if "k \<notin> i_id ` set (i # is')" for k
    using IH(2) [of k] that by (simp add: i' row_get_put)
  ultimately show ?case using IH(1,3) keys i'(2) by simp
qed simp

lemma preflight_leaves_none_pending:
  assumes run: "preflight_check tid w = (Inr u, w')" and on: "x_preflight (w_ext w)" "tid \<noteq> 0"
    and keys: "distinct (map i_id (db_items (w_db w)))" "\<forall>i \<in> set (db_items (w_db w)). i_id i \<noteq> 0"
  shows "\<forall>q \<in> set (db_items (w_db w')). i_task q = tid \<longrightarrow> i_res q \<noteq> ResPending"
proof -
  obtain v where v: "w_db w' = w_db v" and loop: "svc_bind (db_err (items_list tid)) (\<lambda>items.
         svc_bind (db_err (intakes_list tid)) (\<lambda>intakes. svc_iter (preflight_step intakes) items)) w = (Inr u, v)"
    using run on unfolding preflight_check_def by (auto simp: config_def svc_bind_Inr_iff dest!: in_tx_Inr)
  obtain is' ks w1 w2 where l: "items_list tid w = (Inr is', w1)" "intakes_list tid w1 = (Inr ks, w2)"
    and it: "svc_iter (preflight_step ks) is' w2 = (Inr u, v)"
    using loop by (auto simp: svc_bind_Inr_iff wrap_err_Inr_iff)
  have w2: "w_db w2 = w_db w" using stable_run [OF stable_repo_reads(4) l(1)] stable_run [OF stable_repo_reads(6) l(2)] by simp
  have is': "is' = items_by_task tid (db_items (w_db w))" using l(1) by (simp add: items_list_def db_read_Inr_iff)
  have mem: "set is' = {i \<in> set (db_items (w_db w)). i_task i = tid}" by (auto simp: is' items_by_task_def)
  have get: "row_get i_id (db_items (w_db w)) (i_id i) = Some i" if "i \<in> set (db_items (w_db w))" for i
    using keys(1) that by (rule row_get_in_set)
  have "distinct (map i_id is')"
    using keys(1) mem by (auto simp: distinct_map is' items_by_task_def intro: inj_on_subset)
  then have eff: "map i_id (db_items (w_db v)) = map i_id (db_items (w_db w))"
    "\<And>k. k \<notin> i_id ` set is' \<Longrightarrow> row_get i_id (db_items (w_db v)) k = row_get i_id (db_items (w_db w)) k"
    "\<forall>i \<in> set is'. \<exists>q. row_get i_id (db_items (w_db v)) (i_id i) = Some q \<and> i_res q \<noteq> ResPending"
    using preflight_loop_effect [OF it] keys(2) mem get w2 by auto
  show ?thesis
  proof (intro ballI impI)
    fix q assume q: "q \<in> set (db_items (w_db w'))" "i_task q = tid"
    have gq: "row_get i_id (db_items (w_db v)) (i_id q) = Some q" using keys(1) eff(1) q(1) v by (intro row_get_in_set) auto
    show "i_res q \<noteq> ResPending"
    proof (cases "i_id q \<in> i_id ` set is'")
      case True with eff(3) gq show ?thesis by auto
    next
      case False
      with eff(2) gq have "q \<in> set (db_items (w_db w))" by (auto dest: row_get_set)
      with mem q(2) False show ?thesis by auto
    qed
  qed
qed

subsection \<open>The due executions\<close>

lemma take_sorted_complete:
  assumes "sorted (map f xs)" "x \<in> set xs"
  shows "x \<in> set (take n xs) \<or> (length (take n xs) = n \<and> (\<forall>y \<in> set (take n xs). f y \<le> f x))"
proof (cases "x \<in> set (take n xs)")
  case False
  have xd: "x \<in> set (drop n xs)" using assms(2) False by (metis Un_iff append_take_drop_id set_append)
  then have "n \<le> length xs" by (cases "n \<le> length xs") auto
  moreover have "f y \<le> f x" if "y \<in> set (take n xs)" for y
  proof -
    have "sorted (map f (take n xs) @ map f (drop n xs))" using assms(1) by (simp add: map_append [symmetric] del: map_append)
    then show ?thesis using that xd by (simp add: sorted_append)
  qed
  ultimately show ?thesis by simp
qed simp

lemma due_rows_complete:
  assumes "e \<in> set es" "e_status e \<in> set sts" "e_planned e \<le> before" and rows_def: "rows = due_rows sts before lim es"
  shows "dispatch_row_of e \<in> set rows \<or>
    (0 < lim \<and> length rows = nat lim \<and> (\<forall>r \<in> set rows. (r_planned r, r_exec r) \<le> (e_planned e, e_id e)))"
proof -
  let ?k = "\<lambda>r. (r_planned r, r_exec r)"
  let ?all = "map dispatch_row_of (sort_key (\<lambda>e. (e_planned e, e_id e)) (filter (\<lambda>e. e_status e \<in> set sts \<and> e_planned e \<le> before) es))"
  have s: "sorted (map ?k ?all)" by (simp add: dispatch_row_of_def comp_def)
  have m: "dispatch_row_of e \<in> set ?all" using assms(1-3) by auto
  have rows: "rows = (if 0 < lim then take (nat lim) ?all else ?all)" using assms(2) by (auto simp: rows_def due_rows_def Let_def)
  show ?thesis
  proof (cases "0 < lim")
    case True
    then show ?thesis using take_sorted_complete [OF s m, of "nat lim"] by (simp add: rows dispatch_row_of_def)
  next
    case False
    then show ?thesis using m by (simp add: rows)
  qed
qed

lemma due_rows_due: "r \<in> set (due_rows sts before lim es) \<Longrightarrow> \<exists>e \<in> set es. r = dispatch_row_of e \<and> e_status e \<in> set sts \<and> e_planned e \<le> before"
  by (auto simp: due_rows_def Let_def dest!: in_set_takeD split: if_splits)

subsection \<open>Analysis tokens\<close>

lemma token_encode_Inr:
  assumes "token_encode p t q w = (Inr tok, w')"
  shows "q \<noteq> 0 \<and> trim_space p \<noteq> [] \<and> trim_space t \<noteq> [] \<and> x_secret (w_ext w) \<noteq> [] \<and> w_ext w' = w_ext w \<and> w_db w' = w_db w \<and>
    x_sign (w_ext w) (x_secret (w_ext w)) \<lparr>c_platform = trim_space p, c_title = trim_space t, c_qid = q\<rparr>
      (w_time w (w_step w)) (w_time w (w_step w) + token_ttl) = Inr tok"
  using assms by (auto simp: token_encode_def svc_bind_Inr_iff config_def now_def split: if_splits)

text \<open>A token is parsed back as long as it has not expired.\<close>

lemma token_decode_encoded:
  assumes "token_encode p t q w = (Inr tok, w1)" "w_ext w2 = w_ext w"
    and "w_time w (w_step w) \<le> w_time w2 (w_step w2)" "w_time w2 (w_step w2) < w_time w (w_step w) + token_ttl"
    and parse: "\<And>s c t e k t'. x_sign (w_ext w) s c t e = Inr k \<Longrightarrow> t \<le> t' \<Longrightarrow> t' < e \<Longrightarrow> x_parse (w_ext w) s (trim_space k) t' = Some c"
  shows "token_decode tok w2 = (Inr \<lparr>c_platform = trim_space p, c_title = trim_space t, c_qid = q\<rparr>, tick w2)"
proof -
  note e = token_encode_Inr [OF assms(1)]
  have "x_parse (w_ext w) (x_secret (w_ext w)) (trim_space tok) (w_time w2 (w_step w2)) =
      Some \<lparr>c_platform = trim_space p, c_title = trim_space t, c_qid = q\<rparr>"
    using parse e assms(3,4) by blast
  with e assms(2) show ?thesis by (simp add: token_decode_def svc_bind_def config_def now_def)
qed

end
