(* ===== verification/OJ_Properties.thy ===== *)
theory OJ_Properties
  imports Demo_World OJ_Binding
begin

text \<open>
  What the OJ task component guarantees: the invariant of its reachable tables, the effect of
  each command, and the outcomes of execution attempts. Every property with a hypothesis is
  followed by its instance on the world of \<open>Demo_World\<close>.
\<close>

subsection \<open>Reachable tables\<close>

text \<open>
  C1. In every reachable state a task version has exactly one execution, and the two agree: the
  pair of statuses is admissible, a waiting scheduled execution carries the time of its task,
  the totals are the sums of completed and pending, start and end times and the error message
  fit the status.
\<close>

theorem task_has_one_execution:
  assumes "oj_reachable w" "t \<in> set (db_tasks (w_db w))"
  shows "(\<exists>!e. e \<in> set (db_execs (w_db w)) \<and> e_task e = t_id t) \<and>
    (\<forall>e. e \<in> set (db_execs (w_db w)) \<and> e_task e = t_id t \<longrightarrow>
       status_compat (t_status t) (e_status e) \<and> schedule_ok t e \<and> counts_ok e \<and> timing_ok e)"
proof (intro conjI allI impI)
  note inv = oj_reachable_inv [OF assms(1)]
  obtain e where e: "e \<in> set (db_execs (w_db w))" "e_task e = t_id t" by (rule exec_of_task [OF inv assms(2)])
  show "\<exists>!e. e \<in> set (db_execs (w_db w)) \<and> e_task e = t_id t"
    using e linked_exec_unique [OF inv] by (intro ex1I [of _ e]) auto
  fix f assume "f \<in> set (db_execs (w_db w)) \<and> e_task f = t_id t"
  then have "pair_ok (db_outbox (w_db w)) t f" using inv assms(2) by (auto simp: db_inv_defs)
  then show "status_compat (t_status t) (e_status f)" "schedule_ok t f" "counts_ok f" "timing_ok f" by (simp_all add: pair_ok_def)
qed

theorem task_has_one_execution_witness:
  "\<exists>!e. e \<in> set (db_execs queued_db) \<and> e_task e = 1"
  using task_has_one_execution [OF demo_reachable(1), of "demo_task ''week 1'' ''immediate'' TQueued None"]
  by (simp add: demo_db_defs)

text \<open>
  C2. In every reachable state the versions of one root task have different numbers, all
  positive, and the root of every version is itself a stored task.
\<close>

theorem versions_are_numbered:
  assumes "oj_reachable w"
  shows "distinct (map (\<lambda>t. (t_root t, t_version t)) (db_tasks (w_db w))) \<and>
    (\<forall>t \<in> set (db_tasks (w_db w)). 0 < t_version t \<and> (\<exists>q \<in> set (db_tasks (w_db w)). t_root t = Some (t_id q)))"
  using oj_reachable_inv [OF assms] by (simp add: db_inv_def versions_ok_def)

theorem versions_are_numbered_witness: "\<exists>q \<in> set (db_tasks scheduled_db). t_id q = 1 \<and> 0 < t_version q"
  using versions_are_numbered [OF demo_reachable(2)] by (simp add: demo_db_defs)



text \<open>
  C4. Executions only move forward. Whatever steps follow a reachable state, an execution is
  still there, with the same task, at the same or a later status, and untouched once it has
  succeeded, failed or been cancelled.
\<close>

theorem executions_only_advance:
  assumes "oj_reachable w" "oj_step\<^sup>*\<^sup>* w w'" "e \<in> set (db_execs (w_db w))"
  shows "\<exists>e' \<in> set (db_execs (w_db w')). e_id e' = e_id e \<and> e_task e' = e_task e \<and> status_le (e_status e) (e_status e') \<and>
    (terminal (e_status e) \<longrightarrow> e' = e)"
  using oj_steps_ok [OF assms(2) oj_reachable_inv [OF assms(1)]] assms(3) by (auto simp: db_evolves_def exec_evolves_def)

theorem executions_only_advance_witness:
  "\<exists>e' \<in> set (db_execs queued_db). e_id e' = 6 \<and> status_le EQueued (e_status e')"
  using executions_only_advance [OF demo_reachable(1) rtranclp.rtrancl_refl, of "demo_exec CreateImmediate 1005 EQueued"]
  by (simp add: demo_db_defs)

subsection \<open>Commands\<close>

text \<open>
  C5. A command that returns an error changes nothing. Create, update, delete, execute-now,
  revise and retry, and the handler of an upserted question, leave every table as it was
  whenever they fail, whichever of their calls failed.
\<close>

theorem failed_commands_change_nothing:
  "(create_task op req w = (Inl er, w') \<longrightarrow> w_db w' = w_db w) \<and>
   (update_task op tid req w = (Inl er, w') \<longrightarrow> w_db w' = w_db w) \<and>
   (delete_task op tid w = (Inl er, w') \<longrightarrow> w_db w' = w_db w) \<and>
   (execute_task_now op tid w = (Inl er, w') \<longrightarrow> w_db w' = w_db w) \<and>
   (revise_task op tid req w = (Inl er, w') \<longrightarrow> w_db w' = w_db w) \<and>
   (retry_task op tid w = (Inl er, w') \<longrightarrow> w_db w' = w_db w) \<and>
   (handle_question_upserted p t w = (Inl er, w') \<longrightarrow> w_db w' = w_db w)"
  by (intro conjI impI; rule atomicD [rotated], assumption, rule atomic_commands)

theorem failed_commands_change_nothing_witness:
  "fst (create_task 2 demo_req demo_world) = Inl (Biz CodePermissionDenied) \<and>
   w_db (snd (create_task 2 demo_req demo_world)) = empty_db"
proof -
  have "fst (create_task 2 demo_req demo_world) = Inl (Biz CodePermissionDenied)"
    by (simp add: create_task_def run_simps build_subject_def action_operate_def cong: run_congs del: One_nat_def)
  note run = run_pair [of "create_task 2 demo_req" demo_world, OF this]
  show ?thesis using failed_commands_change_nothing [of 2 demo_req demo_world] run by (metis demo_world_simps(1) fst_conv)
qed

text \<open>
  C12. Creating a task. If the command returns, the request was valid (title and mode, the
  execution time in the future exactly for the scheduled mode, existing organisations without
  duplicates, no empty item), the operator may manage every requested organisation, every item
  is bound to its one verified question or waits for it, and exactly one new version, numbered
  1 and its own root, was appended with its organisations, items, intakes, its execution and,
  for the immediate mode, its trigger.
\<close>

theorem create_task_effect:
  assumes "create_task op req w = (Inr r, w')" "oj_reachable w"
  shows "\<exists>d md. valid_request (w_ext w) (w_time w (w_step w)) req d \<and> materialized (w_ext w) d md \<and>
    operates_all (w_ext w) op (dr_orgs req) \<and>
    new_version None None 1 op md (resolve_execution_trigger (nd_mode d)) (w_db w) r (w_db w')"
  using create_task_Inr [OF assms(1) oj_reachable_inv [OF assms(2)]] unfolding operates_all_def .

theorem create_task_effect_witness:
  "\<exists>d md. valid_request demo_ext 1000 demo_req d \<and> materialized demo_ext d md \<and> operates_all demo_ext 1 [7] \<and>
    new_version None None 1 1 md (resolve_execution_trigger (nd_mode d)) empty_db \<lparr>cr_task = 1, cr_exec = 6, cr_status = TQueued\<rparr> queued_db"
  using create_task_effect [OF run_create demo_world_reachable] by simp

text \<open>
  Updating. If the command returns, the task was a scheduled version still waiting, the
  request was valid with a future time, the operator may manage the old and the new
  organisations, and the tables differ only in that task and its execution, rescheduled to that
  time, and in the task's organisation, item and intake rows, which are those of the new draft.
\<close>

theorem update_task_effect:
  assumes "update_task op tid req w = (Inr r, w')" "oj_reachable w"
  shows "\<exists>t e d md at os is' ks. editable (w_db w) tid t e \<and>
     valid_request (w_ext w) (w_time w (w_step w)) req d \<and> materialized (w_ext w) d md \<and>
     dr_exec_at req = Some at \<and> w_time w (w_step w) < at \<and>
     operates_all (w_ext w) op (dr_orgs req @ task_org_ids (orgs_by_task tid (db_orgs (w_db w)))) \<and>
     draft_rows tid md os is' ks \<and>
     w_db w' = (put_pair (t\<lparr>t_title := vd_title md, t_desc := vd_desc md, t_exec_at := Some at, t_updated_by := op\<rparr>)
        (e\<lparr>e_planned := at, e_requested := op\<rparr>) (w_db w))
       \<lparr>db_orgs := filter (\<lambda>r. to_task r \<noteq> tid) (db_orgs (w_db w)) @ os,
        db_items := filter (\<lambda>r. i_task r \<noteq> tid) (db_items (w_db w)) @ is',
        db_intakes := filter (\<lambda>r. k_task r \<noteq> tid) (db_intakes (w_db w)) @ ks,
        db_next := db_next (w_db w')\<rparr>"
  using update_task_Inr [OF assms(1) oj_reachable_inv [OF assms(2)]] .

theorem update_task_effect_witness:
  "\<exists>t e d. editable scheduled_db 1 t e \<and> valid_request demo_ext 1013 demo_req_later d \<and> operates_all demo_ext 1 [7, 7, 7]"
  using update_task_effect [OF run_pair [of "update_task 1 1 demo_req_later", OF run_update] demo_reachable(2)]
  by (simp add: demo_db_defs task_org_ids_def orgs_by_task_def normalize_uint_slice_def) blast

text \<open>
  Deleting. If the command returns, the task was a scheduled version still waiting, the
  operator may manage all its organisations, and the only change is that the task is deleted
  and its execution cancelled: nothing is removed and no other row is touched.
\<close>

theorem delete_task_effect:
  assumes "delete_task op tid w = (Inr r, w')" "oj_reachable w"
  shows "\<exists>t e n. editable (w_db w) tid t e \<and>
     operates_all (w_ext w) op (task_org_ids (orgs_by_task tid (db_orgs (w_db w)))) \<and>
     w_db w' = put_pair (t\<lparr>t_status := TDeleted, t_updated_by := op\<rparr>)
       (e\<lparr>e_status := ECancelled, e_finished := Some n, e_error := []\<rparr>) (w_db w)"
  using delete_task_Inr [OF assms(1) oj_reachable_inv [OF assms(2)]] .

theorem delete_task_effect_witness: "\<exists>t e. editable scheduled_db 1 t e \<and> operates_all demo_ext 1 [7]"
  using delete_task_effect [OF run_pair [of "delete_task 1 1", OF run_delete] demo_reachable(2)]
  by (simp add: demo_db_defs task_org_ids_def orgs_by_task_def normalize_uint_slice_def) blast

text \<open>
  Executing a scheduled task now. If the command returns, the task was still waiting, the
  operator may manage its organisations, task and execution are queued with all results
  cleared, and exactly one pending trigger event for that execution was appended.
\<close>

theorem execute_task_now_effect:
  assumes "execute_task_now op tid w = (Inr r, w')" "oj_reachable w"
  shows "\<exists>t e n o'. editable (w_db w) tid t e \<and>
     operates_all (w_ext w) op (task_org_ids (orgs_by_task tid (db_orgs (w_db w)))) \<and>
     ob_payload o' = trigger_payload (e_id e) tid \<and> ob_agg_id o' = show_nat (e_id e) \<and>
     ob_status o' = OPending \<and> ob_retry o' = 0 \<and>
     w_db w' = (put_pair (t\<lparr>t_status := TQueued, t_updated_by := op\<rparr>) (requeue_execution op n e) (w_db w))
       \<lparr>db_outbox := db_outbox (w_db w) @ [o']\<rparr> \<and>
     r = \<lparr>cr_task = tid, cr_exec = e_id e, cr_status = TQueued\<rparr>"
  using execute_task_now_Inr [OF assms(1) oj_reachable_inv [OF assms(2)]] .

theorem execute_task_now_effect_witness:
  "\<exists>(e :: oj_exec) (o' :: outbox_event). e_id e = 6 \<and> ob_payload o' = trigger_payload 6 1 \<and> ob_status o' = OPending"
proof -
  obtain t e and o' :: outbox_event where "editable scheduled_db 1 t e" "ob_payload o' = trigger_payload (e_id e) 1" "ob_status o' = OPending"
    using execute_task_now_effect [OF run_pair [of "execute_task_now 1 1", OF run_execute_now] demo_reachable(2)]
    unfolding world_at_simps by blast
  moreover from this(1) have "e_id e = 6" by (simp add: editable_def demo_db_defs)
  ultimately show ?thesis by metis
qed

text \<open>
  C13. Revising. If the command returns, the source version exists and is not deleted, the
  request was valid and authorised for the old and new organisations, and exactly one new
  version was appended: below the same root, with the source as parent, and with the number
  after the highest version of that root.
\<close>

theorem revise_task_effect:
  assumes "revise_task op tid req w = (Inr r, w')" "oj_reachable w"
  shows "\<exists>src d md v root. src \<in> set (db_tasks (w_db w)) \<and> t_id src = tid \<and> t_status src \<noteq> TDeleted \<and>
     valid_request (w_ext w) (w_time w (w_step w)) req d \<and> materialized (w_ext w) d md \<and>
     t_root src = Some root \<and> next_version_of (w_db w) root v \<and>
     operates_all (w_ext w) op (dr_orgs req @ task_org_ids (orgs_by_task tid (db_orgs (w_db w)))) \<and>
     new_version (Some root) (Some tid) v op md (resolve_execution_trigger (vd_mode md)) (w_db w) r (w_db w')"
  using revise_task_Inr [OF assms(1) oj_reachable_inv [OF assms(2)]] unfolding operates_all_def by (simp add: ball_Un)

theorem revise_task_effect_witness: "\<exists>v. next_version_of scheduled_db 1 v"
proof -
  obtain src v root where "src \<in> set (db_tasks scheduled_db)" "t_root src = Some root" "next_version_of scheduled_db root v"
    using revise_task_effect [OF run_pair [of "revise_task 1 1 demo_req", OF run_revise] demo_reachable(2)] unfolding world_at_simps by blast
  moreover from this(1) have "t_root src = Some 1" by (simp add: demo_db_defs)
  ultimately show ?thesis by auto
qed

text \<open>
  retrying. If the command returns, the source version's execution had succeeded or
  failed, the operator may manage the source's organisations, and exactly one new immediate
  version was appended with the source's title, organisations and items, below the same root,
  numbered after the highest version.
\<close>

theorem retry_task_effect:
  assumes "retry_task op tid w = (Inr r, w')" "oj_reachable w"
  shows "\<exists>src e v root. src \<in> set (db_tasks (w_db w)) \<and> t_id src = tid \<and> t_status src \<noteq> TDeleted \<and>
     e \<in> set (db_execs (w_db w)) \<and> e_task e = tid \<and> e_status e \<in> {ESucceeded, EFailed} \<and>
     t_root src = Some root \<and> next_version_of (w_db w) root v \<and>
     operates_all (w_ext w) op (task_org_ids (orgs_by_task tid (db_orgs (w_db w)))) \<and>
     new_version (Some root) (Some tid) v op
       (retry_draft src (task_org_ids (orgs_by_task tid (db_orgs (w_db w)))) (items_by_task tid (db_items (w_db w))))
       RetryTrigger (w_db w) r (w_db w')"
  using retry_task_Inr [OF assms(1) oj_reachable_inv [OF assms(2)]] unfolding operates_all_def .

theorem retry_task_effect_witness: "\<exists>v. next_version_of executed_db 1 v"
proof -
  obtain src v root where "src \<in> set (db_tasks executed_db)" "t_root src = Some root" "next_version_of executed_db root v"
    using retry_task_effect [OF run_pair [of "retry_task 1 1", OF run_retry] executed_reachable] unfolding world_at_simps by blast
  moreover from this(1) have "t_root src = Some 1" by (simp add: executed_db_def demo_task_def)
  ultimately show ?thesis by auto
qed


subsection \<open>Requests\<close>

text \<open>
  the organisations of a request, when no database call fails: the check accepts exactly
  the non-empty lists of existing organisations, and returns them without duplicates in the
  order of their first mention; every other list is refused.
\<close>

theorem org_ids_accepted_iff_known:
  assumes "\<And>n. \<not> w_fault w n"
  shows "((\<exists>w'. validate_org_ids oids w = (Inr (uniq_by (\<lambda>v. v) [] oids), w')) \<longleftrightarrow>
      oids \<noteq> [] \<and> (\<forall>oid \<in> set oids. known_org (w_ext w) oid)) \<and>
    ((\<exists>er w'. validate_org_ids oids w = (Inl er, w')) \<longleftrightarrow> oids = [] \<or> (\<exists>oid \<in> set oids. \<not> known_org (w_ext w) oid))"
proof -
  obtain q v where q: "validate_org_ids oids w = (q, v)" by fastforce
  note complete = validate_org_ids_complete [OF assms, of oids]
  have "(\<exists>w'. validate_org_ids oids w = (Inr (uniq_by (\<lambda>v. v) [] oids), w')) \<longleftrightarrow>
      oids \<noteq> [] \<and> (\<forall>oid \<in> set oids. known_org (w_ext w) oid)"
    using complete validate_org_ids_Inr(1) [of oids w] by metis
  moreover have "(\<exists>er w'. validate_org_ids oids w = (Inl er, w')) \<longleftrightarrow> oids = [] \<or> (\<exists>oid \<in> set oids. \<not> known_org (w_ext w) oid)"
    using complete q by (cases q) auto
  ultimately show ?thesis by blast
qed

theorem org_ids_accepted_iff_known_witness:
  "(\<exists>w'. validate_org_ids [7, 7] demo_world = (Inr [7], w')) \<and> (\<exists>er w'. validate_org_ids [7, 8] demo_world = (Inl er, w'))"
  using org_ids_accepted_iff_known [of demo_world "[7, 7]"] org_ids_accepted_iff_known [of demo_world "[7, 8]"]
  by (simp add: known_org_def)

text \<open>
  Authorisation, when no database call fails: a capability is granted exactly to the owner
  of an existing organisation, to a super administrator, and to a subject \<open>user@org\<close> for which
  the policy engine allows it.
\<close>

theorem capability_granted_iff:
  assumes "\<And>n. \<not> w_fault w n" "trim_space cap \<noteq> []"
  shows "(\<exists>w'. authorize_org_capability op oid cap w = (Inr (), w')) \<longleftrightarrow> may_operate (w_ext w) op oid cap"
proof
  assume "may_operate (w_ext w) op oid cap"
  with assms show "\<exists>w'. authorize_org_capability op oid cap w = (Inr (), w')"
    by (auto simp: authorization_defs may_operate_def svc_bind_def wrap_err_def svc_wrap_def ext_read_def db_call_def Let_def
        split: option.splits)
qed (auto dest: authorize_org_capability_Inr)

theorem capability_granted_iff_witness:
  "(\<exists>w'. authorize_org_capability 1 7 capability_oj_task_manage demo_world = (Inr (), w')) \<and>
   \<not> (\<exists>w'. authorize_org_capability 2 7 capability_oj_task_manage demo_world = (Inr (), w'))"
  using capability_granted_iff [of demo_world capability_oj_task_manage 1 7]
    capability_granted_iff [of demo_world capability_oj_task_manage 2 7]
  by (simp add: may_operate_def capability_oj_task_manage_def trim_space_def is_space_def)

text \<open>
  the items of a materialised draft are numbered 1, 2, 3, ... without gaps, no two of them
  have the same platform, title, question and resolution, and each comes from a requested item
  by the binding rule: the question its token names, the only verified question of that title,
  or none yet.
\<close>

theorem materialized_items_numbered:
  assumes "materialize_items items w = (Inr rs, w')"
  shows "rs \<noteq> [] \<and> map vi_sort rs = [1 ..< Suc (length rs)] \<and> distinct (map materialized_item_key rs) \<and>
    (\<forall>r \<in> set rs. \<exists>i \<in> set items. \<exists>v. bound_item (w_ext w) i v \<and> r = v\<lparr>vi_sort := vi_sort r\<rparr>)"
proof -
  obtain vs where vs: "list_all2 (bound_item (w_ext w)) items vs" and rs: "rs = numbered 1 (uniq_by materialized_item_key [] vs)"
    using materialize_items_Inr(1) [OF assms] by blast
  have "\<exists>i \<in> set items. \<exists>v. bound_item (w_ext w) i v \<and> r = v\<lparr>vi_sort := vi_sort r\<rparr>" if "r \<in> set rs" for r
  proof -
    have "r\<lparr>vi_sort := 0\<rparr> \<in> set (map (\<lambda>r. r\<lparr>vi_sort := 0\<rparr>) rs)" using that by auto
    also have "map (\<lambda>r. r\<lparr>vi_sort := 0\<rparr>) rs = map (\<lambda>r. r\<lparr>vi_sort := 0\<rparr>) (uniq_by materialized_item_key [] vs)"
      unfolding rs numbered_def by (rule map_number_rows) simp
    finally obtain v where v: "v \<in> set vs" "r\<lparr>vi_sort := 0\<rparr> = v\<lparr>vi_sort := 0\<rparr>" using set_uniq_by_subset by fastforce
    then obtain i where "i \<in> set items" "bound_item (w_ext w) i v"
      using vs by (metis list_all2_conv_all_nth in_set_conv_nth)
    moreover have "r = v\<lparr>vi_sort := vi_sort r\<rparr>" using v(2) by (cases r; cases v) simp
    ultimately show ?thesis by blast
  qed
  moreover have "map vi_sort rs = [1 ..< Suc (length rs)]" unfolding rs sorts_numbered by (simp add: numbered_def del: upt_Suc)
  moreover have "distinct (map materialized_item_key rs)" unfolding rs keys_numbered by (rule distinct_uniq_by)
  ultimately show ?thesis using materialize_items_Inr(2) [OF assms] by simp
qed

theorem materialized_items_numbered_witness:
  "\<exists>rs w'. materialize_items [\<lparr>ni_platform = ''luogu'', ni_title = ''C'', ni_token = ''''\<rparr>] demo_world = (Inr rs, w') \<and> map vi_sort rs = [1 ..< Suc (length rs)]"
proof -
  let ?m = "materialize_items [\<lparr>ni_platform = ''luogu'', ni_title = ''C'', ni_token = ''''\<rparr>]"
  have "\<exists>rs. fst (?m demo_world) = Inr rs" by (simp add: run_simps cong: run_congs del: One_nat_def)
  then obtain rs where "?m demo_world = (Inr rs, snd (?m demo_world))" using run_pair by metis
  with materialized_items_numbered [OF this] show ?thesis by blast
qed


subsection \<open>Executions\<close>

text \<open>
  C17. A successful attempt. The execution was waiting; afterwards execution and task have
  succeeded, and the stored result rows and all six totals are exactly those of the abstract
  snapshot: every active member of the task's organisations, once, with one result per item,
  completed exactly when the item is resolved and the member's bound account of the item's
  platform has solved that question.
\<close>

theorem executed_attempt_stores_snapshot:
  assumes "dispatch_single_execution row w = (Inr Executed, w')" "oj_reachable w" "row_ok row (w_db w)"
  defines "s \<equiv> expected_snapshot (w_ext w) (w_db w') (r_task row) (r_exec row)"
  shows "\<exists>e \<in> set (db_execs (w_db w)). \<exists>e' \<in> set (db_execs (w_db w')). \<exists>t' \<in> set (db_tasks (w_db w')).
     e_id e = r_exec row \<and> is_dispatchable (e_status e) \<and>
     e_id e' = r_exec row \<and> e_task e' = r_task row \<and> e_status e' = ESucceeded \<and>
     e_total_users e' = sn_total_users s \<and> e_done_users e' = sn_done_users s \<and> e_pend_users e' = sn_pend_users s \<and>
     e_total_items e' = sn_total_items s \<and> e_done_items e' = sn_done_items s \<and> e_pend_items e' = sn_pend_items s \<and>
     t_id t' = r_task row \<and> t_status t' = TSucceeded \<and> snapshot_stored (r_exec row) s (w_db w) (w_db w')"
  using executed_effect [OF assms(1) oj_reachable_inv [OF assms(2)] assms(3)] unfolding s_def .

theorem executed_attempt_stores_snapshot_witness:
  "\<exists>e' \<in> set (db_execs executed_db). e_total_users e' = sn_total_users (expected_snapshot demo_ext executed_db 1 6) \<and>
     snapshot_stored 6 (expected_snapshot demo_ext executed_db 1 6) queued_db executed_db"
proof -
  have "row_ok demo_row queued_db" by (simp add: row_ok_def demo_row_def demo_db_defs)
  then show ?thesis
    using executed_attempt_stores_snapshot [OF run_dispatch demo_reachable(1)]
    by (simp add: demo_row_def) blast
qed

text \<open>
  C18. A failed attempt that reports its failure has recorded it: the execution has failed with
  the trimmed error text (never the empty string), with a start and an end time, and its task
  has failed.
\<close>

theorem failed_attempt_is_recorded:
  assumes "dispatch_single_execution row w = (Inr (TerminalFailed c), w')" "oj_reachable w" "row_ok row (w_db w)"
  shows "recorded_failure (r_task row) (r_exec row) (failure_message (x_errtext (w_ext w)) c) (w_db w') \<and>
    failure_message (x_errtext (w_ext w)) c \<noteq> []"
  using dispatch_failed [OF assms(1) oj_reachable_inv [OF assms(2)] assms(3)] by simp

theorem failed_attempt_is_recorded_witness:
  "recorded_failure 1 6 ''failed'' (w_db (snd (dispatch_single_execution demo_row (faulty_at {23} 16 queued_db))))"
proof -
  have "row_ok demo_row queued_db" by (simp add: row_ok_def demo_row_def demo_db_defs)
  moreover have "oj_reachable (faulty_at {23} 16 queued_db)"
    by (rule oj_reachable_step [OF demo_reachable(1)], rule step_environment) simp
  ultimately show ?thesis
    using failed_attempt_is_recorded [OF run_pair [of "dispatch_single_execution demo_row", OF run_failed]]
    by (simp add: demo_row_def failure_message_def Let_def trim_space_def is_space_def)
qed

text \<open>
  C19. An execution succeeds at most once. After a successful attempt and any further steps of
  the system, another attempt on that execution changes no table.
\<close>

theorem executed_at_most_once:
  assumes "dispatch_single_execution row w = (Inr Executed, w')" "oj_reachable w" "row_ok row (w_db w)"
    and "oj_step\<^sup>*\<^sup>* w' v" "dispatch_single_execution row' v = (Inr a, v')" "r_exec row' = r_exec row"
  shows "w_db v' = w_db v \<and> a \<noteq> Executed"
proof -
  note inv = oj_reachable_inv [OF assms(2)]
  obtain e' where e': "e' \<in> set (db_execs (w_db w'))" "e_id e' = r_exec row" "e_status e' = ESucceeded"
    using executed_effect [OF assms(1) inv assms(3)] by blast
  have inv': "db_inv (w_db w')" using from_dispatch_single [of row] inv assms(1,3) unfolding preserves_from_def by blast
  note ok = oj_steps_ok [OF assms(4) inv']
  obtain f where f: "f \<in> set (db_execs (w_db v))" "exec_evolves e' f" using ok e'(1) unfolding db_evolves_def by blast
  then have "f = e'" using e'(3) by (simp add: exec_evolves_def terminal_def)
  have "e_status g \<notin> set dispatchable_statuses" if "g \<in> set (db_execs (w_db v))" "e_id g = r_exec row'" for g
    using exec_key_unique [OF conjunct1 [OF ok] that(1) f(1)] that(2) \<open>f = e'\<close> e' assms(6) by (simp add: dispatchable_statuses_def)
  from dispatch_idle [OF this assms(5)] show ?thesis by auto
qed

theorem executed_at_most_once_witness:
  "\<exists>a v'. dispatch_single_execution demo_row (world_at 43 executed_db) = (Inr a, v') \<and> w_db v' = executed_db \<and> a \<noteq> Executed"
proof -
  have "row_ok demo_row queued_db" by (simp add: row_ok_def demo_row_def demo_db_defs)
  moreover obtain a v' where "dispatch_single_execution demo_row (world_at 43 executed_db) = (Inr a, v')"
    using attempt_total(3) by blast
  ultimately show ?thesis
    using executed_at_most_once [OF run_dispatch demo_reachable(1) _ rtranclp.rtrancl_refl] by fastforce
qed

text \<open>
  C40. When an attempt fails and its failure cannot be recorded either, it asks for redelivery;
  but the execution has left the waiting statuses, so the redelivered trigger is acknowledged
  without doing anything.
\<close>

theorem unrecorded_failure_is_not_retried:
  assumes "db_inv (w_db w)" "exec_is (r_task row) (r_exec row) EExecuting (w_db w)"
    and "run_claimed_execution row w = (Inr (RetryableError c), w')" "\<not> w_fault w' (w_step w')"
  shows "execute_execution_by_id (r_exec row) w' = (Inr (), tick w')"
proof -
  obtain e where "e \<in> set (db_execs (w_db w'))" "e_id e = r_exec row" "\<not> is_dispatchable (e_status e)" and "db_inv (w_db w')"
    using claimed_never_waits [OF assms(1,2,3)] by blast
  with redelivery_noop [of w' e] assms(4) show ?thesis by simp
qed

theorem unrecorded_failure_is_not_retried_witness:
  "execute_execution_by_id 6 (snd (run_claimed_execution demo_row (faulty_at {18, 20} 18 executing_db))) =
    (Inr (), tick (snd (run_claimed_execution demo_row (faulty_at {18, 20} 18 executing_db))))"
  using unrecorded_failure_is_not_retried [OF _ _ run_pair [of "run_claimed_execution demo_row", OF run_unrecorded(1)]] run_unrecorded(2-)
  by (simp add: demo_row_def)


text \<open>
  the executions the scheduler picks are due (waiting, planned no later than now), come in
  the order of planned time and id, are at most the batch size when that is positive, and no
  due execution is passed over for a later one.
\<close>

theorem due_executions_listed:
  assumes "exec_list_due sts before lim w = (Inr rows, w')" "sts \<noteq> []"
  shows "(\<forall>r \<in> set rows. \<exists>e \<in> set (db_execs (w_db w)). r = dispatch_row_of e \<and> e_status e \<in> set sts \<and> e_planned e \<le> before) \<and>
    sorted (map (\<lambda>r. (r_planned r, r_exec r)) rows) \<and> (0 < lim \<longrightarrow> length rows \<le> nat lim) \<and>
    (\<forall>e \<in> set (db_execs (w_db w)). e_status e \<in> set sts \<and> e_planned e \<le> before \<longrightarrow>
       dispatch_row_of e \<in> set rows \<or>
       (0 < lim \<and> length rows = nat lim \<and> (\<forall>r \<in> set rows. (r_planned r, r_exec r) \<le> (e_planned e, e_id e))))"
proof -
  have rows: "rows = due_rows sts before lim (db_execs (w_db w))"
    using assms by (simp add: exec_list_due_def db_read_Inr_iff)
  show ?thesis
    using due_rows_due due_rows_sorted due_rows_limit due_rows_complete [OF _ _ _ rows]
    unfolding rows by (intro conjI ballI impI) blast+
qed

theorem due_executions_listed_witness:
  "\<exists>rows w'. exec_list_due [EScheduled, EQueued] 2000 10 (world_at 16 queued_db) = (Inr rows, w') \<and> demo_row \<in> set rows"
proof -
  let ?l = "exec_list_due [EScheduled, EQueued] 2000 10"
  have "\<exists>rows. fst (?l (world_at 16 queued_db)) = Inr rows" by (simp add: exec_list_due_def db_read_def db_call_def)
  then obtain rows where run: "?l (world_at 16 queued_db) = (Inr rows, snd (?l (world_at 16 queued_db)))" using run_pair by metis
  have "demo_row = dispatch_row_of (demo_exec CreateImmediate 1005 EQueued)" by (simp add: dispatch_row_of_def demo_row_def demo_exec_def)
  moreover have "length (db_execs queued_db) = 1" "demo_exec CreateImmediate 1005 EQueued \<in> set (db_execs queued_db)"
    by (simp_all add: demo_db_defs)
  moreover have "rows = due_rows [EScheduled, EQueued] 2000 10 (db_execs queued_db)"
    using run by (simp add: exec_list_due_def db_read_Inr_iff)
  moreover from this have "length rows \<le> 1" by (simp add: due_rows_def Let_def demo_db_defs)
  ultimately show ?thesis using due_executions_listed [OF run] run by (force simp: demo_exec_def)
qed

text \<open>
  C20. The nested counting loops of the snapshot refine its specification: the result is the
  abstract snapshot of the task's organisations, items, active members and solved questions, and
  its totals are balanced: the user and item totals are the numbers of rows, and completed plus
  pending.
\<close>

theorem snapshot_refines_specification:
  assumes "build_execution_snapshot t e w = (Inr s, w')"
  shows "s = expected_snapshot (w_ext w) (w_db w) (t_id t) (e_id e) \<and> snapshot_balanced s \<and> w_db w' = w_db w"
  using build_snapshot_expected [OF assms] build_snapshot_balanced [OF assms] stable_run [OF stable_build_snapshot assms] by simp

theorem snapshot_refines_specification_witness:
  "\<exists>s w'. build_execution_snapshot (demo_task ''week 1'' ''immediate'' TExecuting None) (demo_exec CreateImmediate 1005 EExecuting)
      (world_at 26 queued_db) = (Inr s, w') \<and> s = expected_snapshot demo_ext queued_db 1 6"
proof -
  let ?b = "build_execution_snapshot (demo_task ''week 1'' ''immediate'' TExecuting None) (demo_exec CreateImmediate 1005 EExecuting)"
  have "\<exists>s. fst (?b (world_at 26 queued_db)) = Inr s"
    by (simp add: run_simps demo_db_defs dispatch_defs snapshot_defs world_at_def cong: run_congs del: One_nat_def)
  then obtain s where run: "?b (world_at 26 queued_db) = (Inr s, snd (?b (world_at 26 queued_db)))" using run_pair by metis
  have ids: "t_id (demo_task a b c d) = 1" "e_id (demo_exec x y z) = 6" for a b c d x y z by (simp_all add: demo_task_def demo_exec_def)
  show ?thesis using snapshot_refines_specification [OF run] run unfolding ids world_at_simps by blast
qed

text \<open>
  the preflight check decides every open item: when it is enabled and returns, no item of
  the task is left pending, provided the item ids are the primary keys they are declared to be.
\<close>

theorem preflight_decides_all_items:
  assumes "preflight_check tid w = (Inr u, w')" "x_preflight (w_ext w)" "tid \<noteq> 0"
    and "distinct (map i_id (db_items (w_db w)))" "\<forall>i \<in> set (db_items (w_db w)). i_id i \<noteq> 0"
  shows "\<forall>q \<in> set (db_items (w_db w')). i_task q = tid \<longrightarrow> i_res q \<noteq> ResPending"
  by (rule preflight_leaves_none_pending [OF assms])

theorem preflight_decides_all_items_witness:
  "\<exists>w'. preflight_check 1 (world_at 18 queued_db) = (Inr (), w') \<and> demo_open_item \<notin> set (db_items (w_db w'))"
proof -
  have "fst (preflight_check 1 (world_at 18 queued_db)) = Inr ()"
    by (simp add: run_simps demo_db_defs dispatch_defs world_at_def cong: run_congs del: One_nat_def)
  note run = run_pair [of "preflight_check 1", OF this]
  have "i_task demo_open_item = 1" "i_res demo_open_item = ResPending" by (simp_all add: demo_open_item_def)
  with preflight_decides_all_items [OF run] run show ?thesis by (fastforce simp: demo_db_def queued_db_def demo_item_def demo_open_item_def)
qed

subsection \<open>Encodings\<close>



text \<open>
  the stored status strings: different task statuses, and different execution statuses,
  have different strings, and the validity checks accept exactly the strings of the statuses.
\<close>

theorem status_strings_round_trip:
  "(task_status_str a = task_status_str b \<longleftrightarrow> a = b) \<and> (exec_status_str c = exec_status_str d \<longleftrightarrow> c = d) \<and>
   (is_valid_oj_task_status s \<longleftrightarrow> s \<in> range task_status_str) \<and>
   (is_valid_oj_task_execution_status s \<longleftrightarrow> s \<in> range exec_status_str)"
  by (simp add: task_status_str_inj exec_status_str_inj range_task_status_str range_exec_status_str)

end

