(* ===== verification/Redis_Lock.thy ===== *)
theory Redis_Lock
  imports Svc_Monad
begin

text \<open>
  The distributed lock of \<open>pkg/redislock/concurrency_lock.go\<close>. Redis is modelled by the
  documented behaviour of the commands the code sends: \<open>SET key value NX\<close> with an expiry, and
  the two scripts that delete or re-expire a key only if it holds the caller's value; a key whose
  expiry has passed is gone. Times and durations are nanoseconds. Every command takes one step
  and has a fate: it is answered, or it fails before reaching the server, or it is carried out
  and its answer is lost (\<open>rw_fate\<close>). The lock object carries \<open>renewStarted\<close> and whether the renewal
  goroutine is still running.
\<close>

subsection \<open>The interface of a lease store\<close>

locale lease_store =
  fixes holder :: "'s \<Rightarrow> 'k \<Rightarrow> 'v option"
    and acquire :: "'k \<Rightarrow> 'v \<Rightarrow> 's \<Rightarrow> bool \<times> 's"
    and release :: "'k \<Rightarrow> 'v \<Rightarrow> 's \<Rightarrow> bool \<times> 's"
  assumes acquire_free: "holder s k = None \<Longrightarrow> fst (acquire k v s) \<and> holder (snd (acquire k v s)) = (holder s)(k \<mapsto> v)"
    and acquire_busy: "holder s k = Some u \<Longrightarrow> acquire k v s = (False, s)"
    and release_own: "holder s k = Some v \<Longrightarrow> fst (release k v s) \<and> holder (snd (release k v s)) = (holder s)(k := None)"
    and release_other: "holder s k \<noteq> Some v \<Longrightarrow> release k v s = (False, s)"
begin

lemma acquire_iff: "fst (acquire k v s) \<longleftrightarrow> holder s k = None"
  by (cases "holder s k") (simp_all add: acquire_free acquire_busy)

lemma release_iff: "fst (release k v s) \<longleftrightarrow> holder s k = Some v"
  by (cases "holder s k = Some v") (simp_all add: release_own release_other)

text \<open>Nobody acquires or releases what another holds.\<close>

lemma acquire_excluded: "holder s k = Some v \<Longrightarrow> u \<noteq> v \<Longrightarrow> holder (snd (acquire k' u s)) k = Some v"
  by (cases "holder s k'") (auto simp: acquire_free acquire_busy)

lemma release_excluded: "holder s k = Some v \<Longrightarrow> u \<noteq> v \<Longrightarrow> holder (snd (release k' u s)) k = Some v"
  by (cases "holder s k' = Some u") (auto simp: release_own release_other)

lemma acquire_release: "holder s k = None \<Longrightarrow> holder (snd (release k v (snd (acquire k v s)))) = holder s"
  by (auto simp: acquire_free release_own)

end

subsection \<open>Redis\<close>

datatype call_fate = Answered | Refused | Unanswered

record redis_world =
  rw_store :: "string \<Rightarrow> (string \<times> int) option"
  rw_now :: int
  rw_step :: nat
  rw_fate :: "nat \<Rightarrow> call_fate"

definition redis_get :: "redis_world \<Rightarrow> string \<Rightarrow> string option" where
  "redis_get w k = (case rw_store w k of None \<Rightarrow> None | Some (v, x) \<Rightarrow> if rw_now w < x then Some v else None)"

text \<open>The client library sends whole seconds, or else whole milliseconds.\<close>

definition wire_ttl :: "int \<Rightarrow> int" where
  "wire_ttl d = d div 1000000 * 1000000"

definition redis_set_nx :: "int \<Rightarrow> string \<Rightarrow> string \<Rightarrow> redis_world \<Rightarrow> bool \<times> redis_world" where
  "redis_set_nx ttl k v w =
     (if redis_get w k = None then (True, w\<lparr>rw_store := (rw_store w)(k \<mapsto> (v, rw_now w + wire_ttl ttl))\<rparr>) else (False, w))"

definition redis_del_if :: "string \<Rightarrow> string \<Rightarrow> redis_world \<Rightarrow> bool \<times> redis_world" where
  "redis_del_if k v w =
     (if redis_get w k = Some v then (True, w\<lparr>rw_store := (rw_store w)(k := None)\<rparr>) else (False, w))"

definition redis_expire_if :: "int \<Rightarrow> string \<Rightarrow> string \<Rightarrow> redis_world \<Rightarrow> bool \<times> redis_world" where
  "redis_expire_if secs k v w =
     (if redis_get w k = Some v then (True, w\<lparr>rw_store := (rw_store w)(k \<mapsto> (v, rw_now w + secs * 1000000000))\<rparr>) else (False, w))"

definition redis_sleep :: "int \<Rightarrow> redis_world \<Rightarrow> redis_world" where
  "redis_sleep d w = w\<lparr>rw_now := rw_now w + max 0 d\<rparr>"

subsection \<open>The lock object\<close>

datatype lock_err = ErrLockFailed | ErrUnlockFailed | ErrRenewFailed | ErrRedis

record redis_lock =
  lk_key :: string
  lk_value :: string
  lk_expiration :: int
  lk_renew_started :: bool
  lk_renewing :: bool

type_synonym lock_state = "redis_world \<times> redis_lock"

definition min_expiration :: int where
  "min_expiration = 5 * 1000000000"

definition clamp_expiration :: "int \<Rightarrow> int" where
  "clamp_expiration e = (if e < min_expiration then min_expiration else e)"

definition new_redis_lock :: "string \<Rightarrow> string \<Rightarrow> int \<Rightarrow> redis_lock" where
  "new_redis_lock uuid key expiration =
     \<lparr>lk_key = ''lock:'' @ key, lk_value = uuid,
      lk_expiration = clamp_expiration expiration,
      lk_renew_started = False, lk_renewing = False\<rparr>"

definition redis_call :: "(redis_world \<Rightarrow> 'a \<times> redis_world) \<Rightarrow> (lock_state, lock_err, 'a) svc" where
  "redis_call f = (\<lambda>(w, l).
     let w' = w\<lparr>rw_step := Suc (rw_step w)\<rparr>
     in (case rw_fate w (rw_step w) of
           Answered \<Rightarrow> (case f w' of (a, w'') \<Rightarrow> (Inr a, (w'', l)))
         | Refused \<Rightarrow> (Inl ErrRedis, (w', l))
         | Unanswered \<Rightarrow> (Inl ErrRedis, (snd (f w'), l))))"

definition start_auto_renew :: "redis_lock \<Rightarrow> redis_lock" where
  "start_auto_renew l = (if lk_renew_started l then l else l\<lparr>lk_renew_started := True, lk_renewing := True\<rparr>)"

definition stop_auto_renew :: "redis_lock \<Rightarrow> redis_lock" where
  "stop_auto_renew l = (if lk_renew_started l then l\<lparr>lk_renew_started := False, lk_renewing := False\<rparr> else l)"

definition on_lock :: "(redis_lock \<Rightarrow> redis_lock) \<Rightarrow> (lock_state, lock_err, unit) svc" where
  "on_lock f = (\<lambda>(w, l). (Inr (), (w, f l)))"

definition try_lock :: "(lock_state, lock_err, unit) svc" where
  "try_lock s =
     svc_bind (redis_call (redis_set_nx (lk_expiration (snd s)) (lk_key (snd s)) (lk_value (snd s)))) (\<lambda>success.
       if \<not> success then svc_throw ErrLockFailed else on_lock start_auto_renew) s"

fun lock_attempts :: "nat \<Rightarrow> int \<Rightarrow> lock_err option \<Rightarrow> (lock_state, lock_err, unit) svc" where
  "lock_attempts 0 interval prev = svc_throw (case prev of None \<Rightarrow> ErrLockFailed | Some e \<Rightarrow> e)"
| "lock_attempts (Suc n) interval prev =
     svc_catch try_lock
       (\<lambda>e. if e \<noteq> ErrLockFailed then svc_throw e
            else (\<lambda>(w, l). lock_attempts n interval (Some e) (if 0 < n then redis_sleep interval w else w, l)))
       svc_return"

definition lock_with_retry :: "int \<Rightarrow> int \<Rightarrow> (lock_state, lock_err, unit) svc" where
  "lock_with_retry max_retries interval = lock_attempts (nat max_retries) interval None"

definition lock_default :: "(lock_state, lock_err, unit) svc" where
  "lock_default = lock_with_retry 3 100000000"

definition unlock_with_context :: "(lock_state, lock_err, unit) svc" where
  "unlock_with_context s =
     svc_bind (on_lock stop_auto_renew) (\<lambda>_.
     svc_bind (redis_call (redis_del_if (lk_key (snd s)) (lk_value (snd s)))) (\<lambda>deleted.
       if deleted then svc_return () else svc_throw ErrUnlockFailed)) s"

definition lock_expiration_seconds :: "int \<Rightarrow> int" where
  "lock_expiration_seconds expiration =
     (let e = clamp_expiration expiration
      in if e mod 1000000000 \<noteq> 0 then e div 1000000000 + 1 else e div 1000000000)"

definition renew :: "(lock_state, lock_err, unit) svc" where
  "renew s =
     svc_bind (redis_call (redis_expire_if (lock_expiration_seconds (lk_expiration (snd s))) (lk_key (snd s)) (lk_value (snd s)))) (\<lambda>renewed.
       if renewed then svc_return () else svc_throw ErrRenewFailed) s"

text \<open>One tick of the renewal goroutine: a failed renewal ends it.\<close>

definition renew_interval :: "redis_lock \<Rightarrow> int" where
  "renew_interval l = lk_expiration l * 2 div 3"

definition auto_renew_tick :: "lock_state \<Rightarrow> lock_state" where
  "auto_renew_tick s =
     (if lk_renewing (snd s)
      then (case renew s of
              (Inl e, (w, l)) \<Rightarrow> (w, l\<lparr>lk_renewing := False\<rparr>)
            | (Inr u, s') \<Rightarrow> s')
      else s)"

text \<open>\<open>WithLock\<close>: the function runs under the lock, and its result is returned whatever the release says.\<close>

definition with_lock :: "(redis_world \<Rightarrow> ('e + 'a) \<times> redis_world) \<Rightarrow> lock_state \<Rightarrow> (lock_err + ('e + 'a)) \<times> lock_state" where
  "with_lock fn s =
     (case lock_default s of
        (Inl e, s') \<Rightarrow> (Inl e, s')
      | (Inr u, (w, l)) \<Rightarrow> (case fn w of (r, w') \<Rightarrow> (Inr r, snd (unlock_with_context (w', l)))))"

subsection \<open>Redis provides the interface\<close>

lemma wire_ttl_le: "wire_ttl d \<le> d"
  unfolding wire_ttl_def by (metis add.commute le_add_same_cancel2 mod_div_mult_eq pos_mod_sign zero_less_numeral)

lemma wire_ttl_gt: "d - 1000000 < wire_ttl d"
  unfolding wire_ttl_def using mod_div_mult_eq [of d 1000000] pos_mod_bound [of 1000000 d] by linarith

lemma clamp_expiration_bounds: "min_expiration \<le> clamp_expiration e" "e \<le> clamp_expiration e" "clamp_expiration (clamp_expiration e) = clamp_expiration e"
  by (simp_all add: clamp_expiration_def)

lemma wire_ttl_pos: "min_expiration \<le> d \<Longrightarrow> 0 < wire_ttl d"
  using wire_ttl_gt [of d] by (simp add: min_expiration_def)

lemma redis_get_step [simp]: "redis_get (w\<lparr>rw_step := n\<rparr>) = redis_get w"
  by (auto simp: redis_get_def fun_eq_iff split: option.split)

lemma redis_get_put:
  "redis_get (w\<lparr>rw_store := (rw_store w)(k \<mapsto> (v, x))\<rparr>) = (if rw_now w < x then (redis_get w)(k \<mapsto> v) else (redis_get w)(k := None))"
  by (auto simp: redis_get_def fun_eq_iff split: option.split)

lemma redis_get_del: "redis_get (w\<lparr>rw_store := (rw_store w)(k := None)\<rparr>) = (redis_get w)(k := None)"
  by (auto simp: redis_get_def fun_eq_iff split: option.split)

interpretation redis: lease_store redis_get "redis_set_nx (clamp_expiration e)" redis_del_if for e
  by unfold_locales (simp_all add: redis_set_nx_def redis_del_if_def redis_get_put redis_get_del wire_ttl_pos clamp_expiration_bounds)

subsection \<open>Leases of others\<close>

lemma redis_step_fields:
  "rw_now (snd (redis_set_nx ttl k v w)) = rw_now w" "rw_now (snd (redis_del_if k v w)) = rw_now w"
  "rw_now (snd (redis_expire_if n k v w)) = rw_now w"
  by (simp_all add: redis_set_nx_def redis_del_if_def redis_expire_if_def)

lemma redis_other_keeps:
  assumes "rw_store w k = Some (v, x)" "rw_now w < x" "u \<noteq> v"
  shows "rw_store (snd (redis_set_nx ttl k' u w)) k = Some (v, x)" "rw_store (snd (redis_del_if k' u w)) k = Some (v, x)"
    "rw_store (snd (redis_expire_if n k' u w)) k = Some (v, x)"
  using assms by (auto simp: redis_set_nx_def redis_del_if_def redis_expire_if_def redis_get_def)

text \<open>What one call may do to the store: nothing, or its command; in any case the clock stands still.\<close>

lemma redis_call_world:
  assumes "redis_call f (w, l) = (r, (w', l'))"
  shows "l' = l \<and> (\<exists>n. w' = w\<lparr>rw_step := n\<rparr> \<or> w' = snd (f (w\<lparr>rw_step := n\<rparr>)))"
  using assms by (auto simp: redis_call_def Let_def split: call_fate.splits prod.splits) (metis snd_conv)+

text \<open>Steps of others: calls with another value than \<open>v\<close>, the passing of time, and any fate of later calls.\<close>

inductive others_step :: "string \<Rightarrow> redis_world \<Rightarrow> redis_world \<Rightarrow> bool" for v where
  other_lock: "lk_value l \<noteq> v \<Longrightarrow> try_lock (w, l) = (r, (w', l')) \<Longrightarrow> others_step v w w'"
| other_unlock: "lk_value l \<noteq> v \<Longrightarrow> unlock_with_context (w, l) = (r, (w', l')) \<Longrightarrow> others_step v w w'"
| other_renew: "lk_value l \<noteq> v \<Longrightarrow> auto_renew_tick (w, l) = (w', l') \<Longrightarrow> others_step v w w'"
| time_passes: "others_step v w (redis_sleep d w)"
| fate_changes: "rw_store w' = rw_store w \<Longrightarrow> rw_now w' = rw_now w \<Longrightarrow> others_step v w w'"

inductive_cases others_step_cases: "others_step v w w'"

definition untouched :: "string \<Rightarrow> redis_world \<Rightarrow> redis_world \<Rightarrow> bool" where
  "untouched v w w' \<longleftrightarrow> rw_now w' = rw_now w \<and>
     (\<forall>k x. rw_store w k = Some (v, x) \<longrightarrow> rw_now w < x \<longrightarrow> rw_store w' k = Some (v, x))"

lemma untouched_trans: "untouched v a b \<Longrightarrow> untouched v b c \<Longrightarrow> untouched v a c"
  by (simp add: untouched_def)

lemma untouched_call:
  assumes "redis_call f (w, l) = (r, (w', l'))" "\<And>u. rw_now (snd (f u)) = rw_now u"
    and "\<And>u k x. rw_store u k = Some (v, x) \<Longrightarrow> rw_now u < x \<Longrightarrow> rw_store (snd (f u)) k = Some (v, x)"
  shows "untouched v w w'"
  using redis_call_world [OF assms(1)] assms(2,3) by (fastforce simp: untouched_def)

lemma on_lock_run: "on_lock f (w, l) = (Inr (), (w, f l))"
  by (simp add: on_lock_def)

lemma other_calls_untouched:
  assumes "lk_value l \<noteq> v"
  shows "try_lock (w, l) = (r, (w', l')) \<Longrightarrow> untouched v w w'"
    and "unlock_with_context (w, l) = (r, (w', l')) \<Longrightarrow> untouched v w w'"
    and "renew (w, l) = (r, (w', l')) \<Longrightarrow> untouched v w w'"
proof -
  have call: "untouched v w w'" if "redis_call f (w, m) = (q, (w', m'))"
      "f \<in> {redis_set_nx ttl (lk_key l) (lk_value l), redis_del_if (lk_key l) (lk_value l), redis_expire_if n (lk_key l) (lk_value l)}"
    for f ttl n q m m' and w' :: redis_world
    using that(2) assms by (intro untouched_call [OF that(1)]) (auto simp: redis_step_fields redis_other_keeps)
  show "try_lock (w, l) = (r, (w', l')) \<Longrightarrow> untouched v w w'"
    by (cases "redis_call (redis_set_nx (lk_expiration l) (lk_key l) (lk_value l)) (w, l)")
      (auto simp: try_lock_def svc_bind_def on_lock_def dest!: call split: sum.splits if_splits)
  have st: "lk_key (stop_auto_renew l) = lk_key l" "lk_value (stop_auto_renew l) = lk_value l" by (simp_all add: stop_auto_renew_def)
  show "unlock_with_context (w, l) = (r, (w', l')) \<Longrightarrow> untouched v w w'"
    by (cases "redis_call (redis_del_if (lk_key l) (lk_value l)) (w, stop_auto_renew l)")
      (auto simp: unlock_with_context_def svc_bind_def on_lock_def dest!: call split: sum.splits if_splits)
  show "renew (w, l) = (r, (w', l')) \<Longrightarrow> untouched v w w'"
    by (cases "redis_call (redis_expire_if (lock_expiration_seconds (lk_expiration l)) (lk_key l) (lk_value l)) (w, l)")
      (auto simp: renew_def svc_bind_def dest!: call split: sum.splits if_splits)
qed

lemma others_step_lease:
  assumes "others_step v w w'" "rw_store w k = Some (v, x)" "rw_now w' < x"
  shows "rw_store w' k = Some (v, x) \<and> rw_now w \<le> rw_now w'"
  using assms
proof cases
  case (other_renew l l')
  then have "untouched v w w'"
    by (auto simp: auto_renew_tick_def untouched_def split: if_splits sum.splits prod.splits
        dest!: other_calls_untouched(3) [OF other_renew(1)])
  with assms show ?thesis by (simp add: untouched_def)
next
  case other_lock
  with other_calls_untouched(1) have "untouched v w w'" by blast
  with assms show ?thesis by (simp add: untouched_def)
next
  case other_unlock
  with other_calls_untouched(2) have "untouched v w w'" by blast
  with assms show ?thesis by (simp add: untouched_def)
qed (use assms in \<open>auto simp: redis_sleep_def\<close>)

lemma others_step_time: "others_step v w w' \<Longrightarrow> rw_now w \<le> rw_now w'"
proof (induction rule: others_step.induct)
  case (other_lock l w r w' l')
  then show ?case using other_calls_untouched(1) by (auto simp: untouched_def)
next
  case (other_unlock l w r w' l')
  then show ?case using other_calls_untouched(2) by (auto simp: untouched_def)
next
  case (other_renew l w w' l')
  then show ?case
    by (auto simp: auto_renew_tick_def untouched_def split: if_splits sum.splits prod.splits
        dest!: other_calls_untouched(3) [OF other_renew(1)])
qed (auto simp: redis_sleep_def)

lemma others_steps_lease:
  assumes "(others_step v)\<^sup>*\<^sup>* w w'" "rw_store w k = Some (v, x)" "rw_now w' < x"
  shows "rw_store w' k = Some (v, x)"
  using assms
proof (induction rule: rtranclp_induct)
  case (step a b)
  then show ?case using others_step_lease [OF step(2)] others_step_time [OF step(2)] by auto
qed simp

subsection \<open>Acquiring\<close>

lemma try_lock_Inr:
  assumes "try_lock (w, l) = (Inr u, (w', l'))"
  shows "redis_get w (lk_key l) = None \<and> rw_now w' = rw_now w \<and> l' = start_auto_renew l \<and>
    rw_store w' = (rw_store w)(lk_key l \<mapsto> (lk_value l, rw_now w + wire_ttl (lk_expiration l)))"
  using assms
  by (auto simp: try_lock_def svc_bind_Inr_iff redis_call_def redis_set_nx_def on_lock_def Let_def
      split: call_fate.splits prod.splits if_splits)

lemma try_lock_Inl:
  assumes "try_lock (w, l) = (Inl e, (w', l'))"
  shows "l' = l \<and> rw_now w' = rw_now w \<and>
    (e = ErrLockFailed \<and> redis_get w (lk_key l) \<noteq> None \<and> rw_store w' = rw_store w \<or> e = ErrRedis)"
  using assms
  by (auto simp: try_lock_def svc_bind_Inl_iff redis_call_def redis_set_nx_def on_lock_def Let_def
      split: call_fate.splits prod.splits if_splits option.splits)

lemma lock_attempts_outcome:
  assumes "lock_attempts n interval prev (w, l) = (r, (w', l'))" "prev = None \<or> prev = Some ErrLockFailed"
  shows "rw_now w' \<le> rw_now w + int (n - 1) * max 0 interval \<and>
    (case r of
       Inr u \<Rightarrow> 0 < n \<and> (\<exists>v. redis_get v (lk_key l) = None \<and> rw_now v = rw_now w' \<and>
         rw_store w' = (rw_store v)(lk_key l \<mapsto> (lk_value l, rw_now w' + wire_ttl (lk_expiration l)))) \<and> l' = start_auto_renew l
     | Inl e \<Rightarrow> l' = l \<and> (e = ErrLockFailed \<or> e = ErrRedis))"
  using assms
proof (induction n arbitrary: w prev)
  case 0
  then show ?case by (auto split: option.splits)
next
  case (Suc n)
  obtain q w1 l1 where t: "try_lock (w, l) = (q, (w1, l1))" by (metis prod.collapse)
  show ?case
  proof (cases q)
    case (Inr u)
    note got = try_lock_Inr [OF t [unfolded Inr]]
    from Suc.prems(1) t Inr have "r = Inr u" "w' = w1" "l' = l1" by (auto simp: svc_catch_def)
    with got show ?thesis by (auto intro!: exI [of _ w])
  next
    case (Inl e)
    note fail = try_lock_Inl [OF t [unfolded Inl]]
    show ?thesis
    proof (cases "e = ErrLockFailed")
      case False
      with Suc.prems(1) t Inl fail show ?thesis by (auto simp: svc_catch_def)
    next
      case True
      let ?w = "if 0 < n then redis_sleep interval w1 else w1"
      have run: "lock_attempts n interval (Some e) (?w, l) = (r, (w', l'))"
        using Suc.prems(1) t Inl True fail by (simp add: svc_catch_def)
      have time: "rw_now ?w + int (n - 1) * max 0 interval \<le> rw_now w + int (Suc n - 1) * max 0 interval"
        using fail by (cases n) (auto simp: redis_sleep_def algebra_simps)
      show ?thesis using Suc.IH [OF run] True time by (auto split: sum.splits)
    qed
  qed
qed

subsection \<open>Renewing\<close>

lemma renew_seconds_bounds:
  "clamp_expiration e \<le> lock_expiration_seconds e * 1000000000" "lock_expiration_seconds e * 1000000000 < clamp_expiration e + 1000000000"
proof -
  let ?c = "clamp_expiration e"
  have m: "?c = ?c div 1000000000 * 1000000000 + ?c mod 1000000000" "0 \<le> ?c mod 1000000000" "?c mod 1000000000 < 1000000000" by simp_all
  show "?c \<le> lock_expiration_seconds e * 1000000000" "lock_expiration_seconds e * 1000000000 < ?c + 1000000000"
    using m by (cases "?c mod 1000000000 = 0"; simp add: lock_expiration_seconds_def Let_def; linarith)+
qed

definition answered :: "redis_world \<Rightarrow> bool" where
  "answered w \<longleftrightarrow> (\<forall>n. rw_fate w n = Answered)"

lemma renew_own:
  assumes "answered w" "redis_get w (lk_key l) = Some (lk_value l)"
  shows "\<exists>w'. renew (w, l) = (Inr (), (w', l)) \<and> answered w' \<and> rw_now w' = rw_now w \<and>
    rw_store w' (lk_key l) = Some (lk_value l, rw_now w + lock_expiration_seconds (lk_expiration l) * 1000000000)"
  using assms
  by (auto simp: renew_def svc_bind_def redis_call_def answered_def redis_expire_if_def Let_def
      split: if_splits)

text \<open>
  A holder whose renewals are all answered, with the steps of others in between: each tick comes at
  most one interval after the previous one.
\<close>

inductive renewed_run :: "redis_lock \<Rightarrow> redis_world \<Rightarrow> redis_world \<Rightarrow> bool" for l where
  run_start: "renewed_run l w w"
| run_tick: "renewed_run l w u \<Longrightarrow> (others_step (lk_value l))\<^sup>*\<^sup>* u v \<Longrightarrow> rw_now v \<le> rw_now u + renew_interval l \<Longrightarrow>
    answered v \<Longrightarrow> auto_renew_tick (v, l) = (w', l') \<Longrightarrow> renewed_run l w w'"

definition leased :: "redis_lock \<Rightarrow> redis_world \<Rightarrow> bool" where
  "leased l w \<longleftrightarrow> (\<exists>x. rw_store w (lk_key l) = Some (lk_value l, x) \<and> rw_now w + renew_interval l < x)"

lemma renew_interval_less: "min_expiration \<le> lk_expiration l \<Longrightarrow> renew_interval l < wire_ttl (lk_expiration l)"
  using wire_ttl_gt [of "lk_expiration l"] by (simp add: renew_interval_def min_expiration_def)

lemma renew_interval_nonneg: "min_expiration \<le> lk_expiration l \<Longrightarrow> 0 \<le> renew_interval l"
  by (simp add: renew_interval_def min_expiration_def)

lemma leased_get: "min_expiration \<le> lk_expiration l \<Longrightarrow> leased l w \<Longrightarrow> redis_get w (lk_key l) = Some (lk_value l)"
  using renew_interval_nonneg [of l] by (auto simp: leased_def redis_get_def)

lemma tick_renews:
  assumes "answered v" "lk_renewing l" "min_expiration \<le> lk_expiration l" "redis_get v (lk_key l) = Some (lk_value l)"
  shows "\<exists>w'. auto_renew_tick (v, l) = (w', l) \<and> leased l w'"
proof -
  from renew_own [OF assms(1,4)] obtain w' where w': "renew (v, l) = (Inr (), (w', l))" "rw_now w' = rw_now v"
    "rw_store w' (lk_key l) = Some (lk_value l, rw_now v + lock_expiration_seconds (lk_expiration l) * 1000000000)" by blast
  have "renew_interval l < lock_expiration_seconds (lk_expiration l) * 1000000000"
    using renew_interval_less [OF assms(3)] wire_ttl_le [of "lk_expiration l"] renew_seconds_bounds(1) [of "lk_expiration l"]
      clamp_expiration_bounds(2) [of "lk_expiration l"] by linarith
  with w' assms(2) show ?thesis by (auto simp: auto_renew_tick_def leased_def)
qed

lemma renewed_run_leased:
  assumes "renewed_run l w w'" "lk_renewing l" "min_expiration \<le> lk_expiration l" "leased l w"
  shows "leased l w'"
  using assms
proof (induction rule: renewed_run.induct)
  case (run_tick w u v w' l')
  then obtain x where x: "rw_store u (lk_key l) = Some (lk_value l, x)" "rw_now u + renew_interval l < x" by (auto simp: leased_def)
  with others_steps_lease [OF run_tick(2), of "lk_key l" x] run_tick(3) have "redis_get v (lk_key l) = Some (lk_value l)"
    by (simp add: redis_get_def)
  from tick_renews [OF run_tick(4) run_tick.prems(1,2) this] run_tick(5) show ?case by auto
qed

text \<open>A holder whose renewal goroutine has ended: the lease runs out, and \<open>startAutoRenewIfNeeded\<close> does not help.\<close>

lemma stale_start: "lk_renew_started l \<Longrightarrow> start_auto_renew l = l"
  by (simp add: start_auto_renew_def)

lemma failed_tick_stale:
  "auto_renew_tick (w, l) = (w', l') \<Longrightarrow> renew (w, l) = (Inl e, s) \<Longrightarrow> lk_renewing l \<Longrightarrow>
     \<not> lk_renewing l' \<and> lk_renew_started l' = lk_renew_started (snd s)"
  by (auto simp: auto_renew_tick_def split: prod.splits)

lemma unlock_own:
  assumes "answered w" "redis_get w (lk_key l) = Some (lk_value l)"
  shows "\<exists>w'. unlock_with_context (w, l) = (Inr (), (w', stop_auto_renew l)) \<and> redis_get w' = (redis_get w)(lk_key l := None)"
proof -
  have "redis_call (redis_del_if (lk_key l) (lk_value l)) (w, stop_auto_renew l) =
      (Inr True, (w\<lparr>rw_step := Suc (rw_step w), rw_store := (rw_store w)(lk_key l := None)\<rparr>, stop_auto_renew l))"
    using assms by (simp add: redis_call_def redis_del_if_def answered_def)
  then show ?thesis
    using redis_get_del [of "w\<lparr>rw_step := Suc (rw_step w)\<rparr>" "lk_key l"]
    by (simp add: unlock_with_context_def svc_bind_def on_lock_def)
qed

lemma unlock_foreign:
  assumes "unlock_with_context (w, l) = (r, (w', l'))" "redis_get w (lk_key l) \<noteq> Some (lk_value l)"
  shows "r \<noteq> Inr () \<and> redis_get w' = redis_get w"
  using assms
  by (auto simp: unlock_with_context_def svc_bind_def redis_call_def redis_del_if_def on_lock_def Let_def
      split: call_fate.splits if_splits prod.splits sum.splits)

end
