(* ===== verification/Sse_Codec.thy ===== *)
theory Sse_Codec
  imports Go_Prelude
begin

text \<open>
  The event-stream format of \<open>internal/infrastructure/sse\<close>: the event and the connection policy of
  \<open>types.go\<close>, the encoder of \<open>writer.go\<close>, and, as the reference the encoder is compared with, the
  client of the event-stream standard as a machine that reads one byte at a time. Bytes are
  characters; a time or a duration is in nanoseconds.
\<close>

subsection \<open>Events and policies\<close>

datatype stream_kind = StreamKindSession | StreamKindChannel

record stream_event =
  se_id :: string
  se_kind :: stream_kind
  se_channel :: string
  se_tenant :: nat
  se_subject :: nat
  se_name :: string
  se_data :: string
  se_occurred :: int
  se_retry :: int
  se_durable :: bool
  se_request_id :: string
  se_trace_id :: string
  se_meta :: "(string \<times> string) list"

record connection_policy =
  cp_heartbeat :: int
  cp_write_timeout :: int
  cp_queue :: int
  cp_max_conns :: int
  cp_replay :: int
  cp_idle_kick :: string

definition disconnect_slow_consumer :: string where
  "disconnect_slow_consumer = ''disconnect_slow_consumer''"

definition normalize_policy :: "connection_policy \<Rightarrow> connection_policy" where
  "normalize_policy p =
     p\<lparr>cp_heartbeat := if cp_heartbeat p \<le> 0 then 20 * 1000000000 else cp_heartbeat p,
       cp_write_timeout := if cp_write_timeout p \<le> 0 then 10 * 1000000000 else cp_write_timeout p,
       cp_queue := if cp_queue p \<le> 0 then 64 else cp_queue p,
       cp_max_conns := if cp_max_conns p \<le> 0 then 3 else cp_max_conns p,
       cp_replay := if cp_replay p \<le> 0 then 100 else cp_replay p,
       cp_idle_kick := if cp_idle_kick p = '''' then disconnect_slow_consumer else cp_idle_kick p\<rparr>"

lemma normalize_policy_idem [simp]: "normalize_policy (normalize_policy p) = normalize_policy p"
  by (simp add: normalize_policy_def disconnect_slow_consumer_def)

lemma normalize_policy_pos:
  "0 < cp_heartbeat (normalize_policy p)" "0 < cp_write_timeout (normalize_policy p)" "0 < cp_queue (normalize_policy p)"
  "0 < cp_max_conns (normalize_policy p)" "0 < cp_replay (normalize_policy p)" "cp_idle_kick (normalize_policy p) \<noteq> ''''"
  by (simp_all add: normalize_policy_def disconnect_slow_consumer_def)

subsection \<open>The encoder\<close>

definition LF :: char where "LF = CHR 0x0A"
definition CR :: char where "CR = CHR 0x0D"
definition NUL :: char where "NUL = CHR 0x00"

lemma eol_distinct [simp]: "LF \<noteq> CR" "CR \<noteq> LF" "LF \<noteq> NUL" "CR \<noteq> NUL"
  by (simp_all add: LF_def CR_def NUL_def)

text \<open>\<open>bytes.Split\<close> at a single byte.\<close>

fun split_at :: "char \<Rightarrow> string \<Rightarrow> string list" where
  "split_at c [] = [[]]"
| "split_at c (x # xs) = (if x = c then [] # split_at c xs else (x # hd (split_at c xs)) # tl (split_at c xs))"

definition encode_event :: "stream_event \<Rightarrow> string" where
  "encode_event e =
     (if 0 < se_retry e then ''retry: '' @ show_nat (nat (se_retry e)) @ [LF] else []) @
     (if se_id e \<noteq> '''' then ''id: '' @ se_id e @ [LF] else []) @
     (if se_name e \<noteq> '''' then ''event: '' @ se_name e @ [LF] else []) @
     concat (map (\<lambda>line. ''data: '' @ line @ [LF]) (split_at LF (filter (\<lambda>c. c \<noteq> CR) (se_data e)))) @ [LF]"

definition heartbeat_frame :: string where
  "heartbeat_frame = '': keepalive'' @ [LF, LF]"

subsection \<open>The reference client\<close>

type_synonym message = "string \<times> string \<times> string"

record sse_client =
  cl_line :: string
  cl_after_cr :: bool
  cl_data :: string
  cl_event :: string
  cl_last_id :: string
  cl_retry :: "nat option"
  cl_msgs :: "message list"

definition client_start :: sse_client where
  "client_start = \<lparr>cl_line = [], cl_after_cr = False, cl_data = [], cl_event = [], cl_last_id = [], cl_retry = None, cl_msgs = []\<rparr>"

definition client_dispatch :: "sse_client \<Rightarrow> sse_client" where
  "client_dispatch s =
     (if cl_data s = [] then s\<lparr>cl_event := []\<rparr>
      else s\<lparr>cl_data := [], cl_event := [],
        cl_msgs := cl_msgs s @ [(cl_last_id s, if cl_event s = '''' then ''message'' else cl_event s, butlast (cl_data s))]\<rparr>)"

definition is_digits :: "string \<Rightarrow> bool" where
  "is_digits v \<longleftrightarrow> v \<noteq> [] \<and> list_all (\<lambda>c. c \<in> set ''0123456789'') v"

definition client_field :: "string \<Rightarrow> string \<Rightarrow> sse_client \<Rightarrow> sse_client" where
  "client_field f v s =
     (if f = ''event'' then s\<lparr>cl_event := v\<rparr>
      else if f = ''data'' then s\<lparr>cl_data := cl_data s @ v @ [LF]\<rparr>
      else if f = ''id'' then (if NUL \<in> set v then s else s\<lparr>cl_last_id := v\<rparr>)
      else if f = ''retry'' then (if is_digits v then s\<lparr>cl_retry := Some (read_nat v)\<rparr> else s)
      else s)"

definition client_line :: "string \<Rightarrow> sse_client \<Rightarrow> sse_client" where
  "client_line l s =
     (if l = [] then client_dispatch s
      else if hd l = CHR '':'' then s
      else let f = takeWhile (\<lambda>c. c \<noteq> CHR '':'') l; v = drop (length f + 1) l
           in client_field f (if v \<noteq> [] \<and> hd v = CHR '' '' then tl v else v) s)"

definition client_eol :: "sse_client \<Rightarrow> sse_client" where
  "client_eol s = (client_line (cl_line s) s)\<lparr>cl_line := []\<rparr>"

definition client_byte :: "sse_client \<Rightarrow> char \<Rightarrow> sse_client" where
  "client_byte s c =
     (if c = LF then if cl_after_cr s then s\<lparr>cl_after_cr := False\<rparr> else client_eol s
      else if c = CR then (client_eol s)\<lparr>cl_after_cr := True\<rparr>
      else s\<lparr>cl_line := cl_line s @ [c], cl_after_cr := False\<rparr>)"

definition client_read :: "sse_client \<Rightarrow> string \<Rightarrow> sse_client" where
  "client_read = foldl client_byte"

definition messages_of :: "string \<Rightarrow> message list" where
  "messages_of bytes = cl_msgs (client_read client_start bytes)"

subsection \<open>Reading is incremental\<close>

lemma client_read_Nil [simp]: "client_read s [] = s"
  by (simp add: client_read_def)

lemma client_read_append: "client_read s (a @ b) = client_read (client_read s a) b"
  by (simp add: client_read_def)

lemma client_byte_msgs: "\<exists>ms. cl_msgs (client_byte s c) = cl_msgs s @ ms"
proof -
  have field: "cl_msgs (client_field f v t) = cl_msgs t" for f v t by (simp add: client_field_def)
  have "\<exists>ms. cl_msgs (client_line l t) = cl_msgs t @ ms" for l t
    by (auto simp: client_line_def client_dispatch_def field Let_def)
  then show ?thesis by (simp add: client_byte_def client_eol_def)
qed

lemma client_read_msgs: "\<exists>ms. cl_msgs (client_read s bs) = cl_msgs s @ ms"
proof (induction bs rule: rev_induct)
  case (snoc b bs)
  with client_byte_msgs [of "client_read s bs" b] show ?case by (auto simp: client_read_def)
qed simp

text \<open>Part of a stream shows a part of its messages.\<close>

lemma messages_of_prefix: "\<exists>ms. messages_of (a @ b) = messages_of a @ ms"
  unfolding messages_of_def client_read_append by (rule client_read_msgs)

subsection \<open>Reading what the encoder writes\<close>

text \<open>The client between two lines.\<close>

definition at_line :: "sse_client \<Rightarrow> bool" where
  "at_line s \<longleftrightarrow> cl_line s = [] \<and> \<not> cl_after_cr s"

lemma client_read_plain:
  "set l \<inter> {LF, CR} = {} \<Longrightarrow> \<not> cl_after_cr s \<Longrightarrow> client_read s l = s\<lparr>cl_line := cl_line s @ l\<rparr>"
proof (induction l arbitrary: s)
  case (Cons c l)
  then show ?case by (auto simp: client_read_def client_byte_def)
qed simp

lemma client_line_keeps [simp]:
  "cl_line (client_line l s) = cl_line s" "cl_after_cr (client_line l s) = cl_after_cr s"
  by (simp_all add: client_line_def client_field_def client_dispatch_def Let_def)

lemma client_read_line:
  assumes "at_line s" "set l \<inter> {LF, CR} = {}"
  shows "client_read s (l @ [LF]) = client_line l s \<and> at_line (client_line l s)"
proof -
  have line: "(client_line l (s\<lparr>cl_line := m\<rparr>))\<lparr>cl_line := []\<rparr> = (client_line l s)\<lparr>cl_line := []\<rparr>" for m
    by (simp add: client_line_def client_field_def client_dispatch_def Let_def)
  have "(client_line l s)\<lparr>cl_line := []\<rparr> = client_line l s"
    using assms(1) by (simp add: at_line_def sse_client.equality)
  with line assms show ?thesis
    by (simp add: client_read_append client_read_plain at_line_def) (simp add: client_read_def client_byte_def client_eol_def)
qed

lemma client_line_field:
  "CHR '':'' \<notin> set f \<Longrightarrow> f \<noteq> [] \<Longrightarrow> client_line (f @ '': '' @ v) s = client_field f v s"
  by (cases f) (auto simp: client_line_def takeWhile_append Let_def)

lemma client_read_field:
  assumes "at_line s" "set f \<inter> {LF, CR, CHR '':''} = {}" "f \<noteq> []" "set v \<inter> {LF, CR} = {}"
  shows "client_read s (f @ '': '' @ v @ [LF]) = client_field f v s \<and> at_line (client_field f v s)"
proof -
  have "set (f @ '': '' @ v) \<inter> {LF, CR} = {}" using assms by (auto simp: LF_def CR_def)
  from client_read_line [OF assms(1) this] show ?thesis using client_line_field [of f v s] assms(2,3) by simp
qed


lemma split_at_nonempty [simp]: "split_at c xs \<noteq> []"
  by (cases xs) auto

lemma split_at_pieces: "l \<in> set (split_at c xs) \<Longrightarrow> c \<notin> set l \<and> set l \<subseteq> set xs"
proof (induction xs arbitrary: l)
  case (Cons x xs)
  obtain y ys where s: "split_at c xs = y # ys" by (cases "split_at c xs") auto
  with Cons.IH [of y] Cons.IH [of l] Cons.prems show ?case by (auto split: if_splits)
qed simp

lemma split_at_join: "concat (map (\<lambda>l. l @ [c]) (split_at c xs)) = xs @ [c]"
proof (induction xs)
  case (Cons x xs)
  then show ?case by (cases "split_at c xs") auto
qed simp

lemma is_digits_show_nat: "is_digits (show_nat n)"
proof -
  have "map digit_char [0..<10] = ''0123456789''" by code_simp
  then have "digit_char ` {0..9} = set ''0123456789''"
    by (metis atLeastAtMost_upt list.set_map numeral_eq_Suc pred_numeral_simps(2) BitM.simps semiring_norm(26,28))
  then show ?thesis using show_nat_digits [of _ n] by (auto simp: is_digits_def list_all_iff)
qed

definition sendable :: "stream_event \<Rightarrow> bool" where
  "sendable e \<longleftrightarrow> set (se_id e) \<inter> {LF, CR, NUL} = {} \<and> set (se_name e) \<inter> {LF, CR} = {}"

definition between_frames :: "sse_client \<Rightarrow> bool" where
  "between_frames s \<longleftrightarrow> at_line s \<and> cl_data s = [] \<and> cl_event s = []"

text \<open>What the client shall hold after one event: the specification of a frame.\<close>

definition receive_event :: "stream_event \<Rightarrow> sse_client \<Rightarrow> sse_client" where
  "receive_event e s =
     (let i = (if se_id e = '''' then cl_last_id s else se_id e)
      in s\<lparr>cl_last_id := i, cl_retry := if 0 < se_retry e then Some (nat (se_retry e)) else cl_retry s,
           cl_msgs := cl_msgs s @ [(i, if se_name e = '''' then ''message'' else se_name e, filter (\<lambda>c. c \<noteq> CR) (se_data e))]\<rparr>)"

lemma client_read_data:
  assumes "at_line s" "\<forall>l \<in> set ls. set l \<inter> {LF, CR} = {}"
  shows "client_read s (concat (map (\<lambda>line. ''data: '' @ line @ [LF]) ls)) =
    s\<lparr>cl_data := cl_data s @ concat (map (\<lambda>l. l @ [LF]) ls)\<rparr>"
  using assms
proof (induction ls arbitrary: s)
  case (Cons l ls)
  have "client_read s (''data'' @ '': '' @ l @ [LF]) = client_field ''data'' l s \<and> at_line (client_field ''data'' l s)"
    by (rule client_read_field) (use Cons.prems in \<open>auto simp: LF_def CR_def\<close>)
  then have "client_read s (''data: '' @ l @ [LF]) = s\<lparr>cl_data := cl_data s @ l @ [LF]\<rparr>" "at_line (s\<lparr>cl_data := cl_data s @ l @ [LF]\<rparr>)"
    by (simp_all add: client_field_def)
  with Cons.IH [of "s\<lparr>cl_data := cl_data s @ l @ [LF]\<rparr>"] Cons.prems show ?case
    by (simp add: client_read_append del: append_assoc append_Cons append_Nil)
qed simp

lemma client_read_blank: "at_line s \<Longrightarrow> client_read s [LF] = client_dispatch s"
  using client_read_line [of s "[]"] by (simp add: client_line_def)

lemma client_read_optional:
  assumes "at_line s" "b \<Longrightarrow> set f \<inter> {LF, CR, CHR '':''} = {} \<and> f \<noteq> [] \<and> set v \<inter> {LF, CR} = {}"
  shows "client_read s (if b then (f @ '': '') @ v @ [LF] else []) = (if b then client_field f v s else s) \<and>
    at_line (if b then client_field f v s else s)"
  using client_read_field [of s f v] assms by simp

theorem client_read_event:
  assumes "between_frames s" "sendable e"
  shows "client_read s (encode_event e) = receive_event e s \<and> between_frames (receive_event e s)"
proof -
  let ?ls = "split_at LF (filter (\<lambda>c. c \<noteq> CR) (se_data e))"
  let ?s1 = "if 0 < se_retry e then client_field ''retry'' (show_nat (nat (se_retry e))) s else s"
  let ?s2 = "if se_id e \<noteq> '''' then client_field ''id'' (se_id e) ?s1 else ?s1"
  let ?s3 = "if se_name e \<noteq> '''' then client_field ''event'' (se_name e) ?s2 else ?s2"
  have "{LF, CR} \<inter> set ''0123456789'' = {}" by (simp add: LF_def CR_def)
  then have digits: "set (show_nat n) \<inter> {LF, CR} = {}" for n
    using is_digits_show_nat [of n] unfolding is_digits_def list_all_iff by blast
  have at: "at_line s" using assms(1) by (simp add: between_frames_def)
  have 1: "client_read s (if 0 < se_retry e then ''retry: '' @ show_nat (nat (se_retry e)) @ [LF] else []) = ?s1 \<and> at_line ?s1"
    using client_read_optional [OF at, of "0 < se_retry e" "''retry''" "show_nat (nat (se_retry e))"] digits
    by (cases "0 < se_retry e") (simp_all add: LF_def CR_def)
  have 2: "client_read ?s1 (if se_id e \<noteq> '''' then ''id: '' @ se_id e @ [LF] else []) = ?s2 \<and> at_line ?s2"
    using client_read_optional [OF conjunct2 [OF 1], of "se_id e \<noteq> ''''" "''id''" "se_id e"] assms(2)
    by (cases "se_id e = []") (simp_all add: LF_def CR_def sendable_def)
  have 3: "client_read ?s2 (if se_name e \<noteq> '''' then ''event: '' @ se_name e @ [LF] else []) = ?s3 \<and> at_line ?s3"
    using client_read_optional [OF conjunct2 [OF 2], of "se_name e \<noteq> ''''" "''event''" "se_name e"] assms(2)
    by (cases "se_name e = []") (simp_all add: LF_def CR_def sendable_def)
  have "\<forall>l \<in> set ?ls. set l \<inter> {LF, CR} = {}" using split_at_pieces by fastforce
  from client_read_data [OF conjunct2 [OF 3] this]
  have 4: "client_read ?s3 (concat (map (\<lambda>line. ''data: '' @ line @ [LF]) ?ls)) =
      ?s3\<lparr>cl_data := cl_data ?s3 @ filter (\<lambda>c. c \<noteq> CR) (se_data e) @ [LF]\<rparr>"
    by (simp only: split_at_join)
  have "at_line (?s3\<lparr>cl_data := cl_data ?s3 @ filter (\<lambda>c. c \<noteq> CR) (se_data e) @ [LF]\<rparr>)"
    using 3 by (simp add: at_line_def)
  note 5 = client_read_blank [OF this]
  have s3: "?s3 = s\<lparr>cl_retry := if 0 < se_retry e then Some (nat (se_retry e)) else cl_retry s,
      cl_last_id := (if se_id e = '''' then cl_last_id s else se_id e), cl_event := se_name e\<rparr>"
    using assms is_digits_show_nat by (simp add: client_field_def sendable_def between_frames_def)
  have "client_read s (encode_event e) = client_dispatch (?s3\<lparr>cl_data := cl_data ?s3 @ filter (\<lambda>c. c \<noteq> CR) (se_data e) @ [LF]\<rparr>)"
    unfolding encode_event_def client_read_append using 1 2 3 4 5 by (simp only:)
  also have "\<dots> = receive_event e s"
    using assms(1) unfolding s3 by (simp add: client_dispatch_def receive_event_def between_frames_def Let_def)
  finally show ?thesis using assms(1) by (simp add: between_frames_def at_line_def receive_event_def Let_def)
qed

lemma client_read_heartbeat: "between_frames s \<Longrightarrow> client_read s heartbeat_frame = s"
proof -
  assume s: "between_frames s"
  then have at: "at_line s" by (simp add: between_frames_def)
  have "client_read s ('': keepalive'' @ [LF]) = s"
    using client_read_line [OF at, of "'': keepalive''"] by (simp add: client_line_def LF_def CR_def)
  then have "client_read s heartbeat_frame = client_read s [LF]"
    by (simp add: heartbeat_frame_def client_read_append [of s "'': keepalive'' @ [LF]" "[LF]", simplified])
  also have "\<dots> = s" using client_read_blank [OF at] s by (simp add: client_dispatch_def between_frames_def)
  finally show "client_read s heartbeat_frame = s" .
qed

subsection \<open>Streams of frames\<close>

datatype frame = EventFrame stream_event | HeartbeatFrame

fun frame_bytes :: "frame \<Rightarrow> string" where
  "frame_bytes (EventFrame e) = encode_event e"
| "frame_bytes HeartbeatFrame = heartbeat_frame"

fun receive_frame :: "sse_client \<Rightarrow> frame \<Rightarrow> sse_client" where
  "receive_frame s (EventFrame e) = receive_event e s"
| "receive_frame s HeartbeatFrame = s"

fun frame_sendable :: "frame \<Rightarrow> bool" where
  "frame_sendable (EventFrame e) = sendable e"
| "frame_sendable HeartbeatFrame = True"

lemma client_read_frames:
  "between_frames s \<Longrightarrow> list_all frame_sendable fs \<Longrightarrow>
     client_read s (concat (map frame_bytes fs)) = foldl receive_frame s fs \<and> between_frames (foldl receive_frame s fs)"
proof (induction fs arbitrary: s)
  case (Cons f fs)
  then show ?case
    by (cases f) (auto simp: client_read_append client_read_heartbeat client_read_event)
qed simp

text \<open>The messages of a list of events: the type and the data of each, with the identifier last sent.\<close>

fun messages_sent :: "string \<Rightarrow> stream_event list \<Rightarrow> message list" where
  "messages_sent i [] = []"
| "messages_sent i (e # es) =
     (let j = (if se_id e = '''' then i else se_id e)
      in (j, if se_name e = '''' then ''message'' else se_name e, filter (\<lambda>c. c \<noteq> CR) (se_data e)) # messages_sent j es)"

fun frame_events :: "frame list \<Rightarrow> stream_event list" where
  "frame_events [] = []"
| "frame_events (EventFrame e # fs) = e # frame_events fs"
| "frame_events (HeartbeatFrame # fs) = frame_events fs"

lemma receive_frames_msgs:
  "cl_msgs (foldl receive_frame s fs) = cl_msgs s @ messages_sent (cl_last_id s) (frame_events fs)"
proof (induction fs arbitrary: s)
  case (Cons f fs)
  then show ?case by (cases f) (simp_all add: receive_event_def Let_def)
qed simp

lemma between_start: "between_frames client_start"
  by (simp add: between_frames_def at_line_def client_start_def)

lemma messages_of_frames:
  "list_all frame_sendable fs \<Longrightarrow> messages_of (concat (map frame_bytes fs)) = messages_sent '''' (frame_events fs)"
  using client_read_frames [OF between_start] receive_frames_msgs [of client_start]
  by (simp add: messages_of_def client_start_def)

end
