(* ===== verification/Sse_Broker.thy ===== *)
theory Sse_Broker
  imports Sse_Codec "HOL-Library.AList" "HOL-Library.Multiset"
begin

text \<open>
  Connections (\<open>connection.go\<close>) and the broker that indexes them (\<open>broker.go\<close>) in
  \<open>internal/infrastructure/sse\<close>. The code shares connections between three maps by pointer, so the
  model has a heap of connections and maps to references; a map is an association list. Go fixes no
  order of iteration over a map: the operations that copy one take the order as the argument \<open>ord\<close>.
  A missing principal and the subject 0 are the same to the broker.
\<close>

subsection \<open>Connections\<close>

record connection =
  cn_id :: string
  cn_subject :: nat
  cn_channel :: string
  cn_policy :: connection_policy
  cn_writer :: bool
  cn_queue :: "stream_event list"
  cn_closed :: bool
  cn_reason :: string
  cn_on_close :: bool
  cn_running :: bool
  cn_out :: string

definition new_connection :: "string \<Rightarrow> nat \<Rightarrow> string \<Rightarrow> bool \<Rightarrow> connection_policy \<Rightarrow> connection" where
  "new_connection i subject channel writer policy =
     \<lparr>cn_id = i, cn_subject = subject, cn_channel = channel, cn_policy = normalize_policy policy, cn_writer = writer,
      cn_queue = [], cn_closed = False, cn_reason = '''', cn_on_close = False, cn_running = False, cn_out = []\<rparr>"

definition conn_enqueue :: "stream_event \<Rightarrow> connection \<Rightarrow> bool \<times> connection" where
  "conn_enqueue e c =
     (if cn_closed c then (False, c)
      else if int (length (cn_queue c)) < cp_queue (cn_policy c) then (True, c\<lparr>cn_queue := cn_queue c @ [e]\<rparr>)
      else (False, c))"

definition conn_mark_closed :: "string \<Rightarrow> connection \<Rightarrow> connection" where
  "conn_mark_closed reason c = (if cn_closed c then c else c\<lparr>cn_closed := True, cn_reason := reason\<rparr>)"

text \<open>
  One turn of the loop goroutine: the ready case that \<open>select\<close> takes, and what the writer does with
  a frame - writes it all, or fails after some bytes. Any failure ends the loop.
\<close>

datatype loop_case = ContextDone | TakeEvent | HeartbeatTick

datatype write_fate = WriteOk | WriteFails nat

definition conn_write :: "write_fate \<Rightarrow> string \<Rightarrow> string \<Rightarrow> connection \<Rightarrow> connection" where
  "conn_write fate bytes reason c =
     (case fate of
        WriteOk \<Rightarrow> c\<lparr>cn_out := cn_out c @ bytes\<rparr>
      | WriteFails k \<Rightarrow> conn_mark_closed reason (c\<lparr>cn_out := cn_out c @ take k bytes, cn_running := False\<rparr>))"

definition conn_loop :: "loop_case \<Rightarrow> write_fate \<Rightarrow> connection \<Rightarrow> connection" where
  "conn_loop i fate c =
     (if \<not> cn_running c then c
      else if \<not> cn_writer c then (conn_mark_closed ''writer_missing'' c)\<lparr>cn_running := False\<rparr>
      else (case i of
          ContextDone \<Rightarrow> (conn_mark_closed ''context_done'' c)\<lparr>cn_running := False\<rparr>
        | TakeEvent \<Rightarrow>
            (case cn_queue c of
               [] \<Rightarrow> c
             | e # q \<Rightarrow> conn_write fate (encode_event e) ''write_failed'' (c\<lparr>cn_queue := q\<rparr>))
        | HeartbeatTick \<Rightarrow> conn_write fate heartbeat_frame ''heartbeat_failed'' c))"

text \<open>
  The life of a connection as others and its own loop act on it, with the events it accepted. Registering
  it sets the closing callback and starts the loop, once.
\<close>

datatype conn_op = OpStart | OpEnqueue stream_event | OpClose string | OpLoop loop_case write_fate

fun conn_run :: "conn_op list \<Rightarrow> connection \<Rightarrow> stream_event list \<times> connection" where
  "conn_run [] c = ([], c)"
| "conn_run (OpStart # ops) c = conn_run ops (if cn_on_close c then c else c\<lparr>cn_on_close := True, cn_running := True\<rparr>)"
| "conn_run (OpEnqueue e # ops) c =
     (case conn_enqueue e c of (ok, c') \<Rightarrow> (case conn_run ops c' of (es, c'') \<Rightarrow> (if ok then e # es else es, c'')))"
| "conn_run (OpClose reason # ops) c = conn_run ops (conn_mark_closed reason c)"
| "conn_run (OpLoop i fate # ops) c = conn_run ops (conn_loop i fate c)"

subsection \<open>What a connection writes\<close>

text \<open>
  While the loop runs, the bytes written are whole frames and their events followed by the queue are
  the events accepted; after it has ended, the bytes are the beginning of such frames.
\<close>

definition started :: "connection \<Rightarrow> bool" where
  "started c \<longleftrightarrow> (cn_running c \<longrightarrow> cn_on_close c)"

definition written :: "stream_event list \<Rightarrow> connection \<Rightarrow> bool" where
  "written es c \<longleftrightarrow> started c \<and> (\<exists>fs x y. cn_out c @ x = concat (map frame_bytes fs) \<and> frame_events fs @ y = es \<and>
     ((\<not> cn_closed c \<or> cn_running c \<or> \<not> cn_on_close c) \<longrightarrow> x = [] \<and> y = cn_queue c))"

lemma writtenI:
  "started c \<Longrightarrow> cn_out c @ x = concat (map frame_bytes fs) \<Longrightarrow> frame_events fs @ y = es \<Longrightarrow>
     (\<not> cn_closed c \<or> cn_running c \<or> \<not> cn_on_close c \<Longrightarrow> x = [] \<and> y = cn_queue c) \<Longrightarrow> written es c"
  unfolding written_def by blast

lemma frame_events_append [simp]: "frame_events (fs @ gs) = frame_events fs @ frame_events gs"
  by (induction fs rule: frame_events.induct) auto

lemma written_enqueue:
  "written es c \<Longrightarrow> conn_enqueue e c = (ok, c') \<Longrightarrow> written (if ok then es @ [e] else es) c'"
proof -
  assume w: "written es c" and enq: "conn_enqueue e c = (ok, c')"
  show ?thesis
  proof (cases ok)
    case True
    with enq have c': "c' = c\<lparr>cn_queue := cn_queue c @ [e]\<rparr>" "\<not> cn_closed c"
      by (auto simp: conn_enqueue_def split: if_splits)
    with w obtain fs where "cn_out c = concat (map frame_bytes fs)" "frame_events fs @ cn_queue c = es"
      by (auto simp: written_def)
    then have "cn_out c' @ [] = concat (map frame_bytes fs)" "frame_events fs @ cn_queue c' = es @ [e]" using c' by auto
    moreover have "started c'" using w c' by (simp add: written_def started_def)
    ultimately show ?thesis using True by (intro writtenI [of c' "[]" fs "cn_queue c'"]) simp_all
  next
    case False
    with enq w show ?thesis by (auto simp: conn_enqueue_def split: if_splits)
  qed
qed

lemma written_close: "written es c \<Longrightarrow> written es (conn_mark_closed r c)"
  by (auto simp: written_def started_def conn_mark_closed_def)

lemma written_write:
  assumes "cn_out c = concat (map frame_bytes fs)" "frame_events (fs @ [f]) @ q = es" "cn_on_close c"
  shows "written es (conn_write fate (frame_bytes f) r (c\<lparr>cn_queue := q\<rparr>))"
proof (cases fate)
  case WriteOk
  then show ?thesis using assms by (intro writtenI [of _ "[]" "fs @ [f]" q]) (auto simp: conn_write_def started_def)
next
  case (WriteFails k)
  let ?c = "conn_write fate (frame_bytes f) r (c\<lparr>cn_queue := q\<rparr>)"
  have "cn_out ?c @ drop k (frame_bytes f) = concat (map frame_bytes (fs @ [f]))" "cn_closed ?c" "\<not> cn_running ?c" "cn_on_close ?c"
    using assms(1,3) WriteFails by (simp_all add: conn_write_def conn_mark_closed_def)
  then show ?thesis using assms(2) by (intro writtenI [of ?c "drop k (frame_bytes f)" "fs @ [f]" q]) (simp_all add: started_def)
qed

lemma written_loop:
  assumes "written es c"
  shows "written es (conn_loop i fate c)"
proof (cases "cn_running c \<and> cn_writer c")
  case True
  with assms obtain fs where fs: "cn_out c = concat (map frame_bytes fs)" "frame_events fs @ cn_queue c = es"
    and on: "cn_on_close c" by (auto simp: written_def started_def)
  have stop: "written es ((conn_mark_closed r c)\<lparr>cn_running := False\<rparr>)" for r
    using assms by (auto simp: written_def started_def conn_mark_closed_def)
  show ?thesis
  proof (cases i)
    case ContextDone
    with True stop show ?thesis by (simp add: conn_loop_def)
  next
    case TakeEvent
    show ?thesis
    proof (cases "cn_queue c")
      case Nil
      with TakeEvent assms True show ?thesis by (simp add: conn_loop_def)
    next
      case (Cons e q)
      then show ?thesis using True TakeEvent fs on written_write [OF fs(1), of "EventFrame e" q es fate "''write_failed''"]
        by (simp add: conn_loop_def)
    qed
  next
    case HeartbeatTick
    then show ?thesis using True fs on written_write [OF fs(1), of HeartbeatFrame "cn_queue c" es fate "''heartbeat_failed''"]
      by (simp add: conn_loop_def)
  qed
next
  case False
  then show ?thesis using assms by (auto simp: conn_loop_def written_def started_def conn_mark_closed_def)
qed

lemma conn_run_written:
  "written es c \<Longrightarrow> conn_run ops c = (as, c') \<Longrightarrow> written (es @ as) c'"
proof (induction ops c arbitrary: es as rule: conn_run.induct)
  case (2 ops c)
  have "written es (if cn_on_close c then c else c\<lparr>cn_on_close := True, cn_running := True\<rparr>)" using 2(2) by (auto simp: written_def started_def)
  from 2(1) [OF this] 2(3) show ?case by simp
next
  case (3 e ops c)
  obtain ok d where enq: "conn_enqueue e c = (ok, d)" by (metis prod.collapse)
  obtain bs where run: "conn_run ops d = (bs, c')" "as = (if ok then e # bs else bs)"
    using 3(3) enq by (auto split: prod.splits)
  from 3(1) [OF enq [symmetric] written_enqueue [OF 3(2) enq] run(1)] run(2) show ?case by (cases ok) auto
next
  case (4 reason ops c)
  then show ?case using written_close by simp
next
  case (5 i fate ops c)
  then show ?case using written_loop by simp
qed simp

text \<open>The messages the client has are the first of those accepted, in order.\<close>

lemma messages_sent_append:
  "\<exists>j. messages_sent i (as @ bs) = messages_sent i as @ messages_sent j bs"
  by (induction as arbitrary: i) (auto simp: Let_def)

lemma frame_sendable_events: "list_all frame_sendable fs \<longleftrightarrow> list_all sendable (frame_events fs)"
  by (induction fs rule: frame_events.induct) auto

lemma written_messages:
  assumes "written es c" "list_all sendable es"
  shows "\<exists>rest. messages_sent '''' es = messages_of (cn_out c) @ rest \<and> (cn_running c \<and> cn_queue c = [] \<longrightarrow> rest = [])"
proof -
  from assms(1) obtain fs x y where out: "cn_out c @ x = concat (map frame_bytes fs)" "frame_events fs @ y = es"
    and run: "cn_running c \<longrightarrow> x = [] \<and> y = cn_queue c" by (auto simp: written_def started_def)
  have "list_all frame_sendable fs" using assms(2) out(2) by (auto simp: frame_sendable_events)
  note all = messages_of_frames [OF this, folded out(1)]
  obtain ms where ms: "messages_of (cn_out c @ x) = messages_of (cn_out c) @ ms" using messages_of_prefix by blast
  obtain j where j: "messages_sent '''' es = messages_sent '''' (frame_events fs) @ messages_sent j y"
    using messages_sent_append out(2) by blast
  have "cn_running c \<and> cn_queue c = [] \<longrightarrow> ms @ messages_sent j y = []" using run ms by auto
  with all ms j show ?thesis by (intro exI [of _ "ms @ messages_sent j y"]) simp
qed

end
