(* ===== verification/Sse_Registry.thy ===== *)
theory Sse_Registry
  imports Sse_Broker
begin

text \<open>
  The broker of \<open>broker.go\<close>: its maps from connection identifiers, subjects and channels to the
  connections of a heap, every operation, and the invariant that ties the maps together.
\<close>

type_synonym conn_index = "(string \<times> nat) list"

record broker =
  bk_policy :: connection_policy
  bk_heap :: "nat \<Rightarrow> connection"
  bk_conns :: conn_index
  bk_by_subject :: "(nat \<times> conn_index) list"
  bk_by_channel :: "(string \<times> conn_index) list"
  bk_draining :: bool
  bk_dropped :: nat

datatype broker_err = ErrNilConnection | ErrBrokerDraining | ErrTooManyConnections

definition new_broker :: "connection_policy \<Rightarrow> (nat \<Rightarrow> connection) \<Rightarrow> broker" where
  "new_broker policy heap =
     \<lparr>bk_policy = normalize_policy policy, bk_heap = heap, bk_conns = [], bk_by_subject = [], bk_by_channel = [],
      bk_draining = False, bk_dropped = 0\<rparr>"

subsection \<open>One index\<close>

definition bucket :: "('k \<times> conn_index) list \<Rightarrow> 'k \<Rightarrow> conn_index" where
  "bucket m k = (case map_of m k of None \<Rightarrow> [] | Some b \<Rightarrow> b)"

definition index_add :: "'k option \<Rightarrow> string \<Rightarrow> nat \<Rightarrow> ('k \<times> conn_index) list \<Rightarrow> ('k \<times> conn_index) list" where
  "index_add key i r m = (case key of None \<Rightarrow> m | Some k \<Rightarrow> AList.update k (AList.update i r (bucket m k)) m)"

definition index_remove :: "'k option \<Rightarrow> string \<Rightarrow> ('k \<times> conn_index) list \<Rightarrow> ('k \<times> conn_index) list" where
  "index_remove key i m =
     (case key of None \<Rightarrow> m
      | Some k \<Rightarrow> (case map_of m k of None \<Rightarrow> m
                 | Some b \<Rightarrow> (let b' = AList.delete i b in if b' = [] then AList.delete k m else AList.update k b' m)))"

definition subject_key :: "connection \<Rightarrow> nat option" where
  "subject_key c = (if 0 < cn_subject c then Some (cn_subject c) else None)"

definition channel_key :: "connection \<Rightarrow> string option" where
  "channel_key c = (if cn_channel c \<noteq> '''' then Some (cn_channel c) else None)"

subsection \<open>Operations\<close>

definition broker_register :: "nat option \<Rightarrow> broker \<Rightarrow> (broker_err + unit) \<times> broker" where
  "broker_register conn b =
     (case conn of
        None \<Rightarrow> (Inl ErrNilConnection, b)
      | Some r \<Rightarrow>
          let c = bk_heap b r in
          if bk_draining b then (Inl ErrBrokerDraining, b)
          else if 0 < cn_subject c \<and> cp_max_conns (bk_policy b) \<le> int (length (bucket (bk_by_subject b) (cn_subject c)))
          then (Inl ErrTooManyConnections, b)
          else (Inr (), b\<lparr>bk_conns := AList.update (cn_id c) r (bk_conns b),
                         bk_by_subject := index_add (subject_key c) (cn_id c) r (bk_by_subject b),
                         bk_by_channel := index_add (channel_key c) (cn_id c) r (bk_by_channel b),
                         bk_heap := (bk_heap b)(r := c\<lparr>cn_on_close := True, cn_running := True\<rparr>)\<rparr>))"

text \<open>The part of \<open>unregisterInternal\<close> that runs under the lock.\<close>

definition unindex :: "string \<Rightarrow> broker \<Rightarrow> nat option \<times> broker" where
  "unindex i b =
     (case map_of (bk_conns b) i of
        None \<Rightarrow> (None, b)
      | Some r \<Rightarrow>
          let c = bk_heap b r in
          (Some r, b\<lparr>bk_conns := AList.delete i (bk_conns b),
                     bk_by_subject := index_remove (subject_key c) i (bk_by_subject b),
                     bk_by_channel := index_remove (channel_key c) i (bk_by_channel b)\<rparr>))"

definition mark_closed :: "nat \<Rightarrow> string \<Rightarrow> broker \<Rightarrow> broker" where
  "mark_closed r reason b = b\<lparr>bk_heap := (bk_heap b)(r := conn_mark_closed reason (bk_heap b r))\<rparr>"

text \<open>\<open>Connection.Close\<close>: once, mark it and call the broker back to clean its indexes.\<close>

definition conn_close :: "nat \<Rightarrow> string \<Rightarrow> broker \<Rightarrow> broker" where
  "conn_close r reason b =
     (let c = bk_heap b r in
      if cn_closed c then b
      else let b1 = mark_closed r reason b
           in if cn_on_close c then snd (unindex (cn_id c) b1) else b1)"

definition broker_unregister :: "string \<Rightarrow> broker \<Rightarrow> broker" where
  "broker_unregister i b =
     (case unindex i b of (None, b1) \<Rightarrow> b1 | (Some r, b1) \<Rightarrow> conn_close r ''unregister'' b1)"

definition enqueue_at :: "nat \<Rightarrow> stream_event \<Rightarrow> broker \<Rightarrow> bool \<times> broker" where
  "enqueue_at r e b =
     (case conn_enqueue e (bk_heap b r) of (ok, c) \<Rightarrow> (ok, b\<lparr>bk_heap := (bk_heap b)(r := c)\<rparr>))"

fun publish_loop :: "nat list \<Rightarrow> stream_event \<Rightarrow> broker \<Rightarrow> nat \<times> string list \<times> broker" where
  "publish_loop [] e b = (0, [], b)"
| "publish_loop (r # rs) e b =
     (case enqueue_at r e b of (ok, b1) \<Rightarrow>
        (case publish_loop rs e b1 of (delivered, slow, b2) \<Rightarrow>
           if ok then (Suc delivered, slow, b2) else (delivered, cn_id (bk_heap b r) # slow, b2)))"

fun drop_slow :: "string list \<Rightarrow> broker \<Rightarrow> broker" where
  "drop_slow [] b = b"
| "drop_slow (i # is) b = drop_slow is (broker_unregister i (b\<lparr>bk_dropped := Suc (bk_dropped b)\<rparr>))"

definition broker_publish :: "nat list \<Rightarrow> stream_event option \<Rightarrow> broker \<Rightarrow> nat \<times> broker" where
  "broker_publish conns evt b =
     (case evt of
        None \<Rightarrow> (0, b)
      | Some e \<Rightarrow> if conns = [] then (0, b)
                 else (case publish_loop conns e b of (delivered, slow, b1) \<Rightarrow> (delivered, drop_slow slow b1)))"

definition publish_to_subject :: "(nat list \<Rightarrow> nat list) \<Rightarrow> nat \<Rightarrow> stream_event option \<Rightarrow> broker \<Rightarrow> nat \<times> broker" where
  "publish_to_subject ord s evt b = broker_publish (ord (map snd (bucket (bk_by_subject b) s))) evt b"

definition publish_to_channel :: "(nat list \<Rightarrow> nat list) \<Rightarrow> string \<Rightarrow> stream_event option \<Rightarrow> broker \<Rightarrow> nat \<times> broker" where
  "publish_to_channel ord ch evt b = broker_publish (ord (map snd (bucket (bk_by_channel b) ch))) evt b"

fun close_all :: "nat list \<Rightarrow> string \<Rightarrow> broker \<Rightarrow> broker" where
  "close_all [] reason b = b"
| "close_all (r # rs) reason b = close_all rs reason (conn_close r reason b)"

definition revoke_subject :: "(nat list \<Rightarrow> nat list) \<Rightarrow> nat \<Rightarrow> string \<Rightarrow> broker \<Rightarrow> nat \<times> broker" where
  "revoke_subject ord s reason b =
     (let conns = ord (map snd (bucket (bk_by_subject b) s)) in (length conns, close_all conns reason b))"

definition begin_drain :: "(nat list \<Rightarrow> nat list) \<Rightarrow> broker \<Rightarrow> broker" where
  "begin_drain ord b =
     (if bk_draining b then b
      else let b1 = b\<lparr>bk_draining := True\<rparr> in close_all (ord (map snd (bk_conns b1))) ''drain'' b1)"

definition broker_stats :: "broker \<Rightarrow> nat \<times> nat \<times> nat \<times> nat" where
  "broker_stats b = (length (bk_conns b), length (bk_by_subject b), length (bk_by_channel b), bk_dropped b)"

subsection \<open>The index invariant\<close>

definition index_ok :: "(nat \<Rightarrow> 'k option) \<Rightarrow> conn_index \<Rightarrow> ('k \<times> conn_index) list \<Rightarrow> bool" where
  "index_ok key conns m \<longleftrightarrow> distinct (map fst m) \<and>
     (\<forall>k b. (k, b) \<in> set m \<longrightarrow> b \<noteq> [] \<and> distinct (map fst b)) \<and>
     (\<forall>k i r. map_of (bucket m k) i = Some r \<longleftrightarrow> map_of conns i = Some r \<and> key r = Some k)"

lemma map_of_update [simp]: "map_of (AList.update k v m) = (map_of m)(k \<mapsto> v)"
  by (simp add: update_conv')

lemma map_of_delete [simp]: "map_of (AList.delete k m) = (map_of m)(k := None)"
  by (simp add: delete_conv')

lemma bucket_update [simp]: "bucket (AList.update k b m) k' = (if k' = k then b else bucket m k')"
  by (simp add: bucket_def)

lemma bucket_delete [simp]: "bucket (AList.delete k m) k' = (if k' = k then [] else bucket m k')"
  by (simp add: bucket_def)

lemma bucket_mem: "map_of m k = Some b \<Longrightarrow> bucket m k = b" "map_of m k = None \<Longrightarrow> bucket m k = []"
  by (simp_all add: bucket_def)

lemma set_update_mem: "distinct (map fst m) \<Longrightarrow> (k', b') \<in> set (AList.update k b m) \<Longrightarrow> (k', b') = (k, b) \<or> (k', b') \<in> set m"
  by (metis distinct_update fun_upd_apply map_of_SomeD map_of_eq_Some_iff map_of_update option.inject)

lemma set_delete_mem: "p \<in> set (AList.delete k m) \<Longrightarrow> p \<in> set m"
  by (auto simp: AList.delete_eq)

lemma distinct_bucket: "index_ok key conns m \<Longrightarrow> distinct (map fst (bucket m k))"
  by (cases "map_of m k") (auto simp: bucket_def index_ok_def dest: map_of_SomeD)

lemma index_ok_nonempty: "index_ok key conns m \<Longrightarrow> map_of m k \<noteq> Some []"
  unfolding index_ok_def by (metis map_of_SomeD)

lemma index_ok_add:
  assumes "index_ok key conns m" "map_of conns i = None"
  shows "index_ok key (AList.update i r conns) (index_add (key r) i r m)"
proof (cases "key r")
  case None
  then show ?thesis using assms by (auto simp: index_ok_def index_add_def split: if_splits)
next
  case (Some k)
  let ?b = "AList.update i r (bucket m k)"
  have "?b \<noteq> []" by (metis fun_upd_same map_of.simps(1) map_of_update option.discI)
  moreover have "distinct (map fst ?b)" using distinct_bucket [OF assms(1)] by (rule distinct_update)
  ultimately have "(k', b) \<in> set (AList.update k ?b m) \<Longrightarrow> b \<noteq> [] \<and> distinct (map fst b)" for k' b
    using assms(1) set_update_mem [of m k' b k ?b] by (auto simp: index_ok_def)
  moreover have "map_of (bucket (AList.update k ?b m) k') j = Some q \<longleftrightarrow>
      map_of (AList.update i r conns) j = Some q \<and> key q = Some k'" for k' j q
    using assms Some by (cases "j = i"; cases "k' = k") (auto simp: index_ok_def)
  moreover have "distinct (map fst (AList.update k ?b m))"
    using assms(1) unfolding index_ok_def by (metis distinct_update)
  ultimately show ?thesis using Some unfolding index_ok_def by (simp add: index_add_def)
qed

lemma index_ok_remove:
  assumes "index_ok key conns m" "map_of conns i = Some r"
  shows "index_ok key (AList.delete i conns) (index_remove (key r) i m)"
proof (cases "key r")
  case None
  then show ?thesis using assms by (auto simp: index_ok_def index_remove_def split: if_splits)
next
  case (Some k)
  then have "map_of (bucket m k) i = Some r" using assms by (simp add: index_ok_def)
  then obtain b where b: "map_of m k = Some b" by (cases "map_of m k") (auto simp: bucket_def)
  let ?b = "AList.delete i b"
  let ?m = "if ?b = [] then AList.delete k m else AList.update k ?b m"
  have bk: "bucket m k = b" using b by (rule bucket_mem)
  have dst: "distinct (map fst ?b)" using distinct_bucket [OF assms(1), of k] bk by (simp add: distinct_delete)
  have old: "(k', c) \<in> set m \<Longrightarrow> c \<noteq> [] \<and> distinct (map fst c)" for k' c
    using assms(1) by (simp add: index_ok_def)
  have mem: "(k', c) \<in> set ?m \<Longrightarrow> (k', c) \<in> set m \<or> c = ?b \<and> ?b \<noteq> []" for k' c
    using set_update_mem [of m k' c k ?b] set_delete_mem [of "(k', c)" k m] assms(1)
    by (cases "?b = []") (simp_all add: index_ok_def, blast?)
  have 1: "c \<noteq> [] \<and> distinct (map fst c)" if "(k', c) \<in> set ?m" for k' c using mem [OF that] old [of k' c] dst by (elim disjE) simp_all
  have iff: "map_of (bucket m k') j = Some q \<longleftrightarrow> map_of conns j = Some q \<and> key q = Some k'" for k' j q
    using assms(1) by (simp add: index_ok_def)
  have bm: "map_of (bucket ?m k') = (if k' = k then (map_of b)(i := None) else map_of (bucket m k'))" for k'
    by (simp add: map_of_delete [symmetric] del: map_of_delete)
  have 2: "map_of (bucket ?m k') j = Some q \<longleftrightarrow> map_of (AList.delete i conns) j = Some q \<and> key q = Some k'" for k' j q
  proof (cases "k' = k")
    case True
    with iff [of k j q] bk show ?thesis unfolding bm by simp
  next
    case False
    have "map_of (AList.delete i conns) j = (if j = i then None else map_of conns j)" by simp
    moreover have "\<not> (Some r = Some q \<and> key q = Some k')" using Some False by auto
    ultimately show ?thesis using iff [of k' j q] assms(2) False unfolding bm by (cases "j = i") (simp_all only: if_False if_True refl, auto)
  qed
  have 3: "distinct (map fst ?m)"
    using assms(1) unfolding index_ok_def by (simp add: distinct_update distinct_delete)
  have "index_remove (key r) i m = ?m" using Some b by (simp add: index_remove_def Let_def)
  moreover have "index_ok key (AList.delete i conns) ?m"
    unfolding index_ok_def by (intro conjI allI impI) (rule 3, erule 1 [THEN conjunct1], erule 1 [THEN conjunct2], rule 2)
  ultimately show ?thesis by simp
qed

subsection \<open>Steps of the broker\<close>

text \<open>
  What can happen to a broker in one piece while other goroutines run: the critical sections and the
  atomic flags. A connection is registered once, under an identifier not in use.
\<close>

inductive broker_step :: "broker \<Rightarrow> broker \<Rightarrow> bool" where
  step_register: "map_of (bk_conns b) (cn_id (bk_heap b r)) = None \<Longrightarrow> \<not> cn_on_close (bk_heap b r) \<Longrightarrow>
     broker_step b (snd (broker_register (Some r) b))"
| step_unindex: "broker_step b (snd (unindex i b))"
| step_close: "broker_step b (mark_closed r reason b)"
| step_enqueue: "broker_step b (snd (enqueue_at r e b))"
| step_loop: "broker_step b (b\<lparr>bk_heap := (bk_heap b)(r := conn_loop i fate (bk_heap b r))\<rparr>)"
| step_drain: "broker_step b (b\<lparr>bk_draining := True\<rparr>)"
| step_drop: "broker_step b (b\<lparr>bk_dropped := Suc (bk_dropped b)\<rparr>)"

inductive_cases broker_step_cases: "broker_step b b'"

lemmas bk_intros = step_register step_unindex step_close step_enqueue step_loop step_drain step_drop

definition broker_ok :: "broker \<Rightarrow> bool" where
  "broker_ok b \<longleftrightarrow>
     index_ok (\<lambda>r. subject_key (bk_heap b r)) (bk_conns b) (bk_by_subject b) \<and>
     index_ok (\<lambda>r. channel_key (bk_heap b r)) (bk_conns b) (bk_by_channel b) \<and>
     distinct (map fst (bk_conns b)) \<and>
     (\<forall>i r. map_of (bk_conns b) i = Some r \<longrightarrow> cn_id (bk_heap b r) = i \<and> cn_on_close (bk_heap b r))"

lemma broker_ok_new: "broker_ok (new_broker policy heap)"
  by (simp add: broker_ok_def new_broker_def index_ok_def bucket_def)

text \<open>What a step may do to a connection: its identity stays, and it does not reopen.\<close>

definition same_conn :: "connection \<Rightarrow> connection \<Rightarrow> bool" where
  "same_conn c d \<longleftrightarrow> cn_id d = cn_id c \<and> cn_subject d = cn_subject c \<and> cn_channel d = cn_channel c \<and>
     (cn_on_close c \<longrightarrow> cn_on_close d) \<and> (cn_closed c \<longrightarrow> cn_closed d)"

lemma same_conn_refl [simp]: "same_conn c c"
  by (simp add: same_conn_def)

lemma same_conn_trans: "same_conn a b \<Longrightarrow> same_conn b c \<Longrightarrow> same_conn a c"
  by (simp add: same_conn_def)

lemma same_conn_keys: "same_conn c d \<Longrightarrow> subject_key d = subject_key c \<and> channel_key d = channel_key c"
  by (simp add: same_conn_def subject_key_def channel_key_def)

lemma same_conn_ops [simp]:
  "same_conn c (conn_mark_closed reason c)" "same_conn c (snd (conn_enqueue e c))" "same_conn c (conn_loop i fate c)"
  by (auto simp: same_conn_def conn_mark_closed_def conn_enqueue_def conn_loop_def conn_write_def
      split: loop_case.splits write_fate.splits list.splits)

lemma index_ok_cong:
  "(\<And>r. key' r = key r) \<Longrightarrow> index_ok key' conns m = index_ok key conns m"
  by (simp add: index_ok_def)

lemma broker_ok_heap:
  assumes "broker_ok b" "\<And>r. same_conn (bk_heap b r) (h r)"
  shows "broker_ok (b\<lparr>bk_heap := h, bk_draining := d, bk_dropped := n\<rparr>)"
  using assms same_conn_keys [OF assms(2)] by (auto simp: broker_ok_def same_conn_def)

lemma bk_update_drop [simp]: "b\<lparr>bk_heap := h, bk_draining := bk_draining b, bk_dropped := bk_dropped b\<rparr> = b\<lparr>bk_heap := h\<rparr>"
  by simp

lemma broker_ok_unindex:
  assumes "broker_ok b"
  shows "broker_ok (snd (unindex i b))"
proof (cases "map_of (bk_conns b) i")
  case (Some r)
  note ok = assms [unfolded broker_ok_def]
  have "index_ok (\<lambda>r. subject_key (bk_heap b r)) (AList.delete i (bk_conns b)) (index_remove (subject_key (bk_heap b r)) i (bk_by_subject b))"
    "index_ok (\<lambda>r. channel_key (bk_heap b r)) (AList.delete i (bk_conns b)) (index_remove (channel_key (bk_heap b r)) i (bk_by_channel b))"
    using ok by (auto intro: index_ok_remove [OF _ Some])
  with ok Some show ?thesis by (simp add: broker_ok_def unindex_def Let_def distinct_delete)
qed (use assms in \<open>simp add: unindex_def\<close>)

lemma broker_ok_register:
  assumes "broker_ok b" "map_of (bk_conns b) (cn_id (bk_heap b r)) = None"
  shows "broker_ok (snd (broker_register (Some r) b))"
proof -
  let ?c = "bk_heap b r" and ?h = "(bk_heap b)(r := (bk_heap b r)\<lparr>cn_on_close := True, cn_running := True\<rparr>)"
  note ok = assms(1) [unfolded broker_ok_def]
  have same: "same_conn (bk_heap b q) (?h q)" for q by (simp add: same_conn_def)
  have "index_ok (\<lambda>q. subject_key (bk_heap b q)) (AList.update (cn_id ?c) r (bk_conns b)) (index_add (subject_key ?c) (cn_id ?c) r (bk_by_subject b))"
    "index_ok (\<lambda>q. channel_key (bk_heap b q)) (AList.update (cn_id ?c) r (bk_conns b)) (index_add (channel_key ?c) (cn_id ?c) r (bk_by_channel b))"
    using ok by (auto intro: index_ok_add [OF _ assms(2)])
  then have "index_ok (\<lambda>q. subject_key (?h q)) (AList.update (cn_id ?c) r (bk_conns b)) (index_add (subject_key ?c) (cn_id ?c) r (bk_by_subject b))"
    "index_ok (\<lambda>q. channel_key (?h q)) (AList.update (cn_id ?c) r (bk_conns b)) (index_add (channel_key ?c) (cn_id ?c) r (bk_by_channel b))"
    using same_conn_keys [OF same] by simp_all
  moreover have "map_of (AList.update (cn_id ?c) r (bk_conns b)) i = Some q \<Longrightarrow> cn_id (?h q) = i \<and> cn_on_close (?h q)" for i q
    using ok by (cases "i = cn_id ?c"; cases "q = r") (simp_all del: map_of_eq_Some_iff)
  ultimately show ?thesis using ok
    by (simp add: broker_ok_def broker_register_def Let_def distinct_update del: map_of_eq_Some_iff)
qed

lemma broker_ok_step: "broker_step b b' \<Longrightarrow> broker_ok b \<Longrightarrow> broker_ok b'"
proof (induction rule: broker_step.induct)
  case (step_enqueue b r e)
  then show ?case using broker_ok_heap [where b = b and d = "bk_draining b" and n = "bk_dropped b"
      and h = "(bk_heap b)(r := snd (conn_enqueue e (bk_heap b r)))"]
    by (simp add: enqueue_at_def split_beta)
next
  case (step_close b r reason)
  then show ?case using broker_ok_heap [where b = b and d = "bk_draining b" and n = "bk_dropped b"
      and h = "(bk_heap b)(r := conn_mark_closed reason (bk_heap b r))"]
    by (simp add: mark_closed_def)
next
  case (step_loop b r i fate)
  then show ?case using broker_ok_heap [where b = b and d = "bk_draining b" and n = "bk_dropped b"
      and h = "(bk_heap b)(r := conn_loop i fate (bk_heap b r))"]
    by simp
qed (simp_all add: broker_ok_unindex broker_ok_register, simp_all add: broker_ok_def)

lemma broker_ok_steps: "broker_step\<^sup>*\<^sup>* b b' \<Longrightarrow> broker_ok b \<Longrightarrow> broker_ok b'"
  by (induction rule: rtranclp_induct) (auto intro: broker_ok_step)


subsection \<open>Operations are made of steps\<close>

lemma unindex_steps: "broker_step\<^sup>*\<^sup>* b (snd (unindex i b))"
  by (rule r_into_rtranclp) (rule step_unindex)

lemma conn_close_steps: "broker_step\<^sup>*\<^sup>* b (conn_close r reason b)"
proof (cases "cn_closed (bk_heap b r)")
  case False
  have "broker_step\<^sup>*\<^sup>* b (mark_closed r reason b)" by (rule r_into_rtranclp) (rule step_close)
  also have "broker_step\<^sup>*\<^sup>* (mark_closed r reason b) (snd (unindex (cn_id (bk_heap b r)) (mark_closed r reason b)))"
    by (rule unindex_steps)
  finally show ?thesis using False \<open>broker_step\<^sup>*\<^sup>* b (mark_closed r reason b)\<close> by (simp add: conn_close_def Let_def)
qed (simp add: conn_close_def)

lemma broker_unregister_steps: "broker_step\<^sup>*\<^sup>* b (broker_unregister i b)"
proof -
  have "broker_step\<^sup>*\<^sup>* b (snd (unindex i b))" by (rule unindex_steps)
  then show ?thesis
    by (auto simp: broker_unregister_def split: prod.splits option.splits
        intro: rtranclp_trans [OF _ conn_close_steps])
qed

lemma publish_loop_steps: "publish_loop rs e b = (n, slow, b') \<Longrightarrow> broker_step\<^sup>*\<^sup>* b b'"
proof (induction rs arbitrary: b n slow)
  case (Cons r rs)
  obtain ok b1 where enq: "enqueue_at r e b = (ok, b1)" by (metis prod.collapse)
  obtain m s where rest: "publish_loop rs e b1 = (m, s, b')"
    using Cons.prems enq by (auto split: prod.splits if_splits)
  have "broker_step b b1" using step_enqueue [of b r e] enq by simp
  then show ?case using Cons.IH [OF rest] by (rule converse_rtranclp_into_rtranclp)
qed simp

lemma drop_slow_steps: "broker_step\<^sup>*\<^sup>* b (drop_slow is b)"
proof (induction "is" arbitrary: b)
  case (Cons i "is")
  have "broker_step\<^sup>*\<^sup>* b (b\<lparr>bk_dropped := Suc (bk_dropped b)\<rparr>)" by (rule r_into_rtranclp) (rule step_drop)
  also note broker_unregister_steps [of _ i]
  also note Cons.IH
  finally show ?case by simp
qed simp

lemma broker_publish_steps: "broker_step\<^sup>*\<^sup>* b (snd (broker_publish rs evt b))"
  by (auto simp: broker_publish_def split: option.splits prod.splits
      intro: rtranclp_trans [OF publish_loop_steps drop_slow_steps])

lemma close_all_steps: "broker_step\<^sup>*\<^sup>* b (close_all rs reason b)"
  by (induction rs arbitrary: b) (auto intro: rtranclp_trans [OF conn_close_steps])

lemma begin_drain_steps: "broker_step\<^sup>*\<^sup>* b (begin_drain ord b)"
  by (auto simp: begin_drain_def Let_def intro: converse_rtranclp_into_rtranclp [OF step_drain close_all_steps])

lemmas operation_steps = conn_close_steps broker_unregister_steps broker_publish_steps close_all_steps begin_drain_steps

subsection \<open>What the operations do\<close>

lemma unindex_fields [simp]:
  "bk_heap (snd (unindex i b)) = bk_heap b" "bk_policy (snd (unindex i b)) = bk_policy b"
  "bk_draining (snd (unindex i b)) = bk_draining b" "bk_dropped (snd (unindex i b)) = bk_dropped b"
  "map_of (bk_conns (snd (unindex i b))) = (map_of (bk_conns b))(i := None)" "fst (unindex i b) = map_of (bk_conns b) i"
  by (auto simp: unindex_def Let_def split: option.splits)

lemma mark_closed_fields [simp]:
  "bk_heap (mark_closed r reason b) = (bk_heap b)(r := conn_mark_closed reason (bk_heap b r))"
  "bk_conns (mark_closed r reason b) = bk_conns b" "bk_policy (mark_closed r reason b) = bk_policy b"
  "bk_draining (mark_closed r reason b) = bk_draining b" "bk_dropped (mark_closed r reason b) = bk_dropped b"
  by (simp_all add: mark_closed_def)

lemma conn_close_fields:
  "bk_heap (conn_close r reason b) = (bk_heap b)(r := conn_mark_closed reason (bk_heap b r))"
  "bk_policy (conn_close r reason b) = bk_policy b" "bk_draining (conn_close r reason b) = bk_draining b"
  "bk_dropped (conn_close r reason b) = bk_dropped b"
  "map_of (bk_conns (conn_close r reason b)) =
     (if cn_closed (bk_heap b r) \<or> \<not> cn_on_close (bk_heap b r) then map_of (bk_conns b)
      else (map_of (bk_conns b))(cn_id (bk_heap b r) := None))"
  by (simp_all add: conn_close_def Let_def conn_mark_closed_def)

lemma broker_unregister_fields:
  assumes "broker_ok b"
  shows "bk_heap (broker_unregister i b) = (case map_of (bk_conns b) i of None \<Rightarrow> bk_heap b
      | Some r \<Rightarrow> (bk_heap b)(r := conn_mark_closed ''unregister'' (bk_heap b r)))"
    "map_of (bk_conns (broker_unregister i b)) = (map_of (bk_conns b))(i := None)"
    "bk_draining (broker_unregister i b) = bk_draining b" "bk_dropped (broker_unregister i b) = bk_dropped b"
proof -
  obtain o1 b1 where u: "unindex i b = (o1, b1)" by (metis prod.collapse)
  have o1: "o1 = map_of (bk_conns b) i" using unindex_fields(6) [of i b] u by simp
  have f: "bk_heap b1 = bk_heap b" "bk_draining b1 = bk_draining b" "bk_dropped b1 = bk_dropped b"
    "map_of (bk_conns b1) = (map_of (bk_conns b))(i := None)"
    using unindex_fields(1,3-5) [of i b] u by simp_all
  have "map_of (bk_conns b) i = Some r \<Longrightarrow> cn_id (bk_heap b r) = i" for r using assms by (simp add: broker_ok_def del: map_of_eq_Some_iff)
  then show "bk_heap (broker_unregister i b) = (case map_of (bk_conns b) i of None \<Rightarrow> bk_heap b
      | Some r \<Rightarrow> (bk_heap b)(r := conn_mark_closed ''unregister'' (bk_heap b r)))"
    "map_of (bk_conns (broker_unregister i b)) = (map_of (bk_conns b))(i := None)"
    "bk_draining (broker_unregister i b) = bk_draining b" "bk_dropped (broker_unregister i b) = bk_dropped b"
    using f o1 by (cases "map_of (bk_conns b) i"; simp add: broker_unregister_def u conn_close_fields)+
qed


definition ready :: "connection \<Rightarrow> bool" where
  "ready c \<longleftrightarrow> \<not> cn_closed c \<and> int (length (cn_queue c)) < cp_queue (cn_policy c)"

lemma conn_enqueue_ready:
  "conn_enqueue e c = (ready c, if ready c then c\<lparr>cn_queue := cn_queue c @ [e]\<rparr> else c)"
  by (simp add: conn_enqueue_def ready_def)

lemma publish_loop_eq:
  "distinct rs \<Longrightarrow> publish_loop rs e b =
     (length (filter (\<lambda>r. ready (bk_heap b r)) rs), map (\<lambda>r. cn_id (bk_heap b r)) (filter (\<lambda>r. \<not> ready (bk_heap b r)) rs),
      b\<lparr>bk_heap := \<lambda>r. if r \<in> set rs then snd (conn_enqueue e (bk_heap b r)) else bk_heap b r\<rparr>)"
proof (induction rs arbitrary: b)
  case (Cons r rs)
  let ?b = "b\<lparr>bk_heap := (bk_heap b)(r := snd (conn_enqueue e (bk_heap b r)))\<rparr>"
  have enq: "enqueue_at r e b = (ready (bk_heap b r), ?b)" by (simp add: enqueue_at_def conn_enqueue_ready)
  have h: "q \<in> set rs \<Longrightarrow> bk_heap ?b q = bk_heap b q" for q using Cons.prems by auto
  have "filter (\<lambda>r. ready (bk_heap ?b r)) rs = filter (\<lambda>r. ready (bk_heap b r)) rs"
    "filter (\<lambda>r. \<not> ready (bk_heap ?b r)) rs = filter (\<lambda>r. \<not> ready (bk_heap b r)) rs"
    by (rule filter_cong; simp only: h)+
  moreover have "map (\<lambda>r. cn_id (bk_heap ?b r)) (filter P rs) = map (\<lambda>r. cn_id (bk_heap b r)) (filter P rs)" for P
    by (rule map_cong [OF refl]) (metis filter_is_subset h subsetD)
  moreover have "(\<lambda>q. if q \<in> set rs then snd (conn_enqueue e (bk_heap ?b q)) else bk_heap ?b q) =
      (\<lambda>q. if q \<in> set (r # rs) then snd (conn_enqueue e (bk_heap b q)) else bk_heap b q)"
    using Cons.prems by auto
  ultimately show ?case using Cons.IH [of ?b] Cons.prems by (simp add: enq)
qed simp

lemma drop_slow_eq:
  assumes "broker_ok b"
  shows "broker_ok (drop_slow is b) \<and> bk_dropped (drop_slow is b) = bk_dropped b + length is \<and>
    map_of (bk_conns (drop_slow is b)) = (\<lambda>i. if i \<in> set is then None else map_of (bk_conns b) i) \<and>
    bk_heap (drop_slow is b) = (\<lambda>r. if \<exists>i \<in> set is. map_of (bk_conns b) i = Some r
      then conn_mark_closed ''unregister'' (bk_heap b r) else bk_heap b r)"
  using assms
proof (induction "is" arbitrary: b)
  case (Cons i "is")
  let ?b = "b\<lparr>bk_dropped := Suc (bk_dropped b)\<rparr>"
  let ?c = "broker_unregister i ?b"
  have "broker_ok ?b" using Cons.prems by (simp add: broker_ok_def)
  note f = broker_unregister_fields [OF this, of i]
  have ok: "broker_ok ?c" using broker_ok_steps [OF broker_unregister_steps \<open>broker_ok ?b\<close>] .
  have inj: "map_of (bk_conns b) j = Some r \<Longrightarrow> map_of (bk_conns b) j' = Some r \<Longrightarrow> j = j'" for j j' r
    using Cons.prems by (auto simp: broker_ok_def simp del: map_of_eq_Some_iff)
  have heap: "(\<lambda>r. if \<exists>j \<in> set is. map_of (bk_conns ?c) j = Some r then conn_mark_closed ''unregister'' (bk_heap ?c r) else bk_heap ?c r)
      = (\<lambda>r. if \<exists>j \<in> set (i # is). map_of (bk_conns b) j = Some r then conn_mark_closed ''unregister'' (bk_heap b r) else bk_heap b r)"
    (is "?l = ?r")
  proof
    fix r
    show "?l r = ?r r"
    proof (cases "map_of (bk_conns b) i = Some r")
      case True
      then have "\<not> (\<exists>j \<in> set is. map_of (bk_conns ?c) j = Some r)" using inj f(2) by auto
      with True f(1) show ?thesis by simp
    next
      case False
      then have "bk_heap ?c r = bk_heap b r" using f(1) by (auto split: option.splits)
      moreover have "map_of (bk_conns ?c) j = Some r \<longleftrightarrow> map_of (bk_conns b) j = Some r" for j using f(2) False by auto
      ultimately show ?thesis using False by auto
    qed
  qed
  have map: "(\<lambda>j. if j \<in> set is then None else map_of (bk_conns ?c) j) = (\<lambda>j. if j \<in> set (i # is) then None else map_of (bk_conns b) j)"
    using f(2) by auto
  show ?case using Cons.IH [OF ok] f(4) heap map by simp
qed simp

text \<open>Registered references are distinct, and each is found under its own identifier.\<close>

lemma registered_id: "broker_ok b \<Longrightarrow> map_of (bk_conns b) i = Some r \<Longrightarrow> cn_id (bk_heap b r) = i \<and> cn_on_close (bk_heap b r)"
  by (simp add: broker_ok_def del: map_of_eq_Some_iff)

lemma index_refs:
  assumes "broker_ok b" "index_ok key (bk_conns b) m"
  shows "r \<in> set (map snd (bucket m k)) \<longleftrightarrow> map_of (bk_conns b) (cn_id (bk_heap b r)) = Some r \<and> key r = Some k"
    and "distinct (map snd (bucket m k))"
proof -
  note d = distinct_bucket [OF assms(2), of k]
  have mem: "(i, r) \<in> set (bucket m k) \<longleftrightarrow> map_of (bk_conns b) i = Some r \<and> key r = Some k" for i r
    using assms(2) d by (metis index_ok_def map_of_eq_Some_iff)
  have own: "(i, r) \<in> set (bucket m k) \<Longrightarrow> cn_id (bk_heap b r) = i" for i r
    using mem registered_id [OF assms(1)] by blast
  show "r \<in> set (map snd (bucket m k)) \<longleftrightarrow> map_of (bk_conns b) (cn_id (bk_heap b r)) = Some r \<and> key r = Some k"
    using mem own by force
  have "inj_on snd (set (bucket m k))"
    by (rule inj_onI) (metis own prod.collapse)
  then show "distinct (map snd (bucket m k))" using d by (simp add: distinct_map)
qed

lemma conns_refs:
  assumes "broker_ok b"
  shows "r \<in> set (map snd (bk_conns b)) \<longleftrightarrow> map_of (bk_conns b) (cn_id (bk_heap b r)) = Some r"
    and "distinct (map snd (bk_conns b))"
proof -
  have d: "distinct (map fst (bk_conns b))" using assms by (simp add: broker_ok_def)
  then have mem: "(i, r) \<in> set (bk_conns b) \<longleftrightarrow> map_of (bk_conns b) i = Some r" for i r by (simp add: map_of_eq_Some_iff)
  have own: "(i, r) \<in> set (bk_conns b) \<Longrightarrow> cn_id (bk_heap b r) = i" for i r
    using mem registered_id [OF assms] by blast
  show "r \<in> set (map snd (bk_conns b)) \<longleftrightarrow> map_of (bk_conns b) (cn_id (bk_heap b r)) = Some r"
    using mem own by force
  have "inj_on snd (set (bk_conns b))"
    by (rule inj_onI) (metis own prod.collapse)
  then show "distinct (map snd (bk_conns b))" using d by (simp add: distinct_map)
qed


lemma ready_same: "publish_loop rs e b = (n, slow, b') \<Longrightarrow> bk_conns b' = bk_conns b \<and> bk_draining b' = bk_draining b"
proof (induction rs arbitrary: b n slow)
  case (Cons r rs)
  obtain ok b1 where enq: "enqueue_at r e b = (ok, b1)" by (metis prod.collapse)
  with Cons show ?case by (auto simp: enqueue_at_def split: prod.splits if_splits)
qed simp

text \<open>
  Publishing to the connections of an index: those that are ready get the event, the others are counted,
  closed and dropped from the broker, and no other connection changes.
\<close>

theorem publish_effect:
  assumes "broker_ok b" "index_ok key (bk_conns b) m" "mset rs = mset (map snd (bucket m k))" "broker_publish rs (Some e) b = (n, b')"
  shows "n = length (filter (\<lambda>r. ready (bk_heap b r)) rs) \<and>
    bk_dropped b' = bk_dropped b + length (filter (\<lambda>r. \<not> ready (bk_heap b r)) rs) \<and>
    (\<forall>r. bk_heap b' r = (if r \<notin> set rs then bk_heap b r
       else if ready (bk_heap b r) then (bk_heap b r)\<lparr>cn_queue := cn_queue (bk_heap b r) @ [e]\<rparr>
       else conn_mark_closed ''unregister'' (bk_heap b r))) \<and>
    (\<forall>i r. map_of (bk_conns b') i = Some r \<longleftrightarrow> map_of (bk_conns b) i = Some r \<and> \<not> (r \<in> set rs \<and> \<not> ready (bk_heap b r)))"
proof (cases "rs = []")
  case True
  with assms(4) show ?thesis by (simp add: broker_publish_def)
next
  case False
  have "distinct rs" using index_refs(2) [OF assms(1,2)] assms(3) by (metis mset_eq_imp_distinct_iff)
  moreover have "r \<in> set rs \<Longrightarrow> map_of (bk_conns b) (cn_id (bk_heap b r)) = Some r" for r
    using index_refs(1) [OF assms(1,2)] mset_eq_setD [OF assms(3)] by blast
  ultimately have rs: "distinct rs" "r \<in> set rs \<Longrightarrow> map_of (bk_conns b) (cn_id (bk_heap b r)) = Some r" for r by blast+
  let ?h = "\<lambda>r. if r \<in> set rs then snd (conn_enqueue e (bk_heap b r)) else bk_heap b r"
  let ?slow = "map (\<lambda>r. cn_id (bk_heap b r)) (filter (\<lambda>r. \<not> ready (bk_heap b r)) rs)"
  let ?b = "b\<lparr>bk_heap := ?h\<rparr>"
  note loop = publish_loop_eq [OF rs(1), of e b]
  have ok: "broker_ok ?b" using broker_ok_steps [OF publish_loop_steps [OF loop] assms(1)] .
  from assms(4) False loop have b': "n = length (filter (\<lambda>r. ready (bk_heap b r)) rs)" "b' = drop_slow ?slow ?b"
    by (simp_all add: broker_publish_def)
  note d = drop_slow_eq [OF ok, of ?slow, folded b'(2)]
  have slow: "(\<exists>i \<in> set ?slow. map_of (bk_conns b) i = Some r) \<longleftrightarrow> r \<in> set rs \<and> \<not> ready (bk_heap b r)" for r
    using rs(2) by (auto simp del: map_of_eq_Some_iff)
  have slow': "map_of (bk_conns b) i = Some r \<Longrightarrow> i \<in> set ?slow \<longleftrightarrow> r \<in> set rs \<and> \<not> ready (bk_heap b r)" for i r
    using slow [of r] registered_id [OF assms(1), of i r] by (auto simp del: map_of_eq_Some_iff)
  have "bk_heap b' r = (if r \<notin> set rs then bk_heap b r
       else if ready (bk_heap b r) then (bk_heap b r)\<lparr>cn_queue := cn_queue (bk_heap b r) @ [e]\<rparr>
       else conn_mark_closed ''unregister'' (bk_heap b r))" for r
    using d slow [of r] by (simp add: conn_enqueue_ready)
  moreover have "map_of (bk_conns b') i = Some r \<longleftrightarrow> map_of (bk_conns b) i = Some r \<and> \<not> (r \<in> set rs \<and> \<not> ready (bk_heap b r))" for i r
    using d slow' [of i r] by (simp del: map_of_eq_Some_iff) metis
  ultimately show ?thesis using d b'(1) by simp
qed

lemma close_all_eq:
  assumes "broker_ok b" "distinct rs" "\<forall>r \<in> set rs. map_of (bk_conns b) (cn_id (bk_heap b r)) = Some r"
  shows "bk_draining (close_all rs reason b) = bk_draining b \<and>
    bk_heap (close_all rs reason b) = (\<lambda>r. if r \<in> set rs then conn_mark_closed reason (bk_heap b r) else bk_heap b r) \<and>
    (\<forall>i r. map_of (bk_conns (close_all rs reason b)) i = Some r \<longleftrightarrow>
       map_of (bk_conns b) i = Some r \<and> \<not> (r \<in> set rs \<and> \<not> cn_closed (bk_heap b r)))"
  using assms
proof (induction rs arbitrary: b)
  case (Cons r rs)
  let ?c = "conn_close r reason b"
  note f = conn_close_fields [of r reason b]
  have ok: "broker_ok ?c" using broker_ok_steps [OF conn_close_steps Cons.prems(1)] .
  have reg: "map_of (bk_conns b) (cn_id (bk_heap b r)) = Some r" "cn_on_close (bk_heap b r)"
    using Cons.prems(3) registered_id [OF Cons.prems(1), of _ r] by auto
  have conns: "map_of (bk_conns ?c) i = Some q \<longleftrightarrow> map_of (bk_conns b) i = Some q \<and> \<not> (q = r \<and> \<not> cn_closed (bk_heap b r))" for i q
    using f(5) reg registered_id [OF Cons.prems(1), of i q] by (auto simp del: map_of_eq_Some_iff)
  have heap: "q \<in> set rs \<Longrightarrow> bk_heap ?c q = bk_heap b q" for q using f(1) Cons.prems(2) by auto
  have rest: "\<forall>q \<in> set rs. map_of (bk_conns ?c) (cn_id (bk_heap ?c q)) = Some q"
    using Cons.prems(2,3) conns heap by (metis distinct.simps(2) list.set_intros(2))
  have "distinct rs" using Cons.prems(2) by simp
  note IH = Cons.IH [OF ok this rest]
  have "(\<lambda>q. if q \<in> set rs then conn_mark_closed reason (bk_heap ?c q) else bk_heap ?c q) =
      (\<lambda>q. if q \<in> set (r # rs) then conn_mark_closed reason (bk_heap b q) else bk_heap b q)"
    using Cons.prems(2) f(1) by auto
  moreover have "map_of (bk_conns ?c) i = Some q \<and> \<not> (q \<in> set rs \<and> \<not> cn_closed (bk_heap ?c q)) \<longleftrightarrow>
      map_of (bk_conns b) i = Some q \<and> \<not> (q \<in> set (r # rs) \<and> \<not> cn_closed (bk_heap b q))" for i q
    using conns [of i q] heap [of q] by auto
  ultimately show ?case using IH f(3) by (simp del: map_of_eq_Some_iff)
qed simp

text \<open>After draining nothing is open, what was open is gone from the broker, and nothing can register any more.\<close>

theorem begin_drain_effect:
  assumes "broker_ok b" "\<not> bk_draining b" "\<And>xs. mset (ord xs) = mset xs"
  shows "bk_draining (begin_drain ord b) \<and>
    (\<forall>i r. map_of (bk_conns (begin_drain ord b)) i = Some r \<longrightarrow> cn_closed (bk_heap b r)) \<and>
    (\<forall>i r. map_of (bk_conns b) i = Some r \<longrightarrow> cn_closed (bk_heap (begin_drain ord b) r))"
proof -
  let ?b = "b\<lparr>bk_draining := True\<rparr>" and ?rs = "ord (map snd (bk_conns b))"
  have ok: "broker_ok ?b" using assms(1) by (simp add: broker_ok_def)
  have set: "set ?rs = set (map snd (bk_conns b))" using assms(3) by (rule mset_eq_setD)
  have dist: "distinct ?rs" using conns_refs(2) [OF assms(1)] assms(3) by (metis mset_eq_imp_distinct_iff)
  have reg: "\<forall>r \<in> set ?rs. map_of (bk_conns ?b) (cn_id (bk_heap ?b r)) = Some r"
    using conns_refs(1) [OF assms(1)] set by simp
  have mem: "map_of (bk_conns b) i = Some r \<Longrightarrow> r \<in> set ?rs" for i r
    using conns_refs(1) [OF assms(1)] registered_id [OF assms(1)] set by simp
  have "begin_drain ord b = close_all ?rs ''drain'' ?b" using assms(2) by (simp add: begin_drain_def Let_def)
  with close_all_eq [OF ok dist reg, of "''drain''"] mem show ?thesis
    by (auto simp: conn_mark_closed_def simp del: map_of_eq_Some_iff)
qed

text \<open>The limit of connections per subject.\<close>

definition within_limit :: "broker \<Rightarrow> bool" where
  "within_limit b \<longleftrightarrow> 0 < cp_max_conns (bk_policy b) \<and> distinct (map fst (bk_by_subject b)) \<and>
     (\<forall>s. int (length (bucket (bk_by_subject b) s)) \<le> cp_max_conns (bk_policy b))"

lemma length_update: "length (AList.update k v m) \<le> Suc (length m)"
  by (induction m) auto

lemma length_delete: "length (AList.delete k m) \<le> length m"
  by (rule AList.length_delete_le)

lemma within_limit_new: "within_limit (new_broker policy heap)"
  by (simp add: within_limit_def new_broker_def bucket_def normalize_policy_def)

lemma bucket_remove_le:
  "distinct (map fst m) \<Longrightarrow> length (bucket (index_remove key i m) s) \<le> length (bucket m s) \<and> distinct (map fst (index_remove key i m))"
  by (auto simp: index_remove_def Let_def distinct_update distinct_delete bucket_mem length_delete split: option.splits)

lemma within_limit_step:
  assumes "broker_step b b'" "within_limit b"
  shows "within_limit b'"
  using assms
proof (induction rule: broker_step.induct)
  case (step_register b r)
  let ?c = "bk_heap b r"
  have "int (length (bucket (index_add (subject_key ?c) (cn_id ?c) r (bk_by_subject b)) s)) \<le> cp_max_conns (bk_policy b)"
    if "\<not> (0 < cn_subject ?c \<and> cp_max_conns (bk_policy b) \<le> int (length (bucket (bk_by_subject b) (cn_subject ?c))))" for s
    using that step_register(3) length_update [of "cn_id ?c" r "bucket (bk_by_subject b) s"]
    by (auto simp: within_limit_def index_add_def subject_key_def)
  then show ?case using step_register(3)
    by (auto simp: within_limit_def broker_register_def Let_def index_add_def distinct_update split: option.splits)
next
  case (step_unindex b i)
  show ?case
  proof (cases "map_of (bk_conns b) i")
    case (Some r)
    then show ?thesis using step_unindex bucket_remove_le [of "bk_by_subject b" "subject_key (bk_heap b r)" i]
      by (auto simp: within_limit_def unindex_def Let_def) (meson of_nat_mono order_trans)
  qed (use step_unindex in \<open>simp add: unindex_def\<close>)
qed (auto simp: within_limit_def mark_closed_def enqueue_at_def split: prod.splits)

lemma within_limit_steps: "broker_step\<^sup>*\<^sup>* b b' \<Longrightarrow> within_limit b \<Longrightarrow> within_limit b'"
  by (induction rule: rtranclp_induct) (auto intro: within_limit_step)

text \<open>Closing calls the broker back with the identifier only, so it also drops whoever registered later under the same one.\<close>

lemma close_drops_namesake:
  assumes "map_of (bk_conns b) i = Some r" "cn_id (bk_heap b q) = i" "q \<noteq> r" "cn_on_close (bk_heap b q)"
    "\<not> cn_closed (bk_heap b q)" "\<not> cn_closed (bk_heap b r)"
  shows "map_of (bk_conns (conn_close q reason b)) i = None \<and> \<not> cn_closed (bk_heap (conn_close q reason b) r)"
  using assms by (simp add: conn_close_fields)

end
