(* ===== verification/Sse_Replay.thy ===== *)
theory Sse_Replay
  imports Sse_Registry
begin

text \<open>
  Resuming a stream: the replay store of \<open>replay_redis.go\<close> over Redis streams, the default
  authorizer of \<open>authorizer.go\<close>, and \<open>ChannelStreamHandler.Serve\<close> of \<open>handler.go\<close>, which replays
  what a client missed and then registers its connection. A Redis stream is a list of entries under
  increasing identifiers (milliseconds, counter), as \<open>XADD *\<close> assigns them. The JSON codec of the
  stored record is a parameter: an encoder and a partial decoder.
\<close>

subsection \<open>Redis streams\<close>

type_synonym stream_id = "nat \<times> nat"
type_synonym stream_entry = "stream_id \<times> string"

definition show_id :: "stream_id \<Rightarrow> string" where
  "show_id i = show_nat (fst i) @ ''-'' @ show_nat (snd i)"

definition parse_id :: "string \<Rightarrow> stream_id option" where
  "parse_id s =
     (let a = takeWhile (\<lambda>c. c \<noteq> CHR ''-'') s; b = drop (length a) s
      in if \<not> is_digits a then None
         else if b = [] then Some (read_nat a, 0)
         else if is_digits (tl b) then Some (read_nat a, read_nat (tl b)) else None)"

record stream_store =
  ss_streams :: "string \<Rightarrow> stream_entry list"
  ss_clock :: nat

definition next_stream_id :: "nat \<Rightarrow> stream_entry list \<Rightarrow> stream_id" where
  "next_stream_id ms es =
     (if es = [] \<or> fst (fst (last es)) < ms then (ms, 0) else (fst (fst (last es)), Suc (snd (fst (last es)))))"

definition xadd :: "string \<Rightarrow> string \<Rightarrow> stream_store \<Rightarrow> stream_id \<times> stream_store" where
  "xadd key raw w =
     (let i = next_stream_id (ss_clock w) (ss_streams w key)
      in (i, w\<lparr>ss_streams := (ss_streams w)(key := ss_streams w key @ [(i, raw)])\<rparr>))"

definition xrange_after :: "stream_id option \<Rightarrow> nat \<Rightarrow> stream_entry list \<Rightarrow> stream_entry list" where
  "xrange_after start n es = take n (filter (\<lambda>(i, raw). case start of None \<Rightarrow> True | Some j \<Rightarrow> j < i) es)"

subsection \<open>The replay store\<close>

record persisted_event =
  pe_kind :: stream_kind
  pe_channel :: string
  pe_tenant :: nat
  pe_subject :: nat
  pe_name :: string
  pe_data :: string
  pe_occurred :: int
  pe_retry :: int
  pe_durable :: bool
  pe_request_id :: string
  pe_trace_id :: string
  pe_meta :: "(string \<times> string) list"

definition persist :: "stream_event \<Rightarrow> persisted_event" where
  "persist e = \<lparr>pe_kind = se_kind e, pe_channel = se_channel e, pe_tenant = se_tenant e, pe_subject = se_subject e,
     pe_name = se_name e, pe_data = se_data e, pe_occurred = se_occurred e, pe_retry = se_retry e, pe_durable = se_durable e,
     pe_request_id = se_request_id e, pe_trace_id = se_trace_id e, pe_meta = se_meta e\<rparr>"

definition restore :: "stream_id \<Rightarrow> persisted_event \<Rightarrow> stream_event" where
  "restore i p = \<lparr>se_id = show_id i, se_kind = pe_kind p, se_channel = pe_channel p, se_tenant = pe_tenant p, se_subject = pe_subject p,
     se_name = pe_name p, se_data = pe_data p, se_occurred = pe_occurred p, se_retry = pe_retry p, se_durable = pe_durable p,
     se_request_id = pe_request_id p, se_trace_id = pe_trace_id p, se_meta = pe_meta p\<rparr>"

definition stream_key :: "string \<Rightarrow> string \<Rightarrow> string" where
  "stream_key prefix channel = (if prefix = '''' then ''sse:replay'' else prefix) @ '':'' @ trim_space channel"

definition replay_append ::
  "(persisted_event \<Rightarrow> string) \<Rightarrow> string \<Rightarrow> stream_event \<Rightarrow> stream_store \<Rightarrow> stream_event \<times> stream_store" where
  "replay_append enc prefix e w =
     (if \<not> se_durable e then (e, w)
      else (case xadd (stream_key prefix (se_channel e)) (enc (persist e)) w of (i, w') \<Rightarrow>
        (if se_id e = '''' then e\<lparr>se_id := show_id i\<rparr> else e, w')))"

datatype replay_err = ErrInvalidStreamId

fun decode_entries :: "(string \<Rightarrow> persisted_event option) \<Rightarrow> stream_entry list \<Rightarrow> stream_event list" where
  "decode_entries dec [] = []"
| "decode_entries dec ((i, raw) # es) =
     (if trim_space raw = '''' then decode_entries dec es
      else (case dec raw of None \<Rightarrow> decode_entries dec es | Some p \<Rightarrow> restore i p # decode_entries dec es))"

definition replay_after ::
  "(string \<Rightarrow> persisted_event option) \<Rightarrow> string \<Rightarrow> string \<Rightarrow> string \<Rightarrow> int \<Rightarrow> stream_store \<Rightarrow> replay_err + stream_event list" where
  "replay_after dec prefix channel last_event_id lim w =
     (if channel = '''' then Inr []
      else let n = (if lim \<le> 0 then 100 else nat lim);
               es = ss_streams w (stream_key prefix channel);
               l = trim_space last_event_id
           in if l = '''' then Inr (decode_entries dec (xrange_after None n es))
              else (case parse_id l of
                      None \<Rightarrow> Inl ErrInvalidStreamId
                    | Some j \<Rightarrow> Inr (decode_entries dec (xrange_after (Some j) n es))))"

subsection \<open>Serving a client\<close>

record connect_request =
  cr_conn_id :: string
  cr_channel :: string
  cr_subject :: nat
  cr_tenant :: nat
  cr_last_event_id :: string
  cr_origin :: string
  cr_query_token :: string

record principal =
  pr_subject :: nat
  pr_tenant :: nat
  pr_origin :: string

datatype serve_err =
    ErrQueryTokenNotAllowed | ErrForbiddenChannel | ErrAuthorizer | ErrReplay replay_err | ErrWrite | ErrRegister broker_err

record authorizer =
  au_connect :: "connect_request \<Rightarrow> serve_err + principal"
  au_subscribe :: "principal \<Rightarrow> string \<Rightarrow> serve_err option"
  au_filter :: "principal \<Rightarrow> stream_event \<Rightarrow> serve_err + stream_event option"

definition allow_all_connect :: "connect_request \<Rightarrow> serve_err + principal" where
  "allow_all_connect q =
     (if cr_query_token q \<noteq> '''' then Inl ErrQueryTokenNotAllowed
      else Inr \<lparr>pr_subject = cr_subject q, pr_tenant = cr_tenant q, pr_origin = cr_origin q\<rparr>)"

definition allow_all_authorizer :: authorizer where
  "allow_all_authorizer =
     \<lparr>au_connect = allow_all_connect, au_subscribe = (\<lambda>p ch. None), au_filter = (\<lambda>p e. Inr (Some e))\<rparr>"

text \<open>Replayed events are filtered and written one by one; a refused event is skipped, a failed write ends the request.\<close>

fun replay_writes ::
  "authorizer \<Rightarrow> principal \<Rightarrow> write_fate list \<Rightarrow> stream_event list \<Rightarrow> bool \<times> stream_event list \<times> string" where
  "replay_writes au p fates [] = (True, [], [])"
| "replay_writes au p fates (e # es) =
     (case au_filter au p e of
        Inr (Some f) \<Rightarrow>
          (case (if fates = [] then WriteOk else hd fates) of
             WriteOk \<Rightarrow> (case replay_writes au p (tl fates) es of (ok, sent, bytes) \<Rightarrow> (ok, f # sent, encode_event f @ bytes))
           | WriteFails k \<Rightarrow> (False, [], take k (encode_event f)))
      | _ \<Rightarrow> replay_writes au p fates es)"

text \<open>
  \<open>Serve\<close> up to the point where it waits for the connection to end: the outcome, the bytes already
  sent, and the broker. \<open>r\<close> is the reference of the new connection and \<open>uuid\<close> a fresh identifier.
\<close>

definition serve ::
  "authorizer option \<Rightarrow> (connect_request \<Rightarrow> (replay_err + stream_event list) option) \<Rightarrow> connection_policy \<Rightarrow> write_fate list \<Rightarrow>
   connect_request \<Rightarrow> nat \<Rightarrow> string \<Rightarrow> broker \<Rightarrow> (serve_err + unit) \<times> stream_event list \<times> string \<times> broker" where
  "serve auth replay policy fates q r uuid b =
     (let au = (case auth of None \<Rightarrow> allow_all_authorizer | Some a \<Rightarrow> a) in
      case au_connect au q of
        Inl e \<Rightarrow> (Inl e, [], [], b)
      | Inr p \<Rightarrow>
          (case au_subscribe au p (cr_channel q) of
             Some e \<Rightarrow> (Inl e, [], [], b)
           | None \<Rightarrow>
               (let past = (if trim_space (cr_last_event_id q) = '''' then None else replay q) in
                case (case past of None \<Rightarrow> Inr [] | Some res \<Rightarrow> res) of
                  Inl e \<Rightarrow> (Inl (ErrReplay e), [], [], b)
                | Inr events \<Rightarrow>
                    (case replay_writes au p fates events of (ok, sent, bytes) \<Rightarrow>
                       if \<not> ok then (Inl ErrWrite, sent, bytes, b)
                       else let i = (let c = trim_space (cr_conn_id q) in if c = '''' then uuid else c);
                                c = (new_connection i (pr_subject p) (cr_channel q) True policy)\<lparr>cn_out := bytes\<rparr>
                            in (case broker_register (Some r) (b\<lparr>bk_heap := (bk_heap b)(r := c)\<rparr>) of
                                  (Inl e, b') \<Rightarrow> (Inl (ErrRegister e), sent, bytes, b')
                                | (Inr u, b') \<Rightarrow> (Inr (), sent, bytes, b'))))))"

subsection \<open>Identifiers\<close>

lemma show_nat_chars: "c \<in> set (show_nat n) \<Longrightarrow> c \<in> set ''0123456789''"
  using is_digits_show_nat [of n] unfolding is_digits_def list_all_iff by blast

lemma show_nat_no_dash: "CHR ''-'' \<notin> set (show_nat n)"
  using show_nat_chars [of "CHR ''-''" n] by auto

lemma takeWhile_show_nat: "takeWhile (\<lambda>c. c \<noteq> CHR ''-'') (show_nat n @ CHR ''-'' # xs) = show_nat n"
  using show_nat_no_dash [of n] by (subst takeWhile_append2) auto

lemma parse_show_id [simp]: "parse_id (show_id i) = Some i"
  by (simp add: parse_id_def show_id_def Let_def takeWhile_show_nat is_digits_show_nat)

lemma show_id_chars: "c \<in> set (show_id i) \<Longrightarrow> c \<in> set ''0123456789-''"
  using show_nat_chars [of c "fst i"] show_nat_chars [of c "snd i"] by (auto simp: show_id_def)

lemma show_id_trim [simp]: "trim_space (show_id i) = show_id i"
proof -
  have ns: "\<forall>c \<in> set (show_id i). \<not> is_space c"
  proof
    fix c assume "c \<in> set (show_id i)"
    then have "c \<in> set ''0123456789-''" by (rule show_id_chars)
    moreover have "list_all (\<lambda>c. \<not> is_space c) ''0123456789-''" by (simp add: is_space_def)
    ultimately show "\<not> is_space c" unfolding list_all_iff by blast
  qed
  have "dropWhile is_space xs = xs" if "\<forall>c \<in> set xs. \<not> is_space c" for xs using that by (cases xs) auto
  from this [OF ns] this [of "rev (show_id i)"] ns show ?thesis by (simp add: trim_space_def)
qed

lemma show_id_nonempty [simp]: "show_id i \<noteq> []"
  by (simp add: show_id_def)

subsection \<open>Appending and replaying\<close>

text \<open>Entries are in the order of their identifiers.\<close>

definition stream_sorted :: "stream_entry list \<Rightarrow> bool" where
  "stream_sorted es \<longleftrightarrow> sorted_wrt (<) (map fst es)"

lemma next_stream_id_gt:
  assumes "stream_sorted es" "e \<in> set es"
  shows "fst e < next_stream_id ms es"
proof -
  have "e = last es \<or> fst e < fst (last es)"
    using assms by (induction es rule: rev_induct) (auto simp: stream_sorted_def sorted_wrt_append)
  moreover have "es \<noteq> []" using assms(2) by auto
  ultimately show ?thesis by (auto simp: next_stream_id_def less_prod_def split: if_splits)
qed

lemma stream_sorted_xadd:
  assumes "stream_sorted (ss_streams w key)" "xadd key raw w = (i, w')"
  shows "stream_sorted (ss_streams w' key)"
  using assms next_stream_id_gt [OF assms(1), of _ "ss_clock w"]
  by (auto simp: xadd_def Let_def stream_sorted_def sorted_wrt_append)

text \<open>Appending a list of events, with the identifiers Redis gives them.\<close>

fun append_all :: "(persisted_event \<Rightarrow> string) \<Rightarrow> string \<Rightarrow> stream_event list \<Rightarrow> stream_store \<Rightarrow> stream_event list \<times> stream_store" where
  "append_all enc prefix [] w = ([], w)"
| "append_all enc prefix (e # es) w =
     (case replay_append enc prefix e w of (f, w1) \<Rightarrow>
        (case append_all enc prefix es w1 of (fs, w2) \<Rightarrow> (f # fs, w2)))"


lemma append_all_entries:
  assumes "append_all enc prefix es w = (fs, w')" "stream_sorted (ss_streams w key)"
    and "\<forall>e \<in> set es. se_durable e \<and> se_id e = '''' \<and> stream_key prefix (se_channel e) = key"
  shows "\<exists>ps. map snd ps = es \<and> fs = map (\<lambda>(i, e). e\<lparr>se_id := show_id i\<rparr>) ps \<and>
    ss_streams w' key = ss_streams w key @ map (\<lambda>(i, e). (i, enc (persist e))) ps \<and> stream_sorted (ss_streams w' key)"
  using assms
proof (induction es arbitrary: w fs)
  case (Cons e es)
  obtain i w1 where x: "xadd key (enc (persist e)) w = (i, w1)" by (metis prod.collapse)
  then have w1: "ss_streams w1 key = ss_streams w key @ [(i, enc (persist e))]" by (auto simp: xadd_def Let_def)
  obtain gs where rest: "append_all enc prefix es w1 = (gs, w')" "fs = e\<lparr>se_id := show_id i\<rparr> # gs"
    using Cons.prems(1,3) x by (auto simp: replay_append_def split: prod.splits)
  have "\<forall>e \<in> set es. se_durable e \<and> se_id e = '''' \<and> stream_key prefix (se_channel e) = key" using Cons.prems(3) by simp
  from Cons.IH [OF rest(1) stream_sorted_xadd [OF Cons.prems(2) x] this]
  obtain ps where ps: "map snd ps = es" "gs = map (\<lambda>(i, e). e\<lparr>se_id := show_id i\<rparr>) ps"
    "ss_streams w' key = ss_streams w1 key @ map (\<lambda>(i, e). (i, enc (persist e))) ps" "stream_sorted (ss_streams w' key)"
    by (elim exE conjE)
  have "map snd ((i, e) # ps) = e # es \<and> fs = map (\<lambda>(i, e). e\<lparr>se_id := show_id i\<rparr>) ((i, e) # ps) \<and>
      ss_streams w' key = ss_streams w key @ map (\<lambda>(i, e). (i, enc (persist e))) ((i, e) # ps)"
    using ps(1-3) rest(2) w1 by simp
  with ps(4) show ?case by (intro exI [of _ "(i, e) # ps"]) (simp only: simp_thms)
qed auto

lemma filter_after:
  fixes xs :: "stream_entry list"
  assumes "sorted_wrt (<) (map fst xs)" "k < length xs"
  shows "filter (\<lambda>(i, raw). fst (xs ! k) < i) xs = drop (Suc k) xs"
proof -
  have split: "xs = take k xs @ xs ! k # drop (Suc k) xs" using assms(2) by (rule id_take_nth_drop)
  have "sorted_wrt (<) (map fst (take k xs @ xs ! k # drop (Suc k) xs))" using assms(1) split by simp
  then have "\<forall>x \<in> set (take k xs). fst x < fst (xs ! k)" "\<forall>x \<in> set (drop (Suc k) xs). fst (xs ! k) < fst x"
    by (auto simp: sorted_wrt_append)
  then have "filter (\<lambda>(i, raw). fst (xs ! k) < i) (take k xs) = []" "filter (\<lambda>(i, raw). fst (xs ! k) < i) (drop (Suc k) xs) = drop (Suc k) xs"
    by (auto simp only: filter_empty_conv filter_id_conv split_beta dest: order.asym)
  then show ?thesis using split by (metis (no_types, lifting) append_Nil case_prod_beta filter.simps(2) filter_append order.irrefl)
qed

lemma restore_persist: "restore i (persist e) = e\<lparr>se_id := show_id i\<rparr>"
  by (simp add: restore_def persist_def)

lemma decode_entries_stored:
  assumes "\<forall>e \<in> snd ` set ps. dec (enc (persist e)) = Some (persist e) \<and> trim_space (enc (persist e)) \<noteq> ''''"
  shows "decode_entries dec (map (\<lambda>(i, e). (i, enc (persist e))) ps) = map (\<lambda>(i, e). e\<lparr>se_id := show_id i\<rparr>) ps"
  using assms by (induction ps) (auto simp: restore_persist)

text \<open>A client that has seen an event gets the following ones, in order, up to the limit.\<close>

lemma replay_after_appended:
  assumes "append_all enc prefix es w = (fs, w')" "stream_sorted (ss_streams w (stream_key prefix channel))" "channel \<noteq> ''''"
    and "\<forall>e \<in> set es. se_durable e \<and> se_id e = '''' \<and> se_channel e = channel"
    and "\<forall>e \<in> set es. dec (enc (persist e)) = Some (persist e) \<and> trim_space (enc (persist e)) \<noteq> ''''"
    and "k < length fs"
  shows "replay_after dec prefix channel (se_id (fs ! k)) lim w' = Inr (take (if lim \<le> 0 then 100 else nat lim) (drop (Suc k) fs))"
proof -
  let ?key = "stream_key prefix channel" and ?n = "if lim \<le> 0 then 100 else nat lim"
  obtain ps where ps: "map snd ps = es" "fs = map (\<lambda>(i, e). e\<lparr>se_id := show_id i\<rparr>) ps"
    "ss_streams w' ?key = ss_streams w ?key @ map (\<lambda>(i, e). (i, enc (persist e))) ps" "stream_sorted (ss_streams w' ?key)"
    using append_all_entries [OF assms(1,2)] assms(4) by auto
  let ?old = "ss_streams w ?key" and ?g = "\<lambda>(i, e). (i, enc (persist e))"
  obtain j e where p: "ps ! k = (j, e)" by (metis prod.collapse)
  have k: "k < length ps" using assms(6) ps(2) by simp
  have at: "fst (ss_streams w' ?key ! (length ?old + k)) = j" using ps(3) p k by simp
  have "filter (\<lambda>(i, raw). j < i) (ss_streams w' ?key) = drop (Suc (length ?old + k)) (ss_streams w' ?key)"
    using filter_after [of "ss_streams w' ?key" "length ?old + k"] ps(3,4) k at by (simp add: stream_sorted_def)
  also have "\<dots> = map ?g (drop (Suc k) ps)" using ps(3) by (simp add: drop_map)
  finally have "xrange_after (Some j) ?n (ss_streams w' ?key) = map ?g (take ?n (drop (Suc k) ps))"
    by (simp add: xrange_after_def take_map)
  moreover have "decode_entries dec (map ?g (take ?n (drop (Suc k) ps))) = map (\<lambda>(i, e). e\<lparr>se_id := show_id i\<rparr>) (take ?n (drop (Suc k) ps))"
  proof (rule decode_entries_stored)
    have "snd ` set (take ?n (drop (Suc k) ps)) \<subseteq> set es"
      unfolding ps(1) [symmetric] list.set_map by (intro image_mono order_trans [OF set_take_subset set_drop_subset])
    then show "\<forall>e \<in> snd ` set (take ?n (drop (Suc k) ps)). dec (enc (persist e)) = Some (persist e) \<and> trim_space (enc (persist e)) \<noteq> ''''"
      using assms(5) by blast
  qed
  ultimately have "decode_entries dec (xrange_after (Some j) ?n (ss_streams w' ?key)) = take ?n (drop (Suc k) fs)"
    using ps(2) by (simp add: take_map drop_map)
  moreover have "se_id (fs ! k) = show_id j" using ps(2) p k by simp
  ultimately show ?thesis using assms(3) by (simp add: replay_after_def Let_def)
qed

subsection \<open>Serving\<close>

lemma replay_writes_bytes:
  "replay_writes au p fates es = (True, sent, bytes) \<Longrightarrow> bytes = concat (map frame_bytes (map EventFrame sent))"
proof (induction es arbitrary: fates sent bytes)
  case (Cons e es)
  then show ?case by (fastforce split: sum.splits option.splits write_fate.splits prod.splits)
qed simp

lemma frame_events_map [simp]: "frame_events (map EventFrame es) = es"
  by (induction es) auto

text \<open>The connection a served client gets has the replayed events behind it.\<close>

lemma serve_registers:
  assumes "serve auth replay policy fates q r uuid b = (Inr (), sent, bytes, b')"
  shows "written sent (bk_heap b' r) \<and> cn_running (bk_heap b' r) \<and> cn_queue (bk_heap b' r) = [] \<and>
    cn_channel (bk_heap b' r) = cr_channel q"
proof -
  obtain p i where w: "replay_writes (case auth of None \<Rightarrow> allow_all_authorizer | Some a \<Rightarrow> a) p fates
      (case (if trim_space (cr_last_event_id q) = '''' then None else replay q) of Some (Inr es) \<Rightarrow> es | _ \<Rightarrow> []) = (True, sent, bytes)"
    and c: "bk_heap b' r = (new_connection i (pr_subject p) (cr_channel q) True policy)\<lparr>cn_out := bytes, cn_on_close := True, cn_running := True\<rparr>"
    using assms(1)
    by (auto simp: serve_def Let_def broker_register_def split: sum.splits option.splits prod.splits if_splits)
  have "written sent (bk_heap b' r)"
    using replay_writes_bytes [OF w] c
    by (intro writtenI [of _ "[]" "map EventFrame sent" "[]"]) (simp_all add: started_def new_connection_def)
  then show ?thesis using c by (simp add: new_connection_def)
qed

end
