(* ===== verification/Trace_Context.thy ===== *)
theory Trace_Context
  imports Sse_Codec
begin

text \<open>
  Trace context: parsing and building the \<open>traceparent\<close> header in \<open>pkg/observability/w3c/w3c.go\<close>, and
  carrying request, trace and parent identifiers through \<open>context.Context\<close> in
  \<open>pkg/observability/contextid/contextid.go\<close>. A context is a record of the four values these packages
  keep in it. Identifiers the code draws at random are arguments. \<open>strings.ToLower\<close> is modelled on
  ASCII letters; other letters make an identifier invalid before and after.
\<close>

subsection \<open>Identifiers\<close>

definition lower_char :: "char \<Rightarrow> char" where
  "lower_char c = (if 65 \<le> (of_char c :: nat) \<and> (of_char c :: nat) \<le> 90 then char_of ((of_char c :: nat) + 32) else c)"

definition to_lower :: "string \<Rightarrow> string" where
  "to_lower = map lower_char"

definition norm_id :: "string \<Rightarrow> string" where
  "norm_id v = to_lower (trim_space v)"

definition is_hex :: "string \<Rightarrow> nat \<Rightarrow> bool" where
  "is_hex v n \<longleftrightarrow> length v = n \<and> list_all (\<lambda>c. c \<in> set ''0123456789abcdef'') v"

definition is_all_zero :: "string \<Rightarrow> bool" where
  "is_all_zero v \<longleftrightarrow> list_all (\<lambda>c. c = CHR ''0'') v"

definition is_valid_trace_id :: "string \<Rightarrow> bool" where
  "is_valid_trace_id v \<longleftrightarrow> is_hex (norm_id v) 32 \<and> \<not> is_all_zero (norm_id v)"

definition is_valid_span_id :: "string \<Rightarrow> bool" where
  "is_valid_span_id v \<longleftrightarrow> is_hex (norm_id v) 16 \<and> \<not> is_all_zero (norm_id v)"

definition normalize_trace_flags :: "string \<Rightarrow> string" where
  "normalize_trace_flags f = (if is_hex (norm_id f) 2 then norm_id f else ''01'')"

text \<open>
  \<open>newRandomID\<close> draws bytes until a draw succeeds and is not all zero; \<open>draw n\<close> is what the \<open>n\<close>-th
  draw yields. It need not end.
\<close>

definition hex_digit :: "nat \<Rightarrow> char" where
  "hex_digit d = ''0123456789abcdef'' ! d"

definition hex_encode :: "nat list \<Rightarrow> string" where
  "hex_encode bs = concat (map (\<lambda>b. [hex_digit (b div 16 mod 16), hex_digit (b mod 16)]) bs)"

partial_function (option) new_random_id :: "(nat \<Rightarrow> nat list option) \<Rightarrow> nat \<Rightarrow> string option" where
  "new_random_id draw n =
     (case draw n of
        None \<Rightarrow> new_random_id draw (Suc n)
      | Some bs \<Rightarrow> if is_all_zero (hex_encode bs) then new_random_id draw (Suc n) else Some (hex_encode bs))"

subsection \<open>The header\<close>

record trace_context =
  tc_trace :: string
  tc_span :: string
  tc_flags :: string
  tc_state :: string

definition parse_traceparent :: "string \<Rightarrow> trace_context option" where
  "parse_traceparent header =
     (case split_at CHR ''-'' (trim_space header) of
        [a, b, c, d] \<Rightarrow>
          (let version = norm_id a; trace = norm_id b; span = norm_id c; flags = norm_id d
           in if \<not> is_hex version 2 \<or> version = ''ff'' then None
              else if \<not> is_valid_trace_id trace then None
              else if \<not> is_valid_span_id span then None
              else if \<not> is_hex flags 2 then None
              else Some \<lparr>tc_trace = trace, tc_span = span, tc_flags = flags, tc_state = ''''\<rparr>)
      | _ \<Rightarrow> None)"

definition build_traceparent :: "trace_context \<Rightarrow> string" where
  "build_traceparent tc =
     (let trace = norm_id (tc_trace tc); span = norm_id (tc_span tc); flags = normalize_trace_flags (tc_flags tc)
      in if \<not> is_valid_trace_id trace \<or> \<not> is_valid_span_id span then ''''
         else ''00-'' @ trace @ ''-'' @ span @ ''-'' @ flags)"

subsection \<open>Contexts\<close>

record obs_context =
  cx_request :: "string option"
  cx_trace :: "string option"
  cx_tc :: "trace_context option"
  cx_parent :: "string option"

definition background :: obs_context where
  "background = \<lparr>cx_request = None, cx_trace = None, cx_tc = None, cx_parent = None\<rparr>"

record obs_ids =
  id_request :: string
  id_trace :: string

definition into_context :: "obs_ids \<Rightarrow> obs_context \<Rightarrow> obs_context" where
  "into_context ids cx =
     (let r = trim_space (id_request ids); t = trim_space (id_trace ids);
          cx1 = (if r \<noteq> '''' then cx\<lparr>cx_request := Some r\<rparr> else cx)
      in if t \<noteq> '''' then cx1\<lparr>cx_trace := Some t\<rparr> else cx1)"

definition from_context :: "obs_context \<Rightarrow> obs_ids" where
  "from_context cx =
     \<lparr>id_request = (case cx_request cx of None \<Rightarrow> '''' | Some v \<Rightarrow> trim_space v),
      id_trace = (case cx_trace cx of None \<Rightarrow> '''' | Some v \<Rightarrow> trim_space v)\<rparr>"

definition norm_tc :: "trace_context \<Rightarrow> trace_context" where
  "norm_tc tc = \<lparr>tc_trace = norm_id (tc_trace tc), tc_span = norm_id (tc_span tc),
     tc_flags = normalize_trace_flags (tc_flags tc), tc_state = trim_space (tc_state tc)\<rparr>"

definition into_trace_context :: "trace_context \<Rightarrow> obs_context \<Rightarrow> obs_context" where
  "into_trace_context tc cx = cx\<lparr>cx_tc := Some (norm_tc tc)\<rparr>"

definition trace_context_from_context :: "obs_context \<Rightarrow> trace_context option" where
  "trace_context_from_context cx =
     (case cx_tc cx of
        None \<Rightarrow> None
      | Some tc \<Rightarrow> if is_valid_trace_id (tc_trace (norm_tc tc)) then Some (norm_tc tc) else None)"

definition with_incoming_parent :: "string \<Rightarrow> obs_context \<Rightarrow> obs_context" where
  "with_incoming_parent span cx =
     cx\<lparr>cx_parent := Some (if is_valid_span_id (norm_id span) then norm_id span else '''')\<rparr>"

definition incoming_parent :: "obs_context \<Rightarrow> string" where
  "incoming_parent cx =
     (case cx_parent cx of None \<Rightarrow> '''' | Some v \<Rightarrow> if is_valid_span_id (norm_id v) then norm_id v else '''')"

definition ensure_trace_context :: "string \<Rightarrow> string \<Rightarrow> obs_context \<Rightarrow> obs_context \<times> trace_context" where
  "ensure_trace_context new_trace new_span cx =
     (let ids = from_context cx;
          tc0 = (case trace_context_from_context cx of None \<Rightarrow> \<lparr>tc_trace = '''', tc_span = '''', tc_flags = '''', tc_state = ''''\<rparr> | Some tc \<Rightarrow> tc);
          tc1 = (if is_valid_trace_id (tc_trace tc0) then tc0
                 else tc0\<lparr>tc_trace := if is_valid_trace_id (id_trace ids) then id_trace ids else new_trace\<rparr>);
          tc2 = (if is_valid_span_id (tc_span tc1) then tc1 else tc1\<lparr>tc_span := new_span\<rparr>);
          tc3 = tc2\<lparr>tc_flags := normalize_trace_flags (tc_flags tc2)\<rparr>
      in (into_trace_context tc3 cx, tc3))"

text \<open>The draws of \<open>EnsureIDs\<close>: a UUID, a trace for the identifiers, and those of the trace context.\<close>

record id_draws =
  dr_uuid :: string
  dr_trace :: string
  dr_trace_tc :: string
  dr_span :: string

definition chosen_ids :: "id_draws \<Rightarrow> obs_context \<Rightarrow> obs_ids" where
  "chosen_ids dr cx =
     (let ids0 = from_context cx;
          ids1 = (if id_request ids0 = '''' then ids0\<lparr>id_request := dr_uuid dr\<rparr> else ids0)
      in if id_trace ids1 = ''''
         then ids1\<lparr>id_trace := (case trace_context_from_context cx of
            Some tc \<Rightarrow> if is_valid_trace_id (tc_trace tc) then tc_trace tc else dr_trace dr
          | None \<Rightarrow> dr_trace dr)\<rparr>
         else ids1)"

definition ensure_ids :: "id_draws \<Rightarrow> obs_context \<Rightarrow> obs_context \<times> obs_ids" where
  "ensure_ids dr cx =
     (let ids = chosen_ids dr cx
      in (case ensure_trace_context (dr_trace_tc dr) (dr_span dr) (into_context ids cx) of
            (cx1, tc) \<Rightarrow>
              (if tc_trace tc \<noteq> id_trace ids then into_trace_context (tc\<lparr>tc_trace := id_trace ids\<rparr>) cx1 else cx1, ids)))"

subsection \<open>Normal identifiers\<close>

lemma hex_char_facts:
  assumes "c \<in> set ''0123456789abcdef''"
  shows "lower_char c = c" "\<not> is_space c" "c \<noteq> CHR ''-''"
proof -
  have "list_all (\<lambda>c. lower_char c = c \<and> \<not> is_space c \<and> c \<noteq> CHR ''-'') ''0123456789abcdef''" by code_simp
  then show "lower_char c = c" "\<not> is_space c" "c \<noteq> CHR ''-''" using assms unfolding list_all_iff by blast+
qed

lemma is_hex_chars: "is_hex v n \<Longrightarrow> c \<in> set v \<Longrightarrow> c \<in> set ''0123456789abcdef''"
  by (simp only: is_hex_def list_all_iff)

lemma trim_space_id: "\<forall>c \<in> set v. \<not> is_space c \<Longrightarrow> trim_space v = v"
proof -
  have "dropWhile is_space xs = xs" if "\<forall>c \<in> set xs. \<not> is_space c" for xs using that by (cases xs) auto
  from this [of v] this [of "rev v"] show "\<forall>c \<in> set v. \<not> is_space c \<Longrightarrow> trim_space v = v" by (simp add: trim_space_def)
qed

lemma norm_id_hex: "is_hex v n \<Longrightarrow> norm_id v = v"
proof -
  assume h: "is_hex v n"
  then have "trim_space v = v" using is_hex_chars hex_char_facts(2) by (intro trim_space_id) blast
  moreover have "map lower_char v = v" using is_hex_chars [OF h] hex_char_facts(1) by (intro map_idI) blast
  ultimately show "norm_id v = v" by (simp add: norm_id_def to_lower_def)
qed

lemma lower_char_code: "(of_char (lower_char c) :: nat) =
    (if 65 \<le> (of_char c :: nat) \<and> (of_char c :: nat) \<le> 90 then of_char c + 32 else of_char c)"
  by (simp add: lower_char_def of_char_of take_bit_nat_eq_self)

lemma is_space_code: "is_space c \<longleftrightarrow> (of_char c :: nat) \<in> {9, 10, 11, 12, 13, 32}"
proof -
  have "c = char_of n \<longleftrightarrow> (of_char c :: nat) = n" if "n < 256" for n
    using that by (metis char_of_char of_char_of take_bit_nat_eq_self numeral_power_eq_of_nat_cancel_iff of_char_mod_256 mod_less)
  moreover have "[CHR 0x09, CHR 0x0A, CHR 0x0B, CHR 0x0C, CHR 0x0D, CHR '' ''] = map char_of [9::nat, 10, 11, 12, 13, 32]" by code_simp
  ultimately show ?thesis by (simp only: is_space_def list.set list.map) simp
qed

lemma lower_char_idem [simp]: "lower_char (lower_char c) = lower_char c"
proof -
  have "\<not> (65 \<le> (of_char (lower_char c) :: nat) \<and> (of_char (lower_char c) :: nat) \<le> 90)" by (simp add: lower_char_code)
  then show ?thesis by (simp only: lower_char_def [of "lower_char c"] if_False)
qed

lemma is_space_lower [simp]: "is_space (lower_char c) = is_space c"
  by (simp add: is_space_code lower_char_code)

lemma trim_to_lower: "trim_space (to_lower v) = to_lower (trim_space v)"
  by (simp add: trim_space_def to_lower_def dropWhile_map comp_def rev_map)

lemma norm_id_idem [simp]: "norm_id (norm_id v) = norm_id v"
  by (simp add: norm_id_def trim_to_lower) (simp add: to_lower_def)

lemma is_hex_no_dash: "is_hex v n \<Longrightarrow> CHR ''-'' \<notin> set v"
  using is_hex_chars hex_char_facts(3) by blast



lemma valid_id_of_norm [simp]:
  "is_valid_trace_id v \<Longrightarrow> is_valid_trace_id (norm_id v)" "is_valid_span_id v \<Longrightarrow> is_valid_span_id (norm_id v)"
  by (auto simp: is_valid_trace_id_def is_valid_span_id_def)

lemma normalize_flags_hex [simp]: "is_hex (normalize_trace_flags f) 2"
proof -
  have "is_hex ''01'' 2" by code_simp
  then show ?thesis by (simp add: normalize_trace_flags_def)
qed

lemma norm_id_flags [simp]: "norm_id (normalize_trace_flags f) = normalize_trace_flags f"
  by (rule norm_id_hex [OF normalize_flags_hex])

lemma normalize_flags_idem [simp]: "normalize_trace_flags (normalize_trace_flags f) = normalize_trace_flags f"
  using norm_id_hex [OF normalize_flags_hex [of f]] normalize_flags_hex [of f]
  by (simp only: normalize_trace_flags_def [of "normalize_trace_flags f"] if_True)

subsection \<open>Building and parsing\<close>

lemma split_at_append: "c \<notin> set a \<Longrightarrow> split_at c (a @ c # b) = a # split_at c b"
  by (induction a) auto

lemma split_at_none: "c \<notin> set a \<Longrightarrow> split_at c a = [a]"
  by (induction a) auto

lemma build_traceparent_parses:
  assumes "is_valid_trace_id (tc_trace tc)" "is_valid_span_id (tc_span tc)"
  shows "parse_traceparent (build_traceparent tc) = Some ((norm_tc tc)\<lparr>tc_state := ''''\<rparr>)"
proof -
  let ?t = "norm_id (tc_trace tc)" and ?s = "norm_id (tc_span tc)" and ?f = "normalize_trace_flags (tc_flags tc)"
  have hex: "is_hex ?t 32" "is_hex ?s 16" "is_hex ?f 2" using assms by (simp_all add: is_valid_trace_id_def is_valid_span_id_def)
  have v: "is_hex ''00'' 2" by code_simp
  have b: "build_traceparent tc = ''00'' @ CHR ''-'' # ?t @ CHR ''-'' # ?s @ CHR ''-'' # ?f"
    using assms by (simp add: build_traceparent_def Let_def)
  have ns: "\<forall>c \<in> set x. \<not> is_space c" if "is_hex x n" for x n
    using hex_char_facts(2) is_hex_chars [OF that] by blast
  have "\<not> is_space CHR ''-''" by code_simp
  with ns [OF hex(1)] ns [OF hex(2)] ns [OF hex(3)] ns [OF v]
  have "\<forall>c \<in> set (''00'' @ CHR ''-'' # ?t @ CHR ''-'' # ?s @ CHR ''-'' # ?f). \<not> is_space c"
    by (simp add: ball_Un)
  then have "trim_space (build_traceparent tc) = ''00'' @ CHR ''-'' # ?t @ CHR ''-'' # ?s @ CHR ''-'' # ?f"
    unfolding b by (rule trim_space_id)
  moreover have "split_at CHR ''-'' (''00'' @ CHR ''-'' # ?t @ CHR ''-'' # ?s @ CHR ''-'' # ?f) = [''00'', ?t, ?s, ?f]"
    using is_hex_no_dash [OF hex(1)] is_hex_no_dash [OF hex(2)] is_hex_no_dash [OF hex(3)]
    by (simp only: split_at_append split_at_none is_hex_no_dash [OF v] not_False_eq_True)
  moreover have "norm_id ''00'' = ''00''" by (rule norm_id_hex [OF v])
  ultimately show ?thesis
    using hex v assms by (simp add: parse_traceparent_def Let_def norm_tc_def)
qed

lemma parse_traceparent_valid:
  assumes "parse_traceparent h = Some tc"
  shows "is_valid_trace_id (tc_trace tc) \<and> is_valid_span_id (tc_span tc) \<and> is_hex (tc_flags tc) 2 \<and> tc_state tc = ''''"
  using assms by (auto simp: parse_traceparent_def Let_def split: list.splits if_splits)

lemma norm_tc_parsed: "parse_traceparent h = Some tc \<Longrightarrow> norm_tc tc = tc"
  by (auto simp: parse_traceparent_def Let_def norm_tc_def normalize_trace_flags_def is_valid_trace_id_def is_valid_span_id_def
      split: list.splits if_splits)

text \<open>Parsing a header and building it again gives a header that parses to the same.\<close>

lemma parse_build_parse:
  "parse_traceparent h = Some tc \<Longrightarrow> parse_traceparent (build_traceparent tc) = Some tc"
  using build_traceparent_parses [of tc] parse_traceparent_valid [of h tc] norm_tc_parsed [of h tc] by simp


subsection \<open>Ensuring identifiers\<close>

lemma norm_tc_idem [simp]: "norm_tc (norm_tc tc) = norm_tc tc"
  by (simp add: norm_tc_def)

lemma from_into_context:
  "from_context (into_context ids cx) =
     \<lparr>id_request = (if trim_space (id_request ids) = '''' then id_request (from_context cx) else trim_space (id_request ids)),
      id_trace = (if trim_space (id_trace ids) = '''' then id_trace (from_context cx) else trim_space (id_trace ids))\<rparr>"
  by (simp add: into_context_def from_context_def Let_def)

lemma ensure_trace_context_valid:
  assumes "ensure_trace_context nt ns cx = (cx', tc)" "is_valid_trace_id nt" "is_valid_span_id ns"
  shows "is_valid_trace_id (tc_trace tc) \<and> is_valid_span_id (tc_span tc) \<and> is_hex (tc_flags tc) 2 \<and>
    trace_context_from_context cx' = Some (norm_tc tc) \<and> cx_request cx' = cx_request cx \<and> cx_trace cx' = cx_trace cx"
proof -
  have "is_valid_trace_id (tc_trace tc) \<and> is_valid_span_id (tc_span tc) \<and> is_hex (tc_flags tc) 2 \<and>
      cx' = into_trace_context tc cx"
    using assms by (auto simp: ensure_trace_context_def Let_def)
  then show ?thesis by (simp add: into_trace_context_def trace_context_from_context_def) (simp add: norm_tc_def)
qed

lemma ensure_ids_shape:
  assumes "ensure_ids dr cx = (cx', ids)"
  shows "\<exists>cx1 tc. ensure_trace_context (dr_trace_tc dr) (dr_span dr) (into_context ids cx) = (cx1, tc) \<and> ids = chosen_ids dr cx \<and>
    cx' = (if tc_trace tc \<noteq> id_trace ids then into_trace_context (tc\<lparr>tc_trace := id_trace ids\<rparr>) cx1 else cx1)"
proof -
  obtain cx1 tc where e: "ensure_trace_context (dr_trace_tc dr) (dr_span dr) (into_context (chosen_ids dr cx) cx) = (cx1, tc)"
    by (metis prod.collapse)
  then have "ids = chosen_ids dr cx"
    "cx' = (if tc_trace tc \<noteq> id_trace (chosen_ids dr cx) then into_trace_context (tc\<lparr>tc_trace := id_trace (chosen_ids dr cx)\<rparr>) cx1 else cx1)"
    using assms by (auto simp: ensure_ids_def Let_def)
  with e show ?thesis by blast
qed

text \<open>
  With a trace identifier that is absent or valid, the identifiers and the trace context agree afterwards.
\<close>

lemma ensure_ids_agree:
  assumes "ensure_ids dr cx = (cx', ids)"
    and "id_trace (from_context cx) = '''' \<or> is_valid_trace_id (id_trace (from_context cx))"
    and "is_valid_trace_id (dr_trace dr)" "is_valid_trace_id (dr_trace_tc dr)" "is_valid_span_id (dr_span dr)"
  shows "\<exists>tc. trace_context_from_context cx' = Some tc \<and> tc_trace tc = norm_id (id_trace ids) \<and>
    is_valid_trace_id (tc_trace tc) \<and> is_valid_span_id (tc_span tc)"
proof -
  obtain cx1 tc where e: "ensure_trace_context (dr_trace_tc dr) (dr_span dr) (into_context ids cx) = (cx1, tc)"
    and ids: "ids = chosen_ids dr cx" and cx': "cx' = (if tc_trace tc \<noteq> id_trace ids then into_trace_context (tc\<lparr>tc_trace := id_trace ids\<rparr>) cx1 else cx1)"
    using ensure_ids_shape [OF assms(1)] by blast
  have valid: "is_valid_trace_id (id_trace ids)"
    using assms(2,3) by (auto simp: ids chosen_ids_def Let_def trace_context_from_context_def split: option.split)
  note v = ensure_trace_context_valid [OF e assms(4,5)]
  show ?thesis
  proof (cases "tc_trace tc = id_trace ids")
    case True
    with v cx' show ?thesis by (auto simp: norm_tc_def)
  next
    case False
    with v cx' valid show ?thesis
      by (simp add: into_trace_context_def trace_context_from_context_def) (simp add: norm_tc_def)
  qed
qed

text \<open>
  With a trace identifier that is present but not valid, the trace context written last is unusable, so the next
  reader finds none.
\<close>

lemma ensure_ids_disagree:
  assumes "ensure_ids dr cx = (cx', ids)" "id_trace (from_context cx) \<noteq> ''''" "\<not> is_valid_trace_id (id_trace (from_context cx))"
    and "is_valid_trace_id (dr_trace_tc dr)" "is_valid_span_id (dr_span dr)"
  shows "id_trace ids = id_trace (from_context cx) \<and> trace_context_from_context cx' = None"
proof -
  obtain cx1 tc where e: "ensure_trace_context (dr_trace_tc dr) (dr_span dr) (into_context ids cx) = (cx1, tc)"
    and chosen: "ids = chosen_ids dr cx" and cx': "cx' = (if tc_trace tc \<noteq> id_trace ids then into_trace_context (tc\<lparr>tc_trace := id_trace ids\<rparr>) cx1 else cx1)"
    using ensure_ids_shape [OF assms(1)] by blast
  have ids: "id_trace ids = id_trace (from_context cx)"
    using assms(2) by (simp add: chosen chosen_ids_def Let_def)
  note v = ensure_trace_context_valid [OF e assms(4,5)]
  have "tc_trace tc \<noteq> id_trace ids" using v ids assms(3) by auto
  moreover have "\<not> is_valid_trace_id (norm_id (id_trace ids))" using ids assms(3) by (simp add: is_valid_trace_id_def)
  ultimately show ?thesis using cx' ids
    by (simp add: into_trace_context_def trace_context_from_context_def) (simp add: norm_tc_def)
qed

text \<open>A source of random bytes that ever yields a usable draw yields an identifier.\<close>

lemma new_random_id_returns:
  assumes "draw (n + k) = Some bs" "\<not> is_all_zero (hex_encode bs)"
  shows "\<exists>v. new_random_id draw n = Some v \<and> \<not> is_all_zero v"
  using assms
proof (induction k arbitrary: n)
  case 0
  then show ?case by (simp add: new_random_id.simps)
next
  case (Suc k)
  then show ?case
    by (subst new_random_id.simps) (auto split: option.split)
qed

lemma new_random_id_hex:
  assumes "new_random_id draw n = Some v" "\<And>m bs. draw m = Some bs \<Longrightarrow> length bs = l"
  shows "is_hex v (2 * l) \<and> \<not> is_all_zero v"
proof -
  have digit: "hex_digit (b mod 16) \<in> set ''0123456789abcdef''" for b
    unfolding hex_digit_def by (rule nth_mem) simp
  have "\<exists>m bs. draw m = Some bs \<and> v = hex_encode bs \<and> \<not> is_all_zero v"
    by (rule new_random_id.raw_induct [OF _ assms(1)]) (auto split: option.splits if_splits)
  then obtain m bs where m: "draw m = Some bs" "v = hex_encode bs" "\<not> is_all_zero v" by blast
  have "length (hex_encode bs) = 2 * length bs" by (induction bs) (simp_all add: hex_encode_def)
  moreover have "list_all (\<lambda>c. c \<in> set ''0123456789abcdef'') (hex_encode bs)"
    using digit by (induction bs) (simp_all add: hex_encode_def)
  ultimately show ?thesis using m assms(2) by (simp add: is_hex_def)
qed

end
