(* ===== verification/Messaging.thy ===== *)
theory Messaging
  imports Trace_Context "HOL-Library.AList"
begin

text \<open>
  Messages over Redis streams: the publisher and the consumer-group subscriber of
  \<open>internal/infrastructure/messaging\<close>. A message's metadata and the field map of a stream entry are
  association lists with distinct keys. The printing of times is an argument. Spans of the trace
  backend are not modelled; the code runs the same way without one.
\<close>

record message_rec =
  mg_id :: string
  mg_topic :: string
  mg_key :: string
  mg_payload :: string
  mg_meta :: "(string \<times> string) list"
  mg_occurred :: int
  mg_published :: int

type_synonym fields = "(string \<times> string) list"

subsection \<open>Publishing\<close>

definition set_default :: "string \<Rightarrow> string \<Rightarrow> fields \<Rightarrow> fields" where
  "set_default k v m = (if map_of m k = None then AList.update k v m else m)"

definition enrich_metadata :: "id_draws \<Rightarrow> id_draws \<Rightarrow> obs_context \<Rightarrow> fields \<Rightarrow> fields" where
  "enrich_metadata dr dr' cx meta =
     (case ensure_ids dr cx of (cx1, ids) \<Rightarrow>
       (case ensure_trace_context (dr_trace dr') (dr_span dr') cx1 of (cx2, tc) \<Rightarrow>
         (let tp = build_traceparent tc; ts = trim_space (tc_state tc);
              m1 = (if tp \<noteq> '''' then set_default ''traceparent'' tp meta else meta);
              m2 = (if ts \<noteq> '''' then set_default ''tracestate'' ts m1 else m1)
          in if id_request ids \<noteq> '''' then set_default ''request_id'' (id_request ids) m2 else m2)))"

definition publish_values :: "(int \<Rightarrow> string) \<Rightarrow> message_rec \<Rightarrow> fields" where
  "publish_values fmt m =
     [(''id'', mg_id m), (''key'', mg_key m), (''payload'', mg_payload m),
      (''occurred_at'', fmt (mg_occurred m)), (''published_at'', fmt (mg_published m))] @
     map (\<lambda>(k, v). (''meta_'' @ k, v)) (mg_meta m)"

subsection \<open>Reading a message\<close>

fun parse_metadata :: "fields \<Rightarrow> fields" where
  "parse_metadata [] = []"
| "parse_metadata ((k, v) # fs) =
     (if 5 < length k \<and> take 5 k = ''meta_'' then AList.update (drop 5 k) v (parse_metadata fs) else parse_metadata fs)"

definition parse_message :: "string \<Rightarrow> fields \<Rightarrow> message_rec" where
  "parse_message redis_id values =
     \<lparr>mg_id = (case map_of values ''id'' of Some v \<Rightarrow> if v \<noteq> '''' then v else redis_id | None \<Rightarrow> redis_id),
      mg_topic = '''',
      mg_key = (case map_of values ''key'' of Some v \<Rightarrow> v | None \<Rightarrow> ''''),
      mg_payload = (case map_of values ''payload'' of Some v \<Rightarrow> v | None \<Rightarrow> ''''),
      mg_meta = parse_metadata values, mg_occurred = 0, mg_published = 0\<rparr>"

lemma meta_key [simp]: "5 < length (''meta_'' @ k) \<longleftrightarrow> k \<noteq> []" "take 5 (''meta_'' @ k) = ''meta_''" "drop 5 (''meta_'' @ k) = k"
  by simp_all

lemma parse_metadata_prefixed:
  "\<forall>k \<in> set (map fst m). k \<noteq> [] \<Longrightarrow> distinct (map fst m) \<Longrightarrow>
     map_of (parse_metadata (map (\<lambda>(k, v). (''meta_'' @ k, v)) m)) = map_of m"
proof (induction m)
  case (Cons p m)
  obtain k v where p: "p = (k, v)" by (cases p)
  with Cons show ?case by (simp add: update_conv')
qed simp

lemma parse_publish_values:
  assumes "distinct (map fst (mg_meta m))" "\<forall>k \<in> set (map fst (mg_meta m)). k \<noteq> []"
  shows "mg_id (parse_message i (publish_values fmt m)) = (if mg_id m = '''' then i else mg_id m) \<and>
    mg_key (parse_message i (publish_values fmt m)) = mg_key m \<and>
    mg_payload (parse_message i (publish_values fmt m)) = mg_payload m \<and>
    map_of (mg_meta (parse_message i (publish_values fmt m))) = map_of (mg_meta m)"
proof -
  have "parse_metadata (publish_values fmt m) = parse_metadata (map (\<lambda>(k, v). (''meta_'' @ k, v)) (mg_meta m))"
    by (simp add: publish_values_def)
  then show ?thesis using parse_metadata_prefixed [OF assms(2,1)]
    by (simp add: parse_message_def) (simp add: publish_values_def)
qed

subsection \<open>Consuming\<close>

text \<open>
  A consumer group on one stream: how many entries have been handed out, and which of them are not
  acknowledged. Reading with \<open>>\<close> hands out entries never handed out before.
\<close>

type_synonym 'h handler = "obs_context \<Rightarrow> message_rec \<Rightarrow> 'h \<Rightarrow> bool \<times> 'h"

record 'h consumer =
  co_delivered :: nat
  co_pending :: "nat list"
  co_handled :: "(nat \<times> bool) list"
  co_app :: 'h

text \<open>The context a message is handled in.\<close>

definition consume_context :: "id_draws \<Rightarrow> message_rec \<Rightarrow> obs_context \<Rightarrow> obs_context" where
  "consume_context dr m cx =
     (let get = (\<lambda>k. trim_space (case map_of (mg_meta m) k of Some v \<Rightarrow> v | None \<Rightarrow> ''''));
          ids0 = from_context cx;
          ids1 = (if id_request ids0 = '''' then ids0\<lparr>id_request := get ''request_id''\<rparr> else ids0)
      in case parse_traceparent (get ''traceparent'') of
           Some tc \<Rightarrow>
             (let tc' = tc\<lparr>tc_state := get ''tracestate''\<rparr>
              in fst (ensure_ids dr (into_context (ids1\<lparr>id_trace := tc_trace tc'\<rparr>)
                   (with_incoming_parent (tc_span tc') (into_trace_context tc' cx)))))
         | None \<Rightarrow>
             (let ids2 = (if id_trace ids1 = '''' then ids1\<lparr>id_trace := get ''trace_id''\<rparr> else ids1)
              in fst (ensure_ids dr (into_context ids2 (with_incoming_parent '''' cx)))))"

text \<open>One entry: handle it; only success is acknowledged, and the acknowledgement may fail.\<close>

definition consume_entry ::
  "id_draws \<Rightarrow> obs_context \<Rightarrow> string \<Rightarrow> 'h handler \<Rightarrow> bool \<Rightarrow> nat \<Rightarrow> string \<times> fields \<Rightarrow> 'h consumer \<Rightarrow> 'h consumer" where
  "consume_entry dr cx topic handler ack i entry c =
     (let m = (parse_message (fst entry) (snd entry))\<lparr>mg_topic := topic\<rparr>
      in (case handler (consume_context dr m cx) m (co_app c) of
            (ok, app) \<Rightarrow>
              c\<lparr>co_app := app, co_handled := co_handled c @ [(i, ok)],
                co_pending := (if ok \<and> ack then co_pending c else co_pending c @ [i])\<rparr>))"

fun consume_batch ::
  "id_draws \<Rightarrow> obs_context \<Rightarrow> string \<Rightarrow> 'h handler \<Rightarrow> (nat \<Rightarrow> bool) \<Rightarrow> nat \<Rightarrow> (string \<times> fields) list \<Rightarrow> 'h consumer \<Rightarrow> 'h consumer" where
  "consume_batch dr cx topic handler acks i [] c = c"
| "consume_batch dr cx topic handler acks i (e # es) c =
     consume_batch dr cx topic handler acks (Suc i) es (consume_entry dr cx topic handler (acks i) i e c)"

text \<open>One turn of the loop: a failed or empty read is repeated, a batch is handled entry by entry.\<close>

definition subscribe_round ::
  "int \<Rightarrow> id_draws \<Rightarrow> obs_context \<Rightarrow> string \<Rightarrow> 'h handler \<Rightarrow> (nat \<Rightarrow> bool) \<Rightarrow> bool \<Rightarrow> (string \<times> fields) list \<Rightarrow> 'h consumer \<Rightarrow> 'h consumer" where
  "subscribe_round read_count dr cx topic handler acks read_ok stream c =
     (if \<not> read_ok then c
      else let n = (if read_count \<le> 0 then 1 else nat read_count);
               batch = take n (drop (co_delivered c) stream)
           in consume_batch dr cx topic handler acks (co_delivered c) batch
                (c\<lparr>co_delivered := co_delivered c + length batch\<rparr>))"

inductive consumer_step :: "string \<Rightarrow> 'h handler \<Rightarrow> (string \<times> fields) list \<times> 'h consumer \<Rightarrow> (string \<times> fields) list \<times> 'h consumer \<Rightarrow> bool"
  for topic handler where
  round: "consumer_step topic handler (s, c) (s, subscribe_round n dr cx topic handler acks ok s c)"
| appended: "consumer_step topic handler (s, c) (s @ es, c)"

definition new_consumer :: "'h \<Rightarrow> 'h consumer" where
  "new_consumer app = \<lparr>co_delivered = 0, co_pending = [], co_handled = [], co_app = app\<rparr>"

subsection \<open>Each entry is handled once, in order\<close>

lemma consume_batch_effect:
  "\<exists>oks. length oks = length es \<and>
     co_handled (consume_batch dr cx topic handler acks i es c) = co_handled c @ zip [i..<i + length es] oks \<and>
     co_delivered (consume_batch dr cx topic handler acks i es c) = co_delivered c \<and>
     co_pending (consume_batch dr cx topic handler acks i es c) =
       co_pending c @ filter (\<lambda>j. \<not> (oks ! (j - i) \<and> acks j)) [i..<i + length es]"
proof (induction es arbitrary: i c)
  case (Cons e es)
  let ?c = "consume_entry dr cx topic handler (acks i) i e c"
  let ?m = "(parse_message (fst e) (snd e))\<lparr>mg_topic := topic\<rparr>"
  obtain ok app where "handler (consume_context dr ?m cx) ?m (co_app c) = (ok, app)" by (metis prod.collapse)
  then have h: "co_handled ?c = co_handled c @ [(i, ok)]" "co_delivered ?c = co_delivered c"
    "co_pending ?c = (if ok \<and> acks i then co_pending c else co_pending c @ [i])"
    by (simp_all add: consume_entry_def Let_def)
  obtain oks where oks: "length oks = length es"
    "co_handled (consume_batch dr cx topic handler acks (Suc i) es ?c) = co_handled ?c @ zip [Suc i..<Suc i + length es] oks"
    "co_delivered (consume_batch dr cx topic handler acks (Suc i) es ?c) = co_delivered ?c"
    "co_pending (consume_batch dr cx topic handler acks (Suc i) es ?c) =
       co_pending ?c @ filter (\<lambda>j. \<not> (oks ! (j - Suc i) \<and> acks j)) [Suc i..<Suc i + length es]"
    using Cons.IH [of "Suc i" ?c] by blast
  have up: "[i..<Suc (i + length es)] = i # [Suc i..<Suc (i + length es)]" by (simp add: upt_rec [of i] del: upt_Suc)
  have f: "filter (\<lambda>j. \<not> ((b # oks) ! (j - i) \<and> acks j)) [Suc i..<Suc i + length es] =
      filter (\<lambda>j. \<not> (oks ! (j - Suc i) \<and> acks j)) [Suc i..<Suc i + length es]" for b
    by (rule filter_cong [OF refl]) (auto simp: nth_Cons' Suc_diff_le)
  show ?case
    using oks h f by (intro exI [of _ "ok # oks"]) (simp add: up del: upt_Suc)
qed simp

definition consumed :: "(string \<times> fields) list \<times> 'h consumer \<Rightarrow> bool" where
  "consumed = (\<lambda>(s, c). co_delivered c \<le> length s \<and> map fst (co_handled c) = [0..<co_delivered c] \<and>
     (\<forall>i. (i, False) \<in> set (co_handled c) \<longrightarrow> i \<in> set (co_pending c)))"

lemma consumed_step:
  assumes "consumer_step topic handler x y" "consumed x"
  shows "consumed y \<and> (\<exists>hs. co_handled (snd y) = co_handled (snd x) @ hs) \<and> (\<exists>ps. co_pending (snd y) = co_pending (snd x) @ ps)"
  using assms
proof (induction rule: consumer_step.induct)
  case (round s c n dr cx acks ok)
  show ?case
  proof (cases ok)
    case True
    let ?n = "if n \<le> 0 then 1 else nat n"
    let ?b = "take ?n (drop (co_delivered c) s)"
    let ?c = "c\<lparr>co_delivered := co_delivered c + length ?b\<rparr>"
    obtain oks where oks: "length oks = length ?b"
      "co_handled (consume_batch dr cx topic handler acks (co_delivered c) ?b ?c) = co_handled ?c @ zip [co_delivered c..<co_delivered c + length ?b] oks"
      "co_delivered (consume_batch dr cx topic handler acks (co_delivered c) ?b ?c) = co_delivered ?c"
      "co_pending (consume_batch dr cx topic handler acks (co_delivered c) ?b ?c) =
         co_pending ?c @ filter (\<lambda>j. \<not> (oks ! (j - co_delivered c) \<and> acks j)) [co_delivered c..<co_delivered c + length ?b]"
      using consume_batch_effect [of ?b dr cx topic handler acks "co_delivered c" ?c] by blast
    have r: "subscribe_round n dr cx topic handler acks ok s c = consume_batch dr cx topic handler acks (co_delivered c) ?b ?c"
      using True by (simp add: subscribe_round_def Let_def)
    have bound: "co_delivered c + length ?b \<le> length s" using round by (auto simp: consumed_def)
    have handled: "map fst (co_handled ?c @ zip [co_delivered c..<co_delivered c + length ?b] oks) = [0..<co_delivered c + length ?b]"
      using round oks(1) upt_add_eq_append [of 0 "co_delivered c" "length ?b"] by (simp add: consumed_def)
    have failed: "i \<in> set (filter (\<lambda>j. \<not> (oks ! (j - co_delivered c) \<and> acks j)) [co_delivered c..<co_delivered c + length ?b])"
      if "(i, False) \<in> set (zip [co_delivered c..<co_delivered c + length ?b] oks)" for i
      using that oks(1) by (auto simp: set_zip)
    let ?d = "subscribe_round n dr cx topic handler acks ok s c"
    let ?new = "zip [co_delivered c..<co_delivered c + length ?b] oks"
    let ?left = "filter (\<lambda>j. \<not> (oks ! (j - co_delivered c) \<and> acks j)) [co_delivered c..<co_delivered c + length ?b]"
    have d: "co_handled ?d = co_handled c @ ?new" "co_delivered ?d = co_delivered c + length ?b" "co_pending ?d = co_pending c @ ?left"
      using oks(2-4) r by simp_all
    have "(i, False) \<in> set (co_handled ?d) \<Longrightarrow> i \<in> set (co_pending ?d)" for i
      using d failed [of i] round by (auto simp only: consumed_def set_append prod.case)
    moreover have "map fst (co_handled ?d) = [0..<co_delivered ?d]" using d(1,2) handled by simp
    ultimately have "consumed (s, ?d)" using d(2) bound by (simp add: consumed_def)
    with d show ?thesis by simp
  qed (use round in \<open>simp add: subscribe_round_def\<close>)
qed (auto simp: consumed_def)

lemma consumed_steps:
  assumes "(consumer_step topic handler)\<^sup>*\<^sup>* x y" "consumed x"
  shows "consumed y \<and> (\<exists>hs. co_handled (snd y) = co_handled (snd x) @ hs) \<and> (\<exists>ps. co_pending (snd y) = co_pending (snd x) @ ps)"
  using assms
proof (induction rule: rtranclp_induct)
  case (step y z)
  with consumed_step [of topic handler y z] show ?case by (metis append.assoc)
qed auto

lemma consumed_new: "consumed (s, new_consumer app)"
  by (simp add: consumed_def new_consumer_def)

end
