(* ===== verification/Outbox_Relay.thy ===== *)
theory Outbox_Relay
  imports Messaging Outbox_Store Redis_Lock
begin

text \<open>
  The outbox relay of \<open>internal/infrastructure/outbox/processor.go\<close>: under a lock it reads a batch of
  pending events, publishes each to its stream and records the outcome in the table. Every call to the
  database and to Redis takes one step and may be answered, refused, or carried out with its answer
  lost. Without a trace backend (\<open>global.ObservabilityTraces\<close> unset) the spans around a publication
  do nothing, which is the case modelled.
\<close>

record relay_world =
  rl_rows :: "outbox_event list"
  rl_streams :: "string \<Rightarrow> fields list"
  rl_redis :: redis_world
  rl_now :: int
  rl_step :: nat
  rl_fate :: "nat \<Rightarrow> call_fate"

record relay_config =
  rc_batch :: nat
  rc_max_retries :: nat
  rc_lock_enabled :: bool
  rc_lock_ttl :: int
  rc_lock_key :: string
  rc_ltr :: bool
  rc_fmt :: "int \<Rightarrow> string"
  rc_error :: string

definition new_relay_processor :: "(bool \<times> int) option \<Rightarrow> bool \<Rightarrow> (int \<Rightarrow> string) \<Rightarrow> string \<Rightarrow> relay_config" where
  "new_relay_processor conf ltr fmt err =
     \<lparr>rc_batch = 100, rc_max_retries = 3,
      rc_lock_enabled = (case conf of None \<Rightarrow> True | Some (enabled, ttl) \<Rightarrow> enabled),
      rc_lock_ttl = (case conf of None \<Rightarrow> 15 * 1000000000 | Some (enabled, ttl) \<Rightarrow> if 0 < ttl then ttl * 1000000000 else 15 * 1000000000),
      rc_lock_key = ''outbox:relay:process'', rc_ltr = ltr, rc_fmt = fmt, rc_error = err\<rparr>"

text \<open>A call that changes the world, and whether its answer arrived.\<close>

definition relay_call :: "(relay_world \<Rightarrow> relay_world) \<Rightarrow> relay_world \<Rightarrow> bool \<times> relay_world" where
  "relay_call f w =
     (let w' = w\<lparr>rl_step := Suc (rl_step w)\<rparr>
      in (case rl_fate w (rl_step w) of
            Answered \<Rightarrow> (True, f w') | Refused \<Rightarrow> (False, w') | Unanswered \<Rightarrow> (False, f w')))"

subsection \<open>One event\<close>

definition build_publish_context :: "id_draws \<Rightarrow> outbox_event \<Rightarrow> obs_context \<Rightarrow> obs_context" where
  "build_publish_context dr e cx =
     (let ids = \<lparr>id_request = trim_space (ob_request_id e), id_trace = trim_space (ob_trace_id e)\<rparr>;
          cx1 = into_context ids cx
      in case parse_traceparent (trim_space (ob_traceparent e)) of
           Some tc \<Rightarrow>
             (let tc' = tc\<lparr>tc_state := trim_space (ob_tracestate e)\<rparr>
              in fst (ensure_ids dr (with_incoming_parent (tc_span tc')
                   (into_trace_context tc' (into_context (ids\<lparr>id_trace := tc_trace tc'\<rparr>) cx1)))))
         | None \<Rightarrow> fst (ensure_ids dr (with_incoming_parent '''' cx1)))"

definition inject_trace_metadata :: "id_draws \<Rightarrow> id_draws \<Rightarrow> obs_context \<Rightarrow> fields \<Rightarrow> obs_context \<times> fields" where
  "inject_trace_metadata dr dr' cx meta =
     (case ensure_ids dr cx of (cx1, ids) \<Rightarrow>
       (let m1 = (if id_request ids \<noteq> '''' then AList.update ''request_id'' (id_request ids) meta else meta);
            m2 = (if id_trace ids \<noteq> '''' then AList.update ''trace_id'' (id_trace ids) m1 else m1)
        in case ensure_trace_context (dr_trace dr') (dr_span dr') cx1 of (cx2, tc) \<Rightarrow>
             (let tp = build_traceparent tc; ts = trim_space (tc_state tc);
                  m3 = (if tp \<noteq> '''' then AList.update ''traceparent'' tp m2 else m2)
              in (cx2, if ts \<noteq> '''' then AList.update ''tracestate'' ts m3 else m3))))"

definition build_message :: "id_draws \<Rightarrow> id_draws \<Rightarrow> int \<Rightarrow> outbox_event \<Rightarrow> obs_context \<times> message_rec" where
  "build_message dr dr' now e =
     (case inject_trace_metadata dr dr' (build_publish_context dr e background)
        [(''aggregate_id'', ob_agg_id e), (''aggregate_type'', ob_agg_type e), (''source'', ''outbox'')] of
        (cx, meta) \<Rightarrow>
          (cx, \<lparr>mg_id = ob_event_id e, mg_topic = ob_type e, mg_key = '''', mg_payload = ob_payload e, mg_meta = meta,
                mg_occurred = ob_created_at e, mg_published = now\<rparr>))"

definition publish_message :: "(int \<Rightarrow> string) \<Rightarrow> id_draws \<Rightarrow> id_draws \<Rightarrow> obs_context \<Rightarrow> message_rec \<Rightarrow> relay_world \<Rightarrow> bool \<times> relay_world" where
  "publish_message fmt dr dr' cx m w =
     (let m' = m\<lparr>mg_meta := enrich_metadata dr dr' cx (mg_meta m)\<rparr>
      in relay_call (\<lambda>v. v\<lparr>rl_streams := (rl_streams v)(mg_topic m' := rl_streams v (mg_topic m') @ [publish_values fmt m'])\<rparr>) w)"

definition relay_event :: "relay_config \<Rightarrow> id_draws \<Rightarrow> id_draws \<Rightarrow> outbox_event \<Rightarrow> relay_world \<Rightarrow> relay_world" where
  "relay_event rc dr dr' e w =
     (case build_message dr dr' (rl_now w) e of (cx, m) \<Rightarrow>
       (case publish_message (rc_fmt rc) dr dr' cx m w of
          (False, w1) \<Rightarrow>
            snd (relay_call (\<lambda>v. v\<lparr>rl_rows := mark_as_failed (rc_ltr rc) (rl_now v) (ob_event_id e) (rc_error rc) (rc_max_retries rc) (rl_rows v)\<rparr>) w1)
        | (True, w1) \<Rightarrow>
            snd (relay_call (\<lambda>v. v\<lparr>rl_rows := mark_as_published (rl_now v) (ob_event_id e) (rl_rows v)\<rparr>) w1)))"

subsection \<open>One run\<close>

datatype relay_err = ErrRelayLock lock_err | ErrRelayRead

definition relay_batch :: "relay_config \<Rightarrow> id_draws \<Rightarrow> id_draws \<Rightarrow> relay_world \<Rightarrow> (relay_err + unit) \<times> relay_world" where
  "relay_batch rc dr dr' w =
     (case relay_call (\<lambda>v. v) w of
        (False, w1) \<Rightarrow> (Inl ErrRelayRead, w1)
      | (True, w1) \<Rightarrow> (Inr (), fold (relay_event rc dr dr') (get_pending_events (rc_batch rc) (rc_max_retries rc) (rl_rows w)) w1))"

definition relay_process :: "relay_config \<Rightarrow> string \<Rightarrow> id_draws \<Rightarrow> id_draws \<Rightarrow> relay_world \<Rightarrow> (relay_err + unit) \<times> relay_world" where
  "relay_process rc uuid dr dr' w =
     (if \<not> rc_lock_enabled rc then relay_batch rc dr dr' w
      else (case try_lock (rl_redis w, new_redis_lock uuid (rc_lock_key rc) (rc_lock_ttl rc)) of
          (Inl e, (rw, l)) \<Rightarrow> (if e = ErrLockFailed then Inr () else Inl (ErrRelayLock e), w\<lparr>rl_redis := rw\<rparr>)
        | (Inr u, (rw, l)) \<Rightarrow>
            (case relay_batch rc dr dr' (w\<lparr>rl_redis := rw\<rparr>) of
               (r, w1) \<Rightarrow> (r, w1\<lparr>rl_redis := fst (snd (unlock_with_context (rl_redis w1, l)))\<rparr>))))"

subsection \<open>The relay among the other users of the table\<close>

text \<open>Transactions append events under new identifiers; the cleaner deletes old rows; time and the fates of calls are free.\<close>

inductive relay_step :: "relay_config \<Rightarrow> relay_world \<Rightarrow> relay_world \<Rightarrow> bool" for rc where
  relay_run: "relay_step rc w (snd (relay_process rc uuid dr dr' w))"
| relay_new_event: "ob_event_id e \<notin> ob_event_id ` set (rl_rows w) \<Longrightarrow> ob_event_id e \<noteq> '''' \<Longrightarrow> ob_status e = OPending \<Longrightarrow>
    relay_step rc w (w\<lparr>rl_rows := outbox_create e (rl_rows w)\<rparr>)"
| relay_clean_published: "relay_step rc w (w\<lparr>rl_rows := delete_published_before t (rl_rows w)\<rparr>)"
| relay_clean_failed: "relay_step rc w (w\<lparr>rl_rows := delete_failed_before t (rl_rows w)\<rparr>)"
| relay_environment: "rl_rows w' = rl_rows w \<Longrightarrow> rl_streams w' = rl_streams w \<Longrightarrow> relay_step rc w w'"

text \<open>What identifies a row for its consumers, and a message that carries it.\<close>

definition event_sig :: "outbox_event \<Rightarrow> string \<times> string \<times> string" where
  "event_sig e = (ob_event_id e, ob_type e, ob_payload e)"

definition carries :: "fields \<Rightarrow> outbox_event \<Rightarrow> bool" where
  "carries v e \<longleftrightarrow> mg_id (parse_message '''' v) = ob_event_id e \<and> mg_payload (parse_message '''' v) = ob_payload e"

definition relay_ok :: "relay_world \<Rightarrow> bool" where
  "relay_ok w \<longleftrightarrow> distinct (map ob_event_id (rl_rows w)) \<and> (\<forall>e \<in> set (rl_rows w). ob_event_id e \<noteq> '''') \<and>
     (\<forall>e \<in> set (rl_rows w). ob_status e = OPublished \<longrightarrow> (\<exists>v \<in> set (rl_streams w (ob_type e)). carries v e))"

lemma publish_values_carries:
  "mg_id m \<noteq> '''' \<Longrightarrow> mg_id m = ob_event_id e \<Longrightarrow> mg_payload m = ob_payload e \<Longrightarrow> carries (publish_values fmt m) e"
  by (simp add: carries_def parse_message_def publish_values_def)

lemma build_message_fields:
  "build_message dr dr' now e = (cx, m) \<Longrightarrow>
     mg_id m = ob_event_id e \<and> mg_topic m = ob_type e \<and> mg_payload m = ob_payload e \<and> mg_occurred m = ob_created_at e"
  by (auto simp: build_message_def split: prod.splits)


text \<open>A row keeps what identifies it while events are marked; success is recorded after publication.\<close>

lemma sigs_marks [simp]:
  "map event_sig (mark_as_published now i rows) = map event_sig rows"
  "map event_sig (mark_as_failed ltr now i msg mr rows) = map event_sig rows"
  by (simp_all add: event_sig_def mark_as_published_def mark_as_failed_def)

lemma sig_unique:
  assumes "distinct (map ob_event_id rows)" "event_sig e \<in> event_sig ` set rows" "x \<in> set rows" "ob_event_id x = ob_event_id e"
  shows "event_sig x = event_sig e"
proof -
  obtain y where y: "y \<in> set rows" "event_sig y = event_sig e" using assms(2) by (metis imageE)
  then have "ob_event_id y = ob_event_id x" using assms(4) by (simp add: event_sig_def)
  then have "y = x" using assms(1,3) y(1) by (auto simp: distinct_map dest: inj_onD)
  with y show ?thesis by simp
qed

lemma marked_published_cases:
  assumes "x \<in> set (mark_as_published now i rows)"
  obtains o1 where "o1 \<in> set rows" "event_sig x = event_sig o1" "ob_event_id o1 = i \<or> x = o1"
  using assms unfolding mark_as_published_def by (auto simp: event_sig_def split: if_splits)

lemma marked_failed_cases:
  assumes "x \<in> set (mark_as_failed ltr now i msg mr rows)"
  obtains o1 where "o1 \<in> set rows" "event_sig x = event_sig o1" "ob_status x \<noteq> OPublished \<or> x = o1"
  using assms unfolding mark_as_failed_def by (auto simp: event_sig_def split: if_splits)

lemma carries_sig: "event_sig x = event_sig y \<Longrightarrow> carries v x = carries v y \<and> ob_type x = ob_type y"
  by (simp add: event_sig_def carries_def)

lemma relay_okI:
  assumes "distinct (map ob_event_id (rl_rows w))" "\<And>e. e \<in> set (rl_rows w) \<Longrightarrow> ob_event_id e \<noteq> []"
    and "\<And>e. e \<in> set (rl_rows w) \<Longrightarrow> ob_status e = OPublished \<Longrightarrow> \<exists>v \<in> set (rl_streams w (ob_type e)). carries v e"
  shows "relay_ok w"
  using assms by (simp add: relay_ok_def)

lemma relay_okD:
  assumes "relay_ok w"
  shows "distinct (map ob_event_id (rl_rows w))" "e \<in> set (rl_rows w) \<Longrightarrow> ob_event_id e \<noteq> []"
    "e \<in> set (rl_rows w) \<Longrightarrow> ob_status e = OPublished \<Longrightarrow> \<exists>v \<in> set (rl_streams w (ob_type e)). carries v e"
  using assms by (simp_all add: relay_ok_def)

lemma relay_ok_published:
  assumes "relay_ok w" "\<exists>v \<in> set (rl_streams w (ob_type e)). carries v e" "event_sig e \<in> event_sig ` set (rl_rows w)"
  shows "relay_ok (w\<lparr>rl_rows := mark_as_published now (ob_event_id e) (rl_rows w)\<rparr>)"
proof (rule relay_okI)
  fix x :: outbox_event
  assume "x \<in> set (rl_rows (w\<lparr>rl_rows := mark_as_published now (ob_event_id e) (rl_rows w)\<rparr>))"
  then have "x \<in> set (mark_as_published now (ob_event_id e) (rl_rows w))" by simp
  then obtain o1 where o1: "o1 \<in> set (rl_rows w)" "event_sig x = event_sig o1" "ob_event_id o1 = ob_event_id e \<or> x = o1"
    by (rule marked_published_cases)
  from o1(2) have "ob_event_id x = ob_event_id o1" by (simp add: event_sig_def)
  with relay_okD(2) [OF assms(1) o1(1)] show "ob_event_id x \<noteq> []" by simp
  assume "ob_status x = OPublished"
  with o1 sig_unique [OF relay_okD(1) [OF assms(1)] assms(3) o1(1)] relay_okD(3) [OF assms(1), of o1] assms(2)
  show "\<exists>v \<in> set (rl_streams (w\<lparr>rl_rows := mark_as_published now (ob_event_id e) (rl_rows w)\<rparr>) (ob_type x)). carries v x"
    using carries_sig [of x o1] carries_sig [of o1 e] by auto
qed (use relay_okD(1) [OF assms(1)] in \<open>simp add: ids_mark_as_published\<close>)

lemma relay_ok_failed:
  assumes "relay_ok w"
  shows "relay_ok (w\<lparr>rl_rows := mark_as_failed ltr now i msg mr (rl_rows w)\<rparr>)"
proof (rule relay_okI)
  fix x :: outbox_event
  assume "x \<in> set (rl_rows (w\<lparr>rl_rows := mark_as_failed ltr now i msg mr (rl_rows w)\<rparr>))"
  then have "x \<in> set (mark_as_failed ltr now i msg mr (rl_rows w))" by simp
  then obtain o1 where o1: "o1 \<in> set (rl_rows w)" "event_sig x = event_sig o1" "ob_status x \<noteq> OPublished \<or> x = o1"
    by (rule marked_failed_cases)
  from o1(2) have "ob_event_id x = ob_event_id o1" by (simp add: event_sig_def)
  with relay_okD(2) [OF assms o1(1)] show "ob_event_id x \<noteq> []" by simp
  assume "ob_status x = OPublished"
  with o1 relay_okD(3) [OF assms, of o1] show "\<exists>v \<in> set (rl_streams (w\<lparr>rl_rows := mark_as_failed ltr now i msg mr (rl_rows w)\<rparr>) (ob_type x)). carries v x"
    by simp
qed (use relay_okD(1) [OF assms] in \<open>simp add: ids_mark_as_failed\<close>)

lemma relay_ok_grows:
  assumes "relay_ok w" "rl_rows w' = rl_rows w" "\<And>t. set (rl_streams w t) \<subseteq> set (rl_streams w' t)"
  shows "relay_ok w'"
proof (rule relay_okI)
  fix e :: outbox_event
  assume "e \<in> set (rl_rows w')" "ob_status e = OPublished"
  with relay_okD(3) [OF assms(1), of e] assms(2,3) show "\<exists>v \<in> set (rl_streams w' (ob_type e)). carries v e" by auto
qed (use relay_okD(1,2) [OF assms(1)] assms(2) in auto)

text \<open>Calls: nothing happens, or the command does.\<close>

lemma relay_call_result:
  "relay_call f w = (ok, w') \<Longrightarrow> w' = f (w\<lparr>rl_step := Suc (rl_step w)\<rparr>) \<or> \<not> ok \<and> w' = w\<lparr>rl_step := Suc (rl_step w)\<rparr>"
  by (auto simp: relay_call_def Let_def split: call_fate.splits)

definition relay_same :: "relay_world \<Rightarrow> relay_world \<Rightarrow> bool" where
  "relay_same w w' \<longleftrightarrow> map event_sig (rl_rows w') = map event_sig (rl_rows w) \<and> (\<forall>t. set (rl_streams w t) \<subseteq> set (rl_streams w' t))"

lemma relay_same_trans: "relay_same a b \<Longrightarrow> relay_same b c \<Longrightarrow> relay_same a c"
  unfolding relay_same_def by (metis order_trans)

lemma publish_message_effect:
  assumes "publish_message fmt dr dr' cx m w = (ok, w1)" "relay_ok w"
  shows "relay_ok w1 \<and> relay_same w w1 \<and>
    (ok \<longrightarrow> mg_id m \<noteq> [] \<longrightarrow> (\<exists>v \<in> set (rl_streams w1 (mg_topic m)). \<forall>e. mg_id m = ob_event_id e \<longrightarrow> mg_payload m = ob_payload e \<longrightarrow> carries v e))"
proof -
  let ?v = "publish_values fmt (m\<lparr>mg_meta := enrich_metadata dr dr' cx (mg_meta m)\<rparr>)"
  let ?f = "\<lambda>v. v\<lparr>rl_streams := (rl_streams v)(mg_topic m := rl_streams v (mg_topic m) @ [?v])\<rparr>"
  have call: "relay_call ?f w = (ok, w1)" using assms(1) by (simp add: publish_message_def Let_def)
  from relay_call_result [OF this] show ?thesis
  proof (elim disjE conjE)
    assume "w1 = ?f (w\<lparr>rl_step := Suc (rl_step w)\<rparr>)"
    then have w1: "rl_rows w1 = rl_rows w" "rl_streams w1 = (rl_streams w)(mg_topic m := rl_streams w (mg_topic m) @ [?v])" by simp_all
    then have "relay_ok w1" by (intro relay_ok_grows [OF assms(2)]) auto
    moreover have "relay_same w w1" using w1 by (auto simp: relay_same_def)
    moreover have "?v \<in> set (rl_streams w1 (mg_topic m))" using w1 by simp
    moreover have "mg_id m \<noteq> [] \<Longrightarrow> mg_id m = ob_event_id e \<Longrightarrow> mg_payload m = ob_payload e \<Longrightarrow> carries ?v e" for e
      by (rule publish_values_carries) simp_all
    ultimately show ?thesis by blast
  next
    assume no: "\<not> ok" and "w1 = w\<lparr>rl_step := Suc (rl_step w)\<rparr>"
    then have "rl_rows w1 = rl_rows w" "rl_streams w1 = rl_streams w" by simp_all
    then have "relay_ok w1" "relay_same w w1" by (auto intro: relay_ok_grows [OF assms(2)] simp: relay_same_def)
    with no show ?thesis by blast
  qed
qed

lemma relay_event_ok:
  assumes "relay_ok w" "event_sig e \<in> event_sig ` set (rl_rows w)"
  shows "relay_ok (relay_event rc dr dr' e w) \<and> relay_same w (relay_event rc dr dr' e w)"
proof -
  obtain cx m where m: "build_message dr dr' (rl_now w) e = (cx, m)" by (metis prod.collapse)
  note mf = build_message_fields [OF m]
  obtain ok w1 where p: "publish_message (rc_fmt rc) dr dr' cx m w = (ok, w1)" by (metis prod.collapse)
  note eff = publish_message_effect [OF p assms(1)]
  have sigs: "event_sig e \<in> event_sig ` set (rl_rows w1)"
    using assms(2) eff unfolding relay_same_def by (metis list.set_map)
  have "ob_event_id e \<noteq> []" using assms by (auto simp: event_sig_def dest: relay_okD(2))
  then have carried: "ok \<Longrightarrow> \<exists>v \<in> set (rl_streams w1 (ob_type e)). carries v e" using eff mf by auto
  let ?f = "\<lambda>v. if ok then v\<lparr>rl_rows := mark_as_published (rl_now v) (ob_event_id e) (rl_rows v)\<rparr>
     else v\<lparr>rl_rows := mark_as_failed (rc_ltr rc) (rl_now v) (ob_event_id e) (rc_error rc) (rc_max_retries rc) (rl_rows v)\<rparr>"
  let ?w2 = "snd (relay_call ?f w1)"
  have run: "relay_event rc dr dr' e w = ?w2" using m p by (cases ok) (simp_all add: relay_event_def)
  let ?u = "w1\<lparr>rl_step := Suc (rl_step w1)\<rparr>"
  have u: "relay_ok ?u" using eff by (auto intro: relay_ok_grows)
  have f: "relay_ok (?f ?u) \<and> relay_same w1 (?f ?u)"
  proof (cases ok)
    case True
    have "relay_ok (?u\<lparr>rl_rows := mark_as_published (rl_now ?u) (ob_event_id e) (rl_rows ?u)\<rparr>)"
      by (rule relay_ok_published [OF u]) (use carried [OF True] sigs in simp_all)
    with True show ?thesis by (simp add: relay_same_def)
  next
    case False
    have "relay_ok (?u\<lparr>rl_rows := mark_as_failed (rc_ltr rc) (rl_now ?u) (ob_event_id e) (rc_error rc) (rc_max_retries rc) (rl_rows ?u)\<rparr>)"
      by (rule relay_ok_failed [OF u])
    with False show ?thesis by (simp add: relay_same_def)
  qed
  have "?w2 = ?f ?u \<or> ?w2 = ?u" using relay_call_result [of ?f w1, OF surjective_pairing] by blast
  then have "relay_ok ?w2 \<and> relay_same w1 ?w2" using f u by (auto simp: relay_same_def)
  then show ?thesis using eff relay_same_trans unfolding run by blast
qed

lemma relay_fold_ok:
  "relay_ok w \<Longrightarrow> \<forall>e \<in> set es. event_sig e \<in> event_sig ` set (rl_rows w) \<Longrightarrow>
     relay_ok (fold (relay_event rc dr dr') es w) \<and> relay_same w (fold (relay_event rc dr dr') es w)"
proof (induction es arbitrary: w)
  case (Cons e es)
  let ?w = "relay_event rc dr dr' e w"
  have one: "relay_ok ?w" "relay_same w ?w" using relay_event_ok Cons.prems by simp_all
  then have "event_sig ` set (rl_rows ?w) = event_sig ` set (rl_rows w)" unfolding relay_same_def by (metis list.set_map)
  with Cons.IH [OF one(1)] Cons.prems(2) one(2) show ?case by (auto intro: relay_same_trans)
qed (simp add: relay_same_def)

lemma relay_batch_ok:
  assumes "relay_ok w"
  shows "relay_ok (snd (relay_batch rc dr dr' w)) \<and> relay_same w (snd (relay_batch rc dr dr' w))"
proof -
  obtain ok w1 where c: "relay_call (\<lambda>v. v) w = (ok, w1)" by (metis prod.collapse)
  then have w1: "w1 = w\<lparr>rl_step := Suc (rl_step w)\<rparr>" using relay_call_result by blast
  then have ok1: "relay_ok w1" "relay_same w w1" by (auto intro: relay_ok_grows [OF assms] simp: relay_same_def)
  have "\<forall>e \<in> set (get_pending_events (rc_batch rc) (rc_max_retries rc) (rl_rows w)). event_sig e \<in> event_sig ` set (rl_rows w1)"
    using w1 by (auto dest: get_pending_eventsD)
  from relay_fold_ok [OF ok1(1) this] ok1 relay_same_trans show ?thesis
    using c by (cases ok) (auto simp: relay_batch_def)
qed

lemma relay_process_ok:
  assumes "relay_ok w"
  shows "relay_ok (snd (relay_process rc uuid dr dr' w)) \<and> relay_same w (snd (relay_process rc uuid dr dr' w))"
proof (cases "rc_lock_enabled rc")
  case True
  obtain res rw l where t: "try_lock (rl_redis w, new_redis_lock uuid (rc_lock_key rc) (rc_lock_ttl rc)) = (res, (rw, l))"
    by (metis prod.collapse)
  have lock: "relay_ok (v\<lparr>rl_redis := q\<rparr>) \<and> relay_same u (v\<lparr>rl_redis := q\<rparr>)" if "relay_ok v" "relay_same u v" for u v q
    using that by (auto intro: relay_ok_grows [OF that(1)] simp: relay_same_def)
  have start: "relay_ok (w\<lparr>rl_redis := rw\<rparr>)" "relay_same w (w\<lparr>rl_redis := rw\<rparr>)"
    using lock [OF assms, of w rw] by (simp_all add: relay_same_def)
  obtain r w1 where b: "relay_batch rc dr dr' (w\<lparr>rl_redis := rw\<rparr>) = (r, w1)" by (metis prod.collapse)
  have "relay_ok w1" "relay_same w w1"
    using relay_batch_ok [OF start(1), of rc dr dr'] relay_same_trans [OF start(2), of w1] b by simp_all
  from lock [OF this, of "fst (snd (unlock_with_context (rl_redis w1, l)))"] start t b True show ?thesis
    by (cases res) (simp_all add: relay_process_def)
qed (use relay_batch_ok [OF assms] in \<open>simp add: relay_process_def\<close>)

lemma relay_step_ok: "relay_step rc w w' \<Longrightarrow> relay_ok w \<Longrightarrow> relay_ok w'"
proof (induction rule: relay_step.induct)
  case (relay_new_event e w)
  then show ?case by (auto simp: relay_ok_def outbox_create_def)
next
  case (relay_clean_published w t)
  then show ?case by (auto simp: relay_ok_def delete_published_before_def distinct_map inj_on_def)
next
  case (relay_clean_failed w t)
  then show ?case by (auto simp: relay_ok_def delete_failed_before_def distinct_map inj_on_def)
next
  case (relay_environment w' w)
  then show ?case by (simp add: relay_ok_def)
qed (use relay_process_ok in blast)

lemma relay_steps_ok: "(relay_step rc)\<^sup>*\<^sup>* w w' \<Longrightarrow> relay_ok w \<Longrightarrow> relay_ok w'"
  by (induction rule: rtranclp_induct) (auto intro: relay_step_ok)


subsection \<open>A run whose calls are answered\<close>

definition all_answered :: "relay_world \<Rightarrow> bool" where
  "all_answered w \<longleftrightarrow> (\<forall>n. rl_fate w n = Answered)"

lemma relay_event_answered:
  assumes "all_answered w" "ob_event_id e \<noteq> []"
  shows "\<exists>v. carries v e \<and> relay_event rc dr dr' e w =
    w\<lparr>rl_step := Suc (Suc (rl_step w)), rl_streams := (rl_streams w)(ob_type e := rl_streams w (ob_type e) @ [v]),
      rl_rows := mark_as_published (rl_now w) (ob_event_id e) (rl_rows w)\<rparr>"
proof -
  obtain cx m where m: "build_message dr dr' (rl_now w) e = (cx, m)" by (metis prod.collapse)
  note mf = build_message_fields [OF m]
  let ?v = "publish_values (rc_fmt rc) (m\<lparr>mg_meta := enrich_metadata dr dr' cx (mg_meta m)\<rparr>)"
  have "carries ?v e" using mf assms(2) by (intro publish_values_carries) simp_all
  moreover have "relay_event rc dr dr' e w =
    w\<lparr>rl_step := Suc (Suc (rl_step w)), rl_streams := (rl_streams w)(ob_type e := rl_streams w (ob_type e) @ [?v]),
      rl_rows := mark_as_published (rl_now w) (ob_event_id e) (rl_rows w)\<rparr>"
    using assms(1) mf m by (simp add: relay_event_def publish_message_def relay_call_def all_answered_def Let_def)
  ultimately show ?thesis by blast
qed

lemma relay_fold_answered:
  assumes "all_answered w" "\<forall>e \<in> set es. ob_event_id e \<noteq> []"
  shows "rl_rows (fold (relay_event rc dr dr') es w) = fold (\<lambda>e. mark_as_published (rl_now w) (ob_event_id e)) es (rl_rows w) \<and>
    (\<exists>vs. rl_streams (fold (relay_event rc dr dr') es w) t = rl_streams w t @ vs \<and> list_all2 carries vs (filter (\<lambda>e. ob_type e = t) es))"
  using assms
proof (induction es arbitrary: w)
  case (Cons e es)
  obtain v where v: "carries v e" "relay_event rc dr dr' e w =
      w\<lparr>rl_step := Suc (Suc (rl_step w)), rl_streams := (rl_streams w)(ob_type e := rl_streams w (ob_type e) @ [v]),
        rl_rows := mark_as_published (rl_now w) (ob_event_id e) (rl_rows w)\<rparr>"
    using relay_event_answered [of w e rc dr dr'] Cons.prems by auto
  let ?w = "relay_event rc dr dr' e w"
  have "all_answered ?w" using Cons.prems(1) v(2) by (simp add: all_answered_def)
  from Cons.IH [OF this] Cons.prems(2) obtain vs where
    vs: "rl_rows (fold (relay_event rc dr dr') es ?w) = fold (\<lambda>e. mark_as_published (rl_now ?w) (ob_event_id e)) es (rl_rows ?w)"
    "rl_streams (fold (relay_event rc dr dr') es ?w) t = rl_streams ?w t @ vs" "list_all2 carries vs (filter (\<lambda>e. ob_type e = t) es)"
    by auto
  show ?case
  proof (intro conjI)
    show "rl_rows (fold (relay_event rc dr dr') (e # es) w) = fold (\<lambda>e. mark_as_published (rl_now w) (ob_event_id e)) (e # es) (rl_rows w)"
      using vs(1) v(2) by simp
    show "\<exists>vs. rl_streams (fold (relay_event rc dr dr') (e # es) w) t = rl_streams w t @ vs \<and>
        list_all2 carries vs (filter (\<lambda>e. ob_type e = t) (e # es))"
      using vs(2,3) v by (intro exI [of _ "(if ob_type e = t then [v] else []) @ vs"]) auto
  qed
qed simp

lemma fold_mark_as_published:
  "fold (\<lambda>e. mark_as_published now (ob_event_id e)) es rows =
     map (\<lambda>x. if ob_event_id x \<in> ob_event_id ` set es
        then x\<lparr>ob_status := OPublished, ob_published_at := Some now, ob_updated_at := now\<rparr> else x) rows"
proof (induction es arbitrary: rows)
  case (Cons e es)
  show ?case by (simp add: Cons.IH) (simp add: mark_as_published_def)
qed (simp add: mark_as_published_def map_idI)

subsection \<open>Giving up\<close>

text \<open>One row and repeated failures.\<close>

lemma mark_as_failed_row:
  assumes "distinct (map ob_event_id rows)" "e \<in> set rows" "ob_status e = OPending" "ob_retry e = 0" "0 < max_retries"
  shows "\<exists>x \<in> set ((mark_as_failed ltr now (ob_event_id e) msg max_retries ^^ n) rows). ob_event_id x = ob_event_id e \<and> ob_retry x = n \<and>
    ob_created_at x = ob_created_at e \<and>
    (ob_status x = OPending \<longleftrightarrow> n = 0 \<or> retry_seen ltr (n - 1) + 1 < max_retries) \<and> ob_status x \<noteq> OPublished"
proof (induction n)
  case 0
  with assms show ?case by auto
next
  case (Suc n)
  then obtain x where x: "x \<in> set ((mark_as_failed ltr now (ob_event_id e) msg max_retries ^^ n) rows)"
    "ob_event_id x = ob_event_id e" "ob_retry x = n" "ob_created_at x = ob_created_at e" by blast
  let ?y = "x\<lparr>ob_status := (if max_retries \<le> retry_seen ltr (ob_retry x) + 1 then OFailed else OPending),
                 ob_error := msg, ob_retry := ob_retry x + 1, ob_updated_at := now\<rparr>"
  have "?y \<in> set ((mark_as_failed ltr now (ob_event_id e) msg max_retries ^^ Suc n) rows)"
    using x(1,2) unfolding mark_as_failed_def by (auto intro: rev_image_eqI)
  then show ?case using x(2-4) by (intro bexI [of _ ?y]) auto
qed


lemma relay_process_answered:
  assumes "all_answered w" "\<forall>e \<in> set (rl_rows w). ob_event_id e \<noteq> []"
    and "rc_lock_enabled rc \<Longrightarrow> answered (rl_redis w) \<and> redis_get (rl_redis w) (''lock:'' @ rc_lock_key rc) = None"
  shows "\<exists>u w'. relay_process rc uuid dr dr' w = (Inr (), w') \<and> all_answered u \<and> rl_rows u = rl_rows w \<and> rl_streams u = rl_streams w \<and> rl_now u = rl_now w \<and>
    rl_rows w' = rl_rows (fold (relay_event rc dr dr') (get_pending_events (rc_batch rc) (rc_max_retries rc) (rl_rows w)) u) \<and>
    rl_streams w' = rl_streams (fold (relay_event rc dr dr') (get_pending_events (rc_batch rc) (rc_max_retries rc) (rl_rows w)) u)"
proof -
  have batch: "relay_batch rc dr dr' v = (Inr (), fold (relay_event rc dr dr') (get_pending_events (rc_batch rc) (rc_max_retries rc) (rl_rows v)) (v\<lparr>rl_step := Suc (rl_step v)\<rparr>))"
    if "all_answered v" for v using that by (simp add: relay_batch_def relay_call_def all_answered_def Let_def)
  show ?thesis
  proof (cases "rc_lock_enabled rc")
    case False
    let ?u = "w\<lparr>rl_step := Suc (rl_step w)\<rparr>"
    have run: "relay_process rc uuid dr dr' w = (Inr (), fold (relay_event rc dr dr') (get_pending_events (rc_batch rc) (rc_max_retries rc) (rl_rows w)) ?u)"
      using batch [OF assms(1)] False by (simp add: relay_process_def)
    have aa: "all_answered ?u" using assms(1) by (simp add: all_answered_def)
    show ?thesis by (rule exI [of _ ?u], rule exI, rule conjI [OF run]) (simp add: aa)
  next
    case True
    let ?l = "new_redis_lock uuid (rc_lock_key rc) (rc_lock_ttl rc)"
    have "lk_key ?l = ''lock:'' @ rc_lock_key rc" by (simp add: new_redis_lock_def)
    then obtain rw l where t: "try_lock (rl_redis w, ?l) = (Inr (), (rw, l))"
      using assms(3) [OF True] by (auto simp: try_lock_def svc_bind_def redis_call_def redis_set_nx_def answered_def on_lock_def Let_def)
    let ?v = "w\<lparr>rl_redis := rw\<rparr>"
    have "all_answered ?v" using assms(1) by (simp add: all_answered_def)
    note b = batch [OF this]
    let ?u = "?v\<lparr>rl_step := Suc (rl_step ?v)\<rparr>"
    let ?w = "fold (relay_event rc dr dr') (get_pending_events (rc_batch rc) (rc_max_retries rc) (rl_rows w)) ?u"
    have run: "relay_process rc uuid dr dr' w = (Inr (), ?w\<lparr>rl_redis := fst (snd (unlock_with_context (rl_redis ?w, l)))\<rparr>)"
      using b t True by (simp add: relay_process_def)
    have aa: "all_answered ?u" using assms(1) by (simp add: all_answered_def)
    show ?thesis by (rule exI [of _ ?u], rule exI, rule conjI [OF run]) (simp, use aa in \<open>simp add: all_answered_def\<close>)
  qed
qed

end
