(* ===== verification/Infra_Properties.thy ===== *)
theory Infra_Properties
  imports Redis_Lock Sse_Replay Outbox_Relay
begin

text \<open>
  The properties of the infrastructure the OJ tasks run on, stated over the definitions of the
  component theories; each stands with the witness that applies it.
\<close>

subsection \<open>The distributed lock\<close>

definition demo_redis :: redis_world where
  "demo_redis = \<lparr>rw_store = (\<lambda>_. None), rw_now = 0, rw_step = 0, rw_fate = (\<lambda>_. Answered)\<rparr>"

definition demo_lock :: "string \<Rightarrow> redis_lock" where
  "demo_lock uuid = new_redis_lock uuid ''relay'' 15000000000"

lemmas lock_exec = demo_redis_def demo_lock_def new_redis_lock_def clamp_expiration_def min_expiration_def
  redis_call_def redis_set_nx_def redis_get_def redis_sleep_def wire_ttl_def on_lock_def svc_defs

text \<open>
  C30. Once a lock object holds a key, then whatever other processes do with other values, however calls
  fail, and for as long as the lease runs, no attempt to take the same key succeeds and the key stays held.
\<close>

theorem lock_mutual_exclusion:
  assumes "try_lock (w, l) = (Inr u, (w1, l1))" "(others_step (lk_value l))\<^sup>*\<^sup>* w1 w2"
    and "rw_now w2 < rw_now w + wire_ttl (lk_expiration l)"
    and "lk_key m = lk_key l" "try_lock (w2, m) = (r, (w3, m1))"
  shows "r \<in> {Inl ErrLockFailed, Inl ErrRedis} \<and> redis_get w3 (lk_key l) = Some (lk_value l)"
proof -
  let ?x = "rw_now w + wire_ttl (lk_expiration l)"
  have "rw_store w1 (lk_key l) = Some (lk_value l, ?x)" using try_lock_Inr [OF assms(1)] by simp
  from others_steps_lease [OF assms(2) this assms(3)] have held: "redis_get w2 (lk_key m) = Some (lk_value l)"
    using assms(3,4) by (simp add: redis_get_def)
  have "r \<noteq> Inr v" for v using try_lock_Inr [of w2 m v w3 m1] held assms(5) by auto
  moreover have "rw_store w3 = rw_store w2 \<and> rw_now w3 = rw_now w2" if "r = Inl e" for e
    using assms(5) that held
    by (auto simp: try_lock_def svc_bind_Inl_iff redis_call_def redis_set_nx_def on_lock_def Let_def
        split: call_fate.splits prod.splits if_splits)
  moreover have "r = Inl e \<Longrightarrow> e = ErrLockFailed \<or> e = ErrRedis" for e
    using try_lock_Inl [of w2 m e w3 m1] assms(5) by auto
  ultimately show ?thesis using held assms(4) by (cases r) (auto simp: redis_get_def split: option.splits)
qed

lemma demo_try_lock:
  "try_lock (demo_redis, demo_lock ''a'') =
     (Inr (), (demo_redis\<lparr>rw_step := 1, rw_store := [''lock:relay'' \<mapsto> (''a'', 15000000000)]\<rparr>,
       (demo_lock ''a'')\<lparr>lk_renew_started := True, lk_renewing := True\<rparr>))"
  by (simp add: try_lock_def start_auto_renew_def lock_exec)

definition demo_held :: redis_world where
  "demo_held = demo_redis\<lparr>rw_step := 1, rw_store := [''lock:relay'' \<mapsto> (''a'', 15000000000)]\<rparr>"

definition demo_holder :: redis_lock where
  "demo_holder = (demo_lock ''a'')\<lparr>lk_renew_started := True, lk_renewing := True\<rparr>"

theorem lock_mutual_exclusion_witness:
  "fst (try_lock (redis_sleep 1000 demo_held, demo_lock ''b'')) \<in> {Inl ErrLockFailed, Inl ErrRedis}"
proof -
  have "(others_step (lk_value (demo_lock ''a'')))\<^sup>*\<^sup>* demo_held (redis_sleep 1000 demo_held)"
    by (intro r_into_rtranclp time_passes)
  moreover obtain r w3 m1 where r: "try_lock (redis_sleep 1000 demo_held, demo_lock ''b'') = (r, (w3, m1))"
    by (metis prod.collapse)
  ultimately have "r \<in> {Inl ErrLockFailed, Inl ErrRedis} \<and> redis_get w3 (lk_key (demo_lock ''a'')) = Some (lk_value (demo_lock ''a''))"
    by (intro lock_mutual_exclusion [OF demo_try_lock [folded demo_held_def]])
      (simp_all add: demo_held_def lock_exec)
  with r show ?thesis by simp
qed

text \<open>
  C31. A lock that is acquired fresh and whose renewals are answered is never lost, whatever others do
  between the ticks; releasing it then succeeds and frees the key.
\<close>

theorem renewed_lock_is_kept:
  assumes "try_lock (w, l) = (Inr u, (w1, l1))" "\<not> lk_renew_started l" "min_expiration \<le> lk_expiration l"
    and "renewed_run l1 w1 w2" "answered w2"
  shows "redis_get w2 (lk_key l) = Some (lk_value l) \<and>
    (\<exists>w3. unlock_with_context (w2, l1) = (Inr (), (w3, stop_auto_renew l1)) \<and> redis_get w3 (lk_key l) = None)"
proof -
  from try_lock_Inr [OF assms(1)] assms(2)
  have got: "lk_key l1 = lk_key l" "lk_value l1 = lk_value l" "lk_expiration l1 = lk_expiration l" "lk_renewing l1" "renew_interval l1 = renew_interval l"
      "rw_store w1 (lk_key l) = Some (lk_value l, rw_now w + wire_ttl (lk_expiration l))" "rw_now w1 = rw_now w"
    by (simp_all add: start_auto_renew_def renew_interval_def)
  have "leased l1 w1" using got renew_interval_less [OF assms(3)] by (simp add: leased_def)
  then have "leased l1 w2" using renewed_run_leased [OF assms(4)] got assms(3) by simp
  then have "redis_get w2 (lk_key l1) = Some (lk_value l1)" using leased_get [of l1 w2] assms(3) got by simp
  with unlock_own [OF assms(5) this] got show ?thesis by auto
qed

theorem renewed_lock_is_kept_witness:
  "\<exists>w2. renewed_run demo_holder demo_held w2 \<and> redis_get w2 ''lock:relay'' = Some ''a''"
proof -
  let ?v = "redis_sleep 9000000000 demo_held"
  obtain w2 where w2: "auto_renew_tick (?v, demo_holder) = (w2, demo_holder) \<and> leased demo_holder w2"
    using tick_renews [of ?v demo_holder] by (auto simp: demo_held_def demo_holder_def answered_def lock_exec)
  have "(others_step (lk_value demo_holder))\<^sup>*\<^sup>* demo_held ?v" by (intro r_into_rtranclp time_passes)
  then have run: "renewed_run demo_holder demo_held w2"
    by (rule run_tick [OF run_start _ _ _ conjunct1 [OF w2]])
      (simp_all add: demo_held_def demo_holder_def answered_def renew_interval_def lock_exec)
  have "answered w2" using w2
    by (simp add: auto_renew_tick_def renew_def demo_held_def demo_holder_def answered_def redis_expire_if_def lock_exec)
      auto
  from renewed_lock_is_kept [OF demo_try_lock [folded demo_held_def demo_holder_def] _ _ run this]
  have "redis_get w2 (lk_key (demo_lock ''a'')) = Some (lk_value (demo_lock ''a''))"
    by (simp add: demo_lock_def new_redis_lock_def clamp_expiration_def min_expiration_def)
  with run show ?thesis by (auto simp: demo_lock_def new_redis_lock_def)
qed


text \<open>
  When a renewal fails, the goroutine ends but the object still counts as renewing: if the same
  object later takes the key again, no renewal runs and the lease simply expires.
\<close>

theorem failed_renewal_is_final:
  assumes "lk_renewing l" "lk_renew_started l" "renew (w, l) = (Inl e, s)" "auto_renew_tick (w, l) = (w1, l1)"
    and "try_lock (w2, l1) = (Inr u, (w3, l2))" "wire_ttl (lk_expiration l) \<le> d" "0 \<le> d"
  shows "auto_renew_tick (redis_sleep d w3, l2) = (redis_sleep d w3, l2) \<and> redis_get (redis_sleep d w3) (lk_key l) = None"
proof -
  have s: "snd s = l" using assms(3)
    by (auto simp: renew_def svc_bind_Inl_iff redis_call_def Let_def split: call_fate.splits prod.splits if_splits)
  then have l1: "l1 = l\<lparr>lk_renewing := False\<rparr>" using assms(1,3,4) by (cases s) (simp add: auto_renew_tick_def)
  from try_lock_Inr [OF assms(5)] have got: "l2 = start_auto_renew l1"
    "rw_store w3 (lk_key l1) = Some (lk_value l1, rw_now w2 + wire_ttl (lk_expiration l1))" "rw_now w3 = rw_now w2" by simp_all
  moreover have "start_auto_renew l1 = l1" using l1 assms(2) by (simp add: start_auto_renew_def)
  ultimately show ?thesis using l1 assms(6,7) by (simp add: auto_renew_tick_def redis_get_def redis_sleep_def)
qed

definition demo_faulty :: redis_world where
  "demo_faulty = demo_held\<lparr>rw_fate := (\<lambda>n. if n = 1 then Refused else Answered), rw_now := 20000000000\<rparr>"

theorem failed_renewal_is_final_witness:
  "\<exists>w3 l2. try_lock (auto_renew_tick (demo_faulty, demo_holder)) = (Inr (), (w3, l2)) \<and>
     redis_get (redis_sleep 15000000000 w3) ''lock:relay'' = None"
proof -
  let ?w1 = "demo_faulty\<lparr>rw_step := 2\<rparr>" and ?l1 = "demo_holder\<lparr>lk_renewing := False\<rparr>"
  have renew: "renew (demo_faulty, demo_holder) = (Inl ErrRedis, (?w1, demo_holder))"
    by (simp add: renew_def demo_faulty_def demo_held_def demo_holder_def lock_exec)
  then have tick: "auto_renew_tick (demo_faulty, demo_holder) = (?w1, ?l1)"
    by (simp add: auto_renew_tick_def demo_holder_def)
  obtain w3 l2 where take: "try_lock (?w1, ?l1) = (Inr (), (w3, l2))"
    by (simp add: try_lock_def demo_faulty_def demo_held_def demo_holder_def lock_exec)
  have "redis_get (redis_sleep 15000000000 w3) (lk_key demo_holder) = None"
    by (rule conjunct2 [OF failed_renewal_is_final [OF _ _ renew tick take]]) (simp_all add: demo_holder_def lock_exec)
  with tick take show ?thesis by (auto simp: demo_holder_def lock_exec)
qed


subsection \<open>Event streams\<close>

definition demo_event :: "string \<Rightarrow> stream_event" where
  "demo_event d = \<lparr>se_id = '''', se_kind = StreamKindChannel, se_channel = ''ai'', se_tenant = 0, se_subject = 7, se_name = ''delta'',
     se_data = d, se_occurred = 0, se_retry = 0, se_durable = True, se_request_id = '''', se_trace_id = '''', se_meta = []\<rparr>"

definition demo_policy :: connection_policy where
  "demo_policy = \<lparr>cp_heartbeat = 0, cp_write_timeout = 0, cp_queue = 1, cp_max_conns = 0, cp_replay = 0, cp_idle_kick = ''''\<rparr>"

lemma demo_sendable [simp]: "sendable (demo_event d)"
  by (simp add: sendable_def demo_event_def LF_def CR_def)

text \<open>
  C33. What a standard event-stream client reads from the frames the writer sends, heartbeats
  included, is exactly the events in order: identifier, type and every line of the data.
\<close>

theorem sse_stream_round_trip:
  "list_all frame_sendable fs \<Longrightarrow> messages_of (concat (map frame_bytes fs)) = messages_sent '''' (frame_events fs)"
  by (rule messages_of_frames)

theorem sse_stream_round_trip_witness:
  "messages_of (encode_event (demo_event ''a'') @ heartbeat_frame @ encode_event (demo_event ''b'')) =
     [('''', ''delta'', ''a''), ('''', ''delta'', ''b'')]"
  using sse_stream_round_trip [of "[EventFrame (demo_event ''a''), HeartbeatFrame, EventFrame (demo_event ''b'')]"]
  by (simp add: demo_event_def sendable_def LF_def CR_def)

text \<open>
  C34. A client that is served, with whatever was replayed to it, and then lives through any sequence of
  publications, closings, loop turns and failing writes, has received a beginning of the replayed events
  followed by the accepted ones, in order; nothing is missing while the loop runs and the queue is empty.
\<close>

theorem served_client_reads_in_order:
  assumes "serve auth replay policy fates q r uuid b = (Inr (), sent, bytes, b')"
    and "conn_run ops (bk_heap b' r) = (accepted, c)" "list_all sendable (sent @ accepted)"
  shows "\<exists>rest. messages_sent '''' (sent @ accepted) = messages_of (cn_out c) @ rest \<and>
    (cn_running c \<and> cn_queue c = [] \<longrightarrow> rest = [])"
proof -
  have "written sent (bk_heap b' r)" using serve_registers [OF assms(1)] by simp
  from conn_run_written [OF this assms(2)] assms(3) show ?thesis by (rule written_messages)
qed

definition demo_request :: connect_request where
  "demo_request = \<lparr>cr_conn_id = ''c1'', cr_channel = ''ai'', cr_subject = 7, cr_tenant = 0, cr_last_event_id = '''',
     cr_origin = '''', cr_query_token = ''''\<rparr>"

definition demo_conn :: connection where
  "demo_conn = new_connection ''c1'' 7 ''ai'' True demo_policy"

definition demo_broker :: broker where
  "demo_broker = new_broker demo_policy (\<lambda>_. demo_conn)"

lemmas sse_exec = demo_request_def demo_conn_def demo_broker_def demo_policy_def new_connection_def new_broker_def normalize_policy_def

lemma demo_serve:
  "serve None (\<lambda>_. None) demo_policy [] demo_request 1 ''u'' demo_broker =
     (Inr (), [], [], snd (broker_register (Some 1) demo_broker))"
  by (simp add: serve_def allow_all_authorizer_def allow_all_connect_def broker_register_def bucket_def trim_space_def is_space_def Let_def sse_exec)

theorem served_client_reads_in_order_witness:
  "\<exists>c. conn_run [OpEnqueue (demo_event ''a''), OpLoop TakeEvent WriteOk] (bk_heap (snd (broker_register (Some 1) demo_broker)) 1) =
     ([demo_event ''a''], c) \<and> messages_of (cn_out c) = messages_sent '''' [demo_event ''a'']"
proof -
  obtain c where run: "conn_run [OpEnqueue (demo_event ''a''), OpLoop TakeEvent WriteOk]
      (bk_heap (snd (broker_register (Some 1) demo_broker)) 1) = ([demo_event ''a''], c)" "cn_running c" "cn_queue c = []"
    by (simp add: broker_register_def bucket_def conn_enqueue_def conn_loop_def conn_write_def Let_def sse_exec)
  from served_client_reads_in_order [OF demo_serve run(1)] run show ?thesis by auto
qed

text \<open>
  C35. After events are appended to a channel, a client that names one of them as the last it saw gets
  exactly the later ones, in order, up to the limit (100 where none is set).
\<close>

theorem replay_returns_what_followed:
  assumes "append_all enc prefix es w = (fs, w')" "stream_sorted (ss_streams w (stream_key prefix channel))" "channel \<noteq> ''''"
    and "\<forall>e \<in> set es. se_durable e \<and> se_id e = '''' \<and> se_channel e = channel"
    and "\<forall>e \<in> set es. dec (enc (persist e)) = Some (persist e) \<and> trim_space (enc (persist e)) \<noteq> ''''"
    and "k < length fs"
  shows "replay_after dec prefix channel (se_id (fs ! k)) lim w' = Inr (take (if lim \<le> 0 then 100 else nat lim) (drop (Suc k) fs))"
  by (rule replay_after_appended [OF assms])

definition demo_store :: stream_store where
  "demo_store = \<lparr>ss_streams = (\<lambda>_. []), ss_clock = 5\<rparr>"

definition demo_decode :: "string \<Rightarrow> persisted_event option" where
  "demo_decode raw = (if raw = [] then None else Some (persist (demo_event (tl raw))))"

theorem replay_returns_what_followed_witness:
  "replay_after demo_decode '''' ''ai'' ''5-0'' 1
     (snd (append_all (\<lambda>p. CHR ''x'' # pe_data p) '''' [demo_event ''a'', demo_event ''b'', demo_event ''c''] demo_store)) =
     Inr [(demo_event ''b'')\<lparr>se_id := ''5-1''\<rparr>]"
proof -
  let ?es = "[demo_event ''a'', demo_event ''b'', demo_event ''c'']"
  have ids: "show_id (5, 0) = ''5-0''" "show_id (5, Suc 0) = ''5-1''"
    by (simp_all add: show_id_def show_nat.simps [of 5] show_nat.simps [of 0] show_nat.simps [of "Suc 0"] digit_char_def char_of_eq_iff)
  obtain w' fs where app: "append_all (\<lambda>p. CHR ''x'' # pe_data p) '''' ?es demo_store = (fs, w')"
    "fs = [(demo_event ''a'')\<lparr>se_id := ''5-0''\<rparr>, (demo_event ''b'')\<lparr>se_id := ''5-1''\<rparr>, (demo_event ''c'')\<lparr>se_id := show_id (5, 2)\<rparr>]"
    by (simp add: replay_append_def xadd_def next_stream_id_def demo_store_def demo_event_def ids Let_def numeral_2_eq_2)
  have "replay_after demo_decode '''' ''ai'' (se_id (fs ! 0)) 1 w' = Inr (take (if (1::int) \<le> 0 then 100 else nat 1) (drop (Suc 0) fs))"
    by (rule replay_returns_what_followed [OF app(1)])
      (simp_all add: app(2) demo_store_def stream_sorted_def demo_decode_def demo_event_def persist_def trim_space_def is_space_def dropWhile_append)
  with app show ?thesis by simp
qed


definition demo_registered :: broker where
  "demo_registered = snd (broker_register (Some 1) demo_broker)"

lemma demo_registered_steps: "broker_step\<^sup>*\<^sup>* (new_broker demo_policy (\<lambda>_. demo_conn)) demo_registered"
  unfolding demo_registered_def demo_broker_def [symmetric]
  by (intro r_into_rtranclp step_register) (simp_all add: sse_exec)


text \<open>No subject ever has more registered connections than the policy allows.\<close>

theorem subject_connection_limit:
  assumes "broker_step\<^sup>*\<^sup>* (new_broker policy heap) b"
  shows "int (length (bucket (bk_by_subject b) s)) \<le> cp_max_conns (bk_policy b)"
  using within_limit_steps [OF assms within_limit_new] by (simp add: within_limit_def)

theorem subject_connection_limit_witness:
  "int (length (bucket (bk_by_subject demo_registered) 7)) \<le> 3"
  using subject_connection_limit [OF demo_registered_steps, of 7]
  by (simp add: demo_registered_def broker_register_def bucket_def Let_def sse_exec)

text \<open>
  Publishing to a channel, in whatever order the map yields its connections: every open connection with
  room in its queue gets the event, every other one is counted, closed and no longer registered, and nothing else changes.
\<close>

theorem publish_to_channel_effect:
  assumes "broker_step\<^sup>*\<^sup>* (new_broker policy heap) b" "\<And>xs. mset (ord xs) = mset xs"
    and "publish_to_channel ord ch (Some e) b = (n, b')" "rs = map snd (bucket (bk_by_channel b) ch)"
  shows "n = length (filter (\<lambda>r. ready (bk_heap b r)) rs) \<and>
    bk_dropped b' = bk_dropped b + length (filter (\<lambda>r. \<not> ready (bk_heap b r)) rs) \<and>
    (\<forall>r. bk_heap b' r = (if r \<notin> set rs then bk_heap b r
       else if ready (bk_heap b r) then (bk_heap b r)\<lparr>cn_queue := cn_queue (bk_heap b r) @ [e]\<rparr>
       else conn_mark_closed ''unregister'' (bk_heap b r))) \<and>
    (\<forall>i r. map_of (bk_conns b') i = Some r \<longleftrightarrow> map_of (bk_conns b) i = Some r \<and> \<not> (r \<in> set rs \<and> \<not> ready (bk_heap b r)))"
proof -
  have ok: "broker_ok b" using broker_ok_steps [OF assms(1) broker_ok_new] .
  have ix: "index_ok (\<lambda>r. channel_key (bk_heap b r)) (bk_conns b) (bk_by_channel b)" using ok by (simp add: broker_ok_def)
  have m: "mset (ord rs) = mset rs" by (rule assms(2))
  have same: "set (ord rs) = set rs" "length (filter P (ord rs)) = length (filter P rs)" for P
    using m by (auto dest: mset_eq_setD) (metis mset_filter size_mset)
  have "broker_publish (ord rs) (Some e) b = (n, b')" using assms(3,4) by (simp add: publish_to_channel_def)
  from publish_effect [OF ok ix m [unfolded assms(4)] this [unfolded assms(4)]] show ?thesis
    unfolding assms(4) [symmetric] same .
qed

theorem publish_to_channel_effect_witness:
  "fst (publish_to_channel rev ''ai'' (Some (demo_event ''a'')) demo_registered) = 1"
proof -
  obtain n b' where run: "publish_to_channel rev ''ai'' (Some (demo_event ''a'')) demo_registered = (n, b')" by (metis prod.collapse)
  have "n = length (filter (\<lambda>r. ready (bk_heap demo_registered r)) (map snd (bucket (bk_by_channel demo_registered) ''ai'')))"
    by (rule conjunct1 [OF publish_to_channel_effect [OF demo_registered_steps _ run refl]]) simp
  also have "\<dots> = 1"
    by (simp add: demo_registered_def broker_register_def bucket_def ready_def index_add_def channel_key_def Let_def sse_exec)
  finally show ?thesis using run by simp
qed

text \<open>
  Draining closes every registered connection, and afterwards every registration is refused.
\<close>

theorem drain_closes_and_refuses:
  assumes "broker_step\<^sup>*\<^sup>* (new_broker policy heap) b" "\<not> bk_draining b" "\<And>xs. mset (ord xs) = mset xs"
    and "map_of (bk_conns b) i = Some r"
  shows "cn_closed (bk_heap (begin_drain ord b) r) \<and> (\<not> cn_closed (bk_heap b r) \<longrightarrow> map_of (bk_conns (begin_drain ord b)) i \<noteq> Some r) \<and>
    broker_register (Some r') (begin_drain ord b) = (Inl ErrBrokerDraining, begin_drain ord b)"
proof -
  have "broker_ok b" using broker_ok_steps [OF assms(1) broker_ok_new] .
  from begin_drain_effect [OF this assms(2,3)] assms(4) show ?thesis by (auto simp: broker_register_def Let_def)
qed

theorem drain_closes_and_refuses_witness:
  "cn_closed (bk_heap (begin_drain rev demo_registered) 1) \<and>
     broker_register (Some 2) (begin_drain rev demo_registered) = (Inl ErrBrokerDraining, begin_drain rev demo_registered)"
proof -
  have "\<not> bk_draining demo_registered" "map_of (bk_conns demo_registered) ''c1'' = Some 1"
    by (simp_all add: demo_registered_def broker_register_def bucket_def Let_def sse_exec)
  from drain_closes_and_refuses [OF demo_registered_steps this(1) _ this(2), of rev 2] show ?thesis by simp
qed

subsection \<open>The outbox relay\<close>

definition demo_row :: outbox_event where
  "demo_row = \<lparr>ob_event_id = ''e1'', ob_type = ''t'', ob_agg_id = ''7'', ob_agg_type = ''oj_task'', ob_payload = ''p'', ob_trace_id = '''',
     ob_request_id = '''', ob_traceparent = '''', ob_tracestate = '''', ob_status = OPending, ob_retry = 0, ob_error = '''',
     ob_published_at = None, ob_created_at = 1, ob_updated_at = 1\<rparr>"

definition demo_relay :: relay_world where
  "demo_relay = \<lparr>rl_rows = [], rl_streams = (\<lambda>_. []), rl_redis = demo_redis, rl_now = 9, rl_step = 0, rl_fate = (\<lambda>_. Answered)\<rparr>"

definition demo_config :: relay_config where
  "demo_config = new_relay_processor None True (\<lambda>_. ''now'') ''broken''"

definition demo_draws :: id_draws where
  "demo_draws = \<lparr>dr_uuid = ''u'', dr_trace = ''t'', dr_trace_tc = ''t'', dr_span = ''s''\<rparr>"

text \<open>
  C37. However the relay runs, whatever calls fail and whatever transactions and cleaners do in between, an
  event recorded as published is in the stream of its topic, under its identifier and with its payload.
\<close>

theorem published_event_has_message:
  assumes "(relay_step rc)\<^sup>*\<^sup>* w0 w" "rl_rows w0 = []" "e \<in> set (rl_rows w)" "ob_status e = OPublished"
  shows "\<exists>v \<in> set (rl_streams w (ob_type e)). mg_id (parse_message '''' v) = ob_event_id e \<and> mg_payload (parse_message '''' v) = ob_payload e"
proof -
  have "relay_ok w0" using assms(2) by (simp add: relay_ok_def)
  from relay_steps_ok [OF assms(1) this] assms(3,4) show ?thesis by (auto simp: relay_ok_def carries_def)
qed

text \<open>
  C38. A run that gets the lock and whose calls are answered publishes the oldest pending events that may still
  be tried, up to the batch size, in the order of their creation, one message each, and records exactly them as published.
\<close>

theorem relay_publishes_batch:
  assumes "all_answered w" "\<forall>e \<in> set (rl_rows w). ob_event_id e \<noteq> ''''"
    and "rc_lock_enabled rc \<Longrightarrow> answered (rl_redis w) \<and> redis_get (rl_redis w) (''lock:'' @ rc_lock_key rc) = None"
    and "es = get_pending_events (rc_batch rc) (rc_max_retries rc) (rl_rows w)"
  shows "\<exists>w'. relay_process rc uuid dr dr' w = (Inr (), w') \<and>
    rl_rows w' = map (\<lambda>x. if ob_event_id x \<in> ob_event_id ` set es
      then x\<lparr>ob_status := OPublished, ob_published_at := Some (rl_now w), ob_updated_at := rl_now w\<rparr> else x) (rl_rows w) \<and>
    (\<forall>t. \<exists>vs. rl_streams w' t = rl_streams w t @ vs \<and> list_all2 carries vs (filter (\<lambda>e. ob_type e = t) es))"
proof -
  from relay_process_answered [OF assms(1,2,3), where uuid = uuid and dr = dr and dr' = dr'] obtain u w' where
    u: "relay_process rc uuid dr dr' w = (Inr (), w')" "all_answered u" "rl_rows u = rl_rows w" "rl_streams u = rl_streams w" "rl_now u = rl_now w"
    "rl_rows w' = rl_rows (fold (relay_event rc dr dr') es u)" "rl_streams w' = rl_streams (fold (relay_event rc dr dr') es u)"
    unfolding assms(4) by blast
  have "\<forall>e \<in> set es. ob_event_id e \<noteq> []" using assms(2,4) by (auto dest: get_pending_eventsD)
  from relay_fold_answered [OF u(2) this, of rc dr dr'] u show ?thesis by (auto simp: fold_mark_as_published)
qed

lemma demo_answered: "all_answered (demo_relay\<lparr>rl_rows := [demo_row]\<rparr>)"
  "answered (rl_redis (demo_relay\<lparr>rl_rows := [demo_row]\<rparr>)) \<and>
     redis_get (rl_redis (demo_relay\<lparr>rl_rows := [demo_row]\<rparr>)) (''lock:'' @ rc_lock_key demo_config) = None"
  by (simp_all add: all_answered_def demo_relay_def answered_def demo_redis_def redis_get_def)

lemma demo_pending: "get_pending_events (rc_batch demo_config) (rc_max_retries demo_config) (rl_rows (demo_relay\<lparr>rl_rows := [demo_row]\<rparr>)) = [demo_row]"
  by (simp add: get_pending_events_def demo_config_def new_relay_processor_def demo_row_def)

theorem relay_publishes_batch_witness:
  "\<exists>w'. relay_process demo_config ''u'' demo_draws demo_draws (demo_relay\<lparr>rl_rows := [demo_row]\<rparr>) = (Inr (), w') \<and>
     map ob_status (rl_rows w') = [OPublished]"
proof -
  have "\<forall>e \<in> set (rl_rows (demo_relay\<lparr>rl_rows := [demo_row]\<rparr>)). ob_event_id e \<noteq> ''''" by (simp add: demo_row_def)
  from relay_publishes_batch [OF demo_answered(1) this demo_answered(2) refl, of "''u''" demo_draws demo_draws]
  show ?thesis unfolding demo_pending by auto
qed

theorem published_event_has_message_witness:
  "\<exists>w. (relay_step demo_config)\<^sup>*\<^sup>* demo_relay w \<and> (\<exists>v \<in> set (rl_streams w ''t''). mg_id (parse_message '''' v) = ''e1'')"
proof -
  let ?w = "demo_relay\<lparr>rl_rows := [demo_row]\<rparr>"
  have "\<forall>e \<in> set (rl_rows ?w). ob_event_id e \<noteq> []" by (simp add: demo_row_def)
  from relay_process_answered [OF demo_answered(1) this demo_answered(2), where uuid = "''u''" and dr = demo_draws and dr' = demo_draws]
  obtain u w' where run: "relay_process demo_config ''u'' demo_draws demo_draws ?w = (Inr (), w')" "all_answered u" "rl_rows u = rl_rows ?w"
    "rl_rows w' = rl_rows (fold (relay_event demo_config demo_draws demo_draws) [demo_row] u)"
    unfolding demo_pending by blast
  have "relay_step demo_config demo_relay ?w"
    using relay_new_event [of demo_row demo_relay demo_config] by (simp add: demo_relay_def demo_row_def outbox_create_def)
  moreover have "relay_step demo_config ?w w'" using relay_run [of demo_config ?w "''u''" demo_draws demo_draws] run(1) by simp
  ultimately have steps: "(relay_step demo_config)\<^sup>*\<^sup>* demo_relay w'" by (metis converse_rtranclp_into_rtranclp rtranclp.rtrancl_refl)
  have "rl_rows w' = map (\<lambda>x. x\<lparr>ob_status := OPublished, ob_published_at := Some (rl_now u), ob_updated_at := rl_now u\<rparr>) [demo_row]"
    using relay_fold_answered [OF run(2), of "[demo_row]" demo_config demo_draws demo_draws] run(3,4)
    by (simp add: demo_row_def mark_as_published_def)
  then obtain e where e: "e \<in> set (rl_rows w')" "ob_status e = OPublished" "ob_type e = ''t''" "ob_event_id e = ''e1''"
    by (simp add: demo_row_def)
  have "rl_rows demo_relay = []" by (simp add: demo_relay_def)
  from published_event_has_message [OF steps this e(1,2)] e steps show ?thesis by auto
qed

text \<open>
  An event whose publication always fails stays on offer for fewer than the configured number of attempts,
  or one fewer still when the database assigns the columns of an update from left to right.
\<close>

theorem failing_event_is_given_up:
  assumes "distinct (map ob_event_id rows)" "e \<in> set rows" "ob_status e = OPending" "ob_retry e = 0" "0 < max_retries" "0 < n"
  shows "\<exists>x \<in> set ((mark_as_failed ltr now (ob_event_id e) msg max_retries ^^ n) rows).
    ob_event_id x = ob_event_id e \<and> ob_retry x = n \<and>
    ob_status x = (if n + (if ltr then 1 else 0) < max_retries then OPending else OFailed)"
proof -
  obtain x where x: "x \<in> set ((mark_as_failed ltr now (ob_event_id e) msg max_retries ^^ n) rows)" "ob_event_id x = ob_event_id e"
    "ob_retry x = n" "ob_status x = OPending \<longleftrightarrow> n = 0 \<or> retry_seen ltr (n - 1) + 1 < max_retries" "ob_status x \<noteq> OPublished"
    using mark_as_failed_row [OF assms(1-5), where ltr = ltr and now = now and msg = msg and n = n] by blast
  have "retry_seen ltr (n - 1) + 1 = n + (if ltr then 1 else 0)" using assms(6) by (simp add: retry_seen_def)
  with x assms(6) show ?thesis by (intro bexI [OF _ x(1)]) (cases "ob_status x"; simp)
qed

theorem failing_event_is_given_up_witness:
  "(\<exists>x \<in> set ((mark_as_failed True 9 ''e1'' ''broken'' 3 ^^ 2) [demo_row]). ob_status x = OFailed) \<and>
     (\<exists>x \<in> set ((mark_as_failed False 9 ''e1'' ''broken'' 3 ^^ 2) [demo_row]). ob_status x = OPending)"
  using failing_event_is_given_up [where rows = "[demo_row]" and e = demo_row and max_retries = 3 and n = 2 and ltr = True and now = 9 and msg = "''broken''"]
    failing_event_is_given_up [where rows = "[demo_row]" and e = demo_row and max_retries = 3 and n = 2 and ltr = False and now = 9 and msg = "''broken''"]
  by (fastforce simp: demo_row_def)

text \<open>
  A published message is read back with its identifier (the stream's where it has none), key, payload and metadata.
\<close>

theorem message_round_trip:
  assumes "distinct (map fst (mg_meta m))" "\<forall>k \<in> set (map fst (mg_meta m)). k \<noteq> ''''"
  shows "mg_id (parse_message i (publish_values fmt m)) = (if mg_id m = '''' then i else mg_id m) \<and>
    mg_key (parse_message i (publish_values fmt m)) = mg_key m \<and>
    mg_payload (parse_message i (publish_values fmt m)) = mg_payload m \<and>
    map_of (mg_meta (parse_message i (publish_values fmt m))) = map_of (mg_meta m)"
  by (rule parse_publish_values [OF assms])

theorem message_round_trip_witness:
  "map_of (mg_meta (parse_message ''1-0'' (publish_values (\<lambda>_. ''now'')
     \<lparr>mg_id = ''e1'', mg_topic = ''t'', mg_key = '''', mg_payload = ''p'', mg_meta = [(''id'', ''x'')], mg_occurred = 0, mg_published = 0\<rparr>))) ''id'' = Some ''x''"
  using message_round_trip [of "\<lparr>mg_id = ''e1'', mg_topic = ''t'', mg_key = '''', mg_payload = ''p'', mg_meta = [(''id'', ''x'')],
     mg_occurred = 0, mg_published = 0\<rparr>" "''1-0''" "\<lambda>_. ''now''"]
  by simp



text \<open>
  A built traceparent header parses to the trace context it was built from, in normal form.
\<close>

theorem traceparent_round_trip:
  assumes "is_valid_trace_id (tc_trace tc)" "is_valid_span_id (tc_span tc)"
  shows "parse_traceparent (build_traceparent tc) = Some ((norm_tc tc)\<lparr>tc_state := ''''\<rparr>)"
  by (rule build_traceparent_parses [OF assms])

theorem traceparent_round_trip_witness:
  "\<exists>tc. parse_traceparent (build_traceparent \<lparr>tc_trace = ''4bf92f3577b34da6a3ce929d0e0e4736'', tc_span = ''00f067aa0ba902b7'',
     tc_flags = ''01'', tc_state = ''''\<rparr>) = Some tc \<and> tc_flags tc = ''01''"
proof -
  let ?t = "''4bf92f3577b34da6a3ce929d0e0e4736''" and ?s = "''00f067aa0ba902b7''"
  let ?tc = "\<lparr>tc_trace = ?t, tc_span = ?s, tc_flags = ''01'', tc_state = ''''\<rparr>"
  have hex: "is_hex ?t 32" "is_hex ?s 16" "is_hex ''01'' 2" by (simp_all add: is_hex_def)
  then have "is_valid_trace_id (tc_trace ?tc)" "is_valid_span_id (tc_span ?tc)"
    using norm_id_hex [OF hex(1)] norm_id_hex [OF hex(2)]
    by (simp_all only: is_valid_trace_id_def is_valid_span_id_def trace_context.simps) (simp_all add: is_all_zero_def)
  moreover have "normalize_trace_flags (tc_flags ?tc) = ''01''"
    using norm_id_hex [OF hex(3)] hex(3) by (simp only: normalize_trace_flags_def trace_context.simps if_True)
  ultimately show ?thesis using traceparent_round_trip [of ?tc] by (simp add: norm_tc_def)
qed

end
