(* ===== verification/Go_Text.thy ===== *)
theory Go_Text
  imports Main "HOL-Library.Sublist"
begin

text \<open>
  Unicode text for the components that count characters rather than bytes: a Go string that is
  valid UTF-8 is the list of its code points (\<open>[]rune\<close>), a rune a \<open>nat\<close>. The functions are
  those of the packages \<open>strings\<close> and \<open>unicode\<close> that the code calls, with the exact set of
  characters \<open>unicode.IsSpace\<close> accepts. \<open>visible\<close> is what is left of a text without its
  spaces; the lemmas say what each function keeps of it and of its length.
\<close>

type_synonym rune = nat
type_synonym runes = "rune list"

definition ascii :: "string \<Rightarrow> runes" where
  "ascii s = map of_char s"

named_theorems visible_simps \<open>what text functions keep of the visible characters\<close>
named_theorems text_length \<open>bounds on the length of a text\<close>

subsection \<open>Spaces and trimming\<close>

definition uspace :: "rune \<Rightarrow> bool" where
  "uspace r \<longleftrightarrow> (9 \<le> r \<and> r \<le> 13) \<or> r = 32 \<or> r = 133 \<or> r = 160 \<or> r = 5760
     \<or> (8192 \<le> r \<and> r \<le> 8202) \<or> r = 8232 \<or> r = 8233 \<or> r = 8239 \<or> r = 8287 \<or> r = 12288"

definition ublank :: "rune \<Rightarrow> bool" where
  "ublank r \<longleftrightarrow> r = 32 \<or> r = 9"

definition trim_right_by :: "(rune \<Rightarrow> bool) \<Rightarrow> runes \<Rightarrow> runes" where
  "trim_right_by P s = rev (dropWhile P (rev s))"

definition trim_text :: "runes \<Rightarrow> runes" where
  "trim_text s = trim_right_by uspace (dropWhile uspace s)"

definition trim_blanks :: "runes \<Rightarrow> runes" where
  "trim_blanks s = trim_right_by ublank s"

definition visible :: "runes \<Rightarrow> runes" where
  "visible s = filter (\<lambda>r. \<not> uspace r) s"

subsection \<open>Splitting, joining and replacing\<close>

fun fields_loop :: "runes \<Rightarrow> runes \<Rightarrow> runes list" where
  "fields_loop cur [] = (if cur = [] then [] else [cur])"
| "fields_loop cur (r # rs) =
     (if uspace r then (if cur = [] then [] else [cur]) @ fields_loop [] rs
      else fields_loop (cur @ [r]) rs)"

definition text_fields :: "runes \<Rightarrow> runes list" where
  "text_fields s = fields_loop [] s"

fun split_at_rune :: "rune \<Rightarrow> runes \<Rightarrow> runes list" where
  "split_at_rune sep [] = [[]]"
| "split_at_rune sep (r # rs) =
     (if r = sep then [] # split_at_rune sep rs
      else case split_at_rune sep rs of [] \<Rightarrow> [[r]] | l # ls \<Rightarrow> (r # l) # ls)"

fun join_text :: "runes \<Rightarrow> runes list \<Rightarrow> runes" where
  "join_text sep [] = []"
| "join_text sep [x] = x"
| "join_text sep (x # y # xs) = x @ sep @ join_text sep (y # xs)"

fun replace_crlf :: "runes \<Rightarrow> runes" where
  "replace_crlf [] = []"
| "replace_crlf [r] = [r]"
| "replace_crlf (r # s # rs) =
     (if r = 13 \<and> s = 10 then 10 # replace_crlf rs else r # replace_crlf (s # rs))"

definition remove_rune :: "rune \<Rightarrow> runes \<Rightarrow> runes" where
  "remove_rune c s = filter (\<lambda>r. r \<noteq> c) s"

subsection \<open>What they keep\<close>

lemma uspace_numerals [simp]: "uspace 10" "uspace 32" "uspace 9" "uspace 13"
  by (simp_all add: uspace_def)

lemma visible_Nil [simp]: "visible [] = []"
  by (simp add: visible_def)

lemma visible_Cons: "visible (r # rs) = (if uspace r then visible rs else r # visible rs)"
  by (simp add: visible_def)

lemma visible_append [visible_simps]: "visible (xs @ ys) = visible xs @ visible ys"
  by (simp add: visible_def)

lemma visible_concat: "visible (concat xss) = concat (map visible xss)"
  by (induction xss) (simp_all add: visible_append)

lemma visible_idem [simp]: "visible (visible s) = visible s"
  by (simp add: visible_def)

lemma visible_dropWhile: "(\<And>r. P r \<Longrightarrow> uspace r) \<Longrightarrow> visible (dropWhile P s) = visible s"
  by (induction s) (simp_all add: visible_Cons)

lemma visible_rev: "visible (rev s) = rev (visible s)"
  by (simp add: visible_def rev_filter)

lemma visible_trim_right_by: "(\<And>r. P r \<Longrightarrow> uspace r) \<Longrightarrow> visible (trim_right_by P s) = visible s"
  by (simp add: trim_right_by_def visible_rev visible_dropWhile)

lemma visible_trim_text [visible_simps]: "visible (trim_text s) = visible s"
  by (simp add: trim_text_def visible_trim_right_by visible_dropWhile)

lemma ublank_uspace: "ublank r \<Longrightarrow> uspace r"
  by (auto simp: ublank_def uspace_def)

lemma visible_trim_blanks [visible_simps]: "visible (trim_blanks s) = visible s"
  by (simp add: trim_blanks_def visible_trim_right_by ublank_uspace)

lemma trim_right_by_Nil_iff: "trim_right_by P s = [] \<longleftrightarrow> (\<forall>r \<in> set s. P r)"
  by (simp add: trim_right_by_def dropWhile_eq_Nil_conv)

lemma visible_Nil_iff: "visible s = [] \<longleftrightarrow> (\<forall>r \<in> set s. uspace r)"
  by (simp add: visible_def filter_empty_conv)

lemma trim_text_Nil_iff: "trim_text s = [] \<longleftrightarrow> visible s = []"
proof
  assume "trim_text s = []"
  then have "visible (trim_text s) = []" by simp
  then show "visible s = []" by (simp add: visible_simps)
next
  assume "visible s = []"
  then have "\<forall>r \<in> set (dropWhile uspace s). uspace r" by (meson set_dropWhileD visible_Nil_iff)
  then show "trim_text s = []" by (simp add: trim_text_def trim_right_by_Nil_iff)
qed

lemma visible_fields_loop: "concat (map visible (fields_loop cur s)) = visible cur @ visible s"
  by (induction s arbitrary: cur) (simp_all add: visible_Cons visible_append)

lemma visible_text_fields: "concat (map visible (text_fields s)) = visible s"
  by (simp add: text_fields_def visible_fields_loop)

lemma visible_join_text: "visible sep = [] \<Longrightarrow> visible (join_text sep xs) = concat (map visible xs)"
  by (induction sep xs rule: join_text.induct) (simp_all add: visible_append)

lemma split_at_rune_not_Nil [simp]: "split_at_rune sep s \<noteq> []"
  by (cases s) (auto split: list.splits)

lemma visible_split_at_rune: "uspace sep \<Longrightarrow> concat (map visible (split_at_rune sep s)) = visible s"
  by (induction s) (auto simp: visible_Cons split: list.splits)

lemma visible_replace_crlf [visible_simps]: "visible (replace_crlf s) = visible s"
  by (induction s rule: replace_crlf.induct) (auto simp: visible_Cons)

subsection \<open>Lengths\<close>

lemma length_trim_right_by: "length (trim_right_by P s) \<le> length s"
  using length_dropWhile_le [of P "rev s"] by (simp add: trim_right_by_def)

lemma length_trim_text [text_length]: "length (trim_text s) \<le> length s"
  unfolding trim_text_def by (rule order_trans [OF length_trim_right_by length_dropWhile_le])

lemma length_trim_blanks [text_length]: "length (trim_blanks s) \<le> length s"
  by (simp add: trim_blanks_def length_trim_right_by)

lemma length_trim_text_le: "length s \<le> n \<Longrightarrow> length (trim_text s) \<le> n"
  using length_trim_text [of s] by simp

lemma trim_text_Nil [simp]: "trim_text [] = []"
  by (simp add: trim_text_def trim_right_by_def)

lemma trim_right_by_fixpoint: "s = [] \<or> \<not> P (last s) \<Longrightarrow> trim_right_by P s = s"
  by (cases s rule: rev_cases) (simp_all add: trim_right_by_def)

lemma trim_right_by_last: "trim_right_by P s = [] \<or> \<not> P (last (trim_right_by P s))"
  by (induction s rule: rev_induct) (simp_all add: trim_right_by_def)

lemma trim_right_by_hd: "s \<noteq> [] \<Longrightarrow> \<not> P (hd s) \<Longrightarrow> trim_right_by P s \<noteq> [] \<and> hd (trim_right_by P s) = hd s"
proof (induction s rule: rev_induct)
  case (snoc x xs)
  then show ?case
    by (cases "xs = []") (simp_all add: trim_right_by_def)
qed simp

lemma trim_text_hd: "trim_text s \<noteq> [] \<Longrightarrow> \<not> uspace (hd (trim_text s))"
  unfolding trim_text_def
  by (metis hd_dropWhile list.size(3) length_trim_right_by le_zero_eq length_0_conv trim_right_by_hd)

lemma trim_text_last: "trim_text s \<noteq> [] \<Longrightarrow> \<not> uspace (last (trim_text s))"
  using trim_right_by_last [of uspace "dropWhile uspace s"] by (simp add: trim_text_def)

lemma trim_text_fixpoint: "s = [] \<or> (\<not> uspace (hd s) \<and> \<not> uspace (last s)) \<Longrightarrow> trim_text s = s"
  by (cases s) (auto simp: trim_text_def trim_right_by_fixpoint)

lemma trim_text_idem [simp]: "trim_text (trim_text s) = trim_text s"
  using trim_text_hd [of s] trim_text_last [of s] by (intro trim_text_fixpoint) blast

end
