(* ===== verification/Text_Chunker.thy ===== *)
theory Text_Chunker
  imports Go_Text Go_Prelude "HOL-Library.Monad_Syntax"
begin

text \<open>
  The paragraph-aware splitter of memory documents (\<open>internal/infrastructure/ai/memory/chunker.go\<close>
  with the normalisation and hashing it uses from \<open>internal/domain/ai/memory_policy.go\<close>).

  Content is valid UTF-8, a list of code points; the byte-wise tests of \<open>parseListMarker\<close> only
  compare with ASCII characters, so they are tests on code points. A splitting function returns an
  option: \<open>None\<close> is a run that does not return, because the window loop of \<open>splitByRuneWindow\<close>
  with a window of no characters never ends or because a negative window slices out of range.
  The hash \<open>sha256_hex\<close> (hexadecimal SHA-256 of the UTF-8 bytes) is a parameter.
\<close>


subsection \<open>Data\<close>

datatype block_kind = BlockHeading | BlockProse | BlockCode | BlockTable | BlockList

record chunk_block =
  cb_kind :: block_kind
  cb_text :: runes

record chunk_list_item =
  li_marker :: runes
  li_text :: runes

record chunker_options =
  co_max_chars :: int
  co_overlap_chars :: int

record paragraph_chunker =
  pc_max_chars :: int
  pc_overlap_chars :: int

definition default_chunk_max_chars :: int where "default_chunk_max_chars = 1200"

definition new_paragraph_chunker :: "chunker_options \<Rightarrow> paragraph_chunker" where
  "new_paragraph_chunker opts =
     (let m = (if co_max_chars opts \<le> 0 then default_chunk_max_chars else co_max_chars opts);
          ov = (if co_overlap_chars opts < 0 then 0 else co_overlap_chars opts);
          ov' = (if ov \<ge> m then go_div m 4 else ov)
      in \<lparr>pc_max_chars = m, pc_overlap_chars = ov'\<rparr>)"

definition rune_count :: "runes \<Rightarrow> int" where
  "rune_count s = int (length s)"

subsection \<open>Normalisation and predicates\<close>

definition normalize_chunk_document_text :: "runes \<Rightarrow> runes" where
  "normalize_chunk_document_text v = trim_text (replace_crlf v)"

definition normalize_inline_text :: "runes \<Rightarrow> runes" where
  "normalize_inline_text v = join_text [32] (text_fields (trim_text v))"

definition fence_mark :: runes where "fence_mark = [96, 96, 96]"

definition is_fence_line :: "runes \<Rightarrow> bool" where
  "is_fence_line line \<longleftrightarrow> take 3 (trim_text line) = fence_mark"

definition is_heading_line :: "runes \<Rightarrow> bool" where
  "is_heading_line line \<longleftrightarrow> take 1 (trim_text line) = [35]"

definition is_digit_rune :: "rune \<Rightarrow> bool" where
  "is_digit_rune r \<longleftrightarrow> 48 \<le> r \<and> r \<le> 57"

definition parse_list_marker :: "runes \<Rightarrow> (runes \<times> runes) option" where
  "parse_list_marker line0 =
     (let line = trim_text line0; index = length (takeWhile is_digit_rune line)
      in if 2 \<le> length line \<and> (line ! 0 = 45 \<or> line ! 0 = 42 \<or> line ! 0 = 43)
            \<and> (line ! 1 = 32 \<or> line ! 1 = 9)
         then Some ([line ! 0], trim_text (drop 1 line))
         else if 0 < index \<and> index + 1 < length line \<and> (line ! index = 46 \<or> line ! index = 41)
            \<and> (line ! (index + 1) = 32 \<or> line ! (index + 1) = 9)
         then Some (trim_text (take (index + 1) line), trim_text (drop (index + 1) line))
         else None)"

definition is_list_item_line :: "runes \<Rightarrow> bool" where
  "is_list_item_line line \<longleftrightarrow> parse_list_marker line \<noteq> None"

definition is_markdown_table_delimiter_line :: "runes \<Rightarrow> bool" where
  "is_markdown_table_delimiter_line line0 =
     (let line = trim_text line0; t = remove_rune 9 (remove_rune 32 (remove_rune 124 line))
      in line \<noteq> [] \<and> t \<noteq> [] \<and> 45 \<in> set t \<and> list_all (\<lambda>r. r = 45 \<or> r = 58) t)"

text \<open>The lines from some index on; the code tests the line at the index and the next one.\<close>

fun is_markdown_table_start :: "runes list \<Rightarrow> bool" where
  "is_markdown_table_start (cur # nxt # ls) =
     (let c = trim_text cur; n = trim_text nxt
      in c \<noteq> [] \<and> n \<noteq> [] \<and> 124 \<in> set c \<and> is_markdown_table_delimiter_line n)"
| "is_markdown_table_start ls = False"

definition is_strong_sentence_boundary :: "rune \<Rightarrow> bool" where
  "is_strong_sentence_boundary r \<longleftrightarrow> r = 12290 \<or> r = 65281 \<or> r = 65311 \<or> r = 65307
     \<or> r = 46 \<or> r = 33 \<or> r = 63 \<or> r = 59"

definition is_soft_sentence_boundary :: "rune \<Rightarrow> bool" where
  "is_soft_sentence_boundary r \<longleftrightarrow> r = 65292 \<or> r = 44 \<or> r = 65306 \<or> r = 58"

definition split_raw_lines :: "runes \<Rightarrow> runes list" where
  "split_raw_lines v =
     (let value = normalize_chunk_document_text v
      in if value = [] then [] else map trim_blanks (split_at_rune 10 value))"

subsection \<open>Blocks\<close>

fun fence_scan :: "runes list \<Rightarrow> runes list \<times> runes list" where
  "fence_scan [] = ([], [])"
| "fence_scan (l # ls) =
     (if is_fence_line (trim_text l) then ([l], ls)
      else let r = fence_scan ls in (l # fst r, snd r))"

fun scan_until :: "(runes list \<Rightarrow> bool) \<Rightarrow> runes list \<Rightarrow> runes list \<times> runes list" where
  "scan_until stop [] = ([], [])"
| "scan_until stop (l # ls) =
     (if stop (l # ls) then ([], l # ls)
      else let r = scan_until stop ls in (l # fst r, snd r))"

definition table_stop :: "runes list \<Rightarrow> bool" where
  "table_stop ls = (let n = trim_text (hd ls)
     in n = [] \<or> (124 \<notin> set n \<and> \<not> is_markdown_table_delimiter_line n))"

definition list_stop :: "runes list \<Rightarrow> bool" where
  "list_stop ls = (let n = trim_text (hd ls)
     in n = [] \<or> is_fence_line n \<or> is_heading_line n \<or> is_markdown_table_start ls)"

definition prose_stop :: "runes list \<Rightarrow> bool" where
  "prose_stop ls = (let n = trim_text (hd ls)
     in n = [] \<or> is_fence_line n \<or> is_heading_line n \<or> is_markdown_table_start ls
        \<or> is_list_item_line n)"

lemma length_fence_scan: "length (snd (fence_scan ls)) \<le> length ls"
  by (induction ls) (auto simp: Let_def intro: le_SucI)

lemma length_scan_until: "length (snd (scan_until stop ls)) \<le> length ls"
  by (induction ls) (auto simp: Let_def intro: le_SucI)

function split_blocks_loop :: "runes list \<Rightarrow> chunk_block list" where
  "split_blocks_loop [] = []"
| "split_blocks_loop (l # rest) =
     (let line = trim_blanks l; trimmed = trim_text line
      in if trimmed = [] then split_blocks_loop rest
         else if is_fence_line trimmed then
           (let r = fence_scan rest
            in \<lparr>cb_kind = BlockCode, cb_text = join_text [10] (l # fst r)\<rparr> # split_blocks_loop (snd r))
         else if is_heading_line trimmed then
           \<lparr>cb_kind = BlockHeading, cb_text = trimmed\<rparr> # split_blocks_loop rest
         else if is_markdown_table_start (l # rest) then
           (let r = scan_until table_stop (tl rest)
            in \<lparr>cb_kind = BlockTable, cb_text = join_text [10] (l # hd rest # fst r)\<rparr>
               # split_blocks_loop (snd r))
         else if is_list_item_line trimmed then
           (let r = scan_until list_stop rest
            in \<lparr>cb_kind = BlockList, cb_text = join_text [10] (l # fst r)\<rparr> # split_blocks_loop (snd r))
         else
           (let r = scan_until prose_stop rest
            in \<lparr>cb_kind = BlockProse, cb_text = join_text [10] (l # fst r)\<rparr> # split_blocks_loop (snd r)))"
  by pat_completeness auto
termination
proof (relation "measure length", goal_cases)
  case (3 l rest) then show ?case using length_fence_scan [of rest] by simp
next
  case (5 l rest) then show ?case
    using length_scan_until [of table_stop "tl rest"] by (cases rest) simp_all
next
  case (6 l rest) then show ?case using length_scan_until [of list_stop rest] by simp
next
  case (7 l rest) then show ?case using length_scan_until [of prose_stop rest] by simp
qed simp_all

definition split_blocks :: "runes \<Rightarrow> chunk_block list" where
  "split_blocks c =
     (let content = normalize_chunk_document_text c
      in if content = [] then [] else split_blocks_loop (split_at_rune 10 content))"

subsection \<open>Windows and narrative units\<close>

definition rune_slice :: "int \<Rightarrow> int \<Rightarrow> runes \<Rightarrow> runes" where
  "rune_slice a b rs = take (nat (b - a)) (drop (nat a) rs)"

definition non_blank :: "runes \<Rightarrow> runes list" where
  "non_blank s = (if s = [] then [] else [s])"

partial_function (option) window_loop :: "runes \<Rightarrow> int \<Rightarrow> int \<Rightarrow> int \<Rightarrow> runes list option" where
  "window_loop rs max_chars step start =
     (if start < rune_count rs then
        (let stop = (if start + max_chars > rune_count rs then rune_count rs else start + max_chars)
         in if start < 0 \<or> stop < start then None
            else if stop = rune_count rs then Some (non_blank (trim_text (rune_slice start stop rs)))
            else do {
              more \<leftarrow> window_loop rs max_chars step (start + step);
              Some (non_blank (trim_text (rune_slice start stop rs)) @ more) })
      else Some [])"

declare window_loop.simps [code]

definition split_by_rune_window :: "runes \<Rightarrow> int \<Rightarrow> int \<Rightarrow> runes list option" where
  "split_by_rune_window value max_chars overlap =
     (if rune_count value \<le> max_chars then Some [trim_text value]
      else let step = max_chars - overlap;
               step' = (if step \<le> 0 then max_chars else step)
           in window_loop value max_chars step' 0)"

text \<open>Appending the parts of every element, in order.\<close>

fun collect_parts :: "('a \<Rightarrow> runes list option) \<Rightarrow> 'a list \<Rightarrow> runes list option" where
  "collect_parts f [] = Some []"
| "collect_parts f (x # xs) = do { a \<leftarrow> f x; b \<leftarrow> collect_parts f xs; Some (a @ b) }"

fun boundaries_loop :: "(rune \<Rightarrow> bool) \<Rightarrow> runes \<Rightarrow> runes \<Rightarrow> runes list" where
  "boundaries_loop is_boundary builder [] = non_blank (trim_text builder)"
| "boundaries_loop is_boundary builder (r # rs) =
     (if is_boundary r then non_blank (trim_text (builder @ [r])) @ boundaries_loop is_boundary [] rs
      else boundaries_loop is_boundary (builder @ [r]) rs)"

definition split_by_boundaries :: "runes \<Rightarrow> (rune \<Rightarrow> bool) \<Rightarrow> runes list" where
  "split_by_boundaries text is_boundary =
     (if trim_text text = [] then [] else boundaries_loop is_boundary [] text)"

definition soft_unit_parts :: "int \<Rightarrow> runes \<Rightarrow> runes list option" where
  "soft_unit_parts max_chars u =
     (let soft_unit = normalize_inline_text u
      in if soft_unit = [] then Some []
         else if rune_count soft_unit \<le> max_chars then Some [soft_unit]
         else split_by_rune_window soft_unit max_chars 0)"

definition strong_unit_parts :: "int \<Rightarrow> runes \<Rightarrow> runes list option" where
  "strong_unit_parts max_chars u =
     (let unit = normalize_inline_text u
      in if unit = [] then Some []
         else if rune_count unit \<le> max_chars then Some [unit]
         else let soft = split_by_boundaries unit is_soft_sentence_boundary
              in collect_parts (soft_unit_parts max_chars) (if soft = [] then [unit] else soft))"

definition split_narrative_units :: "runes \<Rightarrow> int \<Rightarrow> runes list option" where
  "split_narrative_units text0 max_chars =
     (let text = normalize_inline_text text0
      in if text = [] then Some []
         else if max_chars \<le> 0 \<or> rune_count text \<le> max_chars then Some [text]
         else let strong = split_by_boundaries text is_strong_sentence_boundary
              in collect_parts (strong_unit_parts max_chars) (if strong = [] then [text] else strong))"

subsection \<open>List items and code groups\<close>

definition flush_item :: "chunk_list_item \<Rightarrow> chunk_list_item list" where
  "flush_item cur = (if trim_text (li_text cur) = [] then [] else [cur])"

fun list_items_loop :: "chunk_list_item \<Rightarrow> runes list \<Rightarrow> chunk_list_item list" where
  "list_items_loop cur [] = flush_item cur"
| "list_items_loop cur (line # lines) =
     (let trimmed = trim_text line
      in if trimmed = [] then list_items_loop cur lines
         else case parse_list_marker trimmed of
           Some (marker, body) \<Rightarrow>
             flush_item cur @ list_items_loop \<lparr>li_marker = marker, li_text = body\<rparr> lines
         | None \<Rightarrow>
             if li_text cur = [] then list_items_loop \<lparr>li_marker = [45], li_text = trimmed\<rparr> lines
             else list_items_loop (cur\<lparr>li_text := trim_text (li_text cur @ [32] @ trimmed)\<rparr>) lines)"

definition split_list_items :: "runes \<Rightarrow> chunk_list_item list" where
  "split_list_items text = list_items_loop \<lparr>li_marker = [], li_text = []\<rparr> (split_raw_lines text)"

definition flush_group :: "runes list \<Rightarrow> runes list" where
  "flush_group cur = (if cur = [] then [] else [join_text [10] cur])"

fun code_groups_loop :: "runes list \<Rightarrow> runes list \<Rightarrow> runes list" where
  "code_groups_loop cur [] = flush_group cur"
| "code_groups_loop cur (line # lines) =
     (if trim_text line = [] then flush_group cur @ code_groups_loop [] lines
      else code_groups_loop (cur @ [trim_blanks line]) lines)"

definition split_code_groups :: "runes list \<Rightarrow> runes list" where
  "split_code_groups lines = code_groups_loop [] lines"

text \<open>The part collected so far is kept when it is not blank.\<close>

definition keep_part :: "runes \<Rightarrow> runes list" where
  "keep_part cur = (if trim_text cur = [] then [] else [cur])"

fun line_window_loop :: "int \<Rightarrow> runes \<Rightarrow> runes list \<Rightarrow> runes list option" where
  "line_window_loop max_chars cur [] = Some (keep_part cur)"
| "line_window_loop max_chars cur (l # ls) =
     (let line = trim_blanks l
      in if line = [] then line_window_loop max_chars cur ls
         else if rune_count line > max_chars then do {
           w \<leftarrow> split_by_rune_window line max_chars 0;
           more \<leftarrow> line_window_loop max_chars (if trim_text cur = [] then cur else []) ls;
           Some (keep_part cur @ w @ more) }
         else if cur = [] then line_window_loop max_chars line ls
         else if rune_count (cur @ [10] @ line) \<le> max_chars
           then line_window_loop max_chars (cur @ [10] @ line) ls
         else do {
           more \<leftarrow> line_window_loop max_chars line ls;
           Some (cur # more) })"

definition split_code_group_by_line_window :: "runes \<Rightarrow> int \<Rightarrow> runes list option" where
  "split_code_group_by_line_window grp max_chars =
     (let lines = split_raw_lines grp
      in if lines = [] then Some [] else line_window_loop max_chars [] lines)"

subsection \<open>Packing\<close>

definition join_chunk_parts :: "runes \<Rightarrow> runes \<Rightarrow> runes \<Rightarrow> runes" where
  "join_chunk_parts left0 right0 sep =
     (let l = trim_text left0; r = trim_text right0
      in if l = [] then r else if r = [] then l else trim_text (l @ sep @ r))"

definition wrap_chunk_body :: "runes \<Rightarrow> runes \<Rightarrow> runes \<Rightarrow> runes" where
  "wrap_chunk_body pre suf body0 =
     (let body = trim_text body0
      in if pre = [] \<and> suf = [] then body
         else let b1 = trim_text pre;
                  b2 = (if body = [] then b1 else b1 @ (if b1 = [] then [] else [10]) @ body);
                  b3 = (if trim_text suf = [] then b2
                        else b2 @ (if b2 = [] then [] else [10]) @ trim_text suf)
              in trim_text b3)"

fun pack_loop :: "runes \<Rightarrow> runes \<Rightarrow> runes \<Rightarrow> int \<Rightarrow> runes \<Rightarrow> runes list \<Rightarrow> runes list" where
  "pack_loop pre suf sep max_chars cur [] =
     (if trim_text cur = [] then [] else [wrap_chunk_body pre suf cur])"
| "pack_loop pre suf sep max_chars cur (p # ps) =
     (let part = trim_text p
      in if part = [] then pack_loop pre suf sep max_chars cur ps
         else let candidate_body = (if cur = [] then part else join_chunk_parts cur part sep)
              in if rune_count (wrap_chunk_body pre suf candidate_body) \<le> max_chars
                 then pack_loop pre suf sep max_chars candidate_body ps
                 else (if trim_text cur = [] then [] else [wrap_chunk_body pre suf cur])
                      @ pack_loop pre suf sep max_chars part ps)"

definition pack_wrapped_parts ::
    "runes list \<Rightarrow> runes \<Rightarrow> runes \<Rightarrow> runes \<Rightarrow> int \<Rightarrow> runes list" where
  "pack_wrapped_parts parts pre suf sep max_chars =
     (if parts = [] then [] else pack_loop pre suf sep max_chars [] parts)"

subsection \<open>The chunker\<close>

definition chunk_overlap :: "paragraph_chunker \<Rightarrow> runes \<Rightarrow> runes" where
  "chunk_overlap c value =
     (if pc_overlap_chars c \<le> 0 then []
      else if rune_count value \<le> pc_overlap_chars c then trim_text value
      else trim_text (drop (nat (rune_count value - pc_overlap_chars c)) value))"

definition start_chunk_with_overlap :: "paragraph_chunker \<Rightarrow> runes \<Rightarrow> runes \<Rightarrow> runes \<Rightarrow> runes" where
  "start_chunk_with_overlap c previous nxt0 sep =
     (let nxt = trim_text nxt0
      in if nxt = [] then []
         else let overlap = chunk_overlap c previous
              in if overlap = [] then nxt
                 else let candidate = join_chunk_parts overlap nxt sep
                      in if rune_count candidate \<le> pc_max_chars c then candidate else nxt)"

fun sequence_loop :: "paragraph_chunker \<Rightarrow> runes \<Rightarrow> runes \<Rightarrow> runes list \<Rightarrow> runes list" where
  "sequence_loop c sep cur [] = keep_part cur"
| "sequence_loop c sep cur (p # ps) =
     (let part = trim_text p
      in if part = [] then sequence_loop c sep cur ps
         else if cur = [] then sequence_loop c sep part ps
         else let candidate = join_chunk_parts cur part sep
              in if rune_count candidate \<le> pc_max_chars c then sequence_loop c sep candidate ps
                 else cur # sequence_loop c sep (start_chunk_with_overlap c cur part sep) ps)"

definition build_chunk_sequence :: "paragraph_chunker \<Rightarrow> runes list \<Rightarrow> runes \<Rightarrow> runes list" where
  "build_chunk_sequence c parts sep = (if parts = [] then [] else sequence_loop c sep [] parts)"

definition split_heading_block :: "paragraph_chunker \<Rightarrow> runes \<Rightarrow> runes list option" where
  "split_heading_block c text0 =
     (let text = normalize_inline_text text0
      in if text = [] then Some []
         else if rune_count text \<le> pc_max_chars c then Some [text]
         else split_by_rune_window text (pc_max_chars c) 0)"

definition split_prose_block :: "paragraph_chunker \<Rightarrow> runes \<Rightarrow> runes list option" where
  "split_prose_block c text0 =
     (let text = normalize_inline_text text0
      in if text = [] then Some []
         else if rune_count text \<le> pc_max_chars c then Some [text]
         else do {
           units \<leftarrow> split_narrative_units text (pc_max_chars c);
           Some (build_chunk_sequence c units [32]) })"

definition item_prefix :: "chunk_list_item \<Rightarrow> runes" where
  "item_prefix item = (if trim_text (li_marker item) = [] then [45] else trim_text (li_marker item))"

definition list_item_parts :: "paragraph_chunker \<Rightarrow> chunk_list_item \<Rightarrow> runes list option" where
  "list_item_parts c item =
     (let body = normalize_inline_text (li_text item);
          pre = item_prefix item;
          full_text = trim_text (pre @ [32] @ body);
          budget = pc_max_chars c - rune_count pre - 1;
          body_budget = (if budget \<le> 0 then pc_max_chars c else budget)
      in if body = [] then Some []
         else if rune_count full_text \<le> pc_max_chars c then Some [full_text]
         else do {
           units \<leftarrow> split_narrative_units body body_budget;
           Some (map (\<lambda>u. trim_text (pre @ [32] @ trim_text u))
                   (filter (\<lambda>u. trim_text u \<noteq> []) units)) })"

definition split_list_block :: "paragraph_chunker \<Rightarrow> runes \<Rightarrow> runes list option" where
  "split_list_block c text =
     (let items = split_list_items text
      in if items = [] then split_prose_block c text
         else do {
           parts \<leftarrow> collect_parts (list_item_parts c) items;
           Some (build_chunk_sequence c parts [10]) })"

definition table_row_parts :: "int \<Rightarrow> runes \<Rightarrow> runes list option" where
  "table_row_parts body_budget line0 =
     (let line = trim_text line0
      in if line = [] then Some []
         else if rune_count line \<le> body_budget then Some [line]
         else split_by_rune_window line body_budget 0)"

definition split_table_block :: "paragraph_chunker \<Rightarrow> runes \<Rightarrow> runes list option" where
  "split_table_block c text0 =
     (let text = normalize_chunk_document_text text0; m = pc_max_chars c; lines = split_raw_lines text;
          pre = trim_text (lines ! 0) @ [10] @ trim_text (lines ! 1);
          body_budget = m - rune_count pre - 1
      in if text = [] then Some []
         else if rune_count text \<le> m then Some [text]
         else if length lines < 2 \<or> \<not> is_markdown_table_delimiter_line (lines ! 1)
         then split_by_rune_window text m 0
         else if body_budget \<le> 0 then split_by_rune_window text m 0
         else do {
           rows \<leftarrow> collect_parts (table_row_parts body_budget) (drop 2 lines);
           Some (pack_wrapped_parts rows pre [] [10] m) })"

definition code_prefix :: "runes list \<Rightarrow> runes \<times> runes list" where
  "code_prefix lines =
     (if lines \<noteq> [] \<and> is_fence_line (hd lines) then (trim_text (hd lines), tl lines) else ([], lines))"

definition code_suffix :: "runes list \<Rightarrow> runes \<times> runes list" where
  "code_suffix body =
     (if body \<noteq> [] \<and> is_fence_line (last body) then (trim_text (last body), butlast body) else ([], body))"

definition code_group_parts :: "int \<Rightarrow> runes \<Rightarrow> runes list option" where
  "code_group_parts body_budget g =
     (let grp = trim_text g
      in if grp = [] then Some []
         else if rune_count grp \<le> body_budget then Some [grp]
         else split_code_group_by_line_window grp body_budget)"

definition split_code_block :: "paragraph_chunker \<Rightarrow> runes \<Rightarrow> runes list option" where
  "split_code_block c text0 =
     (let text = normalize_chunk_document_text text0; m = pc_max_chars c;
          (pre, body1) = code_prefix (split_raw_lines text);
          (suf, body2) = code_suffix body1;
          budget1 = (if pre \<noteq> [] then m - (rune_count pre + 1) else m);
          body_budget = (if suf \<noteq> [] then budget1 - (rune_count suf + 1) else budget1)
      in if text = [] then Some []
         else if rune_count text \<le> m then Some [text]
         else if body_budget \<le> 0 then split_by_rune_window text m 0
         else do {
           parts \<leftarrow> collect_parts (code_group_parts body_budget) (split_code_groups body2);
           Some (pack_wrapped_parts parts pre suf [10, 10] m) })"

definition split_block :: "paragraph_chunker \<Rightarrow> chunk_block \<Rightarrow> runes list option" where
  "split_block c b = (case cb_kind b of
       BlockHeading \<Rightarrow> split_heading_block c (cb_text b)
     | BlockList \<Rightarrow> split_list_block c (cb_text b)
     | BlockTable \<Rightarrow> split_table_block c (cb_text b)
     | BlockCode \<Rightarrow> split_code_block c (cb_text b)
     | BlockProse \<Rightarrow> split_prose_block c (cb_text b))"

fun split_text_loop :: "paragraph_chunker \<Rightarrow> runes \<Rightarrow> chunk_block list \<Rightarrow> runes list option" where
  "split_text_loop c cur [] = Some (keep_part cur)"
| "split_text_loop c cur (b # bs) = do {
     block_chunks \<leftarrow> split_block c b;
     (if block_chunks = [] then split_text_loop c cur bs
      else if 1 < length block_chunks then do {
        more \<leftarrow> split_text_loop c (if trim_text cur \<noteq> [] then [] else cur) bs;
        Some (keep_part cur @ block_chunks @ more) }
      else let part = trim_text (hd block_chunks)
           in if part = [] then split_text_loop c cur bs
              else if cur = [] then split_text_loop c part bs
              else let candidate = join_chunk_parts cur part [10, 10]
                   in if rune_count candidate \<le> pc_max_chars c then split_text_loop c candidate bs
                      else do {
                        more \<leftarrow> split_text_loop c (start_chunk_with_overlap c cur part [10, 10]) bs;
                        Some (cur # more) }) }"

definition split_text :: "paragraph_chunker \<Rightarrow> runes \<Rightarrow> runes list option" where
  "split_text c content = split_text_loop c [] (split_blocks content)"

subsection \<open>Chunks of a document\<close>

definition hash_memory_value :: "(runes \<Rightarrow> string) \<Rightarrow> runes \<Rightarrow> string" where
  "hash_memory_value sha256_hex value = (if value = [] then [] else sha256_hex value)"

definition normalize_memory_text :: "runes \<Rightarrow> runes" where
  "normalize_memory_text value = join_text [32] (text_fields (trim_text value))"

definition build_memory_document_content_hash :: "(runes \<Rightarrow> string) \<Rightarrow> runes \<Rightarrow> string" where
  "build_memory_document_content_hash sha256_hex content =
     hash_memory_value sha256_hex (normalize_memory_text content)"

definition memory_chunk_key :: "runes \<Rightarrow> nat \<Rightarrow> string \<Rightarrow> runes" where
  "memory_chunk_key document_id idx content_hash =
     document_id @ [10] @ ascii (show_nat idx) @ [10] @ ascii content_hash"

definition build_memory_chunk_id :: "(runes \<Rightarrow> string) \<Rightarrow> runes \<Rightarrow> nat \<Rightarrow> string \<Rightarrow> string" where
  "build_memory_chunk_id sha256_hex document_id idx content_hash =
     ''mem_chunk_'' @ take 32 (sha256_hex (memory_chunk_key document_id idx content_hash))"

definition build_memory_chunk_point_id :: "(runes \<Rightarrow> string) \<Rightarrow> runes \<Rightarrow> nat \<Rightarrow> string \<Rightarrow> string" where
  "build_memory_chunk_point_id sha256_hex document_id idx content_hash =
     (let h = take 32 (sha256_hex (memory_chunk_key document_id idx content_hash));
          part = (\<lambda>a b. take (b - a) (drop a h))
      in part 0 8 @ ''-'' @ part 8 12 @ ''-'' @ part 12 16 @ ''-'' @ part 16 20 @ ''-'' @ part 20 32)"

definition estimate_chunk_tokens :: "runes \<Rightarrow> int" where
  "estimate_chunk_tokens value =
     (if rune_count value = 0 then 0 else (rune_count value + 3) div 4)"

record memory_document_for_index =
  md_id :: runes
  md_scope_key :: runes
  md_scope_type :: runes
  md_visibility :: runes
  md_user_id :: "nat option"
  md_org_id :: "nat option"
  md_memory_type :: runes
  md_topic :: runes
  md_content :: runes
  md_source_kind :: runes
  md_source_id :: runes

record memory_document_chunk =
  mc_id :: string
  mc_document_id :: runes
  mc_scope_key :: runes
  mc_scope_type :: runes
  mc_visibility :: runes
  mc_user_id :: "nat option"
  mc_org_id :: "nat option"
  mc_memory_type :: runes
  mc_topic :: runes
  mc_source_kind :: runes
  mc_source_id :: runes
  mc_chunk_index :: nat
  mc_content_text :: runes
  mc_content_hash :: string
  mc_token_estimate :: int
  mc_qdrant_point_id :: string

definition document_chunk ::
    "(runes \<Rightarrow> string) \<Rightarrow> memory_document_for_index \<Rightarrow> nat \<Rightarrow> runes \<Rightarrow> memory_document_chunk" where
  "document_chunk sha256_hex doc idx part =
     (let hash = build_memory_document_content_hash sha256_hex part
      in \<lparr>mc_id = build_memory_chunk_id sha256_hex (md_id doc) idx hash,
          mc_document_id = md_id doc, mc_scope_key = md_scope_key doc,
          mc_scope_type = md_scope_type doc, mc_visibility = md_visibility doc,
          mc_user_id = md_user_id doc, mc_org_id = md_org_id doc,
          mc_memory_type = md_memory_type doc, mc_topic = md_topic doc,
          mc_source_kind = md_source_kind doc, mc_source_id = md_source_id doc,
          mc_chunk_index = idx, mc_content_text = part, mc_content_hash = hash,
          mc_token_estimate = estimate_chunk_tokens part,
          mc_qdrant_point_id = build_memory_chunk_point_id sha256_hex (md_id doc) idx hash\<rparr>)"

datatype chunk_cancelled = ChunkCancelled

definition chunk_document ::
    "(runes \<Rightarrow> string) \<Rightarrow> bool \<Rightarrow> paragraph_chunker \<Rightarrow> memory_document_for_index
     \<Rightarrow> (chunk_cancelled + memory_document_chunk list) option" where
  "chunk_document sha256_hex ctx_done c doc =
     (let content = normalize_chunk_document_text (md_content doc)
      in if ctx_done then Some (Inl ChunkCancelled)
         else if content = [] then Some (Inr [])
         else do {
           parts \<leftarrow> split_text c content;
           Some (Inr (map (\<lambda>(i, p). document_chunk sha256_hex doc i p) (enumerate 0 parts))) })"

subsection \<open>Merging chunks again\<close>

fun overlap_search :: "runes \<Rightarrow> runes \<Rightarrow> nat \<Rightarrow> runes" where
  "overlap_search previous current 0 = current"
| "overlap_search previous current (Suc n) =
     (if drop (length previous - Suc n) previous = take (Suc n) current then drop (Suc n) current
      else overlap_search previous current n)"

definition trim_leading_chunk_overlap :: "runes \<Rightarrow> runes \<Rightarrow> int \<Rightarrow> runes" where
  "trim_leading_chunk_overlap previous current overlap_chars =
     (if current = [] \<or> overlap_chars \<le> 0 then current
      else overlap_search previous current
             (min (min (nat overlap_chars) (length previous)) (length current)))"

fun merge_loop :: "int \<Rightarrow> runes \<Rightarrow> runes list \<Rightarrow> runes" where
  "merge_loop overlap_chars merged [] = merged"
| "merge_loop overlap_chars merged (p # ps) =
     (let part = trim_text p
      in if part = [] then merge_loop overlap_chars merged ps
         else if merged = [] then merge_loop overlap_chars part ps
         else merge_loop overlap_chars
                (merged @ trim_leading_chunk_overlap merged part overlap_chars) ps)"

definition merge_chunk_texts_with_overlap :: "runes list \<Rightarrow> int \<Rightarrow> runes" where
  "merge_chunk_texts_with_overlap parts overlap_chars =
     (if parts = [] then [] else trim_text (merge_loop overlap_chars [] parts))"

end
