(* ===== verification/Memory_Policy.thy ===== *)
theory Memory_Policy
  imports Text_Chunker Complex_Main
begin

text \<open>
  Which memories may be stored, read and overwritten, and for how long
  (\<open>internal/domain/ai/memory.go\<close>, \<open>internal/domain/ai/memory_policy.go\<close> and
  \<open>internal/service/system/aiMemoryPolicy.go\<close>).

  Strings are code points; the string types of the source (scope type, memory type, visibility,
  source kind, hint kind) stay strings, with its constants, because the code trims and compares
  them. A confidence is a rational number, a time an \<open>int\<close> of nanoseconds. The human-readable
  \<open>Reason\<close> of a decision is not modelled, its \<open>ReasonCode\<close> is. What the code takes from
  elsewhere is in \<open>mem_env\<close>: SHA-256, the Unicode lower-case table, the RFC 3339 parser, the
  JSON codec of lists of strings and the \<open>%.3f\<close> format. The number of days up to a date is computed exactly, where the code goes
  through a float64.
\<close>

record mem_env =
  me_sha256_hex :: "runes \<Rightarrow> string"
  me_lower_rune :: "rune \<Rightarrow> rune"
  me_parse_rfc3339 :: "runes \<Rightarrow> int option"
  me_json_decode :: "runes \<Rightarrow> runes list option"
  me_json_encode :: "runes list \<Rightarrow> runes"
  me_format_score :: "rat \<Rightarrow> runes"

definition to_lower_text :: "mem_env \<Rightarrow> runes \<Rightarrow> runes" where
  "to_lower_text env s = map (me_lower_rune env) s"

subsection \<open>Vocabulary\<close>

named_theorems memory_consts \<open>string constants of the memory domain\<close>

definition memory_scope_self :: runes where [memory_consts]: "memory_scope_self = ascii ''self''"
definition memory_scope_org :: runes where [memory_consts]: "memory_scope_org = ascii ''org''"
definition memory_scope_platform_ops :: runes where
  [memory_consts]: "memory_scope_platform_ops = ascii ''platform_ops''"

definition memory_type_session_summary :: runes where
  [memory_consts]: "memory_type_session_summary = ascii ''session_summary''"
definition memory_type_episodic :: runes where [memory_consts]: "memory_type_episodic = ascii ''episodic''"
definition memory_type_procedural :: runes where [memory_consts]: "memory_type_procedural = ascii ''procedural''"
definition memory_type_incident :: runes where [memory_consts]: "memory_type_incident = ascii ''incident''"

definition memory_visibility_self :: runes where [memory_consts]: "memory_visibility_self = ascii ''self''"
definition memory_visibility_org :: runes where [memory_consts]: "memory_visibility_org = ascii ''org''"
definition memory_visibility_super_admin :: runes where
  [memory_consts]: "memory_visibility_super_admin = ascii ''super_admin''"

definition ns_user_preference :: runes where [memory_consts]: "ns_user_preference = ascii ''user_preference''"
definition ns_oj_profile :: runes where [memory_consts]: "ns_oj_profile = ascii ''oj_profile''"
definition ns_oj_goal :: runes where [memory_consts]: "ns_oj_goal = ascii ''oj_goal''"
definition ns_org_profile :: runes where [memory_consts]: "ns_org_profile = ascii ''org_profile''"
definition ns_org_learning :: runes where [memory_consts]: "ns_org_learning = ascii ''org_learning_pattern''"
definition ns_ops_incident :: runes where [memory_consts]: "ns_ops_incident = ascii ''ops_incident''"
definition ns_ops_runbook :: runes where [memory_consts]: "ns_ops_runbook = ascii ''ops_runbook''"

definition src_explicit_user_statement :: runes where
  [memory_consts]: "src_explicit_user_statement = ascii ''explicit_user_statement''"
definition src_admin_set :: runes where [memory_consts]: "src_admin_set = ascii ''admin_set''"
definition src_tool_verified_summary :: runes where
  [memory_consts]: "src_tool_verified_summary = ascii ''tool_verified_summary''"
definition src_model_inferred :: runes where [memory_consts]: "src_model_inferred = ascii ''model_inferred''"
definition src_raw_trace_payload :: runes where
  [memory_consts]: "src_raw_trace_payload = ascii ''raw_trace_payload''"
definition src_full_tool_output :: runes where
  [memory_consts]: "src_full_tool_output = ascii ''full_tool_output''"

definition hint_default :: runes where [memory_consts]: "hint_default = ascii ''default''"
definition hint_persistent :: runes where [memory_consts]: "hint_persistent = ascii ''persistent''"
definition hint_duration :: runes where [memory_consts]: "hint_duration = ascii ''duration''"
definition hint_until_date :: runes where [memory_consts]: "hint_until_date = ascii ''until_date''"
definition hint_session_only :: runes where [memory_consts]: "hint_session_only = ascii ''session_only''"

datatype memory_reason =
    AllowSelfScope | AllowOrgScope | AllowPlatformOpsScope
  | DenyPermissionDependencyMissing | DenyScopeMismatch | DenyVisibilityMismatch
  | DenyNotSuperAdmin | DenyNotInApprovedOrgScope | DenyForbiddenSource | DenyLowValueContent
  | DenyTruthConflict | DenyDuplicateDocument
  | OverrideExplicitUserStatement | OverrideAdminSet | SkipLowerPrioritySource | SkipSameValue
  | AllowStoreFact | AllowStoreDocument | AllowTTLExpiring | AllowTTLPersistent | AllowSamePriority

subsection \<open>Scope keys\<close>

definition build_self_memory_scope_key :: "nat \<Rightarrow> runes" where
  "build_self_memory_scope_key uid = ascii ''self:user:'' @ ascii (show_nat uid)"

definition build_org_memory_scope_key :: "nat \<Rightarrow> runes" where
  "build_org_memory_scope_key oid = ascii ''org:'' @ ascii (show_nat oid)"

definition build_platform_ops_memory_scope_key :: runes where
  "build_platform_ops_memory_scope_key = memory_scope_platform_ops"

definition build_conversation_memory_scope_key :: "nat \<Rightarrow> nat option \<Rightarrow> runes" where
  "build_conversation_memory_scope_key uid oid = (case oid of
       Some i \<Rightarrow> if 0 < i then build_org_memory_scope_key i else build_self_memory_scope_key uid
     | None \<Rightarrow> build_self_memory_scope_key uid)"

subsection \<open>Inputs and decisions\<close>

record ai_tool_principal =
  pr_user_id :: nat
  pr_current_org_id :: "nat option"
  pr_is_super_admin :: bool

record memory_access_context =
  ac_principal :: ai_tool_principal
  ac_approved_org_scope_keys :: "runes list"
  ac_approved_org_ids :: "nat list"
  ac_allow_platform_ops :: bool

record memory_decision =
  de_allowed :: bool
  de_reason :: memory_reason

record memory_scope_decision =
  sd_decision :: memory_decision
  sd_scope_type :: runes
  sd_scope_key :: runes
  sd_user_id :: "nat option"
  sd_org_id :: "nat option"

record memory_visibility_decision =
  vd_decision :: memory_decision
  vd_visibility :: runes

record memory_ttl_decision =
  td_decision :: memory_decision
  td_expires_at :: "int option"

record memory_document_decision =
  dd_decision :: memory_decision
  dd_content_hash :: string
  dd_summary_hash :: string
  dd_dedup_key :: string

record memory_access_target =
  at_scope_type :: runes
  at_scope_key :: runes
  at_visibility :: runes
  at_user_id :: "nat option"
  at_org_id :: "nat option"

record memory_scope_input =
  si_scope_type :: runes
  si_user_id :: "nat option"
  si_org_id :: "nat option"

record memory_ttl_hint =
  th_kind :: runes
  th_value :: int
  th_unit :: runes
  th_until_date :: runes

record memory_fact_candidate =
  fc_scope_type :: runes
  fc_user_id :: "nat option"
  fc_org_id :: "nat option"
  fc_namespace :: runes
  fc_fact_key :: runes
  fc_fact_value_json :: runes
  fc_summary :: runes
  fc_confidence :: rat
  fc_ttl_hint :: "memory_ttl_hint option"
  fc_source_kind :: runes
  fc_source_id :: runes
  fc_low_value :: bool
  fc_truth_conflict :: bool

record memory_document_candidate =
  dc_scope_type :: runes
  dc_user_id :: "nat option"
  dc_org_id :: "nat option"
  dc_memory_type :: runes
  dc_topic :: runes
  dc_title :: runes
  dc_summary :: runes
  dc_content_text :: runes
  dc_confidence :: rat
  dc_ttl_hint :: "memory_ttl_hint option"
  dc_source_kind :: runes
  dc_source_id :: runes
  dc_low_value :: bool
  dc_truth_conflict :: bool

record memory_fact_version =
  fv_value_json :: runes
  fv_source_kind :: runes

definition allow_decision :: "memory_reason \<Rightarrow> memory_decision" where
  "allow_decision r = \<lparr>de_allowed = True, de_reason = r\<rparr>"

definition deny_decision :: "memory_reason \<Rightarrow> memory_decision" where
  "deny_decision r = \<lparr>de_allowed = False, de_reason = r\<rparr>"

definition deny_scope_decision :: "memory_reason \<Rightarrow> memory_scope_decision" where
  "deny_scope_decision r =
     \<lparr>sd_decision = deny_decision r, sd_scope_type = [], sd_scope_key = [], sd_user_id = None, sd_org_id = None\<rparr>"

definition deny_document_decision :: "memory_reason \<Rightarrow> memory_document_decision" where
  "deny_document_decision r =
     \<lparr>dd_decision = deny_decision r, dd_content_hash = [], dd_summary_hash = [], dd_dedup_key = []\<rparr>"

subsection \<open>Scope and visibility\<close>

definition is_approved_org_scope :: "nat \<Rightarrow> memory_access_context \<Rightarrow> bool" where
  "is_approved_org_scope oid acc \<longleftrightarrow>
     list_ex (\<lambda>i. i = oid) (ac_approved_org_ids acc)
     \<or> list_ex (\<lambda>k. trim_text k = build_org_memory_scope_key oid) (ac_approved_org_scope_keys acc)"

definition resolve_scope :: "memory_scope_input \<Rightarrow> memory_access_context \<Rightarrow> memory_scope_decision" where
  "resolve_scope inp acc =
    (let uid = pr_user_id (ac_principal acc) in
     if si_scope_type inp = memory_scope_self then
       (if uid = 0 then deny_scope_decision DenyPermissionDependencyMissing
        else (case si_user_id inp of
            Some u \<Rightarrow>
              if 0 < u \<and> u \<noteq> uid then deny_scope_decision DenyScopeMismatch
              else \<lparr>sd_decision = allow_decision AllowSelfScope, sd_scope_type = memory_scope_self,
                    sd_scope_key = build_self_memory_scope_key (if 0 < u then u else uid),
                    sd_user_id = Some (if 0 < u then u else uid), sd_org_id = None\<rparr>
          | None \<Rightarrow>
              \<lparr>sd_decision = allow_decision AllowSelfScope, sd_scope_type = memory_scope_self,
               sd_scope_key = build_self_memory_scope_key uid, sd_user_id = Some uid, sd_org_id = None\<rparr>))
     else if si_scope_type inp = memory_scope_org then
       (case si_org_id inp of
          None \<Rightarrow> deny_scope_decision DenyPermissionDependencyMissing
        | Some oid \<Rightarrow>
            if oid = 0 then deny_scope_decision DenyPermissionDependencyMissing
            else if ac_approved_org_scope_keys acc = [] \<and> ac_approved_org_ids acc = []
              then deny_scope_decision DenyPermissionDependencyMissing
            else if \<not> is_approved_org_scope oid acc then deny_scope_decision DenyNotInApprovedOrgScope
            else \<lparr>sd_decision = allow_decision AllowOrgScope, sd_scope_type = memory_scope_org,
                  sd_scope_key = build_org_memory_scope_key oid,
                  sd_user_id = si_user_id inp, sd_org_id = Some oid\<rparr>)
     else if si_scope_type inp = memory_scope_platform_ops then
       (if \<not> ac_allow_platform_ops acc then deny_scope_decision DenyPermissionDependencyMissing
        else if \<not> pr_is_super_admin (ac_principal acc) then deny_scope_decision DenyNotSuperAdmin
        else \<lparr>sd_decision = allow_decision AllowPlatformOpsScope, sd_scope_type = memory_scope_platform_ops,
              sd_scope_key = build_platform_ops_memory_scope_key,
              sd_user_id = si_user_id inp, sd_org_id = None\<rparr>)
     else deny_scope_decision DenyScopeMismatch)"

definition resolve_visibility :: "memory_scope_decision \<Rightarrow> memory_visibility_decision" where
  "resolve_visibility sd =
    (if \<not> de_allowed (sd_decision sd) then \<lparr>vd_decision = sd_decision sd, vd_visibility = []\<rparr>
     else if sd_scope_type sd = memory_scope_self
       then \<lparr>vd_decision = allow_decision AllowSelfScope, vd_visibility = memory_visibility_self\<rparr>
     else if sd_scope_type sd = memory_scope_org
       then \<lparr>vd_decision = allow_decision AllowOrgScope, vd_visibility = memory_visibility_org\<rparr>
     else if sd_scope_type sd = memory_scope_platform_ops
       then \<lparr>vd_decision = allow_decision AllowPlatformOpsScope, vd_visibility = memory_visibility_super_admin\<rparr>
     else \<lparr>vd_decision = deny_decision DenyVisibilityMismatch, vd_visibility = []\<rparr>)"

definition evaluate_memory_access :: "memory_access_target \<Rightarrow> memory_access_context \<Rightarrow> memory_decision" where
  "evaluate_memory_access t acc =
    (let uid = pr_user_id (ac_principal acc) in
     if at_scope_type t = memory_scope_self then
       (case at_user_id t of
          None \<Rightarrow> deny_decision DenyPermissionDependencyMissing
        | Some u \<Rightarrow>
            if uid = 0 \<or> u = 0 then deny_decision DenyPermissionDependencyMissing
            else if trim_text (at_scope_key t) \<noteq> build_self_memory_scope_key u \<or> u \<noteq> uid
              then deny_decision DenyScopeMismatch
            else if at_visibility t \<noteq> memory_visibility_self then deny_decision DenyVisibilityMismatch
            else allow_decision AllowSelfScope)
     else if at_scope_type t = memory_scope_org then
       (case at_org_id t of
          None \<Rightarrow> deny_decision DenyPermissionDependencyMissing
        | Some oid \<Rightarrow>
            if oid = 0 \<or> trim_text (at_scope_key t) = [] then deny_decision DenyPermissionDependencyMissing
            else if ac_approved_org_scope_keys acc = [] \<and> ac_approved_org_ids acc = []
              then deny_decision DenyPermissionDependencyMissing
            else if at_scope_key t \<noteq> build_org_memory_scope_key oid then deny_decision DenyScopeMismatch
            else if at_visibility t \<noteq> memory_visibility_org then deny_decision DenyVisibilityMismatch
            else if \<not> is_approved_org_scope oid acc then deny_decision DenyNotInApprovedOrgScope
            else allow_decision AllowOrgScope)
     else if at_scope_type t = memory_scope_platform_ops then
       (if \<not> ac_allow_platform_ops acc then deny_decision DenyPermissionDependencyMissing
        else if \<not> pr_is_super_admin (ac_principal acc) then deny_decision DenyNotSuperAdmin
        else if at_scope_key t \<noteq> build_platform_ops_memory_scope_key then deny_decision DenyScopeMismatch
        else if at_visibility t \<noteq> memory_visibility_super_admin then deny_decision DenyVisibilityMismatch
        else allow_decision AllowPlatformOpsScope)
     else deny_decision DenyScopeMismatch)"

definition can_read_memory :: "memory_access_target \<Rightarrow> memory_access_context \<Rightarrow> memory_decision" where
  "can_read_memory t acc = evaluate_memory_access t acc"

definition can_write_memory :: "memory_access_target \<Rightarrow> memory_access_context \<Rightarrow> memory_decision" where
  "can_write_memory t acc = evaluate_memory_access t acc"

definition new_memory_access_target ::
    "memory_scope_decision \<Rightarrow> memory_visibility_decision \<Rightarrow> memory_access_target" where
  "new_memory_access_target sd vd =
     \<lparr>at_scope_type = sd_scope_type sd, at_scope_key = sd_scope_key sd, at_visibility = vd_visibility vd,
      at_user_id = sd_user_id sd, at_org_id = sd_org_id sd\<rparr>"
subsection \<open>Admission\<close>

definition is_forbidden_memory_source :: "runes \<Rightarrow> bool" where
  "is_forbidden_memory_source src \<longleftrightarrow> src = src_raw_trace_payload \<or> src = src_full_tool_output"

definition minimum_memory_candidate_confidence :: rat where
  "minimum_memory_candidate_confidence = 1 / 2"

definition is_memory_confidence_too_low :: "rat \<Rightarrow> bool" where
  "is_memory_confidence_too_low c \<longleftrightarrow> 0 < c \<and> c < minimum_memory_candidate_confidence"

definition is_session_only_ttl_hint :: "memory_ttl_hint option \<Rightarrow> bool" where
  "is_session_only_ttl_hint h = (case h of None \<Rightarrow> False | Some t \<Rightarrow> th_kind t = hint_session_only)"

definition should_store_fact :: "memory_fact_candidate \<Rightarrow> memory_access_context \<Rightarrow> memory_decision" where
  "should_store_fact c acc =
    (let sd = resolve_scope \<lparr>si_scope_type = fc_scope_type c, si_user_id = fc_user_id c, si_org_id = fc_org_id c\<rparr> acc;
         vd = resolve_visibility sd;
         wd = can_write_memory (new_memory_access_target sd vd) acc in
     if is_forbidden_memory_source (fc_source_kind c) then deny_decision DenyForbiddenSource
     else if fc_truth_conflict c then deny_decision DenyTruthConflict
     else if fc_low_value c \<or> trim_text (fc_namespace c) = [] \<or> trim_text (fc_fact_key c) = []
        \<or> trim_text (fc_fact_value_json c) = [] \<or> is_memory_confidence_too_low (fc_confidence c)
        \<or> is_session_only_ttl_hint (fc_ttl_hint c) then deny_decision DenyLowValueContent
     else if \<not> de_allowed (sd_decision sd) then sd_decision sd
     else if \<not> de_allowed (vd_decision vd) then vd_decision vd
     else if \<not> de_allowed wd then wd
     else allow_decision AllowStoreFact)"

definition build_memory_document_summary_hash :: "mem_env \<Rightarrow> runes \<Rightarrow> string" where
  "build_memory_document_summary_hash env s = hash_memory_value (me_sha256_hex env) (normalize_memory_text s)"

definition build_memory_document_dedup_key ::
    "mem_env \<Rightarrow> runes \<Rightarrow> runes \<Rightarrow> runes \<Rightarrow> runes \<Rightarrow> runes \<Rightarrow> string" where
  "build_memory_document_dedup_key env src sid topic summary content =
    (let k = normalize_memory_text src; i = normalize_memory_text sid; t = normalize_memory_text topic;
         sh = build_memory_document_summary_hash env summary;
         ch = build_memory_document_content_hash (me_sha256_hex env) content in
     if k \<noteq> [] \<and> i \<noteq> [] \<and> t \<noteq> []
       then ''src:'' @ hash_memory_value (me_sha256_hex env) (to_lower_text env (join_text [10] [k, i, t]))
     else if sh \<noteq> [] then ''summary:'' @ sh
     else if ch \<noteq> [] then ''content:'' @ ch
     else [])"

definition should_store_document ::
    "mem_env \<Rightarrow> memory_document_candidate \<Rightarrow> memory_access_context \<Rightarrow> memory_document_decision" where
  "should_store_document env c acc =
    (let sd = resolve_scope \<lparr>si_scope_type = dc_scope_type c, si_user_id = dc_user_id c, si_org_id = dc_org_id c\<rparr> acc;
         vd = resolve_visibility sd;
         wd = can_write_memory (new_memory_access_target sd vd) acc;
         dedup = build_memory_document_dedup_key env (dc_source_kind c) (dc_source_id c) (dc_topic c)
                   (dc_summary c) (dc_content_text c) in
     if dc_memory_type c = memory_type_session_summary then deny_document_decision DenyForbiddenSource
     else if is_forbidden_memory_source (dc_source_kind c) then deny_document_decision DenyForbiddenSource
     else if dc_truth_conflict c then deny_document_decision DenyTruthConflict
     else if dc_low_value c \<or> (trim_text (dc_summary c) = [] \<and> trim_text (dc_content_text c) = [])
        \<or> is_memory_confidence_too_low (dc_confidence c) \<or> is_session_only_ttl_hint (dc_ttl_hint c)
       then deny_document_decision DenyLowValueContent
     else if \<not> de_allowed (sd_decision sd) then deny_document_decision (de_reason (sd_decision sd))
     else if \<not> de_allowed (vd_decision vd) then deny_document_decision (de_reason (vd_decision vd))
     else if \<not> de_allowed wd then deny_document_decision (de_reason wd)
     else if dedup = [] then deny_document_decision DenyDuplicateDocument
     else \<lparr>dd_decision = allow_decision AllowStoreDocument,
           dd_content_hash = build_memory_document_content_hash (me_sha256_hex env) (dc_content_text c),
           dd_summary_hash = build_memory_document_summary_hash env (dc_summary c),
           dd_dedup_key = dedup\<rparr>)"

subsection \<open>Time to live\<close>

definition day_ns :: int where "day_ns = 24 * 3600 * 1000000000"

definition days_after :: "int \<Rightarrow> int \<Rightarrow> int" where
  "days_after now d = now + d * day_ns"

definition ttl_persistent_allowed :: "runes \<Rightarrow> runes \<Rightarrow> bool" where
  "ttl_persistent_allowed namespace memory_type =
    (if namespace = ns_user_preference \<or> namespace = ns_org_profile \<or> namespace = ns_ops_incident
        \<or> namespace = ns_ops_runbook then True
     else if namespace = [] then memory_type \<noteq> memory_type_session_summary
     else False)"

definition ttl_duration_bounds :: "runes \<Rightarrow> runes \<Rightarrow> (int \<times> int) option" where
  "ttl_duration_bounds namespace memory_type =
    (if namespace = ns_oj_goal then Some (1, 90)
     else if namespace = ns_oj_profile then Some (7, 180)
     else if namespace = ns_org_learning then Some (1, 60)
     else if namespace = [] then
       (if memory_type = memory_type_episodic then Some (1, 180)
        else if memory_type = memory_type_incident \<or> memory_type = memory_type_procedural then Some (7, 365)
        else None)
     else None)"

definition ttl_hint_duration_days :: "mem_env \<Rightarrow> memory_ttl_hint \<Rightarrow> int option" where
  "ttl_hint_duration_days env h =
    (let u = to_lower_text env (trim_text (th_unit h)) in
     if th_value h \<le> 0 then None
     else if u = [] \<or> u = ascii ''day'' \<or> u = ascii ''days'' \<or> u = ascii ''d'' then Some (th_value h)
     else None)"

definition clamp_memory_ttl_days :: "int \<Rightarrow> int \<Rightarrow> int \<Rightarrow> int" where
  "clamp_memory_ttl_days d lo hi = (if d < lo then lo else if d > hi then hi else d)"

text \<open>\<open>time.Parse("2006-01-02", value)\<close>: four, two and two digits; midnight UTC as Unix time.\<close>

definition digits_value :: "runes \<Rightarrow> int" where
  "digits_value ds = foldl (\<lambda>a d. 10 * a + (int d - 48)) 0 ds"

definition is_leap_year :: "int \<Rightarrow> bool" where
  "is_leap_year y \<longleftrightarrow> y mod 4 = 0 \<and> (y mod 100 \<noteq> 0 \<or> y mod 400 = 0)"

definition days_in_month :: "int \<Rightarrow> int \<Rightarrow> int" where
  "days_in_month m y =
    (if m = 2 then (if is_leap_year y then 29 else 28)
     else if m = 4 \<or> m = 6 \<or> m = 9 \<or> m = 11 then 30 else 31)"

definition days_before_year :: "int \<Rightarrow> int" where
  "days_before_year y = 365 * y + (y + 3) div 4 - (y + 99) div 100 + (y + 399) div 400"

definition civil_days :: "int \<Rightarrow> int \<Rightarrow> int \<Rightarrow> int" where
  "civil_days y m d =
     days_before_year y - days_before_year 1970
     + (\<Sum>k \<leftarrow> [1..m - 1]. days_in_month k y) + (d - 1)"

definition parse_date :: "runes \<Rightarrow> int option" where
  "parse_date s =
    (if length s = 10 \<and> s ! 4 = 45 \<and> s ! 7 = 45
        \<and> list_all is_digit_rune (take 4 s @ take 2 (drop 5 s) @ drop 8 s)
     then let y = digits_value (take 4 s); m = digits_value (take 2 (drop 5 s)); d = digits_value (drop 8 s)
          in if 1 \<le> m \<and> m \<le> 12 \<and> 1 \<le> d \<and> d \<le> days_in_month m y
             then Some (civil_days y m d * day_ns) else None
     else None)"

definition parse_ttl_hint_until_date :: "mem_env \<Rightarrow> runes \<Rightarrow> int option" where
  "parse_ttl_hint_until_date env v =
    (let value = trim_text v in
     if value = [] then None
     else (case parse_date value of Some t \<Rightarrow> Some t | None \<Rightarrow> me_parse_rfc3339 env value))"

text \<open>\<open>Sub\<close> saturates at the largest duration; \<open>math.Ceil\<close> of the quotient by a day.\<close>

definition max_duration :: int where "max_duration = 2 ^ 63 - 1"

definition days_until :: "int \<Rightarrow> int \<Rightarrow> int" where
  "days_until now t = - ((- min (t - now) max_duration) div day_ns)"

definition default_memory_ttl_decision :: "int \<Rightarrow> runes \<Rightarrow> runes \<Rightarrow> memory_ttl_decision" where
  "default_memory_ttl_decision now namespace memory_type =
    (let ns = trim_text namespace;
         persistent = \<lparr>td_decision = allow_decision AllowTTLPersistent, td_expires_at = None\<rparr>;
         expiring = (\<lambda>d. \<lparr>td_decision = allow_decision AllowTTLExpiring, td_expires_at = Some (days_after now d)\<rparr>) in
     if ns = ns_user_preference \<or> ns = ns_org_profile \<or> ns = ns_ops_incident \<or> ns = ns_ops_runbook then persistent
     else if ns = ns_oj_goal then expiring 30
     else if ns = ns_oj_profile then expiring 60
     else if ns = ns_org_learning then expiring 14
     else persistent)"

definition resolve_ttl_hint ::
    "mem_env \<Rightarrow> int \<Rightarrow> runes \<Rightarrow> runes \<Rightarrow> memory_ttl_hint option \<Rightarrow> memory_ttl_decision option" where
  "resolve_ttl_hint env now namespace memory_type hint = (case hint of None \<Rightarrow> None | Some h \<Rightarrow>
    (let kind = trim_text (th_kind h);
         accept = (\<lambda>d. Some \<lparr>td_decision = allow_decision AllowTTLExpiring, td_expires_at = Some (days_after now d)\<rparr>) in
     if kind = [] \<or> kind = hint_default then None
     else if kind = hint_session_only then None
     else if kind = hint_persistent then
       (if ttl_persistent_allowed namespace memory_type
        then Some \<lparr>td_decision = allow_decision AllowTTLPersistent, td_expires_at = None\<rparr> else None)
     else (case ttl_duration_bounds namespace memory_type of
         None \<Rightarrow> None
       | Some (lo, hi) \<Rightarrow>
           if kind = hint_duration then
             (case ttl_hint_duration_days env h of
                None \<Rightarrow> None | Some d \<Rightarrow> accept (clamp_memory_ttl_days d lo hi))
           else if kind = hint_until_date then
             (case parse_ttl_hint_until_date env (th_until_date h) of
                None \<Rightarrow> None
              | Some t \<Rightarrow> if \<not> now < t then None
                           else accept (clamp_memory_ttl_days (days_until now t) lo hi))
           else None)))"

definition resolve_ttl ::
    "mem_env \<Rightarrow> int \<Rightarrow> runes \<Rightarrow> runes \<Rightarrow> memory_ttl_hint option \<Rightarrow> memory_ttl_decision" where
  "resolve_ttl env now namespace memory_type hint =
    (case resolve_ttl_hint env now (trim_text namespace) memory_type hint of
       Some d \<Rightarrow> d | None \<Rightarrow> default_memory_ttl_decision now namespace memory_type)"

subsection \<open>Overriding\<close>

definition private_memory_source_priority :: "runes \<Rightarrow> nat" where
  "private_memory_source_priority src =
    (if src = src_explicit_user_statement then 4 else if src = src_admin_set then 3
     else if src = src_tool_verified_summary then 2 else if src = src_model_inferred then 1 else 0)"

definition public_memory_source_priority :: "runes \<Rightarrow> nat" where
  "public_memory_source_priority src =
    (if src = src_admin_set then 4 else if src = src_explicit_user_statement then 3
     else if src = src_tool_verified_summary then 2 else if src = src_model_inferred then 1 else 0)"

definition memory_source_priority :: "runes \<Rightarrow> runes \<Rightarrow> runes \<Rightarrow> nat" where
  "memory_source_priority scope_type namespace src =
    (if scope_type = memory_scope_org \<or> scope_type = memory_scope_platform_ops
       then public_memory_source_priority src
     else if scope_type = memory_scope_self then
       (if trim_text namespace = ns_user_preference then private_memory_source_priority src
        else private_memory_source_priority src)
     else private_memory_source_priority src)"

definition override_reason_code :: "runes \<Rightarrow> memory_reason" where
  "override_reason_code src =
    (if src = src_explicit_user_statement then OverrideExplicitUserStatement
     else if src = src_admin_set then OverrideAdminSet else AllowSamePriority)"

definition should_override_fact ::
    "memory_fact_version \<Rightarrow> memory_fact_version \<Rightarrow> runes \<Rightarrow> runes \<Rightarrow> memory_decision" where
  "should_override_fact current candidate scope_type namespace =
    (let cur = trim_text (fv_value_json current); cand = trim_text (fv_value_json candidate);
         cp = memory_source_priority scope_type namespace (fv_source_kind current);
         np = memory_source_priority scope_type namespace (fv_source_kind candidate) in
     if cand = [] then deny_decision DenyLowValueContent
     else if cur = cand then deny_decision SkipSameValue
     else if np < cp then deny_decision SkipLowerPrioritySource
     else if np > cp then allow_decision (override_reason_code (fv_source_kind candidate))
     else allow_decision AllowSamePriority)"

end
