(* ===== verification/Memory_Store.thy ===== *)
theory Memory_Store
  imports Memory_Policy Row_Table
begin

text \<open>
  The memory tables and their repository (\<open>internal/model/entity/ai_memory_fact.go\<close>,
  \<open>ai_memory_document.go\<close>, \<open>ai_memory_document_chunk.go\<close>, \<open>ai_conversation_summary.go\<close>,
  \<open>internal/repository/system/aiMemoryRepo.go\<close>). A table is the list of its rows in insertion
  order. A repository method is first a function on the rows; \<open>mem_read\<close> and \<open>mem_write\<close> turn it
  into a call, which takes one step of the world: a read is answered or refused, a write is answered,
  refused, or carried out with its answer lost. The clock is read at the step a call has reached, so
  time may pass between any two calls. Column widths and the collation of the database are not
  modelled: strings are compared exactly.
  The column \<open>qdrant_point_id\<close> of a document, which no code fills, is left out.
\<close>

record ai_memory_fact =
  af_id :: nat
  af_scope_key :: runes
  af_scope_type :: runes
  af_visibility :: runes
  af_user_id :: "nat option"
  af_org_id :: "nat option"
  af_namespace :: runes
  af_fact_key :: runes
  af_fact_value_json :: runes
  af_summary :: runes
  af_confidence :: rat
  af_source_kind :: runes
  af_source_id :: runes
  af_effective_at :: "int option"
  af_expires_at :: "int option"
  af_created_at :: int
  af_updated_at :: int

record ai_memory_document =
  am_id :: runes
  am_scope_key :: runes
  am_scope_type :: runes
  am_visibility :: runes
  am_user_id :: "nat option"
  am_org_id :: "nat option"
  am_memory_type :: runes
  am_topic :: runes
  am_title :: runes
  am_summary :: runes
  am_content_text :: runes
  am_content_hash :: string
  am_summary_hash :: string
  am_dedup_key :: string
  am_importance :: rat
  am_quality_score :: rat
  am_embedding_model :: runes
  am_source_kind :: runes
  am_source_id :: runes
  am_effective_at :: "int option"
  am_expires_at :: "int option"
  am_created_at :: int
  am_updated_at :: int
  am_deleted_at :: "int option"

record ai_memory_document_chunk =
  ak_id :: string
  ak_document_id :: runes
  ak_scope_key :: runes
  ak_scope_type :: runes
  ak_visibility :: runes
  ak_user_id :: "nat option"
  ak_org_id :: "nat option"
  ak_memory_type :: runes
  ak_topic :: runes
  ak_chunk_index :: int
  ak_content_text :: runes
  ak_content_hash :: string
  ak_token_estimate :: int
  ak_embedding_model :: runes
  ak_embedding_dimension :: int
  ak_qdrant_point_id :: runes
  ak_indexed_at :: "int option"
  ak_created_at :: int
  ak_updated_at :: int

record ai_conversation_summary =
  as_conversation_id :: runes
  as_user_id :: nat
  as_org_id :: "nat option"
  as_scope_key :: runes
  as_compressed_until :: runes
  as_summary_text :: runes
  as_key_points_json :: runes
  as_open_loops_json :: runes
  as_token_estimate :: int
  as_created_at :: "int option"
  as_updated_at :: int

record ai_message =
  ms_id :: runes
  ms_conversation_id :: runes
  ms_role :: runes
  ms_content :: runes
  ms_status :: runes
  ms_created_at :: int

text \<open>The calls that reached the vector database, in order; its contents are not modelled.\<close>

datatype vector_call =
    VectorDelete runes
  | VectorUpsert "(memory_document_chunk \<times> rat list) list"

datatype mem_fate = MemAnswered | MemRefused | MemUnanswered

record mem_world =
  mw_facts :: "ai_memory_fact list"
  mw_docs :: "ai_memory_document list"
  mw_chunks :: "ai_memory_document_chunk list"
  mw_summaries :: "ai_conversation_summary list"
  mw_messages :: "ai_message list"
  mw_vectors :: "vector_call list"
  mw_step :: nat
  mw_clock :: "nat \<Rightarrow> int"
  mw_fate :: "nat \<Rightarrow> mem_fate"

text \<open>\<open>MemNoReturn\<close> is no error of the code: it marks a run that does not return.\<close>

datatype mem_error =
    MemRepoError | MemInvalidDocument | MemExtractError | MemEmbedError | MemVectorError
  | MemCancelled | MemNoReturn

type_synonym 'a mem = "(mem_world, mem_error, 'a) svc"

definition mem_now :: "mem_world \<Rightarrow> int" where
  "mem_now w = mw_clock w (mw_step w)"

definition mem_tick :: "mem_world \<Rightarrow> mem_world" where
  "mem_tick w = w\<lparr>mw_step := Suc (mw_step w)\<rparr>"

definition mem_read :: "(mem_world \<Rightarrow> 'a) \<Rightarrow> 'a mem" where
  "mem_read f w =
     (if mw_fate w (mw_step w) = MemAnswered then (Inr (f w), mem_tick w) else (Inl MemRepoError, mem_tick w))"

definition mem_write :: "(mem_world \<Rightarrow> mem_world) \<Rightarrow> unit mem" where
  "mem_write f w = (case mw_fate w (mw_step w) of
       MemAnswered \<Rightarrow> (Inr (), mem_tick (f w))
     | MemRefused \<Rightarrow> (Inl MemRepoError, mem_tick w)
     | MemUnanswered \<Rightarrow> (Inl MemRepoError, mem_tick (f w)))"

definition unexpired :: "int \<Rightarrow> int option \<Rightarrow> bool" where
  "unexpired now e = (case e of None \<Rightarrow> True | Some t \<Rightarrow> now < t)"

definition take_limit :: "int \<Rightarrow> 'a list \<Rightarrow> 'a list" where
  "take_limit n xs = (if 0 < n then take (nat n) xs else xs)"

subsection \<open>Facts\<close>

definition fact_ident :: "ai_memory_fact \<Rightarrow> runes \<times> runes \<times> runes" where
  "fact_ident f = (af_scope_key f, af_namespace f, af_fact_key f)"

definition next_fact_id :: "ai_memory_fact list \<Rightarrow> nat" where
  "next_fact_id fs = Suc (fold (\<lambda>f m. max (af_id f) m) fs 0)"

definition fact_overwrite :: "int \<Rightarrow> ai_memory_fact \<Rightarrow> ai_memory_fact \<Rightarrow> ai_memory_fact" where
  "fact_overwrite now new old =
     new\<lparr>af_id := af_id old, af_created_at := af_created_at old, af_updated_at := now\<rparr>"

definition upsert_fact :: "int \<Rightarrow> ai_memory_fact \<Rightarrow> ai_memory_fact list \<Rightarrow> ai_memory_fact list" where
  "upsert_fact now f fs = (case row_get fact_ident fs (fact_ident f) of
       Some old \<Rightarrow> row_put fact_ident (fact_overwrite now f old) fs
     | None \<Rightarrow> fs @ [f\<lparr>af_id := next_fact_id fs\<rparr>])"

record memory_fact_query =
  fq_scope_keys :: "runes list"
  fq_allowed_visibilities :: "runes list"
  fq_namespaces :: "runes list"
  fq_namespace :: runes
  fq_fact_keys :: "runes list"
  fq_limit :: int

definition normalize_memory_visibilities :: "runes list \<Rightarrow> runes list" where
  "normalize_memory_visibilities vs = filter (\<lambda>v. v \<noteq> []) (map trim_text vs)"

definition list_facts :: "int \<Rightarrow> memory_fact_query \<Rightarrow> ai_memory_fact list \<Rightarrow> ai_memory_fact list" where
  "list_facts now q fs =
    (if fq_scope_keys q = [] \<or> fq_allowed_visibilities q = [] then []
     else take_limit (fq_limit q) (sort_key (\<lambda>f. - af_updated_at f)
       (filter (\<lambda>f. af_scope_key f \<in> set (fq_scope_keys q)
           \<and> af_visibility f \<in> set (normalize_memory_visibilities (fq_allowed_visibilities q))
           \<and> unexpired now (af_expires_at f)
           \<and> (if fq_namespaces q \<noteq> [] then af_namespace f \<in> set (fq_namespaces q)
              else fq_namespace q = [] \<or> af_namespace f = fq_namespace q)
           \<and> (fq_fact_keys q = [] \<or> af_fact_key f \<in> set (fq_fact_keys q))) fs)))"

subsection \<open>Documents\<close>

definition build_scoped_document_dedup_identity :: "runes \<Rightarrow> runes \<Rightarrow> runes" where
  "build_scoped_document_dedup_identity scope_key dedup_key = trim_text scope_key @ [10] @ trim_text dedup_key"

definition normalize_memory_document_metadata ::
    "mem_env \<Rightarrow> ai_memory_document \<Rightarrow> mem_error + ai_memory_document" where
  "normalize_memory_document_metadata env d =
    (let d1 = d\<lparr>am_scope_key := trim_text (am_scope_key d), am_id := trim_text (am_id d),
               am_topic := trim_text (am_topic d), am_source_id := trim_text (am_source_id d)\<rparr>;
         d2 = d1\<lparr>am_content_hash := build_memory_document_content_hash (me_sha256_hex env) (am_content_text d1),
                am_summary_hash := build_memory_document_summary_hash env (am_summary d1),
                am_dedup_key := build_memory_document_dedup_key env (am_source_kind d1) (am_source_id d1)
                                  (am_topic d1) (am_summary d1) (am_content_text d1)\<rparr> in
     if am_scope_key d1 = [] \<or> am_id d1 = [] then Inl MemInvalidDocument
     else if am_dedup_key d2 = [] then Inl MemInvalidDocument
     else Inr d2)"

definition document_ident :: "ai_memory_document \<Rightarrow> runes \<times> string" where
  "document_ident d = (am_scope_key d, am_dedup_key d)"

text \<open>The loop over the batch: a later document of the same identity takes the earlier one's place.\<close>

definition document_batch_key :: "ai_memory_document \<Rightarrow> runes" where
  "document_batch_key d = build_scoped_document_dedup_identity (am_scope_key d) (ascii (am_dedup_key d))"

fun dedup_documents ::
    "mem_env \<Rightarrow> ai_memory_document list \<Rightarrow> ai_memory_document list \<Rightarrow> mem_error + ai_memory_document list" where
  "dedup_documents env acc [] = Inr acc"
| "dedup_documents env acc (d # ds) = (case normalize_memory_document_metadata env d of
     Inl e \<Rightarrow> Inl e
   | Inr d' \<Rightarrow> dedup_documents env (row_put document_batch_key d' acc) ds)"

text \<open>\<open>Unscoped\<close>: a soft-deleted document is found too, and revived by the upsert.\<close>

definition find_existing_document_id :: "runes \<Rightarrow> string \<Rightarrow> ai_memory_document list \<Rightarrow> runes option" where
  "find_existing_document_id scope_key dedup_key ds =
     map_option am_id (find (\<lambda>d. am_scope_key d = scope_key \<and> am_dedup_key d = dedup_key) ds)"

definition document_overwrite :: "int \<Rightarrow> ai_memory_document \<Rightarrow> ai_memory_document \<Rightarrow> ai_memory_document" where
  "document_overwrite now new old =
     new\<lparr>am_created_at := am_created_at old, am_updated_at := now, am_deleted_at := None\<rparr>"

definition upsert_document :: "int \<Rightarrow> ai_memory_document \<Rightarrow> ai_memory_document list \<Rightarrow> ai_memory_document list" where
  "upsert_document now d ds = (case row_get am_id ds (am_id d) of
       Some old \<Rightarrow> row_put am_id (document_overwrite now d old) ds
     | None \<Rightarrow> ds @ [d])"

definition batch_upsert_documents :: "mem_env \<Rightarrow> ai_memory_document list \<Rightarrow> ai_memory_document list mem" where
  "batch_upsert_documents env ds =
    (if ds = [] then svc_return []
     else svc_bind (svc_lift (dedup_documents env [] ds)) (\<lambda>norm.
       svc_bind (svc_map (\<lambda>d. svc_bind (mem_read (\<lambda>w. find_existing_document_id (am_scope_key d) (am_dedup_key d) (mw_docs w)))
            (\<lambda>i. svc_return (case i of Some x \<Rightarrow> if x \<noteq> [] then d\<lparr>am_id := x\<rparr> else d | None \<Rightarrow> d))) norm)
       (\<lambda>rows. svc_bind (mem_write (\<lambda>w. w\<lparr>mw_docs := fold (upsert_document (mem_now w)) rows (mw_docs w)\<rparr>))
         (\<lambda>_. svc_return rows))))"

definition normalize_memory_document_ids :: "runes list \<Rightarrow> runes list" where
  "normalize_memory_document_ids ids = uniq_by id [] (filter (\<lambda>i. i \<noteq> []) (map trim_text ids))"

definition live_document :: "int \<Rightarrow> ai_memory_document \<Rightarrow> bool" where
  "live_document now d \<longleftrightarrow> am_deleted_at d = None \<and> unexpired now (am_expires_at d)"

definition list_documents_by_ids :: "int \<Rightarrow> runes list \<Rightarrow> ai_memory_document list \<Rightarrow> ai_memory_document list" where
  "list_documents_by_ids now ids ds =
     sort_key am_updated_at (filter (\<lambda>d. am_id d \<in> set (normalize_memory_document_ids ids) \<and> live_document now d) ds)"

definition needs_index :: "runes \<Rightarrow> int \<Rightarrow> ai_memory_document_chunk list \<Rightarrow> ai_memory_document \<Rightarrow> bool" where
  "needs_index embed_model dimension cs d =
    (let own = filter (\<lambda>c. ak_document_id c = am_id d) cs in
     own = [] \<or> list_ex (\<lambda>c. ak_embedding_model c \<noteq> embed_model \<or> ak_embedding_dimension c \<noteq> dimension) own
     \<or> am_updated_at d > fold (\<lambda>c m. case ak_indexed_at c of Some t \<Rightarrow> max t m | None \<Rightarrow> m) own 0)"

definition list_documents_needing_index ::
    "int \<Rightarrow> int \<Rightarrow> runes \<Rightarrow> int \<Rightarrow> ai_memory_document_chunk list \<Rightarrow> ai_memory_document list \<Rightarrow> ai_memory_document list" where
  "list_documents_needing_index now limit embed_model dimension cs ds =
    (if trim_text embed_model = [] \<or> dimension \<le> 0 then []
     else take_limit limit (sort_key am_updated_at
       (filter (\<lambda>d. am_content_text d \<noteq> [] \<and> live_document now d
           \<and> needs_index (trim_text embed_model) dimension cs d) ds)))"

subsection \<open>Chunks and summaries\<close>

definition replace_document_chunks ::
    "int \<Rightarrow> runes \<Rightarrow> ai_memory_document_chunk list \<Rightarrow> ai_memory_document_chunk list \<Rightarrow> ai_memory_document_chunk list" where
  "replace_document_chunks now document_id new cs =
    (let i = trim_text document_id in
     if i = [] then cs
     else filter (\<lambda>c. ak_document_id c \<noteq> i) cs
          @ map (\<lambda>c. c\<lparr>ak_document_id := i, ak_updated_at := now\<rparr>) new)"

definition live_chunk :: "int \<Rightarrow> ai_memory_document list \<Rightarrow> ai_memory_document_chunk \<Rightarrow> bool" where
  "live_chunk now ds c \<longleftrightarrow> list_ex (\<lambda>d. am_id d = ak_document_id c \<and> live_document now d) ds"

definition list_document_chunks_by_point_ids ::
    "int \<Rightarrow> runes list \<Rightarrow> ai_memory_document list \<Rightarrow> ai_memory_document_chunk list \<Rightarrow> ai_memory_document_chunk list" where
  "list_document_chunks_by_point_ids now ids ds cs =
     filter (\<lambda>c. ak_qdrant_point_id c \<in> set (normalize_memory_document_ids ids) \<and> live_chunk now ds c) cs"

definition normalize_memory_chunk_refs :: "(runes \<times> int) list \<Rightarrow> (runes \<times> int) list" where
  "normalize_memory_chunk_refs refs =
     uniq_by id [] (filter (\<lambda>(d, i). d \<noteq> [] \<and> 0 \<le> i) (map (\<lambda>(d, i). (trim_text d, i)) refs))"

definition list_document_chunks_by_refs ::
    "int \<Rightarrow> (runes \<times> int) list \<Rightarrow> ai_memory_document list \<Rightarrow> ai_memory_document_chunk list \<Rightarrow> ai_memory_document_chunk list" where
  "list_document_chunks_by_refs now refs ds cs =
     sort_key (\<lambda>c. (ak_document_id c, ak_chunk_index c)) (filter (\<lambda>c. (ak_document_id c, ak_chunk_index c) \<in> set (normalize_memory_chunk_refs refs)
       \<and> live_chunk now ds c) cs)"

definition get_conversation_summary ::
    "runes \<Rightarrow> nat \<Rightarrow> nat option \<Rightarrow> runes \<Rightarrow> ai_conversation_summary list \<Rightarrow> ai_conversation_summary option" where
  "get_conversation_summary conv uid oid scope_key ss =
    (if trim_text conv = [] \<or> uid = 0 \<or> trim_text scope_key = [] then None
     else find (\<lambda>s. as_conversation_id s = conv \<and> as_user_id s = uid \<and> as_scope_key s = scope_key
                  \<and> as_org_id s = oid) ss)"

definition summary_overwrite :: "int \<Rightarrow> ai_conversation_summary \<Rightarrow> ai_conversation_summary \<Rightarrow> ai_conversation_summary" where
  "summary_overwrite now new old = new\<lparr>as_created_at := as_created_at old, as_updated_at := now\<rparr>"

definition upsert_conversation_summary ::
    "int \<Rightarrow> ai_conversation_summary \<Rightarrow> ai_conversation_summary list \<Rightarrow> ai_conversation_summary list" where
  "upsert_conversation_summary now s ss = (case row_get as_conversation_id ss (as_conversation_id s) of
       Some old \<Rightarrow> row_put as_conversation_id (summary_overwrite now s old) ss
     | None \<Rightarrow> ss @ [s])"

text \<open>The message order of \<open>ListMessagesByConversation\<close>: by creation, user before assistant, by id.\<close>

definition role_rank :: "runes \<Rightarrow> nat" where
  "role_rank r = (if r = ascii ''user'' then 0 else if r = ascii ''assistant'' then 1 else 2)"

definition list_messages_by_conversation :: "runes \<Rightarrow> ai_message list \<Rightarrow> ai_message list" where
  "list_messages_by_conversation conv ms =
     sort_key (\<lambda>m. (ms_created_at m, role_rank (ms_role m), ms_id m)) (filter (\<lambda>m. ms_conversation_id m = conv) ms)"

end
