(* ===== verification/Memory_Writeback.thy ===== *)
theory Memory_Writeback
  imports Memory_Store
begin

text \<open>
  What is remembered of a completed turn
  (\<open>internal/service/system/aiMemoryWriteback.go\<close>): the conversation summary, the facts and the
  documents the extractor proposes, each through the policy. The extractor (a language model or its
  fallback) is an argument: any function from the recent messages and the refresh mode to a proposal
  or an error. Indexing of the stored documents runs later and on its own, see
  \<open>Memory_Index\<close>.
\<close>

subsection \<open>Configuration\<close>

record ai_memory_config =
  cf_enabled :: bool
  cf_enable_entity_memory :: bool
  cf_enable_long_term_memory :: bool
  cf_embed_model :: runes
  cf_embed_dimension :: int
  cf_chunk_max_chars :: int
  cf_chunk_overlap_chars :: int
  cf_index_batch_size :: int
  cf_summary_refresh_every_turns :: int
  cf_recall_top_k :: int
  cf_recall_max_chars :: int
  cf_recall_min_score :: rat
  cf_rag_max_chars :: int
  cf_recent_raw_turns :: int
  cf_recent_raw_token_budget :: int
  cf_compress_threshold_tokens :: int

text \<open>The pointer \<open>global.Config\<close>, nil before the configuration is loaded.\<close>

type_synonym conf = "ai_memory_config option"

definition ai_memory_enabled :: "conf \<Rightarrow> bool" where
  "ai_memory_enabled g = (case g of None \<Rightarrow> False | Some c \<Rightarrow> cf_enabled c)"

definition ai_memory_entity_enabled :: "conf \<Rightarrow> bool" where
  "ai_memory_entity_enabled g = (case g of None \<Rightarrow> False | Some c \<Rightarrow> cf_enable_entity_memory c)"

definition ai_memory_long_term_enabled :: "conf \<Rightarrow> bool" where
  "ai_memory_long_term_enabled g = (case g of None \<Rightarrow> False | Some c \<Rightarrow> cf_enable_long_term_memory c)"

definition ai_memory_embed_model :: "conf \<Rightarrow> runes" where
  "ai_memory_embed_model g = (case g of
       None \<Rightarrow> ascii ''qwen3-vl-embedding''
     | Some c \<Rightarrow> if trim_text (cf_embed_model c) \<noteq> [] then trim_text (cf_embed_model c)
                 else ascii ''qwen3-vl-embedding'')"

definition positive_or :: "int \<Rightarrow> (ai_memory_config \<Rightarrow> int) \<Rightarrow> conf \<Rightarrow> int" where
  "positive_or d f g = (case g of None \<Rightarrow> d | Some c \<Rightarrow> if f c \<le> 0 then d else f c)"

definition ai_memory_embed_dimension :: "conf \<Rightarrow> int" where
  "ai_memory_embed_dimension = positive_or 1024 cf_embed_dimension"

definition ai_memory_chunk_max_chars :: "conf \<Rightarrow> int" where
  "ai_memory_chunk_max_chars = positive_or 1200 cf_chunk_max_chars"

definition ai_memory_chunk_overlap_chars :: "conf \<Rightarrow> int" where
  "ai_memory_chunk_overlap_chars g = (case g of
       None \<Rightarrow> 150 | Some c \<Rightarrow> if cf_chunk_overlap_chars c < 0 then 150 else cf_chunk_overlap_chars c)"

definition ai_memory_index_batch_size :: "conf \<Rightarrow> int" where
  "ai_memory_index_batch_size = positive_or 20 cf_index_batch_size"

definition ai_memory_summary_refresh_every_turns :: "conf \<Rightarrow> int" where
  "ai_memory_summary_refresh_every_turns = positive_or 10 cf_summary_refresh_every_turns"

subsection \<open>The turn\<close>

record ai_memory_writeback_input =
  wi_conversation_id :: runes
  wi_user_id :: nat
  wi_org_id :: "nat option"
  wi_user_message_id :: runes
  wi_assistant_message_id :: runes
  wi_principal :: ai_tool_principal

record domain_message =
  dm_id :: runes
  dm_role :: runes
  dm_content :: runes

record conversation_summary_draft =
  dr_compressed_until :: runes
  dr_summary_text :: runes
  dr_key_points_json :: runes
  dr_open_loops_json :: runes
  dr_token_estimate :: int

record memory_extraction_result =
  ex_summary :: "conversation_summary_draft option"
  ex_facts :: "memory_fact_candidate list"
  ex_documents :: "memory_document_candidate list"

datatype refresh_mode = HeadUpdate | FullRefresh

record memory_extraction_input =
  ei_principal :: ai_tool_principal
  ei_user_message :: domain_message
  ei_assistant_message :: domain_message
  ei_recent_messages :: "domain_message list"
  ei_previous_summary_text :: runes
  ei_refresh_mode :: refresh_mode

type_synonym extractor = "memory_extraction_input \<Rightarrow> memory_extraction_result option"

definition role_user :: runes where "role_user = ascii ''user''"
definition role_assistant :: runes where "role_assistant = ascii ''assistant''"
definition status_success :: runes where "status_success = ascii ''success''"

definition normalize_memory_principal :: "ai_memory_writeback_input \<Rightarrow> ai_tool_principal" where
  "normalize_memory_principal inp =
    (let p = wi_principal inp;
         p1 = (if pr_user_id p = 0 then p\<lparr>pr_user_id := wi_user_id inp\<rparr> else p)
     in if pr_current_org_id p1 = None then p1\<lparr>pr_current_org_id := wi_org_id inp\<rparr> else p1)"

definition build_memory_access_context :: "ai_memory_writeback_input \<Rightarrow> memory_access_context" where
  "build_memory_access_context inp =
     \<lparr>ac_principal = normalize_memory_principal inp, ac_approved_org_scope_keys = [],
      ac_approved_org_ids = [], ac_allow_platform_ops = False\<rparr>"

definition ai_entity_message_to_domain :: "ai_message \<Rightarrow> domain_message" where
  "ai_entity_message_to_domain m =
     \<lparr>dm_id = ms_id m,
      dm_role = (if trim_text (ms_role m) \<noteq> role_assistant then role_user else trim_text (ms_role m)),
      dm_content = ms_content m\<rparr>"

definition ai_entity_messages_to_domain :: "ai_message list \<Rightarrow> domain_message list" where
  "ai_entity_messages_to_domain ms =
     filter (\<lambda>m. trim_text (dm_content m) \<noteq> []) (map ai_entity_message_to_domain ms)"

definition select_messages_after_boundary ::
    "ai_message list \<Rightarrow> ai_conversation_summary option \<Rightarrow> ai_message list" where
  "select_messages_after_boundary ms previous =
    (let boundary = (case previous of None \<Rightarrow> [] | Some p \<Rightarrow> trim_text (as_compressed_until p)) in
     if boundary = [] then ms
     else if list_ex (\<lambda>m. ms_id m = boundary) ms
       then tl (dropWhile (\<lambda>m. ms_id m \<noteq> boundary) ms) else ms)"

definition count_completed_turns :: "ai_message list \<Rightarrow> int" where
  "count_completed_turns ms =
     int (length (filter (\<lambda>m. trim_text (ms_role m) = role_assistant \<and> ms_status m = status_success) ms))"

definition previous_summary_text :: "ai_conversation_summary option \<Rightarrow> runes" where
  "previous_summary_text p = (case p of None \<Rightarrow> [] | Some s \<Rightarrow> as_summary_text s)"

definition build_summary_refresh_input ::
    "conf \<Rightarrow> ai_message list \<Rightarrow> ai_conversation_summary option \<Rightarrow> refresh_mode \<times> domain_message list" where
  "build_summary_refresh_input g ms previous =
    (let recent = select_messages_after_boundary ms previous in
     (if previous = None \<or> trim_text (previous_summary_text previous) = [] then FullRefresh
      else if count_completed_turns recent \<ge> ai_memory_summary_refresh_every_turns g then FullRefresh
      else HeadUpdate,
      ai_entity_messages_to_domain recent))"

subsection \<open>The summary\<close>

definition normalize_context_line :: "runes \<Rightarrow> runes" where
  "normalize_context_line v = join_text [32] (text_fields (trim_text v))"

definition decode_summary_lines :: "mem_env \<Rightarrow> runes \<Rightarrow> runes list" where
  "decode_summary_lines env raw =
    (if trim_text raw = [] then []
     else (case me_json_decode env (trim_text raw) of
         None \<Rightarrow> []
       | Some items \<Rightarrow> filter (\<lambda>i. i \<noteq> []) (map normalize_context_line items)))"

fun merge_lines_loop :: "int \<Rightarrow> runes list \<Rightarrow> runes list \<Rightarrow> runes list" where
  "merge_lines_loop limit merged [] = merged"
| "merge_lines_loop limit merged (i # is) =
     (let item = trim_text i
      in if item = [] then merge_lines_loop limit merged is
         else if item \<in> set merged then merge_lines_loop limit merged is
         else let merged' = merged @ [item]
              in if 0 < limit \<and> int (length merged') \<ge> limit then merged'
                 else merge_lines_loop limit merged' is)"

definition merge_summary_json_list :: "mem_env \<Rightarrow> runes \<Rightarrow> runes \<Rightarrow> int \<Rightarrow> runes" where
  "merge_summary_json_list env base_json new_json limit =
    (let merged = merge_lines_loop limit [] (decode_summary_lines env new_json @ decode_summary_lines env base_json)
     in if merged = [] then ascii ''[]'' else me_json_encode env merged)"

definition default_memory_json_list :: "runes \<Rightarrow> runes" where
  "default_memory_json_list v = (if trim_text v = [] then ascii ''[]'' else v)"

definition build_conversation_summary_entity ::
    "mem_env \<Rightarrow> int \<Rightarrow> ai_memory_writeback_input \<Rightarrow> ai_conversation_summary option \<Rightarrow> refresh_mode
     \<Rightarrow> conversation_summary_draft option \<Rightarrow> ai_conversation_summary option" where
  "build_conversation_summary_entity env now inp previous mode draft =
    (let key = build_conversation_memory_scope_key (wi_user_id inp) (wi_org_id inp);
         base = \<lparr>as_conversation_id = wi_conversation_id inp, as_user_id = wi_user_id inp,
                 as_org_id = wi_org_id inp, as_scope_key = key, as_compressed_until = [],
                 as_summary_text = [], as_key_points_json = [], as_open_loops_json = [],
                 as_token_estimate = 0, as_created_at = Some now, as_updated_at = now\<rparr>;
         prev_text = (case previous of None \<Rightarrow> [] | Some p \<Rightarrow> trim_text (as_summary_text p));
         prev_until = (case previous of None \<Rightarrow> [] | Some p \<Rightarrow> trim_text (as_compressed_until p));
         draft_text = (case draft of None \<Rightarrow> [] | Some d \<Rightarrow> trim_text (dr_summary_text d));
         draft_until = (case draft of None \<Rightarrow> [] | Some d \<Rightarrow> trim_text (dr_compressed_until d)) in
     case mode of
       HeadUpdate \<Rightarrow>
         (if previous = None \<and> draft = None then None
          else let text = (if prev_text = [] then draft_text else prev_text)
               in Some (base\<lparr>
                 as_compressed_until := (if prev_until = [] then draft_until else prev_until),
                 as_summary_text := text,
                 as_key_points_json := merge_summary_json_list env
                   (case previous of None \<Rightarrow> [] | Some p \<Rightarrow> as_key_points_json p)
                   (case draft of None \<Rightarrow> [] | Some d \<Rightarrow> dr_key_points_json d) 8,
                 as_open_loops_json := merge_summary_json_list env
                   (case previous of None \<Rightarrow> [] | Some p \<Rightarrow> as_open_loops_json p)
                   (case draft of None \<Rightarrow> [] | Some d \<Rightarrow> dr_open_loops_json d) 8,
                 as_token_estimate := estimate_chunk_tokens text,
                 as_created_at := (case previous of None \<Rightarrow> Some now | Some p \<Rightarrow> as_created_at p)\<rparr>))
     | FullRefresh \<Rightarrow>
         (case draft of None \<Rightarrow> None
          | Some d \<Rightarrow>
              if draft_text = [] then None
              else Some (base\<lparr>
                as_compressed_until := dr_compressed_until d,
                as_summary_text := draft_text,
                as_key_points_json := default_memory_json_list (dr_key_points_json d),
                as_open_loops_json := default_memory_json_list (dr_open_loops_json d),
                as_token_estimate := dr_token_estimate d,
                as_created_at := (case previous of None \<Rightarrow> Some now
                   | Some p \<Rightarrow> (case as_created_at p of None \<Rightarrow> Some now | Some t \<Rightarrow> Some t))\<rparr>)))"

definition apply_conversation_summary ::
    "mem_env \<Rightarrow> ai_memory_writeback_input \<Rightarrow> ai_conversation_summary option \<Rightarrow> refresh_mode
     \<Rightarrow> conversation_summary_draft option \<Rightarrow> unit mem" where
  "apply_conversation_summary env inp previous mode draft w =
    (case build_conversation_summary_entity env (mem_now w) inp previous mode draft of
       None \<Rightarrow> svc_return () w
     | Some s \<Rightarrow> mem_write (\<lambda>w. w\<lparr>mw_summaries := upsert_conversation_summary (mem_now w) s (mw_summaries w)\<rparr>) w)"
subsection \<open>Facts\<close>

definition normalize_memory_confidence :: "rat \<Rightarrow> rat \<Rightarrow> rat" where
  "normalize_memory_confidence c fallback = (if c \<le> 0 then fallback else if 1 < c then 1 else c)"

definition build_memory_fact_entity ::
    "int \<Rightarrow> memory_fact_candidate \<Rightarrow> memory_scope_decision \<Rightarrow> memory_visibility_decision \<Rightarrow> int option \<Rightarrow> ai_memory_fact" where
  "build_memory_fact_entity now c sd vd expires_at =
     \<lparr>af_id = 0, af_scope_key = sd_scope_key sd, af_scope_type = sd_scope_type sd,
      af_visibility = vd_visibility vd, af_user_id = sd_user_id sd, af_org_id = sd_org_id sd,
      af_namespace = fc_namespace c, af_fact_key = fc_fact_key c,
      af_fact_value_json = fc_fact_value_json c, af_summary = fc_summary c,
      af_confidence = normalize_memory_confidence (fc_confidence c) (9 / 10),
      af_source_kind = fc_source_kind c, af_source_id = fc_source_id c,
      af_effective_at = Some now, af_expires_at = expires_at, af_created_at = now, af_updated_at = now\<rparr>"

definition fact_scope :: "memory_fact_candidate \<Rightarrow> memory_access_context \<Rightarrow> memory_scope_decision" where
  "fact_scope c acc =
     resolve_scope \<lparr>si_scope_type = fc_scope_type c, si_user_id = fc_user_id c, si_org_id = fc_org_id c\<rparr> acc"

definition fact_version_query ::
    "memory_fact_candidate \<Rightarrow> memory_scope_decision \<Rightarrow> memory_visibility_decision \<Rightarrow> memory_fact_query" where
  "fact_version_query c sd vd =
     \<lparr>fq_scope_keys = [sd_scope_key sd], fq_allowed_visibilities = [vd_visibility vd], fq_namespaces = [],
      fq_namespace = fc_namespace c, fq_fact_keys = [fc_fact_key c], fq_limit = 1\<rparr>"

definition should_upsert_fact ::
    "memory_fact_candidate \<Rightarrow> memory_scope_decision \<Rightarrow> memory_visibility_decision \<Rightarrow> bool mem" where
  "should_upsert_fact c sd vd =
     svc_bind (mem_read (\<lambda>w. list_facts (mem_now w) (fact_version_query c sd vd) (mw_facts w))) (\<lambda>rows.
       svc_return (case rows of [] \<Rightarrow> True
         | r # _ \<Rightarrow> de_allowed (should_override_fact
              \<lparr>fv_value_json = af_fact_value_json r, fv_source_kind = af_source_kind r\<rparr>
              \<lparr>fv_value_json = fc_fact_value_json c, fv_source_kind = fc_source_kind c\<rparr>
              (sd_scope_type sd) (fc_namespace c))))"

text \<open>The clock is read twice, for the time to live and for the row; no call lies between.\<close>

definition write_fact ::
    "mem_env \<Rightarrow> memory_fact_candidate \<Rightarrow> memory_scope_decision \<Rightarrow> memory_visibility_decision \<Rightarrow> unit mem" where
  "write_fact env c sd vd =
     mem_write (\<lambda>w.
       let now = mem_now w;
           ttl = resolve_ttl env now (fc_namespace c) [] (fc_ttl_hint c);
           fact = build_memory_fact_entity now c sd vd (td_expires_at ttl)
       in w\<lparr>mw_facts := upsert_fact now fact (mw_facts w)\<rparr>)"

definition apply_fact_candidate :: "mem_env \<Rightarrow> memory_access_context \<Rightarrow> memory_fact_candidate \<Rightarrow> unit mem" where
  "apply_fact_candidate env acc c =
    (let sd = fact_scope c acc; vd = resolve_visibility sd in
     if fc_scope_type c \<noteq> memory_scope_self then svc_return ()
     else if \<not> de_allowed (should_store_fact c acc) then svc_return ()
     else if \<not> de_allowed (sd_decision sd) then svc_return ()
     else if \<not> de_allowed (vd_decision vd) then svc_return ()
     else svc_bind (should_upsert_fact c sd vd) (\<lambda>ok.
       if \<not> ok then svc_return () else write_fact env c sd vd))"

definition apply_fact_candidates ::
    "conf \<Rightarrow> mem_env \<Rightarrow> memory_fact_candidate list \<Rightarrow> memory_access_context \<Rightarrow> unit mem" where
  "apply_fact_candidates g env cs acc =
     (if \<not> ai_memory_entity_enabled g \<or> cs = [] then svc_return ()
      else svc_iter (apply_fact_candidate env acc) cs)"

subsection \<open>Documents\<close>

definition build_memory_document_id :: "mem_env \<Rightarrow> runes \<Rightarrow> string \<Rightarrow> runes" where
  "build_memory_document_id env scope_key dedup_key =
     ascii ''mem_doc_'' @ ascii (take 32 (me_sha256_hex env (trim_text scope_key @ [10] @ trim_text (ascii dedup_key))))"

definition build_memory_document_entity ::
    "conf \<Rightarrow> mem_env \<Rightarrow> int \<Rightarrow> memory_document_candidate \<Rightarrow> memory_scope_decision
     \<Rightarrow> memory_visibility_decision \<Rightarrow> memory_document_decision \<Rightarrow> int option \<Rightarrow> ai_memory_document" where
  "build_memory_document_entity g env now c sd vd dd expires_at =
     \<lparr>am_id = build_memory_document_id env (sd_scope_key sd) (dd_dedup_key dd),
      am_scope_key = sd_scope_key sd, am_scope_type = sd_scope_type sd,
      am_visibility = vd_visibility vd, am_user_id = sd_user_id sd, am_org_id = sd_org_id sd,
      am_memory_type = dc_memory_type c, am_topic = dc_topic c, am_title = dc_title c,
      am_summary = dc_summary c, am_content_text = dc_content_text c,
      am_content_hash = dd_content_hash dd, am_summary_hash = dd_summary_hash dd,
      am_dedup_key = dd_dedup_key dd,
      am_importance = normalize_memory_confidence (dc_confidence c) (8 / 10),
      am_quality_score = normalize_memory_confidence (dc_confidence c) (8 / 10),
      am_embedding_model = ai_memory_embed_model g,
      am_source_kind = dc_source_kind c, am_source_id = dc_source_id c,
      am_effective_at = Some now, am_expires_at = expires_at, am_created_at = now, am_updated_at = now,
      am_deleted_at = None\<rparr>"

definition document_scope :: "memory_document_candidate \<Rightarrow> memory_access_context \<Rightarrow> memory_scope_decision" where
  "document_scope c acc =
     resolve_scope \<lparr>si_scope_type = dc_scope_type c, si_user_id = dc_user_id c, si_org_id = dc_org_id c\<rparr> acc"

definition candidate_document ::
    "conf \<Rightarrow> mem_env \<Rightarrow> int \<Rightarrow> memory_access_context \<Rightarrow> memory_document_candidate \<Rightarrow> ai_memory_document option" where
  "candidate_document g env now acc c =
    (let sd = document_scope c acc; vd = resolve_visibility sd; dd = should_store_document env c acc in
     if dc_scope_type c \<noteq> memory_scope_self then None
     else if \<not> de_allowed (dd_decision dd) then None
     else if \<not> de_allowed (sd_decision sd) then None
     else if \<not> de_allowed (vd_decision vd) then None
     else Some (build_memory_document_entity g env now c sd vd dd
       (td_expires_at (resolve_ttl env now [] (dc_memory_type c) (dc_ttl_hint c)))))"

text \<open>The rows written are returned: their identifiers go to the indexer.\<close>

definition apply_document_candidates ::
    "conf \<Rightarrow> mem_env \<Rightarrow> memory_document_candidate list \<Rightarrow> memory_access_context \<Rightarrow> ai_memory_document list mem" where
  "apply_document_candidates g env cs acc w =
    (if \<not> ai_memory_long_term_enabled g \<or> cs = [] then (Inr [], w)
     else let docs = List.map_filter (candidate_document g env (mem_now w) acc) cs
          in if docs = [] then (Inr [], w) else batch_upsert_documents env docs w)"

subsection \<open>The operation\<close>

definition find_message :: "runes \<Rightarrow> ai_message list \<Rightarrow> ai_message option" where
  "find_message i ms = find (\<lambda>m. ms_id m = i) (rev ms)"

record ai_memory_writeback_snapshot =
  sn_user_message :: domain_message
  sn_assistant_message :: domain_message
  sn_previous :: "ai_conversation_summary option"
  sn_messages :: "ai_message list"

definition build_writeback_snapshot ::
    "ai_memory_writeback_input \<Rightarrow> ai_memory_writeback_snapshot option mem" where
  "build_writeback_snapshot inp =
     svc_bind (mem_read (\<lambda>w. list_messages_by_conversation (wi_conversation_id inp) (mw_messages w))) (\<lambda>ms.
       case (find_message (wi_user_message_id inp) ms, find_message (wi_assistant_message_id inp) ms) of
         (Some u, Some a) \<Rightarrow>
           if ms_status a \<noteq> status_success then svc_return None
           else svc_bind (mem_read (\<lambda>w. get_conversation_summary (wi_conversation_id inp) (wi_user_id inp)
                    (wi_org_id inp) (build_conversation_memory_scope_key (wi_user_id inp) (wi_org_id inp))
                    (mw_summaries w)))
                  (\<lambda>previous. svc_return (Some \<lparr>sn_user_message = ai_entity_message_to_domain u,
                     sn_assistant_message = ai_entity_message_to_domain a, sn_previous = previous,
                     sn_messages = ms\<rparr>))
       | _ \<Rightarrow> svc_return None)"

definition on_turn_completed ::
    "conf \<Rightarrow> mem_env \<Rightarrow> extractor \<Rightarrow> ai_memory_writeback_input \<Rightarrow> ai_memory_document list mem" where
  "on_turn_completed g env extract inp =
    (if \<not> ai_memory_enabled g then svc_return []
     else if trim_text (wi_conversation_id inp) = [] \<or> trim_text (wi_user_message_id inp) = []
        \<or> trim_text (wi_assistant_message_id inp) = [] \<or> wi_user_id inp = 0 then svc_return []
     else svc_bind (build_writeback_snapshot inp) (\<lambda>snap. case snap of
         None \<Rightarrow> svc_return []
       | Some sn \<Rightarrow>
           if trim_text (dm_content (sn_assistant_message sn)) = [] then svc_return []
           else (case build_summary_refresh_input g (sn_messages sn) (sn_previous sn) of (mode, recent) \<Rightarrow>
             (case extract \<lparr>ei_principal = normalize_memory_principal inp,
                   ei_user_message = sn_user_message sn, ei_assistant_message = sn_assistant_message sn,
                   ei_recent_messages = recent, ei_previous_summary_text = previous_summary_text (sn_previous sn),
                   ei_refresh_mode = mode\<rparr> of
                None \<Rightarrow> svc_throw MemExtractError
              | Some ex \<Rightarrow>
                  (let acc = build_memory_access_context inp in
                   svc_bind (apply_conversation_summary env inp (sn_previous sn) mode (ex_summary ex)) (\<lambda>_.
                   svc_bind (apply_fact_candidates g env (ex_facts ex) acc) (\<lambda>_.
                   apply_document_candidates g env (ex_documents ex) acc)))))))"

end
