(* ===== verification/Memory_Index.thy ===== *)
theory Memory_Index
  imports Memory_Writeback
begin

text \<open>
  Indexing of stored documents (\<open>internal/service/system/aiMemoryIndex.go\<close> over
  \<open>internal/infrastructure/ai/memory/qdrant_store.go\<close>): a document is split, its chunks are
  embedded, the vectors replaced in the vector database and the chunk rows in the table. The embedding
  service is an oracle that may answer anything or nothing at every step; of the vector database only
  the calls it received are kept.
\<close>

record memory_indexer =
  ix_embed :: "nat \<Rightarrow> runes list \<Rightarrow> rat list list option"
  ix_ctx_done :: "nat \<Rightarrow> bool"
  ix_collection :: runes
  ix_ready :: bool

definition memory_document_entity_to_index :: "ai_memory_document \<Rightarrow> memory_document_for_index" where
  "memory_document_entity_to_index d =
     \<lparr>md_id = am_id d, md_scope_key = am_scope_key d, md_scope_type = am_scope_type d,
      md_visibility = am_visibility d, md_user_id = am_user_id d, md_org_id = am_org_id d,
      md_memory_type = am_memory_type d, md_topic = am_topic d, md_content = am_content_text d,
      md_source_kind = am_source_kind d, md_source_id = am_source_id d\<rparr>"

definition memory_chunk_to_entity :: "conf \<Rightarrow> int \<Rightarrow> memory_document_chunk \<Rightarrow> ai_memory_document_chunk" where
  "memory_chunk_to_entity g indexed_at c =
     \<lparr>ak_id = mc_id c, ak_document_id = mc_document_id c, ak_scope_key = mc_scope_key c,
      ak_scope_type = mc_scope_type c, ak_visibility = mc_visibility c, ak_user_id = mc_user_id c,
      ak_org_id = mc_org_id c, ak_memory_type = mc_memory_type c, ak_topic = mc_topic c,
      ak_chunk_index = int (mc_chunk_index c), ak_content_text = mc_content_text c,
      ak_content_hash = mc_content_hash c, ak_token_estimate = mc_token_estimate c,
      ak_embedding_model = ai_memory_embed_model g, ak_embedding_dimension = ai_memory_embed_dimension g,
      ak_qdrant_point_id = ascii (mc_qdrant_point_id c), ak_indexed_at = Some indexed_at,
      ak_created_at = indexed_at, ak_updated_at = indexed_at\<rparr>"

text \<open>The chunker of \<open>NewAIMemoryService\<close>.\<close>

definition memory_chunker :: "conf \<Rightarrow> paragraph_chunker" where
  "memory_chunker g = new_paragraph_chunker
     \<lparr>co_max_chars = ai_memory_chunk_max_chars g, co_overlap_chars = ai_memory_chunk_overlap_chars g\<rparr>"

definition memory_indexing_ready :: "conf \<Rightarrow> memory_indexer \<Rightarrow> bool" where
  "memory_indexing_ready g ix \<longleftrightarrow> ai_memory_enabled g \<and> ai_memory_long_term_enabled g \<and> ix_ready ix"

definition embed_texts :: "memory_indexer \<Rightarrow> runes list \<Rightarrow> rat list list mem" where
  "embed_texts ix texts w = (case ix_embed ix (mw_step w) texts of
       None \<Rightarrow> (Inl MemEmbedError, mem_tick w) | Some vs \<Rightarrow> (Inr vs, mem_tick w))"

definition vector_delete_document_chunks :: "memory_indexer \<Rightarrow> runes \<Rightarrow> unit mem" where
  "vector_delete_document_chunks ix document_id =
    (if trim_text document_id = [] then svc_return ()
     else if ix_collection ix = [] then svc_throw MemVectorError
     else mem_write (\<lambda>w. w\<lparr>mw_vectors := mw_vectors w @ [VectorDelete (trim_text document_id)]\<rparr>))"

definition vector_upsert_chunks :: "memory_indexer \<Rightarrow> (memory_document_chunk \<times> rat list) list \<Rightarrow> unit mem" where
  "vector_upsert_chunks ix cs =
    (let points = filter (\<lambda>(c, v). v \<noteq> [] \<and> trim_text (ascii (mc_qdrant_point_id c)) \<noteq> []) cs in
     if cs = [] then svc_return ()
     else if ix_collection ix = [] then svc_throw MemVectorError
     else if points = [] then svc_return ()
     else mem_write (\<lambda>w. w\<lparr>mw_vectors := mw_vectors w @ [VectorUpsert points]\<rparr>))"

definition repo_replace_chunks :: "runes \<Rightarrow> (int \<Rightarrow> ai_memory_document_chunk list) \<Rightarrow> unit mem" where
  "repo_replace_chunks document_id rows =
    (if trim_text document_id = [] then svc_return ()
     else mem_write (\<lambda>w. w\<lparr>mw_chunks := replace_document_chunks (mem_now w) document_id (rows (mem_now w)) (mw_chunks w)\<rparr>))"

definition mem_time :: "int mem" where
  "mem_time w = (Inr (mem_now w), w)"

definition chunk_step :: "conf \<Rightarrow> mem_env \<Rightarrow> memory_indexer \<Rightarrow> ai_memory_document \<Rightarrow> memory_document_chunk list mem" where
  "chunk_step g env ix d w =
    (case chunk_document (me_sha256_hex env) (ix_ctx_done ix (mw_step w)) (memory_chunker g)
            (memory_document_entity_to_index d) of
       None \<Rightarrow> (Inl MemNoReturn, w)
     | Some (Inl c) \<Rightarrow> (Inl MemCancelled, w)
     | Some (Inr chunks) \<Rightarrow> (Inr chunks, w))"

definition index_one_document :: "conf \<Rightarrow> mem_env \<Rightarrow> memory_indexer \<Rightarrow> ai_memory_document \<Rightarrow> unit mem" where
  "index_one_document g env ix d =
     svc_bind (chunk_step g env ix d) (\<lambda>chunks.
       if chunks = [] then repo_replace_chunks (am_id d) (\<lambda>now. [])
       else svc_bind (embed_texts ix (map mc_content_text chunks)) (\<lambda>vectors.
         if length vectors \<noteq> length chunks then svc_throw MemEmbedError
         else svc_bind mem_time (\<lambda>indexed_at.
           svc_bind (vector_delete_document_chunks ix (am_id d)) (\<lambda>_.
           svc_bind (vector_upsert_chunks ix (zip chunks vectors)) (\<lambda>_.
           repo_replace_chunks (am_id d) (\<lambda>now. map (memory_chunk_to_entity g indexed_at) chunks))))))"

definition index_document_rows :: "conf \<Rightarrow> mem_env \<Rightarrow> memory_indexer \<Rightarrow> ai_memory_document list \<Rightarrow> unit mem" where
  "index_document_rows g env ix ds = svc_iter (index_one_document g env ix) ds"

definition index_documents :: "conf \<Rightarrow> mem_env \<Rightarrow> memory_indexer \<Rightarrow> runes list \<Rightarrow> unit mem" where
  "index_documents g env ix ids =
    (if \<not> memory_indexing_ready g ix \<or> ids = [] then svc_return ()
     else svc_bind (mem_read (\<lambda>w. list_documents_by_ids (mem_now w) ids (mw_docs w)))
       (index_document_rows g env ix))"

definition index_pending_documents :: "conf \<Rightarrow> mem_env \<Rightarrow> memory_indexer \<Rightarrow> int \<Rightarrow> unit mem" where
  "index_pending_documents g env ix limit =
    (if \<not> memory_indexing_ready g ix then svc_return ()
     else svc_bind (mem_read (\<lambda>w. list_documents_needing_index (mem_now w)
             (if limit \<le> 0 then ai_memory_index_batch_size g else limit)
             (ai_memory_embed_model g) (ai_memory_embed_dimension g) (mw_chunks w) (mw_docs w)))
       (index_document_rows g env ix))"

definition trigger_document_index :: "conf \<Rightarrow> mem_env \<Rightarrow> memory_indexer \<Rightarrow> ai_memory_document list \<Rightarrow> unit mem" where
  "trigger_document_index g env ix ds =
    (let ids = filter (\<lambda>i. i \<noteq> []) (map am_id ds) in
     if \<not> memory_indexing_ready g ix \<or> ds = [] \<or> ids = [] then svc_return ()
     else svc_catch (index_documents g env ix ids) (\<lambda>_. svc_return ()) (\<lambda>_. svc_return ()))"

end
