(* ===== verification/Memory_Recall.thy ===== *)
theory Memory_Recall
  imports Memory_Index
begin

text \<open>
  What is brought back into a conversation (\<open>internal/service/system/aiMemoryRecall.go\<close> and
  \<open>internal/service/system/aiHybridContext.go\<close>): the summary, the user's facts and the chunks a
  vector search proposes, rendered within a budget of characters, and the selection of recent raw
  messages within a budget of tokens. The vector search is an oracle: whatever points it names, the
  rows are read back from the table and checked. Scores are rational numbers.
\<close>

subsection \<open>Configuration\<close>

definition ai_memory_recall_top_k :: "conf \<Rightarrow> int" where
  "ai_memory_recall_top_k = positive_or 10 cf_recall_top_k"

definition ai_memory_recall_max_chars :: "conf \<Rightarrow> int" where
  "ai_memory_recall_max_chars = positive_or 4000 cf_recall_max_chars"

definition ai_memory_recall_min_score :: "conf \<Rightarrow> rat" where
  "ai_memory_recall_min_score g = (case g of
       None \<Rightarrow> 2 / 10 | Some c \<Rightarrow> if cf_recall_min_score c \<le> 0 then 2 / 10 else cf_recall_min_score c)"

definition ai_memory_rag_max_chars :: "conf \<Rightarrow> int" where
  "ai_memory_rag_max_chars = positive_or 2000 cf_rag_max_chars"

definition ai_memory_recent_raw_message_limit :: "conf \<Rightarrow> int" where
  "ai_memory_recent_raw_message_limit g =
     (case g of None \<Rightarrow> 8 | Some c \<Rightarrow> if cf_recent_raw_turns c > 0 then cf_recent_raw_turns c else 8) * 2"

definition ai_memory_recent_raw_message_limit_with_minimum :: "conf \<Rightarrow> int" where
  "ai_memory_recent_raw_message_limit_with_minimum g =
     (let limit = ai_memory_recent_raw_message_limit g in if limit < 2 then 2 else limit)"

definition ai_memory_recent_raw_token_budget :: "conf \<Rightarrow> int" where
  "ai_memory_recent_raw_token_budget = positive_or 3000 cf_recent_raw_token_budget"

definition ai_memory_compress_threshold_tokens :: "conf \<Rightarrow> int" where
  "ai_memory_compress_threshold_tokens g = (case g of None \<Rightarrow> 0 | Some c \<Rightarrow> cf_compress_threshold_tokens c)"

definition ai_memory_fact_scan_limit :: "conf \<Rightarrow> int" where
  "ai_memory_fact_scan_limit g = (let limit = ai_memory_recall_top_k g * 4 in if limit < 20 then 20 else limit)"

subsection \<open>Messages within a token budget\<close>

definition estimate_ai_memory_tokens :: "domain_message list \<Rightarrow> int" where
  "estimate_ai_memory_tokens ms =
    (let total = sum_list (map (\<lambda>m. rune_count (dm_content m)) ms) in if total = 0 then 0 else (total + 3) div 4)"

text \<open>The selection is the list of indices chosen, in the order they were added, and their tokens.\<close>

definition add_index :: "domain_message list \<Rightarrow> int \<Rightarrow> nat list \<times> int \<Rightarrow> nat list \<times> int" where
  "add_index ms i st =
    (if i < 0 \<or> i \<ge> int (length ms) then st
     else if nat i \<in> set (fst st) then st
     else (fst st @ [nat i], snd st + estimate_ai_memory_tokens [ms ! nat i]))"

fun last_user_index :: "domain_message list \<Rightarrow> nat \<Rightarrow> int" where
  "last_user_index ms 0 = -1"
| "last_user_index ms (Suc i) = (if dm_role (ms ! i) = role_user then int i else last_user_index ms i)"

text \<open>The loop from the last message down, entered with the number of messages still to look at.\<close>

fun budget_loop :: "domain_message list \<Rightarrow> int \<Rightarrow> int \<Rightarrow> nat \<Rightarrow> nat list \<times> int \<Rightarrow> nat list \<times> int" where
  "budget_loop ms limit budget 0 st = st"
| "budget_loop ms limit budget (Suc i) st =
     (if i \<in> set (fst st) then budget_loop ms limit budget i st
      else if 0 < limit \<and> int (length (fst st)) \<ge> limit then st
      else if 0 < budget \<and> snd st + estimate_ai_memory_tokens [ms ! i] > budget then st
      else budget_loop ms limit budget i (add_index ms (int i) st))"

definition initial_selection :: "domain_message list \<Rightarrow> nat list \<times> int" where
  "initial_selection ms =
    (let u = last_user_index ms (length ms) in
     if u \<ge> 0 then
       (let st = add_index ms u ([], 0); nxt = u + 1
        in if nxt < int (length ms) \<and> dm_role (ms ! nat nxt) = role_assistant then add_index ms nxt st else st)
     else add_index ms (int (length ms) - 1) ([], 0))"

definition select_recent_raw_messages_by_budget ::
    "domain_message list \<Rightarrow> int \<Rightarrow> int \<Rightarrow> domain_message list \<times> int" where
  "select_recent_raw_messages_by_budget ms limit budget =
    (if ms = [] then ([], 0)
     else if limit \<le> 0 \<and> budget \<le> 0 then (ms, estimate_ai_memory_tokens ms)
     else (let st = budget_loop ms limit budget (length ms) (initial_selection ms)
           in (map ((!) ms) (filter (\<lambda>i. i \<in> set (fst st)) [0..<length ms]), snd st)))"

definition memory_context_prefix :: runes where "memory_context_prefix = ascii ''memory_context''"

text \<open>The header line of a memory context, as its code points.\<close>

definition memory_context_header :: runes where
  "memory_context_header =
     [20197, 19979, 26159, 31995, 32479, 24674, 22797, 30340, 35760, 24518, 19978, 19979, 25991,
      65292, 20165, 20316, 20026, 32972, 26223, 65292, 19981, 20195, 34920, 29992, 25143, 26412,
      36718, 26032, 36755, 20837, 12290]"

fun contains_text :: "runes \<Rightarrow> runes \<Rightarrow> bool" where
  "contains_text sub [] = (sub = [])"
| "contains_text sub (r # rs) = (take (length sub) (r # rs) = sub \<or> contains_text sub rs)"

definition is_ai_memory_context_message :: "domain_message \<Rightarrow> bool" where
  "is_ai_memory_context_message m \<longleftrightarrow>
     take (length memory_context_prefix) (trim_text (dm_id m)) = memory_context_prefix
     \<or> contains_text memory_context_header (dm_content m)"

definition join_ai_memory_first :: "domain_message list \<Rightarrow> domain_message list \<Rightarrow> domain_message list" where
  "join_ai_memory_first mem raw = mem @ raw"

definition compress_messages :: "conf \<Rightarrow> domain_message list \<Rightarrow> domain_message list" where
  "compress_messages g ms =
    (if \<not> ai_memory_enabled g \<or> ms = [] then ms
     else let mem = filter is_ai_memory_context_message ms;
              raw = filter (\<lambda>m. \<not> is_ai_memory_context_message m) ms;
              reordered = join_ai_memory_first mem raw;
              threshold = ai_memory_compress_threshold_tokens g
          in if threshold \<le> 0 \<or> estimate_ai_memory_tokens reordered \<le> threshold then reordered
             else join_ai_memory_first mem (fst (select_recent_raw_messages_by_budget raw
                    (ai_memory_recent_raw_message_limit g) (ai_memory_recent_raw_token_budget g))))"

text \<open>The planner of the assembled context; of its diagnostics the history and its size are kept.\<close>

definition plan_history ::
    "conf \<Rightarrow> domain_message list \<Rightarrow> domain_message list \<Rightarrow> domain_message list \<times> int" where
  "plan_history g mem raw =
    (if \<not> ai_memory_enabled g then (raw, estimate_ai_memory_tokens raw)
     else let reordered = join_ai_memory_first mem raw;
              threshold = ai_memory_compress_threshold_tokens g;
              total = estimate_ai_memory_tokens reordered
          in if threshold \<le> 0 \<or> total \<le> threshold then (reordered, total)
             else let history = join_ai_memory_first mem (fst (select_recent_raw_messages_by_budget raw
                        (ai_memory_recent_raw_message_limit_with_minimum g) (ai_memory_recent_raw_token_budget g)))
                  in (history, estimate_ai_memory_tokens history))"

subsection \<open>Facts\<close>

definition ai_memory_source_priority :: "mem_env \<Rightarrow> runes \<Rightarrow> nat" where
  "ai_memory_source_priority env source_kind =
    (let s = to_lower_text env (trim_text source_kind) in
     if s = src_explicit_user_statement then 0
     else if s = src_tool_verified_summary then 1
     else if s = src_admin_set then 2
     else if s = src_model_inferred then 3
     else if contains_text (ascii ''explicit'') s \<or> contains_text (ascii ''user'') s then 0
     else if contains_text (ascii ''tool'') s \<or> contains_text (ascii ''service'') s
       \<or> contains_text (ascii ''realtime'') s then 1
     else if contains_text (ascii ''admin'') s \<or> contains_text (ascii ''manual'') s then 2
     else 4)"

definition ai_memory_namespace_priority :: "runes \<Rightarrow> nat" where
  "ai_memory_namespace_priority namespace =
    (let n = trim_text namespace in
     if n = ns_user_preference then 0 else if n = ns_oj_goal then 1
     else if n = ns_oj_profile then 2 else 3)"

text \<open>\<open>compareAIMemoryFacts\<close> is the lexicographic order of these components.\<close>

definition fact_sort_key :: "mem_env \<Rightarrow> ai_memory_fact \<Rightarrow> nat \<times> nat \<times> rat \<times> int \<times> runes" where
  "fact_sort_key env f =
     (ai_memory_namespace_priority (af_namespace f), ai_memory_source_priority env (af_source_kind f),
      - af_confidence f, - af_updated_at f, af_fact_key f)"

definition sort_ai_memory_facts :: "mem_env \<Rightarrow> ai_memory_fact list \<Rightarrow> ai_memory_fact list" where
  "sort_ai_memory_facts env fs = sort_key (fact_sort_key env) fs"

definition fact_query_keywords :: "runes list" where
  "fact_query_keywords =
     [[30446, 26631], [35745, 21010], [21047, 39064], ascii ''oj'', ascii ''leetcode'', ascii ''codeforces'',
      [38754, 35797], [23398, 20064], ascii ''luogu'', ascii ''lanqiao'']"

definition ai_memory_fact_namespaces_for_query :: "mem_env \<Rightarrow> runes \<Rightarrow> runes list \<times> bool" where
  "ai_memory_fact_namespaces_for_query env query =
    (let lower = to_lower_text env (trim_text query) in
     if lower = [] then ([], False)
     else if list_ex (\<lambda>k. contains_text (to_lower_text env k) lower) fact_query_keywords
       then ([ns_user_preference, ns_oj_goal, ns_oj_profile], True)
     else ([], False))"

definition filter_ai_memory_facts_by_namespaces :: "ai_memory_fact list \<Rightarrow> runes list \<Rightarrow> ai_memory_fact list" where
  "filter_ai_memory_facts_by_namespaces fs nss =
    (if nss = [] \<or> fs = [] then fs
     else filter (\<lambda>f. trim_text (af_namespace f) \<in> set (map trim_text nss)) fs)"

definition recall_self_facts :: "conf \<Rightarrow> mem_env \<Rightarrow> nat \<Rightarrow> runes \<Rightarrow> ai_memory_fact list mem" where
  "recall_self_facts g env uid query =
    (if \<not> ai_memory_entity_enabled g \<or> uid = 0 then svc_return []
     else (case ai_memory_fact_namespaces_for_query env query of (nss, filtered) \<Rightarrow>
       svc_bind (mem_read (\<lambda>w. list_facts (mem_now w)
           \<lparr>fq_scope_keys = [build_self_memory_scope_key uid], fq_allowed_visibilities = [memory_visibility_self],
            fq_namespaces = nss, fq_namespace = [], fq_fact_keys = [], fq_limit = ai_memory_fact_scan_limit g\<rparr>
           (mw_facts w))) (\<lambda>rows.
         let sorted = sort_ai_memory_facts env rows;
             kept = (if filtered then filter_ai_memory_facts_by_namespaces sorted nss else sorted);
             k = ai_memory_recall_top_k g
         in svc_return (if 0 < k \<and> int (length kept) > k then take (nat k) kept else kept))))"

definition recall_conversation_summary :: "runes \<Rightarrow> nat \<Rightarrow> nat option \<Rightarrow> ai_conversation_summary option mem" where
  "recall_conversation_summary conv uid org_id =
    (if trim_text conv = [] then svc_return None
     else mem_read (\<lambda>w. get_conversation_summary (trim_text conv) uid org_id
            (build_conversation_memory_scope_key uid org_id) (mw_summaries w)))"

subsection \<open>Chunks\<close>

record memory_vector_search_result =
  vr_qdrant_point_id :: runes
  vr_score :: rat

record memory_searcher =
  sr_embed :: "nat \<Rightarrow> runes list \<Rightarrow> rat list list option"
  sr_search :: "nat \<Rightarrow> rat list \<Rightarrow> memory_vector_search_result list option"

record ai_memory_rag_item =
  ri_score :: rat
  ri_chunk :: ai_memory_document_chunk
  ri_expanded_chunks :: "ai_memory_document_chunk list"
  ri_expanded_text :: runes

definition is_valid_rag_chunk :: "conf \<Rightarrow> runes \<Rightarrow> nat \<Rightarrow> ai_memory_document_chunk \<Rightarrow> bool" where
  "is_valid_rag_chunk g scope_key uid c \<longleftrightarrow>
     ak_embedding_model c = ai_memory_embed_model g \<and> ak_embedding_dimension c = ai_memory_embed_dimension g
     \<and> ak_scope_key c = scope_key \<and> ak_visibility c = memory_visibility_self \<and> ak_user_id c = Some uid"

text \<open>A Go map filled in a loop: the last row of a key is found.\<close>

definition map_last :: "('a \<Rightarrow> 'k) \<Rightarrow> 'a list \<Rightarrow> 'k \<Rightarrow> 'a option" where
  "map_last key rows k = find (\<lambda>r. key r = k) (rev rows)"

definition chunk_ref_key :: "ai_memory_document_chunk \<Rightarrow> runes \<times> int" where
  "chunk_ref_key c = (trim_text (ak_document_id c), ak_chunk_index c)"

definition neighbour_indices :: "int \<Rightarrow> int list" where
  "neighbour_indices i = filter (\<lambda>k. 0 \<le> k) [i - 1, i, i + 1]"

definition expand_rag_item ::
    "conf \<Rightarrow> ai_memory_document_chunk list \<Rightarrow> ai_memory_rag_item \<Rightarrow> ai_memory_rag_item" where
  "expand_rag_item g valid item =
    (let p = ri_chunk item;
         found = List.map_filter (\<lambda>k. map_last chunk_ref_key valid (trim_text (ak_document_id p), k))
                   (neighbour_indices (ak_chunk_index p));
         chunks = (if found = [] then [p] else found)
     in item\<lparr>ri_expanded_chunks := chunks,
             ri_expanded_text := merge_chunk_texts_with_overlap (map ak_content_text chunks)
                                   (ai_memory_chunk_overlap_chars g)\<rparr>)"

definition expand_rag_items :: "conf \<Rightarrow> nat \<Rightarrow> ai_memory_rag_item list \<Rightarrow> ai_memory_rag_item list mem" where
  "expand_rag_items g uid items =
    (let refs = concat (map (\<lambda>it. map (\<lambda>k. (ak_document_id (ri_chunk it), k))
                   (neighbour_indices (ak_chunk_index (ri_chunk it)))) items) in
     if refs = [] then svc_return items
     else svc_bind (mem_read (\<lambda>w. list_document_chunks_by_refs (mem_now w) refs (mw_docs w) (mw_chunks w))) (\<lambda>rows.
       svc_return (map (expand_rag_item g
         (filter (is_valid_rag_chunk g (build_self_memory_scope_key uid) uid) rows)) items)))"

definition search_step :: "memory_searcher \<Rightarrow> rat list \<Rightarrow> memory_vector_search_result list mem" where
  "search_step sr v w = (case sr_search sr (mw_step w) v of
       None \<Rightarrow> (Inl MemVectorError, mem_tick w) | Some rs \<Rightarrow> (Inr rs, mem_tick w))"

definition query_embedding :: "memory_searcher \<Rightarrow> runes \<Rightarrow> rat list list mem" where
  "query_embedding sr q w = (case sr_embed sr (mw_step w) [q] of
       None \<Rightarrow> (Inl MemEmbedError, mem_tick w) | Some vs \<Rightarrow> (Inr vs, mem_tick w))"

text \<open>The rows found for the results, in the order of the results.\<close>

definition matched_rag_items ::
    "conf \<Rightarrow> runes \<Rightarrow> nat \<Rightarrow> memory_vector_search_result list \<Rightarrow> ai_memory_document_chunk list \<Rightarrow> ai_memory_rag_item list" where
  "matched_rag_items g scope_key uid results chunks =
    (let valid = filter (is_valid_rag_chunk g scope_key uid) chunks
     in List.map_filter (\<lambda>r. map_option
          (\<lambda>c. \<lparr>ri_score = vr_score r, ri_chunk = c, ri_expanded_chunks = [], ri_expanded_text = []\<rparr>)
          (map_last (\<lambda>c. trim_text (ak_qdrant_point_id c)) valid (trim_text (vr_qdrant_point_id r)))) results)"

definition recall_long_term_documents ::
    "conf \<Rightarrow> memory_searcher \<Rightarrow> nat \<Rightarrow> runes \<Rightarrow> ai_memory_rag_item list mem" where
  "recall_long_term_documents g sr uid query0 =
    (let query = trim_text query0; min_score = ai_memory_recall_min_score g;
         scope_key = build_self_memory_scope_key uid in
     if \<not> ai_memory_long_term_enabled g \<or> query = [] \<or> uid = 0 then svc_return []
     else svc_bind (query_embedding sr query) (\<lambda>vs.
       if length vs \<noteq> 1 then svc_throw MemEmbedError
       else if int (length (hd vs)) \<noteq> ai_memory_embed_dimension g then svc_throw MemEmbedError
       else svc_bind (search_step sr (hd vs)) (\<lambda>results.
         let good = filter (\<lambda>r. \<not> vr_score r < min_score) results;
             point_ids = filter (\<lambda>i. i \<noteq> []) (map (\<lambda>r. trim_text (vr_qdrant_point_id r)) good)
         in if point_ids = [] then svc_return []
            else svc_bind (mem_read (\<lambda>w. list_document_chunks_by_point_ids (mem_now w) point_ids (mw_docs w) (mw_chunks w)))
              (\<lambda>chunks.
                let items = matched_rag_items g scope_key uid good chunks
                in if items = [] then svc_return [] else expand_rag_items g uid items))))"

definition recall_long_term_documents_fail_open ::
    "conf \<Rightarrow> memory_searcher \<Rightarrow> nat \<Rightarrow> runes \<Rightarrow> ai_memory_rag_item list mem" where
  "recall_long_term_documents_fail_open g sr uid query =
     svc_catch (recall_long_term_documents g sr uid query) (\<lambda>_. svc_return []) svc_return"

end
