(* ===== verification/Memory_Context.thy ===== *)
theory Memory_Context
  imports Memory_Recall
begin

text \<open>
  The memory context rendered for the model (\<open>buildAIMemoryContextContent\<close> of
  \<open>internal/service/system/aiHybridContext.go\<close> and \<open>Recall\<close> of
  \<open>internal/service/system/aiMemoryRecall.go\<close>): summary, facts and chunks, each part appended as long
  as the budget of characters lasts. The diagnostics kept are the numbers the code decides with.
\<close>

definition truncation_indicator :: runes where "truncation_indicator = [10, 46, 46, 46]"

definition truncate_ai_memory_context :: "runes \<Rightarrow> int \<Rightarrow> runes" where
  "truncate_ai_memory_context v max_chars =
    (if max_chars \<le> 0 \<or> rune_count v \<le> max_chars then v
     else let limit0 = max_chars - rune_count truncation_indicator;
              limit = (if limit0 \<le> 0 then max_chars else limit0)
          in if rune_count v \<le> limit then v else take (nat limit) v @ truncation_indicator)"

definition append_part :: "int \<Rightarrow> runes \<Rightarrow> runes \<Rightarrow> bool \<times> runes" where
  "append_part max_chars part builder =
    (let remaining = max_chars - rune_count builder in
     if part = [] then (False, builder)
     else if max_chars \<le> 0 then (True, builder @ part)
     else if remaining \<le> 0 then (False, builder)
     else if rune_count part \<le> remaining then (True, builder @ part)
     else if remaining \<le> rune_count truncation_indicator then (False, builder)
     else (True, builder @ truncate_ai_memory_context part remaining))"

definition append_parts :: "int \<Rightarrow> runes list \<Rightarrow> runes \<Rightarrow> runes" where
  "append_parts max_chars parts builder = fold (\<lambda>p b. snd (append_part max_chars p b)) parts builder"

definition dash_line :: "runes \<Rightarrow> runes" where
  "dash_line l = ascii ''- '' @ l @ [10]"

definition heading_text :: "string \<Rightarrow> runes" where
  "heading_text t = [10, 10] @ ascii t @ [10]"

text \<open>The loops over facts and chunks: the number kept and, for chunks, the characters used.\<close>

fun append_facts :: "int \<Rightarrow> runes list \<Rightarrow> nat \<times> runes \<Rightarrow> nat \<times> runes" where
  "append_facts max_chars [] st = st"
| "append_facts max_chars (l # ls) (kept, b) =
     (let pre = (if kept = 0 then heading_text ''## Stable Facts'' else [10]);
          r = append_part max_chars (pre @ dash_line l) b
      in append_facts max_chars ls (if fst r then Suc kept else kept, snd r))"

fun append_rag :: "int \<Rightarrow> int \<Rightarrow> runes list \<Rightarrow> nat \<times> int \<times> runes \<Rightarrow> nat \<times> int \<times> runes" where
  "append_rag max_chars budget [] st = st"
| "append_rag max_chars budget (l # ls) (kept, used, b) =
     (let pre = (if kept = 0 then heading_text ''## Long-term Documents'' else []);
          part = pre @ l @ [10];
          over = 0 < budget \<and> used + rune_count part > budget;
          remaining = budget - used;
          part' = (if over then truncate_ai_memory_context part remaining else part)
      in if over \<and> remaining \<le> rune_count pre + 1 then (kept, used, b)
         else let r = append_part max_chars part' b
              in if fst r then append_rag max_chars budget ls (Suc kept, used + rune_count part', snd r)
                 else (kept, used, b))"

definition render_fact_line :: "ai_memory_fact \<Rightarrow> runes option" where
  "render_fact_line f =
    (let ns = normalize_context_line (af_namespace f); key = normalize_context_line (af_fact_key f);
         v0 = normalize_context_line (af_summary f);
         v = (if v0 = [] then normalize_context_line (af_fact_value_json f) else v0)
     in if ns = [] \<or> key = [] \<or> v = [] then None else Some (ns @ [47] @ key @ [58, 32] @ v))"

definition render_sorted_fact_lines :: "mem_env \<Rightarrow> ai_memory_fact list \<Rightarrow> runes list" where
  "render_sorted_fact_lines env fs = List.map_filter render_fact_line (sort_key (fact_sort_key env) fs)"

definition render_rag_line :: "mem_env \<Rightarrow> ai_memory_rag_item \<Rightarrow> runes option" where
  "render_rag_line env it =
    (let c0 = trim_text (ri_expanded_text it);
         content = normalize_context_line (if c0 = [] then ak_content_text (ri_chunk it) else c0);
         topic = normalize_context_line (ak_topic (ri_chunk it));
         mtype = normalize_context_line (ak_memory_type (ri_chunk it));
         tag = (if topic = [] \<and> mtype = [] then []
                else [91] @ mtype @ (if topic \<noteq> [] then (if mtype \<noteq> [] then [47] else []) @ topic else [])
                     @ ascii '' score='' @ me_format_score env (ri_score it) @ [93, 32])
     in if content = [] then None else Some (ascii ''- '' @ tag @ content))"

definition rag_sort_key :: "ai_memory_rag_item \<Rightarrow> rat \<times> string" where
  "rag_sort_key it = (- ri_score it, ak_id (ri_chunk it))"

definition render_sorted_rag_lines :: "mem_env \<Rightarrow> ai_memory_rag_item list \<Rightarrow> runes list" where
  "render_sorted_rag_lines env items = List.map_filter (render_rag_line env) (sort_key rag_sort_key items)"

definition build_memory_context_content ::
    "conf \<Rightarrow> mem_env \<Rightarrow> ai_conversation_summary option \<Rightarrow> ai_memory_fact list \<Rightarrow> ai_memory_rag_item list \<Rightarrow> int \<Rightarrow> runes" where
  "build_memory_context_content g env summary facts rag max_chars =
    (let text = (case summary of None \<Rightarrow> [] | Some s \<Rightarrow> normalize_context_line (as_summary_text s));
         points = decode_summary_lines env (case summary of None \<Rightarrow> [] | Some s \<Rightarrow> as_key_points_json s);
         loops = decode_summary_lines env (case summary of None \<Rightarrow> [] | Some s \<Rightarrow> as_open_loops_json s);
         fact_lines = render_sorted_fact_lines env facts;
         rag_lines = render_sorted_rag_lines env rag;
         b1 = append_parts max_chars ([memory_context_header]
           @ (if points \<noteq> [] then heading_text ''## Latest Decisions'' # map dash_line points else [])
           @ (if loops \<noteq> [] then heading_text ''## Open Loops'' # map dash_line loops else [])
           @ [heading_text ''## Conversation Summary'', if text = [] then ascii ''- '' @ [26080] else text]) [];
         b2 = snd (append_facts max_chars fact_lines (0, b1));
         b3 = snd (snd (append_rag max_chars (ai_memory_rag_max_chars g) rag_lines (0, 0, b2)))
     in if text = [] \<and> points = [] \<and> loops = [] \<and> fact_lines = [] \<and> rag_lines = [] then []
        else trim_right_by (\<lambda>r. r = 10) b3)"

subsection \<open>Recall\<close>

record ai_memory_recall_result =
  rr_messages :: "domain_message list"
  rr_summary :: "ai_conversation_summary option"
  rr_facts :: "ai_memory_fact list"
  rr_rag_items :: "ai_memory_rag_item list"

definition build_context_message_id :: "runes \<Rightarrow> runes" where
  "build_context_message_id conv =
     (if trim_text conv = [] then memory_context_prefix else memory_context_prefix @ ascii ''_'' @ trim_text conv)"

definition memory_recall ::
    "conf \<Rightarrow> mem_env \<Rightarrow> memory_searcher \<Rightarrow> runes \<Rightarrow> nat \<Rightarrow> nat option \<Rightarrow> runes \<Rightarrow> ai_memory_recall_result mem" where
  "memory_recall g env sr conv uid org_id query =
    (if \<not> ai_memory_enabled g \<or> uid = 0
     then svc_return \<lparr>rr_messages = [], rr_summary = None, rr_facts = [], rr_rag_items = []\<rparr>
     else svc_bind (recall_conversation_summary conv uid org_id) (\<lambda>summary.
       svc_bind (recall_self_facts g env uid query) (\<lambda>facts.
       svc_bind (recall_long_term_documents_fail_open g sr uid query) (\<lambda>rag.
         let content = build_memory_context_content g env summary facts rag (ai_memory_recall_max_chars g)
         in svc_return \<lparr>rr_messages =
               (if trim_text content = [] then []
                else [\<lparr>dm_id = build_context_message_id conv, dm_role = role_assistant, dm_content = content\<rparr>]),
              rr_summary = summary, rr_facts = facts, rr_rag_items = rag\<rparr>))))"

subsection \<open>The budget\<close>

lemma truncation_indicator_count [simp]: "rune_count truncation_indicator = 4"
  by (simp add: truncation_indicator_def rune_count_def)

lemma truncate_context_bound:
  "4 < m \<Longrightarrow> rune_count (truncate_ai_memory_context v m) \<le> m"
  by (auto simp: truncate_ai_memory_context_def Let_def rune_count_def truncation_indicator_def)

lemma append_part_bound:
  "0 < m \<Longrightarrow> rune_count b \<le> m \<Longrightarrow> rune_count (snd (append_part m p b)) \<le> m"
  using truncate_context_bound [of "m - rune_count b" p]
  by (auto simp: append_part_def Let_def rune_count_def truncation_indicator_def)

lemma append_parts_bound: "0 < m \<Longrightarrow> rune_count b \<le> m \<Longrightarrow> rune_count (append_parts m ps b) \<le> m"
  unfolding append_parts_def
  by (induction ps arbitrary: b) (simp_all add: append_part_bound)

lemma append_facts_bound: "0 < m \<Longrightarrow> rune_count b \<le> m \<Longrightarrow> rune_count (snd (append_facts m ls (k, b))) \<le> m"
  by (induction ls arbitrary: k b) (simp_all add: Let_def append_part_bound)

lemma append_rag_bound:
  "0 < m \<Longrightarrow> rune_count b \<le> m \<Longrightarrow> rune_count (snd (snd (append_rag m budget ls (k, u, b)))) \<le> m"
  by (induction ls arbitrary: k u b) (simp_all add: Let_def append_part_bound)


end
