(* ===== verification/Memory_Correct.thy ===== *)
theory Memory_Correct
  imports Memory_Writeback
begin

text \<open>
  Lemmas on the memory policy and on the writeback of a turn: what a resolved scope is, what a time to
  live can be, that the tables keep their unique keys, that a turn writes rows of its own user only and
  that a fact never yields to a source of lower priority.
\<close>

subsection \<open>Calls\<close>

lemma mem_tick_simps [simp]:
  "mw_facts (mem_tick w) = mw_facts w" "mw_docs (mem_tick w) = mw_docs w"
  "mw_chunks (mem_tick w) = mw_chunks w" "mw_summaries (mem_tick w) = mw_summaries w"
  "mw_messages (mem_tick w) = mw_messages w" "mw_vectors (mem_tick w) = mw_vectors w" "mw_clock (mem_tick w) = mw_clock w"
  "mw_fate (mem_tick w) = mw_fate w"
  by (simp_all add: mem_tick_def)

text \<open>Properties of the world that do not look at its step.\<close>

definition stepless :: "(mem_world \<Rightarrow> bool) \<Rightarrow> bool" where
  "stepless I \<longleftrightarrow> (\<forall>w. I w \<longrightarrow> I (mem_tick w))"

lemma keeps_mem_read: "stepless I \<Longrightarrow> keeps I (mem_read f)"
  by (auto simp: keeps_def mem_read_def stepless_def)

lemma keeps_mem_write: "stepless I \<Longrightarrow> (\<And>w. I w \<Longrightarrow> I (f w)) \<Longrightarrow> keeps I (mem_write f)"
  by (auto simp: keeps_def mem_write_def stepless_def split: mem_fate.splits)

lemma mem_read_Inr: "mem_read f w = (Inr x, w') \<Longrightarrow> x = f w \<and> w' = mem_tick w"
  by (auto simp: mem_read_def split: if_splits)

subsection \<open>Scopes\<close>

lemma scope_distinct: "memory_scope_self \<noteq> memory_scope_org" "memory_scope_self \<noteq> memory_scope_platform_ops"
    "memory_scope_org \<noteq> memory_scope_platform_ops"
  by (simp_all add: memory_consts ascii_def)

lemma resolve_scope_self:
  assumes "si_scope_type inp = memory_scope_self" "de_allowed (sd_decision (resolve_scope inp acc))"
  defines "uid \<equiv> pr_user_id (ac_principal acc)"
  shows "0 < uid" "sd_scope_type (resolve_scope inp acc) = memory_scope_self"
    "sd_scope_key (resolve_scope inp acc) = build_self_memory_scope_key uid"
    "sd_user_id (resolve_scope inp acc) = Some uid" "sd_org_id (resolve_scope inp acc) = None"
  using assms(2) unfolding resolve_scope_def assms(1) uid_def [symmetric] Let_def
  by (auto simp: deny_scope_decision_def deny_decision_def split: if_splits option.splits)

lemma resolve_visibility_self:
  "de_allowed (sd_decision sd) \<Longrightarrow> sd_scope_type sd = memory_scope_self \<Longrightarrow>
   vd_visibility (resolve_visibility sd) = memory_visibility_self \<and> de_allowed (vd_decision (resolve_visibility sd))"
  by (simp add: resolve_visibility_def allow_decision_def)

lemma ascii_inj: "ascii s = ascii t \<longleftrightarrow> s = t"
  by (simp add: ascii_def inj_map_eq_map inj_of_char)

lemma self_scope_key_inj: "build_self_memory_scope_key u = build_self_memory_scope_key v \<longleftrightarrow> u = v"
  by (simp add: build_self_memory_scope_key_def ascii_inj show_nat_inj)

lemma self_scope_key_neqs: "build_self_memory_scope_key u \<noteq> build_org_memory_scope_key v"
  "build_self_memory_scope_key u \<noteq> build_platform_ops_memory_scope_key"
  by (simp_all add: build_self_memory_scope_key_def build_org_memory_scope_key_def
      build_platform_ops_memory_scope_key_def memory_consts ascii_def)

text \<open>Private memory: no two principals can read the same target.\<close>

lemma evaluate_self_access:
  assumes "at_scope_type t = memory_scope_self" "de_allowed (evaluate_memory_access t acc)"
  shows "at_user_id t = Some (pr_user_id (ac_principal acc))"
    "trim_text (at_scope_key t) = build_self_memory_scope_key (pr_user_id (ac_principal acc))"
    "at_visibility t = memory_visibility_self"
  using assms(2) unfolding evaluate_memory_access_def assms(1) Let_def
  by (auto simp: deny_decision_def split: if_splits option.splits)

text \<open>A resolved scope passes the access check.\<close>

lemma uspace_ascii_digit: "c \<in> set (show_nat n) \<Longrightarrow> \<not> uspace (of_char c)"
proof -
  assume "c \<in> set (show_nat n)"
  then obtain d :: nat where "d \<le> 9" "c = char_of (48 + d)"
    using show_nat_digits by (fastforce simp: digit_char_def image_iff)
  then show ?thesis by (auto simp: uspace_def of_char_of)
qed

lemma last_ascii_show_nat: "\<not> uspace (last (ascii (show_nat u)))" "ascii (show_nat u) \<noteq> []"
  by (simp_all add: ascii_def last_map uspace_ascii_digit [OF last_in_set])

lemma trim_self_scope_key [simp]: "trim_text (build_self_memory_scope_key u) = build_self_memory_scope_key u"
proof (rule trim_text_fixpoint, rule disjI2, rule conjI)
  show "\<not> uspace (hd (build_self_memory_scope_key u))"
    by (simp add: build_self_memory_scope_key_def ascii_def uspace_def)
  show "\<not> uspace (last (build_self_memory_scope_key u))"
    by (simp add: build_self_memory_scope_key_def last_ascii_show_nat)
qed

lemma trim_org_scope_key [simp]: "trim_text (build_org_memory_scope_key u) = build_org_memory_scope_key u"
proof (rule trim_text_fixpoint, rule disjI2, rule conjI)
  show "\<not> uspace (hd (build_org_memory_scope_key u))"
    by (simp add: build_org_memory_scope_key_def ascii_def uspace_def)
  show "\<not> uspace (last (build_org_memory_scope_key u))"
    by (simp add: build_org_memory_scope_key_def last_ascii_show_nat)
qed

lemma org_scope_key_nonempty [simp]: "build_org_memory_scope_key u \<noteq> []"
  by (simp add: build_org_memory_scope_key_def ascii_def)

lemma resolved_scope_is_writable:
  assumes "de_allowed (sd_decision (resolve_scope inp acc))"
  shows "de_allowed (can_write_memory
    (new_memory_access_target (resolve_scope inp acc) (resolve_visibility (resolve_scope inp acc))) acc)"
proof -
  note simps = can_write_memory_def new_memory_access_target_def evaluate_memory_access_def
    resolve_visibility_def allow_decision_def deny_decision_def deny_scope_decision_def Let_def
  consider "si_scope_type inp = memory_scope_self" | "si_scope_type inp = memory_scope_org"
    | "si_scope_type inp = memory_scope_platform_ops"
    using assms by (auto simp: resolve_scope_def simps split: if_splits)
  then show ?thesis
  proof cases
    case 1
    from resolve_scope_self [OF 1 assms] show ?thesis
      using assms by (simp add: simps)
  next
    case 2
    then obtain oid where oid: "si_org_id inp = Some oid" "oid \<noteq> 0" "is_approved_org_scope oid acc"
        "\<not> (ac_approved_org_scope_keys acc = [] \<and> ac_approved_org_ids acc = [])"
      using assms unfolding resolve_scope_def
      by (auto simp: deny_scope_decision_def deny_decision_def scope_distinct [symmetric] split: if_splits option.splits)
    then show ?thesis
      using 2 by (auto simp: simps resolve_scope_def scope_distinct [symmetric])
  next
    case 3
    then have "ac_allow_platform_ops acc" "pr_is_super_admin (ac_principal acc)"
      using assms unfolding resolve_scope_def
      by (auto simp: deny_scope_decision_def deny_decision_def scope_distinct [symmetric] split: if_splits)
    then show ?thesis
      using 3 by (simp add: simps resolve_scope_def scope_distinct [symmetric])
  qed
qed

subsection \<open>Time to live\<close>

lemma clamp_range: "lo \<le> hi \<Longrightarrow> lo \<le> clamp_memory_ttl_days d lo hi \<and> clamp_memory_ttl_days d lo hi \<le> hi"
  by (simp add: clamp_memory_ttl_days_def)

lemma ttl_duration_bounds_range:
  "ttl_duration_bounds ns mt = Some (lo, hi) \<Longrightarrow> 1 \<le> lo \<and> lo \<le> hi \<and> hi \<le> 365"
  by (auto simp: ttl_duration_bounds_def split: if_splits)

lemma resolve_ttl_hint_expiry:
  assumes "resolve_ttl_hint env now ns mt hint = Some d" "td_expires_at d = Some e"
  shows "\<exists>lo hi. ttl_duration_bounds ns mt = Some (lo, hi) \<and> e \<in> days_after now ` {lo..hi}"
proof -
  obtain h where h: "hint = Some h" using assms(1) by (auto simp: resolve_ttl_hint_def split: option.splits)
  from assms obtain lo hi x where "ttl_duration_bounds ns mt = Some (lo, hi)"
      "e = days_after now (clamp_memory_ttl_days x lo hi)"
    unfolding resolve_ttl_hint_def h
    by (auto simp: Let_def split: if_splits option.splits prod.splits)
  then show ?thesis using ttl_duration_bounds_range clamp_range by (metis atLeastAtMost_iff imageI)
qed

lemma default_ttl_expiry:
  "td_expires_at (default_memory_ttl_decision now ns mt) = Some e \<Longrightarrow> e \<in> days_after now ` {14..60}"
  by (auto simp: default_memory_ttl_decision_def Let_def split: if_splits intro!: imageI)

lemma days_after_mono: "A \<subseteq> B \<Longrightarrow> e \<in> days_after now ` A \<Longrightarrow> e \<in> days_after now ` B"
  by (auto intro: imageI)

lemma resolve_ttl_expiry:
  assumes "td_expires_at (resolve_ttl env now ns mt hint) = Some e"
  shows "e \<in> days_after now ` {1..365}"
proof (cases "resolve_ttl_hint env now (trim_text ns) mt hint")
  case None
  then have "e \<in> days_after now ` {14..60}"
    using assms default_ttl_expiry by (simp add: resolve_ttl_def)
  then show ?thesis by (rule days_after_mono [rotated]) simp
next
  case (Some d)
  then have "td_expires_at d = Some e" using assms by (simp add: resolve_ttl_def)
  then obtain lo hi where b: "ttl_duration_bounds (trim_text ns) mt = Some (lo, hi)"
      "e \<in> days_after now ` {lo..hi}"
    using resolve_ttl_hint_expiry [OF Some] by blast
  from b(2) show ?thesis
    by (rule days_after_mono [rotated]) (use ttl_duration_bounds_range [OF b(1)] in auto)
qed

subsection \<open>Tables\<close>

definition mem_wf :: "mem_world \<Rightarrow> bool" where
  "mem_wf w \<longleftrightarrow> distinct (map fact_ident (mw_facts w)) \<and> distinct (map am_id (mw_docs w))
     \<and> distinct (map as_conversation_id (mw_summaries w))"

lemma stepless_mem_wf: "stepless mem_wf"
  by (simp add: stepless_def mem_wf_def)

lemma fact_overwrite_ident [simp]: "fact_ident (fact_overwrite now f old) = fact_ident f"
  by (simp add: fact_overwrite_def fact_ident_def)

lemma fact_id_ident [simp]: "fact_ident (f\<lparr>af_id := i\<rparr>) = fact_ident f"
  by (simp add: fact_ident_def)

lemma document_overwrite_id [simp]: "am_id (document_overwrite now d old) = am_id d"
  "am_scope_key (document_overwrite now d old) = am_scope_key d"
  by (simp_all add: document_overwrite_def)

lemma summary_overwrite_id [simp]: "as_conversation_id (summary_overwrite now s old) = as_conversation_id s"
  by (simp add: summary_overwrite_def)

lemma distinct_append_new: "distinct (map key rows) \<Longrightarrow> row_get key rows (key r) = None \<Longrightarrow> distinct (map key (rows @ [r]))"
  by (auto simp: row_get_None_iff)

lemma distinct_upsert_fact:
  assumes "distinct (map fact_ident fs)"
  shows "distinct (map fact_ident (upsert_fact now f fs))"
proof (cases "row_get fact_ident fs (fact_ident f)")
  case None
  then show ?thesis
    using distinct_append_new [OF assms, of "f\<lparr>af_id := next_fact_id fs\<rparr>"] by (simp add: upsert_fact_def)
next
  case (Some old)
  with assms show ?thesis by (simp add: upsert_fact_def distinct_row_put)
qed

lemma distinct_upsert_document:
  "distinct (map am_id ds) \<Longrightarrow> distinct (map am_id (upsert_document now d ds))"
  using distinct_append_new [of am_id ds d]
  by (auto simp: upsert_document_def distinct_row_put split: option.split)

lemma distinct_fold_upsert: "distinct (map am_id ds) \<Longrightarrow> distinct (map am_id (fold (upsert_document now) rows ds))"
  by (induction rows arbitrary: ds) (simp_all add: distinct_upsert_document)

lemma distinct_upsert_summary:
  "distinct (map as_conversation_id ss) \<Longrightarrow>
   distinct (map as_conversation_id (upsert_conversation_summary now s ss))"
  using distinct_append_new [of as_conversation_id ss s]
  by (auto simp: upsert_conversation_summary_def distinct_row_put split: option.split)

named_theorems mem_keeps \<open>operations that keep the unique keys\<close>

lemmas wf_read [mem_keeps] = keeps_mem_read [OF stepless_mem_wf]
lemmas wf_write = keeps_mem_write [OF stepless_mem_wf]

lemma wf_upsert_summary [mem_keeps]: "keeps mem_wf (apply_conversation_summary env inp p m d)"
proof (rule keepsI)
  fix w r w'
  assume w: "mem_wf w" and run: "apply_conversation_summary env inp p m d w = (r, w')"
  have step: "keeps mem_wf (mem_write (\<lambda>w. w\<lparr>mw_summaries := upsert_conversation_summary (mem_now w) s (mw_summaries w)\<rparr>))" for s
    by (rule wf_write) (simp add: mem_wf_def distinct_upsert_summary)
  show "mem_wf w'"
    using run w keepsD [OF step w]
    by (auto simp: apply_conversation_summary_def svc_return_def split: option.splits)
qed

lemma wf_write_fact [mem_keeps]: "keeps mem_wf (write_fact env c sd vd)"
  unfolding write_fact_def Let_def
  by (rule wf_write) (simp add: mem_wf_def distinct_upsert_fact)

lemma wf_apply_fact [mem_keeps]: "keeps mem_wf (apply_fact_candidate env acc c)"
  unfolding apply_fact_candidate_def should_upsert_fact_def Let_def
  by (intro keeps_intro mem_keeps)

lemma wf_apply_facts [mem_keeps]: "keeps mem_wf (apply_fact_candidates g env cs acc)"
  unfolding apply_fact_candidates_def by (intro keeps_intro mem_keeps)

lemma wf_batch_upsert [mem_keeps]: "keeps mem_wf (batch_upsert_documents env ds)"
  unfolding batch_upsert_documents_def
  by (intro keeps_intro mem_keeps wf_write) (simp add: mem_wf_def distinct_fold_upsert)

lemma wf_apply_documents [mem_keeps]: "keeps mem_wf (apply_document_candidates g env cs acc)"
proof (rule keepsI)
  fix w r w' assume "mem_wf w" "apply_document_candidates g env cs acc w = (r, w')"
  then show "mem_wf w'"
    using keepsD [OF wf_batch_upsert]
    by (auto simp: apply_document_candidates_def Let_def split: if_splits)
qed

lemma wf_snapshot [mem_keeps]: "keeps mem_wf (build_writeback_snapshot inp)"
  unfolding build_writeback_snapshot_def by (intro keeps_intro mem_keeps)

lemma wf_on_turn_completed: "keeps mem_wf (on_turn_completed g env extract inp)"
  unfolding on_turn_completed_def Let_def
  by (intro keeps_intro mem_keeps)

subsection \<open>Rows of others\<close>

definition others_unchanged :: "nat \<Rightarrow> runes \<Rightarrow> mem_world \<Rightarrow> mem_world \<Rightarrow> bool" where
  "others_unchanged uid conv w0 w \<longleftrightarrow>
     filter (\<lambda>f. af_scope_key f \<noteq> build_self_memory_scope_key uid) (mw_facts w)
       = filter (\<lambda>f. af_scope_key f \<noteq> build_self_memory_scope_key uid) (mw_facts w0)
     \<and> filter (\<lambda>d. am_scope_key d \<noteq> build_self_memory_scope_key uid) (mw_docs w)
       = filter (\<lambda>d. am_scope_key d \<noteq> build_self_memory_scope_key uid) (mw_docs w0)
     \<and> filter (\<lambda>s. as_conversation_id s \<noteq> conv) (mw_summaries w)
       = filter (\<lambda>s. as_conversation_id s \<noteq> conv) (mw_summaries w0)
     \<and> mw_chunks w = mw_chunks w0 \<and> mw_messages w = mw_messages w0"

lemma others_unchanged_refl [simp]: "others_unchanged uid conv w w"
  by (simp add: others_unchanged_def)

lemma stepless_others: "stepless (others_unchanged uid conv w0)"
  by (simp add: stepless_def others_unchanged_def)

lemma filter_row_put:
  "\<not> P r \<Longrightarrow> (\<And>q. q \<in> set rows \<Longrightarrow> key q = key r \<Longrightarrow> \<not> P q) \<Longrightarrow>
   filter P (row_put key r rows) = filter P rows"
  by (induction rows) auto

lemma filter_upsert_fact:
  assumes "af_scope_key f = k"
  shows "filter (\<lambda>f. af_scope_key f \<noteq> k) (upsert_fact now f fs) = filter (\<lambda>f. af_scope_key f \<noteq> k) fs"
proof (cases "row_get fact_ident fs (fact_ident f)")
  case None
  with assms show ?thesis by (simp add: upsert_fact_def)
next
  case (Some old)
  have "filter (\<lambda>f. af_scope_key f \<noteq> k) (row_put fact_ident (fact_overwrite now f old) fs)
      = filter (\<lambda>f. af_scope_key f \<noteq> k) fs"
    by (rule filter_row_put) (use assms in \<open>auto simp: fact_overwrite_def fact_ident_def\<close>)
  with Some show ?thesis by (simp add: upsert_fact_def)
qed

lemma filter_upsert_summary:
  assumes "as_conversation_id s = c"
  shows "filter (\<lambda>s. as_conversation_id s \<noteq> c) (upsert_conversation_summary now s ss)
    = filter (\<lambda>s. as_conversation_id s \<noteq> c) ss"
proof (cases "row_get as_conversation_id ss (as_conversation_id s)")
  case None
  with assms show ?thesis by (simp add: upsert_conversation_summary_def)
next
  case (Some old)
  have "filter (\<lambda>s. as_conversation_id s \<noteq> c) (row_put as_conversation_id (summary_overwrite now s old) ss)
      = filter (\<lambda>s. as_conversation_id s \<noteq> c) ss"
    by (rule filter_row_put) (use assms in auto)
  with Some show ?thesis by (simp add: upsert_conversation_summary_def)
qed

lemma set_row_put_subset: "q \<in> set (row_put key r rows) \<Longrightarrow> q = r \<or> q \<in> set rows"
  using set_row_put by fastforce

lemma filter_fold_upsert_document:
  assumes "\<And>d. d \<in> set rows \<Longrightarrow> am_scope_key d = k"
    and "\<And>d e. d \<in> set rows \<Longrightarrow> e \<in> set ds \<Longrightarrow> am_id e = am_id d \<Longrightarrow> am_scope_key e = k"
  shows "filter (\<lambda>d. am_scope_key d \<noteq> k) (fold (upsert_document now) rows ds)
    = filter (\<lambda>d. am_scope_key d \<noteq> k) ds"
  using assms
proof (induction rows arbitrary: ds)
  case (Cons d rows)
  have d: "am_scope_key d = k" by (rule Cons.prems(1)) simp
  have one: "filter (\<lambda>d. am_scope_key d \<noteq> k) (upsert_document now d ds) = filter (\<lambda>d. am_scope_key d \<noteq> k) ds"
  proof (cases "row_get am_id ds (am_id d)")
    case None
    with d show ?thesis by (simp add: upsert_document_def)
  next
    case (Some old)
    have "filter (\<lambda>d. am_scope_key d \<noteq> k) (row_put am_id (document_overwrite now d old) ds)
        = filter (\<lambda>d. am_scope_key d \<noteq> k) ds"
    proof (rule filter_row_put)
      show "\<not> am_scope_key (document_overwrite now d old) \<noteq> k" using d by simp
      fix e assume "e \<in> set ds" "am_id e = am_id (document_overwrite now d old)"
      then have "am_scope_key e = k" by (intro Cons.prems(2) [of d e]) simp_all
      then show "\<not> am_scope_key e \<noteq> k" by simp
    qed
    with Some show ?thesis by (simp add: upsert_document_def)
  qed
  have new: "e \<in> set ds \<or> am_scope_key e = k" if "e \<in> set (upsert_document now d ds)" for e
    using that d by (auto simp: upsert_document_def split: option.splits dest!: set_row_put_subset)
  have "filter (\<lambda>d. am_scope_key d \<noteq> k) (fold (upsert_document now) rows (upsert_document now d ds))
      = filter (\<lambda>d. am_scope_key d \<noteq> k) (upsert_document now d ds)"
  proof (rule Cons.IH)
    fix r assume "r \<in> set rows" then show "am_scope_key r = k" by (intro Cons.prems(1)) simp
  next
    fix r e assume "r \<in> set rows" "e \<in> set (upsert_document now d ds)" "am_id e = am_id r"
    then show "am_scope_key e = k" using Cons.prems(2) [of r e] new [of e] by fastforce
  qed
  with one show ?case by simp
qed simp

text \<open>
  The identifier of a document is a truncated hash of its scope and identity. \<open>id_clash_free\<close>: no
  stored document has the identifier of a document of another scope.
\<close>

definition id_clash_free :: "mem_env \<Rightarrow> ai_memory_document list \<Rightarrow> bool" where
  "id_clash_free env ds \<longleftrightarrow>
     (\<forall>d \<in> set ds. \<forall>k dd. am_id d = trim_text (build_memory_document_id env k dd) \<longrightarrow> am_scope_key d = trim_text k)"

lemma dedup_documents_all:
  assumes "dedup_documents env acc ds = Inr rows" "\<And>d. d \<in> set acc \<Longrightarrow> P d"
    "\<And>d d'. d \<in> set ds \<Longrightarrow> normalize_memory_document_metadata env d = Inr d' \<Longrightarrow> P d'"
    "r \<in> set rows"
  shows "P r"
  using assms
proof (induction env acc ds rule: dedup_documents.induct)
  case (2 env acc d ds)
  then obtain d' where d': "normalize_memory_document_metadata env d = Inr d'"
      "dedup_documents env (row_put document_batch_key d' acc) ds = Inr rows"
    by (auto split: sum.splits)
  show ?case
    by (rule 2(1) [OF d'(1) d'(2)])
       (use 2 d' in \<open>auto dest!: set_row_put_subset\<close>)
qed auto

lemma normalize_document_scope:
  "normalize_memory_document_metadata env d = Inr d' \<Longrightarrow>
   am_scope_key d' = trim_text (am_scope_key d) \<and> am_id d' = trim_text (am_id d)"
  by (auto simp: normalize_memory_document_metadata_def Let_def split: if_splits)

lemma hoare_svc_map:
  assumes "\<And>x. x \<in> set xs \<Longrightarrow> hoare J (f x) (\<lambda>y s. J s \<and> Q y) (\<lambda>_. J)"
  shows "hoare J (svc_map f xs) (\<lambda>ys s. J s \<and> (\<forall>y \<in> set ys. Q y)) (\<lambda>_. J)"
  using assms
proof (induction xs)
  case Nil
  then show ?case by (simp add: hoare_def)
next
  case (Cons x xs)
  have f: "hoare J (f x) (\<lambda>y s. J s \<and> Q y) (\<lambda>_. J)" using Cons.prems by simp
  have rest: "hoare J (svc_map f xs) (\<lambda>ys s. J s \<and> (\<forall>y \<in> set ys. Q y)) (\<lambda>_. J)"
    using Cons by simp
  show ?case
    unfolding svc_map.simps
  proof (rule hoare_bind [OF f], rule hoare_bind)
    show "hoare (\<lambda>s. J s \<and> Q y) (svc_map f xs) (\<lambda>ys s. J s \<and> Q y \<and> (\<forall>y \<in> set ys. Q y)) (\<lambda>_. J)" for y
      by (rule hoareI) (auto dest: hoare_Inr [OF rest] hoare_Inl [OF rest])
    show "hoare (\<lambda>s. J s \<and> Q y \<and> (\<forall>y \<in> set ys. Q y)) (svc_return (y # ys))
        (\<lambda>ys s. J s \<and> (\<forall>y \<in> set ys. Q y)) (\<lambda>_. J)" for y ys
      by (rule hoare_return) simp
  qed
qed

lemma hoare_keeps: "hoare I m (\<lambda>_. I) (\<lambda>_. I) \<longleftrightarrow> keeps I m"
proof
  assume h: "hoare I m (\<lambda>_. I) (\<lambda>_. I)"
  show "keeps I m"
  proof (rule keepsI)
    fix s r t assume "I s" "m s = (r, t)"
    then show "I t" using h by (cases r) (auto dest: hoare_Inr hoare_Inl)
  qed
next
  assume "keeps I m" then show "hoare I m (\<lambda>_. I) (\<lambda>_. I)" by (auto intro: hoareI dest: keepsD)
qed

text \<open>The read of one identity, against documents that stay the same.\<close>

lemma hoare_existing_id:
  assumes "distinct (map am_id ds)" "id_clash_free env ds"
    and d: "am_scope_key d = k" "trim_text k = k" "am_id d = trim_text (build_memory_document_id env k dd)"
  shows "hoare (\<lambda>w. mw_docs w = ds \<and> others_unchanged uid conv w0 w)
    (svc_bind (mem_read (\<lambda>w. find_existing_document_id (am_scope_key d) (am_dedup_key d) (mw_docs w)))
      (\<lambda>i. svc_return (case i of Some x \<Rightarrow> if x \<noteq> [] then d\<lparr>am_id := x\<rparr> else d | None \<Rightarrow> d)))
    (\<lambda>r w. (mw_docs w = ds \<and> others_unchanged uid conv w0 w)
       \<and> (am_scope_key r = k \<and> (\<forall>e \<in> set ds. am_id e = am_id r \<longrightarrow> am_scope_key e = k)))
    (\<lambda>_ w. mw_docs w = ds \<and> others_unchanged uid conv w0 w)"
    (is "hoare ?J _ ?Q _")
proof (rule hoareI)
  fix w e w' assume "?J w"
    "svc_bind (mem_read (\<lambda>w. find_existing_document_id (am_scope_key d) (am_dedup_key d) (mw_docs w)))
      (\<lambda>i. svc_return (case i of Some x \<Rightarrow> if x \<noteq> [] then d\<lparr>am_id := x\<rparr> else d | None \<Rightarrow> d)) w = (Inl e, w')"
  then show "?J w'"
    using stepless_others [of uid conv w0]
    by (auto simp: svc_iffs mem_read_def stepless_def split: if_splits)
next
  fix w r w' assume J: "?J w" and run:
    "svc_bind (mem_read (\<lambda>w. find_existing_document_id (am_scope_key d) (am_dedup_key d) (mw_docs w)))
      (\<lambda>i. svc_return (case i of Some x \<Rightarrow> if x \<noteq> [] then d\<lparr>am_id := x\<rparr> else d | None \<Rightarrow> d)) w = (Inr r, w')"
  let ?i = "find_existing_document_id k (am_dedup_key d) ds"
  from run J d have r: "r = (case ?i of Some x \<Rightarrow> if x \<noteq> [] then d\<lparr>am_id := x\<rparr> else d | None \<Rightarrow> d)"
    and w': "w' = mem_tick w"
    by (auto simp: svc_iffs dest!: mem_read_Inr)
  have own: "am_scope_key e = k" if "e \<in> set ds" "am_id e = am_id d" for e
    using assms(2) that d unfolding id_clash_free_def by metis
  have found: "am_scope_key e = k" if "e \<in> set ds" "?i = Some (am_id e)" for e
  proof -
    from that(2) obtain e' where "find (\<lambda>d'. am_scope_key d' = k \<and> am_dedup_key d' = am_dedup_key d) ds = Some e'"
        "am_id e' = am_id e" by (auto simp: find_existing_document_id_def)
    then have "e' \<in> set ds" "am_scope_key e' = k" "am_id e' = am_id e" by (auto dest: find_SomeD)
    then show ?thesis using assms(1) that(1) by (metis row_get_in_set option.inject)
  qed
  have "am_scope_key r = k \<and> (\<forall>e \<in> set ds. am_id e = am_id r \<longrightarrow> am_scope_key e = k)"
    using own found d unfolding r by (auto split: option.splits)
  then show "?Q r w'"
    using J w' stepless_others [of uid conv w0] by (simp add: stepless_def)
qed

lemma keeps_batch_upsert_others:
  assumes "distinct (map am_id ds)" "id_clash_free env ds"
    and docs: "\<And>d. d \<in> set new \<Longrightarrow> am_scope_key d = build_self_memory_scope_key uid
       \<and> (\<exists>dd. am_id d = build_memory_document_id env (build_self_memory_scope_key uid) dd)"
  shows "hoare (\<lambda>w. mw_docs w = ds \<and> others_unchanged uid conv w0 w) (batch_upsert_documents env new)
    (\<lambda>_. others_unchanged uid conv w0) (\<lambda>_. others_unchanged uid conv w0)"
proof (cases "new = []")
  case True
  then show ?thesis by (simp add: batch_upsert_documents_def hoare_def)
next
  case False
  let ?k = "build_self_memory_scope_key uid"
  let ?J = "\<lambda>w. mw_docs w = ds \<and> others_unchanged uid conv w0 w"
  let ?O = "others_unchanged uid conv w0"
  let ?R = "\<lambda>r. am_scope_key r = ?k \<and> (\<forall>e \<in> set ds. am_id e = am_id r \<longrightarrow> am_scope_key e = ?k)"
  let ?row = "\<lambda>d. svc_bind (mem_read (\<lambda>w. find_existing_document_id (am_scope_key d) (am_dedup_key d) (mw_docs w)))
      (\<lambda>i. svc_return (case i of Some x \<Rightarrow> if x \<noteq> [] then d\<lparr>am_id := x\<rparr> else d | None \<Rightarrow> d))"
  have norm: "am_scope_key d = ?k \<and> (\<exists>dd. am_id d = trim_text (build_memory_document_id env ?k dd))"
    if "dedup_documents env [] new = Inr norm" "d \<in> set norm" for norm d
    by (rule dedup_documents_all [OF that(1) _ _ that(2)]) (use docs normalize_document_scope in fastforce)+
  have lift: "hoare ?J (svc_lift (dedup_documents env [] new))
      (\<lambda>norm w. ?J w \<and> dedup_documents env [] new = Inr norm) (\<lambda>_. ?O)"
    by (rule hoareI) auto
  have rows: "hoare ?J (svc_map ?row norm) (\<lambda>rs w. ?J w \<and> (\<forall>r \<in> set rs. ?R r)) (\<lambda>_. ?J)"
    if n: "dedup_documents env [] new = Inr norm" for norm
  proof (rule hoare_svc_map)
    fix d assume "d \<in> set norm"
    then obtain dd where "am_scope_key d = ?k" "am_id d = trim_text (build_memory_document_id env ?k dd)"
      using norm [OF n] by blast
    then show "hoare ?J (?row d) (\<lambda>r w. ?J w \<and> ?R r) (\<lambda>_. ?J)"
      by (intro hoare_existing_id [OF assms(1,2)]) simp_all
  qed
  have writes: "hoare (\<lambda>w. ?J w \<and> (\<forall>r \<in> set rs. ?R r))
      (mem_write (\<lambda>w. w\<lparr>mw_docs := fold (upsert_document (mem_now w)) rs (mw_docs w)\<rparr>)) (\<lambda>_. ?O) (\<lambda>_. ?O)" for rs
  proof -
    have "?O (w\<lparr>mw_docs := fold (upsert_document (mem_now w)) rs (mw_docs w)\<rparr>)"
      if "?J w" "\<forall>r \<in> set rs. ?R r" for w
    proof -
      have "filter (\<lambda>d. am_scope_key d \<noteq> ?k) (fold (upsert_document (mem_now w)) rs ds)
          = filter (\<lambda>d. am_scope_key d \<noteq> ?k) ds"
        by (rule filter_fold_upsert_document) (use that(2) in blast)+
      with that(1) show ?thesis by (auto simp: others_unchanged_def)
    qed
    then show ?thesis
      using stepless_others [of uid conv w0]
      by (intro hoareI) (auto simp: mem_write_def stepless_def split: mem_fate.splits)
  qed
  have rest: "hoare (\<lambda>w. ?J w \<and> dedup_documents env [] new = Inr norm)
      (svc_bind (svc_map ?row norm) (\<lambda>rows. svc_bind
         (mem_write (\<lambda>w. w\<lparr>mw_docs := fold (upsert_document (mem_now w)) rows (mw_docs w)\<rparr>))
         (\<lambda>_. svc_return rows))) (\<lambda>_. ?O) (\<lambda>_. ?O)" for norm
  proof (cases "dedup_documents env [] new = Inr norm")
    case True
    have "hoare ?J (svc_map ?row norm) (\<lambda>rs w. ?J w \<and> (\<forall>r \<in> set rs. ?R r)) (\<lambda>_. ?O)"
      by (rule hoare_conseq [OF rows [OF True]]) auto
    then have "hoare ?J (svc_bind (svc_map ?row norm) (\<lambda>rows. svc_bind
         (mem_write (\<lambda>w. w\<lparr>mw_docs := fold (upsert_document (mem_now w)) rows (mw_docs w)\<rparr>))
         (\<lambda>_. svc_return rows))) (\<lambda>_. ?O) (\<lambda>_. ?O)"
      by (rule hoare_bind) (rule hoare_bind [OF writes], rule hoare_return, assumption)
    then show ?thesis by (rule hoare_conseq) simp_all
  next
    case False
    then show ?thesis by (simp add: hoare_def)
  qed
  from False show ?thesis
    unfolding batch_upsert_documents_def
    by (simp only: if_False) (rule hoare_bind [OF lift rest])
qed

lemma candidate_document_self:
  assumes "candidate_document g env now acc c = Some d"
  shows "am_scope_key d = build_self_memory_scope_key (pr_user_id (ac_principal acc))"
    "\<exists>dd. am_id d = build_memory_document_id env (build_self_memory_scope_key (pr_user_id (ac_principal acc))) dd"
proof -
  have s: "dc_scope_type c = memory_scope_self" "de_allowed (sd_decision (document_scope c acc))"
    and d: "d = build_memory_document_entity g env now c (document_scope c acc)
      (resolve_visibility (document_scope c acc)) (should_store_document env c acc)
      (td_expires_at (resolve_ttl env now [] (dc_memory_type c) (dc_ttl_hint c)))"
    using assms by (auto simp: candidate_document_def Let_def split: if_splits)
  have "sd_scope_key (document_scope c acc) = build_self_memory_scope_key (pr_user_id (ac_principal acc))"
    using s unfolding document_scope_def by (intro resolve_scope_self(3)) simp_all
  with d show "am_scope_key d = build_self_memory_scope_key (pr_user_id (ac_principal acc))"
    "\<exists>dd. am_id d = build_memory_document_id env (build_self_memory_scope_key (pr_user_id (ac_principal acc))) dd"
    by (auto simp: build_memory_document_entity_def)
qed

lemma candidate_fact_self:
  assumes "fc_scope_type c = memory_scope_self" "de_allowed (sd_decision (fact_scope c acc))"
  shows "sd_scope_key (fact_scope c acc) = build_self_memory_scope_key (pr_user_id (ac_principal acc))"
    "sd_scope_type (fact_scope c acc) = memory_scope_self"
    "vd_visibility (resolve_visibility (fact_scope c acc)) = memory_visibility_self"
proof -
  have "resolve_scope \<lparr>si_scope_type = fc_scope_type c, si_user_id = fc_user_id c, si_org_id = fc_org_id c\<rparr> acc
      = fact_scope c acc" by (simp add: fact_scope_def)
  note R = resolve_scope_self [of "\<lparr>si_scope_type = fc_scope_type c, si_user_id = fc_user_id c, si_org_id = fc_org_id c\<rparr>" acc, unfolded this]
  show "sd_scope_key (fact_scope c acc) = build_self_memory_scope_key (pr_user_id (ac_principal acc))"
    and t: "sd_scope_type (fact_scope c acc) = memory_scope_self" using R assms by simp_all
  show "vd_visibility (resolve_visibility (fact_scope c acc)) = memory_visibility_self"
    using resolve_visibility_self [OF assms(2) t] by simp
qed

text \<open>\<open>only_writes\<close>: as \<open>others_unchanged\<close>, with the documents not written yet.\<close>

lemma keeps_mem_read_any: "stepless I \<Longrightarrow> keeps I (mem_read f)"
  by (rule keeps_mem_read)

lemma keeps_facts_others:
  assumes "uid = pr_user_id (ac_principal acc)"
  shows "keeps (\<lambda>w. mw_docs w = ds \<and> others_unchanged uid conv w0 w) (apply_fact_candidate env acc c)"
proof -
  let ?I = "\<lambda>w. mw_docs w = ds \<and> others_unchanged uid conv w0 w"
  have st: "stepless ?I" using stepless_others by (simp add: stepless_def)
  have "keeps ?I (write_fact env c (fact_scope c acc) (resolve_visibility (fact_scope c acc)))"
    if "fc_scope_type c = memory_scope_self" "de_allowed (sd_decision (fact_scope c acc))"
    unfolding write_fact_def Let_def
    by (rule keeps_mem_write [OF st])
       (use candidate_fact_self(1) [OF that] assms in
        \<open>auto simp: others_unchanged_def filter_upsert_fact build_memory_fact_entity_def\<close>)
  then show ?thesis
    unfolding apply_fact_candidate_def should_upsert_fact_def Let_def
    by (auto intro!: keeps_intro keeps_mem_read [OF st])
qed

lemma keeps_summary_others:
  "keeps (\<lambda>w. mw_docs w = ds \<and> others_unchanged uid (wi_conversation_id inp) w0 w)
    (apply_conversation_summary env inp p m d)"
proof (rule keepsI)
  let ?I = "\<lambda>w. mw_docs w = ds \<and> others_unchanged uid (wi_conversation_id inp) w0 w"
  fix w r w'
  assume w: "?I w" and run: "apply_conversation_summary env inp p m d w = (r, w')"
  have st: "stepless ?I" using stepless_others by (simp add: stepless_def)
  have conv: "as_conversation_id s = wi_conversation_id inp"
    if "build_conversation_summary_entity env now inp p m d = Some s" for now s
    using that by (auto simp: build_conversation_summary_entity_def Let_def
        split: refresh_mode.splits if_splits option.splits)
  have step: "keeps ?I (mem_write (\<lambda>w. w\<lparr>mw_summaries := upsert_conversation_summary (mem_now w) s (mw_summaries w)\<rparr>))"
    if "as_conversation_id s = wi_conversation_id inp" for s
    by (rule keeps_mem_write [OF st]) (auto simp: others_unchanged_def filter_upsert_summary that)
  show "?I w'"
  proof (cases "build_conversation_summary_entity env (mem_now w) inp p m d")
    case None
    with run w show ?thesis by (simp add: apply_conversation_summary_def)
  next
    case (Some s)
    with run keepsD [OF step [OF conv [OF Some]] w] show ?thesis by (simp add: apply_conversation_summary_def)
  qed
qed

lemma normalize_principal_user:
  "pr_user_id (normalize_memory_principal inp) =
     (if pr_user_id (wi_principal inp) = 0 then wi_user_id inp else pr_user_id (wi_principal inp))"
  by (simp add: normalize_memory_principal_def Let_def)

lemma turn_keeps_others:
  assumes "distinct (map am_id (mw_docs w0))" "id_clash_free env (mw_docs w0)"
  shows "hoare (\<lambda>w. mw_docs w = mw_docs w0 \<and>
      others_unchanged (pr_user_id (normalize_memory_principal inp)) (wi_conversation_id inp) w0 w)
    (on_turn_completed g env extract inp)
    (\<lambda>_. others_unchanged (pr_user_id (normalize_memory_principal inp)) (wi_conversation_id inp) w0)
    (\<lambda>_. others_unchanged (pr_user_id (normalize_memory_principal inp)) (wi_conversation_id inp) w0)"
proof -
  let ?uid = "pr_user_id (normalize_memory_principal inp)" and ?conv = "wi_conversation_id inp"
  let ?O = "others_unchanged ?uid ?conv w0"
  let ?J = "\<lambda>w. mw_docs w = mw_docs w0 \<and> ?O w"
  let ?acc = "build_memory_access_context inp"
  have uid: "?uid = pr_user_id (ac_principal ?acc)" by (simp add: build_memory_access_context_def)
  have st: "stepless ?J" using stepless_others by (simp add: stepless_def)
  have lift: "hoare ?J m (\<lambda>_. ?J) (\<lambda>_. ?O)" if "keeps ?J m" for m :: "'x mem"
    using that by (intro hoareI) (auto dest: keepsD)
  have snap: "keeps ?J (build_writeback_snapshot inp)"
    unfolding build_writeback_snapshot_def by (intro keeps_intro keeps_mem_read [OF st])
  have facts: "keeps ?J (apply_fact_candidates g env cs ?acc)" for cs
    unfolding apply_fact_candidates_def by (intro keeps_intro keeps_facts_others [OF uid])
  have docs: "hoare ?J (apply_document_candidates g env cs ?acc) (\<lambda>_. ?O) (\<lambda>_. ?O)" for cs
  proof -
    have new: "hoare ?J (batch_upsert_documents env (List.map_filter (candidate_document g env now ?acc) cs))
        (\<lambda>_. ?O) (\<lambda>_. ?O)" for now
      by (rule keeps_batch_upsert_others [OF assms])
         (use candidate_document_self uid in \<open>auto simp: List.map_filter_def\<close>)
    show ?thesis
    proof (rule hoareI)
      fix w a w' assume "?J w" "apply_document_candidates g env cs ?acc w = (Inr a, w')"
      then show "?O w'" using hoare_Inr [OF new]
        by (auto simp: apply_document_candidates_def Let_def split: if_splits)
    next
      fix w e w' assume "?J w" "apply_document_candidates g env cs ?acc w = (Inl e, w')"
      then show "?O w'" using hoare_Inl [OF new]
        by (auto simp: apply_document_candidates_def Let_def split: if_splits)
    qed
  qed
  have tail: "hoare ?J (svc_bind (apply_conversation_summary env inp p m d) (\<lambda>_.
      svc_bind (apply_fact_candidates g env fs ?acc) (\<lambda>_. apply_document_candidates g env dcs ?acc)))
      (\<lambda>_. ?O) (\<lambda>_. ?O)" for p m d fs dcs
    by (rule hoare_bind [OF lift [OF keeps_summary_others]], rule hoare_bind [OF lift [OF facts] docs])
  have stop: "hoare ?J (svc_return x) (\<lambda>_. ?O) (\<lambda>_. ?O)" "hoare ?J (svc_throw e) (\<lambda>_. ?O) (\<lambda>_. ?O)"
    for x e
    by (simp_all add: hoare_def)
  show ?thesis
    unfolding on_turn_completed_def Let_def
    by (auto intro!: stop hoare_bind [OF lift [OF snap]] tail split: option.split prod.split)
qed

subsection \<open>Overriding\<close>

text \<open>
  \<open>holds_rank\<close>: the fact of an identity is present, visible to its user, still valid at a time, and
  from a source of at least some priority.
\<close>

definition holds_rank :: "runes \<times> runes \<times> runes \<Rightarrow> nat \<Rightarrow> int \<Rightarrow> mem_world \<Rightarrow> bool" where
  "holds_rank i p t w \<longleftrightarrow> (\<exists>f \<in> set (mw_facts w). fact_ident f = i \<and> af_visibility f = memory_visibility_self
     \<and> unexpired t (af_expires_at f) \<and> p \<le> private_memory_source_priority (af_source_kind f))"

lemma stepless_holds_rank: "stepless (holds_rank i p t)"
  by (simp add: stepless_def holds_rank_def)

lemma row_put_in: "r \<in> set (row_put key r rows)"
  by (induction rows) auto

lemma row_put_other: "q \<in> set rows \<Longrightarrow> key q \<noteq> key r \<Longrightarrow> q \<in> set (row_put key r rows)"
  by (induction rows) auto

lemma upsert_fact_in:
  "\<exists>f' \<in> set (upsert_fact now f fs). fact_ident f' = fact_ident f \<and> af_source_kind f' = af_source_kind f
      \<and> af_visibility f' = af_visibility f \<and> af_expires_at f' = af_expires_at f"
proof (cases "row_get fact_ident fs (fact_ident f)")
  case None
  then show ?thesis by (simp add: upsert_fact_def)
next
  case (Some old)
  have "fact_overwrite now f old \<in> set (upsert_fact now f fs)"
    using Some by (simp add: upsert_fact_def row_put_in)
  then show ?thesis by (rule bexI [rotated]) (simp add: fact_overwrite_def fact_ident_def)
qed

lemma upsert_fact_other: "q \<in> set fs \<Longrightarrow> fact_ident q \<noteq> fact_ident f \<Longrightarrow> q \<in> set (upsert_fact now f fs)"
  by (auto simp: upsert_fact_def row_put_other split: option.split)

lemma distinct_single: "distinct xs \<Longrightarrow> set xs = {x} \<Longrightarrow> xs = [x]"
  by (cases xs; cases "tl xs") auto

lemma unexpired_mono: "s \<le> t \<Longrightarrow> unexpired t e \<Longrightarrow> unexpired s e"
  by (auto simp: unexpired_def split: option.splits)

lemma unexpired_days_after: "now < t + day_ns \<Longrightarrow> e = Some (days_after now' k) \<Longrightarrow> t \<le> now' \<Longrightarrow> 1 \<le> k \<Longrightarrow> unexpired now e"
proof -
  assume a: "now < t + day_ns" "e = Some (days_after now' k)" "t \<le> now'" "1 \<le> k"
  have "1 * day_ns \<le> k * day_ns" using a(4) by (intro mult_right_mono) (simp_all add: day_ns_def)
  with a show ?thesis by (simp add: unexpired_def days_after_def)
qed

lemma visibility_self_normal: "normalize_memory_visibilities [memory_visibility_self] = [memory_visibility_self]"
  by (simp add: normalize_memory_visibilities_def memory_consts ascii_def trim_text_def trim_right_by_def uspace_def)

text \<open>The query of a candidate finds the one fact of its identity.\<close>

lemma list_facts_unique:
  assumes "distinct (map fact_ident fs)" "f \<in> set fs" "fact_ident f = (k, ns, key)"
    "af_visibility f = memory_visibility_self" "unexpired now (af_expires_at f)" "ns \<noteq> []"
  shows "list_facts now \<lparr>fq_scope_keys = [k], fq_allowed_visibilities = [memory_visibility_self],
      fq_namespaces = [], fq_namespace = ns, fq_fact_keys = [key], fq_limit = 1\<rparr> fs = [f]"
proof -
  let ?P = "\<lambda>f. af_scope_key f = k \<and> af_visibility f = memory_visibility_self \<and> unexpired now (af_expires_at f)
      \<and> af_namespace f = ns \<and> af_fact_key f = key"
  have only: "q = f" if "q \<in> set fs" "?P q" for q
  proof -
    have "fact_ident q = fact_ident f" using that assms(3) by (simp add: fact_ident_def)
    then show ?thesis using assms(1,2) that(1) by (metis row_get_in_set option.inject)
  qed
  have "?P f" using assms(3-5) by (auto simp: fact_ident_def)
  with assms(2) have "f \<in> set (filter ?P fs)" by simp
  moreover have "q = f" if "q \<in> set (filter ?P fs)" for q using only [of q] that by simp
  ultimately have "set (filter ?P fs) = {f}" by blast
  moreover have "distinct (filter ?P fs)" using assms(1) by (simp add: distinct_map)
  ultimately have "filter ?P fs = [f]" by (rule distinct_single [rotated])
  then show ?thesis
    by (simp add: list_facts_def visibility_self_normal take_limit_def assms(6))
qed

lemma should_store_fact_namespace:
  "de_allowed (should_store_fact c acc) \<Longrightarrow> fc_namespace c \<noteq> []"
  by (auto simp: should_store_fact_def Let_def deny_decision_def split: if_splits)

lemma private_priority_self:
  "memory_source_priority memory_scope_self ns src = private_memory_source_priority src"
  by (simp add: memory_source_priority_def scope_distinct)

lemma override_needs_priority:
  "de_allowed (should_override_fact cur cand memory_scope_self ns) \<Longrightarrow>
   private_memory_source_priority (fv_source_kind cur) \<le> private_memory_source_priority (fv_source_kind cand)"
  by (auto simp: should_override_fact_def Let_def private_priority_self deny_decision_def split: if_splits)

text \<open>The clock stays within a day of \<open>t\<close>, so nothing written meanwhile expires.\<close>

definition within_day :: "int \<Rightarrow> mem_world \<Rightarrow> bool" where
  "within_day t w \<longleftrightarrow> (\<forall>n. t \<le> mw_clock w n \<and> mw_clock w n < t + day_ns)"

definition facts_distinct :: "mem_world \<Rightarrow> bool" where
  "facts_distinct w \<longleftrightarrow> distinct (map fact_ident (mw_facts w))"

lemma write_fact_holds_rank:
  assumes w: "facts_distinct w" "within_day t w" "holds_rank i p (t + day_ns - 1) w"
    and sd: "vd_visibility vd = memory_visibility_self"
    and rank: "i = (sd_scope_key sd, fc_namespace c, fc_fact_key c) \<Longrightarrow> p \<le> private_memory_source_priority (fc_source_kind c)"
  shows "holds_rank i p (t + day_ns - 1) (snd (write_fact env c sd vd w))"
proof -
  let ?now = "mem_now w"
  let ?ttl = "td_expires_at (resolve_ttl env ?now (fc_namespace c) [] (fc_ttl_hint c))"
  let ?f = "build_memory_fact_entity ?now c sd vd ?ttl"
  have now: "t \<le> ?now" using w(2) by (simp add: within_day_def mem_now_def)
  have exp: "unexpired (t + day_ns - 1) ?ttl"
  proof (cases ?ttl)
    case (Some e)
    then obtain k where "1 \<le> k" "e = days_after ?now k"
      using resolve_ttl_expiry by fastforce
    then show ?thesis using Some now by (intro unexpired_days_after [of _ t]) auto
  qed (simp add: unexpired_def)
  have new: "holds_rank i p (t + day_ns - 1) (w\<lparr>mw_facts := upsert_fact ?now ?f (mw_facts w)\<rparr>)"
  proof (cases "i = fact_ident ?f")
    case True
    then have "p \<le> private_memory_source_priority (fc_source_kind c)"
      by (intro rank) (simp add: fact_ident_def build_memory_fact_entity_def)
    then show ?thesis
      using upsert_fact_in [of ?now ?f "mw_facts w"] True exp sd
      unfolding holds_rank_def by (fastforce simp: build_memory_fact_entity_def)
  next
    case False
    then show ?thesis
      using w(3) upsert_fact_other [of _ "mw_facts w" ?f ?now]
      unfolding holds_rank_def by fastforce
  qed
  show ?thesis
    using new w(3) stepless_holds_rank
    by (auto simp: write_fact_def mem_write_def Let_def stepless_def split: mem_fate.split)
qed

lemma apply_fact_holds_rank:
  assumes w: "facts_distinct w" "within_day t w" "holds_rank i p (t + day_ns - 1) w"
    and run: "apply_fact_candidate env acc c w = (r, w')"
  shows "holds_rank i p (t + day_ns - 1) w'"
proof -
  let ?sd = "fact_scope c acc" and ?vd = "resolve_visibility (fact_scope c acc)"
  show ?thesis
  proof (cases "fc_scope_type c = memory_scope_self \<and> de_allowed (should_store_fact c acc)
      \<and> de_allowed (sd_decision ?sd) \<and> de_allowed (vd_decision ?vd)")
    case False
    then have "w' = w" using run by (auto simp: apply_fact_candidate_def Let_def split: if_splits)
    with w show ?thesis by simp
  next
    case True
    note self = candidate_fact_self [of c acc]
    have sd: "sd_scope_type ?sd = memory_scope_self" "vd_visibility ?vd = memory_visibility_self"
      using self True by simp_all
    have run': "svc_bind (should_upsert_fact c ?sd ?vd)
        (\<lambda>ok. if \<not> ok then svc_return () else write_fact env c ?sd ?vd) w = (r, w')"
      using run True by (simp add: apply_fact_candidate_def Let_def)
    let ?w = "mem_tick w"
    have w1: "facts_distinct ?w" "within_day t ?w" "holds_rank i p (t + day_ns - 1) ?w"
      using w stepless_holds_rank by (auto simp: stepless_def within_day_def facts_distinct_def)
    show ?thesis
    proof (cases "should_upsert_fact c ?sd ?vd w")
      case (Pair ok v)
      show ?thesis
      proof (cases ok)
        case (Inl e)
        then have "w' = v" using run' Pair by simp
        moreover have "v = ?w" using Pair Inl by (auto simp: should_upsert_fact_def svc_iffs mem_read_def split: if_splits)
        ultimately show ?thesis using w1 by simp
      next
        case (Inr b)
        then have v: "v = ?w" using Pair by (auto simp: should_upsert_fact_def svc_iffs dest!: mem_read_Inr)
        show ?thesis
        proof (cases b)
          case False
          then show ?thesis using run' Pair Inr v w1 by simp
        next
          case b: True
          have "holds_rank i p (t + day_ns - 1) (snd (write_fact env c ?sd ?vd ?w))"
          proof (rule write_fact_holds_rank [OF w1 sd(2)])
            assume i: "i = (sd_scope_key ?sd, fc_namespace c, fc_fact_key c)"
            obtain f where f: "f \<in> set (mw_facts w)" "fact_ident f = i" "af_visibility f = memory_visibility_self"
                "unexpired (t + day_ns - 1) (af_expires_at f)" "p \<le> private_memory_source_priority (af_source_kind f)"
              using w(3) unfolding holds_rank_def by blast
            have now: "mem_now w \<le> t + day_ns - 1"
              using w(2) by (auto simp: within_day_def mem_now_def)
            have "list_facts (mem_now w) (fact_version_query c ?sd ?vd) (mw_facts w) = [f]"
              unfolding fact_version_query_def sd(2)
              using w(1) f i should_store_fact_namespace [of c acc] True unexpired_mono [OF now f(4)]
              by (intro list_facts_unique) (simp_all add: facts_distinct_def)
            then have "de_allowed (should_override_fact
                \<lparr>fv_value_json = af_fact_value_json f, fv_source_kind = af_source_kind f\<rparr>
                \<lparr>fv_value_json = fc_fact_value_json c, fv_source_kind = fc_source_kind c\<rparr>
                memory_scope_self (fc_namespace c))"
              using Pair Inr b sd(1) by (auto simp: should_upsert_fact_def svc_iffs dest!: mem_read_Inr)
            from override_needs_priority [OF this] f(5)
            show "p \<le> private_memory_source_priority (fc_source_kind c)" by simp
          qed
          then show ?thesis using run' Pair Inr v b by simp
        qed
      qed
    qed
  qed
qed

lemma stepless_within_day: "stepless (within_day t)"
  by (simp add: stepless_def within_day_def)

lemma within_day_clock: "mw_clock w' = mw_clock w \<Longrightarrow> within_day t w' = within_day t w"
  by (simp add: within_day_def)

lemma write_fact_clock: "keeps (within_day t) (write_fact env c sd vd)"
  unfolding write_fact_def Let_def
  by (rule keeps_mem_write [OF stepless_within_day]) (simp add: within_day_def)

lemma apply_fact_clock: "keeps (within_day t) (apply_fact_candidate env acc c)"
  unfolding apply_fact_candidate_def should_upsert_fact_def Let_def
  by (intro keeps_intro keeps_mem_read [OF stepless_within_day] write_fact_clock)

lemma distinct_apply_fact: "keeps facts_distinct (apply_fact_candidate env acc c)"
proof -
  have st: "stepless facts_distinct" by (simp add: stepless_def facts_distinct_def)
  have wr: "keeps facts_distinct (write_fact env c sd vd)" for sd vd
    unfolding write_fact_def Let_def
    by (rule keeps_mem_write [OF st]) (simp add: facts_distinct_def distinct_upsert_fact)
  show ?thesis
    unfolding apply_fact_candidate_def should_upsert_fact_def Let_def
    by (intro keeps_intro keeps_mem_read [OF st] wr)
qed

lemma apply_facts_hold_rank:
  "keeps (\<lambda>w. facts_distinct w \<and> within_day t w \<and> holds_rank i p (t + day_ns - 1) w)
     (apply_fact_candidates g env cs acc)"
  unfolding apply_fact_candidates_def
proof (intro keeps_intro)
  fix c
  show "keeps (\<lambda>w. facts_distinct w \<and> within_day t w \<and> holds_rank i p (t + day_ns - 1) w) (apply_fact_candidate env acc c)"
    by (rule keepsI)
       (auto intro: keepsD [OF distinct_apply_fact] keepsD [OF apply_fact_clock] apply_fact_holds_rank)
qed

text \<open>The rest of a turn writes neither facts nor the clock.\<close>

lemma keeps_apply_summary:
  assumes "stepless I" "\<And>w s. I w \<Longrightarrow> I (w\<lparr>mw_summaries := s\<rparr>)"
  shows "keeps I (apply_conversation_summary env inp p m d)"
proof (rule keepsI)
  fix w r w'
  assume w: "I w" and run: "apply_conversation_summary env inp p m d w = (r, w')"
  have step: "keeps I (mem_write (\<lambda>w. w\<lparr>mw_summaries := upsert_conversation_summary (mem_now w) s (mw_summaries w)\<rparr>))" for s
    by (rule keeps_mem_write [OF assms(1)]) (rule assms(2))
  show "I w'"
    using run w keepsD [OF step w] by (auto simp: apply_conversation_summary_def split: option.splits)
qed

lemma keeps_apply_documents:
  assumes "stepless I" "\<And>w ds. I w \<Longrightarrow> I (w\<lparr>mw_docs := ds\<rparr>)"
  shows "keeps I (apply_document_candidates g env cs acc)"
proof (rule keepsI)
  fix w r w'
  assume w: "I w" and run: "apply_document_candidates g env cs acc w = (r, w')"
  have step: "keeps I (batch_upsert_documents env ds)" for ds
    unfolding batch_upsert_documents_def
    by (intro keeps_intro keeps_mem_read [OF assms(1)] keeps_mem_write [OF assms(1)]) (rule assms(2))
  show "I w'"
    using run w keepsD [OF step w] by (auto simp: apply_document_candidates_def Let_def split: if_splits)
qed

lemma keeps_turn:
  assumes "stepless I" "\<And>w s. I w \<Longrightarrow> I (w\<lparr>mw_summaries := s\<rparr>)" "\<And>w ds. I w \<Longrightarrow> I (w\<lparr>mw_docs := ds\<rparr>)"
    and facts: "\<And>cs acc. keeps I (apply_fact_candidates g env cs acc)"
  shows "keeps I (on_turn_completed g env extract inp)"
  unfolding on_turn_completed_def build_writeback_snapshot_def Let_def
  by (intro keeps_intro keeps_mem_read [OF assms(1)] keeps_apply_summary [OF assms(1,2)]
      keeps_apply_documents [OF assms(1,3)] facts)

lemma turn_holds_rank:
  assumes "mem_wf w" "within_day t w" "holds_rank i p (t + day_ns - 1) w"
  shows "holds_rank i p (t + day_ns - 1) (snd (on_turn_completed g env extract inp w))"
proof -
  have "keeps (\<lambda>w. facts_distinct w \<and> within_day t w \<and> holds_rank i p (t + day_ns - 1) w)
      (on_turn_completed g env extract inp)"
    by (rule keeps_turn [OF _ _ _ apply_facts_hold_rank])
       (simp_all add: stepless_def facts_distinct_def within_day_def holds_rank_def)
  then show ?thesis using assms by (simp add: keeps_def facts_distinct_def mem_wf_def)
qed

end
