(* ===== verification/Chunker_Correct.thy ===== *)
theory Chunker_Correct
  imports Text_Chunker
begin

text \<open>
  The chunker returns, keeps its parts within the limit and loses nothing visible.

  \<open>gives r Q\<close> is a total-correctness statement on an optional result: the function returns and
  its result satisfies \<open>Q\<close>. Three kinds of \<open>Q\<close> are carried through the functions:
  \<open>parts_within m\<close> (no part is longer than \<open>m\<close>), \<open>parts_hold s\<close> (the parts are exactly the
  visible characters of \<open>s\<close>, in order) and \<open>parts_cover s\<close> (these characters occur in that
  order in the parts, which may repeat a table header, a fence, a list marker or an overlap).
\<close>

subsection \<open>Total correctness\<close>

definition gives :: "'a option \<Rightarrow> ('a \<Rightarrow> bool) \<Rightarrow> bool" where
  "gives r Q \<longleftrightarrow> (\<exists>x. r = Some x \<and> Q x)"

lemma gives_Some [simp]: "gives (Some x) Q \<longleftrightarrow> Q x"
  by (simp add: gives_def)

lemma gives_bind [simp]: "gives (Option.bind r f) Q \<longleftrightarrow> gives r (\<lambda>x. gives (f x) Q)"
  by (cases r) (simp_all add: gives_def)

lemma gives_mono: "gives r P \<Longrightarrow> (\<And>x. P x \<Longrightarrow> Q x) \<Longrightarrow> gives r Q"
  by (auto simp: gives_def)

lemma gives_conj: "gives r P \<Longrightarrow> gives r Q \<Longrightarrow> gives r (\<lambda>x. P x \<and> Q x)"
  by (auto simp: gives_def)

definition parts_within :: "int \<Rightarrow> runes list \<Rightarrow> bool" where
  "parts_within m ps \<longleftrightarrow> (\<forall>p \<in> set ps. rune_count p \<le> m)"

definition parts_hold :: "runes \<Rightarrow> runes list \<Rightarrow> bool" where
  "parts_hold s ps \<longleftrightarrow> visible (concat ps) = visible s"

definition parts_cover :: "runes \<Rightarrow> runes list \<Rightarrow> bool" where
  "parts_cover s ps \<longleftrightarrow> subseq (visible s) (visible (concat ps))"

named_theorems part_simps \<open>parts of empty, single and appended lists\<close>

lemma parts_within_simps [part_simps]:
  "parts_within m []" "parts_within m (p # ps) \<longleftrightarrow> rune_count p \<le> m \<and> parts_within m ps"
  "parts_within m (ps @ qs) \<longleftrightarrow> parts_within m ps \<and> parts_within m qs"
  by (auto simp: parts_within_def)

lemma parts_hold_cover: "parts_hold s ps \<Longrightarrow> parts_cover s ps"
  by (simp add: parts_hold_def parts_cover_def)

lemma rune_count_trim: "rune_count (trim_text s) \<le> rune_count s"
  by (simp add: rune_count_def text_length)

lemma rune_count_trim_le: "rune_count s \<le> m \<Longrightarrow> rune_count (trim_text s) \<le> m"
  using rune_count_trim [of s] by simp

lemma rune_count_nonneg [simp]: "0 \<le> rune_count s"
  by (simp add: rune_count_def)

lemma rune_count_simps [simp]: "rune_count [] = 0" "rune_count (x # s) = 1 + rune_count s"
    "rune_count (s @ t) = rune_count s + rune_count t"
  by (simp_all add: rune_count_def)

lemma within_keep_part: "rune_count cur \<le> m \<Longrightarrow> parts_within m (keep_part cur)"
  by (simp add: keep_part_def part_simps)

lemma visible_keep_part: "visible (concat (keep_part cur)) = visible cur"
  by (simp add: keep_part_def trim_text_Nil_iff)

lemma visible_non_blank: "visible (concat (non_blank s)) = visible s"
  by (simp add: non_blank_def)

lemma normalize_inline_visible [visible_simps]: "visible (normalize_inline_text s) = visible s"
  by (simp add: normalize_inline_text_def visible_join_text visible_Cons visible_text_fields
      visible_simps)

lemma normalize_document_visible [visible_simps]:
  "visible (normalize_chunk_document_text s) = visible s"
  by (simp add: normalize_chunk_document_text_def visible_simps)

lemma split_raw_lines_visible: "visible (concat (split_raw_lines s)) = visible s"
proof -
  have "visible (concat (map trim_blanks (split_at_rune 10 t))) = visible t" for t
    by (simp add: visible_concat comp_def visible_simps visible_split_at_rune)
  then show ?thesis
    using normalize_document_visible [of s] by (auto simp: split_raw_lines_def Let_def)
qed

subsection \<open>Windows\<close>

lemma rune_slice_step:
  assumes "0 \<le> a" "a \<le> b"
  shows "rune_slice a b rs @ drop (nat b) rs = drop (nat a) rs"
proof -
  have "drop (nat b) rs = drop (nat (b - a)) (drop (nat a) rs)"
    using assms by (simp add: nat_diff_distrib)
  then show ?thesis by (metis rune_slice_def append_take_drop_id)
qed

lemma rune_count_slice: "a \<le> b \<Longrightarrow> rune_count (rune_slice a b rs) \<le> b - a"
  by (simp add: rune_slice_def rune_count_def)

lemma window_loop_gives:
  assumes "0 < m" "0 \<le> start"
  shows "gives (window_loop rs m m start)
    (\<lambda>ws. parts_within m ws \<and> visible (concat ws) = visible (drop (nat start) rs))"
  using assms(2)
proof (induction "nat (rune_count rs - start)" arbitrary: start rule: less_induct)
  case less
  show ?case
  proof (cases "start < rune_count rs")
    case False
    then have "drop (nat start) rs = []" by (simp add: rune_count_def)
    with False show ?thesis by (simp add: window_loop.simps [of rs m m start] part_simps)
  next
    case True
    define stop where "stop = (if start + m > rune_count rs then rune_count rs else start + m)"
    have stop: "start < stop" "stop - start \<le> m" "stop \<le> rune_count rs"
      using True assms(1) by (auto simp: stop_def)
    define w where "w = trim_text (rune_slice start stop rs)"
    have w: "rune_count w \<le> m"
      using rune_count_slice [of start stop rs] stop unfolding w_def
      by (intro rune_count_trim_le) simp
    have v: "visible w @ visible (drop (nat stop) rs) = visible (drop (nat start) rs)"
      using rune_slice_step [of start stop rs] stop less.prems
      by (simp add: w_def visible_simps flip: visible_append)
    have unf: "window_loop rs m m start =
        (if stop = rune_count rs then Some (non_blank w)
         else do { more \<leftarrow> window_loop rs m m (start + m); Some (non_blank w @ more) })"
      using True stop less.prems
      by (subst window_loop.simps) (simp add: stop_def [symmetric] w_def Let_def)
    have nb: "parts_within m (non_blank w)" using w by (simp add: non_blank_def part_simps)
    show ?thesis
    proof (cases "stop = rune_count rs")
      case True
      then have "drop (nat stop) rs = []" by (simp add: rune_count_def)
      with True v nb show ?thesis by (simp add: unf visible_non_blank)
    next
      case False
      then have next_: "start + m = stop" by (auto simp: stop_def split: if_splits)
      have "gives (window_loop rs m m (start + m))
          (\<lambda>ws. parts_within m ws \<and> visible (concat ws) = visible (drop (nat (start + m)) rs))"
        using less.prems assms(1) True by (intro less.hyps) simp_all
      then show ?thesis
        using False v nb
        by (simp add: unf next_, elim gives_mono) (simp add: part_simps visible_append visible_non_blank)
    qed
  qed
qed

lemma split_by_rune_window_gives:
  assumes "0 < m"
  shows "gives (split_by_rune_window v m 0) (\<lambda>ws. parts_within m ws \<and> parts_hold v ws)"
  using window_loop_gives [OF assms, of 0 v] assms
  by (auto simp: split_by_rune_window_def Let_def parts_hold_def part_simps visible_simps
      intro: rune_count_trim_le)

lemma collect_parts_gives:
  assumes "\<And>x. x \<in> set xs \<Longrightarrow> gives (f x) (\<lambda>ws. parts_within m ws \<and> parts_hold (g x) ws)"
  shows "gives (collect_parts f xs) (\<lambda>ws. parts_within m ws \<and> parts_hold (concat (map g xs)) ws)"
  using assms
proof (induction xs)
  case (Cons x xs)
  have "gives (f x) (\<lambda>ws. parts_within m ws \<and> parts_hold (g x) ws)" using Cons.prems by simp
  moreover have "gives (collect_parts f xs)
      (\<lambda>ws. parts_within m ws \<and> parts_hold (concat (map g xs)) ws)"
    using Cons by simp
  ultimately show ?case
    by (auto simp: gives_def parts_hold_def part_simps visible_append)
qed (simp add: part_simps parts_hold_def)

subsection \<open>Narrative units\<close>

lemma boundaries_loop_visible:
  "visible (concat (boundaries_loop P cur s)) = visible cur @ visible s"
  by (induction P cur s rule: boundaries_loop.induct)
     (simp_all add: visible_append visible_non_blank visible_simps visible_Cons)

lemma split_by_boundaries_visible: "visible (concat (split_by_boundaries s P)) = visible s"
  by (auto simp: split_by_boundaries_def boundaries_loop_visible trim_text_Nil_iff)

lemma split_or_whole_visible:
  "visible (concat (let ws = split_by_boundaries s P in if ws = [] then [s] else ws)) = visible s"
  using split_by_boundaries_visible [of s P] by (simp add: Let_def)

lemma soft_unit_parts_gives:
  "0 < m \<Longrightarrow> gives (soft_unit_parts m u) (\<lambda>ws. parts_within m ws \<and> parts_hold u ws)"
  using split_by_rune_window_gives [of m "normalize_inline_text u"]
    normalize_inline_visible [of u]
  by (auto simp: soft_unit_parts_def Let_def parts_hold_def part_simps)

lemma strong_unit_parts_gives:
  assumes "0 < m"
  shows "gives (strong_unit_parts m u) (\<lambda>ws. parts_within m ws \<and> parts_hold u ws)"
proof -
  let ?u = "normalize_inline_text u"
  let ?us = "let ws = split_by_boundaries ?u is_soft_sentence_boundary in if ws = [] then [?u] else ws"
  have "gives (collect_parts (soft_unit_parts m) ?us)
      (\<lambda>ws. parts_within m ws \<and> parts_hold (concat (map (\<lambda>x. x) ?us)) ws)"
    by (rule collect_parts_gives) (rule soft_unit_parts_gives [OF assms])
  then have "gives (collect_parts (soft_unit_parts m) ?us) (\<lambda>ws. parts_within m ws \<and> parts_hold u ws)"
    using split_or_whole_visible [of ?u is_soft_sentence_boundary]
    by (simp add: parts_hold_def visible_simps)
  then show ?thesis
    using normalize_inline_visible [of u]
    by (auto simp: strong_unit_parts_def Let_def parts_hold_def part_simps)
qed

lemma split_narrative_units_gives:
  assumes "0 < m"
  shows "gives (split_narrative_units s m) (\<lambda>ws. parts_within m ws \<and> parts_hold s ws)"
proof -
  let ?u = "normalize_inline_text s"
  let ?us = "let ws = split_by_boundaries ?u is_strong_sentence_boundary in if ws = [] then [?u] else ws"
  have "gives (collect_parts (strong_unit_parts m) ?us)
      (\<lambda>ws. parts_within m ws \<and> parts_hold (concat (map (\<lambda>x. x) ?us)) ws)"
    by (rule collect_parts_gives) (rule strong_unit_parts_gives [OF assms])
  then have "gives (collect_parts (strong_unit_parts m) ?us) (\<lambda>ws. parts_within m ws \<and> parts_hold s ws)"
    using split_or_whole_visible [of ?u is_strong_sentence_boundary]
    by (simp add: parts_hold_def visible_simps)
  then show ?thesis
    using normalize_inline_visible [of s] assms
    by (auto simp: split_narrative_units_def Let_def parts_hold_def part_simps)
qed

subsection \<open>Sequences with overlap\<close>

lemma subseq_into_right: "subseq xs zs \<Longrightarrow> subseq xs (ys @ zs)"
  by (metis append_Nil list_emb_append2 )

lemma subseq_keep_left: "subseq xs ys \<Longrightarrow> subseq (zs @ xs) (zs @ ys)"
  by (rule list_emb_append_mono) simp_all

lemma join_chunk_parts_visible:
  "visible sep = [] \<Longrightarrow> visible (join_chunk_parts l r sep) = visible l @ visible r"
  using trim_text_Nil_iff [of l] trim_text_Nil_iff [of r]
  by (auto simp: join_chunk_parts_def Let_def visible_simps)

lemma start_overlap_within:
  "rune_count nxt \<le> pc_max_chars c \<Longrightarrow>
   rune_count (start_chunk_with_overlap c prev nxt sep) \<le> max 0 (pc_max_chars c)"
  using rune_count_trim [of nxt] by (auto simp: start_chunk_with_overlap_def Let_def)

lemma start_overlap_visible:
  assumes "visible sep = []"
  shows "\<exists>ov. visible (start_chunk_with_overlap c prev nxt sep) = ov @ visible nxt"
  using trim_text_Nil_iff [of nxt]
  by (auto simp: start_chunk_with_overlap_def Let_def join_chunk_parts_visible assms visible_simps)

lemma sequence_loop_within:
  assumes "0 < pc_max_chars c" "rune_count cur \<le> pc_max_chars c" "parts_within (pc_max_chars c) ps"
  shows "parts_within (pc_max_chars c) (sequence_loop c sep cur ps)"
  using assms
proof (induction c sep cur ps rule: sequence_loop.induct)
  case (2 c sep cur p ps)
  have p: "rune_count (trim_text p) \<le> pc_max_chars c"
    using 2(7) rune_count_trim [of p] by (simp add: part_simps)
  have "rune_count (start_chunk_with_overlap c cur (trim_text p) sep) \<le> pc_max_chars c"
    using start_overlap_within [OF p, of cur sep] 2(5) by simp
  with p 2 show ?case by (auto simp: Let_def part_simps)
qed (simp add: within_keep_part)

lemma sequence_loop_covers:
  assumes "visible sep = []"
  shows "subseq (visible cur @ visible (concat ps)) (visible (concat (sequence_loop c sep cur ps)))"
  using assms
proof (induction c sep cur ps rule: sequence_loop.induct)
  case (2 c sep cur p ps)
  let ?part = "trim_text p"
  consider (blank) "?part = []" | (first) "?part \<noteq> []" "cur = []"
    | (fits) "?part \<noteq> []" "cur \<noteq> []" "rune_count (join_chunk_parts cur ?part sep) \<le> pc_max_chars c"
    | (flush) "?part \<noteq> []" "cur \<noteq> []" "\<not> rune_count (join_chunk_parts cur ?part sep) \<le> pc_max_chars c"
    by blast
  then show ?case
  proof cases
    case flush
    obtain ov where ov: "visible (start_chunk_with_overlap c cur ?part sep) = ov @ visible p"
      using start_overlap_visible [OF 2(5), of c cur ?part] by (auto simp: visible_simps)
    have "subseq (visible (start_chunk_with_overlap c cur ?part sep) @ visible (concat ps))
        (visible (concat (sequence_loop c sep (start_chunk_with_overlap c cur ?part sep) ps)))"
      using 2(4) [OF refl _ _ refl] flush 2(5) by simp
    then have "subseq (visible p @ visible (concat ps))
        (visible (concat (sequence_loop c sep (start_chunk_with_overlap c cur ?part sep) ps)))"
      unfolding ov by (metis append.assoc subseq_order.order_trans subseq_into_right subseq_order.order_refl)
    then show ?thesis using flush by (simp add: Let_def visible_append subseq_keep_left)
  next
    case blank
    then have "visible p = []" by (simp add: trim_text_Nil_iff)
    with blank 2 show ?thesis by (simp add: visible_append)
  next
    case first
    with 2(2) [OF refl] 2(5) show ?thesis by (simp add: visible_append visible_simps)
  next
    case fits
    with 2(3) [OF refl _ _ refl] 2(5) show ?thesis
      by (simp add: visible_append visible_simps join_chunk_parts_visible)
  qed
qed (simp add: visible_keep_part)

lemma build_chunk_sequence_within:
  "0 < pc_max_chars c \<Longrightarrow> parts_within (pc_max_chars c) ps \<Longrightarrow>
   parts_within (pc_max_chars c) (build_chunk_sequence c ps sep)"
  by (simp add: build_chunk_sequence_def part_simps sequence_loop_within)

lemma build_chunk_sequence_covers:
  "visible sep = [] \<Longrightarrow> subseq (visible (concat ps)) (visible (concat (build_chunk_sequence c ps sep)))"
  using sequence_loop_covers [of sep "[]" ps c] by (simp add: build_chunk_sequence_def)

subsection \<open>Headings and prose\<close>

lemma split_heading_block_gives:
  assumes "0 < pc_max_chars c"
  shows "gives (split_heading_block c s) (\<lambda>ws. parts_within (pc_max_chars c) ws \<and> parts_cover s ws)"
proof -
  have "gives (split_by_rune_window (normalize_inline_text s) (pc_max_chars c) 0)
      (\<lambda>ws. parts_within (pc_max_chars c) ws \<and> parts_cover s ws)"
    by (rule gives_mono [OF split_by_rune_window_gives [OF assms]])
       (simp add: parts_hold_def parts_cover_def visible_simps)
  then show ?thesis
    using normalize_inline_visible [of s]
    by (auto simp: split_heading_block_def Let_def parts_cover_def part_simps)
qed

lemma split_prose_block_gives:
  assumes "0 < pc_max_chars c"
  shows "gives (split_prose_block c s) (\<lambda>ws. parts_within (pc_max_chars c) ws \<and> parts_cover s ws)"
proof -
  have "gives (split_narrative_units (normalize_inline_text s) (pc_max_chars c))
      (\<lambda>us. parts_within (pc_max_chars c) (build_chunk_sequence c us [32])
          \<and> parts_cover s (build_chunk_sequence c us [32]))"
    by (rule gives_mono [OF split_narrative_units_gives [OF assms]])
       (auto simp: parts_hold_def parts_cover_def visible_simps visible_Cons
          intro: build_chunk_sequence_within [OF assms] dest!: sym [of "visible _" "visible s"]
          intro!: build_chunk_sequence_covers)
  then show ?thesis
    using normalize_inline_visible [of s]
    by (auto simp: split_prose_block_def Let_def parts_cover_def part_simps)
qed

subsection \<open>Lists\<close>

lemma collect_parts_gives_within:
  assumes "\<And>x. x \<in> set xs \<Longrightarrow> gives (f x) (parts_within m)"
  shows "gives (collect_parts f xs) (parts_within m)"
  using assms
proof (induction xs)
  case (Cons x xs)
  then have "gives (f x) (parts_within m)" "gives (collect_parts f xs) (parts_within m)" by simp_all
  then show ?case by (auto simp: gives_def part_simps)
qed (simp add: part_simps)

lemma collect_parts_gives_cover:
  assumes "\<And>x. x \<in> set xs \<Longrightarrow> gives (f x) (parts_cover (g x))"
  shows "gives (collect_parts f xs) (parts_cover (concat (map g xs)))"
  using assms
proof (induction xs)
  case (Cons x xs)
  then have "gives (f x) (parts_cover (g x))"
    "gives (collect_parts f xs) (parts_cover (concat (map g xs)))" by simp_all
  then show ?case by (auto simp: gives_def parts_cover_def visible_append intro: list_emb_append_mono)
qed (simp add: parts_cover_def)

lemma visible_drop_last: "k < length l \<Longrightarrow> \<not> uspace (last l) \<Longrightarrow> visible (drop k l) \<noteq> []"
  unfolding visible_Nil_iff by (metis drop_eq_Nil last_drop last_in_set not_less)

lemma parse_list_marker_parts:
  assumes "parse_list_marker t = Some (mk, body)"
  shows "visible mk @ visible body = visible t" "visible body \<noteq> []"
proof -
  let ?l = "trim_text t"
  obtain k where k: "k < length ?l" "visible mk = visible (take k ?l)" "visible body = visible (drop k ?l)"
  proof (cases "2 \<le> length ?l \<and> (?l ! 0 = 45 \<or> ?l ! 0 = 42 \<or> ?l ! 0 = 43) \<and> (?l ! 1 = 32 \<or> ?l ! 1 = 9)")
    case True
    then have "mk = [?l ! 0]" "body = trim_text (drop 1 ?l)"
      using assms by (auto simp: parse_list_marker_def Let_def)
    moreover have "[?l ! 0] = take 1 ?l" using True by (cases ?l) auto
    ultimately show thesis using True that [of 1] by (simp add: visible_simps)
  next
    case False
    let ?i = "length (takeWhile is_digit_rune ?l) + 1"
    have "?i < length ?l" "mk = trim_text (take ?i ?l)" "body = trim_text (drop ?i ?l)"
      using assms unfolding parse_list_marker_def Let_def if_not_P [OF False]
      by (simp_all split: if_splits)
    then show thesis using that [of ?i] by (simp add: visible_simps)
  qed
  have "visible (take k ?l) @ visible (drop k ?l) = visible ?l"
    by (simp flip: visible_append)
  then show "visible mk @ visible body = visible t" using k by (simp add: visible_simps)
  from k(1) have "\<not> uspace (last ?l)" using trim_text_last [of t] by fastforce
  with k show "visible body \<noteq> []" using visible_drop_last [of k ?l] by simp
qed

abbreviation item_text :: "chunk_list_item \<Rightarrow> runes" where
  "item_text i \<equiv> li_marker i @ li_text i"

lemma list_items_loop_nonblank:
  "i \<in> set (list_items_loop cur ls) \<Longrightarrow> visible (li_text i) \<noteq> []"
  by (induction ls arbitrary: cur)
     (auto simp: flush_item_def Let_def trim_text_Nil_iff split: if_splits option.splits prod.splits)

lemma flush_item_visible:
  "(visible (li_text cur) = [] \<Longrightarrow> visible (li_marker cur) = []) \<Longrightarrow>
   visible (concat (map item_text (flush_item cur))) = visible (item_text cur)"
  by (auto simp: flush_item_def trim_text_Nil_iff visible_append)

lemma list_items_loop_covers:
  assumes "visible (li_text cur) = [] \<Longrightarrow> visible (li_marker cur) = []"
  shows "subseq (visible (item_text cur) @ visible (concat ls))
    (visible (concat (map item_text (list_items_loop cur ls))))"
  using assms
proof (induction ls arbitrary: cur)
  case Nil
  then show ?case using flush_item_visible [of cur] by simp
next
  case (Cons l ls)
  let ?t = "trim_text l"
  let ?next = "list_items_loop \<lparr>li_marker = [45], li_text = ?t\<rparr> ls"
  let ?more = "list_items_loop (cur\<lparr>li_text := trim_text (li_text cur @ [32] @ ?t)\<rparr>) ls"
  consider (blank) "?t = []" | (bare) "?t \<noteq> []" "parse_list_marker ?t = None" "li_text cur = []"
    | (more) "?t \<noteq> []" "parse_list_marker ?t = None" "li_text cur \<noteq> []"
    | (item) mk body where "?t \<noteq> []" "parse_list_marker ?t = Some (mk, body)"
    by (cases "parse_list_marker ?t") auto
  then show ?case
  proof cases
    case blank
    then have "visible l = []" by (simp add: trim_text_Nil_iff)
    with blank Cons show ?thesis by (simp add: visible_append)
  next
    case bare
    then have l: "visible l \<noteq> []" by (simp add: trim_text_Nil_iff)
    then have "subseq (visible ([45] @ ?t) @ visible (concat ls)) (visible (concat (map item_text ?next)))"
      using Cons.IH [of "\<lparr>li_marker = [45], li_text = ?t\<rparr>"] by (simp add: visible_simps)
    then have "subseq (visible l @ visible (concat ls)) (visible (concat (map item_text ?next)))"
      by (metis append.assoc subseq_into_right subseq_order.order_trans subseq_order.order_refl
          visible_append visible_trim_text)
    with bare Cons.prems show ?thesis by (simp add: Let_def visible_append)
  next
    case more
    then have l: "visible l \<noteq> []" by (simp add: trim_text_Nil_iff)
    then have "subseq (visible (li_marker cur) @ visible (li_text cur) @ visible l @ visible (concat ls))
        (visible (concat (map item_text ?more)))"
      using Cons.IH [of "cur\<lparr>li_text := trim_text (li_text cur @ [32] @ ?t)\<rparr>"]
      by (simp add: visible_simps visible_Cons)
    with more show ?thesis by (simp add: Let_def visible_append)
  next
    case item
    note P = parse_list_marker_parts [OF item(2)]
    have "subseq (visible l @ visible (concat ls))
        (visible (concat (map item_text (list_items_loop \<lparr>li_marker = mk, li_text = body\<rparr> ls))))"
      using Cons.IH [of "\<lparr>li_marker = mk, li_text = body\<rparr>"] P by (simp add: visible_simps)
    then show ?thesis
      using item flush_item_visible [OF Cons.prems]
      by (simp add: Let_def visible_append subseq_keep_left)
  qed
qed

lemma split_list_items_covers:
  "subseq (visible s) (visible (concat (map item_text (split_list_items s))))"
  using list_items_loop_covers [of "\<lparr>li_marker = [], li_text = []\<rparr>" "split_raw_lines s"]
  by (simp add: split_list_items_def split_raw_lines_visible)

lemma split_list_items_nonblank: "i \<in> set (split_list_items s) \<Longrightarrow> visible (li_text i) \<noteq> []"
  unfolding split_list_items_def by (rule list_items_loop_nonblank)

lemma visible_item_prefix: "subseq (visible (li_marker i)) (visible (item_prefix i))"
  by (auto simp: item_prefix_def trim_text_Nil_iff visible_simps)

text \<open>Units of one item, each behind the item's marker.\<close>

abbreviation marked_units :: "runes \<Rightarrow> runes list \<Rightarrow> runes list" where
  "marked_units pre us \<equiv> map (\<lambda>u. trim_text (pre @ [32] @ trim_text u)) (filter (\<lambda>u. trim_text u \<noteq> []) us)"

lemma marked_units_cover:
  "subseq (visible (concat us)) (visible (concat (marked_units pre us)))"
proof (induction us)
  case (Cons u us)
  show ?case
  proof (cases "trim_text u = []")
    case True
    then have "visible u = []" by (simp add: trim_text_Nil_iff)
    with True Cons show ?thesis by (simp add: visible_append)
  next
    case False
    have "subseq (visible u @ visible (concat us)) (visible u @ visible (concat (marked_units pre us)))"
      using Cons by (rule subseq_keep_left)
    with False show ?thesis
      by (simp add: visible_simps visible_Cons subseq_into_right)
  qed
qed simp

lemma marked_units_cover_marker:
  "visible (concat us) \<noteq> [] \<Longrightarrow>
   subseq (visible pre @ visible (concat us)) (visible (concat (marked_units pre us)))"
proof (induction us)
  case (Cons u us)
  show ?case
  proof (cases "trim_text u = []")
    case True
    then have "visible u = []" by (simp add: trim_text_Nil_iff)
    with True Cons show ?thesis by (simp add: visible_append)
  next
    case False
    then show ?thesis
      using marked_units_cover [of us pre]
      by (simp add: visible_simps visible_Cons subseq_keep_left)
  qed
qed simp

definition item_budget :: "paragraph_chunker \<Rightarrow> chunk_list_item \<Rightarrow> int" where
  "item_budget c i = (let b = pc_max_chars c - rune_count (item_prefix i) - 1
     in if b \<le> 0 then pc_max_chars c else b)"

lemma list_item_parts_unfold:
  "list_item_parts c i =
    (let body = normalize_inline_text (li_text i);
         full_text = trim_text (item_prefix i @ [32] @ body)
     in if body = [] then Some [] else if rune_count full_text \<le> pc_max_chars c then Some [full_text]
        else do { units \<leftarrow> split_narrative_units body (item_budget c i);
                  Some (marked_units (item_prefix i) units) })"
  by (simp add: list_item_parts_def item_budget_def Let_def)

lemma item_budget_pos: "0 < pc_max_chars c \<Longrightarrow> 0 < item_budget c i"
  by (simp add: item_budget_def Let_def)

lemma list_item_parts_gives_cover:
  assumes "0 < pc_max_chars c" "visible (li_text i) \<noteq> []"
  shows "gives (list_item_parts c i) (parts_cover (item_text i))"
proof -
  let ?b = "normalize_inline_text (li_text i)"
  have b: "visible ?b = visible (li_text i)" by (rule normalize_inline_visible)
  have cov: "parts_cover (item_text i) (marked_units (item_prefix i) us)" if "parts_hold ?b us" for us
  proof -
    have "subseq (visible (item_prefix i) @ visible (li_text i))
        (visible (concat (marked_units (item_prefix i) us)))"
      using that assms(2) b marked_units_cover_marker [of us "item_prefix i"]
      by (simp add: parts_hold_def)
    moreover have "subseq (visible (item_text i)) (visible (item_prefix i) @ visible (li_text i))"
      using visible_item_prefix [of i] by (simp add: visible_append list_emb_append_mono)
    ultimately show ?thesis unfolding parts_cover_def by (meson subseq_order.order_trans)
  qed
  have "gives (split_narrative_units ?b (item_budget c i))
      (\<lambda>us. parts_cover (item_text i) (marked_units (item_prefix i) us))"
    by (rule gives_mono [OF split_narrative_units_gives [OF item_budget_pos [OF assms(1)]]])
       (blast intro: cov)
  moreover have "parts_cover (item_text i) [trim_text (item_prefix i @ [32] @ ?b)]"
    using visible_item_prefix [of i]
    by (simp add: parts_cover_def visible_simps visible_Cons list_emb_append_mono)
  ultimately show ?thesis
    using assms(2) b by (auto simp: list_item_parts_unfold Let_def)
qed

lemma list_item_parts_gives_within:
  assumes "0 < pc_max_chars c" "rune_count (item_prefix i) + 1 < pc_max_chars c"
  shows "gives (list_item_parts c i) (parts_within (pc_max_chars c))"
proof -
  let ?b = "normalize_inline_text (li_text i)"
  have budget: "rune_count (item_prefix i) + 1 + item_budget c i = pc_max_chars c"
    using assms(2) by (simp add: item_budget_def Let_def)
  have "parts_within (pc_max_chars c) (marked_units (item_prefix i) us)"
    if "parts_within (item_budget c i) us" for us
  proof -
    have "rune_count (trim_text (item_prefix i @ [32] @ trim_text u)) \<le> pc_max_chars c"
      if "u \<in> set us" for u
      using \<open>parts_within _ us\<close> that budget rune_count_trim [of u]
      by (intro rune_count_trim_le) (auto simp: parts_within_def)
    then show ?thesis by (auto simp: parts_within_def)
  qed
  then have "gives (split_narrative_units ?b (item_budget c i))
      (\<lambda>us. parts_within (pc_max_chars c) (marked_units (item_prefix i) us))"
    by (intro gives_mono [OF split_narrative_units_gives [OF item_budget_pos [OF assms(1)]]]) blast
  then show ?thesis by (auto simp: list_item_parts_unfold Let_def part_simps)
qed

lemma split_list_block_gives_cover:
  assumes "0 < pc_max_chars c"
  shows "gives (split_list_block c s) (parts_cover s)"
proof (cases "split_list_items s = []")
  case True
  then show ?thesis
    using gives_mono [OF split_prose_block_gives [OF assms]] by (simp add: split_list_block_def)
next
  case False
  have "gives (collect_parts (list_item_parts c) (split_list_items s))
      (parts_cover (concat (map item_text (split_list_items s))))"
    by (rule collect_parts_gives_cover)
       (rule list_item_parts_gives_cover [OF assms split_list_items_nonblank])
  then have "gives (collect_parts (list_item_parts c) (split_list_items s))
      (\<lambda>ps. parts_cover s (build_chunk_sequence c ps [10]))"
  proof (rule gives_mono)
    fix ps
    assume "parts_cover (concat (map item_text (split_list_items s))) ps"
    then have "subseq (visible s) (visible (concat ps))"
      using split_list_items_covers [of s] unfolding parts_cover_def
      by (meson subseq_order.order_trans)
    also have "subseq (visible (concat ps)) (visible (concat (build_chunk_sequence c ps [10])))"
      by (rule build_chunk_sequence_covers) (simp add: visible_Cons)
    finally show "parts_cover s (build_chunk_sequence c ps [10])" by (simp add: parts_cover_def)
  qed
  with False show ?thesis by (simp add: split_list_block_def Let_def)
qed

lemma split_list_block_gives_within:
  assumes "0 < pc_max_chars c"
    and "\<And>i. i \<in> set (split_list_items s) \<Longrightarrow> rune_count (item_prefix i) + 1 < pc_max_chars c"
  shows "gives (split_list_block c s) (parts_within (pc_max_chars c))"
proof (cases "split_list_items s = []")
  case True
  then show ?thesis
    using gives_mono [OF split_prose_block_gives [OF assms(1)]] by (simp add: split_list_block_def)
next
  case False
  have "gives (collect_parts (list_item_parts c) (split_list_items s)) (parts_within (pc_max_chars c))"
    by (rule collect_parts_gives_within) (rule list_item_parts_gives_within [OF assms(1) assms(2)])
  then have "gives (collect_parts (list_item_parts c) (split_list_items s))
      (\<lambda>ps. parts_within (pc_max_chars c) (build_chunk_sequence c ps [10]))"
    by (rule gives_mono) (rule build_chunk_sequence_within [OF assms(1)])
  with False show ?thesis by (simp add: split_list_block_def Let_def)
qed

subsection \<open>Packing behind a header\<close>

lemma wrap_chunk_body_visible:
  "visible (wrap_chunk_body pre suf b) = visible pre @ visible b @ visible suf"
  using trim_text_Nil_iff [of pre] trim_text_Nil_iff [of suf] trim_text_Nil_iff [of b]
  by (auto simp: wrap_chunk_body_def Let_def visible_simps visible_Cons)

definition frame_length :: "runes \<Rightarrow> runes \<Rightarrow> int" where
  "frame_length pre suf = (if pre = [] then 0 else rune_count pre + 1)
     + (if suf = [] then 0 else rune_count suf + 1)"

lemma wrap_chunk_body_length:
  "rune_count (wrap_chunk_body pre suf b) \<le> frame_length pre suf + rune_count b"
  supply rune_count_nonneg [simp del]
  using rune_count_trim [of pre] rune_count_trim [of suf] rune_count_trim [of b]
    rune_count_nonneg [of pre] rune_count_nonneg [of suf] rune_count_nonneg [of b]
  unfolding wrap_chunk_body_def Let_def frame_length_def
  by (auto intro!: order_trans [OF rune_count_trim])

lemma wrap_chunk_body_trim [simp]: "wrap_chunk_body pre suf (trim_text b) = wrap_chunk_body pre suf b"
  by (simp add: wrap_chunk_body_def)

lemma pack_loop_within:
  assumes "\<And>p. p \<in> set ps \<Longrightarrow> rune_count (wrap_chunk_body pre suf p) \<le> m"
    and "cur = [] \<or> rune_count (wrap_chunk_body pre suf cur) \<le> m"
  shows "parts_within m (pack_loop pre suf sep m cur ps)"
  using assms
proof (induction ps arbitrary: cur)
  case (Cons p ps)
  have p: "rune_count (wrap_chunk_body pre suf p) \<le> m" using Cons.prems by simp
  show ?case using Cons.IH Cons.prems p by (auto simp: Let_def part_simps)
qed (auto simp: part_simps)

lemma pack_loop_covers:
  assumes "visible sep = []" "visible cur \<noteq> [] \<or> visible (concat ps) \<noteq> []"
  shows "subseq (visible pre @ visible cur @ visible (concat ps) @ visible suf)
    (visible (concat (pack_loop pre suf sep m cur ps)))"
  using assms(2)
proof (induction ps arbitrary: cur)
  case Nil
  then show ?case by (simp add: trim_text_Nil_iff wrap_chunk_body_visible)
next
  case (Cons p ps)
  let ?part = "trim_text p"
  let ?cand = "if cur = [] then ?part else join_chunk_parts cur ?part sep"
  consider (blank) "?part = []" | (fits) "?part \<noteq> []" "rune_count (wrap_chunk_body pre suf ?cand) \<le> m"
    | (flush) "?part \<noteq> []" "\<not> rune_count (wrap_chunk_body pre suf ?cand) \<le> m" by blast
  then show ?case
  proof cases
    case blank
    then have "visible p = []" by (simp add: trim_text_Nil_iff)
    with blank Cons show ?thesis by (simp add: visible_append)
  next
    case fits
    have v: "visible ?cand = visible cur @ visible p"
      by (simp add: join_chunk_parts_visible assms(1) visible_simps)
    moreover have "visible p \<noteq> []" using fits by (simp add: trim_text_Nil_iff)
    ultimately have "subseq (visible pre @ visible ?cand @ visible (concat ps) @ visible suf)
        (visible (concat (pack_loop pre suf sep m ?cand ps)))"
      by (intro Cons.IH) simp
    moreover have "pack_loop pre suf sep m cur (p # ps) = pack_loop pre suf sep m ?cand ps"
      using fits by (simp add: Let_def)
    ultimately show ?thesis by (simp only: v append.assoc concat.simps visible_append)
  next
    case flush
    let ?X = "visible (concat (pack_loop pre suf sep m ?part ps))"
    have "subseq (visible pre @ visible ?part @ visible (concat ps) @ visible suf) ?X"
      using flush by (intro Cons.IH) (simp add: trim_text_Nil_iff visible_simps)
    then have IH: "subseq (visible pre @ visible p @ visible (concat ps) @ visible suf) ?X"
      by (simp add: visible_simps)
    then have tl: "subseq (visible p @ visible (concat ps) @ visible suf) (visible suf @ ?X)"
      by (metis subseq_into_right subseq_order.order_trans subseq_order.order_refl)
    have "visible (concat (pack_loop pre suf sep m cur (p # ps)))
        = (if visible cur = [] then [] else visible pre @ visible cur @ visible suf) @ ?X"
      using flush by (simp add: Let_def wrap_chunk_body_visible visible_append trim_text_Nil_iff)
    then show ?thesis using IH tl by (auto simp: visible_append subseq_keep_left)
  qed
qed

lemma pack_loop_blank: "visible cur = [] \<Longrightarrow> visible (concat ps) = [] \<Longrightarrow> pack_loop pre suf sep m cur ps = []"
  by (induction ps arbitrary: cur)
     (auto simp: trim_text_Nil_iff visible_append Let_def)

lemma pack_wrapped_parts_gives:
  assumes "visible sep = []"
    and "\<And>p. p \<in> set ps \<Longrightarrow> frame_length pre suf + rune_count p \<le> m"
    and "visible s = visible pre @ visible (concat ps) @ visible suf"
  shows "parts_within m (pack_wrapped_parts ps pre suf sep m)
    \<and> (pack_wrapped_parts ps pre suf sep m \<noteq> [] \<longrightarrow> parts_cover s (pack_wrapped_parts ps pre suf sep m))"
proof
  show "parts_within m (pack_wrapped_parts ps pre suf sep m)"
    unfolding pack_wrapped_parts_def
    using assms(2) wrap_chunk_body_length [of pre suf]
    by (auto simp: part_simps intro!: pack_loop_within intro: order_trans)
  show "pack_wrapped_parts ps pre suf sep m \<noteq> [] \<longrightarrow> parts_cover s (pack_wrapped_parts ps pre suf sep m)"
    using pack_loop_blank [of "[]" ps pre suf sep m] pack_loop_covers [OF assms(1), of "[]" ps pre suf m]
    by (auto simp: pack_wrapped_parts_def parts_cover_def assms(3))
qed

subsection \<open>Tables\<close>

lemma collect_row_parts_gives:
  assumes "0 < m"
  shows "gives (collect_parts (table_row_parts m) ls)
    (\<lambda>ws. parts_within m ws \<and> parts_hold (concat ls) ws)"
proof -
  have "gives (table_row_parts m l) (\<lambda>ws. parts_within m ws \<and> parts_hold l ws)" for l
    using split_by_rune_window_gives [OF assms, of "trim_text l"] trim_text_Nil_iff [of l]
    by (auto simp: table_row_parts_def Let_def parts_hold_def part_simps visible_simps)
  then show ?thesis
    using collect_parts_gives [of ls "table_row_parts m" m "\<lambda>l. l"] by simp
qed

lemma window_gives_block:
  assumes "0 < m" "visible v = visible s"
  shows "gives (split_by_rune_window v m 0) (\<lambda>ws. parts_within m ws \<and> (ws \<noteq> [] \<longrightarrow> parts_cover s ws))"
  by (rule gives_mono [OF split_by_rune_window_gives [OF assms(1)]])
     (simp add: parts_hold_def parts_cover_def assms(2))

lemma two_and_rest: "2 \<le> length ls \<Longrightarrow> ls = (ls ! 0) # (ls ! 1) # drop 2 ls"
  by (cases ls; cases "tl ls") auto

lemma split_table_block_gives:
  assumes "0 < pc_max_chars c"
  shows "gives (split_table_block c s)
    (\<lambda>ws. parts_within (pc_max_chars c) ws \<and> (ws \<noteq> [] \<longrightarrow> parts_cover s ws))"
proof -
  let ?m = "pc_max_chars c" and ?t = "normalize_chunk_document_text s"
  let ?ls = "split_raw_lines ?t"
  let ?pre = "trim_text (?ls ! 0) @ [10] @ trim_text (?ls ! 1)"
  let ?Q = "\<lambda>ws. parts_within ?m ws \<and> (ws \<noteq> [] \<longrightarrow> parts_cover s ws)"
  have t: "visible ?t = visible s" by (rule normalize_document_visible)
  note window = window_gives_block [OF assms t]
  have pack: "gives (collect_parts (table_row_parts (?m - rune_count ?pre - 1)) (drop 2 ?ls))
      (\<lambda>rows. ?Q (pack_wrapped_parts rows ?pre [] [10] ?m))"
    if "2 \<le> length ?ls" "0 < ?m - rune_count ?pre - 1"
  proof (rule gives_mono [OF collect_row_parts_gives [OF that(2)]])
    fix rows
    assume rows: "parts_within (?m - rune_count ?pre - 1) rows \<and> parts_hold (concat (drop 2 ?ls)) rows"
    have "visible s = visible (concat (?ls ! 0 # ?ls ! 1 # drop 2 ?ls))"
      using split_raw_lines_visible [of ?t] t two_and_rest [OF that(1)] by metis
    then have "visible s = visible ?pre @ visible (concat rows) @ visible []"
      using rows by (simp add: parts_hold_def visible_simps visible_Cons)
    then show "?Q (pack_wrapped_parts rows ?pre [] [10] ?m)"
      using rows by (intro pack_wrapped_parts_gives) (auto simp: visible_Cons frame_length_def parts_within_def)
  qed
  show ?thesis
    using window pack t
    by (auto simp: split_table_block_def Let_def part_simps parts_cover_def)
qed

subsection \<open>Code\<close>

lemma code_prefix_visible:
  "code_prefix ls = (pre, body) \<Longrightarrow> visible pre @ visible (concat body) = visible (concat ls)"
  by (cases ls) (auto simp: code_prefix_def visible_simps split: if_splits)

lemma code_suffix_visible:
  "code_suffix ls = (suf, body) \<Longrightarrow> visible (concat body) @ visible suf = visible (concat ls)"
  by (cases ls rule: rev_cases) (auto simp: code_suffix_def visible_simps split: if_splits)

lemma flush_group_visible: "visible (concat (flush_group cur)) = visible (concat cur)"
  by (simp add: flush_group_def visible_join_text visible_Cons visible_concat)

lemma code_groups_loop_visible:
  "visible (concat (code_groups_loop cur ls)) = visible (concat cur) @ visible (concat ls)"
proof (induction ls arbitrary: cur)
  case (Cons l ls)
  then show ?case
    by (auto simp: visible_simps flush_group_visible trim_text_Nil_iff)
qed (simp add: flush_group_visible)

lemma line_window_loop_gives:
  assumes "0 < m" "rune_count cur \<le> m"
  shows "gives (line_window_loop m cur ls)
    (\<lambda>ws. parts_within m ws \<and> visible (concat ws) = visible cur @ visible (concat ls))"
  using assms(2)
proof (induction ls arbitrary: cur)
  case Nil
  then show ?case by (simp add: within_keep_part visible_keep_part)
next
  case (Cons l ls)
  let ?l = "trim_blanks l"
  have l: "visible ?l = visible l" by (rule visible_trim_blanks)
  consider (empty) "?l = []" | (long) "?l \<noteq> []" "rune_count ?l > m"
    | (first) "?l \<noteq> []" "rune_count ?l \<le> m" "cur = []"
    | (fits) "?l \<noteq> []" "rune_count ?l \<le> m" "cur \<noteq> []" "rune_count (cur @ [10] @ ?l) \<le> m"
    | (flush) "?l \<noteq> []" "rune_count ?l \<le> m" "cur \<noteq> []" "\<not> rune_count (cur @ [10] @ ?l) \<le> m"
    by linarith
  then show ?case
  proof cases
    case empty
    with Cons l show ?thesis by (simp add: visible_append)
  next
    case long
    let ?cur = "if trim_text cur = [] then cur else []"
    have "gives (line_window_loop m ?cur ls)
        (\<lambda>ws. parts_within m ws \<and> visible (concat ws) = visible ?cur @ visible (concat ls))"
      using Cons.prems assms(1) by (intro Cons.IH) simp
    moreover have "visible ?cur = []" by (simp add: trim_text_Nil_iff)
    ultimately show ?thesis
      using long split_by_rune_window_gives [OF assms(1), of ?l] within_keep_part [OF Cons.prems] l
      by (auto simp: Let_def gives_def part_simps visible_append visible_keep_part parts_hold_def
          trim_text_Nil_iff)
  next
    case first
    with Cons.IH [of ?l] l show ?thesis by (simp add: Let_def visible_append)
  next
    case fits
    with Cons.IH [of "cur @ [10] @ ?l"] l show ?thesis
      by (simp add: Let_def visible_append visible_Cons)
  next
    case flush
    with Cons.IH [of ?l] Cons.prems l show ?thesis
      by (auto simp: Let_def gives_def part_simps visible_append)
  qed
qed

lemma collect_group_parts_gives:
  assumes "0 < m"
  shows "gives (collect_parts (code_group_parts m) gs)
    (\<lambda>ws. parts_within m ws \<and> parts_hold (concat gs) ws)"
proof -
  have lw: "gives (split_code_group_by_line_window g m) (\<lambda>ws. parts_within m ws \<and> parts_hold g ws)" for g
    using line_window_loop_gives [OF assms, of "[]" "split_raw_lines g"] split_raw_lines_visible [of g] assms
    by (auto simp: split_code_group_by_line_window_def Let_def parts_hold_def part_simps)
  have "gives (code_group_parts m g) (\<lambda>ws. parts_within m ws \<and> parts_hold g ws)" for g
    using lw [of "trim_text g"] trim_text_Nil_iff [of g]
    by (auto simp: code_group_parts_def Let_def parts_hold_def part_simps visible_simps)
  then show ?thesis
    using collect_parts_gives [of gs "code_group_parts m" m "\<lambda>g. g"] by simp
qed

lemma split_code_block_gives:
  assumes "0 < pc_max_chars c"
  shows "gives (split_code_block c s)
    (\<lambda>ws. parts_within (pc_max_chars c) ws \<and> (ws \<noteq> [] \<longrightarrow> parts_cover s ws))"
proof -
  let ?m = "pc_max_chars c" and ?t = "normalize_chunk_document_text s"
  let ?Q = "\<lambda>ws. parts_within ?m ws \<and> (ws \<noteq> [] \<longrightarrow> parts_cover s ws)"
  have t: "visible ?t = visible s" by (rule normalize_document_visible)
  note window = window_gives_block [OF assms t]
  obtain pre body1 where p: "code_prefix (split_raw_lines ?t) = (pre, body1)" by fastforce
  obtain suf body2 where q: "code_suffix body1 = (suf, body2)" by fastforce
  have v: "visible s = visible pre @ visible (concat body2) @ visible suf"
    using code_prefix_visible [OF p] code_suffix_visible [OF q] split_raw_lines_visible [of ?t] t by simp
  let ?b = "?m - frame_length pre suf"
  have pack: "gives (collect_parts (code_group_parts ?b) (split_code_groups body2))
      (\<lambda>ps. ?Q (pack_wrapped_parts ps pre suf [10, 10] ?m))" if "0 < ?b"
  proof (rule gives_mono [OF collect_group_parts_gives [OF that]])
    fix ps
    assume ps: "parts_within ?b ps \<and> parts_hold (concat (split_code_groups body2)) ps"
    then have "visible (concat ps) = visible (concat body2)"
      by (simp add: parts_hold_def split_code_groups_def code_groups_loop_visible)
    then show "?Q (pack_wrapped_parts ps pre suf [10, 10] ?m)"
      using ps v by (intro pack_wrapped_parts_gives) (auto simp: visible_Cons parts_within_def)
  qed
  have b: "(if suf \<noteq> [] then (if pre \<noteq> [] then ?m - (rune_count pre + 1) else ?m) - (rune_count suf + 1)
       else (if pre \<noteq> [] then ?m - (rune_count pre + 1) else ?m)) = ?b"
    by (simp add: frame_length_def)
  show ?thesis
    using window pack t
    by (simp only: split_code_block_def Let_def p q prod.case b)
       (auto simp: part_simps parts_cover_def)
qed

subsection \<open>Blocks\<close>

lemma fence_scan_visible:
  "visible (concat (fst (fence_scan ls))) @ visible (concat (snd (fence_scan ls))) = visible (concat ls)"
  by (induction ls) (auto simp: Let_def visible_append)

lemma scan_until_visible:
  "visible (concat (fst (scan_until P ls))) @ visible (concat (snd (scan_until P ls))) = visible (concat ls)"
  by (induction ls) (auto simp: Let_def visible_append)

lemma visible_join_lines: "visible (join_text [10] ls) = visible (concat ls)"
  by (simp add: visible_join_text visible_Cons visible_concat)

lemma table_start_two: "is_markdown_table_start ls \<Longrightarrow> \<exists>a b r. ls = a # b # r"
  by (cases ls rule: is_markdown_table_start.cases) auto

lemma split_blocks_loop_visible:
  "visible (concat (map cb_text (split_blocks_loop ls))) = visible (concat ls)"
proof (induction ls rule: split_blocks_loop.induct)
  case (2 l rest)
  let ?t = "trim_text (trim_blanks l)"
  have t: "visible ?t = visible l" by (simp add: visible_simps)
  have join: "visible (join_text [10] (l # xs)) = visible l @ visible (concat xs)" for xs
    by (simp add: visible_join_lines visible_append)
  show ?case
  proof (cases "?t = []")
    case True
    then have "visible l = []" using t by simp
    with True 2(1) show ?thesis by (simp add: Let_def visible_append)
  next
    case nonempty: False
    show ?thesis
    proof (cases "is_fence_line ?t")
      case True
      with nonempty 2(2) fence_scan_visible [of rest] show ?thesis
        by (simp add: Let_def visible_append join)
    next
      case no_fence: False
      show ?thesis
      proof (cases "is_heading_line ?t")
        case True
        with nonempty no_fence 2(3) t show ?thesis by (simp add: Let_def visible_append)
      next
        case no_heading: False
        note N = nonempty no_fence no_heading
        show ?thesis
        proof (cases "is_markdown_table_start (l # rest)")
          case True
          then obtain b r where "rest = b # r" using table_start_two by blast
          with N True 2(4) scan_until_visible [of table_stop r] show ?thesis
            by (simp add: Let_def visible_append visible_join_lines del: join_text.simps)
        next
          case False
          with N 2(5,6) scan_until_visible [of list_stop rest] scan_until_visible [of prose_stop rest]
          show ?thesis by (cases "is_list_item_line ?t") (simp_all add: Let_def visible_append join)
        qed
      qed
    qed
  qed
qed simp

lemma split_blocks_visible: "visible (concat (map cb_text (split_blocks s))) = visible s"
proof -
  let ?t = "normalize_chunk_document_text s"
  have "visible (concat (split_at_rune 10 ?t)) = visible ?t"
    by (simp add: visible_concat visible_split_at_rune)
  then show ?thesis
    using normalize_document_visible [of s]
    by (auto simp: split_blocks_def Let_def split_blocks_loop_visible)
qed

text \<open>When the block is a list, its markers leave room for text; blocks are not left empty.\<close>

definition markers_fit :: "paragraph_chunker \<Rightarrow> chunk_block \<Rightarrow> bool" where
  "markers_fit c b \<longleftrightarrow> (cb_kind b = BlockList \<longrightarrow>
     (\<forall>i \<in> set (split_list_items (cb_text b)). rune_count (item_prefix i) + 1 < pc_max_chars c))"

lemma split_block_gives_cover:
  assumes "0 < pc_max_chars c"
  shows "gives (split_block c b) (\<lambda>ws. ws \<noteq> [] \<longrightarrow> parts_cover (cb_text b) ws)"
  using gives_mono [OF split_heading_block_gives [OF assms, of "cb_text b"]]
    gives_mono [OF split_prose_block_gives [OF assms, of "cb_text b"]]
    gives_mono [OF split_list_block_gives_cover [OF assms, of "cb_text b"]]
    gives_mono [OF split_table_block_gives [OF assms, of "cb_text b"]]
    gives_mono [OF split_code_block_gives [OF assms, of "cb_text b"]]
  by (cases "cb_kind b") (simp_all add: split_block_def)

lemma split_block_gives_within:
  assumes "0 < pc_max_chars c" "markers_fit c b"
  shows "gives (split_block c b) (parts_within (pc_max_chars c))"
proof (cases "cb_kind b = BlockList")
  case True
  with assms show ?thesis
    by (simp add: split_block_def markers_fit_def split_list_block_gives_within)
next
  case False
  then show ?thesis
    using gives_mono [OF split_heading_block_gives [OF assms(1), of "cb_text b"]]
      gives_mono [OF split_prose_block_gives [OF assms(1), of "cb_text b"]]
      gives_mono [OF split_table_block_gives [OF assms(1), of "cb_text b"]]
      gives_mono [OF split_code_block_gives [OF assms(1), of "cb_text b"]]
    by (cases "cb_kind b") (simp_all add: split_block_def)
qed

subsection \<open>The whole document\<close>

lemma length_one: "xs \<noteq> [] \<Longrightarrow> \<not> 1 < length xs \<Longrightarrow> xs = [hd xs]"
  by (cases xs) auto

lemma split_text_loop_gives_within:
  assumes "0 < pc_max_chars c" "\<And>b. b \<in> set bs \<Longrightarrow> markers_fit c b" "rune_count cur \<le> pc_max_chars c"
  shows "gives (split_text_loop c cur bs) (parts_within (pc_max_chars c))"
  using assms(2,3)
proof (induction bs arbitrary: cur)
  case (Cons b bs)
  let ?m = "pc_max_chars c"
  obtain ws where ws: "split_block c b = Some ws" "parts_within ?m ws"
    using split_block_gives_within [OF assms(1), of b] Cons.prems by (auto simp: gives_def)
  have IH: "rune_count x \<le> ?m \<Longrightarrow> gives (split_text_loop c x bs) (parts_within ?m)" for x
    using Cons by simp
  show ?case
  proof (cases "ws = [] \<or> 1 < length ws")
    case True
    then show ?thesis
      using ws IH Cons.prems assms(1) within_keep_part [OF Cons.prems(2)]
      by (auto simp: part_simps elim!: gives_mono)
  next
    case False
    then have "ws = [hd ws]" by (auto intro: length_one)
    then have "rune_count (hd ws) \<le> ?m" using ws(2) by (metis part_simps(2))
    then have h: "rune_count (trim_text (hd ws)) \<le> ?m" by (rule rune_count_trim_le)
    have "rune_count (start_chunk_with_overlap c cur (trim_text (hd ws)) [10, 10]) \<le> ?m"
      using start_overlap_within [OF h] assms(1) by (metis max.absorb2 less_imp_le)
    then show ?thesis
      using False ws IH h Cons.prems by (auto simp: Let_def part_simps)
  qed
qed (simp add: within_keep_part)

lemma split_text_loop_gives_cover:
  assumes "0 < pc_max_chars c" "\<And>b. b \<in> set bs \<Longrightarrow> split_block c b \<noteq> Some []"
  shows "gives (split_text_loop c cur bs) (parts_cover (cur @ concat (map cb_text bs)))"
  using assms(2)
proof (induction bs arbitrary: cur)
  case Nil
  then show ?case by (simp add: parts_cover_def visible_keep_part)
next
  case (Cons b bs)
  obtain ws where ws: "split_block c b = Some ws" "ws \<noteq> []" "parts_cover (cb_text b) ws"
    using split_block_gives_cover [OF assms(1), of b] Cons.prems [of b] by (auto simp: gives_def)
  let ?rest = "visible (concat (map cb_text bs))"
  have IH: "gives (split_text_loop c x bs) (\<lambda>ps. subseq (visible x @ ?rest) (visible (concat ps)))" for x
    using Cons by (simp add: parts_cover_def visible_append)
  show ?case
  proof (cases "1 < length ws")
    case True
    let ?cur = "if trim_text cur \<noteq> [] then [] else cur"
    have "visible ?cur = []" by (simp add: trim_text_Nil_iff)
    with IH [of ?cur] obtain more where more: "split_text_loop c ?cur bs = Some more"
        "subseq ?rest (visible (concat more))" by (auto simp: gives_def)
    have "subseq (visible cur @ visible (cb_text b) @ ?rest)
        (visible cur @ visible (concat ws) @ visible (concat more))"
      using ws(3) more(2) unfolding parts_cover_def
      by (intro list_emb_append_mono) simp_all
    with True ws more show ?thesis
      by (simp add: parts_cover_def visible_append visible_keep_part)
  next
    case False
    then have hd: "ws = [hd ws]" using ws(2) by (auto intro: length_one)
    let ?part = "trim_text (hd ws)"
    have p: "subseq (visible (cb_text b)) (visible ?part)"
      using ws(3) hd unfolding parts_cover_def visible_trim_text by (metis concat.simps append_Nil2)
    have step: "gives r (parts_cover (cur @ cb_text b @ concat (map cb_text bs)))"
      if "gives r (\<lambda>ps. subseq (visible cur @ visible ?part @ ?rest) (visible (concat ps)))" for r
    proof (rule gives_mono [OF that])
      fix ps
      have "subseq (visible cur @ visible (cb_text b) @ ?rest) (visible cur @ visible ?part @ ?rest)"
        using p by (intro list_emb_append_mono) simp_all
      also assume "subseq (visible cur @ visible ?part @ ?rest) (visible (concat ps))"
      finally show "parts_cover (cur @ cb_text b @ concat (map cb_text bs)) ps"
        by (simp add: parts_cover_def visible_append)
    qed
    consider (blank) "?part = []" | (first) "?part \<noteq> []" "cur = []"
      | (fits) "?part \<noteq> []" "cur \<noteq> []" "rune_count (join_chunk_parts cur ?part [10, 10]) \<le> pc_max_chars c"
      | (flush) "?part \<noteq> []" "cur \<noteq> []" "\<not> rune_count (join_chunk_parts cur ?part [10, 10]) \<le> pc_max_chars c"
      by blast
    then have "gives (split_text_loop c cur (b # bs)) (parts_cover (cur @ cb_text b @ concat (map cb_text bs)))"
    proof cases
      case blank
      with False ws IH [of cur] show ?thesis
        by (intro step) (simp add: Let_def)
    next
      case first
      with False ws IH [of ?part] show ?thesis by (intro step) (simp add: Let_def)
    next
      case fits
      with False ws IH [of "join_chunk_parts cur ?part [10, 10]"] show ?thesis
        by (intro step) (simp add: Let_def join_chunk_parts_visible visible_Cons)
    next
      case flush
      let ?s = "start_chunk_with_overlap c cur ?part [10, 10]"
      obtain ov where ov: "visible ?s = ov @ visible ?part"
        using start_overlap_visible [of "[10, 10]" c cur ?part] by (auto simp: visible_Cons)
      obtain more where more: "split_text_loop c ?s bs = Some more"
          "subseq (visible ?s @ ?rest) (visible (concat more))"
        using IH [of ?s] by (auto simp: gives_def)
      have "subseq (visible ?part @ ?rest) (visible (concat more))"
        using more(2) unfolding ov
        by (metis append.assoc subseq_into_right subseq_order.order_trans subseq_order.order_refl)
      with False ws flush more(1) show ?thesis
        by (intro step) (simp add: Let_def visible_append subseq_keep_left)
    qed
    then show ?thesis by simp
  qed
qed

lemma new_paragraph_chunker_pos: "0 < pc_max_chars (new_paragraph_chunker opts)"
  by (simp add: new_paragraph_chunker_def Let_def default_chunk_max_chars_def)

lemma split_block_returns: "0 < pc_max_chars c \<Longrightarrow> \<exists>ws. split_block c b = Some ws"
  using split_block_gives_cover [of c b] by (auto simp: gives_def)

lemma split_text_loop_returns: "0 < pc_max_chars c \<Longrightarrow> \<exists>ws. split_text_loop c cur bs = Some ws"
proof (induction bs arbitrary: cur)
  case (Cons b bs)
  obtain ws where "split_block c b = Some ws" using split_block_returns [OF Cons.prems] by blast
  moreover have "\<exists>ps. split_text_loop c x bs = Some ps" for x by (rule Cons.IH [OF Cons.prems])
  ultimately show ?case by (auto simp: Let_def) (metis bind.bind_lunit option.distinct(1))+
qed simp

end
