(* ===== verification/Memory_Recall_Correct.thy ===== *)
theory Memory_Recall_Correct
  imports Memory_Context Memory_Correct Chunker_Correct
begin

text \<open>
  What a recall may bring back, how large its context is, and what the selection of recent messages
  keeps; what indexing a document leaves in the chunk table, and how one document can hold up all
  later ones.
\<close>

subsection \<open>Only the user's own rows\<close>

definition own_fact :: "nat \<Rightarrow> ai_memory_fact \<Rightarrow> bool" where
  "own_fact uid f \<longleftrightarrow> af_scope_key f = build_self_memory_scope_key uid \<and> af_visibility f = memory_visibility_self"

definition own_chunk :: "nat \<Rightarrow> ai_memory_document_chunk \<Rightarrow> bool" where
  "own_chunk uid c \<longleftrightarrow> ak_scope_key c = build_self_memory_scope_key uid
     \<and> ak_visibility c = memory_visibility_self \<and> ak_user_id c = Some uid"

definition own_item :: "nat \<Rightarrow> ai_memory_rag_item \<Rightarrow> bool" where
  "own_item uid it \<longleftrightarrow> own_chunk uid (ri_chunk it) \<and> (\<forall>c \<in> set (ri_expanded_chunks it). own_chunk uid c)"

lemma in_map_filter: "x \<in> set (List.map_filter f xs) \<longleftrightarrow> (\<exists>y \<in> set xs. f y = Some x)"
  by (force simp: List.map_filter_def)

lemma take_limit_subset: "set (take_limit n xs) \<subseteq> set xs"
  by (auto simp: take_limit_def dest: in_set_takeD)

lemma list_facts_scope:
  assumes "f \<in> set (list_facts now q fs)"
  shows "af_scope_key f \<in> set (fq_scope_keys q)
    \<and> af_visibility f \<in> set (normalize_memory_visibilities (fq_allowed_visibilities q))"
proof -
  have "set (take_limit l (sort_key k (filter P fs))) \<subseteq> {f \<in> set fs. P f}" for l P and k :: "ai_memory_fact \<Rightarrow> int"
    using take_limit_subset [of l "sort_key k (filter P fs)"] by auto
  with assms show ?thesis unfolding list_facts_def by (auto split: if_splits)
qed

lemma list_facts_own:
  assumes "f \<in> set (list_facts now \<lparr>fq_scope_keys = [build_self_memory_scope_key uid],
      fq_allowed_visibilities = [memory_visibility_self], fq_namespaces = nss, fq_namespace = ns,
      fq_fact_keys = ks, fq_limit = l\<rparr> fs)"
  shows "own_fact uid f"
  using list_facts_scope [OF assms] by (simp add: own_fact_def visibility_self_normal)

lemma recall_self_facts_own:
  assumes "recall_self_facts g env uid query w = (Inr fs, w')"
  shows "\<forall>f \<in> set fs. own_fact uid f"
proof (cases "\<not> ai_memory_entity_enabled g \<or> uid = 0")
  case True
  with assms show ?thesis by (simp add: recall_self_facts_def)
next
  case False
  obtain nss flt where q: "ai_memory_fact_namespaces_for_query env query = (nss, flt)" by fastforce
  let ?rows = "list_facts (mem_now w) \<lparr>fq_scope_keys = [build_self_memory_scope_key uid],
      fq_allowed_visibilities = [memory_visibility_self], fq_namespaces = nss, fq_namespace = [],
      fq_fact_keys = [], fq_limit = ai_memory_fact_scan_limit g\<rparr> (mw_facts w)"
  have "set fs \<subseteq> set ?rows"
    using assms False q
    by (auto simp: recall_self_facts_def svc_iffs Let_def sort_ai_memory_facts_def
        filter_ai_memory_facts_by_namespaces_def dest!: mem_read_Inr split: if_splits dest: in_set_takeD)
  then show ?thesis using list_facts_own by blast
qed

lemma valid_chunk_own:
  "is_valid_rag_chunk g (build_self_memory_scope_key uid) uid c \<Longrightarrow> own_chunk uid c"
  by (simp add: is_valid_rag_chunk_def own_chunk_def)

lemma map_last_in: "map_last key rows k = Some r \<Longrightarrow> r \<in> set rows"
  by (auto simp: map_last_def dest: find_SomeD)

lemma expand_rag_item_own:
  assumes "own_chunk uid (ri_chunk it)" "\<And>c. c \<in> set valid \<Longrightarrow> own_chunk uid c"
  shows "own_item uid (expand_rag_item g valid it)"
  using assms
  by (auto simp: expand_rag_item_def own_item_def Let_def in_map_filter dest!: map_last_in)

lemma expand_rag_items_own:
  assumes "expand_rag_items g uid items w = (Inr out, w')" "\<forall>it \<in> set items. own_item uid it"
  shows "\<forall>it \<in> set out. own_item uid it"
proof -
  have "own_item uid (expand_rag_item g (filter (is_valid_rag_chunk g (build_self_memory_scope_key uid) uid) rows) it)"
    if "it \<in> set items" for rows it
    using assms(2) that by (intro expand_rag_item_own) (auto simp: own_item_def dest: valid_chunk_own)
  then show ?thesis
    using assms by (auto simp: expand_rag_items_def Let_def svc_iffs split: if_splits)
qed

lemma matched_rag_items_own:
  "\<forall>it \<in> set (matched_rag_items g (build_self_memory_scope_key uid) uid results chunks). own_item uid it"
  by (auto simp: matched_rag_items_def in_map_filter own_item_def dest!: map_last_in valid_chunk_own)

lemma recall_long_term_own:
  assumes "recall_long_term_documents g sr uid query w = (Inr items, w')"
  shows "\<forall>it \<in> set items. own_item uid it"
proof -
  from assms consider "items = []" | rs cs v where
      "expand_rag_items g uid (matched_rag_items g (build_self_memory_scope_key uid) uid rs cs) v = (Inr items, w')"
    unfolding recall_long_term_documents_def Let_def
    by (auto simp: svc_iffs split: if_splits)
  then show ?thesis
    by cases (simp, rule expand_rag_items_own [OF _ matched_rag_items_own])
qed

lemma recall_fail_open_own:
  assumes "recall_long_term_documents_fail_open g sr uid query w = (r, w')"
  shows "\<exists>items. r = Inr items \<and> (\<forall>it \<in> set items. own_item uid it)"
  using assms recall_long_term_own
  unfolding recall_long_term_documents_fail_open_def
  by (auto simp: svc_catch_iff)

lemma recall_summary_own:
  assumes "recall_conversation_summary conv uid oid w = (Inr (Some s), w')"
  shows "as_user_id s = uid \<and> as_conversation_id s = trim_text conv"
  using assms
  by (auto simp: recall_conversation_summary_def get_conversation_summary_def
      split: if_splits dest!: mem_read_Inr find_SomeD dest: sym)

lemma memory_recall_own:
  assumes "memory_recall g env sr conv uid oid query w = (Inr rr, w')"
  shows "(\<forall>f \<in> set (rr_facts rr). own_fact uid f) \<and> (\<forall>it \<in> set (rr_rag_items rr). own_item uid it)
    \<and> (\<forall>s. rr_summary rr = Some s \<longrightarrow> as_user_id s = uid \<and> as_conversation_id s = trim_text conv)"
proof (cases "\<not> ai_memory_enabled g \<or> uid = 0")
  case True
  with assms show ?thesis by (auto simp: memory_recall_def)
next
  case False
  from assms obtain sm w1 fs w2 items w3 where
    run: "recall_conversation_summary conv uid oid w = (Inr sm, w1)"
      "recall_self_facts g env uid query w1 = (Inr fs, w2)"
      "recall_long_term_documents_fail_open g sr uid query w2 = (Inr items, w3)"
    and rr: "rr_facts rr = fs" "rr_rag_items rr = items" "rr_summary rr = sm"
    unfolding memory_recall_def if_not_P [OF False] Let_def
    by (auto simp: svc_iffs)
  from recall_fail_open_own [OF run(3)] recall_self_facts_own [OF run(2)] recall_summary_own run(1)
  show ?thesis by (auto simp: rr)
qed

text \<open>What recall returns is the user's own.\<close>

definition own_result :: "nat \<Rightarrow> runes \<Rightarrow> ai_memory_recall_result \<Rightarrow> bool" where
  "own_result uid conv rr \<longleftrightarrow> list_all (own_fact uid) (rr_facts rr) \<and> list_all (own_item uid) (rr_rag_items rr)
     \<and> (case rr_summary rr of None \<Rightarrow> True | Some s \<Rightarrow> as_user_id s = uid \<and> as_conversation_id s = trim_text conv)"

lemma memory_recall_own_result:
  "memory_recall g env sr conv uid oid query w = (Inr rr, w') \<Longrightarrow> own_result uid conv rr"
  using memory_recall_own [of g env sr conv uid oid query w rr w']
  by (auto simp: own_result_def list_all_iff split: option.splits)

subsection \<open>The size of the context\<close>

lemma length_trim_right_count: "rune_count (trim_right_by P s) \<le> rune_count s"
  by (simp add: rune_count_def length_trim_right_by)

lemma context_content_bound:
  "0 < m \<Longrightarrow> rune_count (build_memory_context_content g env summary facts rag m) \<le> m"
proof -
  assume m: "0 < m"
  have "rune_count (append_parts m parts []) \<le> m" for parts
    by (rule append_parts_bound [OF m]) (use m in simp)
  then have "rune_count (snd (append_facts m ls (0, append_parts m parts []))) \<le> m" for ls parts
    by (rule append_facts_bound [OF m])
  then have "rune_count (snd (snd (append_rag m bud rs (0, 0, snd (append_facts m ls (0, append_parts m parts [])))))) \<le> m"
    for bud rs ls parts by (rule append_rag_bound [OF m])
  then have "rune_count (trim_right_by P (snd (snd (append_rag m bud rs (0, 0, snd (append_facts m ls (0, append_parts m parts []))))))) \<le> m"
    for P bud rs ls parts by (rule order_trans [OF length_trim_right_count])
  with m show ?thesis unfolding build_memory_context_content_def Let_def by simp
qed

lemma recall_max_chars_pos: "0 < ai_memory_recall_max_chars g"
  by (auto simp: ai_memory_recall_max_chars_def positive_or_def split: option.split)

lemma memory_recall_bound:
  assumes "memory_recall g env sr conv uid oid query w = (Inr rr, w')" "m \<in> set (rr_messages rr)"
  shows "rune_count (dm_content m) \<le> ai_memory_recall_max_chars g"
proof (cases "\<not> ai_memory_enabled g \<or> uid = 0")
  case True
  with assms show ?thesis by (auto simp: memory_recall_def)
next
  case False
  from assms show ?thesis
    unfolding memory_recall_def if_not_P [OF False] Let_def
    by (auto simp: svc_iffs context_content_bound [OF recall_max_chars_pos] split: if_splits)
qed

subsection \<open>Recent messages\<close>

abbreviation message_tokens :: "domain_message \<Rightarrow> int" where
  "message_tokens m \<equiv> estimate_ai_memory_tokens [m]"

definition selection_ok :: "domain_message list \<Rightarrow> nat list \<times> int \<Rightarrow> bool" where
  "selection_ok ms st \<longleftrightarrow> distinct (fst st) \<and> (\<forall>i \<in> set (fst st). i < length ms)
     \<and> snd st = sum_list (map (\<lambda>i. message_tokens (ms ! i)) (fst st))"

lemma selection_ok_empty [simp]: "selection_ok ms ([], 0)"
  by (simp add: selection_ok_def)

lemma add_index_ok: "selection_ok ms st \<Longrightarrow> selection_ok ms (add_index ms i st)"
  by (auto simp: selection_ok_def add_index_def)

lemma add_index_mono: "set (fst st) \<subseteq> set (fst (add_index ms i st))"
  by (auto simp: add_index_def)

lemma add_index_length: "length (fst (add_index ms i st)) \<le> Suc (length (fst st))"
  by (simp add: add_index_def)

lemma add_index_in: "0 \<le> i \<Longrightarrow> i < int (length ms) \<Longrightarrow> nat i \<in> set (fst (add_index ms i st))"
  by (simp add: add_index_def)

lemma budget_loop_ok: "n \<le> length ms \<Longrightarrow> selection_ok ms st \<Longrightarrow> selection_ok ms (budget_loop ms limit budget n st)"
  by (induction ms limit budget n st rule: budget_loop.induct) (simp_all add: add_index_ok)

lemma budget_loop_mono: "set (fst st) \<subseteq> set (fst (budget_loop ms limit budget n st))"
proof (induction n arbitrary: st)
  case (Suc n)
  show ?case
    using Suc [of st] Suc [of "add_index ms (int n) st"] add_index_mono [of st ms "int n"] by auto
qed simp

lemma budget_loop_length:
  "0 < limit \<Longrightarrow> int (length (fst (budget_loop ms limit budget n st))) \<le> max limit (int (length (fst st)))"
proof (induction n arbitrary: st)
  case (Suc n)
  show ?case
    using Suc.IH [OF Suc.prems, of st] Suc.IH [OF Suc.prems, of "add_index ms (int n) st"]
      add_index_length [of ms "int n" st] Suc.prems by auto
qed simp

lemma budget_loop_tokens:
  "0 < budget \<Longrightarrow> n \<le> length ms \<Longrightarrow> snd (budget_loop ms limit budget n st) \<le> max budget (snd st)"
proof (induction n arbitrary: st)
  case (Suc n)
  show ?case
  proof (cases "n \<in> set (fst st) \<or> (0 < limit \<and> int (length (fst st)) \<ge> limit)
      \<or> (0 < budget \<and> snd st + message_tokens (ms ! n) > budget)")
    case True
    then show ?thesis using Suc.IH [of st] Suc.prems by auto
  next
    case False
    then have "snd (add_index ms (int n) st) \<le> budget"
      using Suc.prems by (auto simp: add_index_def)
    then show ?thesis using False Suc.IH [of "add_index ms (int n) st"] Suc.prems by auto
  qed
qed simp

lemma last_user_index_bound: "last_user_index ms n < int n"
  by (induction n) auto

lemma last_user_index_spec:
  assumes "\<exists>i < n. dm_role (ms ! i) = role_user"
  shows "0 \<le> last_user_index ms n \<and> dm_role (ms ! nat (last_user_index ms n)) = role_user
    \<and> (\<forall>j < n. last_user_index ms n < int j \<longrightarrow> dm_role (ms ! j) \<noteq> role_user)"
  using assms
proof (induction n)
  case (Suc n)
  show ?case
  proof (cases "dm_role (ms ! n) = role_user")
    case False
    then have "\<exists>i < n. dm_role (ms ! i) = role_user" using Suc.prems less_Suc_eq by auto
    from Suc.IH [OF this] False show ?thesis by (auto simp: less_Suc_eq)
  qed (auto simp: less_Suc_eq)
qed simp

lemma initial_selection_ok: "selection_ok ms (initial_selection ms)"
  by (auto simp: initial_selection_def Let_def intro!: add_index_ok)

lemma initial_selection_length: "length (fst (initial_selection ms)) \<le> 2"
proof -
  have one: "length (fst (add_index ms i ([], 0))) \<le> 1" for i
    using add_index_length [of ms i "([], 0)"] by simp
  have two: "length (fst (add_index ms j (add_index ms i ([], 0)))) \<le> 2" for i j
    using add_index_length [of ms j "add_index ms i ([], 0)"] one [of i] by simp
  have "length (fst (add_index ms i ([], 0))) \<le> 2" for i using one [of i] by simp
  with two show ?thesis by (simp add: initial_selection_def Let_def)
qed

lemma initial_selection_user:
  assumes "0 \<le> last_user_index ms (length ms)"
  shows "nat (last_user_index ms (length ms)) \<in> set (fst (initial_selection ms))"
  using assms last_user_index_bound [of ms "length ms"] add_index_mono
    add_index_in [of "last_user_index ms (length ms)" ms "([], 0)"]
  by (fastforce simp: initial_selection_def Let_def)

lemma subseq_indices: "subseq (map ((!) ms) (filter P [0..<length ms])) ms"
  using subseq_map [OF subseq_filter_left, of "(!) ms" P "[0..<length ms]"] by (simp add: map_nth)

lemma set_indices:
  "(\<And>j. j \<in> set js \<Longrightarrow> j < n) \<Longrightarrow> set (filter (\<lambda>i. i \<in> set js) [0..<n]) = set js"
  by auto

lemma sum_list_indices:
  assumes "distinct js" "\<And>j. j \<in> set js \<Longrightarrow> j < n"
  shows "sum_list (map f (filter (\<lambda>i. i \<in> set js) [0..<n])) = sum_list (map (f :: nat \<Rightarrow> int) js)"
proof -
  have "sum_list (map f (filter (\<lambda>i. i \<in> set js) [0..<n])) = sum f (set (filter (\<lambda>i. i \<in> set js) [0..<n]))"
    by (rule sum_list_distinct_conv_sum_set) simp
  also have "set (filter (\<lambda>i. i \<in> set js) [0..<n]) = set js" by (rule set_indices) (rule assms(2))
  also have "sum f (set js) = sum_list (map f js)" by (rule sum_list_distinct_conv_sum_set [symmetric]) (rule assms(1))
  finally show ?thesis .
qed

lemma length_indices:
  assumes "distinct js" "\<And>j. j \<in> set js \<Longrightarrow> j < n"
  shows "length (filter (\<lambda>i. i \<in> set js) [0..<n]) = length js"
proof -
  have "length (filter (\<lambda>i. i \<in> set js) [0..<n]) = card (set (filter (\<lambda>i. i \<in> set js) [0..<n]))"
    by (rule distinct_card [symmetric]) simp
  also have "set (filter (\<lambda>i. i \<in> set js) [0..<n]) = set js" by (rule set_indices) (rule assms(2))
  also have "card (set js) = length js" by (rule distinct_card) (rule assms(1))
  finally show ?thesis .
qed

lemma select_recent_spec:
  assumes "ms \<noteq> []" "2 \<le> limit" "0 < budget"
  defines "out \<equiv> fst (select_recent_raw_messages_by_budget ms limit budget)"
  shows "subseq out ms" "int (length out) \<le> limit"
    "sum_list (map message_tokens out) \<le> max budget (snd (initial_selection ms))"
    "0 \<le> last_user_index ms (length ms) \<Longrightarrow> ms ! nat (last_user_index ms (length ms)) \<in> set out"
proof -
  let ?st = "budget_loop ms limit budget (length ms) (initial_selection ms)"
  have out: "out = map ((!) ms) (filter (\<lambda>i. i \<in> set (fst ?st)) [0..<length ms])"
    using assms(1-3) by (simp add: out_def select_recent_raw_messages_by_budget_def Let_def)
  have ok: "selection_ok ms ?st" by (rule budget_loop_ok [OF order_refl initial_selection_ok])
  then have d: "distinct (fst ?st)" "\<And>i. i \<in> set (fst ?st) \<Longrightarrow> i < length ms"
    and t: "snd ?st = sum_list (map (\<lambda>i. message_tokens (ms ! i)) (fst ?st))"
    by (auto simp: selection_ok_def)
  show "subseq out ms" unfolding out by (rule subseq_indices)
  have "int (length (fst ?st)) \<le> limit"
    using budget_loop_length [of limit ms budget "length ms" "initial_selection ms"]
      initial_selection_length [of ms] assms(2) by simp
  then show "int (length out) \<le> limit" unfolding out by (simp add: length_indices [OF d])
  have "sum_list (map message_tokens out) = snd ?st"
    unfolding out t using sum_list_indices [OF d, of "\<lambda>i. message_tokens (ms ! i)"] by (simp add: comp_def)
  then show "sum_list (map message_tokens out) \<le> max budget (snd (initial_selection ms))"
    using budget_loop_tokens [OF assms(3) order_refl, of ms limit "initial_selection ms"] by simp
  show "ms ! nat (last_user_index ms (length ms)) \<in> set out" if "0 \<le> last_user_index ms (length ms)"
  proof -
    have "nat (last_user_index ms (length ms)) \<in> set (fst ?st)"
      using initial_selection_user [OF that] budget_loop_mono by blast
    with d(2) show ?thesis unfolding out by (simp add: rev_image_eqI)
  qed
qed

subsection \<open>Indexing\<close>

lemma vector_delete_chunks: "keeps (\<lambda>w. mw_chunks w = cs \<and> mw_docs w = ds) (vector_delete_document_chunks ix i)"
  unfolding vector_delete_document_chunks_def
  by (intro keeps_intro keeps_mem_write) (simp_all add: stepless_def)

lemma vector_upsert_chunks_keeps: "keeps (\<lambda>w. mw_chunks w = cs \<and> mw_docs w = ds) (vector_upsert_chunks ix vs)"
  unfolding vector_upsert_chunks_def Let_def
  by (intro keeps_intro keeps_mem_write) (simp_all add: stepless_def)

lemma repo_replace_chunks_Inr:
  assumes "repo_replace_chunks i rows w = (Inr (), w')" "trim_text i = i" "i \<noteq> []"
  shows "\<exists>now. mw_chunks w' = filter (\<lambda>c. ak_document_id c \<noteq> i) (mw_chunks w)
      @ map (\<lambda>c. c\<lparr>ak_document_id := i, ak_updated_at := now\<rparr>) (rows now)"
  using assms
  by (auto simp: repo_replace_chunks_def mem_write_def replace_document_chunks_def Let_def split: mem_fate.splits)

lemma memory_chunker_pos: "0 < pc_max_chars (memory_chunker g)"
  unfolding memory_chunker_def by (rule new_paragraph_chunker_pos)

lemma chunk_document_returns: "0 < pc_max_chars c \<Longrightarrow> \<exists>r. chunk_document h ctx c doc = Some r"
  using split_text_loop_returns [of c "[]"]
  by (auto simp: chunk_document_def split_text_def Let_def) (metis bind.bind_lunit)

lemma chunk_document_chunks:
  assumes "chunk_document h ctx c doc = Some (Inr chunks)"
  shows "map mc_chunk_index chunks = [0..<length chunks]"
    "normalize_chunk_document_text (md_content doc) = [] \<and> chunks = []
     \<or> split_text c (normalize_chunk_document_text (md_content doc)) = Some (map mc_content_text chunks)"
proof -
  let ?t = "normalize_chunk_document_text (md_content doc)"
  show "?t = [] \<and> chunks = [] \<or> split_text c ?t = Some (map mc_content_text chunks)"
    using assms
    by (cases "split_text c ?t")
       (auto simp: chunk_document_def Let_def document_chunk_def comp_def case_prod_beta' split: if_splits)
  show "map mc_chunk_index chunks = [0..<length chunks]"
    using assms
    by (cases "split_text c ?t")
       (auto simp: chunk_document_def Let_def document_chunk_def comp_def case_prod_beta' split: if_splits)
qed

text \<open>The rows of a document after its indexing has succeeded.\<close>

definition chunk_rows_of :: "runes \<Rightarrow> mem_world \<Rightarrow> ai_memory_document_chunk list" where
  "chunk_rows_of i w = filter (\<lambda>c. ak_document_id c = i) (mw_chunks w)"

lemma index_one_document_chunks:
  assumes run: "index_one_document g env ix d w = (Inr (), w')" and i: "trim_text (am_id d) = am_id d" "am_id d \<noteq> []"
  obtains chunks where
    "chunk_document (me_sha256_hex env) False (memory_chunker g) (memory_document_entity_to_index d) = Some (Inr chunks)"
    "map ak_content_text (chunk_rows_of (am_id d) w') = map mc_content_text chunks"
    "map ak_chunk_index (chunk_rows_of (am_id d) w') = map int (map mc_chunk_index chunks)"
    "filter (\<lambda>c. ak_document_id c \<noteq> am_id d) (mw_chunks w') = filter (\<lambda>c. ak_document_id c \<noteq> am_id d) (mw_chunks w)"
proof -
  let ?i = "am_id d"
  from run obtain chunks where step: "chunk_step g env ix d w = (Inr chunks, w)"
    and rest: "(if chunks = [] then repo_replace_chunks ?i (\<lambda>now. [])
       else svc_bind (embed_texts ix (map mc_content_text chunks)) (\<lambda>vectors.
         if length vectors \<noteq> length chunks then svc_throw MemEmbedError
         else svc_bind mem_time (\<lambda>indexed_at.
           svc_bind (vector_delete_document_chunks ix ?i) (\<lambda>_.
           svc_bind (vector_upsert_chunks ix (zip chunks vectors)) (\<lambda>_.
           repo_replace_chunks ?i (\<lambda>now. map (memory_chunk_to_entity g indexed_at) chunks)))))) w = (Inr (), w')"
    unfolding index_one_document_def
    by (auto simp: svc_bind_Inr_iff chunk_step_def split: option.splits sum.splits)
  from step have cd: "chunk_document (me_sha256_hex env) False (memory_chunker g) (memory_document_entity_to_index d) = Some (Inr chunks)"
    by (auto simp: chunk_step_def chunk_document_def Let_def split: option.splits sum.splits if_splits)
  obtain ts v where v: "mw_chunks v = mw_chunks w"
    "repo_replace_chunks ?i (\<lambda>now. map (memory_chunk_to_entity g ts) chunks) v = (Inr (), w')"
  proof (cases "chunks = []")
    case True
    with rest that [of w] show thesis by simp
  next
    case False
    from rest obtain vs w1 w2 w3 ts where r:
      "embed_texts ix (map mc_content_text chunks) w = (Inr vs, w1)"
      "vector_delete_document_chunks ix ?i w1 = (Inr (), w2)"
      "vector_upsert_chunks ix (zip chunks vs) w2 = (Inr (), w3)"
      "repo_replace_chunks ?i (\<lambda>now. map (memory_chunk_to_entity g ts) chunks) w3 = (Inr (), w')"
      unfolding if_not_P [OF False]
      by (auto simp: svc_bind_Inr_iff mem_time_def split: if_splits)
    have "mw_chunks w1 = mw_chunks w" using r(1) by (auto simp: embed_texts_def split: option.splits)
    moreover have "mw_chunks w2 = mw_chunks w1" using keepsD [OF vector_delete_chunks _ r(2)] by blast
    moreover have "mw_chunks w3 = mw_chunks w2" using keepsD [OF vector_upsert_chunks_keeps _ r(3)] by blast
    ultimately show thesis using r(4) that by simp
  qed
  from repo_replace_chunks_Inr [OF v(2) i] obtain now where
    out: "mw_chunks w' = filter (\<lambda>c. ak_document_id c \<noteq> ?i) (mw_chunks w)
      @ map (\<lambda>c. c\<lparr>ak_document_id := ?i, ak_updated_at := now\<rparr>) (map (memory_chunk_to_entity g ts) chunks)"
    unfolding v(1) by blast
  show thesis
  proof (rule that [OF cd])
    show "map ak_content_text (chunk_rows_of ?i w') = map mc_content_text chunks"
      "map ak_chunk_index (chunk_rows_of ?i w') = map int (map mc_chunk_index chunks)"
      by (simp_all add: chunk_rows_of_def out filter_map comp_def memory_chunk_to_entity_def)
    show "filter (\<lambda>c. ak_document_id c \<noteq> ?i) (mw_chunks w') = filter (\<lambda>c. ak_document_id c \<noteq> ?i) (mw_chunks w)"
      by (simp add: out filter_map comp_def)
  qed
qed

text \<open>A document whose chunks cannot be embedded.\<close>

definition pending_round :: "conf \<Rightarrow> mem_env \<Rightarrow> memory_indexer \<Rightarrow> int \<Rightarrow> mem_world \<Rightarrow> mem_world" where
  "pending_round g env ix limit w = snd (index_pending_documents g env ix limit w)"

lemma index_one_failing:
  assumes "\<And>n. ix_embed ix n (map mc_content_text chunks) = None" "chunks \<noteq> []"
    and "\<And>n. ix_ctx_done ix n = False"
    and "chunk_document (me_sha256_hex env) False (memory_chunker g) (memory_document_entity_to_index d) = Some (Inr chunks)"
  shows "index_one_document g env ix d w = (Inl MemEmbedError, mem_tick w)"
  using assms by (simp add: index_one_document_def chunk_step_def svc_bind_def embed_texts_def)

lemma hd_sort_key_least:
  assumes "d \<in> set xs" "\<And>e. e \<in> set xs \<Longrightarrow> e \<noteq> d \<Longrightarrow> f d < (f e :: int)"
  shows "\<exists>ys. sort_key f xs = d # ys"
proof (cases "sort_key f xs")
  case Nil
  then show ?thesis using assms(1) by (metis empty_iff list.set(1) set_sort)
next
  case (Cons x ys)
  have s: "sorted (map f (x # ys))" and x: "x \<in> set xs" and d: "d \<in> set (x # ys)"
    using Cons assms(1) by (metis sorted_sort_key, metis list.set_intros(1) set_sort, metis set_sort)
  have "f x \<le> f d" using s d by auto
  then have "x = d" using assms(2) [OF x] by force
  with Cons show ?thesis by simp
qed

lemma take_limit_Cons: "take_limit n (x # xs) = x # (if 0 < n then take (nat n - 1) xs else xs)"
  by (auto simp: take_limit_def take_Cons' )

lemma pending_round_blocked:
  assumes fail: "\<And>n. ix_embed ix n (map mc_content_text chunks) = None" "chunks \<noteq> []" "\<And>n. ix_ctx_done ix n = False"
      "chunk_document (me_sha256_hex env) False (memory_chunker g) (memory_document_entity_to_index d) = Some (Inr chunks)"
    and d: "d \<in> set (mw_docs w)" "am_deleted_at d = None" "am_expires_at d = None" "am_content_text d \<noteq> []"
      "chunk_rows_of (am_id d) w = []"
    and least: "\<And>e. e \<in> set (mw_docs w) \<Longrightarrow> e \<noteq> d \<Longrightarrow> am_updated_at d < am_updated_at e"
  shows "mw_chunks (pending_round g env ix limit w) = mw_chunks w \<and> mw_docs (pending_round g env ix limit w) = mw_docs w"
proof (cases "memory_indexing_ready g ix \<and> mw_fate w (mw_step w) = MemAnswered
    \<and> trim_text (ai_memory_embed_model g) \<noteq> [] \<and> 0 < ai_memory_embed_dimension g")
  case False
  then show ?thesis
    by (auto simp: pending_round_def index_pending_documents_def svc_bind_def mem_read_def
        list_documents_needing_index_def index_document_rows_def)
next
  case True
  let ?P = "\<lambda>e. am_content_text e \<noteq> [] \<and> live_document (mem_now w) e
      \<and> needs_index (trim_text (ai_memory_embed_model g)) (ai_memory_embed_dimension g) (mw_chunks w) e"
  have "?P d" using d by (simp add: live_document_def unexpired_def needs_index_def chunk_rows_of_def)
  then have "\<exists>ys. sort_key am_updated_at (filter ?P (mw_docs w)) = d # ys"
    using d(1) least by (intro hd_sort_key_least) auto
  then obtain ys where "\<And>l. \<exists>zs. list_documents_needing_index (mem_now w) l (ai_memory_embed_model g)
      (ai_memory_embed_dimension g) (mw_chunks w) (mw_docs w) = d # zs"
    using True by (auto simp: list_documents_needing_index_def take_limit_Cons)
  then obtain zs where "list_documents_needing_index (mem_now w)
      (if limit \<le> 0 then ai_memory_index_batch_size g else limit) (ai_memory_embed_model g)
      (ai_memory_embed_dimension g) (mw_chunks w) (mw_docs w) = d # zs" by blast
  with True index_one_failing [OF fail] show ?thesis
    by (simp add: pending_round_def index_pending_documents_def svc_bind_def mem_read_def index_document_rows_def)
qed

lemma pending_rounds_blocked:
  assumes fail: "\<And>n. ix_embed ix n (map mc_content_text chunks) = None" "chunks \<noteq> []" "\<And>n. ix_ctx_done ix n = False"
      "chunk_document (me_sha256_hex env) False (memory_chunker g) (memory_document_entity_to_index d) = Some (Inr chunks)"
    and d: "d \<in> set (mw_docs w)" "am_deleted_at d = None" "am_expires_at d = None" "am_content_text d \<noteq> []"
      "chunk_rows_of (am_id d) w = []"
    and least: "\<And>e. e \<in> set (mw_docs w) \<Longrightarrow> e \<noteq> d \<Longrightarrow> am_updated_at d < am_updated_at e"
  shows "mw_chunks ((pending_round g env ix limit ^^ k) w) = mw_chunks w
    \<and> mw_docs ((pending_round g env ix limit ^^ k) w) = mw_docs w"
proof (induction k)
  case (Suc k)
  let ?v = "(pending_round g env ix limit ^^ k) w"
  have "mw_chunks (pending_round g env ix limit ?v) = mw_chunks ?v \<and> mw_docs (pending_round g env ix limit ?v) = mw_docs ?v"
    by (rule pending_round_blocked [OF fail]) (use d least Suc in \<open>simp_all add: chunk_rows_of_def\<close>)
  with Suc show ?case by simp
qed simp

end
