(* ===== verification/Demo_Memory.thy ===== *)
theory Demo_Memory
  imports Memory_Recall_Correct
begin

text \<open>
  A small world on which the properties of the memory are applied: user 7 finishes a turn of the
  conversation \<open>c1\<close>; user 8 has a fact and a document of their own. The environment is a toy one:
  every hash is \<open>00\<close>, lower case is the identity, dates and lists are never parsed.
\<close>

definition demo_env :: mem_env where
  "demo_env = \<lparr>me_sha256_hex = (\<lambda>_. ''00''), me_lower_rune = (\<lambda>r. r), me_parse_rfc3339 = (\<lambda>_. None),
     me_json_decode = (\<lambda>_. None), me_json_encode = (\<lambda>_. []), me_format_score = (\<lambda>_. [])\<rparr>"

definition demo_memory_config :: ai_memory_config where
  "demo_memory_config = \<lparr>cf_enabled = True, cf_enable_entity_memory = True, cf_enable_long_term_memory = True,
     cf_embed_model = ascii ''m'', cf_embed_dimension = 2, cf_chunk_max_chars = 8, cf_chunk_overlap_chars = 0,
     cf_index_batch_size = 4, cf_summary_refresh_every_turns = 10, cf_recall_top_k = 4,
     cf_recall_max_chars = 100, cf_recall_min_score = 1 / 2, cf_rag_max_chars = 100, cf_recent_raw_turns = 2,
     cf_recent_raw_token_budget = 100, cf_compress_threshold_tokens = 0\<rparr>"

definition demo_fact :: "nat \<Rightarrow> runes \<Rightarrow> runes \<Rightarrow> runes \<Rightarrow> ai_memory_fact" where
  "demo_fact u k v src = \<lparr>af_id = u, af_scope_key = build_self_memory_scope_key u, af_scope_type = memory_scope_self,
     af_visibility = memory_visibility_self, af_user_id = Some u, af_org_id = None,
     af_namespace = ns_user_preference, af_fact_key = k, af_fact_value_json = v, af_summary = [],
     af_confidence = 1, af_source_kind = src, af_source_id = [], af_effective_at = None, af_expires_at = None,
     af_created_at = 0, af_updated_at = 0\<rparr>"

definition demo_document :: "runes \<Rightarrow> nat \<Rightarrow> runes \<Rightarrow> int \<Rightarrow> ai_memory_document" where
  "demo_document i u content time = \<lparr>am_id = i, am_scope_key = build_self_memory_scope_key u,
     am_scope_type = memory_scope_self, am_visibility = memory_visibility_self, am_user_id = Some u,
     am_org_id = None, am_memory_type = memory_type_episodic, am_topic = [], am_title = [], am_summary = [],
     am_content_text = content, am_content_hash = [], am_summary_hash = [], am_dedup_key = [],
     am_importance = 1, am_quality_score = 1, am_embedding_model = [], am_source_kind = [], am_source_id = [],
     am_effective_at = None, am_expires_at = None, am_created_at = time, am_updated_at = time, am_deleted_at = None\<rparr>"

definition demo_message :: "runes \<Rightarrow> runes \<Rightarrow> ai_message" where
  "demo_message i role = \<lparr>ms_id = i, ms_conversation_id = ascii ''c1'', ms_role = role, ms_content = ascii ''hi'',
     ms_status = status_success, ms_created_at = 0\<rparr>"

definition demo_memory :: mem_world where
  "demo_memory = \<lparr>mw_facts = [demo_fact 8 (ascii ''lang'') (ascii ''go'') src_admin_set,
       demo_fact 7 (ascii ''lang'') (ascii ''go'') src_explicit_user_statement],
     mw_docs = [demo_document (ascii ''d8'') 8 (ascii ''ab'') 0], mw_chunks = [], mw_summaries = [],
     mw_messages = [demo_message (ascii ''u1'') role_user, demo_message (ascii ''a1'') role_assistant],
     mw_vectors = [], mw_step = 0, mw_clock = (\<lambda>_. 5), mw_fate = (\<lambda>_. MemAnswered)\<rparr>"

definition demo_turn :: ai_memory_writeback_input where
  "demo_turn = \<lparr>wi_conversation_id = ascii ''c1'', wi_user_id = 7, wi_org_id = None,
     wi_user_message_id = ascii ''u1'', wi_assistant_message_id = ascii ''a1'',
     wi_principal = \<lparr>pr_user_id = 7, pr_current_org_id = None, pr_is_super_admin = False\<rparr>\<rparr>"

definition demo_candidate :: "runes \<Rightarrow> runes \<Rightarrow> runes \<Rightarrow> memory_fact_candidate" where
  "demo_candidate k v src = \<lparr>fc_scope_type = memory_scope_self, fc_user_id = Some 7, fc_org_id = None,
     fc_namespace = ns_user_preference, fc_fact_key = k, fc_fact_value_json = v, fc_summary = [],
     fc_confidence = 1, fc_ttl_hint = None, fc_source_kind = src, fc_source_id = [],
     fc_low_value = False, fc_truth_conflict = False\<rparr>"

text \<open>The model infers another language and proposes an editor.\<close>

definition demo_extract :: extractor where
  "demo_extract inp = Some \<lparr>ex_summary = None,
     ex_facts = [demo_candidate (ascii ''lang'') (ascii ''c'') src_model_inferred,
                 demo_candidate (ascii ''ed'') (ascii ''vi'') src_model_inferred],
     ex_documents = []\<rparr>"

definition demo_after :: mem_world where
  "demo_after = snd (on_turn_completed (Some demo_memory_config) demo_env demo_extract demo_turn demo_memory)"

end
