(* ===== verification/Rate_Limit.thy ===== *)
theory Rate_Limit
  imports Redis_Lock "HOL-Library.AList"
begin

text \<open>
  The rate limiters (\<open>pkg/ratelimit/ratelimit.go\<close>, \<open>pkg/ratelimit/sliding_window.go\<close>). Their Lua
  scripts run in Redis and are part of the source; a script is one atomic step on the entry of its
  key, here the counter or sorted set of one identifier, and time is in milliseconds. An evaluation may be
  refused, or carried out with its answer lost; both are errors of the call. The clock of the client
  and the expiry clock of Redis advance alike.
\<close>

record limit_result =
  lr_allowed :: bool
  lr_current :: int
  lr_limit :: int
  lr_remaining :: int
  lr_retry_after :: int

definition remaining_of :: "int \<Rightarrow> int \<Rightarrow> int" where
  "remaining_of limit current = (if limit - current < 0 then 0 else limit - current)"

subsection \<open>Fixed window\<close>

text \<open>A counter with its expiry; absent when never written or expired.\<close>

record counter =
  ct_value :: int
  ct_expires :: "int option"

definition live_counter :: "int \<Rightarrow> counter option \<Rightarrow> counter option" where
  "live_counter now c = (case c of None \<Rightarrow> None
     | Some k \<Rightarrow> (case ct_expires k of None \<Rightarrow> c | Some e \<Rightarrow> if now < e then c else None))"

definition lua_fixed_window :: "int \<Rightarrow> int \<Rightarrow> int \<Rightarrow> counter option \<Rightarrow> (int \<times> int) \<times> counter option" where
  "lua_fixed_window limit window_ms now c =
    (let k = (case live_counter now c of None \<Rightarrow> \<lparr>ct_value = 0, ct_expires = None\<rparr> | Some k \<Rightarrow> k);
         current = ct_value k + 1;
         k1 = k\<lparr>ct_value := current\<rparr>;
         k2 = (if current = 1 then k1\<lparr>ct_expires := Some (now + window_ms)\<rparr> else k1)
     in (if current > limit then (0, current) else (1, current), Some k2))"

text \<open>\<open>int(window.Seconds())\<close>, sixty when that is not positive; the window is a duration in nanoseconds.\<close>

definition window_seconds :: "int \<Rightarrow> int" where
  "window_seconds window = (let s = go_div window 1000000000 in if s \<le> 0 then 60 else s)"

definition retry_after_for_fixed_window :: "bool \<Rightarrow> int \<Rightarrow> int" where
  "retry_after_for_fixed_window allowed window = (if allowed \<or> window \<le> 0 then 0 else window)"

definition fixed_allow :: "int \<Rightarrow> int \<Rightarrow> int \<Rightarrow> call_fate \<Rightarrow> counter option \<Rightarrow> limit_result option \<times> counter option" where
  "fixed_allow limit window now fate c =
    (let w = window_seconds window * 1000;
         ((ok, current), c') = lua_fixed_window limit w now c
     in case fate of
          Refused \<Rightarrow> (None, c)
        | Unanswered \<Rightarrow> (None, c')
        | Answered \<Rightarrow> (Some \<lparr>lr_allowed = (ok = 1), lr_current = current, lr_limit = limit,
             lr_remaining = remaining_of limit current,
             lr_retry_after = retry_after_for_fixed_window (ok = 1) w\<rparr>, c'))"

subsection \<open>Sliding window\<close>

type_synonym zset = "(string \<times> int) list"

record limiter_key =
  lk_members :: zset
  lk_expires :: "int option"

definition live_members :: "int \<Rightarrow> limiter_key \<Rightarrow> zset" where
  "live_members now k = (case lk_expires k of None \<Rightarrow> lk_members k | Some e \<Rightarrow> if now < e then lk_members k else [])"

definition oldest_score :: "zset \<Rightarrow> int option" where
  "oldest_score z = (case z of [] \<Rightarrow> None | m # ms \<Rightarrow> Some (fold (\<lambda>(_, s) a. min s a) ms (snd m)))"

definition lua_sliding_window ::
    "int \<Rightarrow> int \<Rightarrow> int \<Rightarrow> string \<Rightarrow> limiter_key \<Rightarrow> (int \<times> int \<times> int) \<times> limiter_key" where
  "lua_sliding_window limit window_ms now member k =
    (let z = filter (\<lambda>(_, s). \<not> s \<le> now - window_ms) (live_members now k);
         current = int (length z);
         expires = (if z = [] then None else Some (now + window_ms))
     in if current \<ge> limit then
          ((0, current, case oldest_score z of None \<Rightarrow> 0 | Some s \<Rightarrow> max 0 (s + window_ms - now)),
           \<lparr>lk_members = z, lk_expires = expires\<rparr>)
        else ((1, current + 1, 0),
              \<lparr>lk_members = AList.update member now z, lk_expires = Some (now + window_ms)\<rparr>))"

definition window_millis :: "int \<Rightarrow> int" where
  "window_millis window = (let m = go_div window 1000000 in if m \<le> 0 then 60000 else m)"

definition sliding_allow ::
    "int \<Rightarrow> int \<Rightarrow> int \<Rightarrow> string \<Rightarrow> call_fate \<Rightarrow> limiter_key \<Rightarrow> limit_result option \<times> limiter_key" where
  "sliding_allow limit window now member fate k =
    (let ((ok, current, retry), k') = lua_sliding_window limit (window_millis window) now member k
     in case fate of
          Refused \<Rightarrow> (None, k)
        | Unanswered \<Rightarrow> (None, k')
        | Answered \<Rightarrow> (Some \<lparr>lr_allowed = (ok = 1), lr_current = current, lr_limit = limit,
             lr_remaining = remaining_of limit current, lr_retry_after = retry\<rparr>, k'))"

subsection \<open>Sequences of requests\<close>

text \<open>A request: its time, its unique member and the fate of its evaluation. The result lists the times allowed.\<close>

fun sliding_run :: "int \<Rightarrow> int \<Rightarrow> (int \<times> string \<times> call_fate) list \<Rightarrow> limiter_key \<Rightarrow> int list \<times> limiter_key" where
  "sliding_run limit window [] k = ([], k)"
| "sliding_run limit window ((now, member, fate) # rs) k =
     (case sliding_allow limit window now member fate k of (r, k') \<Rightarrow>
       (case sliding_run limit window rs k' of (ts, k'') \<Rightarrow>
         ((case r of Some x \<Rightarrow> if lr_allowed x then [now] else [] | None \<Rightarrow> []) @ ts, k'')))"

fun fixed_run :: "int \<Rightarrow> int \<Rightarrow> (int \<times> call_fate) list \<Rightarrow> counter option \<Rightarrow> int list \<times> counter option" where
  "fixed_run limit window [] c = ([], c)"
| "fixed_run limit window ((now, fate) # rs) c =
     (case fixed_allow limit window now fate c of (r, c') \<Rightarrow>
       (case fixed_run limit window rs c' of (ts, c'') \<Rightarrow>
         ((case r of Some x \<Rightarrow> if lr_allowed x then [now] else [] | None \<Rightarrow> []) @ ts, c'')))"

lemma window_millis_pos: "0 < window_millis w"
  by (simp add: window_millis_def Let_def)

lemma window_seconds_pos: "0 < window_seconds w"
  by (simp add: window_seconds_def Let_def)

lemma count_filter_mono: "(\<And>x. x \<in> set xs \<Longrightarrow> P x \<Longrightarrow> Q x) \<Longrightarrow> length (filter P xs) \<le> length (filter Q xs)"
  by (induction xs) auto

subsection \<open>The sliding bound\<close>

text \<open>
  \<open>sliding_ok\<close>, with the times \<open>ts\<close> allowed so far and a window of \<open>wm\<close>: the members still inside the
  window account for all allowed times inside it, no interval of a window's length has more allowed
  times than the limit, and the key does not expire before its members leave the window.
\<close>

definition sliding_ok :: "int \<Rightarrow> int \<Rightarrow> int \<Rightarrow> int list \<Rightarrow> limiter_key \<Rightarrow> bool" where
  "sliding_ok limit wm now ts k \<longleftrightarrow>
     (\<forall>x \<ge> now - wm. length (filter (\<lambda>s. x < s) ts) \<le> length (filter (\<lambda>(_, s). x < s) (lk_members k)))
     \<and> (\<forall>a. int (length (filter (\<lambda>s. a < s \<and> s \<le> a + wm) ts)) \<le> max 0 limit)
     \<and> (\<forall>(m, s) \<in> set (lk_members k). case lk_expires k of None \<Rightarrow> True | Some e \<Rightarrow> s + wm \<le> e)
     \<and> (\<forall>(m, s) \<in> set (lk_members k). s \<le> now)
     \<and> (\<forall>s \<in> set ts. s \<le> now)"

lemma sliding_window_members:
  assumes "sliding_ok limit wm now ts k"
  shows "filter (\<lambda>(_, s). \<not> s \<le> t - wm) (live_members t k) = filter (\<lambda>(_, s). t - wm < s) (lk_members k)"
proof (cases "lk_expires k")
  case None
  then show ?thesis by (simp add: live_members_def not_le case_prod_beta')
next
  case (Some e)
  show ?thesis
  proof (cases "t < e")
    case True
    with Some show ?thesis by (simp add: live_members_def not_le case_prod_beta')
  next
    case False
    have "\<forall>(m, s) \<in> set (lk_members k). s + wm \<le> e" using assms Some by (simp add: sliding_ok_def)
    then have "filter (\<lambda>(_, s). t - wm < s) (lk_members k) = []"
      using False by (fastforce simp: filter_empty_conv)
    with Some False show ?thesis by (simp add: live_members_def)
  qed
qed

lemma alist_update_fresh: "m \<notin> fst ` set z \<Longrightarrow> AList.update m v z = z @ [(m, v)]"
  by (induction z) auto

lemma filter_filter_ge:
  "y \<le> x \<Longrightarrow> filter (\<lambda>(_, s). (x::int) < s) (filter (\<lambda>(_, s). y < s) z) = filter (\<lambda>(_, s). x < s) z"
  by (induction z) auto

lemma sliding_ok_later: "sliding_ok limit wm now ts k \<Longrightarrow> now \<le> t \<Longrightarrow> sliding_ok limit wm t ts k"
  by (fastforce simp: sliding_ok_def)

lemma sliding_okD:
  assumes "sliding_ok limit wm now ts k"
  shows "now - wm \<le> x \<Longrightarrow> length (filter (\<lambda>s. x < s) ts) \<le> length (filter (\<lambda>(_, s). x < s) (lk_members k))"
    "int (length (filter (\<lambda>s. a < s \<and> s \<le> a + wm) ts)) \<le> max 0 limit"
    "q \<in> set (lk_members k) \<Longrightarrow> snd q \<le> now" "s \<in> set ts \<Longrightarrow> s \<le> now"
  using assms unfolding sliding_ok_def by auto

lemma sliding_okI:
  assumes "\<And>x. now - wm \<le> x \<Longrightarrow> length (filter (\<lambda>s. x < s) ts) \<le> length (filter (\<lambda>(_, s). x < s) z)"
    and "\<And>a. int (length (filter (\<lambda>s. a < s \<and> s \<le> a + wm) ts)) \<le> max 0 limit"
    and "\<And>q. q \<in> set z \<Longrightarrow> snd q \<le> now" "\<And>s. s \<in> set ts \<Longrightarrow> s \<le> now"
    and "e = (if z = [] then None else Some (now + wm))"
  shows "sliding_ok limit wm now ts \<lparr>lk_members = z, lk_expires = e\<rparr>"
  using assms unfolding sliding_ok_def by fastforce

text \<open>The set after a script: without the members that left, and with the new one when it was allowed.\<close>

lemma sliding_ok_trim:
  assumes ok: "sliding_ok limit wm now ts k" and t: "now \<le> t"
    and z: "z = filter (\<lambda>(_, s). t - wm < s) (lk_members k)"
  shows "sliding_ok limit wm t ts \<lparr>lk_members = z, lk_expires = (if z = [] then None else Some (t + wm))\<rparr>"
proof (rule sliding_okI)
  fix x assume "t - wm \<le> x"
  then show "length (filter (\<lambda>s. x < s) ts) \<le> length (filter (\<lambda>(_, s). x < s) z)"
    unfolding z using sliding_okD(1) [OF ok, of x] t by (simp only: filter_filter_ge)
next
  show "int (length (filter (\<lambda>s. a < s \<and> s \<le> a + wm) ts)) \<le> max 0 limit" for a by (rule sliding_okD(2) [OF ok])
  show "q \<in> set z \<Longrightarrow> snd q \<le> t" for q using sliding_okD(3) [OF ok, of q] t by (auto simp: z)
  show "s \<in> set ts \<Longrightarrow> s \<le> t" for s using sliding_okD(4) [OF ok, of s] t by auto
qed simp

lemma sliding_ok_add:
  assumes ok: "sliding_ok limit wm now ts k" and t: "now \<le> t" "0 < wm"
    and z: "z = filter (\<lambda>(_, s). t - wm < s) (lk_members k)" "int (length z) < limit"
  shows "sliding_ok limit wm t (ts @ [t]) \<lparr>lk_members = z @ [(m, t)], lk_expires = Some (t + wm)\<rparr>"
proof (rule sliding_okI)
  fix a
  show "int (length (filter (\<lambda>s. a < s \<and> s \<le> a + wm) (ts @ [t]))) \<le> max 0 limit"
  proof (cases "a < t \<and> t \<le> a + wm")
    case True
    have "length (filter (\<lambda>s. a < s \<and> s \<le> a + wm) ts) \<le> length (filter (\<lambda>s. t - wm < s) ts)"
      using True by (intro count_filter_mono) simp
    also have "\<dots> \<le> length z" using sliding_okD(1) [OF ok, of "t - wm"] t(1) unfolding z(1) by simp
    finally show ?thesis using z(2) True by simp
  next
    case False
    then have "filter (\<lambda>s. a < s \<and> s \<le> a + wm) (ts @ [t]) = filter (\<lambda>s. a < s \<and> s \<le> a + wm) ts" by simp
    then show ?thesis using sliding_okD(2) [OF ok, of a] by simp
  qed
next
  fix x assume x: "t - wm \<le> x"
  have "length (filter (\<lambda>s. x < s) ts) \<le> length (filter (\<lambda>(_, s). x < s) z)"
    unfolding z(1) using sliding_okD(1) [OF ok, of x] x t by (simp only: filter_filter_ge)
  then show "length (filter (\<lambda>s. x < s) (ts @ [t])) \<le> length (filter (\<lambda>(_, s). x < s) (z @ [(m, t)]))"
    by simp
next
  show "q \<in> set (z @ [(m, t)]) \<Longrightarrow> snd q \<le> t" for q using sliding_okD(3) [OF ok, of q] t(1) by (auto simp: z(1))
  show "s \<in> set (ts @ [t]) \<Longrightarrow> s \<le> t" for s using sliding_okD(4) [OF ok, of s] t(1) by auto
qed simp

lemma sliding_ok_subset:
  "sliding_ok limit wm t (ts @ [t]) k \<Longrightarrow> sliding_ok limit wm t ts k"
proof -
  assume ok: "sliding_ok limit wm t (ts @ [t]) k"
  have le: "length (filter P ts) \<le> length (filter P (ts @ [t]))" for P by simp
  show ?thesis
    unfolding sliding_ok_def
  proof (intro conjI allI impI)
    show "length (filter (\<lambda>s. x < s) ts) \<le> length (filter (\<lambda>(_, s). x < s) (lk_members k))" if "t - wm \<le> x" for x
      using ok that le [of "\<lambda>s. x < s"] unfolding sliding_ok_def by (meson order_trans)
    show "int (length (filter (\<lambda>s. a < s \<and> s \<le> a + wm) ts)) \<le> max 0 limit" for a
      using ok le [of "\<lambda>s. a < s \<and> s \<le> a + wm"] unfolding sliding_ok_def by (meson of_nat_mono order_trans)
  qed (use ok in \<open>auto simp: sliding_ok_def\<close>)
qed

definition allowed_at :: "int \<Rightarrow> limit_result option \<Rightarrow> int list" where
  "allowed_at now r = (case r of Some x \<Rightarrow> if lr_allowed x then [now] else [] | None \<Rightarrow> [])"

lemma sliding_allow_ok:
  assumes ok: "sliding_ok limit (window_millis window) now ts k" and t: "now \<le> t"
    and m: "m \<notin> fst ` set (lk_members k)"
    and run: "sliding_allow limit window t m fate k = (r, k')"
  shows "sliding_ok limit (window_millis window) t (ts @ allowed_at t r) k'"
    "fst ` set (lk_members k') \<subseteq> insert m (fst ` set (lk_members k))"
proof -
  let ?w = "window_millis window"
  let ?z = "filter (\<lambda>(_, s). t - ?w < s) (lk_members k)"
  have z: "filter (\<lambda>(_, s). \<not> s \<le> t - ?w) (live_members t k) = ?z"
    by (rule sliding_window_members [OF ok])
  have fresh: "m \<notin> fst ` set ?z" using m by auto
  have script: "lua_sliding_window limit ?w t m k =
      (if int (length ?z) \<ge> limit
       then ((0, int (length ?z), case oldest_score ?z of None \<Rightarrow> 0 | Some s \<Rightarrow> max 0 (s + ?w - t)),
             \<lparr>lk_members = ?z, lk_expires = (if ?z = [] then None else Some (t + ?w))\<rparr>)
       else ((1, int (length ?z) + 1, 0), \<lparr>lk_members = ?z @ [(m, t)], lk_expires = Some (t + ?w)\<rparr>))"
    unfolding lua_sliding_window_def Let_def z alist_update_fresh [OF fresh] by simp
  have sub: "fst ` set ?z \<subseteq> fst ` set (lk_members k)" by auto
  have later: "sliding_ok limit ?w t ts k" by (rule sliding_ok_later [OF ok t])
  show "sliding_ok limit ?w t (ts @ allowed_at t r) k'"
  proof (cases "int (length ?z) \<ge> limit")
    case True
    have trim: "sliding_ok limit ?w t ts \<lparr>lk_members = ?z, lk_expires = (if ?z = [] then None else Some (t + ?w))\<rparr>"
      by (rule sliding_ok_trim [OF ok t refl])
    show ?thesis
      using run True later trim
      by (cases fate) (auto simp: sliding_allow_def Let_def script allowed_at_def)
  next
    case False
    then have lt: "int (length ?z) < limit" by simp
    note add = sliding_ok_add [OF ok t window_millis_pos refl lt, of m]
    show ?thesis
      using run False later add sliding_ok_subset [OF add]
      by (cases fate) (auto simp: sliding_allow_def Let_def script allowed_at_def)
  qed
  show "fst ` set (lk_members k') \<subseteq> insert m (fst ` set (lk_members k))"
    using run sub
    by (cases fate) (auto simp: sliding_allow_def Let_def script split: if_splits)
qed

lemma sliding_run_ok:
  assumes "sliding_ok limit (window_millis window) now ts k" "sorted (now # map fst rs)"
    and "distinct (map (fst \<circ> snd) rs)" "fst ` set (lk_members k) \<inter> (fst \<circ> snd) ` set rs = {}"
  shows "\<exists>now'. sliding_ok limit (window_millis window) now' (ts @ fst (sliding_run limit window rs k))
    (snd (sliding_run limit window rs k))"
  using assms
proof (induction rs arbitrary: now ts k)
  case Nil
  then show ?case by auto
next
  case (Cons q rs)
  obtain t m fate where q: "q = (t, m, fate)" by (cases q) auto
  obtain r k' where a: "sliding_allow limit window t m fate k = (r, k')" by fastforce
  have fresh: "m \<notin> fst ` set (lk_members k)" using Cons.prems(4) by (auto simp: q)
  note step = sliding_allow_ok [OF Cons.prems(1) _ fresh a]
  have t: "now \<le> t" using Cons.prems(2) by (simp add: q)
  have "m \<notin> (fst \<circ> snd) ` set rs" using Cons.prems(3) by (simp add: q)
  moreover have "fst ` set (lk_members k) \<inter> (fst \<circ> snd) ` set rs = {}"
    using Cons.prems(4) by (simp only: list.set(2) image_insert) blast
  ultimately have "fst ` set (lk_members k') \<inter> (fst \<circ> snd) ` set rs = {}"
    using step(2) [OF t] by blast
  then obtain now' where "sliding_ok limit (window_millis window) now'
      ((ts @ allowed_at t r) @ fst (sliding_run limit window rs k')) (snd (sliding_run limit window rs k'))"
    using Cons.IH [OF step(1) [OF t]] Cons.prems(2,3) by (auto simp: q)
  then show ?case
    by (auto simp: q a allowed_at_def split: prod.splits intro!: exI [of _ now'])
qed

lemma sliding_ok_empty: "sliding_ok limit wm now [] \<lparr>lk_members = [], lk_expires = None\<rparr>"
  by (simp add: sliding_ok_def)


lemma sliding_bound:
  assumes "sorted (map fst rs)" "distinct (map (fst \<circ> snd) rs)"
  shows "int (length (filter (\<lambda>s. a < s \<and> s \<le> a + window_millis window)
    (fst (sliding_run limit window rs \<lparr>lk_members = [], lk_expires = None\<rparr>)))) \<le> max 0 limit"
proof -
  define now where "now = (case rs of [] \<Rightarrow> 0 | q # _ \<Rightarrow> fst q)"
  have "sorted (now # map fst rs)" using assms(1) by (cases rs) (auto simp: now_def)
  from sliding_run_ok [OF sliding_ok_empty this assms(2), of limit window]
  obtain now' where "sliding_ok limit (window_millis window) now'
      ([] @ fst (sliding_run limit window rs \<lparr>lk_members = [], lk_expires = None\<rparr>))
      (snd (sliding_run limit window rs \<lparr>lk_members = [], lk_expires = None\<rparr>))" by auto
  from sliding_okD(2) [OF this] show ?thesis by simp
qed


subsection \<open>The fixed window\<close>

text \<open>
  \<open>fixed_ok\<close>: in the window of the counter at most its value and at most the limit have been allowed,
  in the window's length before it at most the limit, and nowhere more than twice the limit in one length.
\<close>

definition count_times :: "(int \<Rightarrow> bool) \<Rightarrow> int list \<Rightarrow> int" where
  "count_times P ts = int (length (filter P ts))"

lemma count_times_append [simp]: "count_times P (ts @ us) = count_times P ts + count_times P us"
  by (simp add: count_times_def)

lemma count_times_single [simp]: "count_times P [t] = (if P t then 1 else 0)" "count_times P [] = 0"
  by (simp_all add: count_times_def)

lemma count_times_mono: "(\<And>s. s \<in> set ts \<Longrightarrow> P s \<Longrightarrow> Q s) \<Longrightarrow> count_times P ts \<le> count_times Q ts"
  unfolding count_times_def by (simp add: count_filter_mono)

lemma count_times_split: "count_times P ts \<le> count_times (\<lambda>s. P s \<and> Q s) ts + count_times (\<lambda>s. P s \<and> \<not> Q s) ts"
  unfolding count_times_def by (induction ts) auto

definition fixed_ok :: "int \<Rightarrow> int \<Rightarrow> int \<Rightarrow> int list \<Rightarrow> counter option \<Rightarrow> bool" where
  "fixed_ok limit wm now ts c \<longleftrightarrow>
     (\<forall>s \<in> set ts. s \<le> now)
     \<and> (\<forall>a. count_times (\<lambda>s. a < s \<and> s \<le> a + wm) ts \<le> 2 * max 0 limit)
     \<and> (case c of None \<Rightarrow> ts = []
        | Some k \<Rightarrow> (case ct_expires k of None \<Rightarrow> False
          | Some e \<Rightarrow> e - wm \<le> now \<and> 1 \<le> ct_value k \<and> (\<forall>s \<in> set ts. s < e)
              \<and> count_times (\<lambda>s. e - wm \<le> s) ts \<le> min (ct_value k) (max 0 limit)
              \<and> count_times (\<lambda>s. e - 2 * wm < s \<and> s < e - wm) ts \<le> max 0 limit))"

lemma fixed_ok_later: "fixed_ok limit wm now ts c \<Longrightarrow> now \<le> t \<Longrightarrow> fixed_ok limit wm t ts c"
  unfolding fixed_ok_def by (fastforce split: option.splits)

text \<open>A request counted at \<open>t\<close>, in the window that begins at \<open>e - wm\<close>, and allowed or not.\<close>

lemma fixed_ok_count:
  assumes "0 < wm" and le: "\<forall>s \<in> set ts. s \<le> t" and all: "\<forall>a. count_times (\<lambda>s. a < s \<and> s \<le> a + wm) ts \<le> 2 * max 0 limit"
    and cur: "count_times (\<lambda>s. e - wm \<le> s) ts \<le> min v (max 0 limit)"
    and before: "count_times (\<lambda>s. e - 2 * wm < s \<and> s < e - wm) ts \<le> max 0 limit"
    and t: "e - wm \<le> t" "t < e" "0 \<le> v" and us: "us = [] \<or> (us = [t] \<and> v + 1 \<le> limit)"
  shows "fixed_ok limit wm t (ts @ us) (Some \<lparr>ct_value = v + 1, ct_expires = Some e\<rparr>)"
proof -
  have cur': "count_times (\<lambda>s. e - wm \<le> s) (ts @ us) \<le> min (v + 1) (max 0 limit)"
    using cur us by auto
  have before': "count_times (\<lambda>s. e - 2 * wm < s \<and> s < e - wm) (ts @ us) \<le> max 0 limit"
    using before us t(1) by auto
  have "count_times (\<lambda>s. a < s \<and> s \<le> a + wm) (ts @ us) \<le> 2 * max 0 limit" for a
  proof (cases "us = [t] \<and> a < t \<and> t \<le> a + wm")
    case True
    have "count_times (\<lambda>s. a < s \<and> s \<le> a + wm) (ts @ us)
        \<le> count_times (\<lambda>s. (a < s \<and> s \<le> a + wm) \<and> e - wm \<le> s) (ts @ us)
          + count_times (\<lambda>s. (a < s \<and> s \<le> a + wm) \<and> \<not> e - wm \<le> s) (ts @ us)" by (rule count_times_split)
    also have "\<dots> \<le> count_times (\<lambda>s. e - wm \<le> s) (ts @ us)
        + count_times (\<lambda>s. e - 2 * wm < s \<and> s < e - wm) (ts @ us)"
      using True t(1) by (intro add_mono count_times_mono) auto
    finally show ?thesis using cur' before' by linarith
  next
    case False
    then have "count_times (\<lambda>s. a < s \<and> s \<le> a + wm) us = 0" using us by auto
    then show ?thesis using all by simp
  qed
  then show ?thesis using cur' before' le t us unfolding fixed_ok_def by auto
qed

lemma fixed_allow_ok:
  assumes ok: "fixed_ok limit (window_seconds window * 1000) now ts c" and t: "now \<le> t"
    and run: "fixed_allow limit window t fate c = (r, c')"
  shows "fixed_ok limit (window_seconds window * 1000) t (ts @ allowed_at t r) c'"
proof -
  let ?w = "window_seconds window * 1000"
  have w: "0 < ?w" using window_seconds_pos [of window] by simp
  have le: "\<forall>s \<in> set ts. s \<le> t" and all: "\<forall>a. count_times (\<lambda>s. a < s \<and> s \<le> a + ?w) ts \<le> 2 * max 0 limit"
    using ok t unfolding fixed_ok_def by auto
  obtain v e where script: "lua_fixed_window limit ?w t c =
      (if v + 1 > limit then (0, v + 1) else (1, v + 1), Some \<lparr>ct_value = v + 1, ct_expires = Some e\<rparr>)"
    and cur: "count_times (\<lambda>s. e - ?w \<le> s) ts \<le> min v (max 0 limit)"
    and before: "count_times (\<lambda>s. e - 2 * ?w < s \<and> s < e - ?w) ts \<le> max 0 limit"
    and e: "e - ?w \<le> t" "t < e" "0 \<le> v"
  proof (cases "live_counter t c")
    case (Some k)
    then have c: "c = Some k" by (auto simp: live_counter_def split: option.splits if_splits)
    with ok obtain e where e: "ct_expires k = Some e" unfolding fixed_ok_def by (auto split: option.splits)
    have "t < e" using Some c e by (auto simp: live_counter_def split: if_splits)
    with ok c e t Some show thesis
      by (intro that [of "ct_value k" e]) (cases k; auto simp: fixed_ok_def lua_fixed_window_def Let_def)+
  next
    case None
    have fresh: "count_times (\<lambda>s. t - ?w < s \<and> s < t) ts \<le> max 0 limit \<and> count_times (\<lambda>s. t \<le> s) ts \<le> 0"
    proof (cases c)
      case c: (Some k)
      obtain e where e: "ct_expires k = Some e" "e \<le> t"
        using None c ok by (auto simp: live_counter_def fixed_ok_def split: option.splits if_splits)
      have "count_times (\<lambda>s. t - ?w < s \<and> s < t) ts \<le> count_times (\<lambda>s. e - ?w \<le> s) ts"
        using e by (intro count_times_mono) auto
      moreover have "filter (\<lambda>s. t \<le> s) ts = []"
        using ok c e by (fastforce simp: fixed_ok_def filter_empty_conv)
      ultimately show ?thesis using ok c e by (simp add: fixed_ok_def count_times_def [of "\<lambda>s. t \<le> s"])
    qed (use ok in \<open>simp add: fixed_ok_def\<close>)
    show thesis
    proof (rule that [of 0 "t + ?w"])
      show "lua_fixed_window limit ?w t c = (if 0 + 1 > limit then (0, 0 + 1) else (1, 0 + 1),
          Some \<lparr>ct_value = 0 + 1, ct_expires = Some (t + ?w)\<rparr>)"
        using None by (simp add: lua_fixed_window_def)
      show "count_times (\<lambda>s. t + ?w - ?w \<le> s) ts \<le> min 0 (max 0 limit)"
        using conjunct2 [OF fresh] by simp
      have "t + ?w - 2 * ?w = t - ?w" "t + ?w - ?w = t" by simp_all
      then show "count_times (\<lambda>s. t + ?w - 2 * ?w < s \<and> s < t + ?w - ?w) ts \<le> max 0 limit"
        using conjunct1 [OF fresh] by (simp only:)
    qed (use w in simp_all)
  qed
  have allow: "allowed_at t r = [] \<or> (allowed_at t r = [t] \<and> v + 1 \<le> limit)"
    using run unfolding fixed_allow_def Let_def script
    by (cases fate) (auto simp: allowed_at_def split: if_splits)
  show ?thesis
  proof (cases "fate = Refused")
    case True
    then have "r = None" "c' = c" using run by (auto simp: fixed_allow_def Let_def split: prod.splits)
    then show ?thesis using fixed_ok_later [OF ok t] by (simp add: allowed_at_def)
  next
    case False
    then have "c' = Some \<lparr>ct_value = v + 1, ct_expires = Some e\<rparr>"
      using run unfolding fixed_allow_def Let_def script by (cases fate) (auto split: if_splits)
    then show ?thesis using fixed_ok_count [OF w le all cur before e allow] by simp
  qed
qed


lemma fixed_run_ok:
  assumes "fixed_ok limit (window_seconds window * 1000) now ts c" "sorted (now # map fst rs)"
  shows "\<exists>now'. fixed_ok limit (window_seconds window * 1000) now' (ts @ fst (fixed_run limit window rs c))
    (snd (fixed_run limit window rs c))"
  using assms
proof (induction rs arbitrary: now ts c)
  case Nil
  then show ?case by auto
next
  case (Cons q rs)
  obtain t fate where q: "q = (t, fate)" by (cases q) auto
  obtain r c' where a: "fixed_allow limit window t fate c = (r, c')" by fastforce
  have t: "now \<le> t" using Cons.prems(2) by (simp add: q)
  have "sorted (t # map fst rs)" using Cons.prems(2) by (simp add: q)
  from Cons.IH [OF fixed_allow_ok [OF Cons.prems(1) t a] this]
  obtain now' where "fixed_ok limit (window_seconds window * 1000) now'
      ((ts @ allowed_at t r) @ fst (fixed_run limit window rs c')) (snd (fixed_run limit window rs c'))" by auto
  then show ?case
    by (auto simp: q a allowed_at_def split: prod.splits intro!: exI [of _ now'])
qed

lemma fixed_bound:
  assumes "sorted (map fst rs)"
  shows "count_times (\<lambda>s. a < s \<and> s \<le> a + window_seconds window * 1000) (fst (fixed_run limit window rs None))
    \<le> 2 * max 0 limit"
proof -
  define now where "now = (case rs of [] \<Rightarrow> 0 | q # _ \<Rightarrow> fst q)"
  have "sorted (now # map fst rs)" using assms by (cases rs) (auto simp: now_def)
  moreover have "fixed_ok limit (window_seconds window * 1000) now [] None" by (simp add: fixed_ok_def)
  ultimately obtain now' where "fixed_ok limit (window_seconds window * 1000) now'
      ([] @ fst (fixed_run limit window rs None)) (snd (fixed_run limit window rs None))"
    using fixed_run_ok by blast
  then show ?thesis by (simp add: fixed_ok_def)
qed

end
