(* ===== verification/AI_Properties.thy ===== *)
theory AI_Properties
  imports Demo_Memory Rate_Limit
begin

text \<open>
  The properties of the assistant's memory and of the rate limiters, stated over the definitions of the
  component theories; each stands with the witness that applies it.
\<close>

subsection \<open>What a completed turn writes\<close>

text \<open>
  C14. Whatever the extractor proposes and whichever calls fail, a completed turn leaves the facts and
  documents of every other scope, the summaries of every other conversation, and all chunks and messages
  as they were; provided the hash keeps the identifiers of documents of different scopes apart.
\<close>

theorem turn_writes_own_memory:
  assumes "distinct (map am_id (mw_docs w))" "id_clash_free env (mw_docs w)"
  shows "others_unchanged (pr_user_id (normalize_memory_principal inp)) (wi_conversation_id inp) w
    (snd (on_turn_completed g env extract inp w))"
  using turn_keeps_others [OF assms, of inp g "extract"]
  by (cases "on_turn_completed g env extract inp w") (auto simp: hoare_def split: sum.splits)

lemma demo_id_clash_free: "id_clash_free demo_env (mw_docs demo_memory)"
  by (simp add: id_clash_free_def demo_memory_def demo_document_def demo_env_def build_memory_document_id_def
      ascii_def trim_text_def trim_right_by_def uspace_def)

theorem turn_writes_own_memory_witness:
  "filter (\<lambda>f. af_scope_key f \<noteq> build_self_memory_scope_key 7) (mw_facts demo_after)
    = [demo_fact 8 (ascii ''lang'') (ascii ''go'') src_admin_set]"
proof -
  have "build_self_memory_scope_key 8 \<noteq> build_self_memory_scope_key 7" by (simp add: self_scope_key_inj)
  moreover have "distinct (map am_id (mw_docs demo_memory))" by (simp add: demo_memory_def)
  from turn_writes_own_memory [OF this demo_id_clash_free, of demo_turn "Some demo_memory_config" demo_extract]
  have "others_unchanged 7 (ascii ''c1'') demo_memory demo_after"
    by (simp add: demo_after_def normalize_memory_principal_def demo_turn_def Let_def)
  ultimately show ?thesis
    by (simp add: others_unchanged_def) (simp add: demo_memory_def demo_fact_def)
qed

text \<open>
  C16. A fact remembered on the word of a source survives a turn that takes place within a day, or is
  replaced by one whose source ranks as high: what a model infers never replaces what the user stated.
\<close>

theorem source_priority_respected:
  assumes "mem_wf w" "within_day t w" "holds_rank i p (t + day_ns - 1) w"
  shows "holds_rank i p (t + day_ns - 1) (snd (on_turn_completed g env extract inp w))"
  by (rule turn_holds_rank [OF assms])

theorem source_priority_respected_witness:
  "holds_rank (build_self_memory_scope_key 7, ns_user_preference, ascii ''lang'') 4 (day_ns - 1) demo_after"
proof -
  have key: "build_self_memory_scope_key 8 \<noteq> build_self_memory_scope_key 7" by (simp add: self_scope_key_inj)
  have "mem_wf demo_memory" using key by (simp add: mem_wf_def demo_memory_def demo_fact_def fact_ident_def)
  moreover have "within_day 0 demo_memory" by (simp add: within_day_def demo_memory_def day_ns_def)
  moreover have "holds_rank (build_self_memory_scope_key 7, ns_user_preference, ascii ''lang'') 4 (0 + day_ns - 1) demo_memory"
    by (simp add: holds_rank_def demo_memory_def demo_fact_def fact_ident_def private_memory_source_priority_def
        unexpired_def)
  ultimately show ?thesis
    using source_priority_respected [of demo_memory 0 _ 4 "Some demo_memory_config" demo_env demo_extract demo_turn]
    by (simp add: demo_after_def)
qed

text \<open>
  C15. Whatever the vector search answers, recall returns only facts, document chunks and a summary of the
  user it is asked for, every chunk that a hit is expanded with included.
\<close>

theorem recall_reads_own_memory:
  "case fst (memory_recall g env sr conv uid oid query w) of Inl e \<Rightarrow> True | Inr rr \<Rightarrow> own_result uid conv rr"
  by (cases "memory_recall g env sr conv uid oid query w") (auto intro: memory_recall_own_result split: sum.splits)

subsection \<open>Reachable memories\<close>




lemma wf_index_step [mem_keeps]:
  "keeps mem_wf (chunk_step g env ix d)" "keeps mem_wf mem_time" "keeps mem_wf (embed_texts ix ts)"
  by (auto simp: keeps_def chunk_step_def mem_time_def embed_texts_def mem_wf_def split: option.splits sum.splits)

lemma wf_vectors [mem_keeps]:
  "keeps mem_wf (vector_delete_document_chunks ix i)" "keeps mem_wf (vector_upsert_chunks ix cs)"
  "keeps mem_wf (repo_replace_chunks i rows)"
  unfolding vector_delete_document_chunks_def vector_upsert_chunks_def repo_replace_chunks_def Let_def
  by (auto intro!: keeps_if wf_write keeps_return keeps_throw simp: mem_wf_def)








subsection \<open>Splitting a document\<close>

text \<open>A result that is a list of chunks whose texts satisfy \<open>Q\<close>.\<close>

definition chunk_texts :: "(runes list \<Rightarrow> bool) \<Rightarrow> chunk_cancelled + memory_document_chunk list \<Rightarrow> bool" where
  "chunk_texts Q r = (case r of Inl e \<Rightarrow> False | Inr cs \<Rightarrow> Q (map mc_content_text cs))"

lemma chunk_document_gives:
  assumes "content = normalize_chunk_document_text (md_content doc)" "content = [] \<Longrightarrow> Q []"
    and "gives (split_text_loop c [] (split_blocks content)) Q"
  shows "gives (chunk_document h False c doc) (chunk_texts Q)"
proof (cases "content = []")
  case False
  from assms(3) obtain ps where "split_text c content = Some ps" "Q ps" by (auto simp: gives_def split_text_def)
  then have "chunk_document h False c doc
      = Some (Inr (map (\<lambda>(i, p). document_chunk h doc i p) (enumerate 0 ps)))"
    using False assms(1) by (simp add: chunk_document_def Let_def)
  moreover have "map mc_content_text (map (\<lambda>(i, p). document_chunk h doc i p) (enumerate 0 ps)) = ps"
    by (simp add: comp_def case_prod_beta' document_chunk_def Let_def map_snd_enumerate)
  ultimately show ?thesis using \<open>Q ps\<close> by (simp add: gives_def chunk_texts_def)
qed (use assms in \<open>simp add: chunk_document_def gives_def chunk_texts_def\<close>)

text \<open>
  C26. Splitting a document returns for every document and every configuration of the chunker: no window
  is empty, so the window loop ends, and no slice is out of range.
\<close>

theorem chunking_terminates:
  "chunk_document h ctx_done (new_paragraph_chunker opts) doc \<noteq> None"
  using chunk_document_returns [OF new_paragraph_chunker_pos, of h ctx_done opts doc] by auto

text \<open>
  C27. Every chunk of a document is within the limit of characters, whatever tables, code blocks, lists and
  long sentences it has, when no list marker takes up all but one character of the limit.
\<close>

theorem chunks_within_limit:
  assumes "list_all (markers_fit (new_paragraph_chunker opts))
    (split_blocks (normalize_chunk_document_text (md_content doc)))"
  shows "gives (chunk_document h False (new_paragraph_chunker opts) doc)
    (chunk_texts (parts_within (pc_max_chars (new_paragraph_chunker opts))))"
proof (rule chunk_document_gives [OF refl])
  show "gives (split_text_loop (new_paragraph_chunker opts) [] (split_blocks (normalize_chunk_document_text (md_content doc))))
    (parts_within (pc_max_chars (new_paragraph_chunker opts)))"
    using assms new_paragraph_chunker_pos [of opts]
    by (intro split_text_loop_gives_within) (auto simp: list_all_iff rune_count_def)
qed (simp add: part_simps)

text \<open>
  C28. No visible character of a document is lost: those of its content occur in order in the chunks, which
  may repeat others, when no block is dropped.
\<close>

theorem chunks_cover_content:
  assumes "list_all (\<lambda>b. split_block (new_paragraph_chunker opts) b \<noteq> Some [])
    (split_blocks (normalize_chunk_document_text (md_content doc)))"
  shows "gives (chunk_document h False (new_paragraph_chunker opts) doc)
    (chunk_texts (parts_cover (normalize_chunk_document_text (md_content doc))))"
proof (rule chunk_document_gives [OF refl])
  let ?t = "normalize_chunk_document_text (md_content doc)"
  have "parts_cover ([] @ concat (map cb_text (split_blocks ?t))) = parts_cover ?t"
    by (simp add: parts_cover_def fun_eq_iff split_blocks_visible)
  with split_text_loop_gives_cover [OF new_paragraph_chunker_pos, of "split_blocks ?t" opts "[]"] assms
  show "gives (split_text_loop (new_paragraph_chunker opts) [] (split_blocks ?t)) (parts_cover ?t)"
    by (auto simp: list_all_iff)
qed (simp add: parts_cover_def visible_def)


text \<open>A document of one long word, cut into windows of five characters, and the block it consists of.\<close>

definition demo_doc :: "runes \<Rightarrow> memory_document_for_index" where
  "demo_doc content = memory_document_entity_to_index (demo_document (ascii ''d7'') 7 content 0)"

lemmas text_exec = trim_text_def trim_right_by_def trim_blanks_def uspace_def ublank_def Let_def
  normalize_chunk_document_text_def split_blocks_def is_fence_line_def fence_mark_def is_heading_line_def
  is_list_item_line_def parse_list_marker_def is_digit_rune_def

lemma demo_word_blocks:
  "normalize_chunk_document_text [97, 98, 99, 100, 101, 102, 103] = [97, 98, 99, 100, 101, 102, 103]"
  "split_blocks [97, 98, 99, 100, 101, 102, 103]
    = [\<lparr>cb_kind = BlockProse, cb_text = [97, 98, 99, 100, 101, 102, 103]\<rparr>]"
  by (simp_all add: text_exec)

lemma demo_doc_content [simp]: "md_content (demo_doc s) = s"
  by (simp add: demo_doc_def memory_document_entity_to_index_def demo_document_def)

lemma demo_chunker: "new_paragraph_chunker \<lparr>co_max_chars = 5, co_overlap_chars = 1\<rparr>
    = \<lparr>pc_max_chars = 5, pc_overlap_chars = 1\<rparr>"
  by (simp add: new_paragraph_chunker_def)

theorem chunks_within_limit_witness:
  "gives (chunk_document (\<lambda>_. ''00'') False \<lparr>pc_max_chars = 5, pc_overlap_chars = 1\<rparr>
      (demo_doc [97, 98, 99, 100, 101, 102, 103])) (chunk_texts (parts_within 5))"
  using chunks_within_limit [of "\<lparr>co_max_chars = 5, co_overlap_chars = 1\<rparr>" "demo_doc [97, 98, 99, 100, 101, 102, 103]"]
  by (simp add: demo_chunker demo_word_blocks markers_fit_def)

theorem chunks_cover_content_witness:
  "gives (chunk_document (\<lambda>_. ''00'') False \<lparr>pc_max_chars = 5, pc_overlap_chars = 1\<rparr>
      (demo_doc [97, 98, 99, 100, 101, 102, 103])) (chunk_texts (parts_cover [97, 98, 99, 100, 101, 102, 103]))"
proof -
  have "split_block \<lparr>pc_max_chars = 5, pc_overlap_chars = 1\<rparr>
      \<lparr>cb_kind = BlockProse, cb_text = [97, 98, 99, 100, 101, 102, 103]\<rparr> \<noteq> Some []"
    by (simp add: split_block_def split_prose_block_def normalize_inline_text_def text_fields_def text_exec
        rune_count_def split_narrative_units_def split_by_boundaries_def is_strong_sentence_boundary_def
        strong_unit_parts_def is_soft_sentence_boundary_def soft_unit_parts_def non_blank_def
        split_by_rune_window_def window_loop.simps [of _ "5 :: int"] rune_slice_def build_chunk_sequence_def
        keep_part_def join_chunk_parts_def start_chunk_with_overlap_def chunk_overlap_def)
  then show ?thesis
    using chunks_cover_content [of "\<lparr>co_max_chars = 5, co_overlap_chars = 1\<rparr>" "demo_doc [97, 98, 99, 100, 101, 102, 103]"]
    by (simp add: demo_chunker demo_word_blocks)
qed


subsection \<open>Indexing\<close>

text \<open>
  A document that was indexed has exactly the chunks of its content as its rows, in order, and the
  rows of every other document are as they were.
\<close>

theorem indexed_rows_are_chunks:
  assumes "fst (index_one_document g env ix d w) = Inr ()" "trim_text (am_id d) = am_id d" "am_id d \<noteq> []"
  shows "gives (chunk_document (me_sha256_hex env) False (memory_chunker g) (memory_document_entity_to_index d))
    (chunk_texts (\<lambda>ps. map ak_content_text (chunk_rows_of (am_id d) (snd (index_one_document g env ix d w))) = ps
      \<and> map ak_chunk_index (chunk_rows_of (am_id d) (snd (index_one_document g env ix d w)))
          = map int [0..<length ps]
      \<and> filter (\<lambda>c. ak_document_id c \<noteq> am_id d) (mw_chunks (snd (index_one_document g env ix d w)))
          = filter (\<lambda>c. ak_document_id c \<noteq> am_id d) (mw_chunks w)))"
proof -
  have run: "index_one_document g env ix d w = (Inr (), snd (index_one_document g env ix d w))"
    using assms(1) by (cases "index_one_document g env ix d w") simp
  obtain chunks where c:
    "chunk_document (me_sha256_hex env) False (memory_chunker g) (memory_document_entity_to_index d) = Some (Inr chunks)"
    "map ak_content_text (chunk_rows_of (am_id d) (snd (index_one_document g env ix d w))) = map mc_content_text chunks"
    "map ak_chunk_index (chunk_rows_of (am_id d) (snd (index_one_document g env ix d w))) = map int (map mc_chunk_index chunks)"
    "filter (\<lambda>c. ak_document_id c \<noteq> am_id d) (mw_chunks (snd (index_one_document g env ix d w)))
      = filter (\<lambda>c. ak_document_id c \<noteq> am_id d) (mw_chunks w)"
    by (rule index_one_document_chunks [OF run assms(2,3)])
  moreover have "map mc_chunk_index chunks = [0..<length chunks]" by (rule chunk_document_chunks(1) [OF c(1)])
  ultimately show ?thesis by (simp add: gives_def chunk_texts_def)
qed

definition demo_indexer :: "bool \<Rightarrow> memory_indexer" where
  "demo_indexer works = \<lparr>ix_embed = (\<lambda>_ ts. if works then Some (map (\<lambda>_. [1]) ts) else None),
     ix_ctx_done = (\<lambda>_. False), ix_collection = ascii ''c'', ix_ready = True\<rparr>"

lemma demo_chunks:
  "chunk_document h False (memory_chunker (Some demo_memory_config)) (demo_doc [97, 98])
    = Some (Inr [document_chunk h (demo_doc [97, 98]) 0 [97, 98]])"
proof -
  have "memory_chunker (Some demo_memory_config) = \<lparr>pc_max_chars = 8, pc_overlap_chars = 0\<rparr>"
    by (simp add: memory_chunker_def demo_memory_config_def ai_memory_chunk_max_chars_def positive_or_def
        ai_memory_chunk_overlap_chars_def new_paragraph_chunker_def)
  then show ?thesis
    by (simp add: chunk_document_def split_text_def split_block_def split_prose_block_def normalize_inline_text_def
        text_fields_def text_exec rune_count_def keep_part_def)
qed

lemma demo_collection: "ascii ''c'' \<noteq> []"
  by (simp add: ascii_def)

lemma demo_index_run:
  "fst (index_one_document (Some demo_memory_config) demo_env (demo_indexer True)
    (demo_document (ascii ''d7'') 7 [97, 98] 0) demo_memory) = Inr ()"
  using demo_chunks [of "me_sha256_hex demo_env"] demo_collection
  by (simp add: index_one_document_def chunk_step_def demo_indexer_def demo_doc_def [symmetric] svc_bind_def embed_texts_def
      mem_time_def vector_delete_document_chunks_def vector_upsert_chunks_def repo_replace_chunks_def
      mem_write_def mem_tick_def demo_memory_def Let_def)

theorem indexed_rows_are_chunks_witness:
  "gives (chunk_document (\<lambda>_. ''00'') False (memory_chunker (Some demo_memory_config)) (demo_doc [97, 98]))
    (chunk_texts (\<lambda>ps. map ak_content_text (chunk_rows_of (ascii ''d7'')
      (snd (index_one_document (Some demo_memory_config) demo_env (demo_indexer True)
        (demo_document (ascii ''d7'') 7 [97, 98] 0) demo_memory))) = ps))"
proof -
  have "trim_text (ascii ''d7'') = ascii ''d7''" by (simp add: ascii_def text_exec)
  with indexed_rows_are_chunks [OF demo_index_run] show ?thesis
    by (auto simp: demo_doc_def demo_document_def demo_env_def gives_def chunk_texts_def ascii_def split: sum.splits)
qed

text \<open>
  A document whose chunks cannot be embedded, and that is the oldest of those to be indexed, stops
  every run of the indexer for pending documents: no other document is ever indexed by these runs.
\<close>

theorem poison_document_blocks_indexing:
  assumes "\<And>n. ix_embed ix n (map mc_content_text chunks) = None" "chunks \<noteq> []" "\<And>n. ix_ctx_done ix n = False"
      "chunk_document (me_sha256_hex env) False (memory_chunker g) (memory_document_entity_to_index d) = Some (Inr chunks)"
    and "d \<in> set (mw_docs w)" "am_deleted_at d = None" "am_expires_at d = None" "am_content_text d \<noteq> []"
      "chunk_rows_of (am_id d) w = []"
    and "\<And>e. e \<in> set (mw_docs w) \<Longrightarrow> e \<noteq> d \<Longrightarrow> am_updated_at d < am_updated_at e"
  shows "mw_chunks ((pending_round g env ix limit ^^ k) w) = mw_chunks w"
  using pending_rounds_blocked [OF assms] by blast

definition demo_blocked :: mem_world where
  "demo_blocked = demo_memory\<lparr>mw_docs := [demo_document (ascii ''d7'') 7 [97, 98] 0,
     demo_document (ascii ''d8'') 8 [99] 3]\<rparr>"

theorem poison_document_blocks_indexing_witness:
  "mw_chunks ((pending_round (Some demo_memory_config) demo_env (demo_indexer False) 0 ^^ 5) demo_blocked) = []"
proof -
  let ?d = "demo_document (ascii ''d7'') 7 [97, 98] 0"
  let ?c = "document_chunk (me_sha256_hex demo_env) (demo_doc [97, 98]) 0 [97, 98]"
  have "mw_chunks ((pending_round (Some demo_memory_config) demo_env (demo_indexer False) 0 ^^ 5) demo_blocked)
      = mw_chunks demo_blocked"
  proof (rule poison_document_blocks_indexing [of _ "[?c]" _ _ ?d])
    show "chunk_document (me_sha256_hex demo_env) False (memory_chunker (Some demo_memory_config))
        (memory_document_entity_to_index ?d) = Some (Inr [?c])"
      using demo_chunks unfolding demo_doc_def .
    show "e \<in> set (mw_docs demo_blocked) \<Longrightarrow> e \<noteq> ?d \<Longrightarrow> am_updated_at ?d < am_updated_at e" for e
      by (auto simp: demo_blocked_def) (simp add: demo_document_def)
  qed (simp_all add: demo_indexer_def demo_blocked_def demo_document_def chunk_rows_of_def demo_memory_def)
  then show ?thesis by (simp add: demo_blocked_def demo_memory_def)
qed

subsection \<open>Rate limits\<close>



text \<open>
  The fixed window: no interval of the length of the window has more than twice the limit of allowed
  requests; a burst at the end of one window and one at the start of the next reach it.
\<close>

theorem fixed_window_bound:
  assumes "sorted (map fst rs)"
  shows "count_times (\<lambda>s. a < s \<and> s \<le> a + window_seconds window * 1000) (fst (fixed_run limit window rs None))
    \<le> 2 * max 0 limit"
  by (rule fixed_bound [OF assms])

theorem fixed_window_bound_witness:
  "count_times (\<lambda>s. 0 < s \<and> s \<le> 1000) (fst (fixed_run 1 1000000000 [(1, Answered), (999, Answered)] None)) \<le> 2"
  using fixed_window_bound [of "[(1, Answered), (999, Answered)]" 0 1000000000 1]
  by (simp add: window_seconds_def go_div_def)

end
