(* ===== verification/Access_Store.thy ===== *)
theory Access_Store
  imports Authorization
begin

text \<open>
  The tables of the account and permission component (users, organisations, members, roles,
  menus, APIs, capabilities and their link tables, \<open>internal/model/entity\<close>), and the world
  its services run in. As for the OJ tasks every database call takes one step, and
  \<open>aw_fault\<close> says for each step whether the call fails. The policy engine keeps its rules
  twice, in memory (\<open>aw_policy\<close>) and behind its adapter (\<open>aw_saved\<close>).

  Creation and update times of rows are left out, no modelled code reads them. A primary key
  is drawn from one increasing counter, so rows lie in the order of their keys. SQL string
  comparison is \<open>ae_str_eq\<close>: the collation of the database decides it, not Go. The values of
  the outbox rows are kept as they are before they are encoded.
\<close>

subsection \<open>Entities\<close>

record access_user =
  au_id :: nat
  au_uuid :: string
  au_name :: string
  au_phone :: string
  au_password :: string
  au_email :: string
  au_avatar :: string
  au_avatar_id :: "nat option"
  au_address :: string
  au_signature :: string
  au_register :: nat
  au_freeze :: bool
  au_status :: int
  au_disabled_at :: "int option"
  au_disabled_by :: "nat option"
  au_disabled_reason :: string
  au_current_org :: "nat option"
  au_deleted :: bool

record access_org =
  ag_id :: nat
  ag_name :: string
  ag_desc :: string
  ag_code :: string
  ag_avatar :: string
  ag_avatar_id :: "nat option"
  ag_owner :: nat
  ag_builtin :: bool
  ag_key :: "string option"
  ag_deleted :: bool

record org_member =
  mb_id :: nat
  mb_org :: nat
  mb_user :: nat
  mb_status :: int
  mb_joined :: int
  mb_left :: "int option"
  mb_removed :: "int option"
  mb_removed_by :: "nat option"
  mb_reason :: string
  mb_source :: string

record access_role =
  ro_id :: nat
  ro_name :: string
  ro_code :: string
  ro_status :: int
  ro_desc :: string
  ro_deleted :: bool

record user_org_role =
  ur_user :: nat
  ur_org :: nat
  ur_role :: nat

record access_menu =
  mu_id :: nat
  mu_parent :: nat
  mu_name :: string
  mu_code :: string
  mu_icon :: string
  mu_type :: int
  mu_route_name :: string
  mu_route_path :: string
  mu_route_param :: string
  mu_component :: string
  mu_status :: int
  mu_sort :: int
  mu_desc :: string
  mu_deleted :: bool

record access_api =
  ap_id :: nat
  ap_path :: string
  ap_method :: string
  ap_detail :: string
  ap_status :: int
  ap_sync :: string
  ap_seen :: "int option"
  ap_deleted :: bool

record access_capability =
  cp_id :: nat
  cp_code :: string
  cp_name :: string
  cp_domain :: string
  cp_group :: string
  cp_group_name :: string
  cp_desc :: string
  cp_status :: int
  cp_deleted :: bool

record role_api =
  ra_role :: nat
  ra_api :: nat

record role_capability =
  rc_role :: nat
  rc_cap :: nat

record menu_api =
  ma_menu :: nat
  ma_api :: nat

record image_row =
  im_id :: nat
  im_category :: nat
  im_deleted :: bool

subsection \<open>Projection events\<close>

record cache_event =
  ce_kind :: string
  ce_user :: nat
  ce_platform :: string
  ce_old_org :: "nat option"
  ce_new_org :: "nat option"
  ce_orgs :: "nat list"

record permission_event =
  pe_kind :: string
  pe_user :: nat
  pe_org :: nat
  pe_agg_type :: string
  pe_agg_id :: nat

datatype projection_payload = CachePayload cache_event | PermissionPayload permission_event

record projection_row =
  pj_topic :: string
  pj_agg_id :: string
  pj_agg_type :: string
  pj_payload :: projection_payload

subsection \<open>The tables\<close>

record access_db =
  ad_users :: "access_user list"
  ad_orgs :: "access_org list"
  ad_members :: "org_member list"
  ad_roles :: "access_role list"
  ad_user_roles :: "user_org_role list"
  ad_menus :: "access_menu list"
  ad_apis :: "access_api list"
  ad_caps :: "access_capability list"
  ad_role_menus :: "(nat \<times> nat) list"
  ad_menu_apis :: "menu_api list"
  ad_role_apis :: "role_api list"
  ad_role_caps :: "role_capability list"
  ad_images :: "image_row list"
  ad_outbox :: "projection_row list"
  ad_next :: nat

subsection \<open>The environment\<close>

text \<open>
  What the services call outside the repository: the policy engine, the comparison of
  strings and the pattern match of the database, the URL parser (scheme and host of a valid
  request URI), the Unicode case tables, password hashing, the captcha store, the
  configuration, the routes of the HTTP router.
\<close>

record 'p policy_engine =
  en_empty :: 'p
  en_add_role :: "string \<Rightarrow> string \<Rightarrow> 'p \<Rightarrow> 'p"
  en_delete_roles :: "string \<Rightarrow> 'p \<Rightarrow> 'p"
  en_add_permission :: "string \<Rightarrow> string \<Rightarrow> string \<Rightarrow> 'p \<Rightarrow> 'p"
  en_enforce :: "'p \<Rightarrow> string \<Rightarrow> string \<Rightarrow> string \<Rightarrow> bool"

record 'p access_env =
  ae_engine :: "'p policy_engine"
  ae_str_eq :: "string \<Rightarrow> string \<Rightarrow> bool"
  ae_like :: "string \<Rightarrow> string \<Rightarrow> bool"
  ae_parse_uri :: "string \<Rightarrow> (string \<times> string) option"
  ae_hash :: "string \<Rightarrow> string"
  ae_hash_check :: "string \<Rightarrow> string \<Rightarrow> bool"
  ae_captcha :: "string \<Rightarrow> string \<Rightarrow> bool"
  ae_upper :: "string \<Rightarrow> string"
  ae_lower :: "string \<Rightarrow> string"
  ae_default_role :: string
  ae_permission_topic :: string
  ae_cache_topic :: string
  ae_reload_channel :: string
  ae_redis :: bool
  ae_cleanup :: bool
  ae_retention_days :: int
  ae_routes :: "(string \<times> string) list"

record 'p access_world =
  aw_db :: access_db
  aw_policy :: 'p
  aw_saved :: 'p
  aw_sessions :: "string list"
  aw_step :: nat
  aw_fault :: "nat \<Rightarrow> bool"
  aw_time :: "nat \<Rightarrow> int"
  aw_draw :: "nat \<Rightarrow> string"
  aw_lock :: "nat \<Rightarrow> lock_answer"

type_synonym ('p, 'a) acc = "('p access_world, go_err, 'a) svc"

subsection \<open>Calls\<close>

definition atick :: "'p access_world \<Rightarrow> 'p access_world" where
  "atick w = w\<lparr>aw_step := Suc (aw_step w)\<rparr>"

definition acall :: "('p access_world \<Rightarrow> 'a \<times> 'p access_world) \<Rightarrow> ('p, 'a) acc" where
  "acall f w = (if aw_fault w (aw_step w) then (Inl RawErr, atick w)
                else (case f (atick w) of (a, w') \<Rightarrow> (Inr a, w')))"

definition aread :: "(access_db \<Rightarrow> 'a) \<Rightarrow> ('p, 'a) acc" where
  "aread f = acall (\<lambda>w. (f (aw_db w), w))"

definition awrite :: "(access_db \<Rightarrow> access_db) \<Rightarrow> ('p, unit) acc" where
  "awrite f = acall (\<lambda>w. ((), w\<lparr>aw_db := f (aw_db w)\<rparr>))"

text \<open>A write that a unique index of the table may refuse.\<close>

definition ainsert :: "(access_db \<Rightarrow> bool) \<Rightarrow> (access_db \<Rightarrow> access_db) \<Rightarrow> ('p, unit) acc" where
  "ainsert ok f w = (if aw_fault w (aw_step w) \<or> \<not> ok (aw_db w) then (Inl RawErr, atick w)
                     else (Inr (), (atick w)\<lparr>aw_db := f (aw_db w)\<rparr>))"

text \<open>An insert that draws the primary key.\<close>

definition acreate :: "(access_db \<Rightarrow> bool) \<Rightarrow> (nat \<Rightarrow> access_db \<Rightarrow> access_db) \<Rightarrow> ('p, nat) acc" where
  "acreate ok f w =
     (let k = ad_next (aw_db w)
      in if aw_fault w (aw_step w) \<or> \<not> ok (aw_db w) then (Inl RawErr, atick w)
         else (Inr k, (atick w)\<lparr>aw_db := f k ((aw_db w)\<lparr>ad_next := Suc k\<rparr>)\<rparr>))"

definition anow :: "('p, int) acc" where
  "anow w = (Inr (aw_time w (aw_step w)), atick w)"

definition adraw :: "('p, string) acc" where
  "adraw w = (Inr (aw_draw w (aw_step w)), atick w)"

text \<open>\<open>errors.Wrap(code, err)\<close> around a call.\<close>

definition awrap :: "biz_code \<Rightarrow> ('p, 'a) acc \<Rightarrow> ('p, 'a) acc" where
  "awrap c = svc_wrap (\<lambda>_. Biz c)"

abbreviation adb :: "('p, 'a) acc \<Rightarrow> ('p, 'a) acc" where
  "adb \<equiv> awrap CodeDBError"

text \<open>
  \<open>txRunner.InTx\<close>: an error of the body rolls the tables back; otherwise the commit may
  fail, which rolls back too. The policy engine and Redis take no part in it.
\<close>

definition atx :: "('p, 'a) acc \<Rightarrow> ('p, 'a) acc" where
  "atx m w =
     (case m w of
        (Inl e, w') \<Rightarrow> (Inl e, w'\<lparr>aw_db := aw_db w\<rparr>)
      | (Inr a, w') \<Rightarrow>
          (if aw_fault w' (aw_step w') then (Inl RawErr, (atick w')\<lparr>aw_db := aw_db w\<rparr>)
           else (Inr a, atick w')))"

end
