(* ===== verification/Access_Repo.thy ===== *)
theory Access_Repo
  imports Access_Store
begin

text \<open>
  The repository methods of \<open>orgRepo.go\<close>, \<open>orgMemberRepo.go\<close>, \<open>userRepo.go\<close>, \<open>roleRepo.go\<close>,
  \<open>menuRepo.go\<close>, \<open>apiRepo.go\<close>, \<open>capabilityRepo.go\<close> and \<open>imageRepo.go\<close> that the services call.
  Pure functions on the tables come first where several methods share them; a method is one
  database call, or several in the order of the code. A \<open>First\<close> whose
  \<open>ErrRecordNotFound\<close> the caller tells apart has an optional result; \<open>found\<close> turns it into the
  error the method returns. A nested \<open>db.Transaction\<close> is the sequence of its calls, since the
  outer transaction rolls everything back with it.
\<close>

definition found :: "('p, 'a option) acc \<Rightarrow> ('p, 'a) acc" where
  "found m = svc_bind m (\<lambda>r. case r of None \<Rightarrow> svc_throw RawErr | Some a \<Rightarrow> svc_return a)"

text \<open>\<open>WHERE column = ?\<close> with \<open>First\<close>: the row with the smallest key.\<close>

definition first_eq :: "'p access_env \<Rightarrow> ('r \<Rightarrow> string) \<Rightarrow> string \<Rightarrow> 'r list \<Rightarrow> 'r option" where
  "first_eq en col s rows = find (\<lambda>r. ae_str_eq en (col r) s) rows"

definition like_clause :: "'p access_env \<Rightarrow> string \<Rightarrow> string \<Rightarrow> bool" where
  "like_clause en kw s \<longleftrightarrow> ae_like en (''%'' @ kw @ ''%'') s"

definition page_rows :: "int \<Rightarrow> int \<Rightarrow> 'r list \<Rightarrow> 'r list" where
  "page_rows page psize rows = take (nat psize) (drop (nat ((page - 1) * psize)) rows)"

subsection \<open>Organisations\<close>

definition live_orgs :: "access_db \<Rightarrow> access_org list" where
  "live_orgs d = filter (\<lambda>o'. \<not> ag_deleted o') (ad_orgs d)"

definition org_row_of :: "access_db \<Rightarrow> nat \<Rightarrow> access_org option" where
  "org_row_of d k = row_get ag_id (live_orgs d) k"

definition org_find :: "nat \<Rightarrow> ('p, access_org option) acc" where
  "org_find k = aread (\<lambda>d. org_row_of d k)"

definition org_by_id :: "nat \<Rightarrow> ('p, access_org) acc" where
  "org_by_id k = found (org_find k)"

definition org_create :: "access_org \<Rightarrow> ('p, nat) acc" where
  "org_create o' = acreate (\<lambda>_. True) (\<lambda>k d. d\<lparr>ad_orgs := ad_orgs d @ [o'\<lparr>ag_id := k\<rparr>]\<rparr>)"

definition org_save :: "access_org \<Rightarrow> ('p, unit) acc" where
  "org_save o' = awrite (\<lambda>d. d\<lparr>ad_orgs := row_put ag_id o' (ad_orgs d)\<rparr>)"

definition org_remove :: "nat \<Rightarrow> ('p, unit) acc" where
  "org_remove k = awrite (\<lambda>d. d\<lparr>ad_orgs :=
     map (\<lambda>o'. if ag_id o' = k then o'\<lparr>ag_deleted := True\<rparr> else o') (ad_orgs d)\<rparr>)"

definition org_by_code :: "'p access_env \<Rightarrow> string \<Rightarrow> ('p, access_org option) acc" where
  "org_by_code en code = aread (\<lambda>d. first_eq en ag_code code (live_orgs d))"

definition org_by_builtin_key :: "'p access_env \<Rightarrow> string \<Rightarrow> ('p, access_org option) acc" where
  "org_by_builtin_key en key = aread (\<lambda>d.
     find (\<lambda>o'. case ag_key o' of None \<Rightarrow> False | Some k \<Rightarrow> ae_str_eq en k key) (live_orgs d))"

definition org_exists_by_name :: "'p access_env \<Rightarrow> string \<Rightarrow> ('p, bool) acc" where
  "org_exists_by_name en name = aread (\<lambda>d. \<exists>o' \<in> set (live_orgs d). ae_str_eq en (ag_name o') name)"

text \<open>\<open>RemoveAllMembers\<close> deletes the role rows of the organisation, not the member rows.\<close>

definition org_remove_all_members :: "nat \<Rightarrow> ('p, unit) acc" where
  "org_remove_all_members k = awrite (\<lambda>d. d\<lparr>ad_user_roles := filter (\<lambda>r. ur_org r \<noteq> k) (ad_user_roles d)\<rparr>)"

subsection \<open>Members\<close>

definition member_active :: int where "member_active = 1"
definition member_left :: int where "member_left = 2"
definition member_removed :: int where "member_removed = 3"

lemmas member_status_defs = member_active_def member_left_def member_removed_def

definition member_row_of :: "access_db \<Rightarrow> nat \<Rightarrow> nat \<Rightarrow> org_member option" where
  "member_row_of d oid uid = find (\<lambda>m. mb_org m = oid \<and> mb_user m = uid) (ad_members d)"

definition active_member :: "access_db \<Rightarrow> nat \<Rightarrow> nat \<Rightarrow> bool" where
  "active_member d uid oid \<longleftrightarrow>
     (\<exists>m \<in> set (ad_members d). mb_user m = uid \<and> mb_org m = oid \<and> mb_status m = member_active)"

definition member_for_update :: "nat \<Rightarrow> nat \<Rightarrow> ('p, org_member option) acc" where
  "member_for_update oid uid = aread (\<lambda>d. member_row_of d oid uid)"

definition new_member :: "nat \<Rightarrow> nat \<Rightarrow> int \<Rightarrow> string \<Rightarrow> org_member" where
  "new_member oid uid t source =
     \<lparr>mb_id = 0, mb_org = oid, mb_user = uid, mb_status = member_active, mb_joined = t, mb_left = None,
      mb_removed = None, mb_removed_by = None, mb_reason = '''', mb_source = source\<rparr>"

text \<open>The unique index on organisation and user.\<close>

definition member_create :: "org_member \<Rightarrow> ('p, nat) acc" where
  "member_create m = acreate (\<lambda>d. member_row_of d (mb_org m) (mb_user m) = None)
     (\<lambda>k d. d\<lparr>ad_members := ad_members d @ [m\<lparr>mb_id := k\<rparr>]\<rparr>)"

definition member_with_status ::
  "int \<Rightarrow> nat option \<Rightarrow> string \<Rightarrow> string \<Rightarrow> int \<Rightarrow> org_member \<Rightarrow> org_member" where
  "member_with_status st operator reason source t m =
     (let m' = m\<lparr>mb_status := st, mb_reason := trim_space reason\<rparr>
      in if st = member_active then
           m'\<lparr>mb_left := None, mb_removed := None, mb_removed_by := None, mb_reason := '''', mb_joined := t,
              mb_source := (if trim_space source \<noteq> [] then source else mb_source m)\<rparr>
         else if st = member_left then m'\<lparr>mb_left := Some t, mb_removed := None, mb_removed_by := None\<rparr>
         else if st = member_removed then m'\<lparr>mb_removed := Some t, mb_left := None, mb_removed_by := operator\<rparr>
         else m')"

definition member_set_status ::
  "nat \<Rightarrow> nat \<Rightarrow> int \<Rightarrow> nat option \<Rightarrow> string \<Rightarrow> string \<Rightarrow> ('p, unit) acc" where
  "member_set_status oid uid st operator reason source =
     svc_bind anow (\<lambda>t. awrite (\<lambda>d. d\<lparr>ad_members :=
       map (\<lambda>m. if mb_org m = oid \<and> mb_user m = uid
                then member_with_status st operator reason source t m else m) (ad_members d)\<rparr>))"

definition member_set_all_removed :: "nat \<Rightarrow> nat option \<Rightarrow> string \<Rightarrow> ('p, unit) acc" where
  "member_set_all_removed oid operator reason =
     svc_bind anow (\<lambda>t. awrite (\<lambda>d. d\<lparr>ad_members :=
       map (\<lambda>m. if mb_org m = oid
                then m\<lparr>mb_status := member_removed, mb_left := None, mb_removed := Some t,
                       mb_removed_by := operator, mb_reason := trim_space reason\<rparr> else m) (ad_members d)\<rparr>))"

definition member_is_active :: "nat \<Rightarrow> nat \<Rightarrow> ('p, bool) acc" where
  "member_is_active uid oid = aread (\<lambda>d. active_member d uid oid)"

definition org_is_user_in :: "nat \<Rightarrow> nat \<Rightarrow> ('p, bool) acc" where
  "org_is_user_in uid oid = aread (\<lambda>d. active_member d uid oid)"

definition active_members_of :: "access_db \<Rightarrow> nat \<Rightarrow> org_member list" where
  "active_members_of d oid = filter (\<lambda>m. mb_org m = oid \<and> mb_status m = member_active) (ad_members d)"

definition org_count_members :: "nat \<Rightarrow> ('p, nat) acc" where
  "org_count_members oid = aread (\<lambda>d. length (active_members_of d oid))"

text \<open>\<open>CountActiveMembersByOrgIDs\<close>: a count for every asked organisation, zero without rows.\<close>

definition member_counts :: "nat list \<Rightarrow> ('p, nat \<Rightarrow> nat) acc" where
  "member_counts oids =
     (if oids = [] then svc_return (\<lambda>_. 0)
      else aread (\<lambda>d k. if k \<in> set oids then length (active_members_of d k) else 0))"

definition active_org_ids :: "access_db \<Rightarrow> nat \<Rightarrow> nat list" where
  "active_org_ids d uid =
     sort (map mb_org (filter (\<lambda>m. mb_user m = uid \<and> mb_status m = member_active) (ad_members d)))"

definition member_active_org_ids :: "nat \<Rightarrow> ('p, nat list) acc" where
  "member_active_org_ids uid = aread (\<lambda>d. active_org_ids d uid)"

definition orgs_by_user :: "nat \<Rightarrow> ('p, access_org list) acc" where
  "orgs_by_user uid = aread (\<lambda>d. filter (\<lambda>o'. active_member d uid (ag_id o')) (live_orgs d))"

subsection \<open>Listing organisations\<close>

definition org_keyword_filter :: "'p access_env \<Rightarrow> string \<Rightarrow> access_org list \<Rightarrow> access_org list" where
  "org_keyword_filter en kw rows =
     (let k = trim_space kw in if k \<noteq> [] then filter (\<lambda>o'. like_clause en k (ag_name o')) rows else rows)"

definition list_orgs_with_query :: "int \<Rightarrow> int \<Rightarrow> (access_db \<Rightarrow> access_org list) \<Rightarrow> ('p, access_org list \<times> nat) acc" where
  "list_orgs_with_query page psize q =
     svc_bind (aread (\<lambda>d. length (q d))) (\<lambda>total.
     svc_bind (aread (\<lambda>d. if 0 < page \<and> 0 < psize then page_rows page psize (rev (sort_key ag_id (q d))) else q d))
       (\<lambda>orgs. svc_return (orgs, total)))"

definition org_list_with_keyword :: "'p access_env \<Rightarrow> int \<Rightarrow> int \<Rightarrow> string \<Rightarrow> ('p, access_org list \<times> nat) acc" where
  "org_list_with_keyword en page psize kw =
     list_orgs_with_query page psize (\<lambda>d. org_keyword_filter en kw (live_orgs d))"

text \<open>The inner join yields an organisation once per active member row of the user.\<close>

definition org_list_visible ::
  "'p access_env \<Rightarrow> nat \<Rightarrow> int \<Rightarrow> int \<Rightarrow> string \<Rightarrow> ('p, access_org list \<times> nat) acc" where
  "org_list_visible en uid page psize kw =
     list_orgs_with_query page psize (\<lambda>d. org_keyword_filter en kw
       (concat (map (\<lambda>o'. map (\<lambda>m. o')
          (filter (\<lambda>m. mb_org m = ag_id o' \<and> mb_user m = uid \<and> mb_status m = member_active) (ad_members d)))
        (live_orgs d))))"

subsection \<open>Users\<close>

definition user_active :: int where "user_active = 1"
definition user_disabled :: int where "user_disabled = 2"
definition user_deleted_soft :: int where "user_deleted_soft = 3"

definition live_users :: "access_db \<Rightarrow> access_user list" where
  "live_users d = filter (\<lambda>u. \<not> au_deleted u) (ad_users d)"

definition user_row_of :: "access_db \<Rightarrow> nat \<Rightarrow> access_user option" where
  "user_row_of d k = row_get au_id (live_users d) k"

definition user_by_id :: "nat \<Rightarrow> ('p, access_user option) acc" where
  "user_by_id k = aread (\<lambda>d. user_row_of d k)"

definition user_by_phone :: "'p access_env \<Rightarrow> string \<Rightarrow> ('p, access_user option) acc" where
  "user_by_phone en phone = aread (\<lambda>d. first_eq en au_phone phone (live_users d))"

definition user_exists_by_phone :: "'p access_env \<Rightarrow> string \<Rightarrow> ('p, bool) acc" where
  "user_exists_by_phone en phone = aread (\<lambda>d. \<exists>u \<in> set (live_users d). ae_str_eq en (au_phone u) phone)"

text \<open>The unique index on the phone number counts soft-deleted rows as well.\<close>

definition phone_free :: "'p access_env \<Rightarrow> access_db \<Rightarrow> nat option \<Rightarrow> string \<Rightarrow> bool" where
  "phone_free en d self phone \<longleftrightarrow>
     (\<forall>u \<in> set (ad_users d). Some (au_id u) = self \<or> \<not> ae_str_eq en (au_phone u) phone)"

definition user_create :: "'p access_env \<Rightarrow> access_user \<Rightarrow> ('p, nat) acc" where
  "user_create en u = acreate (\<lambda>d. phone_free en d None (au_phone u))
     (\<lambda>k d. d\<lparr>ad_users := ad_users d @ [u\<lparr>au_id := k\<rparr>]\<rparr>)"

definition user_update :: "'p access_env \<Rightarrow> access_user \<Rightarrow> ('p, unit) acc" where
  "user_update en u = ainsert (\<lambda>d. phone_free en d (Some (au_id u)) (au_phone u))
     (\<lambda>d. d\<lparr>ad_users := row_put au_id u (ad_users d)\<rparr>)"

text \<open>An \<open>UPDATE users ... WHERE\<close> of the mapper reaches rows that are not soft-deleted.\<close>

definition map_live_users :: "(access_user \<Rightarrow> bool) \<Rightarrow> (access_user \<Rightarrow> access_user) \<Rightarrow> access_db \<Rightarrow> access_db" where
  "map_live_users P f d = d\<lparr>ad_users := map (\<lambda>u. if \<not> au_deleted u \<and> P u then f u else u) (ad_users d)\<rparr>"

definition user_update_current_org :: "nat \<Rightarrow> nat option \<Rightarrow> ('p, unit) acc" where
  "user_update_current_org uid oid = awrite (map_live_users (\<lambda>u. au_id u = uid) (\<lambda>u. u\<lparr>au_current_org := oid\<rparr>))"

definition user_ids_by_current_org :: "nat \<Rightarrow> ('p, nat list) acc" where
  "user_ids_by_current_org oid =
     (if oid = 0 then svc_return []
      else aread (\<lambda>d. sort (map au_id (filter (\<lambda>u. au_current_org u = Some oid) (live_users d)))))"

definition user_clear_current_org :: "nat \<Rightarrow> ('p, unit) acc" where
  "user_clear_current_org oid =
     awrite (map_live_users (\<lambda>u. au_current_org u = Some oid) (\<lambda>u. u\<lparr>au_current_org := None\<rparr>))"

definition user_update_status :: "nat \<Rightarrow> int \<Rightarrow> nat option \<Rightarrow> string \<Rightarrow> ('p, unit) acc" where
  "user_update_status uid st operator reason = svc_bind (if st = user_disabled then anow else svc_return 0) (\<lambda>t.
     awrite (map_live_users (\<lambda>u. au_id u = uid) (\<lambda>u.
       (if st = user_disabled
        then u\<lparr>au_status := st, au_freeze := (st \<noteq> user_active), au_disabled_at := Some t,
               au_disabled_by := operator, au_disabled_reason := trim_space reason\<rparr>
        else u\<lparr>au_status := st, au_freeze := (st \<noteq> user_active), au_disabled_at := None,
               au_disabled_by := None, au_disabled_reason := ''''\<rparr>))))"

definition user_disabled_before :: "int \<Rightarrow> nat \<Rightarrow> ('p, access_user list) acc" where
  "user_disabled_before before lim = aread (\<lambda>d.
     take (if lim = 0 then 100 else lim) (sort_key (\<lambda>u. the (au_disabled_at u))
       (filter (\<lambda>u. au_status u = user_disabled \<and>
          (case au_disabled_at u of None \<Rightarrow> False | Some t \<Rightarrow> t < before)) (live_users d))))"

fun show_hex :: "nat \<Rightarrow> string" where
  "show_hex n = (let c = (\<lambda>k. if k < 10 then digit_char k else char_of (87 + k))
                 in if n < 16 then [c n] else show_hex (n div 16) @ [c (n mod 16)])"

declare show_hex.simps [simp del]

definition anonymous_name :: "nat \<Rightarrow> int \<Rightarrow> string" where
  "anonymous_name uid t = ''d'' @ show_hex uid @ show_hex (nat ((t div 1000000000) mod 16777215))"

definition anonymized :: "string \<Rightarrow> access_user \<Rightarrow> access_user" where
  "anonymized anon u = u\<lparr>au_status := user_deleted_soft, au_freeze := True, au_name := anon, au_phone := anon,
     au_email := '''', au_avatar := '''', au_address := '''', au_signature := '''', au_current_org := None,
     au_deleted := True\<rparr>"

definition user_soft_delete_anonymize :: "'p access_env \<Rightarrow> nat \<Rightarrow> ('p, unit) acc" where
  "user_soft_delete_anonymize en uid = svc_bind anow (\<lambda>t.
     ainsert (\<lambda>d. user_row_of d uid = None \<or> phone_free en d (Some uid) (anonymous_name uid t))
       (map_live_users (\<lambda>u. au_id u = uid) (anonymized (anonymous_name uid t))))"

subsection \<open>Roles and their users\<close>

definition live_roles :: "access_db \<Rightarrow> access_role list" where
  "live_roles d = filter (\<lambda>r. \<not> ro_deleted r) (ad_roles d)"

definition role_row_of :: "access_db \<Rightarrow> nat \<Rightarrow> access_role option" where
  "role_row_of d k = row_get ro_id (live_roles d) k"

definition role_by_id :: "nat \<Rightarrow> ('p, access_role) acc" where
  "role_by_id k = found (aread (\<lambda>d. role_row_of d k))"

definition role_find_by_code :: "'p access_env \<Rightarrow> string \<Rightarrow> ('p, access_role option) acc" where
  "role_find_by_code en code = aread (\<lambda>d. first_eq en ro_code code (live_roles d))"

text \<open>The unique index on the code counts soft-deleted roles as well.\<close>

definition role_code_free :: "'p access_env \<Rightarrow> access_db \<Rightarrow> nat option \<Rightarrow> string \<Rightarrow> bool" where
  "role_code_free en d self code \<longleftrightarrow>
     (\<forall>r \<in> set (ad_roles d). Some (ro_id r) = self \<or> \<not> ae_str_eq en (ro_code r) code)"

definition role_create :: "'p access_env \<Rightarrow> access_role \<Rightarrow> ('p, nat) acc" where
  "role_create en r = acreate (\<lambda>d. role_code_free en d None (ro_code r))
     (\<lambda>k d. d\<lparr>ad_roles := ad_roles d @ [r\<lparr>ro_id := k\<rparr>]\<rparr>)"

definition role_save :: "'p access_env \<Rightarrow> access_role \<Rightarrow> ('p, unit) acc" where
  "role_save en r = ainsert (\<lambda>d. role_code_free en d (Some (ro_id r)) (ro_code r))
     (\<lambda>d. d\<lparr>ad_roles := row_put ro_id r (ad_roles d)\<rparr>)"

definition role_remove :: "nat \<Rightarrow> ('p, unit) acc" where
  "role_remove k = awrite (\<lambda>d. d\<lparr>ad_roles :=
     map (\<lambda>r. if ro_id r = k then r\<lparr>ro_deleted := True\<rparr> else r) (ad_roles d)\<rparr>)"

definition role_exists_by_code :: "'p access_env \<Rightarrow> string \<Rightarrow> ('p, bool) acc" where
  "role_exists_by_code en code = aread (\<lambda>d. \<exists>r \<in> set (live_roles d). ae_str_eq en (ro_code r) code)"

definition role_exists_by_code_exclude :: "'p access_env \<Rightarrow> string \<Rightarrow> nat \<Rightarrow> ('p, bool) acc" where
  "role_exists_by_code_exclude en code k =
     aread (\<lambda>d. \<exists>r \<in> set (live_roles d). ae_str_eq en (ro_code r) code \<and> ro_id r \<noteq> k)"

definition role_active_roles :: "('p, access_role list) acc" where
  "role_active_roles = aread (\<lambda>d. filter (\<lambda>r. ro_status r = 1) (live_roles d))"

definition role_is_in_use :: "nat \<Rightarrow> ('p, bool) acc" where
  "role_is_in_use k = aread (\<lambda>d. \<exists>r \<in> set (ad_user_roles d). ur_role r = k)"

definition role_assign_in_org :: "nat \<Rightarrow> nat \<Rightarrow> nat \<Rightarrow> ('p, unit) acc" where
  "role_assign_in_org uid oid rid = awrite (\<lambda>d. d\<lparr>ad_user_roles :=
     ad_user_roles d @ [\<lparr>ur_user = uid, ur_org = oid, ur_role = rid\<rparr>]\<rparr>)"

definition role_delete_user_org :: "nat \<Rightarrow> nat \<Rightarrow> ('p, unit) acc" where
  "role_delete_user_org uid oid = awrite (\<lambda>d. d\<lparr>ad_user_roles :=
     filter (\<lambda>r. \<not> (ur_user r = uid \<and> ur_org r = oid)) (ad_user_roles d)\<rparr>)"

definition role_replace_user_org :: "nat \<Rightarrow> nat \<Rightarrow> nat list \<Rightarrow> ('p, unit) acc" where
  "role_replace_user_org uid oid rids =
     svc_bind (role_delete_user_org uid oid) (\<lambda>_.
       if rids = [] then svc_return ()
       else awrite (\<lambda>d. d\<lparr>ad_user_roles := ad_user_roles d @
              map (\<lambda>k. \<lparr>ur_user = uid, ur_org = oid, ur_role = k\<rparr>) rids\<rparr>))"

text \<open>The inner join of \<open>user_org_roles\<close> with the roles that are enabled and not deleted.\<close>

definition active_roles_of :: "access_db \<Rightarrow> nat \<Rightarrow> nat \<Rightarrow> access_role list" where
  "active_roles_of d uid oid =
     concat (map (\<lambda>r. filter (\<lambda>ro'. ro_id ro' = ur_role r \<and> ro_status ro' = 1) (live_roles d))
       (filter (\<lambda>r. ur_user r = uid \<and> ur_org r = oid) (ad_user_roles d)))"

definition role_user_roles_by_org :: "nat \<Rightarrow> nat \<Rightarrow> ('p, access_role list) acc" where
  "role_user_roles_by_org uid oid = aread (\<lambda>d. active_roles_of d uid oid)"

definition role_user_global_roles :: "nat \<Rightarrow> ('p, access_role list) acc" where
  "role_user_global_roles uid = aread (\<lambda>d. active_roles_of d uid 0)"

subsection \<open>Roles and what they may use\<close>

definition role_clear_menus :: "nat \<Rightarrow> ('p, unit) acc" where
  "role_clear_menus k = awrite (\<lambda>d. d\<lparr>ad_role_menus := filter (\<lambda>x. fst x \<noteq> k) (ad_role_menus d)\<rparr>)"

definition role_clear_apis :: "nat \<Rightarrow> ('p, unit) acc" where
  "role_clear_apis k = awrite (\<lambda>d. d\<lparr>ad_role_apis := filter (\<lambda>x. ra_role x \<noteq> k) (ad_role_apis d)\<rparr>)"

definition role_replace_menus :: "nat \<Rightarrow> nat list \<Rightarrow> ('p, unit) acc" where
  "role_replace_menus k ids =
     svc_bind (role_clear_menus k) (\<lambda>_.
       if ids = [] then svc_return ()
       else awrite (\<lambda>d. d\<lparr>ad_role_menus := ad_role_menus d @ map (Pair k) ids\<rparr>))"

definition role_replace_apis :: "nat \<Rightarrow> nat list \<Rightarrow> ('p, unit) acc" where
  "role_replace_apis k ids =
     svc_bind (role_clear_apis k) (\<lambda>_.
       if ids = [] then svc_return ()
       else awrite (\<lambda>d. d\<lparr>ad_role_apis := ad_role_apis d @ map (\<lambda>a. \<lparr>ra_role = k, ra_api = a\<rparr>) ids\<rparr>))"

definition role_replace_permissions :: "nat \<Rightarrow> nat list \<Rightarrow> nat list \<Rightarrow> ('p, unit) acc" where
  "role_replace_permissions k menus apis =
     svc_bind (role_replace_menus k menus) (\<lambda>_. role_replace_apis k apis)"

definition role_remove_api_from_all :: "nat \<Rightarrow> ('p, unit) acc" where
  "role_remove_api_from_all a = awrite (\<lambda>d. d\<lparr>ad_role_apis := filter (\<lambda>x. ra_api x \<noteq> a) (ad_role_apis d)\<rparr>)"

definition cap_replace_role :: "nat \<Rightarrow> nat list \<Rightarrow> ('p, unit) acc" where
  "cap_replace_role k ids =
     svc_bind (awrite (\<lambda>d. d\<lparr>ad_role_caps := filter (\<lambda>x. rc_role x \<noteq> k) (ad_role_caps d)\<rparr>)) (\<lambda>_.
       let items = map (\<lambda>c. \<lparr>rc_role = k, rc_cap = c\<rparr>) (filter (\<lambda>c. c \<noteq> 0) ids)
       in if items = [] then svc_return ()
          else awrite (\<lambda>d. d\<lparr>ad_role_caps := ad_role_caps d @ items\<rparr>))"

definition active_caps :: "access_db \<Rightarrow> access_capability list" where
  "active_caps d = filter (\<lambda>c. \<not> cp_deleted c \<and> cp_status c = 1) (ad_caps d)"

definition cap_by_codes :: "'p access_env \<Rightarrow> string list \<Rightarrow> ('p, access_capability list) acc" where
  "cap_by_codes en codes =
     (if codes = [] then svc_return []
      else aread (\<lambda>d. filter (\<lambda>c. \<exists>s \<in> set codes. ae_str_eq en (cp_code c) s) (active_caps d)))"

subsection \<open>Menus\<close>

definition live_menus :: "access_db \<Rightarrow> access_menu list" where
  "live_menus d = filter (\<lambda>m. \<not> mu_deleted m) (ad_menus d)"

definition menu_row_of :: "access_db \<Rightarrow> nat \<Rightarrow> access_menu option" where
  "menu_row_of d k = row_get mu_id (live_menus d) k"

definition menu_find :: "nat \<Rightarrow> ('p, access_menu option) acc" where
  "menu_find k = aread (\<lambda>d. menu_row_of d k)"

definition menu_by_id :: "nat \<Rightarrow> ('p, access_menu) acc" where
  "menu_by_id k = found (menu_find k)"

definition menu_create :: "access_menu \<Rightarrow> ('p, nat) acc" where
  "menu_create m = acreate (\<lambda>_. True) (\<lambda>k d. d\<lparr>ad_menus := ad_menus d @ [m\<lparr>mu_id := k\<rparr>]\<rparr>)"

definition menu_save :: "access_menu \<Rightarrow> ('p, unit) acc" where
  "menu_save m = awrite (\<lambda>d. d\<lparr>ad_menus := row_put mu_id m (ad_menus d)\<rparr>)"

definition menu_remove :: "nat \<Rightarrow> ('p, unit) acc" where
  "menu_remove k = awrite (\<lambda>d. d\<lparr>ad_menus :=
     map (\<lambda>m. if mu_id m = k then m\<lparr>mu_deleted := True\<rparr> else m) (ad_menus d)\<rparr>)"

definition menu_exists_by_code :: "'p access_env \<Rightarrow> string \<Rightarrow> ('p, bool) acc" where
  "menu_exists_by_code en code = aread (\<lambda>d. \<exists>m \<in> set (live_menus d). ae_str_eq en (mu_code m) code)"

definition menu_has_children :: "nat \<Rightarrow> ('p, bool) acc" where
  "menu_has_children k = aread (\<lambda>d. \<exists>m \<in> set (live_menus d). mu_parent m = k)"

definition menu_clear_apis :: "nat \<Rightarrow> ('p, unit) acc" where
  "menu_clear_apis k = awrite (\<lambda>d. d\<lparr>ad_menu_apis := filter (\<lambda>x. ma_menu x \<noteq> k) (ad_menu_apis d)\<rparr>)"

definition menu_remove_api_from_all :: "nat \<Rightarrow> ('p, unit) acc" where
  "menu_remove_api_from_all a = awrite (\<lambda>d. d\<lparr>ad_menu_apis := filter (\<lambda>x. ma_api x \<noteq> a) (ad_menu_apis d)\<rparr>)"

text \<open>The unique index of \<open>menu_apis\<close> allows one menu per API.\<close>

definition menu_api_insert :: "nat \<Rightarrow> nat \<Rightarrow> ('p, unit) acc" where
  "menu_api_insert k a = ainsert (\<lambda>d. \<forall>x \<in> set (ad_menu_apis d). ma_api x \<noteq> a)
     (\<lambda>d. d\<lparr>ad_menu_apis := ad_menu_apis d @ [\<lparr>ma_menu = k, ma_api = a\<rparr>]\<rparr>)"

definition menu_replace_apis_single :: "nat \<Rightarrow> nat list \<Rightarrow> ('p, unit) acc" where
  "menu_replace_apis_single k ids =
     svc_bind (menu_clear_apis k) (\<lambda>_.
       svc_iter (\<lambda>a. svc_bind (menu_remove_api_from_all a) (\<lambda>_. menu_api_insert k a))
         (uniq_by id [] (filter (\<lambda>a. a \<noteq> 0) ids)))"

definition menu_all :: "('p, access_menu list) acc" where
  "menu_all = aread live_menus"

definition menu_active :: "('p, access_menu list) acc" where
  "menu_active = aread (\<lambda>d. filter (\<lambda>m. mu_status m = 1) (live_menus d))"

text \<open>The distinct menus of the enabled roles of a user in an organisation.\<close>

definition menus_of_user :: "access_db \<Rightarrow> nat \<Rightarrow> nat \<Rightarrow> access_menu list" where
  "menus_of_user d uid oid =
     filter (\<lambda>m. \<exists>x \<in> set (ad_role_menus d). snd x = mu_id m \<and>
               (\<exists>r \<in> set (active_roles_of d uid oid). ro_id r = fst x)) (live_menus d)"

definition menu_by_user :: "nat \<Rightarrow> nat \<Rightarrow> ('p, access_menu list) acc" where
  "menu_by_user uid oid = aread (\<lambda>d. menus_of_user d uid oid)"

subsection \<open>APIs\<close>

definition sync_registered :: string where "sync_registered = ''registered''"
definition sync_missing :: string where "sync_missing = ''missing''"
definition sync_archived :: string where "sync_archived = ''archived''"

definition live_apis :: "access_db \<Rightarrow> access_api list" where
  "live_apis d = filter (\<lambda>a. \<not> ap_deleted a) (ad_apis d)"

definition registered_api :: "access_api \<Rightarrow> bool" where
  "registered_api a \<longleftrightarrow> (ap_sync a = sync_registered \<or> ap_sync a = '''') \<and> ap_status a = 1"

definition is_projectable_api :: "access_api \<Rightarrow> bool" where
  "is_projectable_api a \<longleftrightarrow>
     ap_status a = 1 \<and> (trim_space (ap_sync a) = '''' \<or> trim_space (ap_sync a) = sync_registered)"

definition api_find :: "nat \<Rightarrow> ('p, access_api option) acc" where
  "api_find k = aread (\<lambda>d. row_get ap_id (live_apis d) k)"

definition api_by_id :: "nat \<Rightarrow> ('p, access_api) acc" where
  "api_by_id k = found (api_find k)"

definition same_route :: "'p access_env \<Rightarrow> string \<Rightarrow> string \<Rightarrow> access_api \<Rightarrow> bool" where
  "same_route en path method a \<longleftrightarrow> ae_str_eq en (ap_path a) path \<and> ae_str_eq en (ap_method a) method"

definition api_by_path_method :: "'p access_env \<Rightarrow> string \<Rightarrow> string \<Rightarrow> ('p, access_api option) acc" where
  "api_by_path_method en path method = aread (\<lambda>d. find (same_route en path method) (ad_apis d))"

definition api_exists_by_path_method :: "'p access_env \<Rightarrow> string \<Rightarrow> string \<Rightarrow> ('p, bool) acc" where
  "api_exists_by_path_method en path method = aread (\<lambda>d. \<exists>a \<in> set (ad_apis d). same_route en path method a)"

definition route_free :: "'p access_env \<Rightarrow> access_db \<Rightarrow> nat option \<Rightarrow> access_api \<Rightarrow> bool" where
  "route_free en d self a \<longleftrightarrow>
     (\<forall>b \<in> set (ad_apis d). Some (ap_id b) = self \<or> \<not> same_route en (ap_path a) (ap_method a) b)"

definition api_create :: "'p access_env \<Rightarrow> access_api \<Rightarrow> ('p, nat) acc" where
  "api_create en a = acreate (\<lambda>d. route_free en d None a)
     (\<lambda>k d. d\<lparr>ad_apis := ad_apis d @ [a\<lparr>ap_id := k\<rparr>]\<rparr>)"

definition api_create_with_menu :: "'p access_env \<Rightarrow> access_api \<Rightarrow> nat \<Rightarrow> ('p, nat) acc" where
  "api_create_with_menu en a menu =
     svc_bind (api_create en a) (\<lambda>k. svc_bind (menu_api_insert menu k) (\<lambda>_. svc_return k))"

definition api_save :: "'p access_env \<Rightarrow> access_api \<Rightarrow> ('p, unit) acc" where
  "api_save en a = ainsert (\<lambda>d. route_free en d (Some (ap_id a)) a)
     (\<lambda>d. d\<lparr>ad_apis := row_put ap_id a (ad_apis d)\<rparr>)"

definition api_update_with_menu :: "'p access_env \<Rightarrow> access_api \<Rightarrow> nat option \<Rightarrow> ('p, unit) acc" where
  "api_update_with_menu en a menu =
     svc_bind (api_save en a) (\<lambda>_.
       (case menu of
          None \<Rightarrow> svc_return ()
        | Some k \<Rightarrow> svc_bind (menu_remove_api_from_all (ap_id a)) (\<lambda>_.
            if k = 0 then svc_return () else menu_api_insert k (ap_id a))))"

text \<open>\<open>Delete\<close> of an API archives its row.\<close>

definition api_archive :: "nat \<Rightarrow> ('p, unit) acc" where
  "api_archive k = awrite (\<lambda>d. d\<lparr>ad_apis := map (\<lambda>a. if \<not> ap_deleted a \<and> ap_id a = k
     then a\<lparr>ap_sync := sync_archived, ap_status := 0, ap_seen := None\<rparr> else a) (ad_apis d)\<rparr>)"

definition api_all :: "('p, access_api list) acc" where
  "api_all = aread live_apis"

subsection \<open>Relations read by the projection\<close>

definition user_org_role_relations :: "access_db \<Rightarrow> (nat \<times> nat \<times> string) list" where
  "user_org_role_relations d =
     concat (map (\<lambda>r. concat (map (\<lambda>u. map (\<lambda>ro'. (au_id u, ur_org r, ro_code ro'))
         (filter (\<lambda>ro'. ro_id ro' = ur_role r) (live_roles d)))
       (filter (\<lambda>u. au_id u = ur_user r) (live_users d)))) (ad_user_roles d))"

definition role_menu_relations :: "access_db \<Rightarrow> (string \<times> string) list" where
  "role_menu_relations d =
     concat (map (\<lambda>x. concat (map (\<lambda>r. map (\<lambda>m. (ro_code r, mu_code m))
         (filter (\<lambda>m. mu_id m = snd x) (live_menus d)))
       (filter (\<lambda>r. ro_id r = fst x) (live_roles d)))) (ad_role_menus d))"

definition menu_api_relations :: "access_db \<Rightarrow> (string \<times> string \<times> string) list" where
  "menu_api_relations d =
     concat (map (\<lambda>x. concat (map (\<lambda>m. map (\<lambda>a. (mu_code m, ap_path a, ap_method a))
         (filter (\<lambda>a. ap_id a = ma_api x \<and> registered_api a) (live_apis d)))
       (filter (\<lambda>m. mu_id m = ma_menu x) (live_menus d)))) (ad_menu_apis d))"

definition role_api_relations :: "access_db \<Rightarrow> (string \<times> string \<times> string) list" where
  "role_api_relations d =
     concat (map (\<lambda>x. concat (map (\<lambda>r. map (\<lambda>a. (ro_code r, ap_path a, ap_method a))
         (filter (\<lambda>a. ap_id a = ra_api x \<and> registered_api a) (live_apis d)))
       (filter (\<lambda>r. ro_id r = ra_role x) (live_roles d)))) (ad_role_apis d))"

definition role_capability_relations :: "access_db \<Rightarrow> (string \<times> string) list" where
  "role_capability_relations d =
     concat (map (\<lambda>x. concat (map (\<lambda>r. map (\<lambda>c. (ro_code r, cp_code c))
         (filter (\<lambda>c. cp_id c = rc_cap x) (active_caps d)))
       (filter (\<lambda>r. ro_id r = rc_role x) (live_roles d)))) (ad_role_caps d))"

subsection \<open>Images\<close>

definition cat_avatar :: nat where "cat_avatar = 7"

definition image_update_category :: "nat \<Rightarrow> nat \<Rightarrow> ('p, unit) acc" where
  "image_update_category k cat = awrite (\<lambda>d. d\<lparr>ad_images :=
     map (\<lambda>i. if im_id i = k \<and> \<not> im_deleted i then i\<lparr>im_category := cat\<rparr> else i) (ad_images d)\<rparr>)"

definition image_delete :: "nat list \<Rightarrow> ('p, unit) acc" where
  "image_delete ids =
     (if ids = [] then svc_return ()
      else awrite (\<lambda>d. d\<lparr>ad_images :=
        map (\<lambda>i. if im_id i \<in> set ids then i\<lparr>im_deleted := True\<rparr> else i) (ad_images d)\<rparr>))"

definition normalize_ids :: "nat list \<Rightarrow> nat list" where
  "normalize_ids ids = uniq_by id [] (filter (\<lambda>k. k \<noteq> 0) ids)"

definition image_soft_delete :: "nat list \<Rightarrow> ('p, unit) acc" where
  "image_soft_delete ids = (if normalize_ids ids = [] then svc_return () else image_delete (normalize_ids ids))"

end
