(* ===== verification/Access_Policy.thy ===== *)
theory Access_Policy
  imports Access_Repo
begin

text \<open>
  The policy engine. The services of \<open>pkg/casbin/casbin.go\<close> call an external engine; what
  they rely on is the locale \<open>policy_laws\<close>: the engine holds a set of grouping rules
  (subject, role) and a set of permission rules, its operations add and remove rules, and
  with the matcher of \<open>configs/model.conf\<close> a request is granted when a permission rule for
  the object and the action belongs to the subject or to a role it reaches through at most
  ten grouping rules, the hierarchy depth of the engine. The list engine at the end provides
  the interface. Every call of the engine may fail, and then changes nothing; the calls
  save a rule through the adapter as they add it to memory.
\<close>

subsection \<open>The interface\<close>

definition reachable_roles :: "(string \<times> string) set \<Rightarrow> string \<Rightarrow> string set" where
  "reachable_roles g s = {q. \<exists>n \<le> 10. (s, q) \<in> g ^^ n}"

locale policy_laws =
  fixes eng :: "'p policy_engine"
    and groups :: "'p \<Rightarrow> (string \<times> string) set"
    and perms :: "'p \<Rightarrow> (string \<times> string \<times> string) set"
  assumes groups_empty: "groups (en_empty eng) = {}"
    and perms_empty: "perms (en_empty eng) = {}"
    and groups_add_role: "groups (en_add_role eng s r p) = insert (s, r) (groups p)"
    and perms_add_role: "perms (en_add_role eng s r p) = perms p"
    and groups_delete_roles: "groups (en_delete_roles eng s p) = {x \<in> groups p. fst x \<noteq> s}"
    and perms_delete_roles: "perms (en_delete_roles eng s p) = perms p"
    and groups_add_permission: "groups (en_add_permission eng s ob a p) = groups p"
    and perms_add_permission: "perms (en_add_permission eng s ob a p) = insert (s, ob, a) (perms p)"
    and enforce: "en_enforce eng p s ob a \<longleftrightarrow> (\<exists>q \<in> reachable_roles (groups p) s. (q, ob, a) \<in> perms p)"

subsection \<open>The service over the engine\<close>

definition action_access :: string where "action_access = ''access''"
definition action_read :: string where "action_read = ''read''"

record permission =
  pm_subject :: string
  pm_object :: string
  pm_action :: string

record policy_snapshot =
  ps_subject_roles :: "(string \<times> string list) list"
  ps_permissions :: "permission list"

text \<open>A change of the engine: the rule is saved and added, or the call fails.\<close>

definition policy_call :: "('p \<Rightarrow> 'p) \<Rightarrow> ('p, unit) acc" where
  "policy_call f = acall (\<lambda>w. ((), w\<lparr>aw_policy := f (aw_policy w), aw_saved := f (aw_saved w)\<rparr>))"

definition reload_policy :: "('p, unit) acc" where
  "reload_policy = acall (\<lambda>w. ((), w\<lparr>aw_policy := aw_saved w\<rparr>))"

definition policy_has_permission :: "'p access_env \<Rightarrow> string \<Rightarrow> string \<Rightarrow> string \<Rightarrow> ('p, bool) acc" where
  "policy_has_permission en subject object action =
     (let s = trim_space subject; ob = trim_space object; a = trim_space action
      in if s = [] \<or> ob = [] \<or> a = [] then svc_throw RawErr
         else acall (\<lambda>w. (en_enforce (ae_engine en) (aw_policy w) s ob a, w)))"

definition add_roles :: "'p access_env \<Rightarrow> string \<Rightarrow> string list \<Rightarrow> ('p, unit) acc" where
  "add_roles en subject roles =
     svc_iter (\<lambda>r. if trim_space r = [] then svc_return ()
                  else policy_call (en_add_role (ae_engine en) subject (trim_space r))) roles"

definition replace_subject_roles :: "'p access_env \<Rightarrow> string \<Rightarrow> string list \<Rightarrow> ('p, unit) acc" where
  "replace_subject_roles en subject roles =
     (let s = trim_space subject
      in if s = [] then svc_throw RawErr
         else svc_bind (policy_call (en_delete_roles (ae_engine en) s)) (\<lambda>_. add_roles en s roles))"

definition clear_subject_roles :: "'p access_env \<Rightarrow> string \<Rightarrow> ('p, unit) acc" where
  "clear_subject_roles en subject =
     (let s = trim_space subject
      in if s = [] then svc_throw RawErr else policy_call (en_delete_roles (ae_engine en) s))"

definition grant_permissions :: "'p access_env \<Rightarrow> string \<Rightarrow> permission list \<Rightarrow> ('p, unit) acc" where
  "grant_permissions en subject ps =
     (let s = trim_space subject
      in if s = [] then svc_throw RawErr
         else svc_iter (\<lambda>q. let ob = trim_space (pm_object q); a = trim_space (pm_action q)
                           in if ob = [] \<or> a = [] then svc_return ()
                              else policy_call (en_add_permission (ae_engine en) s ob a)) ps)"

text \<open>\<open>ClearPolicy\<close> empties the memory and cannot fail; \<open>SavePolicy\<close> writes it to the adapter.\<close>

definition clear_all_policies :: "'p access_env \<Rightarrow> ('p, unit) acc" where
  "clear_all_policies en w =
     acall (\<lambda>v. ((), v\<lparr>aw_saved := aw_policy v\<rparr>)) (w\<lparr>aw_policy := en_empty (ae_engine en)\<rparr>)"

definition add_snapshot_subject :: "'p access_env \<Rightarrow> string \<times> string list \<Rightarrow> ('p, unit) acc" where
  "add_snapshot_subject en x =
     (let s = trim_space (fst x) in if s = [] then svc_return () else add_roles en s (snd x))"

definition add_snapshot_permission :: "'p access_env \<Rightarrow> permission \<Rightarrow> ('p, unit) acc" where
  "add_snapshot_permission en q =
     (let s = trim_space (pm_subject q); ob = trim_space (pm_object q); a = trim_space (pm_action q)
      in if s = [] \<or> ob = [] \<or> a = [] then svc_return ()
         else policy_call (en_add_permission (ae_engine en) s ob a))"

definition rebuild_from_snapshot :: "'p access_env \<Rightarrow> policy_snapshot \<Rightarrow> ('p, unit) acc" where
  "rebuild_from_snapshot en snap =
     svc_bind (clear_all_policies en) (\<lambda>_.
     svc_bind (svc_iter (add_snapshot_subject en) (ps_subject_roles snap)) (\<lambda>_.
       svc_iter (add_snapshot_permission en) (ps_permissions snap)))"

subsection \<open>What a snapshot grants\<close>

definition snapshot_groups :: "policy_snapshot \<Rightarrow> (string \<times> string) set" where
  "snapshot_groups snap =
     {(trim_space s, trim_space r) | s rs r. (s, rs) \<in> set (ps_subject_roles snap) \<and> r \<in> set rs \<and>
        trim_space s \<noteq> [] \<and> trim_space r \<noteq> []}"

definition snapshot_perms :: "policy_snapshot \<Rightarrow> (string \<times> string \<times> string) set" where
  "snapshot_perms snap =
     {(trim_space (pm_subject q), trim_space (pm_object q), trim_space (pm_action q)) | q.
        q \<in> set (ps_permissions snap) \<and> trim_space (pm_subject q) \<noteq> [] \<and>
        trim_space (pm_object q) \<noteq> [] \<and> trim_space (pm_action q) \<noteq> []}"

end
