(* ===== verification/Access_Projection.thy ===== *)
theory Access_Projection
  imports Access_Policy
begin

text \<open>
  The events of the projections (\<open>cacheProjectionEventBuilder.go\<close>,
  \<open>cacheProjectionOutbox.go\<close>, \<open>permissionProjectionOutbox.go\<close>), the permission projection of
  \<open>permissionProjectionSvc.go\<close> that copies users, roles, menus, APIs and capabilities into the
  policy engine, and the authorisation of \<open>authorizationSvc.go\<close> over the engine. The wake-up
  signal after an outbox insert is fire-and-forget and left out.
\<close>

subsection \<open>Events\<close>

definition kind_user_snapshot :: string where "kind_user_snapshot = ''user_snapshot_changed''"
definition kind_current_org :: string where "kind_current_org = ''current_org_changed''"
definition kind_user_deleted :: string where "kind_user_deleted = ''user_deleted''"
definition kind_subject_binding :: string where "kind_subject_binding = ''subject_binding_changed''"
definition kind_permission_graph :: string where "kind_permission_graph = ''permission_graph_changed''"

definition dedupe_uint_ids :: "nat list \<Rightarrow> nat list" where
  "dedupe_uint_ids ids = uniq_by id [] (filter (\<lambda>k. k \<noteq> 0) ids)"

definition new_cache_event ::
  "string \<Rightarrow> nat \<Rightarrow> nat option \<Rightarrow> nat option \<Rightarrow> nat list \<Rightarrow> cache_event option" where
  "new_cache_event kind uid old new orgs =
     (if uid = 0 then None
      else Some \<lparr>ce_kind = trim_space kind, ce_user = uid, ce_platform = '''', ce_old_org = old,
                 ce_new_org = new, ce_orgs = dedupe_uint_ids orgs\<rparr>)"

definition user_snapshot_event :: "nat \<Rightarrow> nat list \<Rightarrow> cache_event option" where
  "user_snapshot_event uid orgs = new_cache_event kind_user_snapshot uid None None orgs"

definition current_org_event :: "nat \<Rightarrow> nat option \<Rightarrow> nat option \<Rightarrow> nat list \<Rightarrow> cache_event option" where
  "current_org_event uid old new orgs = new_cache_event kind_current_org uid old new orgs"

definition user_deleted_event :: "nat \<Rightarrow> nat option \<Rightarrow> nat list \<Rightarrow> cache_event option" where
  "user_deleted_event uid old orgs = new_cache_event kind_user_deleted uid old None orgs"

definition outbox_append :: "projection_row \<Rightarrow> ('p, unit) acc" where
  "outbox_append row = awrite (\<lambda>d. d\<lparr>ad_outbox := ad_outbox d @ [row]\<rparr>)"

definition cache_row :: "'p access_env \<Rightarrow> cache_event \<Rightarrow> projection_row" where
  "cache_row en e = \<lparr>pj_topic = trim_space (ae_cache_topic en), pj_agg_id = show_nat (ce_user e),
     pj_agg_type = ''user_projection'', pj_payload = CachePayload e\<rparr>"

definition publish_cache_event :: "'p access_env \<Rightarrow> cache_event option \<Rightarrow> ('p, unit) acc" where
  "publish_cache_event en ev =
     (case ev of
        None \<Rightarrow> svc_return ()
      | Some e \<Rightarrow> if ce_user e = 0 \<or> trim_space (ae_cache_topic en) = [] then svc_throw RawErr
                  else outbox_append (cache_row en e))"

definition permission_row :: "'p access_env \<Rightarrow> permission_event \<Rightarrow> projection_row" where
  "permission_row en e =
     \<lparr>pj_topic = trim_space (ae_permission_topic en),
      pj_agg_id = show_nat (if 0 < pe_user e then pe_user e else pe_agg_id e),
      pj_agg_type = (if trim_space (pe_agg_type e) = [] then ''permission_projection'' else trim_space (pe_agg_type e)),
      pj_payload = PermissionPayload e\<rparr>"

definition publish_permission_event :: "'p access_env \<Rightarrow> permission_event option \<Rightarrow> ('p, unit) acc" where
  "publish_permission_event en ev =
     (case ev of
        None \<Rightarrow> svc_throw RawErr
      | Some e \<Rightarrow> if trim_space (ae_permission_topic en) = [] then svc_throw RawErr
                  else outbox_append (permission_row en e))"

definition subject_binding_event :: "nat \<Rightarrow> nat \<Rightarrow> permission_event option" where
  "subject_binding_event uid oid =
     (if uid = 0 then None
      else Some \<lparr>pe_kind = kind_subject_binding, pe_user = uid, pe_org = oid,
                 pe_agg_type = ''permission_subject'', pe_agg_id = uid\<rparr>)"

definition permission_graph_event :: "string \<Rightarrow> nat \<Rightarrow> permission_event" where
  "permission_graph_event agg k =
     \<lparr>pe_kind = kind_permission_graph, pe_user = 0, pe_org = 0, pe_agg_type = trim_space agg, pe_agg_id = k\<rparr>"

definition publish_subject_binding :: "'p access_env \<Rightarrow> nat \<Rightarrow> nat \<Rightarrow> ('p, unit) acc" where
  "publish_subject_binding en uid oid = publish_permission_event en (subject_binding_event uid oid)"

definition publish_permission_graph :: "'p access_env \<Rightarrow> string \<Rightarrow> nat \<Rightarrow> ('p, unit) acc" where
  "publish_permission_graph en agg k = publish_permission_event en (Some (permission_graph_event agg k))"

subsection \<open>The projection\<close>

text \<open>\<open>result[subject] = append(result[subject], role)\<close>.\<close>

fun append_role :: "string \<Rightarrow> string \<Rightarrow> (string \<times> string list) list \<Rightarrow> (string \<times> string list) list" where
  "append_role s r [] = [(s, [r])]"
| "append_role s r ((k, rs) # xs) = (if k = s then (k, rs @ [r]) # xs else (k, rs) # append_role s r xs)"

fun subject_roles_loop ::
  "(nat \<times> nat \<times> string) list \<Rightarrow> (string \<times> string list) list \<Rightarrow> (string \<times> string list) list" where
  "subject_roles_loop [] acc = acc"
| "subject_roles_loop ((u, g, c) # rels) acc =
     (if trim_space c = [] then subject_roles_loop rels acc
      else subject_roles_loop rels (append_role (build_subject u g) (trim_space c) acc))"

definition build_subject_roles :: "('p, (string \<times> string list) list) acc" where
  "build_subject_roles = svc_bind (aread user_org_role_relations) (\<lambda>rels. svc_return (subject_roles_loop rels []))"

definition api_resource :: "string \<Rightarrow> string \<Rightarrow> string" where
  "api_resource path method = path @ '':'' @ method"

definition plain_permission :: "string \<Rightarrow> string \<times> string \<Rightarrow> permission" where
  "plain_permission act x =
     \<lparr>pm_subject = trim_space (fst x), pm_object = trim_space (snd x), pm_action = act\<rparr>"

definition api_permissions :: "(string \<times> string \<times> string) list \<Rightarrow> permission list" where
  "api_permissions rels =
     map (\<lambda>(c, p, m). \<lparr>pm_subject = trim_space c, pm_object = api_resource (trim_space p) (trim_space m),
                       pm_action = action_access\<rparr>)
       (filter (\<lambda>(c, p, m). trim_space c \<noteq> [] \<and> trim_space p \<noteq> [] \<and> trim_space m \<noteq> []) rels)"

definition build_permissions :: "('p, permission list) acc" where
  "build_permissions =
     svc_bind (aread role_menu_relations) (\<lambda>rm.
     svc_bind (aread menu_api_relations) (\<lambda>ma.
     svc_bind (aread role_api_relations) (\<lambda>ra.
     svc_bind (aread role_capability_relations) (\<lambda>rc.
       svc_return (map (plain_permission action_read) rm @ api_permissions ma @ api_permissions ra @
                   map (plain_permission action_operate) rc)))))"

definition build_policy_snapshot :: "('p, policy_snapshot) acc" where
  "build_policy_snapshot =
     svc_bind build_subject_roles (\<lambda>sr. svc_bind build_permissions (\<lambda>ps.
       svc_return \<lparr>ps_subject_roles = sr, ps_permissions = ps\<rparr>))"

definition rebuild_all :: "'p access_env \<Rightarrow> ('p, unit) acc" where
  "rebuild_all en = svc_bind build_policy_snapshot (rebuild_from_snapshot en)"

definition sync_subject_roles :: "'p access_env \<Rightarrow> nat \<Rightarrow> nat \<Rightarrow> ('p, unit) acc" where
  "sync_subject_roles en uid oid =
     (if uid = 0 then svc_throw RawErr
      else svc_bind (role_user_roles_by_org uid oid) (\<lambda>roles.
        replace_subject_roles en (build_subject uid oid) (map (\<lambda>r. trim_space (ro_code r)) roles)))"

definition broadcast_reload :: "'p access_env \<Rightarrow> ('p, unit) acc" where
  "broadcast_reload en =
     (if \<not> ae_redis en \<or> trim_space (ae_reload_channel en) = [] then svc_return () else acall (\<lambda>w. ((), w)))"

definition handle_permission_event :: "'p access_env \<Rightarrow> permission_event option \<Rightarrow> ('p, unit) acc" where
  "handle_permission_event en ev =
     (case ev of
        None \<Rightarrow> svc_throw RawErr
      | Some e \<Rightarrow>
          svc_bind (if trim_space (pe_kind e) = kind_subject_binding then sync_subject_roles en (pe_user e) (pe_org e)
                    else if trim_space (pe_kind e) = kind_permission_graph then rebuild_all en
                    else svc_throw RawErr)
            (\<lambda>_. broadcast_reload en))"

subsection \<open>Authorisation\<close>

definition access_global_roles :: "nat \<Rightarrow> ('p, access_role list \<times> bool) acc" where
  "access_global_roles uid =
     svc_bind (role_user_global_roles uid) (\<lambda>rs.
       svc_return (rs, \<exists>r \<in> set rs. ro_code r = role_super_admin))"

definition access_is_super_admin :: "nat \<Rightarrow> ('p, bool) acc" where
  "access_is_super_admin uid = svc_bind (access_global_roles uid) (\<lambda>x. svc_return (snd x))"

definition get_user_subject :: "nat \<Rightarrow> ('p, string \<times> nat option) acc" where
  "get_user_subject uid =
     svc_bind (user_by_id uid) (\<lambda>u.
       (case u of
          None \<Rightarrow> svc_throw RawErr
        | Some u' \<Rightarrow> (case au_current_org u' of
            None \<Rightarrow> svc_throw RawErr
          | Some k \<Rightarrow> svc_return (build_subject uid k, Some k))))"

text \<open>\<open>GetUserRoles\<close>: a failing lookup of the current organisation falls back to the global roles.\<close>

definition get_user_roles :: "nat \<Rightarrow> ('p, access_role list) acc" where
  "get_user_roles uid =
     svc_bind (access_global_roles uid) (\<lambda>(gl, super).
       if super then svc_return gl
       else svc_catch (get_user_subject uid)
         (\<lambda>_. if gl \<noteq> [] then svc_return gl else svc_throw RawErr)
         (\<lambda>(_, oid).
            (case oid of
               None \<Rightarrow> if gl \<noteq> [] then svc_return gl else svc_throw RawErr
             | Some k \<Rightarrow>
                 if k = 0 then (if gl \<noteq> [] then svc_return gl else svc_throw RawErr)
                 else svc_bind (role_user_roles_by_org uid k) (\<lambda>rs. svc_return (gl @ rs)))))"

definition check_user_api_permission :: "'p access_env \<Rightarrow> nat \<Rightarrow> string \<Rightarrow> string \<Rightarrow> ('p, bool) acc" where
  "check_user_api_permission en uid path method =
     svc_bind (get_user_subject uid) (\<lambda>(subject, _).
       policy_has_permission en subject (api_resource path method) action_access)"

definition access_check_subject_capability :: "'p access_env \<Rightarrow> string \<Rightarrow> string \<Rightarrow> ('p, bool) acc" where
  "access_check_subject_capability en subject cap =
     (if trim_space subject = [] \<or> trim_space cap = [] then svc_throw RawErr
      else policy_has_permission en (trim_space subject) (trim_space cap) action_operate)"

definition access_can_operate :: "'p access_env \<Rightarrow> nat \<Rightarrow> nat \<Rightarrow> string \<Rightarrow> ('p, bool) acc" where
  "access_can_operate en operator oid cap =
     (if trim_space cap = [] then svc_throw (Biz CodeInvalidParams)
      else svc_bind (adb (org_find oid)) (\<lambda>org.
        (case org of
           None \<Rightarrow> svc_throw (Biz CodeOrgNotFound)
         | Some og \<Rightarrow>
             if operator = ag_owner og then svc_return True
             else svc_bind (adb (access_global_roles operator)) (\<lambda>(_, super).
               if super then svc_return True
               else awrap CodeInternalError
                 (access_check_subject_capability en (build_subject operator oid) cap)))))"

definition access_authorize :: "'p access_env \<Rightarrow> nat \<Rightarrow> nat \<Rightarrow> string \<Rightarrow> ('p, unit) acc" where
  "access_authorize en operator oid cap =
     svc_bind (access_can_operate en operator oid cap) (\<lambda>ok.
       if ok then svc_return () else svc_throw (Biz CodePermissionDenied))"

end
