(* ===== verification/Access_Org.thy ===== *)
theory Access_Org
  imports Access_Projection
begin

text \<open>
  The organisation service \<open>orgSvc.go\<close>: its queries, and the commands that create, change and
  delete an organisation and move users between the states of a member (absent, active, left,
  removed). The body of each transaction is a definition of its own, with suffix \<open>_tx\<close>; what
  the Go closure writes to captured variables is its result.
\<close>

subsection \<open>Constants and checks\<close>

definition org_builtin_key_all_members :: string where "org_builtin_key_all_members = ''all_members''"
definition role_code_org_admin :: string where "role_code_org_admin = ''org_admin''"
definition role_code_member :: string where "role_code_member = ''member''"
definition source_register :: string where "source_register = ''register''"
definition source_invite :: string where "source_invite = ''invite''"
definition source_org_create :: string where "source_org_create = ''org_create''"
definition source_admin_recover :: string where "source_admin_recover = ''admin_recover''"
definition source_system_backfill :: string where "source_system_backfill = ''system_backfill''"

definition cap_member_kick :: string where "cap_member_kick = ''org.member.kick''"
definition cap_member_recover :: string where "cap_member_recover = ''org.member.recover''"
definition cap_member_freeze :: string where "cap_member_freeze = ''org.member.freeze''"
definition cap_member_delete :: string where "cap_member_delete = ''org.member.delete''"
definition cap_member_invite :: string where "cap_member_invite = ''org.member.invite''"
definition cap_member_assign_role :: string where "cap_member_assign_role = ''org.member.assign_role''"
definition cap_manage_update :: string where "cap_manage_update = ''org.manage.update''"
definition cap_manage_delete :: string where "cap_manage_delete = ''org.manage.delete''"

definition capability_for_member_action :: "string \<Rightarrow> go_err + string" where
  "capability_for_member_action action =
     (if action = ''kick'' then Inr cap_member_kick
      else if action = ''recover'' then Inr cap_member_recover
      else if action = ''freeze'' then Inr cap_member_freeze
      else if action = ''delete'' then Inr cap_member_delete
      else if action = ''invite'' then Inr cap_member_invite
      else if action = ''assign_role'' then Inr cap_member_assign_role
      else Inl (Biz CodeInvalidParams))"

definition capability_for_org_action :: "string \<Rightarrow> go_err + string" where
  "capability_for_org_action action =
     (if action = ''update'' then Inr cap_manage_update
      else if action = ''delete'' then Inr cap_manage_delete
      else Inl (Biz CodeInvalidParams))"

definition authorize_member_action :: "'p access_env \<Rightarrow> nat \<Rightarrow> nat \<Rightarrow> string \<Rightarrow> ('p, unit) acc" where
  "authorize_member_action en operator oid action =
     svc_bind (svc_lift (capability_for_member_action action)) (access_authorize en operator oid)"

definition authorize_org_action :: "'p access_env \<Rightarrow> nat \<Rightarrow> nat \<Rightarrow> string \<Rightarrow> ('p, unit) acc" where
  "authorize_org_action en operator oid action =
     svc_bind (svc_lift (capability_for_org_action action)) (access_authorize en operator oid)"

definition is_all_members_org :: "access_org \<Rightarrow> bool" where
  "is_all_members_org o' \<longleftrightarrow> ag_builtin o' \<and> ag_key o' = Some org_builtin_key_all_members"

definition validate_avatar_url :: "'p access_env \<Rightarrow> string \<Rightarrow> go_err + unit" where
  "validate_avatar_url en url =
     (case ae_parse_uri en url of
        None \<Rightarrow> Inl (Biz CodeInvalidParams)
      | Some (scheme, host) \<Rightarrow>
          if scheme \<noteq> ''http'' \<and> scheme \<noteq> ''https'' then Inl (Biz CodeInvalidParams)
          else if host = [] then Inl (Biz CodeInvalidParams) else Inr ())"

text \<open>
  \<open>parseOrgAvatarPair\<close>: the outer \<open>None\<close> of the result is \<open>Provided = false\<close>. The user service
  has its own copy of it.
\<close>

definition parse_avatar_pair ::
  "'p access_env \<Rightarrow> string option \<Rightarrow> nat option \<Rightarrow> go_err + (string \<times> nat option) option" where
  "parse_avatar_pair en avatar aid =
     (case (avatar, aid) of
        (None, None) \<Rightarrow> Inr None
      | (Some a, Some k) \<Rightarrow>
          (let t = trim_space a
           in if t = [] then (if k \<noteq> 0 then Inl (Biz CodeInvalidParams) else Inr (Some ([], None)))
              else if k = 0 then Inl (Biz CodeInvalidParams)
              else (case validate_avatar_url en t of Inl e \<Rightarrow> Inl e | Inr _ \<Rightarrow> Inr (Some (t, Some k))))
      | _ \<Rightarrow> Inl (Biz CodeInvalidParams))"

fun generate_invite_code :: "'p access_env \<Rightarrow> nat \<Rightarrow> ('p, string) acc" where
  "generate_invite_code en 0 = svc_throw (Biz CodeInternalError)"
| "generate_invite_code en (Suc n) =
     svc_bind adraw (\<lambda>u.
       let code = ''ORG-'' @ take 10 (ae_upper en (filter (\<lambda>c. c \<noteq> CHR ''-'') u))
       in svc_bind (adb (org_by_code en code)) (\<lambda>ex.
            if ex = None then svc_return code else generate_invite_code en n))"

text \<open>\<open>resolveDefaultOrgRole\<close>: the configured role, then the built-in member role.\<close>

definition default_role_codes :: "'p access_env \<Rightarrow> string list" where
  "default_role_codes en =
     (let c = trim_space (ae_default_role en)
      in if c \<noteq> [] \<and> c \<noteq> role_code_member then [c, role_code_member] else [role_code_member])"

fun first_role :: "'p access_env \<Rightarrow> string list \<Rightarrow> ('p, access_role) acc" where
  "first_role en [] = svc_throw (Biz CodeRoleNotFound)"
| "first_role en (c # cs) =
     svc_bind (adb (role_find_by_code en c)) (\<lambda>r.
       case r of Some r' \<Rightarrow> svc_return r' | None \<Rightarrow> first_role en cs)"

definition resolve_default_org_role :: "'p access_env \<Rightarrow> ('p, access_role) acc" where
  "resolve_default_org_role en = first_role en (default_role_codes en)"

definition assign_default_org_role :: "'p access_env \<Rightarrow> nat \<Rightarrow> nat \<Rightarrow> ('p, unit) acc" where
  "assign_default_org_role en uid oid =
     svc_bind (resolve_default_org_role en) (\<lambda>r. adb (role_assign_in_org uid oid (ro_id r)))"

definition pick_another_active_org :: "nat \<Rightarrow> nat \<Rightarrow> ('p, nat option) acc" where
  "pick_another_active_org uid oid =
     svc_bind (member_active_org_ids uid) (\<lambda>ids. svc_return (find (\<lambda>k. k \<noteq> oid) ids))"

subsection \<open>Queries\<close>

record org_view =
  ov_org :: access_org
  ov_members :: nat

definition build_org_read_models :: "access_org list \<Rightarrow> ('p, org_view list) acc" where
  "build_org_read_models orgs =
     (if orgs = [] then svc_return []
      else svc_bind (member_counts (map ag_id orgs)) (\<lambda>counts.
        svc_return (map (\<lambda>o'. \<lparr>ov_org = o', ov_members = counts (ag_id o')\<rparr>) orgs)))"

definition can_view_invite_code :: "'p access_env \<Rightarrow> nat \<Rightarrow> nat \<Rightarrow> ('p, bool) acc" where
  "can_view_invite_code en uid oid =
     svc_catch (access_authorize en uid oid cap_member_invite)
       (\<lambda>e. if e = Biz CodePermissionDenied then svc_return False else svc_throw e)
       (\<lambda>_. svc_return True)"

definition mask_invite_codes :: "'p access_env \<Rightarrow> nat \<Rightarrow> org_view list \<Rightarrow> ('p, org_view list) acc" where
  "mask_invite_codes en uid items =
     svc_map (\<lambda>v. if ag_id (ov_org v) = 0 then svc_return v
                  else svc_bind (can_view_invite_code en uid (ag_id (ov_org v))) (\<lambda>ok.
                    svc_return (if ok then v else v\<lparr>ov_org := (ov_org v)\<lparr>ag_code := ''''\<rparr>\<rparr>))) items"

definition get_org_list ::
  "'p access_env \<Rightarrow> nat \<Rightarrow> int \<Rightarrow> int \<Rightarrow> string \<Rightarrow> ('p, org_view list \<times> nat) acc" where
  "get_org_list en uid page psize kw =
     svc_bind (adb (access_is_super_admin uid)) (\<lambda>super.
     svc_bind (adb (if super then org_list_with_keyword en page psize kw
                    else org_list_visible en uid page psize kw)) (\<lambda>(orgs, total).
     svc_bind (adb (build_org_read_models orgs)) (\<lambda>items.
     svc_bind (mask_invite_codes en uid items) (\<lambda>masked. svc_return (masked, total)))))"

definition get_org_detail :: "'p access_env \<Rightarrow> nat \<Rightarrow> nat \<Rightarrow> ('p, org_view) acc" where
  "get_org_detail en uid oid =
     svc_bind (adb (access_is_super_admin uid)) (\<lambda>super.
     svc_bind (if super then svc_return ()
               else svc_bind (adb (org_is_user_in uid oid)) (\<lambda>m.
                 if m then svc_return () else svc_throw (Biz CodePermissionDenied))) (\<lambda>_.
     svc_bind (awrap CodeOrgNotFound (org_by_id oid)) (\<lambda>o'.
     svc_bind (adb (build_org_read_models [o'])) (\<lambda>items.
     svc_bind (mask_invite_codes en uid items) (\<lambda>masked.
       (case masked of [] \<Rightarrow> svc_throw (Biz CodeOrgNotFound) | v # _ \<Rightarrow> svc_return v))))))"

definition get_my_orgs :: "nat \<Rightarrow> ('p, (nat \<times> string \<times> bool) list) acc" where
  "get_my_orgs uid =
     svc_bind (adb (orgs_by_user uid)) (\<lambda>orgs.
       svc_return (map (\<lambda>o'. (ag_id o', ag_name o', ag_owner o' = uid)) orgs))"

subsection \<open>Creating an organisation\<close>

record create_org_req =
  qc_name :: string
  qc_desc :: string
  qc_code :: string
  qc_avatar :: string
  qc_avatar_id :: "nat option"

definition create_org_avatar_id :: "create_org_req \<Rightarrow> nat option" where
  "create_org_avatar_id req =
     (if trim_space (qc_avatar req) \<noteq> [] then (case qc_avatar_id req of Some k \<Rightarrow> if 0 < k then Some k else None | None \<Rightarrow> None)
      else None)"

definition new_org :: "nat \<Rightarrow> create_org_req \<Rightarrow> string \<Rightarrow> access_org" where
  "new_org uid req code =
     \<lparr>ag_id = 0, ag_name = trim_space (qc_name req), ag_desc = trim_space (qc_desc req), ag_code = code,
      ag_avatar = trim_space (qc_avatar req), ag_avatar_id = create_org_avatar_id req, ag_owner = uid,
      ag_builtin = False, ag_key = None, ag_deleted = False\<rparr>"

text \<open>An error of the role lookup is dropped: the creator then gets no role.\<close>

definition create_org_tx ::
  "'p access_env \<Rightarrow> nat \<Rightarrow> create_org_req \<Rightarrow> string \<Rightarrow> nat option \<Rightarrow> ('p, nat \<times> bool) acc" where
  "create_org_tx en uid req code old =
     svc_bind (adb (org_create (new_org uid req code))) (\<lambda>k.
     svc_bind anow (\<lambda>t.
     svc_bind (adb (member_create (new_member k uid t source_org_create))) (\<lambda>_.
     svc_bind (svc_try (found (role_find_by_code en role_code_org_admin))) (\<lambda>adm.
     svc_bind (case adm of
         Inl e \<Rightarrow> svc_return False
       | Inr r \<Rightarrow> if ro_id r = 0 then svc_return False
                  else svc_bind (adb (role_assign_in_org uid k (ro_id r))) (\<lambda>_.
                       svc_bind (adb (publish_subject_binding en uid k)) (\<lambda>_. svc_return True))) (\<lambda>assigned.
     svc_bind (adb (user_update_current_org uid (Some k))) (\<lambda>_.
     svc_bind (case create_org_avatar_id req of
         None \<Rightarrow> svc_return () | Some i \<Rightarrow> adb (image_update_category i cat_avatar)) (\<lambda>_.
     svc_bind (adb (publish_cache_event en (current_org_event uid old (Some k) [k]))) (\<lambda>_.
       svc_return (k, assigned)))))))))"

definition create_org :: "'p access_env \<Rightarrow> nat \<Rightarrow> create_org_req \<Rightarrow> ('p, unit) acc" where
  "create_org en uid req =
     svc_bind (adb (user_by_id uid)) (\<lambda>creator.
       (case creator of
          None \<Rightarrow> svc_throw (Biz CodeUserNotFound)
        | Some u \<Rightarrow>
            if trim_space (qc_name req) = [] then svc_throw (Biz CodeInvalidParams)
            else svc_bind (if trim_space (qc_avatar req) \<noteq> []
                           then svc_lift (validate_avatar_url en (trim_space (qc_avatar req))) else svc_return ()) (\<lambda>_.
            svc_bind (if trim_space (qc_code req) = [] then generate_invite_code en 10
                      else svc_bind (adb (org_by_code en (trim_space (qc_code req)))) (\<lambda>ex.
                        if ex = None then svc_return (trim_space (qc_code req))
                        else svc_throw (Biz CodeOrgAlreadyExists))) (\<lambda>code.
            svc_bind (adb (org_exists_by_name en (trim_space (qc_name req)))) (\<lambda>ex.
              if ex then svc_throw (Biz CodeOrgNameDuplicate)
              else svc_bind (atx (create_org_tx en uid req code (au_current_org u))) (\<lambda>(k, assigned).
                if assigned then awrap CodeInternalError (sync_subject_roles en uid k) else svc_return ()))))))"

subsection \<open>Changing an organisation\<close>

record update_org_req =
  qu_name :: "string option"
  qu_desc :: "string option"
  qu_code :: "string option"
  qu_avatar :: "string option"
  qu_avatar_id :: "nat option"

definition update_org_name :: "'p access_env \<Rightarrow> string option \<Rightarrow> access_org \<Rightarrow> ('p, access_org) acc" where
  "update_org_name en name o' =
     (case name of
        None \<Rightarrow> svc_return o'
      | Some s \<Rightarrow>
          if trim_space s \<noteq> [] \<and> trim_space s \<noteq> ag_name o'
          then svc_bind (adb (org_exists_by_name en (trim_space s))) (\<lambda>ex.
            if ex then svc_throw (Biz CodeOrgNameDuplicate) else svc_return (o'\<lparr>ag_name := trim_space s\<rparr>))
          else svc_return o')"

definition update_org_code :: "'p access_env \<Rightarrow> string option \<Rightarrow> access_org \<Rightarrow> ('p, access_org) acc" where
  "update_org_code en code o' =
     (case code of
        None \<Rightarrow> svc_return o'
      | Some s \<Rightarrow>
          if trim_space s = [] then svc_throw (Biz CodeInvalidParams)
          else if trim_space s \<noteq> ag_code o'
          then svc_bind (adb (org_by_code en (trim_space s))) (\<lambda>ex.
            (case ex of
               Some x \<Rightarrow> if ag_id x \<noteq> ag_id o' then svc_throw (Biz CodeOrgAlreadyExists)
                         else svc_return (o'\<lparr>ag_code := trim_space s\<rparr>)
             | None \<Rightarrow> svc_return (o'\<lparr>ag_code := trim_space s\<rparr>)))
          else svc_return o')"

definition option_or_zero :: "nat option \<Rightarrow> nat" where
  "option_or_zero x = (case x of None \<Rightarrow> 0 | Some k \<Rightarrow> k)"

text \<open>The avatar images of a changed pair: mark the new one, drop the old one.\<close>

definition update_avatar_images :: "nat option \<Rightarrow> nat option \<Rightarrow> ('p, unit) acc" where
  "update_avatar_images old new =
     svc_bind (case new of None \<Rightarrow> svc_return () | Some k \<Rightarrow> adb (image_update_category k cat_avatar)) (\<lambda>_.
       if 0 < option_or_zero old \<and> option_or_zero old \<noteq> option_or_zero new
       then adb (image_soft_delete [option_or_zero old]) else svc_return ())"

definition update_org_tx :: "'p access_env \<Rightarrow> nat \<Rightarrow> nat \<Rightarrow> update_org_req \<Rightarrow> ('p, unit) acc" where
  "update_org_tx en uid oid req =
     svc_bind (adb (org_by_id oid)) (\<lambda>o'.
     svc_bind (if is_all_members_org o'
               then svc_bind (adb (access_is_super_admin uid)) (\<lambda>super.
                 if super then svc_return () else svc_throw (Biz CodeOrgBuiltinProtected))
               else svc_return ()) (\<lambda>_.
     svc_bind (svc_lift (parse_avatar_pair en (qu_avatar req) (qu_avatar_id req))) (\<lambda>pair.
     svc_bind (update_org_name en (qu_name req) o') (\<lambda>o1.
     svc_bind (update_org_code en (qu_code req)
       (case qu_desc req of None \<Rightarrow> o1 | Some s \<Rightarrow> o1\<lparr>ag_desc := trim_space s\<rparr>)) (\<lambda>o2.
     let o3 = (case pair of None \<Rightarrow> o2 | Some (a, i) \<Rightarrow> o2\<lparr>ag_avatar := a, ag_avatar_id := i\<rparr>)
     in svc_bind (adb (org_save o3)) (\<lambda>_.
       (case pair of
          None \<Rightarrow> svc_return ()
        | Some (a, i) \<Rightarrow> update_avatar_images (ag_avatar_id o') i)))))))"

definition update_org :: "'p access_env \<Rightarrow> nat \<Rightarrow> nat \<Rightarrow> update_org_req \<Rightarrow> ('p, unit) acc" where
  "update_org en uid oid req =
     svc_bind (authorize_org_action en uid oid ''update'') (\<lambda>_. atx (update_org_tx en uid oid req))"

subsection \<open>Deleting an organisation\<close>

text \<open>The reason the code records, in UTF-8.\<close>

definition reason_org_deleted :: string where
  "reason_org_deleted = [CHR 0xE7, CHR 0xBB, CHR 0x84, CHR 0xE7, CHR 0xBB, CHR 0x87,
                         CHR 0xE5, CHR 0x88, CHR 0xA0, CHR 0xE9, CHR 0x99, CHR 0xA4]"

definition delete_org_tx :: "'p access_env \<Rightarrow> nat \<Rightarrow> nat \<Rightarrow> nat list \<Rightarrow> ('p, unit) acc" where
  "delete_org_tx en uid oid affected =
     svc_bind (adb (org_remove_all_members oid)) (\<lambda>_.
     svc_bind (adb (member_set_all_removed oid (Some uid) reason_org_deleted)) (\<lambda>_.
     svc_bind (adb (user_clear_current_org oid)) (\<lambda>_.
     svc_bind (svc_iter (\<lambda>u. adb (publish_cache_event en (current_org_event u (Some oid) None [oid]))) affected) (\<lambda>_.
       adb (org_remove oid)))))"

definition delete_org :: "'p access_env \<Rightarrow> nat \<Rightarrow> nat \<Rightarrow> bool \<Rightarrow> ('p, unit) acc" where
  "delete_org en uid oid force =
     svc_bind (authorize_org_action en uid oid ''delete'') (\<lambda>_.
     svc_bind (adb (org_by_id oid)) (\<lambda>o'.
       if is_all_members_org o' then svc_throw (Biz CodeOrgBuiltinProtected)
       else svc_bind (adb (user_ids_by_current_org oid)) (\<lambda>affected.
       svc_bind (if force then svc_return ()
                 else svc_bind (adb (org_count_members oid)) (\<lambda>n.
                   if 1 < n then svc_throw (Biz CodeOrgHasMembers) else svc_return ())) (\<lambda>_.
         atx (delete_org_tx en uid oid affected)))))"

subsection \<open>Members\<close>

definition set_current_org_tx :: "'p access_env \<Rightarrow> nat \<Rightarrow> nat option \<Rightarrow> nat \<Rightarrow> ('p, unit) acc" where
  "set_current_org_tx en uid old oid =
     svc_bind (adb (user_update_current_org uid (Some oid))) (\<lambda>_.
       adb (publish_cache_event en (current_org_event uid old (Some oid) [oid])))"

definition set_current_org :: "'p access_env \<Rightarrow> nat \<Rightarrow> nat \<Rightarrow> ('p, unit) acc" where
  "set_current_org en uid oid =
     svc_bind (adb (user_by_id uid)) (\<lambda>u.
       (case u of
          None \<Rightarrow> svc_throw (Biz CodeUserNotFound)
        | Some u' \<Rightarrow>
            if au_current_org u' = Some oid then svc_return ()
            else svc_bind (awrap CodeOrgNotFound (org_by_id oid)) (\<lambda>_.
              svc_bind (adb (member_is_active uid oid)) (\<lambda>ok.
                if ok then atx (set_current_org_tx en uid (au_current_org u') oid)
                else svc_throw (Biz CodeNotOrgMember)))))"

text \<open>What a member that becomes active gets: the default role only, announced and cached.\<close>

definition reset_default_role :: "'p access_env \<Rightarrow> nat \<Rightarrow> nat \<Rightarrow> ('p, unit) acc" where
  "reset_default_role en uid oid =
     svc_bind (adb (role_delete_user_org uid oid)) (\<lambda>_.
     svc_bind (assign_default_org_role en uid oid) (\<lambda>_.
       adb (publish_subject_binding en uid oid)))"

definition join_org_tx :: "'p access_env \<Rightarrow> nat \<Rightarrow> nat option \<Rightarrow> nat \<Rightarrow> ('p, bool) acc" where
  "join_org_tx en uid old oid =
     svc_bind (adb (member_for_update oid uid)) (\<lambda>m.
     svc_bind (case m of
         None \<Rightarrow> svc_bind anow (\<lambda>t. svc_bind (adb (member_create (new_member oid uid t source_invite)))
                   (\<lambda>_. svc_return True))
       | Some m' \<Rightarrow>
           if mb_status m' = member_active then svc_return False
           else if mb_status m' = member_left \<or> mb_status m' = member_removed
           then svc_bind (adb (member_set_status oid uid member_active None '''' source_invite)) (\<lambda>_. svc_return True)
           else svc_throw (Biz CodeInvalidParams)) (\<lambda>reset.
     svc_bind (if reset then reset_default_role en uid oid else svc_return ()) (\<lambda>_.
     svc_bind (adb (user_update_current_org uid (Some oid))) (\<lambda>_.
     svc_bind (adb (publish_cache_event en (current_org_event uid old (Some oid) [oid]))) (\<lambda>_.
       svc_return reset)))))"

definition join_org_by_invite_code :: "'p access_env \<Rightarrow> nat \<Rightarrow> string \<Rightarrow> ('p, unit) acc" where
  "join_org_by_invite_code en uid code =
     (if trim_space code = [] then svc_throw (Biz CodeInvalidParams)
      else svc_bind (adb (user_by_id uid)) (\<lambda>u.
        (case u of
           None \<Rightarrow> svc_throw (Biz CodeUserNotFound)
         | Some u' \<Rightarrow>
             svc_bind (adb (org_by_code en (trim_space code))) (\<lambda>o'.
               (case o' of
                  None \<Rightarrow> svc_throw (Biz CodeInviteCodeInvalid)
                | Some og \<Rightarrow>
                    svc_bind (atx (join_org_tx en uid (au_current_org u') (ag_id og))) (\<lambda>sync.
                      if sync then awrap CodeInternalError (sync_subject_roles en uid (ag_id og))
                      else svc_return ()))))))"

text \<open>The end of leaving and of removing: the roles go, another organisation becomes current.\<close>

definition drop_member_tx :: "'p access_env \<Rightarrow> nat \<Rightarrow> nat \<Rightarrow> ('p, unit) acc" where
  "drop_member_tx en uid oid =
     svc_bind (adb (role_delete_user_org uid oid)) (\<lambda>_.
     svc_bind (adb (publish_subject_binding en uid oid)) (\<lambda>_.
     svc_bind (adb (user_by_id uid)) (\<lambda>u.
     svc_bind (case u of
         None \<Rightarrow> svc_return (user_snapshot_event uid [oid])
       | Some u' \<Rightarrow>
           if au_current_org u' = Some oid
           then svc_bind (adb (pick_another_active_org uid oid)) (\<lambda>next.
                svc_bind (adb (user_update_current_org uid next)) (\<lambda>_.
                  svc_return (current_org_event uid (Some oid) next [oid])))
           else svc_return (user_snapshot_event uid [oid])) (\<lambda>ev.
       adb (publish_cache_event en ev)))))"

definition leave_org_tx :: "'p access_env \<Rightarrow> nat \<Rightarrow> nat \<Rightarrow> string \<Rightarrow> ('p, unit) acc" where
  "leave_org_tx en uid oid reason =
     svc_bind (adb (member_for_update oid uid)) (\<lambda>m.
       (case m of
          None \<Rightarrow> svc_throw (Biz CodeNotOrgMember)
        | Some m' \<Rightarrow>
            if mb_status m' = member_left then svc_return ()
            else if mb_status m' = member_removed then svc_throw (Biz CodeOrgMemberRemoved)
            else svc_bind (adb (member_set_status oid uid member_left None reason '''')) (\<lambda>_.
              drop_member_tx en uid oid)))"

definition leave_org :: "'p access_env \<Rightarrow> nat \<Rightarrow> nat \<Rightarrow> string \<Rightarrow> ('p, unit) acc" where
  "leave_org en uid oid reason =
     svc_bind (awrap CodeOrgNotFound (org_by_id oid)) (\<lambda>o'.
       if is_all_members_org o' then svc_throw (Biz CodeOrgCannotLeaveBuiltin)
       else if ag_owner o' = uid then svc_throw (Biz CodeOrgOwnerTransferRequired)
       else svc_bind (atx (leave_org_tx en uid oid reason)) (\<lambda>_.
         awrap CodeInternalError (sync_subject_roles en uid oid)))"

definition kick_member_tx :: "'p access_env \<Rightarrow> nat \<Rightarrow> nat \<Rightarrow> nat \<Rightarrow> string \<Rightarrow> ('p, unit) acc" where
  "kick_member_tx en operator oid target reason =
     svc_bind (adb (member_for_update oid target)) (\<lambda>m.
       (case m of
          None \<Rightarrow> svc_throw (Biz CodeNotOrgMember)
        | Some m' \<Rightarrow>
            if mb_status m' = member_removed then svc_return ()
            else svc_bind (adb (member_set_status oid target member_removed (Some operator) reason '''')) (\<lambda>_.
              drop_member_tx en target oid)))"

definition kick_member :: "'p access_env \<Rightarrow> nat \<Rightarrow> nat \<Rightarrow> nat \<Rightarrow> string \<Rightarrow> ('p, unit) acc" where
  "kick_member en operator oid target reason =
     svc_bind (awrap CodeOrgNotFound (org_by_id oid)) (\<lambda>o'.
     svc_bind (authorize_member_action en operator oid ''kick'') (\<lambda>_.
       if is_all_members_org o' then svc_throw (Biz CodeOrgBuiltinProtected)
       else if target = ag_owner o' then svc_throw (Biz CodeOrgOwnerTransferRequired)
       else svc_bind (atx (kick_member_tx en operator oid target reason)) (\<lambda>_.
         awrap CodeInternalError (sync_subject_roles en target oid))))"

definition recover_member_tx :: "'p access_env \<Rightarrow> nat \<Rightarrow> nat \<Rightarrow> nat \<Rightarrow> string \<Rightarrow> ('p, bool) acc" where
  "recover_member_tx en operator oid target reason =
     svc_bind (adb (member_for_update oid target)) (\<lambda>m.
     svc_bind (case m of
         None \<Rightarrow> svc_bind anow (\<lambda>t. svc_bind (adb (member_create (new_member oid target t source_admin_recover)))
                   (\<lambda>_. svc_return True))
       | Some m' \<Rightarrow>
           if mb_status m' \<noteq> member_active
           then svc_bind (adb (member_set_status oid target member_active (Some operator) reason source_admin_recover))
                  (\<lambda>_. svc_return True)
           else svc_return False) (\<lambda>reset.
       if \<not> reset then svc_return False
       else svc_bind (reset_default_role en target oid) (\<lambda>_.
            svc_bind (adb (publish_cache_event en (user_snapshot_event target [oid]))) (\<lambda>_. svc_return True))))"

definition recover_member :: "'p access_env \<Rightarrow> nat \<Rightarrow> nat \<Rightarrow> nat \<Rightarrow> string \<Rightarrow> ('p, unit) acc" where
  "recover_member en operator oid target reason =
     svc_bind (awrap CodeOrgNotFound (org_by_id oid)) (\<lambda>o'.
     svc_bind (authorize_member_action en operator oid ''recover'') (\<lambda>_.
       if is_all_members_org o' then svc_throw (Biz CodeOrgBuiltinProtected)
       else svc_bind (atx (recover_member_tx en operator oid target reason)) (\<lambda>sync.
         if sync then awrap CodeInternalError (sync_subject_roles en target oid) else svc_return ())))"

end
