(* ===== verification/Access_User.thy ===== *)
theory Access_User
  imports Access_Org
begin

text \<open>
  The account service \<open>userSvc.go\<close>: registration, login, profile, phone number and password,
  the assignment of roles inside an organisation with its matrix of levels, and the life of an
  account from active over disabled to soft-deleted. Errors of \<open>errors.New\<close> are \<open>RawErr\<close>. A
  returned user comes with the super administrator flag that is not a column of its row.
\<close>

definition populate_super_admin :: "access_user option \<Rightarrow> ('p, (access_user \<times> bool) option) acc" where
  "populate_super_admin u =
     (case u of
        None \<Rightarrow> svc_return None
      | Some u' \<Rightarrow> svc_bind (adb (access_is_super_admin (au_id u'))) (\<lambda>b. svc_return (Some (u', b))))"

subsection \<open>Registration and login\<close>

record register_req =
  qr_name :: string
  qr_password :: string
  qr_phone :: string
  qr_code :: string

text \<open>
  The mapper writes the column default for a zero value: the signature below in UTF-8, and 1
  for the source of the registration, although the code sets \<open>consts.Email\<close>, which is 0.
\<close>

definition default_signature :: string where
  "default_signature =
     [CHR 0xE7, CHR 0xAD, CHR 0xBE, CHR 0xE5, CHR 0x90, CHR 0x8D, CHR 0xE6, CHR 0x98, CHR 0xAF,
      CHR 0xE7, CHR 0xA9, CHR 0xBA, CHR 0xE7, CHR 0x99, CHR 0xBD, CHR 0xE7, CHR 0x9A, CHR 0x84,
      CHR 0xEF, CHR 0xBC, CHR 0x8C, CHR 0xE8, CHR 0xBF, CHR 0x99, CHR 0xE4, CHR 0xBD, CHR 0x8D,
      CHR 0xE7, CHR 0x94, CHR 0xA8, CHR 0xE6, CHR 0x88, CHR 0xB7, CHR 0xE4, CHR 0xBC, CHR 0xBC,
      CHR 0xE4, CHR 0xB9, CHR 0x8E, CHR 0xE6, CHR 0xAF, CHR 0x94, CHR 0xE8, CHR 0xBE, CHR 0x83,
      CHR 0xE4, CHR 0xBD, CHR 0x8E, CHR 0xE8, CHR 0xB0, CHR 0x83, CHR 0xE3, CHR 0x80, CHR 0x82]"

definition new_user :: "'p access_env \<Rightarrow> register_req \<Rightarrow> string \<Rightarrow> nat \<Rightarrow> access_user" where
  "new_user en req uuid oid =
     \<lparr>au_id = 0, au_uuid = uuid, au_name = qr_name req, au_phone = qr_phone req,
      au_password = ae_hash en (qr_password req), au_email = '''', au_avatar = '''', au_avatar_id = None,
      au_address = '''', au_signature = default_signature, au_register = 1, au_freeze = False,
      au_status = user_active, au_disabled_at = None, au_disabled_by = None, au_disabled_reason = '''',
      au_current_org = Some oid, au_deleted = False\<rparr>"

definition register_tx ::
  "'p access_env \<Rightarrow> access_user \<Rightarrow> nat \<Rightarrow> nat \<Rightarrow> nat \<Rightarrow> ('p, nat) acc" where
  "register_tx en u target allorg role =
     svc_bind (adb (user_create en u)) (\<lambda>k.
     svc_bind anow (\<lambda>t.
     svc_bind (adb (member_create (new_member target k t source_register))) (\<lambda>_.
     svc_bind (if allorg \<noteq> target then adb (member_create (new_member allorg k t source_system_backfill))
               else svc_return 0) (\<lambda>_.
     svc_bind (adb (role_assign_in_org k target role)) (\<lambda>_.
     svc_bind (if allorg \<noteq> target then adb (role_assign_in_org k allorg role) else svc_return ()) (\<lambda>_.
     svc_bind (adb (publish_subject_binding en k target)) (\<lambda>_.
     svc_bind (if allorg \<noteq> target then adb (publish_subject_binding en k allorg) else svc_return ()) (\<lambda>_.
     svc_bind (adb (publish_cache_event en (user_snapshot_event k []))) (\<lambda>_.
       svc_return k)))))))))"

definition register :: "'p access_env \<Rightarrow> register_req \<Rightarrow> ('p, (access_user \<times> bool) option) acc" where
  "register en req =
     svc_bind (adb (user_exists_by_phone en (qr_phone req))) (\<lambda>ex.
     if ex then svc_throw (Biz CodePhoneAlreadyUsed)
     else if trim_space (qr_code req) = [] then svc_throw (Biz CodeInvalidParams)
     else svc_bind (adb (org_by_code en (trim_space (qr_code req)))) (\<lambda>target.
       (case target of
          None \<Rightarrow> svc_throw (Biz CodeInviteCodeInvalid)
        | Some tg \<Rightarrow>
            svc_bind (adb (org_by_builtin_key en org_builtin_key_all_members)) (\<lambda>allorg.
              (case allorg of
                 None \<Rightarrow> svc_throw (Biz CodeOrgNotFound)
               | Some al \<Rightarrow>
                   svc_bind (resolve_default_org_role en) (\<lambda>role.
                   svc_bind adraw (\<lambda>uuid.
                   svc_bind (atx (register_tx en (new_user en req uuid (ag_id tg)) (ag_id tg) (ag_id al) (ro_id role))) (\<lambda>k.
                   svc_bind (svc_try (sync_subject_roles en k (ag_id tg))) (\<lambda>_.
                   svc_bind (if ag_id al \<noteq> ag_id tg
                             then svc_bind (svc_try (sync_subject_roles en k (ag_id al))) (\<lambda>_. svc_return ())
                             else svc_return ()) (\<lambda>_.
                   svc_bind (adb (user_by_id k)) populate_super_admin)))))))))) "

record login_req =
  ql_phone :: string
  ql_password :: string
  ql_captcha :: string
  ql_captcha_id :: string

definition phone_login :: "'p access_env \<Rightarrow> login_req \<Rightarrow> ('p, (access_user \<times> bool) option) acc" where
  "phone_login en req =
     (if \<not> ae_captcha en (ql_captcha_id req) (ql_captcha req) then svc_throw RawErr
      else svc_bind (user_by_phone en (ql_phone req)) (\<lambda>u.
        (case u of
           None \<Rightarrow> svc_throw RawErr
         | Some u' \<Rightarrow>
             if \<not> ae_hash_check en (ql_password req) (au_password u') then svc_throw RawErr
             else if au_freeze u' \<or> au_status u' \<noteq> user_active then svc_throw (Biz CodeUserDisabled)
             else populate_super_admin (Some u'))))"

subsection \<open>Profile\<close>

record profile_req =
  qp_name :: "string option"
  qp_signature :: "string option"
  qp_avatar :: "string option"
  qp_avatar_id :: "nat option"

definition changed_profile :: "profile_req \<Rightarrow> (string \<times> nat option) option \<Rightarrow> access_user \<Rightarrow> access_user" where
  "changed_profile req pair u =
     (let u1 = (case qp_name req of Some s \<Rightarrow> if s \<noteq> [] then u\<lparr>au_name := s\<rparr> else u | None \<Rightarrow> u);
          u2 = (case qp_signature req of Some s \<Rightarrow> u1\<lparr>au_signature := s\<rparr> | None \<Rightarrow> u1)
      in (case pair of Some (a, i) \<Rightarrow> u2\<lparr>au_avatar := a, au_avatar_id := i\<rparr> | None \<Rightarrow> u2))"

definition profile_name_given :: "profile_req \<Rightarrow> bool" where
  "profile_name_given req \<longleftrightarrow> (case qp_name req of Some s \<Rightarrow> s \<noteq> [] | None \<Rightarrow> False)"

text \<open>
  The event at the end is published when the projection changed, but the code returns before
  it when no avatar is given: a new name alone publishes nothing.
\<close>

definition update_profile_tx :: "'p access_env \<Rightarrow> nat \<Rightarrow> profile_req \<Rightarrow> ('p, access_user) acc" where
  "update_profile_tx en uid req =
     svc_bind (adb (user_by_id uid)) (\<lambda>u.
       (case u of
          None \<Rightarrow> svc_throw (Biz CodeUserNotFound)
        | Some u0 \<Rightarrow>
            svc_bind (svc_lift (parse_avatar_pair en (qp_avatar req) (qp_avatar_id req))) (\<lambda>pair.
              let u1 = changed_profile req pair u0
              in if \<not> profile_name_given req \<and> qp_signature req = None \<and> pair = None then svc_return u0
                 else svc_bind (adb (user_update en u1)) (\<lambda>_.
                   (case pair of
                      None \<Rightarrow> svc_return u1
                    | Some (a, i) \<Rightarrow>
                        svc_bind (update_avatar_images (au_avatar_id u0) i) (\<lambda>_.
                        svc_bind (adb (publish_cache_event en (user_snapshot_event uid []))) (\<lambda>_.
                          svc_return u1)))))))"

definition update_profile :: "'p access_env \<Rightarrow> nat \<Rightarrow> profile_req \<Rightarrow> ('p, (access_user \<times> bool) option) acc" where
  "update_profile en uid req = svc_bind (atx (update_profile_tx en uid req)) (\<lambda>u. populate_super_admin (Some u))"

record phone_req =
  qh_phone :: string
  qh_password :: string
  qh_captcha :: string
  qh_captcha_id :: string

definition change_phone :: "'p access_env \<Rightarrow> nat \<Rightarrow> phone_req \<Rightarrow> ('p, (access_user \<times> bool) option) acc" where
  "change_phone en uid req =
     (if \<not> ae_captcha en (qh_captcha_id req) (qh_captcha req) then svc_throw RawErr
      else svc_bind (user_by_id uid) (\<lambda>u.
        (case u of
           None \<Rightarrow> svc_throw RawErr
         | Some u' \<Rightarrow>
             if \<not> ae_hash_check en (qh_password req) (au_password u') then svc_throw RawErr
             else svc_bind (user_exists_by_phone en (qh_phone req)) (\<lambda>ex.
               if ex then svc_throw RawErr
               else svc_bind (user_update en (u'\<lparr>au_phone := qh_phone req\<rparr>)) (\<lambda>_.
                 populate_super_admin (Some (u'\<lparr>au_phone := qh_phone req\<rparr>)))))))"

definition change_password :: "'p access_env \<Rightarrow> nat \<Rightarrow> string \<Rightarrow> string \<Rightarrow> ('p, unit) acc" where
  "change_password en uid old new =
     svc_bind (user_by_id uid) (\<lambda>u.
       (case u of
          None \<Rightarrow> svc_throw RawErr
        | Some u' \<Rightarrow>
            if \<not> ae_hash_check en old (au_password u') then svc_throw RawErr
            else user_update en (u'\<lparr>au_password := ae_hash en new\<rparr>)))"

definition get_user_detail :: "nat \<Rightarrow> ('p, (access_user \<times> bool) option) acc" where
  "get_user_detail k = svc_bind (user_by_id k) populate_super_admin"

subsection \<open>Roles of a member\<close>

datatype matrix_level = LevelSuperAdmin | LevelOrgAdmin | LevelMember

definition matrix_level_for_role :: "string \<Rightarrow> matrix_level" where
  "matrix_level_for_role code =
     (if code = role_super_admin then LevelSuperAdmin
      else if code = role_code_org_admin then LevelOrgAdmin else LevelMember)"

datatype disabled_reason = GlobalRoleOnly | HigherMatrixLevel

definition matrix_assignable :: "matrix_level \<Rightarrow> string \<Rightarrow> bool \<times> disabled_reason option" where
  "matrix_assignable level code =
     (if code = role_super_admin then (False, Some GlobalRoleOnly)
      else if level = LevelMember \<and> matrix_level_for_role code = LevelOrgAdmin then (False, Some HigherMatrixLevel)
      else (True, None))"

definition matrix_sort_weight :: "string \<Rightarrow> nat" where
  "matrix_sort_weight code =
     (if code = role_super_admin then 0 else if code = role_code_org_admin then 1
      else if code = role_code_member then 2 else 3)"

definition resolve_operator_level :: "nat \<Rightarrow> nat \<Rightarrow> ('p, matrix_level) acc" where
  "resolve_operator_level operator oid =
     svc_bind (adb (role_user_global_roles operator)) (\<lambda>gl.
       if \<exists>r \<in> set gl. ro_code r = role_super_admin then svc_return LevelSuperAdmin
       else svc_bind (adb (org_by_id oid)) (\<lambda>o'.
         if ag_owner o' = operator then svc_return LevelOrgAdmin
         else svc_bind (adb (role_user_roles_by_org operator oid)) (\<lambda>rs.
           svc_return (if \<exists>r \<in> set rs. ro_code r = role_code_org_admin then LevelOrgAdmin else LevelMember))))"

record matrix_item =
  mx_role :: access_role
  mx_builtin :: bool
  mx_level :: matrix_level
  mx_assignable :: bool
  mx_reason :: "disabled_reason option"

record role_matrix =
  rx_assigned :: "nat list"
  rx_level :: matrix_level
  rx_roles :: "matrix_item list"

definition builtin_role_codes :: "string list" where
  "builtin_role_codes = [role_super_admin, role_code_org_admin, role_code_member]"

definition is_builtin_role :: "string \<Rightarrow> bool" where
  "is_builtin_role code \<longleftrightarrow> code \<in> set builtin_role_codes"

definition matrix_role_item :: "matrix_level \<Rightarrow> access_role \<Rightarrow> matrix_item" where
  "matrix_role_item level r =
     \<lparr>mx_role = r, mx_builtin = is_builtin_role (ro_code r), mx_level = matrix_level_for_role (ro_code r),
      mx_assignable = fst (matrix_assignable level (ro_code r)),
      mx_reason = snd (matrix_assignable level (ro_code r))\<rparr>"

definition collect_user_role_ids :: "access_role list \<Rightarrow> nat list" where
  "collect_user_role_ids rs = sort (filter (\<lambda>k. k \<noteq> 0) (map ro_id rs))"

definition build_user_role_matrix :: "'p access_env \<Rightarrow> nat \<Rightarrow> nat \<Rightarrow> nat \<Rightarrow> ('p, role_matrix) acc" where
  "build_user_role_matrix en operator target oid =
     (if operator = 0 \<or> target = 0 \<or> oid = 0 then svc_throw (Biz CodeInvalidParams)
      else svc_bind (adb (user_by_id target)) (\<lambda>u.
        if u = None then svc_throw (Biz CodeUserNotFound)
        else svc_bind (access_authorize en operator oid cap_member_assign_role) (\<lambda>_.
          svc_bind (adb (member_is_active target oid)) (\<lambda>active.
            if \<not> active then svc_throw (Biz CodeOrgMemberStatusConflict)
            else svc_bind (resolve_operator_level operator oid) (\<lambda>level.
              svc_bind (adb (role_user_roles_by_org target oid)) (\<lambda>assigned.
              svc_bind (adb role_active_roles) (\<lambda>roles.
                svc_return \<lparr>rx_assigned = collect_user_role_ids assigned, rx_level = level,
                  rx_roles = map (matrix_role_item level)
                    (sort_key (\<lambda>r. (matrix_sort_weight (ro_code r), ro_id r))
                      (filter (\<lambda>r. ro_id r \<noteq> 0) roles))\<rparr>)))))))"

fun check_role_ids :: "matrix_item list \<Rightarrow> nat list \<Rightarrow> go_err + unit" where
  "check_role_ids items [] = Inr ()"
| "check_role_ids items (k # ks) =
     (case find (\<lambda>i. ro_id (mx_role i) = k) items of
        None \<Rightarrow> Inl (Biz CodeRoleNotFound)
      | Some i \<Rightarrow> if mx_assignable i then check_role_ids items ks else Inl (Biz CodePermissionDenied))"

definition normalize_user_role_ids :: "nat list \<Rightarrow> nat list" where
  "normalize_user_role_ids ids = uniq_by id [] (filter (\<lambda>k. k \<noteq> 0) ids)"

definition assign_role_tx :: "'p access_env \<Rightarrow> nat \<Rightarrow> nat \<Rightarrow> nat list \<Rightarrow> ('p, unit) acc" where
  "assign_role_tx en uid oid ids =
     svc_bind (adb (role_replace_user_org uid oid ids)) (\<lambda>_. adb (publish_subject_binding en uid oid))"

definition assign_role :: "'p access_env \<Rightarrow> nat \<Rightarrow> nat \<Rightarrow> nat \<Rightarrow> nat list \<Rightarrow> ('p, unit) acc" where
  "assign_role en operator uid oid ids =
     (if uid = 0 \<or> oid = 0 then svc_throw (Biz CodeInvalidParams)
      else svc_bind (build_user_role_matrix en operator uid oid) (\<lambda>mx.
        svc_bind (svc_lift (check_role_ids (rx_roles mx) ids)) (\<lambda>_.
        svc_bind (atx (assign_role_tx en uid oid (normalize_user_role_ids ids))) (\<lambda>_.
          awrap CodeInternalError (sync_subject_roles en uid oid)))))"

subsection \<open>Disabling, enabling and cleaning up accounts\<close>

definition nil_uuid :: string where
  "nil_uuid = ''00000000-0000-0000-0000-000000000000''"

definition apply_user_status_tx :: "'p access_env \<Rightarrow> nat \<Rightarrow> int \<Rightarrow> nat option \<Rightarrow> string \<Rightarrow> ('p, unit) acc" where
  "apply_user_status_tx en target st operator reason =
     svc_bind (adb (user_update_status target st operator (trim_space reason))) (\<lambda>_.
       adb (publish_cache_event en (user_snapshot_event target [])))"

definition apply_user_status :: "'p access_env \<Rightarrow> nat \<Rightarrow> nat \<Rightarrow> int \<Rightarrow> string \<Rightarrow> ('p, unit) acc" where
  "apply_user_status en operator target st reason =
     svc_bind (adb (user_by_id target)) (\<lambda>u.
       (case u of
          None \<Rightarrow> svc_throw (Biz CodeUserNotFound)
        | Some t \<Rightarrow>
            if au_status t = st then adb (publish_cache_event en (user_snapshot_event target []))
            else svc_bind (atx (apply_user_status_tx en target st (if 0 < operator then Some operator else None) reason)) (\<lambda>_.
              if ae_redis en \<and> au_uuid t \<noteq> nil_uuid
              then awrap CodeRedisError (acall (\<lambda>w. ((), w\<lparr>aw_sessions := removeAll (au_uuid t) (aw_sessions w)\<rparr>)))
              else svc_return ())))"

definition deactivate_account :: "'p access_env \<Rightarrow> nat \<Rightarrow> string option \<Rightarrow> ('p, unit) acc" where
  "deactivate_account en uid reason =
     apply_user_status en uid uid user_disabled (case reason of None \<Rightarrow> '''' | Some r \<Rightarrow> r)"

definition update_user_status :: "'p access_env \<Rightarrow> nat \<Rightarrow> nat \<Rightarrow> (string \<times> string) option \<Rightarrow> ('p, unit) acc" where
  "update_user_status en operator target req =
     (case req of
        None \<Rightarrow> svc_throw (Biz CodeInvalidParams)
      | Some (status, reason) \<Rightarrow>
          (let s = ae_lower en (trim_space status)
           in if s = ''active'' then apply_user_status en operator target user_active reason
              else if s = ''disabled'' then apply_user_status en operator target user_disabled reason
              else svc_throw (Biz CodeInvalidParams)))"

definition cleanup_org_tx :: "'p access_env \<Rightarrow> nat \<Rightarrow> nat \<Rightarrow> ('p, unit) acc" where
  "cleanup_org_tx en uid oid =
     svc_bind (adb (member_set_status oid uid member_removed None ''disabled_cleanup'' '''')) (\<lambda>_.
     svc_bind (adb (role_delete_user_org uid oid)) (\<lambda>_.
       adb (publish_subject_binding en uid oid)))"

definition cleanup_user_tx :: "'p access_env \<Rightarrow> nat \<Rightarrow> nat option \<Rightarrow> nat list \<Rightarrow> ('p, unit) acc" where
  "cleanup_user_tx en uid current orgs =
     svc_bind (svc_iter (cleanup_org_tx en uid) orgs) (\<lambda>_.
     svc_bind (user_soft_delete_anonymize en uid) (\<lambda>_.
       adb (publish_cache_event en (user_deleted_event uid current orgs))))"

definition cleanup_user :: "'p access_env \<Rightarrow> access_user \<Rightarrow> ('p, unit) acc" where
  "cleanup_user en u =
     svc_bind (adb (member_active_org_ids (au_id u))) (\<lambda>orgs.
     svc_bind (atx (cleanup_user_tx en (au_id u) (au_current_org u) orgs)) (\<lambda>_.
       svc_iter (\<lambda>k. awrap CodeInternalError (sync_subject_roles en (au_id u) k)) orgs))"

text \<open>The number of cleaned accounts; with an error the code returns the number so far as well.\<close>

definition cleanup_disabled_users :: "'p access_env \<Rightarrow> ('p, nat) acc" where
  "cleanup_disabled_users en =
     (if \<not> ae_cleanup en then svc_return 0
      else svc_bind anow (\<lambda>t.
        svc_bind (adb (user_disabled_before
          (t - (if ae_retention_days en \<le> 0 then 30 else ae_retention_days en) * 86400000000000) 200)) (\<lambda>us.
        svc_bind (svc_iter (cleanup_user en) (filter (\<lambda>u. au_id u \<noteq> 0) us)) (\<lambda>_.
          svc_return (length (filter (\<lambda>u. au_id u \<noteq> 0) us))))))"

end
