(* ===== verification/Access_Admin.thy ===== *)
theory Access_Admin
  imports Access_User
begin

text \<open>
  The administration of roles, menus and APIs: \<open>roleSvc.go\<close>, \<open>menuSvc.go\<close> and \<open>apiSvc.go\<close>.
  Every command that changes what a role may use appends a permission graph event in its
  transaction. The menu tree is built by the recursion of the code with a fuel argument, and
  \<open>None\<close> when it runs out; a fuel of one more than the number of menus is always enough
  (theory \<open>Access_Menu_Tree\<close>).
\<close>

subsection \<open>Roles\<close>

record create_role_req =
  qo_name :: string
  qo_code :: string
  qo_desc :: string

record update_role_req =
  qv_name :: "string option"
  qv_code :: "string option"
  qv_desc :: "string option"
  qv_status :: "int option"

definition create_role :: "'p access_env \<Rightarrow> create_role_req \<Rightarrow> ('p, unit) acc" where
  "create_role en req =
     (let name = trim_space (qo_name req); code = trim_space (qo_code req)
      in if name = [] \<or> code = [] then svc_throw (Biz CodeInvalidParams)
         else svc_bind (adb (role_exists_by_code en code)) (\<lambda>ex.
           if ex then svc_throw (Biz CodeRoleAlreadyExists)
           else svc_bind (adb (role_create en \<lparr>ro_id = 0, ro_name = name, ro_code = code, ro_status = 1,
                  ro_desc = trim_space (qo_desc req), ro_deleted = False\<rparr>)) (\<lambda>_. svc_return ())))"

definition update_role_code :: "'p access_env \<Rightarrow> nat \<Rightarrow> string option \<Rightarrow> access_role \<Rightarrow> ('p, access_role) acc" where
  "update_role_code en k code r =
     (case code of
        None \<Rightarrow> svc_return r
      | Some s \<Rightarrow>
          if trim_space s \<noteq> ro_code r
          then svc_bind (adb (role_exists_by_code_exclude en (trim_space s) k)) (\<lambda>ex.
            if ex then svc_throw (Biz CodeRoleAlreadyExists) else svc_return (r\<lparr>ro_code := trim_space s\<rparr>))
          else svc_return r)"

definition update_role_tx :: "'p access_env \<Rightarrow> access_role \<Rightarrow> ('p, unit) acc" where
  "update_role_tx en r =
     svc_bind (adb (role_save en r)) (\<lambda>_. adb (publish_permission_graph en ''role'' (ro_id r)))"

definition update_role :: "'p access_env \<Rightarrow> nat \<Rightarrow> update_role_req \<Rightarrow> ('p, unit) acc" where
  "update_role en k req =
     svc_bind (adb (role_by_id k)) (\<lambda>r.
       if ro_id r = 0 then svc_throw (Biz CodeRoleNotFound)
       else if is_builtin_role (ro_code r) \<and> qv_code req \<noteq> None \<and> qv_code req \<noteq> Some (ro_code r)
       then svc_throw (Biz CodeInvalidParams)
       else svc_bind (update_role_code en k (qv_code req)
              (case qv_name req of None \<Rightarrow> r | Some s \<Rightarrow> r\<lparr>ro_name := trim_space s\<rparr>)) (\<lambda>r1.
         let r2 = (case qv_desc req of None \<Rightarrow> r1 | Some s \<Rightarrow> r1\<lparr>ro_desc := trim_space s\<rparr>);
             r3 = (case qv_status req of None \<Rightarrow> r2 | Some s \<Rightarrow> r2\<lparr>ro_status := s\<rparr>)
         in atx (update_role_tx en r3)))"

definition delete_role_tx :: "'p access_env \<Rightarrow> nat \<Rightarrow> ('p, unit) acc" where
  "delete_role_tx en k =
     svc_bind (adb (role_clear_menus k)) (\<lambda>_.
     svc_bind (adb (role_clear_apis k)) (\<lambda>_.
     svc_bind (adb (role_remove k)) (\<lambda>_.
       adb (publish_permission_graph en ''role'' k))))"

definition delete_role :: "'p access_env \<Rightarrow> nat \<Rightarrow> ('p, unit) acc" where
  "delete_role en k =
     svc_bind (adb (role_by_id k)) (\<lambda>r.
       if ro_id r = 0 then svc_throw (Biz CodeRoleNotFound)
       else if is_builtin_role (ro_code r) then svc_throw (Biz CodeInvalidParams)
       else svc_bind (adb (role_is_in_use k)) (\<lambda>used.
         if used then svc_throw (Biz CodeInvalidParams) else atx (delete_role_tx en k)))"

subsection \<open>What a role may use\<close>

definition role_permission_lock :: "('p, unit) acc" where
  "role_permission_lock w =
     (case aw_lock w (aw_step w) of
        LockTaken \<Rightarrow> (Inr (), atick w)
      | LockBusy \<Rightarrow> (Inl (Biz CodeTooManyRequests), atick w)
      | LockError \<Rightarrow> (Inl (Biz CodeRedisError), atick w))"

fun filter_valid_menu_ids :: "nat list \<Rightarrow> ('p, nat list) acc" where
  "filter_valid_menu_ids [] = svc_return []"
| "filter_valid_menu_ids (k # ks) =
     svc_bind (adb (menu_find k)) (\<lambda>m.
     svc_bind (filter_valid_menu_ids ks) (\<lambda>rest.
       svc_return (case m of None \<Rightarrow> rest | Some m' \<Rightarrow> if 0 < mu_id m' then k # rest else rest)))"

fun filter_valid_api_ids :: "nat list \<Rightarrow> ('p, nat list) acc" where
  "filter_valid_api_ids [] = svc_return []"
| "filter_valid_api_ids (k # ks) =
     svc_bind (adb (api_find k)) (\<lambda>a.
     svc_bind (filter_valid_api_ids ks) (\<lambda>rest.
       svc_return (case a of None \<Rightarrow> rest
                           | Some a' \<Rightarrow> if 0 < ap_id a' \<and> is_projectable_api a' then k # rest else rest)))"

definition normalize_capability_codes :: "string list \<Rightarrow> string list" where
  "normalize_capability_codes codes = sort (uniq_by id [] (filter (\<lambda>c. c \<noteq> []) (map trim_space codes)))"

definition filter_valid_capability_codes :: "'p access_env \<Rightarrow> string list \<Rightarrow> ('p, access_capability list) acc" where
  "filter_valid_capability_codes en codes =
     (let norm = normalize_capability_codes codes
      in if norm = [] then svc_return []
         else svc_bind (adb (cap_by_codes en norm)) (\<lambda>caps.
           if length caps \<noteq> length norm then svc_throw (Biz CodeInvalidParams) else svc_return caps))"

definition assign_permissions_tx ::
  "'p access_env \<Rightarrow> nat \<Rightarrow> nat list \<Rightarrow> nat list \<Rightarrow> nat list \<Rightarrow> ('p, unit) acc" where
  "assign_permissions_tx en k menus apis caps =
     svc_bind (adb (role_replace_permissions k menus apis)) (\<lambda>_.
     svc_bind (adb (cap_replace_role k caps)) (\<lambda>_.
       adb (publish_permission_graph en ''role'' k)))"

definition assign_permissions ::
  "'p access_env \<Rightarrow> nat \<Rightarrow> nat list \<Rightarrow> nat list \<Rightarrow> string list \<Rightarrow> ('p, unit) acc" where
  "assign_permissions en k menus apis codes =
     (if k = 0 then svc_throw (Biz CodeInvalidParams)
      else svc_bind role_permission_lock (\<lambda>_.
        svc_bind (adb (role_by_id k)) (\<lambda>r.
          if ro_id r = 0 then svc_throw (Biz CodeRoleNotFound)
          else svc_bind (filter_valid_menu_ids (normalize_ids menus)) (\<lambda>ms.
            svc_bind (filter_valid_api_ids (normalize_ids apis)) (\<lambda>as.
            svc_bind (filter_valid_capability_codes en codes) (\<lambda>cs.
              atx (assign_permissions_tx en k ms as (map cp_id cs))))))))"

subsection \<open>Menus\<close>

record menu_req =
  qm_parent :: nat
  qm_name :: string
  qm_code :: string
  qm_type :: int
  qm_icon :: string
  qm_route_name :: string
  qm_route_path :: string
  qm_route_param :: string
  qm_component :: string
  qm_status :: int
  qm_sort :: int
  qm_desc :: string

definition new_menu :: "menu_req \<Rightarrow> access_menu" where
  "new_menu req =
     \<lparr>mu_id = 0, mu_parent = qm_parent req, mu_name = trim_space (qm_name req), mu_code = trim_space (qm_code req),
      mu_icon = qm_icon req, mu_type = (if qm_type req = 0 then 1 else qm_type req),
      mu_route_name = qm_route_name req, mu_route_path = qm_route_path req,
      mu_route_param = qm_route_param req, mu_component = qm_component req,
      mu_status = (if qm_status req = 0 then 1 else qm_status req), mu_sort = qm_sort req,
      mu_desc = qm_desc req, mu_deleted = False\<rparr>"

definition create_menu :: "'p access_env \<Rightarrow> menu_req \<Rightarrow> ('p, unit) acc" where
  "create_menu en req =
     (if trim_space (qm_code req) = [] \<or> trim_space (qm_name req) = [] then svc_throw (Biz CodeInvalidParams)
      else svc_bind (adb (menu_exists_by_code en (trim_space (qm_code req)))) (\<lambda>ex.
        if ex then svc_throw (Biz CodeMenuCodeDuplicate)
        else svc_bind (if 0 < qm_parent req
                       then svc_bind (awrap CodeInvalidParams (menu_by_id (qm_parent req))) (\<lambda>p.
                              if mu_id p = 0 then svc_throw (Biz CodeInvalidParams) else svc_return ())
                       else svc_return ()) (\<lambda>_.
          svc_bind (adb (menu_create (new_menu req))) (\<lambda>_. svc_return ()))))"

record update_menu_req =
  qn_parent :: "nat option"
  qn_name :: "string option"
  qn_code :: "string option"
  qn_type :: "int option"
  qn_icon :: "string option"
  qn_route_name :: "string option"
  qn_route_path :: "string option"
  qn_route_param :: "string option"
  qn_component :: "string option"
  qn_status :: "int option"
  qn_sort :: "int option"
  qn_desc :: "string option"

definition given :: "'a option \<Rightarrow> 'a \<Rightarrow> 'a" where
  "given x old = (case x of None \<Rightarrow> old | Some v \<Rightarrow> v)"

definition patched_menu :: "update_menu_req \<Rightarrow> string \<Rightarrow> access_menu \<Rightarrow> access_menu" where
  "patched_menu req code m =
     m\<lparr>mu_parent := given (qn_parent req) (mu_parent m),
       mu_name := given (map_option trim_space (qn_name req)) (mu_name m), mu_code := code,
       mu_type := given (qn_type req) (mu_type m), mu_icon := given (qn_icon req) (mu_icon m),
       mu_route_name := given (qn_route_name req) (mu_route_name m),
       mu_route_path := given (qn_route_path req) (mu_route_path m),
       mu_route_param := given (qn_route_param req) (mu_route_param m),
       mu_component := given (qn_component req) (mu_component m),
       mu_status := given (qn_status req) (mu_status m), mu_sort := given (qn_sort req) (mu_sort m),
       mu_desc := given (qn_desc req) (mu_desc m)\<rparr>"

definition update_menu_tx :: "'p access_env \<Rightarrow> access_menu \<Rightarrow> ('p, unit) acc" where
  "update_menu_tx en m =
     svc_bind (adb (menu_save m)) (\<lambda>_. adb (publish_permission_graph en ''menu'' (mu_id m)))"

definition update_menu :: "'p access_env \<Rightarrow> nat \<Rightarrow> update_menu_req \<Rightarrow> ('p, unit) acc" where
  "update_menu en k req =
     svc_bind (adb (menu_by_id k)) (\<lambda>m.
       if mu_id m = 0 then svc_throw (Biz CodeMenuNotFound)
       else if qn_parent req = Some k then svc_throw (Biz CodeInvalidParams)
       else svc_bind
         (case qn_code req of
            None \<Rightarrow> svc_return (mu_code m)
          | Some s \<Rightarrow>
              if trim_space s \<noteq> mu_code m
              then svc_bind (adb (menu_exists_by_code en (trim_space s))) (\<lambda>ex.
                if ex then svc_throw (Biz CodeMenuCodeDuplicate) else svc_return (trim_space s))
              else svc_return (mu_code m)) (\<lambda>code.
         atx (update_menu_tx en (patched_menu req code m))))"

definition delete_menu_tx :: "'p access_env \<Rightarrow> nat \<Rightarrow> ('p, unit) acc" where
  "delete_menu_tx en k =
     svc_bind (adb (menu_clear_apis k)) (\<lambda>_.
     svc_bind (adb (menu_remove k)) (\<lambda>_. adb (publish_permission_graph en ''menu'' k)))"

definition delete_menu :: "'p access_env \<Rightarrow> nat \<Rightarrow> ('p, unit) acc" where
  "delete_menu en k =
     svc_bind (adb (menu_by_id k)) (\<lambda>m.
       if mu_id m = 0 then svc_throw (Biz CodeMenuNotFound)
       else svc_bind (adb (menu_has_children k)) (\<lambda>c.
         if c then svc_throw (Biz CodeMenuHasChildren) else atx (delete_menu_tx en k)))"

text \<open>An API whose lookup fails is left out of the binding like one that does not exist.\<close>

fun bindable_api_ids :: "nat list \<Rightarrow> ('p, nat list) acc" where
  "bindable_api_ids [] = svc_return []"
| "bindable_api_ids (k # ks) =
     svc_bind (svc_try (api_by_id k)) (\<lambda>a.
     svc_bind (bindable_api_ids ks) (\<lambda>rest.
       svc_return (case a of Inl e \<Rightarrow> rest
                           | Inr a' \<Rightarrow> if 0 < ap_id a' \<and> is_projectable_api a' then k # rest else rest)))"

definition bind_apis_tx :: "'p access_env \<Rightarrow> nat \<Rightarrow> nat list \<Rightarrow> ('p, unit) acc" where
  "bind_apis_tx en k ids =
     svc_bind (adb (menu_replace_apis_single k ids)) (\<lambda>_. adb (publish_permission_graph en ''menu'' k))"

definition bind_apis :: "'p access_env \<Rightarrow> nat \<Rightarrow> nat list \<Rightarrow> ('p, unit) acc" where
  "bind_apis en k ids =
     svc_bind (adb (menu_by_id k)) (\<lambda>m.
       if mu_id m = 0 then svc_throw (Biz CodeMenuNotFound)
       else svc_bind (bindable_api_ids (uniq_by id [] (filter (\<lambda>a. a \<noteq> 0) ids))) (\<lambda>valid.
         atx (bind_apis_tx en k valid)))"

subsection \<open>The menu tree\<close>

datatype menu_node = MenuNode (node_menu: access_menu) (node_children: "menu_node list")

fun build_tree :: "nat \<Rightarrow> access_menu list \<Rightarrow> nat \<Rightarrow> menu_node list option" where
  "build_tree 0 menus parent = None"
| "build_tree (Suc n) menus parent =
     map_option (sort_key (\<lambda>t. mu_sort (node_menu t)))
       (those (map (\<lambda>m. map_option (MenuNode m) (build_tree n menus (mu_id m)))
         (filter (\<lambda>m. mu_parent m = parent) menus)))"

text \<open>\<open>buildRoleMenuTree\<close>: as deep as \<open>maxLevel\<close>, ties of the order broken by key.\<close>

fun build_role_menu_tree :: "nat \<Rightarrow> access_menu list \<Rightarrow> nat \<Rightarrow> int \<Rightarrow> int option \<Rightarrow> menu_node list option" where
  "build_role_menu_tree 0 menus parent depth lim = None"
| "build_role_menu_tree (Suc n) menus parent depth lim =
     map_option (sort_key (\<lambda>t. (mu_sort (node_menu t), mu_id (node_menu t))))
       (those (map (\<lambda>m. map_option (MenuNode m)
          (if (case lim of None \<Rightarrow> True | Some l \<Rightarrow> depth < l)
           then build_role_menu_tree n menus (mu_id m) (depth + 1) lim else Some []))
         (filter (\<lambda>m. mu_parent m = parent) menus)))"

definition tree_fuel :: "access_menu list \<Rightarrow> nat" where
  "tree_fuel menus = Suc (length menus)"

definition get_menu_tree :: "('p, menu_node list option) acc" where
  "get_menu_tree = svc_bind (adb menu_all) (\<lambda>ms. svc_return (build_tree (tree_fuel ms) ms 0))"

definition get_my_menus :: "nat \<Rightarrow> nat option \<Rightarrow> ('p, menu_node list option) acc" where
  "get_my_menus uid oid =
     svc_bind (svc_try (role_user_global_roles uid)) (\<lambda>gl.
       if (case gl of Inl e \<Rightarrow> False | Inr rs \<Rightarrow> \<exists>r \<in> set rs. ro_code r = role_super_admin)
       then svc_bind (adb menu_active) (\<lambda>ms. svc_return (build_tree (tree_fuel ms) ms 0))
       else svc_bind
         (if option_or_zero oid = 0
          then svc_bind (adb (user_by_id uid)) (\<lambda>u.
            (case u of
               None \<Rightarrow> svc_throw (Biz CodeUserNotFound)
             | Some u' \<Rightarrow> if option_or_zero (au_current_org u') = 0 then svc_throw (Biz CodeInvalidParams)
                          else svc_return (option_or_zero (au_current_org u'))))
          else svc_return (option_or_zero oid)) (\<lambda>k.
         svc_bind (awrap CodeOrgNotFound (org_by_id k)) (\<lambda>_.
         svc_bind (adb (org_is_user_in uid k)) (\<lambda>m.
           if \<not> m then svc_throw (Biz CodeNotOrgMember)
           else svc_bind (adb (menu_by_user uid k)) (\<lambda>ms.
             let act = filter (\<lambda>m. mu_status m = 1) ms
             in svc_return (build_tree (tree_fuel act) act 0))))))"

end
