(* ===== verification/Access_Api.thy ===== *)
theory Access_Api
  imports Access_Admin
begin

text \<open>
  The API service \<open>apiSvc.go\<close>: single APIs, and the synchronisation of the table with the
  routes of the HTTP router, which registers new routes, brings missing ones back and marks
  those without a route as missing. The overview of what a role may use closes \<open>roleSvc.go\<close>.
\<close>

subsection \<open>Single APIs\<close>

record create_api_req =
  qa_path :: string
  qa_method :: string
  qa_detail :: string
  qa_status :: int
  qa_menu :: nat

definition get_api_by_id :: "nat \<Rightarrow> ('p, access_api \<times> access_menu option) acc" where
  "get_api_by_id k =
     svc_bind (adb (api_by_id k)) (\<lambda>a.
     svc_bind (adb (aread (\<lambda>d. find (\<lambda>m. \<exists>x \<in> set (ad_menu_apis d). ma_api x = k \<and> ma_menu x = mu_id m)
                                (live_menus d)))) (\<lambda>m.
       svc_return (a, m)))"

definition create_api_tx :: "'p access_env \<Rightarrow> access_api \<Rightarrow> nat \<Rightarrow> ('p, unit) acc" where
  "create_api_tx en a menu =
     svc_bind (adb (api_create_with_menu en a menu)) (\<lambda>k. adb (publish_permission_graph en ''api'' k))"

definition create_api :: "'p access_env \<Rightarrow> create_api_req \<Rightarrow> ('p, unit) acc" where
  "create_api en req =
     (let path = trim_space (qa_path req); method = trim_space (ae_upper en (qa_method req))
      in if path = [] \<or> method = [] \<or> qa_menu req = 0 then svc_throw (Biz CodeInvalidParams)
         else svc_bind (adb (menu_by_id (qa_menu req))) (\<lambda>m.
           if mu_id m = 0 then svc_throw (Biz CodeMenuNotFound)
           else svc_bind (adb (api_exists_by_path_method en path method)) (\<lambda>ex.
             if ex then svc_throw (Biz CodeAPIAlreadyExists)
             else atx (create_api_tx en
               \<lparr>ap_id = 0, ap_path = path, ap_method = method, ap_detail = qa_detail req,
                ap_status = (if qa_status req = 0 then 1 else qa_status req), ap_sync = sync_registered,
                ap_seen = None, ap_deleted = False\<rparr> (qa_menu req)))))"

record update_api_req =
  qb_path :: "string option"
  qb_method :: "string option"
  qb_detail :: "string option"
  qb_status :: "int option"
  qb_menu :: "nat option"

definition patched_api :: "'p access_env \<Rightarrow> update_api_req \<Rightarrow> access_api \<Rightarrow> access_api" where
  "patched_api en req a =
     a\<lparr>ap_path := given (map_option trim_space (qb_path req)) (ap_path a),
       ap_method := given (map_option (\<lambda>s. trim_space (ae_upper en s)) (qb_method req)) (ap_method a),
       ap_detail := given (qb_detail req) (ap_detail a), ap_status := given (qb_status req) (ap_status a)\<rparr>"

definition update_api_tx :: "'p access_env \<Rightarrow> access_api \<Rightarrow> nat option \<Rightarrow> ('p, unit) acc" where
  "update_api_tx en a menu =
     svc_bind (adb (api_update_with_menu en a menu)) (\<lambda>_. adb (publish_permission_graph en ''api'' (ap_id a)))"

definition update_api :: "'p access_env \<Rightarrow> nat \<Rightarrow> update_api_req \<Rightarrow> ('p, unit) acc" where
  "update_api en k req =
     svc_bind (adb (api_by_id k)) (\<lambda>a0.
       let a = patched_api en req a0
       in svc_bind (if 0 < option_or_zero (qb_menu req)
                    then svc_bind (adb (menu_by_id (option_or_zero (qb_menu req)))) (\<lambda>m.
                      if mu_id m = 0 then svc_throw (Biz CodeMenuNotFound) else svc_return ())
                    else svc_return ()) (\<lambda>_.
          if ap_path a = [] \<or> ap_method a = [] then svc_throw (Biz CodeInvalidParams)
          else svc_bind (adb (api_by_path_method en (ap_path a) (ap_method a))) (\<lambda>ex.
            if (case ex of None \<Rightarrow> False | Some x \<Rightarrow> ap_id x \<noteq> k) then svc_throw (Biz CodeAPIAlreadyExists)
            else atx (update_api_tx en a (qb_menu req)))))"

definition delete_api_tx :: "'p access_env \<Rightarrow> nat \<Rightarrow> ('p, unit) acc" where
  "delete_api_tx en k =
     svc_bind (adb (menu_remove_api_from_all k)) (\<lambda>_.
     svc_bind (adb (role_remove_api_from_all k)) (\<lambda>_.
     svc_bind (adb (api_archive k)) (\<lambda>_. adb (publish_permission_graph en ''api'' k))))"

definition delete_api :: "'p access_env \<Rightarrow> nat \<Rightarrow> ('p, unit) acc" where
  "delete_api en k = svc_bind (adb (api_by_id k)) (\<lambda>_. atx (delete_api_tx en k))"

subsection \<open>Synchronisation with the router\<close>

text \<open>The variables of the loop: the map of known rows, the counters, whether access changes.\<close>

record sync_state =
  sy_known :: "(string \<times> access_api) list"
  sy_added :: nat
  sy_restored :: nat
  sy_missing :: nat
  sy_changed :: bool

definition set_key :: "string \<Rightarrow> 'a \<Rightarrow> (string \<times> 'a) list \<Rightarrow> (string \<times> 'a) list" where
  "set_key k v xs = (k, v) # filter (\<lambda>x. fst x \<noteq> k) xs"

definition route_key :: "string \<Rightarrow> string \<Rightarrow> string" where
  "route_key path method = path @ '':'' @ method"

definition api_key :: "access_api \<Rightarrow> string" where
  "api_key a = route_key (ap_path a) (ap_method a)"

definition new_route_api :: "string \<Rightarrow> string \<Rightarrow> int \<Rightarrow> access_api" where
  "new_route_api path method t =
     \<lparr>ap_id = 0, ap_path = path, ap_method = method, ap_detail = '''', ap_status = 1,
      ap_sync = sync_registered, ap_seen = Some t, ap_deleted = False\<rparr>"

definition sync_known_api :: "'p access_env \<Rightarrow> int \<Rightarrow> string \<Rightarrow> access_api \<Rightarrow> sync_state \<Rightarrow> ('p, sync_state) acc" where
  "sync_known_api en t key a st =
     (if ap_sync a = sync_archived then svc_return st
      else
        (let back = (ap_sync a = sync_missing);
             blank = (\<not> back \<and> trim_space (ap_sync a) = []);
             a1 = (if back \<or> blank then a\<lparr>ap_sync := sync_registered\<rparr> else a);
             stale = (ap_seen a \<noteq> Some t);
             a2 = (if stale then a1\<lparr>ap_seen := Some t\<rparr> else a1);
             st1 = st\<lparr>sy_known := set_key key a2 (sy_known st),
                      sy_restored := sy_restored st + (if back then 1 else 0),
                      sy_changed := (sy_changed st \<or> back)\<rparr>
         in if back \<or> blank \<or> stale then svc_bind (adb (api_save en a2)) (\<lambda>_. svc_return st1)
            else svc_return st1))"

definition sync_route :: "'p access_env \<Rightarrow> int \<Rightarrow> string \<times> string \<Rightarrow> sync_state \<Rightarrow> ('p, sync_state) acc" where
  "sync_route en t r st =
     (case r of (method, path) \<Rightarrow>
       if method = [] \<or> path = [] then svc_return st
       else (case map_of (sy_known st) (route_key path method) of
           Some a \<Rightarrow> sync_known_api en t (route_key path method) a st
         | None \<Rightarrow>
             svc_bind (adb (api_by_path_method en path method)) (\<lambda>ex.
               (case ex of
                  Some x \<Rightarrow>
                    (let back = (ap_deleted x \<or> ap_sync x \<noteq> sync_registered);
                         y = x\<lparr>ap_sync := sync_registered, ap_seen := Some t, ap_deleted := False\<rparr>
                     in svc_bind (adb (api_save en y)) (\<lambda>_.
                       svc_return (st\<lparr>sy_known := set_key (route_key path method) y (sy_known st),
                         sy_restored := sy_restored st + (if back then 1 else 0),
                         sy_changed := (sy_changed st \<or> back)\<rparr>)))
                | None \<Rightarrow>
                    svc_bind (adb (api_create en (new_route_api path method t))) (\<lambda>_.
                      svc_return (st\<lparr>sy_added := sy_added st + 1, sy_changed := True\<rparr>))))))"

fun sync_routes :: "'p access_env \<Rightarrow> int \<Rightarrow> (string \<times> string) list \<Rightarrow> sync_state \<Rightarrow> ('p, sync_state) acc" where
  "sync_routes en t [] st = svc_return st"
| "sync_routes en t (r # rs) st = svc_bind (sync_route en t r st) (sync_routes en t rs)"

fun mark_missing :: "'p access_env \<Rightarrow> string list \<Rightarrow> access_api list \<Rightarrow> sync_state \<Rightarrow> ('p, sync_state) acc" where
  "mark_missing en keys [] st = svc_return st"
| "mark_missing en keys (a # as) st =
     (if api_key a \<in> set keys \<or> ap_sync a = sync_archived \<or> ap_sync a = sync_missing
      then mark_missing en keys as st
      else svc_bind (adb (api_save en (a\<lparr>ap_sync := sync_missing\<rparr>))) (\<lambda>_.
        mark_missing en keys as (st\<lparr>sy_missing := sy_missing st + 1, sy_changed := True\<rparr>)))"

definition route_keys :: "(string \<times> string) list \<Rightarrow> string list" where
  "route_keys routes = map (\<lambda>(m, p). route_key p m) (filter (\<lambda>(m, p). m \<noteq> [] \<and> p \<noteq> []) routes)"

definition sync_api_tx :: "'p access_env \<Rightarrow> int \<Rightarrow> access_api list \<Rightarrow> ('p, sync_state) acc" where
  "sync_api_tx en t allapis =
     svc_bind (sync_routes en t (ae_routes en)
       \<lparr>sy_known = fold (\<lambda>a. set_key (api_key a) a) allapis [], sy_added = 0, sy_restored = 0,
        sy_missing = 0, sy_changed = False\<rparr>) (\<lambda>st.
     svc_bind (mark_missing en (route_keys (ae_routes en)) allapis st) (\<lambda>st'.
     svc_bind (if sy_changed st' then adb (publish_permission_graph en ''api'' 0) else svc_return ()) (\<lambda>_.
       svc_return st')))"

text \<open>The counts of added, restored, missing and all APIs; the last read may fail silently.\<close>

definition sync_api :: "'p access_env \<Rightarrow> ('p, nat \<times> nat \<times> nat \<times> nat) acc" where
  "sync_api en =
     svc_bind anow (\<lambda>t.
     svc_bind (adb api_all) (\<lambda>allapis.
     svc_bind (atx (sync_api_tx en t allapis)) (\<lambda>st.
     svc_bind (svc_try api_all) (\<lambda>r.
       svc_return (sy_added st, sy_restored st, sy_missing st,
         (case r of Inl e \<Rightarrow> 0 | Inr as \<Rightarrow> length as))))))"

subsection \<open>The overview of a role\<close>

record capability_group =
  cg_code :: string
  cg_name :: string
  cg_caps :: "access_capability list"

fun add_capability :: "access_capability \<Rightarrow> capability_group list \<Rightarrow> capability_group list" where
  "add_capability c [] =
     [\<lparr>cg_code = (if trim_space (cp_group c) = [] then ''default'' else trim_space (cp_group c)),
       cg_name = trim_space (cp_group_name c), cg_caps = [c]\<rparr>]"
| "add_capability c (g # gs) =
     (if cg_code g = (if trim_space (cp_group c) = [] then ''default'' else trim_space (cp_group c))
      then g\<lparr>cg_name := (if cg_name g = [] then trim_space (cp_group_name c) else cg_name g),
             cg_caps := cg_caps g @ [c]\<rparr> # gs
      else g # add_capability c gs)"

definition capability_groups :: "access_capability list \<Rightarrow> capability_group list" where
  "capability_groups caps = fold add_capability caps []"

definition cap_all_active :: "('p, access_capability list) acc" where
  "cap_all_active = aread (\<lambda>d. sort_key (\<lambda>c. (cp_group c, cp_id c)) (active_caps d))"

definition cap_role_codes :: "nat \<Rightarrow> ('p, string list) acc" where
  "cap_role_codes k = aread (\<lambda>d. sort (map cp_code
     (concat (map (\<lambda>x. filter (\<lambda>c. cp_id c = rc_cap x) (active_caps d))
       (filter (\<lambda>x. rc_role x = k) (ad_role_caps d))))))"

definition role_menu_ids :: "nat \<Rightarrow> ('p, nat list) acc" where
  "role_menu_ids k = aread (\<lambda>d. map mu_id (concat (map (\<lambda>x. filter (\<lambda>m. mu_id m = snd x) (live_menus d))
     (filter (\<lambda>x. fst x = k) (ad_role_menus d)))))"

definition menu_api_ids :: "nat list \<Rightarrow> ('p, nat list) acc" where
  "menu_api_ids ids =
     (if ids = [] then svc_return []
      else aread (\<lambda>d. map ap_id (filter (\<lambda>a. registered_api a \<and>
        (\<exists>x \<in> set (ad_menu_apis d). ma_api x = ap_id a \<and> ma_menu x \<in> set ids)) (live_apis d))))"

definition role_api_ids :: "nat \<Rightarrow> ('p, nat list) acc" where
  "role_api_ids k = aread (\<lambda>d. map ap_id (concat (map (\<lambda>x. filter (\<lambda>a. ap_id a = ra_api x \<and> registered_api a) (live_apis d))
     (filter (\<lambda>x. ra_role x = k) (ad_role_apis d)))))"

record role_overview =
  rw_tree :: "menu_node list option"
  rw_menus :: "nat list"
  rw_direct :: "nat list"
  rw_apis :: "nat list"
  rw_groups :: "capability_group list"
  rw_codes :: "string list"

definition get_role_menu_api_map :: "nat \<Rightarrow> int option \<Rightarrow> ('p, role_overview) acc" where
  "get_role_menu_api_map k lim =
     svc_bind (adb (role_by_id k)) (\<lambda>r.
       if ro_id r = 0 then svc_throw (Biz CodeRoleNotFound)
       else svc_bind (adb menu_all) (\<lambda>ms.
         svc_bind (adb (role_menu_ids k)) (\<lambda>assigned.
         svc_bind (adb (menu_api_ids assigned)) (\<lambda>via.
         svc_bind (adb (role_api_ids k)) (\<lambda>direct.
         svc_bind (adb (cap_role_codes k)) (\<lambda>codes.
         svc_bind (adb cap_all_active) (\<lambda>caps.
           svc_return \<lparr>rw_tree = build_role_menu_tree (tree_fuel ms) ms 0 1 lim,
             rw_menus = sort (normalize_ids assigned), rw_direct = sort (normalize_ids direct),
             rw_apis = sort (normalize_ids (via @ direct)), rw_groups = capability_groups caps,
             rw_codes = codes\<rparr>)))))))"

end
