(* ===== verification/Access_Calls.thy ===== *)
theory Access_Calls
  imports Access_Api
begin

text \<open>
  Weakest preconditions of the service methods. \<open>wp m Q E w\<close> says that the run of \<open>m\<close> from
  \<open>w\<close> ends with a value and a world in \<open>Q\<close> or with an error and a world in \<open>E\<close>. Every
  construct has an equation in \<open>wp_simps\<close>, so the simplifier executes a method symbolically;
  \<open>wpD\<close> turns the result back into a statement about a run.
\<close>

definition wp :: "('s, 'e, 'a) svc \<Rightarrow> ('a \<Rightarrow> 's \<Rightarrow> bool) \<Rightarrow> ('e \<Rightarrow> 's \<Rightarrow> bool) \<Rightarrow> 's \<Rightarrow> bool" where
  "wp m Q E w = (case m w of (Inl e, w') \<Rightarrow> E e w' | (Inr a, w') \<Rightarrow> Q a w')"

named_theorems wp_simps \<open>equations that execute a method symbolically\<close>
named_theorems acc_defs \<open>definitions of the repository methods\<close>

lemma wpD_Inr: "wp m Q E w \<Longrightarrow> m w = (Inr a, w') \<Longrightarrow> Q a w'"
  by (simp add: wp_def)

lemma wpD_Inl: "wp m Q E w \<Longrightarrow> m w = (Inl e, w') \<Longrightarrow> E e w'"
  by (simp add: wp_def)

lemma wpI: "(\<And>a w'. m w = (Inr a, w') \<Longrightarrow> Q a w') \<Longrightarrow> (\<And>e w'. m w = (Inl e, w') \<Longrightarrow> E e w') \<Longrightarrow> wp m Q E w"
  by (auto simp: wp_def split: prod.splits sum.splits)

lemma wp_mono: "wp m Q E w \<Longrightarrow> (\<And>a w'. Q a w' \<Longrightarrow> Q' a w') \<Longrightarrow> (\<And>e w'. E e w' \<Longrightarrow> E' e w') \<Longrightarrow> wp m Q' E' w"
  by (auto simp: wp_def split: prod.splits sum.splits)

lemma wp_conj: "wp m Q E w \<Longrightarrow> wp m Q' E' w \<Longrightarrow> wp m (\<lambda>a w. Q a w \<and> Q' a w) (\<lambda>e w. E e w \<and> E' e w) w"
  by (auto simp: wp_def split: prod.splits sum.splits)

subsection \<open>Control\<close>

lemma wp_basic [wp_simps]:
  "wp (svc_return a) Q E = Q a"
  "wp (svc_throw e) Q E = E e"
  "wp (svc_lift r) Q E = (\<lambda>w. case r of Inl e \<Rightarrow> E e w | Inr a \<Rightarrow> Q a w)"
  by (simp_all add: wp_def fun_eq_iff split: sum.splits)

lemma wp_bind [wp_simps]: "wp (svc_bind m f) Q E = (\<lambda>w. wp m (\<lambda>a. wp (f a) Q E) E w)"
  by (simp add: fun_eq_iff wp_def svc_bind_def split: prod.splits sum.splits)

lemma wp_wrap [wp_simps]: "wp (svc_wrap g m) Q E = (\<lambda>w. wp m Q (\<lambda>e. E (g e)) w)"
  by (simp add: fun_eq_iff wp_def svc_wrap_def split: prod.splits sum.splits)

lemma wp_awrap [wp_simps]: "wp (awrap c m) Q E = (\<lambda>w. wp m Q (\<lambda>_. E (Biz c)) w)"
  by (simp add: awrap_def wp_wrap)

lemma wp_try [wp_simps]: "wp (svc_try m) Q E = (\<lambda>w. wp m (\<lambda>a. Q (Inr a)) (\<lambda>e. Q (Inl e)) w)"
  by (simp add: fun_eq_iff wp_def svc_try_def split: prod.splits sum.splits)

lemma wp_catch [wp_simps]: "wp (svc_catch m h k) Q E = (\<lambda>w. wp m (\<lambda>a. wp (k a) Q E) (\<lambda>e. wp (h e) Q E) w)"
  by (simp add: fun_eq_iff wp_def svc_catch_def split: prod.splits sum.splits)

lemma wp_if [wp_simps]: "wp (if b then m else n) Q E = (\<lambda>w. (if b then wp m Q E w else wp n Q E w))"
  by simp

lemma wp_case_option [wp_simps]:
  "wp (case z of None \<Rightarrow> m | Some x \<Rightarrow> f x) Q E = (\<lambda>w. (case z of None \<Rightarrow> wp m Q E w | Some x \<Rightarrow> wp (f x) Q E w))"
  by (cases z) simp_all

lemma wp_case_sum [wp_simps]:
  "wp (case z of Inl x \<Rightarrow> f x | Inr y \<Rightarrow> g y) Q E = (\<lambda>w. (case z of Inl x \<Rightarrow> wp (f x) Q E w | Inr y \<Rightarrow> wp (g y) Q E w))"
  by (cases z) simp_all

lemma wp_case_prod [wp_simps]:
  "wp (case z of (x, y) \<Rightarrow> f x y) Q E = (\<lambda>w. (case z of (x, y) \<Rightarrow> wp (f x y) Q E w))"
  by (cases z) simp

lemma wp_case_list [wp_simps]:
  "wp (case z of [] \<Rightarrow> m | x # xs \<Rightarrow> f x xs) Q E = (\<lambda>w. (case z of [] \<Rightarrow> wp m Q E w | x # xs \<Rightarrow> wp (f x xs) Q E w))"
  by (cases z) simp_all

lemma wp_let [wp_simps]: "wp (let x = z in f x) Q E = (\<lambda>w. (let x = z in wp (f x) Q E w))"
  by simp

text \<open>A loop keeps what every round keeps.\<close>

lemma wp_iter:
  assumes "\<And>x w. x \<in> set xs \<Longrightarrow> J w \<Longrightarrow> wp (f x) (\<lambda>_. J) E w" "J w"
  shows "wp (svc_iter f xs) (\<lambda>_. J) E w"
  using assms
proof (induction xs arbitrary: w)
  case (Cons x xs)
  have "wp (f x) (\<lambda>_. J) E w" using Cons.prems by simp
  then show ?case
    by (simp add: wp_simps) (erule wp_mono, use Cons in auto)
qed (simp add: wp_simps)

lemma wp_map:
  assumes "\<And>x w. x \<in> set xs \<Longrightarrow> J w \<Longrightarrow> wp (f x) (\<lambda>_. J) E w" "J w"
  shows "wp (svc_map f xs) (\<lambda>_. J) E w"
  using assms
proof (induction xs arbitrary: w)
  case (Cons x xs)
  have "wp (f x) (\<lambda>_. J) E w" using Cons.prems by simp
  moreover have "wp (svc_map f xs) (\<lambda>_. J) E v" if "J v" for v using that Cons by simp
  ultimately show ?case
    by (simp add: wp_simps) (erule wp_mono, auto)
qed (simp add: wp_simps)

subsection \<open>Calls\<close>

definition calls_ok :: "'p access_world \<Rightarrow> bool" where
  "calls_ok w \<longleftrightarrow> \<not> aw_fault w (aw_step w)"

lemma atick_simps [simp]:
  "aw_db (atick w) = aw_db w" "aw_policy (atick w) = aw_policy w" "aw_saved (atick w) = aw_saved w"
  "aw_sessions (atick w) = aw_sessions w" "aw_fault (atick w) = aw_fault w" "aw_time (atick w) = aw_time w"
  "aw_draw (atick w) = aw_draw w" "aw_lock (atick w) = aw_lock w" "aw_step (atick w) = Suc (aw_step w)"
  by (simp_all add: atick_def)

lemma wp_acall [wp_simps]:
  "wp (acall f) Q E = (\<lambda>w. (if calls_ok w then Q (fst (f (atick w))) (snd (f (atick w))) else E RawErr (atick w)))"
  by (simp add: fun_eq_iff wp_def acall_def calls_ok_def split: prod.splits)

lemma wp_aread [wp_simps]:
  "wp (aread f) Q E = (\<lambda>w. (if calls_ok w then Q (f (aw_db w)) (atick w) else E RawErr (atick w)))"
  by (simp add: aread_def wp_acall)

lemma wp_awrite [wp_simps]:
  "wp (awrite f) Q E = (\<lambda>w.
     (if calls_ok w then Q () ((atick w)\<lparr>aw_db := f (aw_db w)\<rparr>) else E RawErr (atick w)))"
  by (simp add: awrite_def wp_acall)

lemma wp_ainsert [wp_simps]:
  "wp (ainsert ok f) Q E = (\<lambda>w.
     (if calls_ok w \<and> ok (aw_db w) then Q () ((atick w)\<lparr>aw_db := f (aw_db w)\<rparr>) else E RawErr (atick w)))"
  by (simp add: fun_eq_iff wp_def ainsert_def calls_ok_def)

lemma wp_acreate [wp_simps]:
  "wp (acreate ok f) Q E = (\<lambda>w.
     (if calls_ok w \<and> ok (aw_db w)
      then Q (ad_next (aw_db w)) ((atick w)\<lparr>aw_db := f (ad_next (aw_db w)) ((aw_db w)\<lparr>ad_next := Suc (ad_next (aw_db w))\<rparr>)\<rparr>)
      else E RawErr (atick w)))"
  by (simp add: fun_eq_iff wp_def acreate_def calls_ok_def Let_def)

lemma wp_anow [wp_simps]: "wp anow Q E = (\<lambda>w. Q (aw_time w (aw_step w)) (atick w))"
  by (simp add: fun_eq_iff wp_def anow_def)

lemma wp_adraw [wp_simps]: "wp adraw Q E = (\<lambda>w. Q (aw_draw w (aw_step w)) (atick w))"
  by (simp add: fun_eq_iff wp_def adraw_def)

lemma wp_found [wp_simps]:
  "wp (found m) Q E = (\<lambda>w. wp m (\<lambda>r w'. case r of None \<Rightarrow> E RawErr w' | Some a \<Rightarrow> Q a w') E w)"
proof -
  have "(\<lambda>r. wp (case r of None \<Rightarrow> svc_throw RawErr | Some a \<Rightarrow> svc_return a) Q E) =
      (\<lambda>r w'. case r of None \<Rightarrow> E RawErr w' | Some a \<Rightarrow> Q a w')"
    by (auto simp: fun_eq_iff wp_basic split: option.splits)
  then show ?thesis by (simp add: found_def wp_bind)
qed

lemma wp_atx:
  "wp (atx m) Q E = (\<lambda>w. wp m
     (\<lambda>a w'. if calls_ok w' then Q a (atick w') else E RawErr ((atick w')\<lparr>aw_db := aw_db w\<rparr>))
     (\<lambda>e w'. E e (w'\<lparr>aw_db := aw_db w\<rparr>)) w)"
  by (simp add: fun_eq_iff wp_def atx_def calls_ok_def split: prod.splits sum.splits)

subsection \<open>Methods that do not touch the tables\<close>

text \<open>\<open>reads m\<close>: whatever \<open>m\<close> returns, the tables are as before.\<close>

definition reads :: "('p, 'a) acc \<Rightarrow> bool" where
  "reads m \<longleftrightarrow> (\<forall>w. wp m (\<lambda>_ w'. aw_db w' = aw_db w) (\<lambda>_ w'. aw_db w' = aw_db w) w)"

named_theorems reads_intro \<open>methods that do not touch the tables\<close>

lemma readsD: "reads m \<Longrightarrow> m w = (r, w') \<Longrightarrow> aw_db w' = aw_db w"
  by (cases r) (auto simp: reads_def wp_def dest!: spec [where x = w])

lemma reads_run: "m w = (r, w') \<Longrightarrow> reads m \<Longrightarrow> aw_db w' = aw_db w"
  by (rule readsD)

lemma readsI: "(\<And>w r w'. m w = (r, w') \<Longrightarrow> aw_db w' = aw_db w) \<Longrightarrow> reads m"
  by (auto simp: reads_def intro!: wpI)

text \<open>What follows a reading method may assume unchanged tables.\<close>

lemma wp_reads:
  assumes "reads m" "\<And>a w'. aw_db w' = aw_db w \<Longrightarrow> Q a w'" "\<And>e w'. aw_db w' = aw_db w \<Longrightarrow> E e w'"
  shows "wp m Q E w"
  using assms by (auto intro!: wpI dest: readsD)

lemma reads_basic [reads_intro]:
  "reads (svc_return a)" "reads (svc_throw e)" "reads (svc_lift r)" "reads (aread f)" "reads anow" "reads adraw"
  by (simp_all add: reads_def wp_simps split: sum.splits)

lemma reads_bind [reads_intro]: "reads m \<Longrightarrow> (\<And>a. reads (f a)) \<Longrightarrow> reads (svc_bind m f)"
  by (rule readsI) (auto simp: svc_bind_def split: prod.splits sum.splits dest!: reads_run)

lemma reads_wrap [reads_intro]: "reads m \<Longrightarrow> reads (awrap c m)"
  by (rule readsI) (auto simp: awrap_def svc_wrap_def split: prod.splits sum.splits dest!: reads_run)

lemma reads_try [reads_intro]: "reads m \<Longrightarrow> reads (svc_try m)"
  by (rule readsI) (auto simp: svc_try_def split: prod.splits sum.splits dest!: reads_run)

lemma reads_catch [reads_intro]:
  "reads m \<Longrightarrow> (\<And>e. reads (h e)) \<Longrightarrow> (\<And>a. reads (k a)) \<Longrightarrow> reads (svc_catch m h k)"
  by (rule readsI) (auto simp: svc_catch_def split: prod.splits sum.splits dest!: reads_run)

lemma reads_found [reads_intro]: "reads m \<Longrightarrow> reads (found m)"
  unfolding found_def by (rule reads_bind) (auto intro!: reads_intro split: option.splits)

lemma reads_if [reads_intro]: "reads m \<Longrightarrow> reads n \<Longrightarrow> reads (if b then m else n)"
  by simp

lemma reads_case_option [reads_intro]:
  "reads m \<Longrightarrow> (\<And>x. reads (f x)) \<Longrightarrow> reads (case z of None \<Rightarrow> m | Some x \<Rightarrow> f x)"
  by (cases z) simp_all

lemma reads_case_sum [reads_intro]:
  "(\<And>x. reads (f x)) \<Longrightarrow> (\<And>y. reads (g y)) \<Longrightarrow> reads (case z of Inl x \<Rightarrow> f x | Inr y \<Rightarrow> g y)"
  by (cases z) simp_all

lemma reads_case_list [reads_intro]:
  "reads m \<Longrightarrow> (\<And>x xs. reads (f x xs)) \<Longrightarrow> reads (case z of [] \<Rightarrow> m | x # xs \<Rightarrow> f x xs)"
  by (cases z) simp_all

lemma reads_case_prod [reads_intro]: "(\<And>x y. reads (f x y)) \<Longrightarrow> reads (case z of (x, y) \<Rightarrow> f x y)"
  by (cases z) simp

lemma reads_let [reads_intro]: "reads (f z) \<Longrightarrow> reads (let x = z in f x)"
  by simp

lemma reads_iter [reads_intro]: "(\<And>x. reads (f x)) \<Longrightarrow> reads (svc_iter f xs)"
  by (induction xs) (auto intro!: reads_intro)

lemma reads_map [reads_intro]: "(\<And>x. reads (f x)) \<Longrightarrow> reads (svc_map f xs)"
  by (induction xs) (auto intro!: reads_intro)

lemma reads_acall [reads_intro]: "(\<And>w. aw_db (snd (f w)) = aw_db w) \<Longrightarrow> reads (acall f)"
  by (simp add: reads_def wp_simps)

lemma reads_policy_call [reads_intro]: "reads (policy_call f)"
  by (simp add: policy_call_def reads_intro)

subsection \<open>Triples on the tables\<close>

text \<open>
  \<open>dwp m Q E d\<close>: started on the tables \<open>d\<close>, whichever calls fail and whatever the clock and the
  engine answer, \<open>m\<close> ends in \<open>Q\<close> or in \<open>E\<close>, which speak of the tables only. The rules in
  \<open>dwp_intro\<close> take a method apart along its code.
\<close>

definition dwp ::
  "('p, 'a) acc \<Rightarrow> ('a \<Rightarrow> access_db \<Rightarrow> bool) \<Rightarrow> (go_err \<Rightarrow> access_db \<Rightarrow> bool) \<Rightarrow> access_db \<Rightarrow> bool" where
  "dwp m Q E d \<longleftrightarrow> (\<forall>w. aw_db w = d \<longrightarrow> wp m (\<lambda>a w'. Q a (aw_db w')) (\<lambda>e w'. E e (aw_db w')) w)"

named_theorems dwp_intro \<open>rules that take a method apart\<close>

lemma dwpD:
  assumes "dwp m Q E (aw_db w)" "m w = (r, w')"
  shows "case r of Inl e \<Rightarrow> E e (aw_db w') | Inr a \<Rightarrow> Q a (aw_db w')"
  using assms by (auto simp: dwp_def wp_def split: sum.splits)

lemma dwpI: "(\<And>w. aw_db w = d \<Longrightarrow> wp m (\<lambda>a w'. Q a (aw_db w')) (\<lambda>e w'. E e (aw_db w')) w) \<Longrightarrow> dwp m Q E d"
  by (simp add: dwp_def)

lemma dwp_mono:
  "dwp m Q E d \<Longrightarrow> (\<And>a d'. Q a d' \<Longrightarrow> Q' a d') \<Longrightarrow> (\<And>e d'. E e d' \<Longrightarrow> E' e d') \<Longrightarrow> dwp m Q' E' d"
  by (auto simp: dwp_def intro: wp_mono)

lemma dwp_return [dwp_intro]: "Q a d \<Longrightarrow> dwp (svc_return a) Q E d"
  by (simp add: dwp_def wp_simps)

lemma dwp_throw [dwp_intro]: "E e d \<Longrightarrow> dwp (svc_throw e) Q E d"
  by (simp add: dwp_def wp_simps)

lemma dwp_lift [dwp_intro]: "(\<And>a. r = Inr a \<Longrightarrow> Q a d) \<Longrightarrow> (\<And>e. r = Inl e \<Longrightarrow> E e d) \<Longrightarrow> dwp (svc_lift r) Q E d"
  by (cases r) (simp_all add: dwp_def wp_simps)

lemma dwp_bind [dwp_intro]: "dwp m (\<lambda>a. dwp (f a) Q E) E d \<Longrightarrow> dwp (svc_bind m f) Q E d"
  by (auto simp: dwp_def wp_simps elim!: wp_mono)

lemma dwp_wrap [dwp_intro]: "dwp m Q (\<lambda>_. E (Biz c)) d \<Longrightarrow> dwp (awrap c m) Q E d"
  by (simp add: dwp_def wp_simps)

lemma dwp_try [dwp_intro]: "dwp m (\<lambda>a. Q (Inr a)) (\<lambda>e. Q (Inl e)) d \<Longrightarrow> dwp (svc_try m) Q E d"
  by (simp add: dwp_def wp_simps)

lemma dwp_catch [dwp_intro]:
  "dwp m (\<lambda>a. dwp (k a) Q E) (\<lambda>e. dwp (h e) Q E) d \<Longrightarrow> dwp (svc_catch m h k) Q E d"
  by (auto simp: dwp_def wp_simps elim!: wp_mono)

lemma dwp_if [dwp_intro]: "(b \<Longrightarrow> dwp m Q E d) \<Longrightarrow> (\<not> b \<Longrightarrow> dwp n Q E d) \<Longrightarrow> dwp (if b then m else n) Q E d"
  by simp

lemma dwp_case_option [dwp_intro]:
  "(z = None \<Longrightarrow> dwp m Q E d) \<Longrightarrow> (\<And>x. z = Some x \<Longrightarrow> dwp (f x) Q E d) \<Longrightarrow>
   dwp (case z of None \<Rightarrow> m | Some x \<Rightarrow> f x) Q E d"
  by (cases z) simp_all

lemma dwp_case_sum [dwp_intro]:
  "(\<And>x. z = Inl x \<Longrightarrow> dwp (f x) Q E d) \<Longrightarrow> (\<And>y. z = Inr y \<Longrightarrow> dwp (g y) Q E d) \<Longrightarrow>
   dwp (case z of Inl x \<Rightarrow> f x | Inr y \<Rightarrow> g y) Q E d"
  by (cases z) simp_all

lemma dwp_case_list [dwp_intro]:
  "(z = [] \<Longrightarrow> dwp m Q E d) \<Longrightarrow> (\<And>x xs. z = x # xs \<Longrightarrow> dwp (f x xs) Q E d) \<Longrightarrow>
   dwp (case z of [] \<Rightarrow> m | x # xs \<Rightarrow> f x xs) Q E d"
  by (cases z) simp_all

lemma dwp_case_prod [dwp_intro]:
  "(\<And>x y. z = (x, y) \<Longrightarrow> dwp (f x y) Q E d) \<Longrightarrow> dwp (case z of (x, y) \<Rightarrow> f x y) Q E d"
  by (cases z) simp

lemma dwp_let [dwp_intro]: "dwp (f z) Q E d \<Longrightarrow> dwp (let x = z in f x) Q E d"
  by simp

lemma dwp_aread [dwp_intro]: "Q (f d) d \<Longrightarrow> E RawErr d \<Longrightarrow> dwp (aread f) Q E d"
  by (simp add: dwp_def wp_simps)

lemma dwp_awrite [dwp_intro]: "Q () (f d) \<Longrightarrow> E RawErr d \<Longrightarrow> dwp (awrite f) Q E d"
  by (simp add: dwp_def wp_simps)

lemma dwp_ainsert [dwp_intro]: "(ok d \<Longrightarrow> Q () (f d)) \<Longrightarrow> E RawErr d \<Longrightarrow> dwp (ainsert ok f) Q E d"
  by (simp add: dwp_def wp_simps)

lemma dwp_acreate [dwp_intro]:
  "(ok d \<Longrightarrow> Q (ad_next d) (f (ad_next d) (d\<lparr>ad_next := Suc (ad_next d)\<rparr>))) \<Longrightarrow> E RawErr d \<Longrightarrow>
   dwp (acreate ok f) Q E d"
  by (simp add: dwp_def wp_simps)

lemma dwp_anow [dwp_intro]: "(\<And>t. Q t d) \<Longrightarrow> dwp anow Q E d"
  by (simp add: dwp_def wp_simps)

lemma dwp_adraw [dwp_intro]: "(\<And>s. Q s d) \<Longrightarrow> dwp adraw Q E d"
  by (simp add: dwp_def wp_simps)

lemma dwp_found [dwp_intro]:
  "dwp m (\<lambda>r d'. (r = None \<longrightarrow> E RawErr d') \<and> (\<forall>a. r = Some a \<longrightarrow> Q a d')) E d \<Longrightarrow> dwp (found m) Q E d"
  by (auto simp: dwp_def wp_simps elim!: wp_mono split: option.splits)

lemma dwp_reads: "reads m \<Longrightarrow> (\<And>a. Q a d) \<Longrightarrow> (\<And>e. E e d) \<Longrightarrow> dwp m Q E d"
  by (auto simp: dwp_def intro!: wp_reads)

lemma dwp_acall: "(\<And>w. aw_db (snd (f w)) = aw_db w) \<Longrightarrow> (\<And>a. Q a d) \<Longrightarrow> E RawErr d \<Longrightarrow> dwp (acall f) Q E d"
  by (simp add: dwp_def wp_simps)

text \<open>A transaction leaves the tables of its body, or those from before when anything fails.\<close>

lemma dwp_atx:
  "dwp m Q (\<lambda>_ _. True) d \<Longrightarrow> (\<And>e. E e d) \<Longrightarrow> dwp (atx m) Q E d"
  by (auto simp: dwp_def wp_atx elim!: wp_mono)

lemma dwp_iter:
  assumes "\<And>x d. x \<in> set xs \<Longrightarrow> J d \<Longrightarrow> dwp (f x) (\<lambda>_. J) E d" "J d"
  shows "dwp (svc_iter f xs) (\<lambda>_. J) E d"
  unfolding dwp_def
proof (intro allI impI)
  fix w :: "'b access_world" assume w: "aw_db w = d"
  show "wp (svc_iter f xs) (\<lambda>_ w'. J (aw_db w')) (\<lambda>e w'. E e (aw_db w')) w"
    by (rule wp_iter) (use assms w in \<open>auto simp: dwp_def\<close>)
qed

lemma dwp_conj:
  "dwp m Q E d \<Longrightarrow> dwp m Q' E' d \<Longrightarrow> dwp m (\<lambda>a d. Q a d \<and> Q' a d) (\<lambda>e d. E e d \<and> E' e d) d"
  by (simp add: dwp_def wp_conj)

subsection \<open>Invariants of the tables\<close>

text \<open>\<open>holds J m\<close>: whatever \<open>m\<close> returns, value or error, it keeps the property \<open>J\<close> of the tables.\<close>

definition holds :: "(access_db \<Rightarrow> bool) \<Rightarrow> ('p, 'a) acc \<Rightarrow> bool" where
  "holds J m \<longleftrightarrow> keeps (\<lambda>w. J (aw_db w)) m"

named_theorems holds_intro \<open>methods that keep a property of the tables\<close>

lemma holdsD: "holds J m \<Longrightarrow> J (aw_db w) \<Longrightarrow> m w = (r, w') \<Longrightarrow> J (aw_db w')"
  using keepsD [of "\<lambda>w. J (aw_db w)" m w r w'] by (simp add: holds_def)

lemma holdsI: "(\<And>w r w'. J (aw_db w) \<Longrightarrow> m w = (r, w') \<Longrightarrow> J (aw_db w')) \<Longrightarrow> holds J m"
  by (auto simp: holds_def intro!: keepsI)

lemma holds_dwp: "holds J m \<Longrightarrow> J d \<Longrightarrow> dwp m (\<lambda>_. J) (\<lambda>_. J) d"
  by (auto simp: dwp_def intro!: wpI dest: holdsD)

lemma dwp_holds:
  assumes "\<And>d. J d \<Longrightarrow> dwp m (\<lambda>_. J) (\<lambda>_. J) d"
  shows "holds J m"
proof (rule holdsI)
  fix w r w' assume "J (aw_db w)" "m w = (r, w')"
  then show "J (aw_db w')" using dwpD [OF assms, of w r w'] by (simp split: sum.splits)
qed

lemma holds_reads: "reads m \<Longrightarrow> holds J m"
  by (auto intro!: holdsI dest: readsD)

lemmas holds_basic [holds_intro] = reads_basic [THEN holds_reads]

lemma holds_control [holds_intro]:
  "holds J m \<Longrightarrow> (\<And>a. holds J (f a)) \<Longrightarrow> holds J (svc_bind m f)"
  "holds J m \<Longrightarrow> holds J (awrap c m)" "holds J m \<Longrightarrow> holds J (svc_try m)"
  "holds J m \<Longrightarrow> holds J n \<Longrightarrow> holds J (if b then m else n)"
  by (auto simp: holds_def awrap_def intro: keeps_intro)

lemma holds_cases [holds_intro]:
  "holds J m \<Longrightarrow> (\<And>x. holds J (g x)) \<Longrightarrow> holds J (case z of None \<Rightarrow> m | Some x \<Rightarrow> g x)"
  "(\<And>x. holds J (g x)) \<Longrightarrow> (\<And>y. holds J (g' y)) \<Longrightarrow> holds J (case q of Inl x \<Rightarrow> g x | Inr y \<Rightarrow> g' y)"
  "(\<And>x y. holds J (h x y)) \<Longrightarrow> holds J (case p of (x, y) \<Rightarrow> h x y)"
  by (cases z, simp_all) (cases q, simp_all, cases p, simp)

lemma holds_iter [holds_intro]: "(\<And>x. holds J (f x)) \<Longrightarrow> holds J (svc_iter f xs)"
  by (induction xs) (auto intro: holds_intro)

lemma holds_atx [holds_intro]: "holds J m \<Longrightarrow> holds J (atx m)"
  by (rule holdsI) (auto simp: atx_def dest: holdsD split: prod.splits sum.splits if_splits)

lemma holds_writes [holds_intro]:
  assumes "\<And>d. J d \<Longrightarrow> J (f d)"
  shows "holds J (awrite f)" "holds J (ainsert ok f)"
  using assms by (auto simp: awrite_def ainsert_def acall_def intro!: holdsI split: if_splits)

lemma holds_create [holds_intro]:
  assumes "\<And>i d. J d \<Longrightarrow> J (f i (d\<lparr>ad_next := Suc (ad_next d)\<rparr>))"
  shows "holds J (acreate ok f)"
  using assms by (auto simp: acreate_def Let_def intro!: holdsI split: if_splits)

end
