(* ===== verification/Access_Invariant.thy ===== *)
theory Access_Invariant
  imports Access_Calls
begin

text \<open>
  What the tables of users, organisations, members and roles always satisfy. The predicate
  \<open>membership\<close> speaks of four relations read off the tables: who is an active member, which
  organisation lives and who owns it, which user lives and what its current organisation is,
  which role lives. The simplification rules of the collection \<open>views\<close> say how each write
  changes them, so that a command is checked by set reasoning on the relations.
\<close>

named_theorems views \<open>how the writes change the relations of the invariant\<close>

subsection \<open>The relations\<close>

definition act :: "org_member list \<Rightarrow> nat \<Rightarrow> nat \<Rightarrow> bool" where
  "act ms u k \<longleftrightarrow> (\<exists>m \<in> set ms. mb_user m = u \<and> mb_org m = k \<and> mb_status m = member_active)"

definition own :: "access_org list \<Rightarrow> nat \<Rightarrow> nat \<Rightarrow> bool" where
  "own os k u \<longleftrightarrow> (\<exists>o' \<in> set os. \<not> ag_deleted o' \<and> ag_id o' = k \<and> ag_owner o' = u)"

definition cur :: "access_user list \<Rightarrow> nat \<Rightarrow> nat option \<Rightarrow> bool" where
  "cur us u k \<longleftrightarrow> (\<exists>x \<in> set us. \<not> au_deleted x \<and> au_id x = u \<and> au_current_org x = k)"

definition lro :: "access_role list \<Rightarrow> nat \<Rightarrow> bool" where
  "lro rs k \<longleftrightarrow> (\<exists>r \<in> set rs. \<not> ro_deleted r \<and> ro_id r = k)"

definition org_lives :: "access_org list \<Rightarrow> nat \<Rightarrow> bool" where
  "org_lives os k \<longleftrightarrow> (\<exists>u. own os k u)"

definition user_lives :: "access_user list \<Rightarrow> nat \<Rightarrow> bool" where
  "user_lives us u \<longleftrightarrow> (\<exists>c. cur us u c)"

lemma active_member_act [views]: "active_member d u k = act (ad_members d) u k"
  by (simp add: active_member_def act_def)

definition membership ::
  "org_member list \<Rightarrow> access_org list \<Rightarrow> access_user list \<Rightarrow> access_role list \<Rightarrow> user_org_role list \<Rightarrow> bool" where
  "membership ms os us rs urs \<longleftrightarrow>
     (\<forall>u k. act ms u k \<longrightarrow> org_lives os k) \<and>
     (\<forall>u k. cur us u (Some k) \<longrightarrow> act ms u k) \<and>
     (\<forall>k u. own os k u \<longrightarrow> user_lives us u \<longrightarrow> act ms u k) \<and>
     (\<forall>r \<in> set urs. lro rs (ur_role r) \<and> (ur_org r \<noteq> 0 \<longrightarrow> act ms (ur_user r) (ur_org r)))"

text \<open>The keys of the rows, drawn from the counter, and the owners of the organisations.\<close>

definition keys_ok :: "nat \<Rightarrow> nat list \<Rightarrow> (nat \<times> nat) list \<Rightarrow> nat list \<Rightarrow> (nat \<times> nat) list \<Rightarrow> bool" where
  "keys_ok n us os rs ms \<longleftrightarrow>
     0 < n \<and> distinct us \<and> distinct (map fst os) \<and> distinct rs \<and> distinct ms \<and>
     (\<forall>k \<in> set us. 0 < k \<and> k < n) \<and> (\<forall>x \<in> set os. 0 < fst x \<and> fst x < n \<and> snd x < n) \<and>
     (\<forall>k \<in> set rs. 0 < k \<and> k < n)"

definition org_keys :: "access_org \<Rightarrow> nat \<times> nat" where
  "org_keys o' = (ag_id o', ag_owner o')"

definition member_keys :: "org_member \<Rightarrow> nat \<times> nat" where
  "member_keys m = (mb_org m, mb_user m)"

text \<open>The names, or the invitation codes, of live organisations differ under the collation.\<close>

definition apart :: "'p access_env \<Rightarrow> (access_org \<Rightarrow> string) \<Rightarrow> access_org list \<Rightarrow> bool" where
  "apart en f os \<longleftrightarrow> (\<forall>a \<in> set os. \<forall>b \<in> set os. \<not> ag_deleted a \<longrightarrow> \<not> ag_deleted b \<longrightarrow> ag_id a \<noteq> ag_id b \<longrightarrow>
     \<not> ae_str_eq en (f a) (f b))"

text \<open>
  The role \<open>k\<close> is the one with the code of the super administrator, and every role row
  outside the organisations is one of \<open>g\<close>.
\<close>

definition anchored :: "nat \<Rightarrow> access_role list \<Rightarrow> bool" where
  "anchored k rs \<longleftrightarrow>
     (\<exists>r \<in> set rs. ro_id r = k \<and> ro_code r = role_super_admin \<and> \<not> ro_deleted r) \<and>
     (\<forall>r \<in> set rs. ro_code r = role_super_admin \<longrightarrow> ro_id r = k)"

definition global_rows :: "user_org_role list \<Rightarrow> user_org_role set" where
  "global_rows urs = {r \<in> set urs. ur_org r = 0}"

definition keys_of :: "access_db \<Rightarrow> bool" where
  "keys_of d \<longleftrightarrow> keys_ok (ad_next d) (map au_id (ad_users d)) (map org_keys (ad_orgs d)) (map ro_id (ad_roles d))
     (map member_keys (ad_members d))"

definition access_ok :: "'p access_env \<Rightarrow> nat \<Rightarrow> user_org_role set \<Rightarrow> access_db \<Rightarrow> bool" where
  "access_ok en k g d \<longleftrightarrow>
     keys_of d \<and>
     membership (ad_members d) (ad_orgs d) (ad_users d) (ad_roles d) (ad_user_roles d) \<and>
     apart en ag_name (ad_orgs d) \<and> apart en ag_code (ad_orgs d) \<and>
     anchored k (ad_roles d) \<and> global_rows (ad_user_roles d) \<subseteq> g"

subsection \<open>Reading the relations\<close>

lemma row_get_both: "row_get key rows k = Some r \<Longrightarrow> r \<in> set rows \<and> key r = k"
  using row_get_set [of key rows k r] row_get_key [of key rows k r] by simp

lemma row_of_rows:
  "org_row_of d k = Some o' \<Longrightarrow> o' \<in> set (ad_orgs d) \<and> \<not> ag_deleted o' \<and> ag_id o' = k"
  "user_row_of d k = Some u \<Longrightarrow> u \<in> set (ad_users d) \<and> \<not> au_deleted u \<and> au_id u = k"
  "role_row_of d k = Some r \<Longrightarrow> r \<in> set (ad_roles d) \<and> \<not> ro_deleted r \<and> ro_id r = k"
  by (auto simp: org_row_of_def live_orgs_def user_row_of_def live_users_def role_row_of_def live_roles_def
      dest: row_get_both)

lemma row_of_relations:
  "org_row_of d k = Some o' \<Longrightarrow> own (ad_orgs d) k (ag_owner o')"
  "user_row_of d k = Some u \<Longrightarrow> cur (ad_users d) k (au_current_org u)"
  "role_row_of d k = Some r \<Longrightarrow> lro (ad_roles d) k"
  by (auto simp: own_def cur_def lro_def dest: row_of_rows)

lemma row_of_lives:
  "org_row_of d k = Some o' \<Longrightarrow> org_lives (ad_orgs d) k"
  "user_row_of d k = Some u \<Longrightarrow> user_lives (ad_users d) k"
  using row_of_relations unfolding org_lives_def user_lives_def by blast+

lemma member_row_of_Some:
  "member_row_of d k u = Some m \<Longrightarrow> m \<in> set (ad_members d) \<and> mb_org m = k \<and> mb_user m = u"
  by (auto simp: member_row_of_def dest: find_SomeD)

lemma member_row_of_None [views]: "member_row_of d k u = None \<longleftrightarrow> (k, u) \<notin> member_keys ` set (ad_members d)"
  by (auto simp: member_row_of_def find_None_iff_all member_keys_def image_iff)

lemma first_eq_Some: "first_eq en col s rows = Some r \<Longrightarrow> r \<in> set rows \<and> ae_str_eq en (col r) s"
  by (auto simp: first_eq_def dest: find_SomeD)

lemma live_org_own:
  "o' \<in> set (live_orgs d) \<Longrightarrow> own (ad_orgs d) (ag_id o') (ag_owner o')"
  "o' \<in> set (live_orgs d) \<Longrightarrow> org_lives (ad_orgs d) (ag_id o')"
  by (auto simp: live_orgs_def own_def org_lives_def)

lemma live_role_lro: "r \<in> set (live_roles d) \<Longrightarrow> lro (ad_roles d) (ro_id r)"
  by (auto simp: live_roles_def lro_def)

lemma live_members [views]:
  "r \<in> set (live_roles d) \<longleftrightarrow> r \<in> set (ad_roles d) \<and> \<not> ro_deleted r"
  "o' \<in> set (live_orgs d) \<longleftrightarrow> o' \<in> set (ad_orgs d) \<and> \<not> ag_deleted o'"
  "u \<in> set (live_users d) \<longleftrightarrow> u \<in> set (ad_users d) \<and> \<not> au_deleted u"
  by (auto simp: live_roles_def live_orgs_def live_users_def)

lemma live_relations:
  "r \<in> set (ad_roles d) \<Longrightarrow> \<not> ro_deleted r \<Longrightarrow> lro (ad_roles d) (ro_id r)"
  "o' \<in> set (ad_orgs d) \<Longrightarrow> \<not> ag_deleted o' \<Longrightarrow> org_lives (ad_orgs d) (ag_id o')"
  "m \<in> set ms \<Longrightarrow> mb_status m = member_active \<Longrightarrow> act ms (mb_user m) (mb_org m)"
  by (auto simp: lro_def org_lives_def own_def act_def)

lemma user_row_cur:
  "user_row_of d u = None \<Longrightarrow> \<not> cur (ad_users d) u c"
  "user_row_of d u = Some x \<Longrightarrow> distinct (map au_id (ad_users d)) \<Longrightarrow>
     cur (ad_users d) u c \<longleftrightarrow> c = au_current_org x"
  by (auto simp: user_row_of_def live_users_def cur_def row_get_None_iff dest!: row_get_both)
    (auto simp: distinct_map inj_on_def)

lemma own_bound [views]:
  "\<forall>x \<in> set os. 0 < ag_id x \<and> ag_id x < n \<and> ag_owner x < n \<Longrightarrow> \<not> own os k n"
  "\<forall>x \<in> set os. 0 < ag_id x \<and> ag_id x < n \<and> ag_owner x < n \<Longrightarrow> \<not> own os n u"
  by (auto simp: own_def)

lemma find_active_org:
  "find P (active_org_ids d u) = Some k \<Longrightarrow> P k \<and> act (ad_members d) u k"
  by (auto simp: active_org_ids_def act_def dest!: find_SomeD)

lemma row_of_other_tables [simp]:
  "user_row_of (d\<lparr>ad_members := ms\<rparr>) = user_row_of d" "user_row_of (d\<lparr>ad_user_roles := urs\<rparr>) = user_row_of d"
  "user_row_of (d\<lparr>ad_outbox := ob\<rparr>) = user_row_of d"
  "active_org_ids (d\<lparr>ad_user_roles := urs\<rparr>) = active_org_ids d" "active_org_ids (d\<lparr>ad_outbox := ob\<rparr>) = active_org_ids d"
  by (simp_all add: fun_eq_iff user_row_of_def live_users_def active_org_ids_def)

lemma access_ok_others [simp]:
  "access_ok en k g (d\<lparr>ad_images := im\<rparr>) = access_ok en k g d"
  "access_ok en k g (d\<lparr>ad_outbox := ob\<rparr>) = access_ok en k g d"
  "access_ok en k g (d\<lparr>ad_menus := me\<rparr>) = access_ok en k g d"
  "access_ok en k g (d\<lparr>ad_apis := ap\<rparr>) = access_ok en k g d"
  "access_ok en k g (d\<lparr>ad_role_menus := rm\<rparr>) = access_ok en k g d"
  "access_ok en k g (d\<lparr>ad_menu_apis := ma\<rparr>) = access_ok en k g d"
  "access_ok en k g (d\<lparr>ad_role_apis := ra\<rparr>) = access_ok en k g d"
  "access_ok en k g (d\<lparr>ad_role_caps := rc\<rparr>) = access_ok en k g d"
  by (simp_all add: access_ok_def keys_of_def)

subsection \<open>How the writes change the relations\<close>

lemma relation_Cons:
  "act [] u k = False" "act (m # ms) u k \<longleftrightarrow> (mb_user m = u \<and> mb_org m = k \<and> mb_status m = member_active) \<or> act ms u k"
  "own [] k u = False" "own (o' # os) k u \<longleftrightarrow> (\<not> ag_deleted o' \<and> ag_id o' = k \<and> ag_owner o' = u) \<or> own os k u"
  "cur [] u c = False" "cur (x # us) u c \<longleftrightarrow> (\<not> au_deleted x \<and> au_id x = u \<and> au_current_org x = c) \<or> cur us u c"
  "lro [] k = False" "lro (r # rs) k \<longleftrightarrow> (\<not> ro_deleted r \<and> ro_id r = k) \<or> lro rs k"
  by (auto simp: act_def own_def cur_def lro_def)

lemma act_append [views]:
  "act (ms @ ms') u k \<longleftrightarrow> act ms u k \<or> act ms' u k" "act [] u k = False"
  "act (m # ms) u k \<longleftrightarrow> (mb_user m = u \<and> mb_org m = k \<and> mb_status m = member_active) \<or> act ms u k"
  by (auto simp: act_def)

lemma act_set_status [views]:
  "act (map (\<lambda>m. if mb_org m = k' \<and> mb_user m = u' then member_with_status st op' reason src t m else m) ms) u k \<longleftrightarrow>
     (if u = u' \<and> k = k' then st = member_active \<and> (\<exists>m \<in> set ms. mb_org m = k \<and> mb_user m = u) else act ms u k)"
  by (induction ms) (auto simp: relation_Cons member_with_status_def Let_def member_status_defs)

lemma act_set_all_removed [views]:
  "act (map (\<lambda>m. if mb_org m = k' then m\<lparr>mb_status := member_removed, mb_left := l, mb_removed := r,
       mb_removed_by := b, mb_reason := s\<rparr> else m) ms) u k \<longleftrightarrow> k \<noteq> k' \<and> act ms u k"
  by (induction ms) (auto simp: relation_Cons member_status_defs)

lemma own_append [views]: "own (os @ [o']) k u \<longleftrightarrow> own os k u \<or> (\<not> ag_deleted o' \<and> ag_id o' = k \<and> ag_owner o' = u)"
  by (auto simp: own_def)

lemma own_remove [views]:
  "own (map (\<lambda>o'. if ag_id o' = k' then o'\<lparr>ag_deleted := True\<rparr> else o') os) k u \<longleftrightarrow> k \<noteq> k' \<and> own os k u"
  by (induction os) (auto simp: relation_Cons)

lemma cur_append [views]:
  "cur (us @ [x]) u c \<longleftrightarrow> cur us u c \<or> (\<not> au_deleted x \<and> au_id x = u \<and> au_current_org x = c)"
  by (auto simp: cur_def)

lemma cur_set_current [views]:
  "cur (map (\<lambda>x. if \<not> au_deleted x \<and> au_id x = v then x\<lparr>au_current_org := c'\<rparr> else x) us) u c \<longleftrightarrow>
     (if u = v then c = c' \<and> user_lives us u else cur us u c)"
  by (induction us) (auto simp: relation_Cons user_lives_def)

lemma cur_clear [views]:
  "cur (map (\<lambda>x. if \<not> au_deleted x \<and> au_current_org x = Some k then x\<lparr>au_current_org := None\<rparr> else x) us) u c \<longleftrightarrow>
     (c \<noteq> Some k \<and> cur us u c) \<or> (c = None \<and> cur us u (Some k))"
  by (induction us) (auto simp: relation_Cons)

lemma cur_anonymized [views]:
  "cur (map (\<lambda>x. if \<not> au_deleted x \<and> au_id x = v then anonymized a x else x) us) u c \<longleftrightarrow> u \<noteq> v \<and> cur us u c"
  by (induction us) (auto simp: relation_Cons anonymized_def)

lemma cur_map_same:
  assumes "\<And>x. au_id (f x) = au_id x \<and> au_current_org (f x) = au_current_org x \<and> au_deleted (f x) = au_deleted x"
  shows "cur (map (\<lambda>x. if P x then f x else x) us) u c = cur us u c"
  using assms by (induction us) (auto simp: relation_Cons)

lemma org_lives_views [views]:
  "org_lives (os @ [o']) k \<longleftrightarrow> org_lives os k \<or> (\<not> ag_deleted o' \<and> ag_id o' = k)"
  "org_lives (map (\<lambda>o'. if ag_id o' = k' then o'\<lparr>ag_deleted := True\<rparr> else o') os) k \<longleftrightarrow> k \<noteq> k' \<and> org_lives os k"
  by (auto simp: org_lives_def own_append own_remove)

lemma user_lives_list:
  "user_lives [] u = False"
  "user_lives (x # us) u \<longleftrightarrow> (\<not> au_deleted x \<and> au_id x = u) \<or> user_lives us u"
  by (auto simp: user_lives_def relation_Cons)

lemma user_lives_append [views]: "user_lives (us @ [x]) u \<longleftrightarrow> user_lives us u \<or> (\<not> au_deleted x \<and> au_id x = u)"
  by (auto simp: user_lives_def cur_append)

lemma user_lives_set_current [views]:
  "user_lives (map (\<lambda>x. if \<not> au_deleted x \<and> au_id x = v then x\<lparr>au_current_org := c'\<rparr> else x) us) u \<longleftrightarrow> user_lives us u"
  by (induction us) (auto simp: user_lives_list)

lemma user_lives_clear [views]:
  "user_lives (map (\<lambda>x. if \<not> au_deleted x \<and> au_current_org x = Some k then x\<lparr>au_current_org := None\<rparr> else x) us) u
     \<longleftrightarrow> user_lives us u"
  by (induction us) (auto simp: user_lives_list)

lemma user_lives_anonymized [views]:
  "user_lives (map (\<lambda>x. if \<not> au_deleted x \<and> au_id x = v then anonymized a x else x) us) u \<longleftrightarrow> u \<noteq> v \<and> user_lives us u"
  by (induction us) (auto simp: user_lives_list anonymized_def)

lemma lro_append [views]: "lro (rs @ [r]) k \<longleftrightarrow> lro rs k \<or> (\<not> ro_deleted r \<and> ro_id r = k)"
  by (auto simp: lro_def)

lemma lro_remove [views]:
  "lro (map (\<lambda>r. if ro_id r = k' then r\<lparr>ro_deleted := True\<rparr> else r) rs) k \<longleftrightarrow> k \<noteq> k' \<and> lro rs k"
  by (induction rs) (auto simp: relation_Cons)

lemma map_if_same [views]:
  assumes "\<And>x. f (h x) = f x"
  shows "map f (map (\<lambda>x. if P x then h x else x) xs) = map f xs"
    "map (f \<circ> (\<lambda>x. if P x then h x else x)) xs = map f xs"
    "map (\<lambda>x. f (if P x then h x else x)) xs = map f xs"
  using assms by (induction xs) auto

lemma keys_simps [views]:
  "org_keys (o'\<lparr>ag_deleted := b\<rparr>) = org_keys o'"
  "member_keys (member_with_status st op' reason src t m) = member_keys m"
  "member_keys (m\<lparr>mb_status := st, mb_left := l, mb_removed := r, mb_removed_by := rb, mb_reason := s\<rparr>) = member_keys m"
  "au_id (anonymized a u) = au_id u"
  "fst (org_keys o') = ag_id o'" "snd (org_keys o') = ag_owner o'" "fst \<circ> org_keys = ag_id"
  "member_keys (m\<lparr>mb_id := i\<rparr>) = member_keys m" "member_keys (new_member oid uid t src) = (oid, uid)"
  "org_keys (o'\<lparr>ag_id := i\<rparr>) = (i, ag_owner o')"
  by (simp_all add: org_keys_def member_keys_def member_with_status_def anonymized_def new_member_def Let_def fun_eq_iff)

lemma global_rows_views [views]:
  "global_rows [] = {}" "global_rows (urs @ urs') = global_rows urs \<union> global_rows urs'"
  "global_rows (r # urs) = (if ur_org r = 0 then insert r (global_rows urs) else global_rows urs)"
  "oid \<noteq> 0 \<Longrightarrow> global_rows (map (\<lambda>i. \<lparr>ur_user = u, ur_org = oid, ur_role = i\<rparr>) ids) = {}"
  by (auto simp: global_rows_def)

lemma set_row_put_distinct:
  "distinct (map key rows) \<Longrightarrow> set (row_put key r rows) = insert r {x \<in> set rows. key x \<noteq> key r}"
  by (auto simp: in_row_put_iff)

lemma global_rows_filter: "global_rows urs \<subseteq> g \<Longrightarrow> global_rows (filter P urs) \<subseteq> g"
  by (auto simp: global_rows_def)

lemma apart_append:
  assumes "equivp (ae_str_eq en)" "apart en f os"
    and "\<And>x. x \<in> set os \<Longrightarrow> \<not> ag_deleted x \<Longrightarrow> \<not> ae_str_eq en (f x) (f o')"
  shows "apart en f (os @ [o'])"
  using assms by (auto simp: apart_def dest: equivp_symp)

lemma apart_remove:
  assumes "apart en f os" "\<And>x. f (x\<lparr>ag_deleted := True\<rparr>) = f x"
  shows "apart en f (map (\<lambda>o'. if ag_id o' = k then o'\<lparr>ag_deleted := True\<rparr> else o') os)"
  using assms by (auto simp: apart_def split: if_splits)

text \<open>A row saved over the row it was read from.\<close>

subsection \<open>Writes that the invariant does not see\<close>

lemma dwp_outbox:
  assumes "\<And>rows. Q () (d\<lparr>ad_outbox := rows\<rparr>)" "E RawErr d"
  shows "dwp (publish_cache_event en ev) Q E d" "dwp (publish_permission_event en pv) Q E d"
    "dwp (publish_subject_binding en u k) Q E d" "dwp (publish_permission_graph en agg k) Q E d"
proof -
  have d: "Q () d" using assms(1) [of "ad_outbox d"] by simp
  show "dwp (publish_cache_event en ev) Q E d"
    unfolding publish_cache_event_def outbox_append_def by (intro dwp_intro d assms)
  show pub: "dwp (publish_permission_event en pv) Q E d" for pv
    unfolding publish_permission_event_def outbox_append_def by (intro dwp_intro d assms)
  show "dwp (publish_subject_binding en u k) Q E d" "dwp (publish_permission_graph en agg k) Q E d"
    unfolding publish_subject_binding_def publish_permission_graph_def by (rule pub)+
qed

lemma dwp_images:
  assumes "\<And>rows. Q () (d\<lparr>ad_images := rows\<rparr>)" "E RawErr d"
  shows "dwp (image_update_category k c) Q E d" "dwp (image_soft_delete ks) Q E d"
proof -
  have d: "Q () d" using assms(1) [of "ad_images d"] by simp
  show "dwp (image_update_category k c) Q E d"
    unfolding image_update_category_def by (intro dwp_intro d assms)
  show "dwp (image_soft_delete ks) Q E d"
    unfolding image_soft_delete_def image_delete_def by (intro dwp_intro d assms)
qed

lemma dwp_avatar_images:
  assumes "\<And>rows. Q () (d\<lparr>ad_images := rows\<rparr>)" "\<And>e rows. E e (d\<lparr>ad_images := rows\<rparr>)"
  shows "dwp (update_avatar_images old new) Q E d"
proof -
  have d: "Q () d" "E e d" for e using assms(1) [of "ad_images d"] assms(2) [of _ "ad_images d"] by simp_all
  show ?thesis
    unfolding update_avatar_images_def by (intro dwp_intro dwp_images d assms) (simp_all add: assms)
qed

lemma dwp_default_role:
  assumes "\<And>r. r \<in> set (ad_roles d) \<Longrightarrow> \<not> ro_deleted r \<Longrightarrow> Q r d" "\<And>e. E e d"
  shows "dwp (resolve_default_org_role en) Q E d"
proof -
  have "dwp (first_role en cs) Q E d" for cs
  proof (induction cs)
    case Nil
    show ?case unfolding first_role.simps by (intro dwp_intro assms)
  next
    case (Cons c cs)
    then show ?case unfolding first_role.simps role_find_by_code_def
      by (intro dwp_intro assms) (auto simp: views dest!: first_eq_Some)
  qed
  then show ?thesis by (simp add: resolve_default_org_role_def)
qed

lemmas repo_defs [acc_defs] =
  org_find_def org_by_id_def org_create_def org_save_def org_remove_def org_by_code_def
  org_by_builtin_key_def org_exists_by_name_def org_remove_all_members_def member_for_update_def
  member_create_def member_set_status_def member_set_all_removed_def member_is_active_def
  org_is_user_in_def org_count_members_def member_active_org_ids_def user_by_id_def user_by_phone_def
  user_exists_by_phone_def user_create_def user_update_def user_update_current_org_def
  user_ids_by_current_org_def user_clear_current_org_def user_update_status_def
  user_disabled_before_def user_soft_delete_anonymize_def map_live_users_def role_by_id_def
  role_find_by_code_def role_create_def role_save_def role_remove_def role_exists_by_code_def
  role_exists_by_code_exclude_def role_active_roles_def role_is_in_use_def role_assign_in_org_def
  role_delete_user_org_def role_replace_user_org_def role_user_roles_by_org_def role_user_global_roles_def

lemma new_row_fields [views]:
  "mb_user (new_member oid uid t src) = uid" "mb_org (new_member oid uid t src) = oid"
  "mb_status (new_member oid uid t src) = member_active"
  "ag_owner (new_org uid req code) = uid" "ag_deleted (new_org uid req code) = False"
  "ag_name (new_org uid req code) = trim_space (qc_name req)" "ag_code (new_org uid req code) = code"
  by (simp_all add: new_member_def new_org_def)

lemmas tx_dests = member_row_of_Some find_active_org find_active_org [OF sym]

lemmas ok_simps = membership_def views live_relations keys_ok_def

lemmas tx_intro = dwp_intro dwp_outbox dwp_images dwp_default_role

end
