(* ===== verification/Access_Reachable.thy ===== *)
theory Access_Reachable
  imports Access_Invariant
begin

text \<open>
  The invariant \<open>access_ok\<close> of theory \<open>Access_Invariant\<close> through the commands: first the bodies of
  the transactions, then the whole service methods whichever calls fail, and by rule induction
  every state that a sequence of commands and handled events reaches.
\<close>

subsection \<open>The bodies of the transactions\<close>

lemma create_org_tx_ok:
  assumes "access_ok en k g d" "user_lives (ad_users d) uid"
   "\<And>o'. o' \<in> set (ad_orgs d) \<Longrightarrow> \<not> ag_deleted o' \<Longrightarrow> \<not> ae_str_eq en (ag_name o') (trim_space (qc_name req))"
   "\<And>o'. o' \<in> set (ad_orgs d) \<Longrightarrow> \<not> ag_deleted o' \<Longrightarrow> \<not> ae_str_eq en (ag_code o') code"
   "equivp (ae_str_eq en)" "uid < ad_next d"
 shows "dwp (create_org_tx en uid req code old) (\<lambda>_. access_ok en k g) (\<lambda>_ _. True) d"
  using assms
  unfolding create_org_tx_def repo_defs
  apply (intro tx_intro TrueI conjI allI impI)
  apply simp_all
  apply (simp_all add: access_ok_def keys_of_def)
  apply (auto simp: ok_simps dest!: first_eq_Some intro!: apart_append)
  done

lemma set_current_org_tx_ok:
  assumes "access_ok en k g d" "act (ad_members d) uid oid"
  shows "dwp (set_current_org_tx en uid old oid) (\<lambda>_. access_ok en k g) (\<lambda>_ _. True) d"
  using assms
  unfolding set_current_org_tx_def repo_defs
  apply (intro tx_intro TrueI conjI allI impI)
  apply simp_all
  apply (simp_all add: access_ok_def keys_of_def)
  apply (auto simp: ok_simps)
  done

lemma dwp_publish_loop:
  assumes "\<And>ob. Q () (d\<lparr>ad_outbox := ob\<rparr>)"
  shows "dwp (svc_iter (\<lambda>u. adb (publish_cache_event en (ev u))) us) Q (\<lambda>_ _. True) d"
proof -
  have "dwp (svc_iter (\<lambda>u. adb (publish_cache_event en (ev u))) us)
      (\<lambda>_ d'. \<exists>ob. d' = d\<lparr>ad_outbox := ob\<rparr>) (\<lambda>_ _. True) d"
  proof (rule dwp_iter)
    show "\<exists>ob. d = d\<lparr>ad_outbox := ob\<rparr>" by (rule exI [of _ "ad_outbox d"]) simp
  qed (auto intro!: tx_intro)
  then show ?thesis by (rule dwp_mono) (use assms in auto)
qed

lemma delete_org_tx_ok:
  assumes "access_ok en k g d"
  shows "dwp (delete_org_tx en uid oid affected) (\<lambda>_. access_ok en k g) (\<lambda>_ _. True) d"
  using assms
  unfolding delete_org_tx_def repo_defs
  apply (intro tx_intro dwp_publish_loop TrueI conjI allI impI)
  apply simp_all
  apply (simp_all add: access_ok_def keys_of_def)
  apply (auto simp: ok_simps global_rows_filter apart_remove)
  done

lemma join_org_tx_ok:
  assumes "access_ok en k g d" "org_lives (ad_orgs d) oid" "oid \<noteq> 0"
  shows "dwp (join_org_tx en uid old oid) (\<lambda>_. access_ok en k g) (\<lambda>_ _. True) d"
  using assms
  unfolding join_org_tx_def repo_defs reset_default_role_def assign_default_org_role_def
  apply (intro tx_intro TrueI conjI allI impI)
  apply simp_all
  apply (simp_all add: access_ok_def keys_of_def)
  apply (auto simp: ok_simps global_rows_filter dest!: member_row_of_Some)
  done

lemma recover_member_tx_ok:
  assumes "access_ok en k g d" "org_lives (ad_orgs d) oid" "oid \<noteq> 0"
  shows "dwp (recover_member_tx en operator oid target reason) (\<lambda>_. access_ok en k g) (\<lambda>_ _. True) d"
  using assms
  unfolding recover_member_tx_def repo_defs reset_default_role_def assign_default_org_role_def
  apply (intro tx_intro TrueI conjI allI impI)
  apply simp_all
  apply (simp_all add: access_ok_def keys_of_def)
  apply (auto simp: ok_simps global_rows_filter dest!: member_row_of_Some)
  done

lemma leave_org_tx_ok:
  assumes "access_ok en k g d" "\<not> own (ad_orgs d) oid uid"
  shows "dwp (leave_org_tx en uid oid reason) (\<lambda>_. access_ok en k g) (\<lambda>_ _. True) d"
  using assms
  unfolding leave_org_tx_def drop_member_tx_def pick_another_active_org_def repo_defs
  apply (intro tx_intro TrueI conjI allI impI)
  apply simp_all
  apply (simp_all add: access_ok_def keys_of_def)
  apply (auto simp: ok_simps global_rows_filter user_row_cur member_status_defs dest!: tx_dests)
  done

lemma kick_member_tx_ok:
  assumes "access_ok en k g d" "\<not> own (ad_orgs d) oid target"
  shows "dwp (kick_member_tx en operator oid target reason) (\<lambda>_. access_ok en k g) (\<lambda>_ _. True) d"
  using assms
  unfolding kick_member_tx_def drop_member_tx_def pick_another_active_org_def repo_defs
  apply (intro tx_intro TrueI conjI allI impI)
  apply simp_all
  apply (simp_all add: access_ok_def keys_of_def)
  apply (auto simp: ok_simps global_rows_filter user_row_cur member_status_defs dest!: tx_dests)
  done

lemma register_tx_ok:
  assumes "access_ok en k g d" "org_lives (ad_orgs d) target" "org_lives (ad_orgs d) allorg" "target \<noteq> 0" "allorg \<noteq> 0"
   "lro (ad_roles d) role" "\<not> au_deleted u" "au_current_org u = Some target"
  shows "dwp (register_tx en u target allorg role) (\<lambda>_. access_ok en k g) (\<lambda>_ _. True) d"
  using assms
  unfolding register_tx_def repo_defs
  apply (intro tx_intro TrueI conjI allI impI)
  apply simp_all
  apply (simp_all add: access_ok_def keys_of_def)
  apply (auto simp: ok_simps global_rows_filter)
  done

lemma assign_role_tx_ok:
  assumes "access_ok en k g d" "act (ad_members d) uid oid" "\<forall>i \<in> set ids. lro (ad_roles d) i"
  "oid \<noteq> 0"
  shows "dwp (assign_role_tx en uid oid ids) (\<lambda>_. access_ok en k g) (\<lambda>_ _. True) d"
  using assms
  unfolding assign_role_tx_def repo_defs
  apply (intro tx_intro TrueI conjI allI impI)
  apply simp_all
  apply (simp_all add: access_ok_def keys_of_def)
  apply (auto simp: ok_simps global_rows_filter)
  done

text \<open>While a user is cleaned up, its current organisation and its ownership may dangle.\<close>

definition membership_but ::
  "nat \<Rightarrow> org_member list \<Rightarrow> access_org list \<Rightarrow> access_user list \<Rightarrow> access_role list \<Rightarrow> user_org_role list \<Rightarrow> bool" where
  "membership_but v ms os us rs urs \<longleftrightarrow>
     (\<forall>u k. act ms u k \<longrightarrow> org_lives os k) \<and>
     (\<forall>u k. cur us u (Some k) \<longrightarrow> u \<noteq> v \<longrightarrow> act ms u k) \<and>
     (\<forall>k u. own os k u \<longrightarrow> user_lives us u \<longrightarrow> u \<noteq> v \<longrightarrow> act ms u k) \<and>
     (\<forall>r \<in> set urs. lro rs (ur_role r) \<and> (ur_org r \<noteq> 0 \<longrightarrow> act ms (ur_user r) (ur_org r)))"

definition access_ok_but :: "nat \<Rightarrow> 'p access_env \<Rightarrow> nat \<Rightarrow> user_org_role set \<Rightarrow> access_db \<Rightarrow> bool" where
  "access_ok_but v en k g d \<longleftrightarrow>
     keys_of d \<and>
     membership_but v (ad_members d) (ad_orgs d) (ad_users d) (ad_roles d) (ad_user_roles d) \<and>
     apart en ag_name (ad_orgs d) \<and> apart en ag_code (ad_orgs d) \<and>
     anchored k (ad_roles d) \<and> global_rows (ad_user_roles d) \<subseteq> g"

lemma cleanup_org_tx_ok:
  assumes "access_ok_but uid en k g d"
  shows "dwp (cleanup_org_tx en uid oid) (\<lambda>_. access_ok_but uid en k g) (\<lambda>_ _. True) d"
  using assms
  unfolding cleanup_org_tx_def repo_defs
  apply (intro tx_intro TrueI conjI allI impI)
  apply simp_all
  apply (simp_all add: access_ok_but_def keys_of_def)
  apply (auto simp: membership_but_def ok_simps global_rows_filter member_status_defs)
  done

lemma cleanup_user_tx_ok:
  assumes "access_ok en k g d"
  shows "dwp (cleanup_user_tx en uid current orgs) (\<lambda>_. access_ok en k g) (\<lambda>_ _. True) d"
proof -
  have "access_ok_but uid en k g d"
    using assms by (auto simp: access_ok_def access_ok_but_def membership_def membership_but_def)
  then have "dwp (svc_iter (cleanup_org_tx en uid) orgs) (\<lambda>_. access_ok_but uid en k g) (\<lambda>_ _. True) d"
    by (intro dwp_iter cleanup_org_tx_ok)
  moreover have "dwp (svc_bind (user_soft_delete_anonymize en uid) (\<lambda>_.
       adb (publish_cache_event en (user_deleted_event uid current orgs)))) (\<lambda>_. access_ok en k g) (\<lambda>_ _. True) d'"
    if "access_ok_but uid en k g d'" for d'
    using that
    unfolding repo_defs
    apply (intro tx_intro TrueI conjI allI impI)
    apply simp_all
    apply (simp_all add: access_ok_def access_ok_but_def keys_of_def)
    apply (auto simp: membership_but_def ok_simps)
    done
  ultimately show ?thesis
    unfolding cleanup_user_tx_def by (auto intro: dwp_bind dwp_mono)
qed

lemma cur_put:
  assumes "distinct (map au_id us)" "x \<in> set us" "au_id v = au_id x" "au_current_org v = au_current_org x"
    "au_deleted v = au_deleted x"
  shows "cur (row_put au_id v us) u c = cur us u c"
  using assms by (induction us) (auto simp: relation_Cons image_iff)

lemma user_saved_ok:
  assumes "access_ok en k g d" "x \<in> set (ad_users d)" "au_id v = au_id x" "au_current_org v = au_current_org x"
    "au_deleted v = au_deleted x"
  shows "access_ok en k g (d\<lparr>ad_users := row_put au_id v (ad_users d)\<rparr>)"
proof -
  have dist: "distinct (map au_id (ad_users d))"
    using assms(1) by (simp add: access_ok_def keys_of_def keys_ok_def)
  have "map au_id (row_put au_id v (ad_users d)) = map au_id (ad_users d)"
    using map_row_put [of au_id v x au_id "ad_users d"] row_get_in_set [OF dist assms(2)] assms(3) by simp
  moreover have "cur (row_put au_id v (ad_users d)) = cur (ad_users d)"
    using cur_put [OF dist assms(2-5)] by (simp add: fun_eq_iff)
  ultimately show ?thesis
    using assms(1) by (simp add: access_ok_def keys_of_def membership_def user_lives_def)
qed

lemma own_put:
  assumes "distinct (map ag_id os)" "x \<in> set os" "ag_id v = ag_id x" "ag_owner v = ag_owner x"
    "ag_deleted v = ag_deleted x"
  shows "own (row_put ag_id v os) k u = own os k u"
  using assms by (induction os) (auto simp: relation_Cons image_iff)

lemma lro_put:
  assumes "distinct (map ro_id rs)" "x \<in> set rs" "ro_id v = ro_id x" "ro_deleted v = ro_deleted x"
  shows "lro (row_put ro_id v rs) k = lro rs k"
  using assms by (induction rs) (auto simp: relation_Cons image_iff)

lemma apart_put:
  assumes "apart en f os" "distinct (map ag_id os)" "equivp (ae_str_eq en)"
    and "\<And>y. y \<in> set os \<Longrightarrow> \<not> ag_deleted y \<Longrightarrow> ag_id y \<noteq> ag_id v \<Longrightarrow> \<not> ae_str_eq en (f y) (f v)"
  shows "apart en f (row_put ag_id v os)"
  using assms(1,4) unfolding apart_def set_row_put_distinct [OF assms(2)] by (auto dest: equivp_symp [OF assms(3)])

lemma org_saved_ok:
  assumes "access_ok en k g d" "x \<in> set (ad_orgs d)" "ag_id v = ag_id x" "ag_owner v = ag_owner x"
    "ag_deleted v = ag_deleted x" "equivp (ae_str_eq en)"
    "\<And>f y. f \<in> {ag_name, ag_code} \<Longrightarrow> y \<in> set (ad_orgs d) \<Longrightarrow> \<not> ag_deleted y \<Longrightarrow> ag_id y \<noteq> ag_id v \<Longrightarrow>
      \<not> ae_str_eq en (f y) (f v)"
  shows "access_ok en k g (d\<lparr>ad_orgs := row_put ag_id v (ad_orgs d)\<rparr>)"
proof -
  have dist: "distinct (map ag_id (ad_orgs d))"
    using assms(1) by (simp add: access_ok_def keys_of_def keys_ok_def views)
  have "map org_keys (row_put ag_id v (ad_orgs d)) = map org_keys (ad_orgs d)"
    using map_row_put [of org_keys v x ag_id "ad_orgs d"] row_get_in_set [OF dist assms(2)] assms(3,4)
    by (simp add: org_keys_def)
  moreover have "own (row_put ag_id v (ad_orgs d)) = own (ad_orgs d)"
    using own_put [OF dist assms(2-5)] by (simp add: fun_eq_iff)
  moreover have "apart en f (row_put ag_id v (ad_orgs d))" if "f \<in> {ag_name, ag_code}" for f
    using assms(1,7) that by (intro apart_put dist assms(6)) (auto simp: access_ok_def)
  ultimately show ?thesis
    using assms(1) by (simp add: access_ok_def keys_of_def membership_def org_lives_def)
qed

lemma role_saved_ok:
  assumes "access_ok en k g d" "x \<in> set (ad_roles d)" "ro_id v = ro_id x" "ro_deleted v = ro_deleted x"
    "ro_code x = role_super_admin \<Longrightarrow> ro_code v = role_super_admin" "role_code_free en d (Some (ro_id v)) (ro_code v)"
    "equivp (ae_str_eq en)"
  shows "access_ok en k g (d\<lparr>ad_roles := row_put ro_id v (ad_roles d)\<rparr>)"
proof -
  have dist: "distinct (map ro_id (ad_roles d))" and anch: "anchored k (ad_roles d)"
    using assms(1) by (simp_all add: access_ok_def keys_of_def keys_ok_def)
  have "map ro_id (row_put ro_id v (ad_roles d)) = map ro_id (ad_roles d)"
    using map_row_put [of ro_id v x ro_id "ad_roles d"] row_get_in_set [OF dist assms(2)] assms(3) by simp
  moreover have "lro (row_put ro_id v (ad_roles d)) = lro (ad_roles d)"
    using lro_put [OF dist assms(2-4)] by (simp add: fun_eq_iff)
  moreover have "anchored k (row_put ro_id v (ad_roles d))"
  proof (cases "ro_id v = k")
    case True
    then have "ro_code x = role_super_admin \<and> \<not> ro_deleted x"
      using anch assms(2,3) dist by (auto simp: anchored_def distinct_map inj_on_def)
    then show ?thesis using anch assms(4,5) True unfolding anchored_def set_row_put_distinct [OF dist] by auto
  next
    case False
    obtain r where r: "r \<in> set (ad_roles d)" "ro_id r = k" "ro_code r = role_super_admin" "\<not> ro_deleted r"
      using anch by (auto simp: anchored_def)
    then have "\<not> ae_str_eq en role_super_admin (ro_code v)"
      using assms(6) False by (auto simp: role_code_free_def)
    then have "ro_code v \<noteq> role_super_admin"
      using equivp_reflp [OF assms(7)] by metis
    moreover have "\<forall>q \<in> set (ad_roles d). ro_code q = role_super_admin \<longrightarrow> ro_id q = k"
      using anch by (simp add: anchored_def)
    ultimately show ?thesis
      unfolding anchored_def set_row_put_distinct [OF dist] using r False by (intro conjI bexI [of _ r]) auto
  qed
  ultimately show ?thesis
    using assms(1) by (simp add: access_ok_def keys_of_def membership_def)
qed

subsection \<open>Methods that only read\<close>

lemma reads_trivial [reads_intro]:
  "reads (policy_call f)" "reads (aread h)" "reads (broadcast_reload en)" "reads (acall (\<lambda>w. (h' w, w)))"
  "reads reload_policy" "reads (acall (\<lambda>w. ((), w\<lparr>aw_sessions := z w\<rparr>)))"
  by (auto simp: broadcast_reload_def reload_policy_def intro!: reads_intro)

lemma reads_clear_all [reads_intro]: "reads (clear_all_policies en)"
  by (auto simp: clear_all_policies_def acall_def atick_def intro!: readsI split: if_splits)

lemma reads_authorize [reads_intro]:
  "reads (access_global_roles u)" "reads (access_is_super_admin u)" "reads (access_authorize en u k cap)"
  "reads (authorize_org_action en u k a)" "reads (authorize_member_action en u k a)"
  "reads (populate_super_admin x)"
proof -
  show 1: "reads (access_global_roles u)" for u
    unfolding access_global_roles_def repo_defs by (intro reads_intro)
  show 2: "reads (access_is_super_admin u)" for u
    unfolding access_is_super_admin_def by (intro reads_intro 1)
  show 3: "reads (access_authorize en u k cap)" for cap
    unfolding access_authorize_def access_can_operate_def access_check_subject_capability_def
      policy_has_permission_def repo_defs Let_def by (intro reads_intro 1)
  show "reads (authorize_org_action en u k a)" "reads (authorize_member_action en u k a)" "reads (populate_super_admin x)"
    unfolding authorize_org_action_def authorize_member_action_def populate_super_admin_def by (intro reads_intro 2 3)+
qed

lemma reads_sync [reads_intro]: "reads (sync_subject_roles en u k)"
  unfolding sync_subject_roles_def replace_subject_roles_def add_roles_def repo_defs Let_def by (intro reads_intro)

lemma reads_rebuild [reads_intro]: "reads (rebuild_all en)"
  unfolding rebuild_all_def build_policy_snapshot_def build_subject_roles_def build_permissions_def
    rebuild_from_snapshot_def add_snapshot_subject_def add_snapshot_permission_def add_roles_def Let_def
  by (intro reads_intro)

lemma reads_handle_event: "reads (handle_permission_event en ev)"
  unfolding handle_permission_event_def by (intro reads_intro)

lemma reads_level [reads_intro]: "reads (resolve_operator_level u k)"
  unfolding resolve_operator_level_def repo_defs by (intro reads_intro)

lemma dwp_invite_code:
  assumes "\<And>c. (\<And>o'. o' \<in> set (ad_orgs d) \<Longrightarrow> \<not> ag_deleted o' \<Longrightarrow> \<not> ae_str_eq en (ag_code o') c) \<Longrightarrow> Q c d"
    and "\<And>e. E e d"
  shows "dwp (generate_invite_code en n) Q E d"
proof (induction n)
  case 0
  show ?case unfolding generate_invite_code.simps by (intro dwp_intro assms)
next
  case (Suc n)
  then show ?case unfolding generate_invite_code.simps Let_def repo_defs
    by (intro dwp_intro assms) (auto simp: first_eq_def find_None_iff_all views)
qed

lemma reads_after:
  "reads m \<Longrightarrow> J d \<Longrightarrow> dwp m (\<lambda>_. J) (\<lambda>_. J) d"
  by (rule dwp_reads)

lemma tx_ok:
  assumes "dwp m (\<lambda>_. J) (\<lambda>_ _. True) d" "\<And>a d. J d \<Longrightarrow> Q a d" "\<And>e. E e d"
  shows "dwp (atx m) Q E d"
  using assms by (auto intro!: dwp_atx elim!: dwp_mono)

lemma access_ok_bounds:
  "access_ok en k g d \<Longrightarrow> user_lives (ad_users d) u \<Longrightarrow> u < ad_next d \<and> u \<noteq> 0"
  "access_ok en k g d \<Longrightarrow> org_lives (ad_orgs d) u \<Longrightarrow> u < ad_next d \<and> u \<noteq> 0"
  by (auto simp: access_ok_def keys_of_def keys_ok_def user_lives_def cur_def org_lives_def own_def views)

lemma access_ok_org:
  "access_ok en k g d \<Longrightarrow> o' \<in> set (ad_orgs d) \<Longrightarrow> 0 < ag_id o' \<and> ag_id o' < ad_next d"
  by (auto simp: access_ok_def keys_of_def keys_ok_def views)

lemma org_row_own:
  assumes "access_ok en k g d" "org_row_of d oid = Some o'"
  shows "own (ad_orgs d) oid u \<longleftrightarrow> u = ag_owner o'"
proof -
  have "distinct (map ag_id (ad_orgs d))"
    using assms(1) by (simp add: access_ok_def keys_of_def keys_ok_def views)
  then show ?thesis
    using row_of_rows(1) [OF assms(2)] by (auto simp: own_def distinct_map inj_on_def)
qed

lemma create_org_ok:
  assumes "access_ok en k g d" "equivp (ae_str_eq en)"
  shows "dwp (create_org en uid req) (\<lambda>_. access_ok en k g) (\<lambda>_. access_ok en k g) d"
  using assms
  unfolding create_org_def repo_defs
  apply (intro dwp_intro dwp_invite_code tx_ok [where J = "access_ok en k g"] create_org_tx_ok dwp_reads [OF reads_sync])
  apply (auto simp: first_eq_def find_None_iff_all views intro: row_of_lives dest: access_ok_bounds access_ok_org row_of_lives)
  done

lemma delete_org_ok:
  assumes "access_ok en k g d"
  shows "dwp (delete_org en uid oid force) (\<lambda>_. access_ok en k g) (\<lambda>_. access_ok en k g) d"
  unfolding delete_org_def repo_defs
  by (rule dwp_bind, rule dwp_reads [OF reads_authorize(4)])
    (use assms in \<open>auto intro!: dwp_intro tx_ok [where J = "access_ok en k g"] delete_org_tx_ok\<close>)

lemma set_current_org_ok:
  assumes "access_ok en k g d"
  shows "dwp (set_current_org en uid oid) (\<lambda>_. access_ok en k g) (\<lambda>_. access_ok en k g) d"
  unfolding set_current_org_def repo_defs
  using assms
  apply (intro dwp_intro tx_ok [where J = "access_ok en k g"] set_current_org_tx_ok conjI allI impI)
  apply (auto simp: views)
  done

lemma join_org_ok:
  assumes "access_ok en k g d"
  shows "dwp (join_org_by_invite_code en uid code) (\<lambda>_. access_ok en k g) (\<lambda>_. access_ok en k g) d"
  unfolding join_org_by_invite_code_def repo_defs
  using assms
  apply (intro dwp_intro tx_ok [where J = "access_ok en k g"] join_org_tx_ok dwp_reads [OF reads_sync] conjI allI impI)
  apply (auto simp: views live_relations dest!: first_eq_Some dest: access_ok_bounds access_ok_org simp: org_row_own)
  done

lemma leave_org_ok:
  assumes "access_ok en k g d"
  shows "dwp (leave_org en uid oid reason) (\<lambda>_. access_ok en k g) (\<lambda>_. access_ok en k g) d"
  unfolding leave_org_def repo_defs
  using assms
  apply (intro dwp_intro tx_ok [where J = "access_ok en k g"] leave_org_tx_ok dwp_reads [OF reads_sync] conjI allI impI)
  apply (auto simp: views live_relations dest!: first_eq_Some dest: access_ok_bounds access_ok_org simp: org_row_own)
  done

lemma kick_member_ok:
  assumes "access_ok en k g d"
  shows "dwp (kick_member en operator oid target reason) (\<lambda>_. access_ok en k g) (\<lambda>_. access_ok en k g) d"
  unfolding kick_member_def repo_defs
  using assms
  apply (intro dwp_intro tx_ok [where J = "access_ok en k g"] kick_member_tx_ok dwp_reads [OF reads_sync] dwp_reads [OF reads_authorize(5)] conjI allI impI)
  apply (auto simp: views live_relations dest!: first_eq_Some dest: access_ok_bounds access_ok_org simp: org_row_own)
  done

lemma recover_member_ok:
  assumes "access_ok en k g d"
  shows "dwp (recover_member en operator oid target reason) (\<lambda>_. access_ok en k g) (\<lambda>_. access_ok en k g) d"
  unfolding recover_member_def repo_defs
  using assms
  apply (intro dwp_intro tx_ok [where J = "access_ok en k g"] recover_member_tx_ok dwp_reads [OF reads_sync] dwp_reads [OF reads_authorize(5)] conjI allI impI)
  apply (auto simp: views live_relations dest!: first_eq_Some dest: access_ok_bounds access_ok_org row_of_lives)
  done

definition org_change :: "'p access_env \<Rightarrow> access_db \<Rightarrow> access_org \<Rightarrow> access_org \<Rightarrow> bool" where
  "org_change en d o' v \<longleftrightarrow>
     ag_id v = ag_id o' \<and> ag_owner v = ag_owner o' \<and> ag_deleted v = ag_deleted o' \<and>
     (\<forall>f \<in> {ag_name, ag_code}. f v = f o' \<or>
        (\<forall>y \<in> set (ad_orgs d). \<not> ag_deleted y \<longrightarrow> ag_id y \<noteq> ag_id o' \<longrightarrow> \<not> ae_str_eq en (f y) (f v)))"

lemma org_change_saved:
  assumes "access_ok en k g d" "equivp (ae_str_eq en)" "org_row_of d oid = Some o'" "org_change en d o' v"
  shows "access_ok en k g (d\<lparr>ad_orgs := row_put ag_id v (ad_orgs d)\<rparr>)"
proof (rule org_saved_ok [OF assms(1) _ _ _ _ assms(2)])
  note row = row_of_rows(1) [OF assms(3)]
  show "o' \<in> set (ad_orgs d)" using row by simp
  show "ag_id v = ag_id o'" "ag_owner v = ag_owner o'" "ag_deleted v = ag_deleted o'"
    using assms(4) by (simp_all add: org_change_def)
  fix f :: "access_org \<Rightarrow> string" and y assume f: "f \<in> {ag_name, ag_code}" and y: "y \<in> set (ad_orgs d)" "\<not> ag_deleted y" "ag_id y \<noteq> ag_id v"
  have "\<not> ae_str_eq en (f y) (f o')"
    using assms(1,4) f y row by (auto simp: access_ok_def apart_def org_change_def)
  then show "\<not> ae_str_eq en (f y) (f v)"
    using assms(4) f y by (auto simp: org_change_def)
qed

lemma dwp_update_org_name:
  assumes "\<And>v. org_change en d o' v \<Longrightarrow> Q v d" "\<And>e. E e d"
  shows "dwp (update_org_name en name o') Q E d"
  unfolding update_org_name_def repo_defs
  by (intro dwp_intro assms) (auto simp: org_change_def views)

lemma dwp_update_org_code:
  assumes "access_ok en k g d" "equivp (ae_str_eq en)" "org_change en d o' x"
    and "\<And>v. org_change en d o' v \<Longrightarrow> Q v d" "\<And>e. E e d"
  shows "dwp (update_org_code en code x) Q E d"
proof -
  have free: "org_change en d o' (x\<lparr>ag_code := c\<rparr>)"
    if "first_eq en ag_code c (live_orgs d) = None \<or>
      (\<exists>z. first_eq en ag_code c (live_orgs d) = Some z \<and> ag_id z = ag_id x)" for c
  proof -
    have "\<not> ae_str_eq en (ag_code y) c"
      if y: "y \<in> set (ad_orgs d)" "\<not> ag_deleted y" "ag_id y \<noteq> ag_id o'" for y
    proof
      assume c: "ae_str_eq en (ag_code y) c"
      then obtain z where z: "first_eq en ag_code c (live_orgs d) = Some z" "ag_id z = ag_id x"
        using \<open>_ \<or> _\<close> y by (auto simp: first_eq_def find_None_iff_all views)
      then have "z \<in> set (live_orgs d)" "ae_str_eq en (ag_code z) c" by (auto dest: first_eq_Some)
      then have "ae_str_eq en (ag_code y) (ag_code z)"
        using c equivp_symp [OF assms(2)] equivp_transp [OF assms(2)] by blast
      then show False
        using assms(1,3) y z(2) \<open>z \<in> set (live_orgs d)\<close> by (auto simp: access_ok_def apart_def views org_change_def)
    qed
    then show ?thesis using assms(3) by (simp add: org_change_def)
  qed
  show ?thesis
    unfolding update_org_code_def repo_defs
    by (intro dwp_intro assms) (auto intro!: free)
qed

lemma org_change_other_columns:
  "org_change en d o' v \<Longrightarrow> org_change en d o' (v\<lparr>ag_desc := s\<rparr>)"
  "org_change en d o' v \<Longrightarrow> org_change en d o' (v\<lparr>ag_avatar := s\<rparr>)"
  "org_change en d o' v \<Longrightarrow> org_change en d o' (v\<lparr>ag_avatar_id := i\<rparr>)"
  by (simp_all add: org_change_def)

lemma update_org_tx_ok:
  assumes "access_ok en k g d" "equivp (ae_str_eq en)"
  shows "dwp (update_org_tx en uid oid req) (\<lambda>_. access_ok en k g) (\<lambda>_ _. True) d"
  unfolding update_org_tx_def Let_def org_save_def org_by_id_def org_find_def
  apply (intro dwp_intro dwp_reads [OF reads_authorize(2)] dwp_update_org_name dwp_update_org_code [OF assms]
    dwp_avatar_images TrueI conjI allI impI)
  using assms
  apply (auto intro!: org_change_saved org_change_other_columns split: option.splits)
  done

lemma update_org_ok:
  assumes "access_ok en k g d" "equivp (ae_str_eq en)"
  shows "dwp (update_org en uid oid req) (\<lambda>_. access_ok en k g) (\<lambda>_. access_ok en k g) d"
  unfolding update_org_def
  using assms
  by (intro dwp_intro tx_ok [where J = "access_ok en k g"] update_org_tx_ok dwp_reads [OF reads_authorize(4)])

subsection \<open>Accounts\<close>

lemma register_ok:
  assumes "access_ok en k g d"
  shows "dwp (register en req) (\<lambda>_. access_ok en k g) (\<lambda>_. access_ok en k g) d"
  unfolding register_def org_by_builtin_key_def org_by_code_def user_exists_by_phone_def user_by_id_def
  using assms
  apply (intro dwp_intro tx_ok [where J = "access_ok en k g"] register_tx_ok dwp_default_role
    dwp_reads [OF reads_sync] dwp_reads [OF reads_authorize(6)] conjI allI impI)
  apply (auto simp: views live_relations new_user_def dest!: first_eq_Some find_SomeD dest: access_ok_org)
  done

lemma user_changed_ok:
  assumes "access_ok en k g d" "user_row_of d u = Some x" "au_id v = au_id x"
    "au_current_org v = au_current_org x" "au_deleted v = au_deleted x"
  shows "access_ok en k g (d\<lparr>ad_users := row_put au_id v (ad_users d)\<rparr>)"
  using user_saved_ok [OF assms(1)] row_of_rows(2) [OF assms(2)] assms(3-) by blast

lemma changed_profile_same [simp]:
  "au_id (changed_profile req pair u) = au_id u" "au_deleted (changed_profile req pair u) = au_deleted u"
  "au_current_org (changed_profile req pair u) = au_current_org u"
  by (auto simp: changed_profile_def Let_def split: option.splits)

lemma update_profile_ok:
  assumes "access_ok en k g d"
  shows "dwp (update_profile en uid req) (\<lambda>_. access_ok en k g) (\<lambda>_. access_ok en k g) d"
  unfolding update_profile_def update_profile_tx_def user_update_def user_by_id_def Let_def
  using assms
  apply (intro dwp_bind tx_ok [where J = "access_ok en k g"] dwp_intro dwp_avatar_images dwp_outbox
      dwp_reads [OF reads_authorize(6)] conjI allI impI TrueI)
  apply (auto intro!: user_changed_ok)
  done

lemma change_phone_ok:
  assumes "access_ok en k g d"
  shows "dwp (change_phone en uid req) (\<lambda>_. access_ok en k g) (\<lambda>_. access_ok en k g) d"
  unfolding change_phone_def user_update_def user_by_id_def user_exists_by_phone_def
  using assms
  apply (intro dwp_intro dwp_reads [OF reads_authorize(6)] conjI allI impI TrueI)
  apply (auto intro!: user_changed_ok)
  done

lemma change_password_ok:
  assumes "access_ok en k g d"
  shows "dwp (change_password en uid old new) (\<lambda>_. access_ok en k g) (\<lambda>_. access_ok en k g) d"
  unfolding change_password_def user_update_def user_by_id_def
  using assms
  apply (intro dwp_intro conjI allI impI TrueI)
  apply (auto intro!: user_changed_ok)
  done

lemma users_mapped_ok:
  assumes "access_ok en k g d"
    and "\<And>x. au_id (h x) = au_id x \<and> au_current_org (h x) = au_current_org x \<and> au_deleted (h x) = au_deleted x"
  shows "access_ok en k g (d\<lparr>ad_users := map (\<lambda>x. if P x then h x else x) (ad_users d)\<rparr>)"
proof -
  have "cur (map (\<lambda>x. if P x then h x else x) (ad_users d)) = cur (ad_users d)"
    by (simp add: fun_eq_iff cur_map_same [OF assms(2)])
  moreover have "map au_id (map (\<lambda>x. if P x then h x else x) (ad_users d)) = map au_id (ad_users d)"
    by (rule map_if_same) (simp add: assms(2))
  ultimately show ?thesis
    using assms(1) by (simp add: access_ok_def keys_of_def membership_def user_lives_def del: map_map)
qed

lemma apply_user_status_ok:
  assumes "access_ok en k g d"
  shows "dwp (apply_user_status en operator target st reason) (\<lambda>_. access_ok en k g) (\<lambda>_. access_ok en k g) d"
  unfolding apply_user_status_def apply_user_status_tx_def user_update_status_def user_by_id_def map_live_users_def
  using assms
  apply (intro dwp_bind tx_ok [where J = "access_ok en k g"] dwp_intro dwp_outbox dwp_acall conjI allI impI TrueI)
  apply (auto intro!: users_mapped_ok)
  done

lemma update_user_status_ok:
  assumes "access_ok en k g d"
  shows "dwp (update_user_status en operator target req) (\<lambda>_. access_ok en k g) (\<lambda>_. access_ok en k g) d"
    "dwp (deactivate_account en target r) (\<lambda>_. access_ok en k g) (\<lambda>_. access_ok en k g) d"
  unfolding update_user_status_def deactivate_account_def Let_def
  by (intro dwp_intro apply_user_status_ok assms)+

lemma check_role_ids_Inr:
  "check_role_ids items ids = Inr x \<Longrightarrow> i \<in> set ids \<Longrightarrow>
     \<exists>it \<in> set items. ro_id (mx_role it) = i \<and> mx_assignable it"
  by (induction ids) (auto split: option.splits if_splits dest!: find_SomeD)

lemma dwp_matrix:
  assumes "\<And>mx. act (ad_members d) target oid \<Longrightarrow> oid \<noteq> 0 \<Longrightarrow>
      \<forall>it \<in> set (rx_roles mx). mx_role it \<in> set (ad_roles d) \<and> \<not> ro_deleted (mx_role it) \<and>
        (mx_assignable it \<longrightarrow> ro_code (mx_role it) \<noteq> role_super_admin) \<Longrightarrow> Q mx d"
    and "\<And>e. E e d"
  shows "dwp (build_user_role_matrix en operator target oid) Q E d"
  unfolding build_user_role_matrix_def user_by_id_def member_is_active_def role_user_roles_by_org_def role_active_roles_def
  apply (intro dwp_intro dwp_reads [OF reads_authorize(3)] dwp_reads [OF reads_level] assms)
  apply (auto simp: views matrix_role_item_def matrix_assignable_def)
  done

lemma normalized_role_ids:
  assumes "check_role_ids items ids = Inr x" "i \<in> set (normalize_user_role_ids ids)"
  shows "\<exists>it \<in> set items. ro_id (mx_role it) = i \<and> mx_assignable it"
  using check_role_ids_Inr [OF assms(1)] set_uniq_by_subset assms(2)
  by (fastforce simp: normalize_user_role_ids_def)

lemma assign_role_ok:
  assumes "access_ok en k g d"
  shows "dwp (assign_role en operator uid oid ids) (\<lambda>_. access_ok en k g) (\<lambda>_. access_ok en k g) d"
  unfolding assign_role_def
  using assms
  apply (intro dwp_intro dwp_matrix tx_ok [where J = "access_ok en k g"] assign_role_tx_ok dwp_reads [OF reads_sync] conjI allI impI)
  apply (auto simp: live_relations dest!: normalized_role_ids)
  done

lemma cleanup_user_ok:
  assumes "access_ok en k g d"
  shows "dwp (cleanup_user en u) (\<lambda>_. access_ok en k g) (\<lambda>_. access_ok en k g) d"
  unfolding cleanup_user_def member_active_org_ids_def
  using assms
  by (intro dwp_intro tx_ok [where J = "access_ok en k g"] cleanup_user_tx_ok dwp_reads [OF reads_iter] reads_intro)

lemma dwp_iter_rule:
  assumes "\<And>x d. x \<in> set xs \<Longrightarrow> J d \<Longrightarrow> dwp (f x) (\<lambda>_. J) (\<lambda>_. J) d" "J d"
    and "\<And>d. J d \<Longrightarrow> Q () d" "\<And>e d. J d \<Longrightarrow> E e d"
  shows "dwp (svc_iter f xs) Q E d"
  by (rule dwp_mono [OF dwp_iter [where J = J and E = "\<lambda>_. J"]]) (use assms in auto)

lemma cleanup_disabled_users_ok:
  assumes "access_ok en k g d"
  shows "dwp (cleanup_disabled_users en) (\<lambda>_. access_ok en k g) (\<lambda>_. access_ok en k g) d"
  unfolding cleanup_disabled_users_def user_disabled_before_def
  using assms
  by (intro dwp_intro dwp_iter_rule [where J = "access_ok en k g"] cleanup_user_ok)

subsection \<open>Roles, menus and APIs\<close>

lemma anchored_append:
  assumes "anchored k rs" "ro_code r \<noteq> role_super_admin"
  shows "anchored k (rs @ [r])"
  using assms by (auto simp: anchored_def)

lemma create_role_ok:
  assumes "access_ok en k g d" "equivp (ae_str_eq en)"
  shows "dwp (create_role en req) (\<lambda>_. access_ok en k g) (\<lambda>_. access_ok en k g) d"
proof -
  have "c \<noteq> role_super_admin" if "role_code_free en d None c" for c
  proof
    assume c: "c = role_super_admin"
    obtain r where "r \<in> set (ad_roles d)" "ro_code r = role_super_admin"
      using assms(1) by (auto simp: access_ok_def anchored_def)
    then show False using that c equivp_reflp [OF assms(2)] by (auto simp: role_code_free_def)
  qed
  then show ?thesis
    unfolding create_role_def role_exists_by_code_def role_create_def Let_def
    using assms
    apply (intro dwp_intro)
    apply (auto simp: access_ok_def keys_of_def keys_ok_def membership_def views intro!: anchored_append)
    done
qed

lemma update_role_ok:
  assumes "access_ok en k g d" "equivp (ae_str_eq en)"
  shows "dwp (update_role en i req) (\<lambda>_. access_ok en k g) (\<lambda>_. access_ok en k g) d"
proof -
  have trim: "trim_space role_super_admin = role_super_admin"
    by (simp add: trim_space_def role_super_admin_def is_space_def)
  have saved: "access_ok en k g (d\<lparr>ad_roles := row_put ro_id v (ad_roles d)\<rparr>)"
    if "role_row_of d i = Some r" "ro_id v = ro_id r" "ro_deleted v = ro_deleted r"
      "ro_code r = role_super_admin \<longrightarrow> ro_code v = role_super_admin" "role_code_free en d (Some (ro_id v)) (ro_code v)"
    for r v
    using role_saved_ok [OF assms(1) _ that(2,3) _ that(5) assms(2)] row_of_rows(3) [OF that(1)] that(4) by blast
  show ?thesis
    unfolding update_role_def update_role_tx_def role_by_id_def update_role_code_def role_exists_by_code_exclude_def role_save_def Let_def
    using assms
    apply (intro dwp_intro dwp_outbox tx_ok [where J = "access_ok en k g"] conjI allI impI TrueI)
    apply (auto intro!: saved simp: is_builtin_role_def builtin_role_codes_def trim split: option.splits)
    done
qed

lemma anchored_remove:
  "anchored k rs \<Longrightarrow> i \<noteq> k \<Longrightarrow> anchored k (map (\<lambda>r. if ro_id r = i then r\<lparr>ro_deleted := True\<rparr> else r) rs)"
  by (auto simp: anchored_def split: if_splits)

lemma anchored_row:
  assumes "anchored k (ad_roles d)" "distinct (map ro_id (ad_roles d))" "role_row_of d i = Some r"
    "\<not> is_builtin_role (ro_code r)"
  shows "i \<noteq> k"
  using assms(1,2,4) row_of_rows(3) [OF assms(3)]
  by (auto simp: anchored_def distinct_map inj_on_def is_builtin_role_def builtin_role_codes_def)

lemma delete_role_ok:
  assumes "access_ok en k g d"
  shows "dwp (delete_role en i) (\<lambda>_. access_ok en k g) (\<lambda>_. access_ok en k g) d"
  unfolding delete_role_def delete_role_tx_def role_by_id_def role_is_in_use_def role_remove_def role_clear_menus_def role_clear_apis_def
  using assms
  apply (intro dwp_intro dwp_outbox tx_ok [where J = "access_ok en k g"] conjI allI impI TrueI)
  apply simp_all
  apply (auto simp: access_ok_def keys_of_def keys_ok_def membership_def views intro!: anchored_remove dest: anchored_row)
  done

subsection \<open>Commands on the other tables\<close>

text \<open>A property of users, organisations, members, roles and role rows only.\<close>

definition insensitive :: "(access_db \<Rightarrow> bool) \<Rightarrow> bool" where
  "insensitive J \<longleftrightarrow>
     (\<forall>d. J d \<longrightarrow> J (d\<lparr>ad_next := Suc (ad_next d)\<rparr>) \<and>
        (\<forall>x. J (d\<lparr>ad_menus := x\<rparr>)) \<and> (\<forall>x. J (d\<lparr>ad_apis := x\<rparr>)) \<and> (\<forall>x. J (d\<lparr>ad_role_menus := x\<rparr>)) \<and>
        (\<forall>x. J (d\<lparr>ad_menu_apis := x\<rparr>)) \<and> (\<forall>x. J (d\<lparr>ad_role_apis := x\<rparr>)) \<and> (\<forall>x. J (d\<lparr>ad_role_caps := x\<rparr>)) \<and>
        (\<forall>x. J (d\<lparr>ad_images := x\<rparr>)) \<and> (\<forall>x. J (d\<lparr>ad_outbox := x\<rparr>)))"

lemma insensitiveD:
  assumes "insensitive J" "J d"
  shows "J (d\<lparr>ad_next := Suc (ad_next d)\<rparr>)" "J (d\<lparr>ad_menus := me\<rparr>)" "J (d\<lparr>ad_apis := ap\<rparr>)"
    "J (d\<lparr>ad_role_menus := rm\<rparr>)" "J (d\<lparr>ad_menu_apis := ma\<rparr>)" "J (d\<lparr>ad_role_apis := ra\<rparr>)"
    "J (d\<lparr>ad_role_caps := rc\<rparr>)" "J (d\<lparr>ad_images := im\<rparr>)" "J (d\<lparr>ad_outbox := ob\<rparr>)"
  using assms by (simp_all add: insensitive_def)

lemma access_ok_insensitive: "insensitive (access_ok en k g)"
  by (auto simp: insensitive_def) (auto simp: access_ok_def keys_of_def keys_ok_def)

lemma holds_publish:
  assumes "insensitive J"
  shows "holds J (publish_cache_event en cev)" "holds J (publish_permission_event en pev)"
    "holds J (publish_subject_binding en u k)" "holds J (publish_permission_graph en agg i)"
  unfolding publish_cache_event_def publish_subject_binding_def publish_permission_graph_def
    publish_permission_event_def outbox_append_def
  by (intro holds_intro insensitiveD [OF assms]; assumption)+

lemma holds_lock [holds_intro]: "holds J role_permission_lock"
  by (rule holds_reads, rule readsI) (auto simp: role_permission_lock_def split: lock_answer.splits)

lemma reads_loops [reads_intro]:
  "reads (filter_valid_menu_ids ids)" "reads (filter_valid_api_ids ids)" "reads (bindable_api_ids ids)"
  by (induction ids)
    (auto simp: menu_find_def api_find_def api_by_id_def found_def intro!: reads_intro simp del: svc_bind_return)

lemmas holds_loops [holds_intro] = reads_loops [THEN holds_reads]

lemmas admin_defs = role_by_id_def role_replace_permissions_def role_replace_menus_def role_replace_apis_def
  role_clear_menus_def role_clear_apis_def cap_replace_role_def filter_valid_capability_codes_def cap_by_codes_def
  menu_exists_by_code_def menu_by_id_def menu_find_def menu_create_def menu_save_def menu_has_children_def
  menu_clear_apis_def menu_remove_def menu_replace_apis_single_def menu_remove_api_from_all_def menu_api_insert_def
  api_exists_by_path_method_def api_create_with_menu_def api_create_def api_by_id_def api_find_def api_save_def
  api_update_with_menu_def api_by_path_method_def role_remove_api_from_all_def api_archive_def api_all_def found_def

lemma assign_permissions_holds:
  assumes "insensitive J"
  shows "holds J (assign_permissions en i menus apis codes)"
  unfolding assign_permissions_def assign_permissions_tx_def admin_defs Let_def
  by (intro holds_intro holds_publish [OF assms] insensitiveD [OF assms]; assumption)

lemma menu_commands_hold:
  assumes "insensitive J"
  shows "holds J (create_menu en mreq)" "holds J (update_menu en i ureq)" "holds J (delete_menu en i)"
    "holds J (bind_apis en i ids)"
  unfolding create_menu_def update_menu_def update_menu_tx_def delete_menu_def delete_menu_tx_def bind_apis_def
    bind_apis_tx_def admin_defs Let_def
  by (intro holds_intro holds_publish [OF assms] insensitiveD [OF assms]; assumption)+

lemma sync_route_holds:
  assumes "insensitive J"
  shows "holds J (sync_route en t r st)"
  unfolding sync_route_def sync_known_api_def admin_defs Let_def
  by (intro holds_intro insensitiveD [OF assms]; assumption)

lemma sync_routes_hold:
  assumes "insensitive J"
  shows "holds J (sync_routes en t routes st)"
  by (induction routes arbitrary: st)
    (unfold sync_routes.simps, (intro holds_intro sync_route_holds [OF assms]; assumption?)+)

lemma mark_missing_holds:
  assumes "insensitive J"
  shows "holds J (mark_missing en keys as st)"
  by (induction as arbitrary: st)
    (unfold mark_missing.simps api_save_def, (intro holds_intro insensitiveD [OF assms]; assumption?)+)

lemma api_commands_hold:
  assumes "insensitive J"
  shows "holds J (create_api en creq)" "holds J (update_api en i ureq)" "holds J (delete_api en i)" "holds J (sync_api en)"
  unfolding create_api_def create_api_tx_def update_api_def update_api_tx_def delete_api_def delete_api_tx_def
    sync_api_def sync_api_tx_def admin_defs Let_def
  by (intro holds_intro holds_publish [OF assms] sync_routes_hold [OF assms] mark_missing_holds [OF assms] insensitiveD [OF assms]; assumption)+

subsection \<open>Runs\<close>

text \<open>
  A step runs one command or one event handler to its end, whatever its calls answer, or
  changes anything but the tables: the policy engine, the sessions, the clock, which calls
  fail. Commands follow one another, as in one process with serial transactions.
\<close>

inductive access_step :: "'p access_env \<Rightarrow> 'p access_world \<Rightarrow> 'p access_world \<Rightarrow> bool" for en where
  step_outside: "aw_db w' = aw_db w \<Longrightarrow> access_step en w w'"
| step_create_org: "access_step en w (snd (create_org en uid creq w))"
| step_update_org: "access_step en w (snd (update_org en uid oid ureq w))"
| step_delete_org: "access_step en w (snd (delete_org en uid oid force w))"
| step_set_current_org: "access_step en w (snd (set_current_org en uid oid w))"
| step_join_org: "access_step en w (snd (join_org_by_invite_code en uid code w))"
| step_leave_org: "access_step en w (snd (leave_org en uid oid reason w))"
| step_kick_member: "access_step en w (snd (kick_member en uid oid target reason w))"
| step_recover_member: "access_step en w (snd (recover_member en uid oid target reason w))"
| step_register: "access_step en w (snd (register en rreq w))"
| step_update_profile: "access_step en w (snd (update_profile en uid preq w))"
| step_change_phone: "access_step en w (snd (change_phone en uid hreq w))"
| step_change_password: "access_step en w (snd (change_password en uid old new w))"
| step_assign_role: "access_step en w (snd (assign_role en uid target oid ids w))"
| step_update_user_status: "access_step en w (snd (update_user_status en uid target sreq w))"
| step_deactivate_account: "access_step en w (snd (deactivate_account en uid reason' w))"
| step_cleanup: "access_step en w (snd (cleanup_disabled_users en w))"
| step_create_role: "access_step en w (snd (create_role en oreq w))"
| step_update_role: "access_step en w (snd (update_role en rid vreq w))"
| step_delete_role: "access_step en w (snd (delete_role en rid w))"
| step_assign_permissions: "access_step en w (snd (assign_permissions en rid menus apis codes w))"
| step_create_menu: "access_step en w (snd (create_menu en mreq w))"
| step_update_menu: "access_step en w (snd (update_menu en mid nreq w))"
| step_delete_menu: "access_step en w (snd (delete_menu en mid w))"
| step_bind_apis: "access_step en w (snd (bind_apis en mid apis w))"
| step_create_api: "access_step en w (snd (create_api en areq w))"
| step_update_api: "access_step en w (snd (update_api en aid breq w))"
| step_delete_api: "access_step en w (snd (delete_api en aid w))"
| step_sync_api: "access_step en w (snd (sync_api en w))"
| step_permission_event: "access_step en w (snd (handle_permission_event en ev w))"

inductive access_reachable :: "'p access_env \<Rightarrow> 'p access_world \<Rightarrow> 'p access_world \<Rightarrow> bool" for en w0 where
  reach_start: "access_reachable en w0 w0"
| reach_step: "access_reachable en w0 w \<Longrightarrow> access_step en w w' \<Longrightarrow> access_reachable en w0 w'"

lemma dwp_snd: "dwp m (\<lambda>_. J) (\<lambda>_. J) (aw_db w) \<Longrightarrow> J (aw_db (snd (m w)))"
  using dwpD [of m "\<lambda>_. J" "\<lambda>_. J" w "fst (m w)" "snd (m w)"] by (auto split: sum.splits)

lemmas org_commands_ok = create_org_ok update_org_ok delete_org_ok set_current_org_ok join_org_ok leave_org_ok
  kick_member_ok recover_member_ok

lemmas user_commands_ok = register_ok update_profile_ok change_phone_ok change_password_ok assign_role_ok
  update_user_status_ok cleanup_disabled_users_ok

lemmas admin_commands_ok = create_role_ok update_role_ok delete_role_ok
  access_ok_insensitive [THEN assign_permissions_holds, THEN holds_dwp]
  menu_commands_hold [OF access_ok_insensitive, THEN holds_dwp]
  api_commands_hold [OF access_ok_insensitive, THEN holds_dwp]
  holds_dwp [OF holds_reads [OF reads_handle_event]]

lemma access_step_ok:
  assumes "access_step en w w'" "access_ok en k g (aw_db w)" "equivp (ae_str_eq en)"
  shows "access_ok en k g (aw_db w')"
  using assms
  by cases
    (auto intro!: dwp_snd [where J = "access_ok en k g"]
      intro: org_commands_ok user_commands_ok admin_commands_ok)

lemma access_reachable_ok:
  assumes "access_reachable en w0 w" "access_ok en k g (aw_db w0)" "equivp (ae_str_eq en)"
  shows "access_ok en k g (aw_db w)"
  using assms by (induction) (auto intro: access_step_ok)

end
