(* ===== verification/Access_Policy_Correct.thy ===== *)
theory Access_Policy_Correct
  imports Access_Reachable
begin

text \<open>
  What the services of the policy engine achieve, proved inside the locale \<open>policy_laws\<close> for
  every engine with its laws: a replacement of the roles of a subject is exact, a rebuild
  grants exactly its snapshot, and when a call fails in the middle nothing is granted beyond
  what was granted before or what the snapshot grants. The list engine at the end provides the
  interface.
\<close>

definition role_names :: "string list \<Rightarrow> string set" where
  "role_names rs = {trim_space r | r. r \<in> set rs \<and> trim_space r \<noteq> []}"

lemma role_names_simps [simp]:
  "role_names [] = {}"
  "role_names (r # rs) = (if trim_space r = [] then role_names rs else insert (trim_space r) (role_names rs))"
  by (auto simp: role_names_def)

lemma snapshot_groups_Cons:
  "snapshot_groups \<lparr>ps_subject_roles = x # xs, ps_permissions = ps\<rparr> =
     (if trim_space (fst x) = [] then {} else {trim_space (fst x)} \<times> role_names (snd x)) \<union>
     snapshot_groups \<lparr>ps_subject_roles = xs, ps_permissions = ps\<rparr>"
  by (cases x) (auto simp: snapshot_groups_def role_names_def)

lemma snapshot_perms_Cons:
  "snapshot_perms \<lparr>ps_subject_roles = xs, ps_permissions = q # ps\<rparr> =
     (if trim_space (pm_subject q) = [] \<or> trim_space (pm_object q) = [] \<or> trim_space (pm_action q) = [] then {}
      else {(trim_space (pm_subject q), trim_space (pm_object q), trim_space (pm_action q))}) \<union>
     snapshot_perms \<lparr>ps_subject_roles = xs, ps_permissions = ps\<rparr>"
  by (auto simp: snapshot_perms_def)

lemma snapshot_empty [simp]:
  "snapshot_groups \<lparr>ps_subject_roles = [], ps_permissions = ps\<rparr> = {}"
  "snapshot_perms \<lparr>ps_subject_roles = xs, ps_permissions = []\<rparr> = {}"
  by (auto simp: snapshot_groups_def snapshot_perms_def)

lemma snapshot_fields:
  "snapshot_groups \<lparr>ps_subject_roles = ps_subject_roles s, ps_permissions = ps\<rparr> = snapshot_groups s"
  "snapshot_perms \<lparr>ps_subject_roles = xs, ps_permissions = ps_permissions s\<rparr> = snapshot_perms s"
  by (simp_all add: snapshot_groups_def snapshot_perms_def)

lemma policy_call_run:
  "policy_call f w = (r, w') \<Longrightarrow>
     aw_db w' = aw_db w \<and>
     (case r of Inl e \<Rightarrow> aw_policy w' = aw_policy w | Inr x \<Rightarrow> aw_policy w' = f (aw_policy w))"
  by (auto simp: policy_call_def acall_def split: if_splits)

context policy_laws
begin

text \<open>What a run of rule additions leaves: the new rules when it returns, a part of them when not.\<close>

lemma add_roles_run:
  assumes "ae_engine en = eng" "add_roles en s rs w = (r, w')"
  shows "aw_db w' = aw_db w" "perms (aw_policy w') = perms (aw_policy w)"
    "groups (aw_policy w') \<subseteq> groups (aw_policy w) \<union> {s} \<times> role_names rs"
    "r = Inr () \<Longrightarrow> groups (aw_policy w') = groups (aw_policy w) \<union> {s} \<times> role_names rs"
proof -
  have "aw_db w' = aw_db w \<and> perms (aw_policy w') = perms (aw_policy w) \<and>
    groups (aw_policy w') \<subseteq> groups (aw_policy w) \<union> {s} \<times> role_names rs \<and>
    (r = Inr () \<longrightarrow> groups (aw_policy w') = groups (aw_policy w) \<union> {s} \<times> role_names rs)"
    using assms(2) unfolding add_roles_def
  proof (induction rs arbitrary: w)
    case (Cons x rs)
    show ?case
    proof (cases "trim_space x = []")
      case True
      then show ?thesis using Cons by simp
    next
      case False
      obtain b v where b: "policy_call (en_add_role (ae_engine en) s (trim_space x)) w = (b, v)" by fastforce
      note run = policy_call_run [OF b, unfolded assms(1)]
      show ?thesis
      proof (cases b)
        case (Inl e)
        then show ?thesis using Cons.prems b run False by auto
      next
        case (Inr u)
        then have "svc_iter (\<lambda>r. if trim_space r = [] then svc_return ()
            else policy_call (en_add_role (ae_engine en) s (trim_space r))) rs v = (r, w')"
          using Cons.prems b False by simp
        from Cons.IH [OF this] show ?thesis using run Inr False by (auto simp: groups_add_role perms_add_role)
      qed
    qed
  qed simp
  then show "aw_db w' = aw_db w" "perms (aw_policy w') = perms (aw_policy w)"
    "groups (aw_policy w') \<subseteq> groups (aw_policy w) \<union> {s} \<times> role_names rs"
    "r = Inr () \<Longrightarrow> groups (aw_policy w') = groups (aw_policy w) \<union> {s} \<times> role_names rs" by simp_all
qed

lemma replace_subject_roles_run:
  assumes "ae_engine en = eng" "replace_subject_roles en s rs w = (Inr (), w')"
  shows "groups (aw_policy w') = {x \<in> groups (aw_policy w). fst x \<noteq> trim_space s} \<union> {trim_space s} \<times> role_names rs"
    "perms (aw_policy w') = perms (aw_policy w)" "aw_db w' = aw_db w"
proof -
  obtain v where v: "policy_call (en_delete_roles (ae_engine en) (trim_space s)) w = (Inr (), v)"
    "add_roles en (trim_space s) rs v = (Inr (), w')"
    using assms(2) by (auto simp: replace_subject_roles_def Let_def svc_iffs split: if_splits)
  show "groups (aw_policy w') = {x \<in> groups (aw_policy w). fst x \<noteq> trim_space s} \<union> {trim_space s} \<times> role_names rs"
    "perms (aw_policy w') = perms (aw_policy w)" "aw_db w' = aw_db w"
    using policy_call_run [OF v(1)] add_roles_run [OF assms(1) v(2)] assms(1)
    by (simp_all add: groups_delete_roles perms_delete_roles)
qed

lemma snapshot_subjects_run:
  assumes "ae_engine en = eng" "svc_iter (add_snapshot_subject en) xs w = (r, w')"
  shows "aw_db w' = aw_db w \<and> perms (aw_policy w') = perms (aw_policy w) \<and>
    groups (aw_policy w') \<subseteq> groups (aw_policy w) \<union> snapshot_groups \<lparr>ps_subject_roles = xs, ps_permissions = ps\<rparr> \<and>
    (r = Inr () \<longrightarrow>
      groups (aw_policy w') = groups (aw_policy w) \<union> snapshot_groups \<lparr>ps_subject_roles = xs, ps_permissions = ps\<rparr>)"
  using assms(2)
proof (induction xs arbitrary: w)
  case (Cons x xs)
  show ?case
  proof (cases "trim_space (fst x) = []")
    case True
    then show ?thesis using Cons by (simp add: add_snapshot_subject_def snapshot_groups_Cons)
  next
    case False
    obtain q v where q: "add_roles en (trim_space (fst x)) (snd x) w = (q, v)" by fastforce
    note run = add_roles_run [OF assms(1) q]
    have step: "svc_iter (add_snapshot_subject en) (x # xs) w =
        svc_bind (add_roles en (trim_space (fst x)) (snd x)) (\<lambda>_. svc_iter (add_snapshot_subject en) xs) w"
      using False by (simp add: add_snapshot_subject_def)
    show ?thesis
    proof (cases q)
      case (Inl e)
      then show ?thesis using Cons.prems q run False unfolding step by (auto simp: snapshot_groups_Cons)
    next
      case (Inr u)
      then have rest: "svc_iter (add_snapshot_subject en) xs v = (r, w')"
        using Cons.prems q unfolding step by simp
      show ?thesis
        using Cons.IH [OF rest] run Inr False by (auto simp: snapshot_groups_Cons)
    qed
  qed
qed simp

lemma snapshot_permissions_run:
  assumes "ae_engine en = eng" "svc_iter (add_snapshot_permission en) ps w = (r, w')"
  shows "aw_db w' = aw_db w \<and> groups (aw_policy w') = groups (aw_policy w) \<and>
    perms (aw_policy w') \<subseteq> perms (aw_policy w) \<union> snapshot_perms \<lparr>ps_subject_roles = xs, ps_permissions = ps\<rparr> \<and>
    (r = Inr () \<longrightarrow>
      perms (aw_policy w') = perms (aw_policy w) \<union> snapshot_perms \<lparr>ps_subject_roles = xs, ps_permissions = ps\<rparr>)"
  using assms(2)
proof (induction ps arbitrary: w)
  case (Cons q ps)
  show ?case
  proof (cases "trim_space (pm_subject q) = [] \<or> trim_space (pm_object q) = [] \<or> trim_space (pm_action q) = []")
    case True
    then show ?thesis using Cons by (auto simp: add_snapshot_permission_def snapshot_perms_Cons Let_def)
  next
    case False
    define f where "f = en_add_permission eng (trim_space (pm_subject q)) (trim_space (pm_object q)) (trim_space (pm_action q))"
    obtain b v where b: "policy_call f w = (b, v)" by fastforce
    have step: "svc_iter (add_snapshot_permission en) (q # ps) w =
        svc_bind (policy_call f) (\<lambda>_. svc_iter (add_snapshot_permission en) ps) w"
      using False assms(1) by (simp add: add_snapshot_permission_def Let_def f_def)
    note run = policy_call_run [OF b]
    show ?thesis
    proof (cases b)
      case (Inl e)
      then show ?thesis using Cons.prems b run unfolding step by (auto simp: snapshot_perms_Cons)
    next
      case (Inr u)
      then have rest: "svc_iter (add_snapshot_permission en) ps v = (r, w')"
        using Cons.prems b unfolding step by simp
      show ?thesis
        using Cons.IH [OF rest] run Inr False
        by (auto simp: snapshot_perms_Cons f_def groups_add_permission perms_add_permission)
    qed
  qed
qed simp

lemma rebuild_from_snapshot_run:
  assumes "ae_engine en = eng" "rebuild_from_snapshot en snap w = (r, w')"
  shows "aw_db w' = aw_db w" "groups (aw_policy w') \<subseteq> snapshot_groups snap" "perms (aw_policy w') \<subseteq> snapshot_perms snap"
    "r = Inr () \<Longrightarrow> groups (aw_policy w') = snapshot_groups snap \<and> perms (aw_policy w') = snapshot_perms snap"
proof -
  obtain a v where a: "clear_all_policies en w = (a, v)" by fastforce
  have v: "aw_db v = aw_db w" "groups (aw_policy v) = {}" "perms (aw_policy v) = {}"
    using a by (auto simp: clear_all_policies_def acall_def assms(1) groups_empty perms_empty split: if_splits)
  have "aw_db w' = aw_db w \<and> groups (aw_policy w') \<subseteq> snapshot_groups snap \<and> perms (aw_policy w') \<subseteq> snapshot_perms snap \<and>
    (r = Inr () \<longrightarrow> groups (aw_policy w') = snapshot_groups snap \<and> perms (aw_policy w') = snapshot_perms snap)"
  proof (cases a)
    case (Inl e)
    then show ?thesis using assms(2) a v by (auto simp: rebuild_from_snapshot_def)
  next
    case (Inr u)
    obtain b x where b: "svc_iter (add_snapshot_subject en) (ps_subject_roles snap) v = (b, x)" by fastforce
    note x = snapshot_subjects_run [OF assms(1) b, of "ps_permissions snap", unfolded snapshot_fields]
    show ?thesis
    proof (cases b)
      case (Inl e)
      then show ?thesis using assms(2) a Inr b v x by (auto simp: rebuild_from_snapshot_def)
    next
      case (Inr u')
      have rest: "svc_iter (add_snapshot_permission en) (ps_permissions snap) x = (r, w')"
        using assms(2) a \<open>a = Inr u\<close> b Inr by (simp add: rebuild_from_snapshot_def)
      show ?thesis
        using snapshot_permissions_run [OF assms(1) rest, of "ps_subject_roles snap", unfolded snapshot_fields] x v Inr
        by auto
    qed
  qed
  then show "aw_db w' = aw_db w" "groups (aw_policy w') \<subseteq> snapshot_groups snap" "perms (aw_policy w') \<subseteq> snapshot_perms snap"
    "r = Inr () \<Longrightarrow> groups (aw_policy w') = snapshot_groups snap \<and> perms (aw_policy w') = snapshot_perms snap" by simp_all
qed

text \<open>A subject without grouping rules and without rules of its own is denied everything.\<close>

lemma no_roles_denied:
  assumes "\<And>q. (s, q) \<notin> groups p" "\<And>ob a. (s, ob, a) \<notin> perms p"
  shows "\<not> en_enforce eng p s ob a"
proof -
  have "q = s" if q: "q \<in> reachable_roles (groups p) s" for q
  proof -
    obtain n where "(s, q) \<in> groups p ^^ n" using q by (auto simp: reachable_roles_def)
    then show ?thesis using assms(1) by (cases n) (auto dest!: relpow_Suc_D2 simp del: relpow.simps(2))
  qed
  then show ?thesis using assms(2) by (auto simp: enforce)
qed

lemma enforce_mono:
  assumes "groups p \<subseteq> g" "perms p \<subseteq> q" "en_enforce eng p s ob a"
  shows "\<exists>x \<in> reachable_roles g s. (x, ob, a) \<in> q"
proof -
  have "groups p ^^ n \<subseteq> g ^^ n" for n
    by (induction n) (use assms(1) in auto)
  then show ?thesis using assms(2,3) by (fastforce simp: enforce reachable_roles_def)
qed

end

subsection \<open>The list engine\<close>

text \<open>Grouping and permission rules as lists, the hierarchy followed for ten rounds.\<close>

type_synonym list_policy = "(string \<times> string) list \<times> (string \<times> string \<times> string) list"

fun reach_rounds :: "nat \<Rightarrow> (string \<times> string) list \<Rightarrow> string list \<Rightarrow> string list" where
  "reach_rounds 0 g xs = xs"
| "reach_rounds (Suc n) g xs = xs @ reach_rounds n g (map snd (filter (\<lambda>x. fst x \<in> set xs) g))"

definition list_engine :: "list_policy policy_engine" where
  "list_engine = \<lparr>en_empty = ([], []),
     en_add_role = (\<lambda>s r p. ((s, r) # fst p, snd p)),
     en_delete_roles = (\<lambda>s p. (filter (\<lambda>x. fst x \<noteq> s) (fst p), snd p)),
     en_add_permission = (\<lambda>s ob a p. (fst p, (s, ob, a) # snd p)),
     en_enforce = (\<lambda>p s ob a. \<exists>q \<in> set (reach_rounds 10 (fst p) [s]). (q, ob, a) \<in> set (snd p))\<rparr>"

definition list_groups :: "list_policy \<Rightarrow> (string \<times> string) set" where
  "list_groups p = set (fst p)"

definition list_perms :: "list_policy \<Rightarrow> (string \<times> string \<times> string) set" where
  "list_perms p = set (snd p)"

lemma reach_one_more:
  "(\<exists>k \<le> Suc n. \<exists>s \<in> xs. (s, q) \<in> g ^^ k) \<longleftrightarrow> q \<in> xs \<or> (\<exists>k \<le> n. \<exists>s \<in> g `` xs. (s, q) \<in> g ^^ k)"
proof
  assume "\<exists>k \<le> Suc n. \<exists>s \<in> xs. (s, q) \<in> g ^^ k"
  then obtain k s where k: "k \<le> Suc n" "s \<in> xs" "(s, q) \<in> g ^^ k" by blast
  show "q \<in> xs \<or> (\<exists>k \<le> n. \<exists>s \<in> g `` xs. (s, q) \<in> g ^^ k)"
  proof (cases k)
    case (Suc m)
    then obtain t where "(s, t) \<in> g" "(t, q) \<in> g ^^ m" using k(3) by (metis relpow_Suc_D2)
    then show ?thesis using k Suc by auto
  qed (use k in simp)
next
  assume "q \<in> xs \<or> (\<exists>k \<le> n. \<exists>s \<in> g `` xs. (s, q) \<in> g ^^ k)"
  then show "\<exists>k \<le> Suc n. \<exists>s \<in> xs. (s, q) \<in> g ^^ k"
  proof
    assume "q \<in> xs"
    then show ?thesis by (intro exI [of _ 0]) auto
  next
    assume "\<exists>k \<le> n. \<exists>s \<in> g `` xs. (s, q) \<in> g ^^ k"
    then obtain k s t where "k \<le> n" "t \<in> xs" "(t, s) \<in> g" "(s, q) \<in> g ^^ k" by blast
    then show ?thesis by (intro exI [of _ "Suc k"]) (auto intro!: bexI [of _ t] relpow_Suc_I2 simp del: relpow.simps(2))
  qed
qed

lemma set_reach_rounds: "set (reach_rounds n g xs) = {q. \<exists>k \<le> n. \<exists>s \<in> set xs. (s, q) \<in> set g ^^ k}"
proof (induction n arbitrary: xs)
  case (Suc n)
  have "set (map snd (filter (\<lambda>x. fst x \<in> set xs) g)) = set g `` set xs" by force
  then show ?case using Suc [of "map snd (filter (\<lambda>x. fst x \<in> set xs) g)"] by (auto simp: reach_one_more)
qed auto

interpretation lp: policy_laws list_engine list_groups list_perms
proof
  fix p s ob a
  show "en_enforce list_engine p s ob a \<longleftrightarrow> (\<exists>q \<in> reachable_roles (list_groups p) s. (q, ob, a) \<in> list_perms p)"
    by (auto simp: list_engine_def list_groups_def list_perms_def set_reach_rounds reachable_roles_def
        simp del: reach_rounds.simps)
qed (auto simp: list_engine_def list_groups_def list_perms_def)

end
