(* ===== verification/Access_Grants.thy ===== *)
theory Access_Grants
  imports Access_Policy_Correct
begin

text \<open>
  The policy engine against the tables. \<open>snapshot_of\<close> is the snapshot the projection builds from
  the tables; after a rebuild a subject \<open>user@org\<close> reaches an API exactly when a role it has in
  the organisation is bound to it directly (\<open>direct_api_grant\<close>), provided the codes of roles and
  menus cannot be taken for subjects or for each other (\<open>codes_apart\<close>). The roles of one subject
  are those of the tables after every synchronisation.
\<close>

subsection \<open>Subjects\<close>

lemma at_sign_not_digit: "CHR ''@'' \<notin> set (show_nat n)"
proof
  assume "CHR ''@'' \<in> set (show_nat n)"
  then obtain k where "CHR ''@'' = digit_char k" "k \<in> {0..9}" using show_nat_digits by blast
  then have "of_char (CHR ''@'') = (48 + k :: nat)" "k \<le> 9" by (auto simp: digit_char_def)
  then show False by simp
qed

lemma build_subject_inj: "build_subject u g = build_subject u' g' \<longleftrightarrow> u = u' \<and> g = g'"
proof
  assume "build_subject u g = build_subject u' g'"
  then have eq: "show_nat u @ CHR ''@'' # show_nat g = show_nat u' @ CHR ''@'' # show_nat g'"
    by (simp add: build_subject_def)
  have "takeWhile (\<lambda>c. c \<noteq> CHR ''@'') (show_nat n @ CHR ''@'' # xs) = show_nat n" for n xs
  proof -
    have "\<forall>c \<in> set (show_nat n). c \<noteq> CHR ''@''" using at_sign_not_digit by blast
    then show ?thesis by (simp add: takeWhile_append2)
  qed
  from this [of u "show_nat g"] this [of u' "show_nat g'"] have "show_nat u = show_nat u'"
    unfolding eq by simp
  with eq show "u = u' \<and> g = g'" by (simp add: show_nat_inj)
qed simp

lemma at_sign_in_subject: "CHR ''@'' \<in> set (build_subject u g)"
  by (simp add: build_subject_def)

subsection \<open>The snapshot of the tables\<close>

definition snapshot_of :: "access_db \<Rightarrow> policy_snapshot" where
  "snapshot_of d =
     \<lparr>ps_subject_roles = subject_roles_loop (user_org_role_relations d) [],
      ps_permissions = map (plain_permission action_read) (role_menu_relations d) @
        api_permissions (menu_api_relations d) @ api_permissions (role_api_relations d) @
        map (plain_permission action_operate) (role_capability_relations d)\<rparr>"

lemma aread_run: "aread f w = (if aw_fault w (aw_step w) then (Inl RawErr, atick w) else (Inr (f (aw_db w)), atick w))"
  by (simp add: aread_def acall_def)

lemma build_policy_snapshot_run:
  assumes "build_policy_snapshot w = (r, w')"
  shows "aw_db w' = aw_db w" "aw_policy w' = aw_policy w" "\<And>s. r = Inr s \<Longrightarrow> s = snapshot_of (aw_db w)"
  using assms
  by (auto simp: build_policy_snapshot_def build_subject_roles_def build_permissions_def svc_bind_def aread_run
      snapshot_of_def split: if_splits prod.splits sum.splits)

lemma rebuild_all_cases:
  assumes "rebuild_all en w = (r, w')"
  obtains (unbuilt) e where "r = Inl e" "aw_db w' = aw_db w" "aw_policy w' = aw_policy w"
  | (built) v where "aw_db v = aw_db w" "rebuild_from_snapshot en (snapshot_of (aw_db w)) v = (r, w')"
proof -
  obtain b v where b: "build_policy_snapshot w = (b, v)" by fastforce
  note run = build_policy_snapshot_run [OF b]
  show thesis
  proof (cases b)
    case (Inl e)
    then show ?thesis using assms b run unbuilt by (auto simp: rebuild_all_def)
  next
    case (Inr s)
    then show ?thesis using assms b run built by (auto simp: rebuild_all_def)
  qed
qed

text \<open>The roles collected per subject, as a relation.\<close>

definition collected :: "(string \<times> string list) list \<Rightarrow> (string \<times> string) set" where
  "collected xs = (\<Union>x \<in> set xs. Pair (fst x) ` set (snd x))"

lemma collected_simps [simp]:
  "collected [] = {}" "collected ((s, rs) # xs) = Pair s ` set rs \<union> collected xs"
  by (simp_all add: collected_def)

lemma collected_append_role: "collected (append_role s r xs) = insert (s, r) (collected xs)"
  by (induction xs) (auto split: if_splits)

definition relation_pairs :: "(nat \<times> nat \<times> string) list \<Rightarrow> (string \<times> string) set" where
  "relation_pairs rels = (\<lambda>(u, g, c). (build_subject u g, trim_space c)) `
     set (filter (\<lambda>(u, g, c). trim_space c \<noteq> []) rels)"

lemma collected_loop: "collected (subject_roles_loop rels xs) = collected xs \<union> relation_pairs rels"
  by (induction rels xs rule: subject_roles_loop.induct) (auto simp: collected_append_role relation_pairs_def)

lemma snapshot_groups_collected:
  "snapshot_groups s = (\<lambda>x. (trim_space (fst x), trim_space (snd x))) `
     {x \<in> collected (ps_subject_roles s). trim_space (fst x) \<noteq> [] \<and> trim_space (snd x) \<noteq> []}"
  (is "?L = ?R")
proof
  show "?L \<subseteq> ?R"
  proof
    fix x assume "x \<in> ?L"
    then obtain a rs r where r: "x = (trim_space a, trim_space r)" "(a, rs) \<in> set (ps_subject_roles s)" "r \<in> set rs"
      "trim_space a \<noteq> []" "trim_space r \<noteq> []" by (auto simp: snapshot_groups_def)
    then have "(a, r) \<in> collected (ps_subject_roles s)" by (force simp: collected_def)
    then show "x \<in> ?R" using r by (intro image_eqI [of _ _ "(a, r)"]) simp_all
  qed
  show "?R \<subseteq> ?L" by (auto simp: snapshot_groups_def collected_def) blast
qed

lemma relation_pairs_trimmed:
  "x \<in> relation_pairs rels \<Longrightarrow> (trim_space (fst x), trim_space (snd x)) = x \<and> trim_space (fst x) \<noteq> [] \<and> trim_space (snd x) \<noteq> []"
  by (auto simp: relation_pairs_def)

lemma snapshot_groups_of: "snapshot_groups (snapshot_of d) = relation_pairs (user_org_role_relations d)"
proof -
  have "{x \<in> relation_pairs rels. trim_space (fst x) \<noteq> [] \<and> trim_space (snd x) \<noteq> []} = relation_pairs rels" for rels
    using relation_pairs_trimmed by blast
  moreover have "(\<lambda>x. (trim_space (fst x), trim_space (snd x))) ` relation_pairs rels = relation_pairs rels" for rels
    using relation_pairs_trimmed by (force simp: image_iff)
  ultimately show ?thesis by (simp add: snapshot_groups_collected snapshot_of_def collected_loop)
qed

lemma relation_pairs_iff:
  "(build_subject u k, q) \<in> relation_pairs rels \<longleftrightarrow> (\<exists>c. (u, k, c) \<in> set rels \<and> q = trim_space c \<and> q \<noteq> [])"
  by (auto simp: relation_pairs_def build_subject_inj image_iff split: prod.splits)

lemma user_org_role_relations_iff:
  "(u, k, c) \<in> set (user_org_role_relations d) \<longleftrightarrow>
     (\<exists>row \<in> set (ad_user_roles d). \<exists>x \<in> set (live_users d). \<exists>r \<in> set (live_roles d).
        au_id x = ur_user row \<and> ro_id r = ur_role row \<and> u = au_id x \<and> k = ur_org row \<and> c = ro_code r)"
  by (auto simp: user_org_role_relations_def image_iff) (blast | metis)+

lemma relation_sources:
  "(s, q) \<in> relation_pairs (user_org_role_relations d) \<Longrightarrow>
     CHR ''@'' \<in> set s \<and> (\<exists>r \<in> set (live_roles d). q = trim_space (ro_code r))"
  by (auto simp: relation_pairs_def user_org_role_relations_def at_sign_in_subject)

definition perm_triple :: "permission \<Rightarrow> string \<times> string \<times> string" where
  "perm_triple q = (trim_space (pm_subject q), trim_space (pm_object q), trim_space (pm_action q))"

lemma snapshot_perms_triples:
  "snapshot_perms s = {t. \<exists>q \<in> set (ps_permissions s). t = perm_triple q \<and>
     fst t \<noteq> [] \<and> fst (snd t) \<noteq> [] \<and> snd (snd t) \<noteq> []}"
  by (auto simp: snapshot_perms_def perm_triple_def)

text \<open>The permissions with the action of an API call.\<close>

definition api_triples :: "(string \<times> string \<times> string) list \<Rightarrow> (string \<times> string \<times> string) set" where
  "api_triples rels = {(trim_space c, trim_space (api_resource (trim_space p) (trim_space m)), action_access) | c p m.
     (c, p, m) \<in> set rels \<and> trim_space c \<noteq> [] \<and> trim_space p \<noteq> [] \<and> trim_space m \<noteq> []}"

lemma actions_differ:
  "trim_space action_access = action_access" "action_access \<noteq> []" "trim_space action_read \<noteq> action_access"
  "trim_space action_operate \<noteq> action_access"
  by (simp_all add: trim_space_def action_access_def action_read_def action_operate_def is_space_def)

lemma trim_space_Nil_iff: "trim_space s = [] \<longleftrightarrow> (\<forall>c \<in> set s. is_space c)"
proof (cases "dropWhile is_space s")
  case Nil
  then show ?thesis by (auto simp: trim_space_def dropWhile_eq_Nil_conv dest: set_dropWhileD)
next
  case (Cons y ys)
  then have "\<not> is_space y" "y \<in> set s" by (auto dest: dropWhile_hd_False) (metis list.set_intros(1) set_dropWhileD)
  then show ?thesis using Cons by (auto simp: trim_space_def dropWhile_eq_Nil_conv dest: set_dropWhileD)
qed

lemma resource_nonempty [simp]: "trim_space (api_resource p m) \<noteq> []"
  by (auto simp: trim_space_Nil_iff api_resource_def is_space_def)

lemma api_triples_permissions:
  "(s, ob, action_access) \<in> api_triples rels \<longleftrightarrow>
     (\<exists>q \<in> set (api_permissions rels). (s, ob, action_access) = perm_triple q \<and> s \<noteq> [] \<and> ob \<noteq> [])"
  by (auto simp: api_triples_def api_permissions_def perm_triple_def actions_differ) blast

lemma plain_permission_action:
  "perm_triple (plain_permission av x) = (s, ob, a) \<Longrightarrow> a = trim_space av"
  by (simp add: perm_triple_def plain_permission_def)

lemma snapshot_api_perms:
  "(s, ob, action_access) \<in> snapshot_perms (snapshot_of d) \<longleftrightarrow>
     (s, ob, action_access) \<in> api_triples (menu_api_relations d) \<union> api_triples (role_api_relations d)"
proof -
  have "(s, ob, action_access) \<noteq> perm_triple (plain_permission action_read x)"
    "(s, ob, action_access) \<noteq> perm_triple (plain_permission action_operate x)" for x
    using actions_differ(3,4) by (auto dest!: plain_permission_action [OF sym])
  then show ?thesis
    unfolding Un_iff api_triples_permissions
    by (simp add: snapshot_perms_triples snapshot_of_def actions_differ bex_Un) blast
qed

subsection \<open>What a rebuilt policy grants\<close>

definition codes_apart :: "access_db \<Rightarrow> bool" where
  "codes_apart d \<longleftrightarrow>
     (\<forall>r \<in> set (live_roles d). CHR ''@'' \<notin> set (ro_code r)) \<and>
     (\<forall>m \<in> set (live_menus d). CHR ''@'' \<notin> set (mu_code m) \<and>
        (\<forall>r \<in> set (live_roles d). trim_space (ro_code r) \<noteq> trim_space (mu_code m))) \<and>
     (\<forall>r \<in> set (live_roles d). \<forall>q \<in> set (live_roles d). trim_space (ro_code r) = trim_space (ro_code q) \<longrightarrow> ro_id r = ro_id q)"

text \<open>A role of the user in the organisation is bound to the API; a menu in between does not count.\<close>

definition direct_api_grant :: "access_db \<Rightarrow> nat \<Rightarrow> nat \<Rightarrow> string \<Rightarrow> bool" where
  "direct_api_grant d u k ob \<longleftrightarrow>
     (\<exists>row \<in> set (ad_user_roles d). \<exists>r \<in> set (live_roles d). \<exists>x \<in> set (ad_role_apis d). \<exists>a \<in> set (live_apis d).
        ur_user row = u \<and> ur_org row = k \<and> ur_role row = ro_id r \<and> trim_space (ro_code r) \<noteq> [] \<and>
        ra_role x = ro_id r \<and> ra_api x = ap_id a \<and> registered_api a \<and>
        trim_space (ap_path a) \<noteq> [] \<and> trim_space (ap_method a) \<noteq> [] \<and>
        ob = trim_space (api_resource (trim_space (ap_path a)) (trim_space (ap_method a))))"

lemma reachable_one_hop:
  assumes "\<And>a b c. (a, b) \<in> g \<Longrightarrow> (b, c) \<notin> g"
  shows "reachable_roles g s = insert s {q. (s, q) \<in> g}"
proof
  show "reachable_roles g s \<subseteq> insert s {q. (s, q) \<in> g}"
  proof
    fix q assume "q \<in> reachable_roles g s"
    then obtain n where n: "(s, q) \<in> g ^^ n" by (auto simp: reachable_roles_def)
    have "n \<le> 1"
    proof (rule ccontr)
      assume "\<not> n \<le> 1"
      then have "n = Suc (Suc (n - 2))" by simp
      with n have "(s, q) \<in> g ^^ Suc (Suc (n - 2))" by simp
      then obtain t v where "(s, t) \<in> g" "(t, v) \<in> g" by (blast dest: relpow_Suc_D2)
      then show False using assms by blast
    qed
    with n show "q \<in> insert s {q. (s, q) \<in> g}" by (auto simp: le_Suc_eq)
  qed
  have "s \<in> reachable_roles g s" unfolding reachable_roles_def by (auto intro!: exI [of _ 0])
  moreover have "q \<in> reachable_roles g s" if "(s, q) \<in> g" for q
    unfolding reachable_roles_def using that by (auto intro!: exI [of _ 1])
  ultimately show "insert s {q. (s, q) \<in> g} \<subseteq> reachable_roles g s" by auto
qed

lemma trimmed_no_at: "CHR ''@'' \<notin> set s \<Longrightarrow> CHR ''@'' \<notin> set (trim_space s)"
  using set_trim_space by blast

lemma menu_triple_subject:
  "(s, ob, a) \<in> api_triples (menu_api_relations d) \<Longrightarrow> \<exists>m \<in> set (live_menus d). s = trim_space (mu_code m)"
  by (auto simp: api_triples_def menu_api_relations_def)

lemma role_api_relations_iff:
  "(c, p, m) \<in> set (role_api_relations d) \<longleftrightarrow>
     (\<exists>x \<in> set (ad_role_apis d). \<exists>r \<in> set (live_roles d). \<exists>a \<in> set (live_apis d).
        ro_id r = ra_role x \<and> ap_id a = ra_api x \<and> registered_api a \<and> c = ro_code r \<and> p = ap_path a \<and> m = ap_method a)"
  by (auto simp: role_api_relations_def image_iff)

lemma role_triple_iff:
  "(s, ob, action_access) \<in> api_triples (role_api_relations d) \<longleftrightarrow>
     (\<exists>x \<in> set (ad_role_apis d). \<exists>r \<in> set (live_roles d). \<exists>a \<in> set (live_apis d).
        ro_id r = ra_role x \<and> ap_id a = ra_api x \<and> registered_api a \<and> s = trim_space (ro_code r) \<and> s \<noteq> [] \<and>
        trim_space (ap_path a) \<noteq> [] \<and> trim_space (ap_method a) \<noteq> [] \<and>
        ob = trim_space (api_resource (trim_space (ap_path a)) (trim_space (ap_method a))))"
  by (simp add: api_triples_def role_api_relations_iff) blast

context policy_laws
begin

lemma rebuilt_api_access:
  assumes p: "groups p = snapshot_groups (snapshot_of d)" "perms p = snapshot_perms (snapshot_of d)"
    and apart: "codes_apart d" and user: "user_row_of d u \<noteq> None"
  shows "en_enforce eng p (build_subject u k) ob action_access \<longleftrightarrow> direct_api_grant d u k ob"
proof -
  let ?s = "build_subject u k"
  have hop: "(b, c) \<notin> groups p" if ab: "(a, b) \<in> groups p" for a b c
  proof
    assume "(b, c) \<in> groups p"
    then have "CHR ''@'' \<in> set b" using relation_sources unfolding p(1) snapshot_groups_of by blast
    moreover obtain r where "r \<in> set (live_roles d)" "b = trim_space (ro_code r)"
      using ab relation_sources unfolding p(1) snapshot_groups_of by blast
    ultimately show False using apart trimmed_no_at unfolding codes_apart_def by blast
  qed
  have own: "(?s, ob, action_access) \<notin> perms p"
  proof
    assume "(?s, ob, action_access) \<in> perms p"
    then consider m where "m \<in> set (live_menus d)" "?s = trim_space (mu_code m)"
      | r where "r \<in> set (live_roles d)" "?s = trim_space (ro_code r)"
      unfolding p(2) snapshot_api_perms Un_iff role_triple_iff using menu_triple_subject by blast
    then show False
      using apart at_sign_in_subject [of u k] trimmed_no_at unfolding codes_apart_def by cases metis+
  qed
  have "en_enforce eng p ?s ob action_access \<longleftrightarrow> (\<exists>q. (?s, q) \<in> groups p \<and> (q, ob, action_access) \<in> perms p)"
    using own by (auto simp: enforce reachable_one_hop [OF hop])
  also have "\<dots> \<longleftrightarrow> (\<exists>q. (?s, q) \<in> relation_pairs (user_org_role_relations d) \<and>
      (q, ob, action_access) \<in> api_triples (role_api_relations d))"
  proof -
    have "(q, ob, action_access) \<notin> api_triples (menu_api_relations d)"
      if "(?s, q) \<in> relation_pairs (user_org_role_relations d)" for q
      using relation_sources [OF that] menu_triple_subject apart unfolding codes_apart_def by metis
    then show ?thesis unfolding p snapshot_groups_of snapshot_api_perms by blast
  qed
  also have "\<dots> \<longleftrightarrow> direct_api_grant d u k ob"
  proof
    assume "\<exists>q. (?s, q) \<in> relation_pairs (user_org_role_relations d) \<and>
      (q, ob, action_access) \<in> api_triples (role_api_relations d)"
    then obtain q where q: "(?s, q) \<in> relation_pairs (user_org_role_relations d)"
      "(q, ob, action_access) \<in> api_triples (role_api_relations d)" by blast
    obtain row r where r: "row \<in> set (ad_user_roles d)" "r \<in> set (live_roles d)" "ur_user row = u"
      "ur_org row = k" "ur_role row = ro_id r" "q = trim_space (ro_code r)" "q \<noteq> []"
      using q(1) unfolding relation_pairs_iff user_org_role_relations_iff by auto
    obtain x r' a where x: "x \<in> set (ad_role_apis d)" "r' \<in> set (live_roles d)" "a \<in> set (live_apis d)"
      "ra_role x = ro_id r'" "ra_api x = ap_id a" "registered_api a" "q = trim_space (ro_code r')"
      "trim_space (ap_path a) \<noteq> []" "trim_space (ap_method a) \<noteq> []"
      "ob = trim_space (api_resource (trim_space (ap_path a)) (trim_space (ap_method a)))"
      using q(2) unfolding role_triple_iff by auto
    have "ro_id r = ro_id r'" using apart r x unfolding codes_apart_def by metis
    then show "direct_api_grant d u k ob" using r x unfolding direct_api_grant_def by metis
  next
    assume "direct_api_grant d u k ob"
    then obtain row r x a where g: "row \<in> set (ad_user_roles d)" "r \<in> set (live_roles d)" "x \<in> set (ad_role_apis d)"
      "a \<in> set (live_apis d)" "ur_user row = u" "ur_org row = k" "ur_role row = ro_id r" "trim_space (ro_code r) \<noteq> []"
      "ra_role x = ro_id r" "ra_api x = ap_id a" "registered_api a" "trim_space (ap_path a) \<noteq> []"
      "trim_space (ap_method a) \<noteq> []" "ob = trim_space (api_resource (trim_space (ap_path a)) (trim_space (ap_method a)))"
      unfolding direct_api_grant_def by blast
    obtain y where y: "y \<in> set (live_users d)" "au_id y = u"
      using user by (auto simp: user_row_of_def row_get_None_iff)
    have "(u, k, ro_code r) \<in> set (user_org_role_relations d)"
      unfolding user_org_role_relations_iff using g(1,2,5-7) y by metis
    then have "(?s, trim_space (ro_code r)) \<in> relation_pairs (user_org_role_relations d)"
      using g(8) unfolding relation_pairs_iff by blast
    moreover have "(trim_space (ro_code r), ob, action_access) \<in> api_triples (role_api_relations d)"
      unfolding role_triple_iff using g(2-4,8-14) by metis
    ultimately show "\<exists>q. (?s, q) \<in> relation_pairs (user_org_role_relations d) \<and>
      (q, ob, action_access) \<in> api_triples (role_api_relations d)" by blast
  qed
  finally show ?thesis .
qed

lemma sync_subject_roles_run:
  assumes "ae_engine en = eng" "sync_subject_roles en u k w = (Inr (), w')"
  shows "aw_db w' = aw_db w" "perms (aw_policy w') = perms (aw_policy w)"
    "groups (aw_policy w') = {x \<in> groups (aw_policy w). fst x \<noteq> build_subject u k} \<union>
       {build_subject u k} \<times> role_names (map ro_code (active_roles_of (aw_db w) u k))"
proof -
  have rep: "replace_subject_roles en (build_subject u k)
      (map (\<lambda>r. trim_space (ro_code r)) (active_roles_of (aw_db w) u k)) (atick w) = (Inr (), w')"
    using assms(2)
    by (auto simp: sync_subject_roles_def role_user_roles_by_org_def svc_iffs aread_run split: if_splits)
  have "role_names (map (\<lambda>r. trim_space (ro_code r)) rs) = role_names (map ro_code rs)" for rs
    by (induction rs) auto
  note names = this [of "active_roles_of (aw_db w) u k"]
  then show "aw_db w' = aw_db w" "perms (aw_policy w') = perms (aw_policy w)"
    "groups (aw_policy w') = {x \<in> groups (aw_policy w). fst x \<noteq> build_subject u k} \<union>
       {build_subject u k} \<times> role_names (map ro_code (active_roles_of (aw_db w) u k))"
    using replace_subject_roles_run [OF assms(1) rep] unfolding names by simp_all
qed

end

end
