(* ===== verification/Access_Types.thy ===== *)
theory Access_Types
  imports Access_Reachable
begin

text \<open>
  The typing of account and member rows: a status is one of the constants of the code, and the
  columns that go with it (frozen, disabled, deleted, left, removed) agree with it. Every
  command of \<open>access_step\<close> keeps it.
\<close>

definition user_typed :: "access_user \<Rightarrow> bool" where
  "user_typed u \<longleftrightarrow>
     au_status u \<in> {user_active, user_disabled, user_deleted_soft} \<and>
     (au_freeze u \<longleftrightarrow> au_status u \<noteq> user_active) \<and>
     (au_deleted u \<longleftrightarrow> au_status u = user_deleted_soft) \<and>
     (au_status u = user_active \<longrightarrow> au_disabled_at u = None \<and> au_disabled_by u = None) \<and>
     (au_status u = user_disabled \<longrightarrow> au_disabled_at u \<noteq> None) \<and>
     (au_deleted u \<longrightarrow> au_current_org u = None \<and> au_email u = '''' \<and> au_phone u = au_name u)"

definition member_typed :: "org_member \<Rightarrow> bool" where
  "member_typed m \<longleftrightarrow>
     (mb_status m = member_active \<and> mb_left m = None \<and> mb_removed m = None \<and> mb_removed_by m = None \<and> mb_reason m = '''') \<or>
     (mb_status m = member_left \<and> mb_left m \<noteq> None \<and> mb_removed m = None \<and> mb_removed_by m = None) \<or>
     (mb_status m = member_removed \<and> mb_left m = None \<and> mb_removed m \<noteq> None)"

definition rows_typed :: "access_db \<Rightarrow> bool" where
  "rows_typed d \<longleftrightarrow> (\<forall>u \<in> set (ad_users d). user_typed u) \<and> (\<forall>m \<in> set (ad_members d). member_typed m)"

lemmas user_status_defs = user_active_def user_disabled_def user_deleted_soft_def

lemma rows_typed_insensitive: "insensitive rows_typed"
  by (auto simp: insensitive_def rows_typed_def)

lemma rows_typed_others [simp]:
  "rows_typed (d\<lparr>ad_orgs := os\<rparr>) = rows_typed d" "rows_typed (d\<lparr>ad_roles := rs\<rparr>) = rows_typed d"
  "rows_typed (d\<lparr>ad_user_roles := urs\<rparr>) = rows_typed d" "rows_typed (d\<lparr>ad_images := im\<rparr>) = rows_typed d"
  "rows_typed (d\<lparr>ad_outbox := ob\<rparr>) = rows_typed d" "rows_typed (d\<lparr>ad_next := n\<rparr>) = rows_typed d"
  "rows_typed (d\<lparr>ad_role_menus := rm\<rparr>) = rows_typed d" "rows_typed (d\<lparr>ad_role_apis := ra\<rparr>) = rows_typed d"
  by (simp_all add: rows_typed_def)

subsection \<open>Writes\<close>

lemma users_mapped_typed:
  assumes "\<And>u. user_typed u \<Longrightarrow> P u \<Longrightarrow> user_typed (h u)" "rows_typed d"
  shows "rows_typed (d\<lparr>ad_users := map (\<lambda>u. if P u then h u else u) (ad_users d)\<rparr>)"
  using assms by (auto simp: rows_typed_def)

lemma members_mapped_typed:
  assumes "\<And>m. member_typed m \<Longrightarrow> P m \<Longrightarrow> member_typed (h m)" "rows_typed d"
  shows "rows_typed (d\<lparr>ad_members := map (\<lambda>m. if P m then h m else m) (ad_members d)\<rparr>)"
  using assms by (auto simp: rows_typed_def)

lemma user_put_typed: "rows_typed d \<Longrightarrow> user_typed u \<Longrightarrow> rows_typed (d\<lparr>ad_users := row_put au_id u (ad_users d)\<rparr>)"
  using set_row_put [of au_id u "ad_users d"] by (auto simp: rows_typed_def)

lemma member_with_status_typed:
  "st \<in> {member_active, member_left, member_removed} \<Longrightarrow> member_typed (member_with_status st op' reason src t m)"
  by (auto simp: member_typed_def member_with_status_def Let_def member_status_defs)

lemma set_status_holds: "st \<in> {member_active, member_left, member_removed} \<Longrightarrow>
    holds rows_typed (member_set_status oid uid st op' reason src)"
  unfolding member_set_status_def by (intro holds_intro members_mapped_typed member_with_status_typed) simp_all

lemma set_all_removed_holds: "holds rows_typed (member_set_all_removed oid op' reason)"
  unfolding member_set_all_removed_def
  by (intro holds_intro members_mapped_typed) (simp_all add: member_typed_def member_status_defs)

lemma member_create_holds: "holds rows_typed (member_create (new_member oid uid t src))"
  unfolding member_create_def
  by (intro holds_intro) (auto simp: rows_typed_def member_typed_def new_member_def)

lemma current_org_holds: "holds rows_typed (user_update_current_org uid (Some oid))"
  "holds rows_typed (user_update_current_org uid x)" "holds rows_typed (user_clear_current_org oid)"
  unfolding user_update_current_org_def user_clear_current_org_def map_live_users_def
  by (intro holds_intro users_mapped_typed; auto simp: user_typed_def)+

lemma update_status_holds: "st \<in> {user_active, user_disabled} \<Longrightarrow> holds rows_typed (user_update_status uid st op' reason)"
  unfolding user_update_status_def map_live_users_def
  by (intro holds_intro users_mapped_typed) (auto simp: user_typed_def user_status_defs split: if_splits)

lemma anonymize_holds: "holds rows_typed (user_soft_delete_anonymize en uid)"
  unfolding user_soft_delete_anonymize_def map_live_users_def
  by (intro holds_intro users_mapped_typed) (auto simp: user_typed_def anonymized_def user_status_defs)

lemma images_hold: "insensitive J \<Longrightarrow> holds J (image_update_category k c)" "insensitive J \<Longrightarrow> holds J (image_soft_delete ks)"
  "insensitive J \<Longrightarrow> holds J (update_avatar_images x y)"
proof -
  assume J: "insensitive J"
  show 1: "holds J (image_update_category k c)" for k c
    unfolding image_update_category_def by (intro holds_intro insensitiveD [OF J])
  show 2: "holds J (image_soft_delete ks)" for ks
    unfolding image_soft_delete_def image_delete_def by (intro holds_intro insensitiveD [OF J])
  show "holds J (update_avatar_images x y)"
    unfolding update_avatar_images_def by (intro holds_intro 1 2)
qed

lemma generate_reads: "reads (generate_invite_code en n)"
  by (induction n) (unfold generate_invite_code.simps Let_def org_by_code_def, (intro reads_intro; assumption?)+)

lemma first_role_reads: "reads (first_role en cs)"
  by (induction cs) (unfold first_role.simps role_find_by_code_def, (intro reads_intro; assumption?)+)

lemma default_role_reads: "reads (resolve_default_org_role en)"
  unfolding resolve_default_org_role_def by (rule first_role_reads)

lemma matrix_reads: "reads (build_user_role_matrix en operator target oid)"
  unfolding build_user_role_matrix_def user_by_id_def member_is_active_def role_user_roles_by_org_def role_active_roles_def
  by (intro reads_intro)

lemmas typed_steps = set_status_holds set_all_removed_holds member_create_holds current_org_holds update_status_holds
  anonymize_holds images_hold [OF rows_typed_insensitive] holds_publish [OF rows_typed_insensitive]
  reads_authorize [THEN holds_reads] reads_sync [THEN holds_reads] generate_reads [THEN holds_reads]
  default_role_reads [THEN holds_reads] matrix_reads [THEN holds_reads]

lemmas access_read_defs = org_by_id_def org_find_def org_by_code_def org_by_builtin_key_def org_exists_by_name_def
  member_for_update_def member_is_active_def org_count_members_def member_active_org_ids_def user_by_id_def
  user_by_phone_def user_exists_by_phone_def user_ids_by_current_org_def user_disabled_before_def
  role_by_id_def role_find_by_code_def role_exists_by_code_def role_exists_by_code_exclude_def role_is_in_use_def
  found_def pick_another_active_org_def

lemmas access_write_defs = org_create_def org_save_def org_remove_def org_remove_all_members_def role_assign_in_org_def
  role_delete_user_org_def role_replace_user_org_def role_create_def role_save_def role_remove_def
  role_clear_menus_def role_clear_apis_def

lemmas access_command_defs = create_org_def create_org_tx_def update_org_def update_org_tx_def update_org_name_def
  update_org_code_def delete_org_def delete_org_tx_def set_current_org_def set_current_org_tx_def
  join_org_by_invite_code_def join_org_tx_def leave_org_def leave_org_tx_def drop_member_tx_def kick_member_def
  kick_member_tx_def recover_member_def recover_member_tx_def reset_default_role_def assign_default_org_role_def
  assign_role_def assign_role_tx_def

subsection \<open>Commands\<close>

lemma org_commands_typed:
  "holds rows_typed (create_org en uid creq)" "holds rows_typed (update_org en uid oid ureq)"
  "holds rows_typed (delete_org en uid oid force)" "holds rows_typed (set_current_org en uid oid)"
  "holds rows_typed (join_org_by_invite_code en uid code)" "holds rows_typed (leave_org en uid oid reason)"
  "holds rows_typed (kick_member en uid oid target reason)" "holds rows_typed (recover_member en uid oid target reason)"
  "holds rows_typed (assign_role en uid target oid ids)"
  unfolding access_command_defs access_read_defs access_write_defs Let_def
  by (intro holds_intro typed_steps; simp)+

lemma new_user_typed: "user_typed (new_user en req uuid oid\<lparr>au_id := i\<rparr>)"
  by (simp add: user_typed_def new_user_def user_status_defs)

lemma register_typed: "holds rows_typed (register en req)"
proof -
  have create: "holds rows_typed (user_create en (new_user en req uuid oid))" for uuid oid
    unfolding user_create_def
    by (intro holds_intro) (use new_user_typed in \<open>auto simp: rows_typed_def\<close>)
  show ?thesis
    unfolding register_def register_tx_def access_read_defs access_write_defs
    by (intro holds_intro create typed_steps; simp)
qed

lemma user_row_typed: "rows_typed d \<Longrightarrow> user_row_of d k = Some u \<Longrightarrow> user_typed u"
  using row_of_rows(2) by (auto simp: rows_typed_def)

lemma user_row_live: "user_row_of d k = Some u \<Longrightarrow> \<not> au_deleted u"
  using row_of_rows(2) by blast

lemma changed_profile_typed: "user_typed u \<Longrightarrow> \<not> au_deleted u \<Longrightarrow> user_typed (changed_profile req pair u)"
proof -
  have "au_status (changed_profile req pair u) = au_status u" "au_freeze (changed_profile req pair u) = au_freeze u"
    "au_disabled_at (changed_profile req pair u) = au_disabled_at u"
    "au_disabled_by (changed_profile req pair u) = au_disabled_by u"
    by (auto simp: changed_profile_def Let_def split: option.splits)
  then show "user_typed u \<Longrightarrow> \<not> au_deleted u \<Longrightarrow> user_typed (changed_profile req pair u)"
    by (auto simp: user_typed_def)
qed

lemma profile_commands_typed:
  "holds rows_typed (update_profile en uid preq)" "holds rows_typed (change_phone en uid hreq)"
  "holds rows_typed (change_password en uid old new)"
proof -
  have other: "user_typed u \<Longrightarrow> \<not> au_deleted u \<Longrightarrow> user_typed (u\<lparr>au_phone := ph\<rparr>)"
    "user_typed u \<Longrightarrow> user_typed (u\<lparr>au_password := pw\<rparr>)" for u ph pw
    by (auto simp: user_typed_def)
  show "holds rows_typed (update_profile en uid preq)"
    unfolding update_profile_def update_profile_tx_def user_update_def user_by_id_def Let_def
    by (rule dwp_holds)
      (intro dwp_bind tx_ok [where J = rows_typed] dwp_intro dwp_avatar_images dwp_outbox
        dwp_reads [OF reads_authorize(6)] conjI allI impI TrueI;
       auto intro!: user_put_typed changed_profile_typed intro: user_row_typed dest: user_row_live)
  show "holds rows_typed (change_phone en uid hreq)"
    unfolding change_phone_def user_update_def user_by_id_def user_exists_by_phone_def
    by (rule dwp_holds)
      (intro dwp_intro dwp_reads [OF reads_authorize(6)] conjI allI impI TrueI;
       auto intro!: user_put_typed other intro: user_row_typed dest: user_row_live)
  show "holds rows_typed (change_password en uid old new)"
    unfolding change_password_def user_update_def user_by_id_def
    by (rule dwp_holds)
      (intro dwp_intro conjI allI impI TrueI; auto intro!: user_put_typed other intro: user_row_typed)
qed

lemma status_commands_typed:
  "holds rows_typed (update_user_status en operator target req)" "holds rows_typed (deactivate_account en target r)"
proof -
  have status: "holds rows_typed (apply_user_status en op' tg st reason)" if "st \<in> {user_active, user_disabled}"
    for op' tg st reason
    unfolding apply_user_status_def apply_user_status_tx_def user_by_id_def
    by (intro holds_intro typed_steps that holds_reads [OF reads_acall]; simp)
  show "holds rows_typed (update_user_status en operator target req)" "holds rows_typed (deactivate_account en target r)"
    unfolding update_user_status_def deactivate_account_def Let_def
    by (intro holds_intro status; simp)+
qed

lemma cleanup_typed: "holds rows_typed (cleanup_disabled_users en)"
  unfolding cleanup_disabled_users_def cleanup_user_def cleanup_user_tx_def cleanup_org_tx_def
    access_read_defs access_write_defs
  by (intro holds_intro typed_steps anonymize_holds; simp)

lemma role_commands_typed:
  "holds rows_typed (create_role en oreq)" "holds rows_typed (update_role en rid vreq)" "holds rows_typed (delete_role en rid)"
  unfolding create_role_def update_role_def update_role_tx_def update_role_code_def delete_role_def delete_role_tx_def
    access_read_defs access_write_defs Let_def
  by (intro holds_intro typed_steps; simp)+

lemma holds_snd: "holds J m \<Longrightarrow> J (aw_db w) \<Longrightarrow> J (aw_db (snd (m w)))"
  by (rule holdsD [of J m w "fst (m w)"]) simp_all

lemma access_step_typed:
  assumes "access_step en w w'" "rows_typed (aw_db w)"
  shows "rows_typed (aw_db w')"
  using assms
  by cases
    (auto intro!: holds_snd [where J = rows_typed]
      intro: org_commands_typed register_typed profile_commands_typed status_commands_typed cleanup_typed
        role_commands_typed assign_permissions_holds menu_commands_hold api_commands_hold rows_typed_insensitive
        holds_reads [OF reads_handle_event])

lemma access_reachable_typed:
  "access_reachable en w0 w \<Longrightarrow> rows_typed (aw_db w0) \<Longrightarrow> rows_typed (aw_db w)"
  by (induction rule: access_reachable.induct) (auto intro: access_step_typed)

end
