(* ===== verification/Access_Effects.thy ===== *)
theory Access_Effects
  imports Access_Grants Access_Types
begin

text \<open>
  What single commands of the organisation and account services achieve: a failed command
  leaves the tables alone, a removed member loses every right in the organisation, an
  assignment of roles is a full replacement within the level of the operator, and the policy
  engine follows the tables for the subject of the command.
\<close>

subsection \<open>Failures\<close>

definition unchanged_unless_internal :: "access_db \<Rightarrow> go_err \<Rightarrow> access_db \<Rightarrow> bool" where
  "unchanged_unless_internal d e d' \<longleftrightarrow> e = Biz CodeInternalError \<or> d' = d"

lemma dwp_any: "dwp m (\<lambda>_ _. True) (\<lambda>_ _. True) d"
  by (auto simp: dwp_def wp_def split: prod.splits sum.splits)

lemma failed_tx: "(\<And>a d'. Q a d') \<Longrightarrow> (\<And>e. E e d) \<Longrightarrow> dwp (atx m) Q E d"
  by (rule dwp_atx) (auto intro: dwp_mono [OF dwp_any])

lemma unchanged_simps [simp]: "unchanged_unless_internal d e d" "unchanged_unless_internal d (Biz CodeInternalError) d'"
  by (simp_all add: unchanged_unless_internal_def)

lemma failed_command:
  "dwp (create_org en uid creq) (\<lambda>_ _. True) (unchanged_unless_internal d) d"
  "dwp (update_org en uid oid ureq) (\<lambda>_ _. True) (unchanged_unless_internal d) d"
  "dwp (delete_org en uid oid force) (\<lambda>_ _. True) (unchanged_unless_internal d) d"
  "dwp (set_current_org en uid oid) (\<lambda>_ _. True) (unchanged_unless_internal d) d"
  "dwp (join_org_by_invite_code en uid code) (\<lambda>_ _. True) (unchanged_unless_internal d) d"
  "dwp (leave_org en uid oid reason) (\<lambda>_ _. True) (unchanged_unless_internal d) d"
  "dwp (kick_member en uid oid target reason) (\<lambda>_ _. True) (unchanged_unless_internal d) d"
  "dwp (recover_member en uid oid target reason) (\<lambda>_ _. True) (unchanged_unless_internal d) d"
  "dwp (assign_role en uid target oid ids) (\<lambda>_ _. True) (unchanged_unless_internal d) d"
  unfolding create_org_def update_org_def delete_org_def set_current_org_def join_org_by_invite_code_def leave_org_def
    kick_member_def recover_member_def assign_role_def access_read_defs
  by (intro dwp_intro failed_tx dwp_reads [OF generate_reads] dwp_reads [OF reads_sync] dwp_reads [OF reads_authorize(4)]
      dwp_reads [OF reads_authorize(5)] dwp_reads [OF matrix_reads] TrueI unchanged_simps conjI allI impI)+

inductive org_command :: "'p access_env \<Rightarrow> ('p, unit) acc \<Rightarrow> bool" for en where
  command_create: "org_command en (create_org en uid creq)"
| command_update: "org_command en (update_org en uid oid ureq)"
| command_delete: "org_command en (delete_org en uid oid force)"
| command_current: "org_command en (set_current_org en uid oid)"
| command_join: "org_command en (join_org_by_invite_code en uid code)"
| command_leave: "org_command en (leave_org en uid oid reason)"
| command_kick: "org_command en (kick_member en uid oid target reason)"
| command_recover: "org_command en (recover_member en uid oid target reason)"
| command_assign: "org_command en (assign_role en uid target oid ids)"

lemma failed_org_command: "org_command en m \<Longrightarrow> dwp m (\<lambda>_ _. True) (unchanged_unless_internal d) d"
  by (induction rule: org_command.induct) (rule failed_command)+

subsection \<open>A removed member\<close>

lemma kick_member_tx_removes:
  assumes "keys_of d"
  shows "dwp (kick_member_tx en operator oid target reason) (\<lambda>_ d'. \<not> act (ad_members d') target oid) (\<lambda>_ _. True) d"
proof -
  have dist: "distinct (map member_keys (ad_members d))"
    using assms by (simp add: keys_of_def keys_ok_def)
  have gone: "\<not> act (ad_members d) target oid"
    if "member_row_of d oid target = Some m" "mb_status m = member_removed" for m
    using member_row_of_Some [OF that(1)] that(2) dist
    by (auto simp: act_def member_status_defs distinct_map inj_on_def member_keys_def)
  show ?thesis
    unfolding kick_member_tx_def drop_member_tx_def pick_another_active_org_def repo_defs
    apply (intro tx_intro TrueI conjI allI impI)
    apply (auto simp: views gone member_status_defs)
    done
qed

text \<open>Without membership there are no role rows.\<close>

lemma no_member_no_roles:
  assumes "access_ok en k g d" "\<not> act (ad_members d) u oid" "oid \<noteq> 0"
  shows "active_roles_of d u oid = []"
  using assms by (auto simp: access_ok_def membership_def active_roles_of_def filter_empty_conv)

text \<open>Everything before the synchronisation leaves the policy engine alone.\<close>

definition steady :: "('p, 'a) acc \<Rightarrow> bool" where
  "steady m \<longleftrightarrow> (\<forall>w r w'. m w = (r, w') \<longrightarrow> aw_policy w' = aw_policy w)"

named_theorems steady_intro \<open>methods that leave the policy engine alone\<close>

lemma steadyD: "steady m \<Longrightarrow> m w = (r, w') \<Longrightarrow> aw_policy w' = aw_policy w"
  by (simp add: steady_def)

lemma steady_control [steady_intro]:
  "steady (svc_return a)" "steady (svc_throw e)" "steady (svc_lift x)"
  "steady m \<Longrightarrow> (\<And>a. steady (f a)) \<Longrightarrow> steady (svc_bind m f)" "steady m \<Longrightarrow> steady (awrap c m)"
  "steady m \<Longrightarrow> steady n \<Longrightarrow> steady (if b then m else n)" "steady m \<Longrightarrow> steady (atx m)"
  by (force simp: steady_def svc_bind_def awrap_def svc_wrap_def atx_def split: prod.splits sum.splits if_splits)+

lemma steady_calls [steady_intro]:
  "steady (aread h)" "steady (awrite f)" "steady (ainsert ok f)" "steady (acreate ok f')" "steady anow"
  "(\<And>w. aw_policy (snd (j w)) = aw_policy w) \<Longrightarrow> steady (acall j)"
  by (auto simp: steady_def aread_def awrite_def acall_def ainsert_def acreate_def anow_def Let_def
      split: prod.splits if_splits) (metis atick_simps(2) snd_conv)

lemma steady_cases [steady_intro]:
  "steady m \<Longrightarrow> (\<And>x. steady (g x)) \<Longrightarrow> steady (case z of None \<Rightarrow> m | Some x \<Rightarrow> g x)"
  "(\<And>x y. steady (h x y)) \<Longrightarrow> steady (case q of (x, y) \<Rightarrow> h x y)"
  by (cases z, simp_all) (cases q, simp)

lemma steady_found [steady_intro]: "steady m \<Longrightarrow> steady (found m)"
  unfolding found_def by (intro steady_intro)

lemma steady_publish [steady_intro]:
  "steady (publish_cache_event en cev)" "steady (publish_subject_binding en u k)"
  unfolding publish_cache_event_def publish_subject_binding_def publish_permission_event_def outbox_append_def
  by (intro steady_intro)+

lemma steady_authorize [steady_intro]: "steady (authorize_member_action en operator oid action)"
  unfolding authorize_member_action_def access_authorize_def access_can_operate_def access_global_roles_def
    access_check_subject_capability_def policy_has_permission_def repo_defs Let_def
  by (intro steady_intro) simp_all

lemma steady_org_by_id [steady_intro]: "steady (org_by_id oid)"
  unfolding repo_defs by (intro steady_intro)

lemma steady_kick_tx [steady_intro]: "steady (kick_member_tx en operator oid target reason)"
  unfolding kick_member_tx_def drop_member_tx_def pick_another_active_org_def repo_defs
  by (intro steady_intro)

lemmas steady_kick = steady_org_by_id steady_authorize steady_control(7) [OF steady_kick_tx]

lemma kick_member_run:
  assumes "kick_member en operator oid target reason w = (Inr (), w')" "access_ok en k g (aw_db w)"
  obtains v where "sync_subject_roles en target oid v = (Inr (), w')" "access_ok en k g (aw_db v)"
    "\<not> act (ad_members (aw_db v)) target oid" "oid \<noteq> 0" "aw_policy v = aw_policy w"
proof -
  obtain o' w1 w2 w3 u where run: "org_by_id oid w = (Inr o', w1)" "authorize_member_action en operator oid ''kick'' w1 = (Inr (), w2)"
    "target \<noteq> ag_owner o'" "atx (kick_member_tx en operator oid target reason) w2 = (Inr u, w3)"
    "sync_subject_roles en target oid w3 = (Inr (), w')"
    using assms(1) by (auto simp: kick_member_def awrap_def svc_iffs split: if_splits)
  have db: "aw_db w1 = aw_db w" "aw_db w2 = aw_db w"
    using run(1,2) readsD [OF reads_authorize(5)] readsD [of "org_by_id oid"]
    by (fastforce simp: org_by_id_def org_find_def intro: reads_intro)+
  have row: "org_row_of (aw_db w) oid = Some o'"
    using run(1) by (auto simp: org_by_id_def found_def org_find_def svc_iffs aread_run split: if_splits option.splits)
  have "dwp (atx (kick_member_tx en operator oid target reason))
      (\<lambda>_ d. access_ok en k g d \<and> \<not> act (ad_members d) target oid) (\<lambda>_ _. True) (aw_db w2)"
  proof (rule dwp_atx)
    show "dwp (kick_member_tx en operator oid target reason)
        (\<lambda>_ d. access_ok en k g d \<and> \<not> act (ad_members d) target oid) (\<lambda>_ _. True) (aw_db w2)"
      using dwp_conj [OF kick_member_tx_ok kick_member_tx_removes, of en k g "aw_db w2" oid target operator reason]
        assms(2) db(2) run(3) org_row_own [OF assms(2) row]
      by (simp add: access_ok_def)
  qed simp
  from dwpD [OF this run(4)] have "access_ok en k g (aw_db w3)" "\<not> act (ad_members (aw_db w3)) target oid" by simp_all
  moreover have "oid \<noteq> 0"
    using row_of_rows(1) [OF row] access_ok_org [OF assms(2)] by fastforce
  moreover have "aw_policy w3 = aw_policy w"
    using run(1,2,4) steady_kick by (metis steadyD)
  ultimately show thesis using that run(5) by blast
qed

subsection \<open>Assigning roles\<close>

text \<open>Who may grant the role of an organisation administrator.\<close>

definition may_grant_org_admin :: "access_db \<Rightarrow> nat \<Rightarrow> nat \<Rightarrow> bool" where
  "may_grant_org_admin d operator oid \<longleftrightarrow>
     (\<exists>r \<in> set (active_roles_of d operator 0). ro_code r = role_super_admin) \<or>
     (\<exists>o'. org_row_of d oid = Some o' \<and> ag_owner o' = operator) \<or>
     (\<exists>r \<in> set (active_roles_of d operator oid). ro_code r = role_code_org_admin)"

lemma dwp_level:
  assumes "Q LevelMember d" "\<And>l. may_grant_org_admin d operator oid \<Longrightarrow> Q l d" "\<And>e. E e d"
  shows "dwp (resolve_operator_level operator oid) Q E d"
  unfolding resolve_operator_level_def repo_defs
  using assms by (intro dwp_intro conjI allI impI) (auto simp: may_grant_org_admin_def)

definition assignable_role :: "access_db \<Rightarrow> nat \<Rightarrow> nat \<Rightarrow> nat \<Rightarrow> bool" where
  "assignable_role d operator oid i \<longleftrightarrow>
     (\<exists>r \<in> set (live_roles d). ro_id r = i \<and> ro_status r = 1 \<and> ro_code r \<noteq> role_super_admin \<and>
        (ro_code r = role_code_org_admin \<longrightarrow> may_grant_org_admin d operator oid))"

definition rows_of :: "access_db \<Rightarrow> nat \<Rightarrow> nat \<Rightarrow> nat list" where
  "rows_of d u oid = map ur_role (filter (\<lambda>r. ur_user r = u \<and> ur_org r = oid) (ad_user_roles d))"

definition other_rows :: "access_db \<Rightarrow> nat \<Rightarrow> nat \<Rightarrow> user_org_role list" where
  "other_rows d u oid = filter (\<lambda>r. \<not> (ur_user r = u \<and> ur_org r = oid)) (ad_user_roles d)"

lemma dwp_matrix_levels:
  assumes "\<And>mx. act (ad_members d) target oid \<Longrightarrow>
      \<forall>it \<in> set (rx_roles mx). mx_assignable it \<longrightarrow> assignable_role d operator oid (ro_id (mx_role it)) \<Longrightarrow> Q mx d"
    and "\<And>e. E e d"
  shows "dwp (build_user_role_matrix en operator target oid) Q E d"
  unfolding build_user_role_matrix_def user_by_id_def member_is_active_def role_user_roles_by_org_def role_active_roles_def
  apply (intro dwp_intro dwp_reads [OF reads_authorize(3)] dwp_level assms)
  apply (auto simp: views matrix_role_item_def matrix_assignable_def assignable_role_def matrix_level_for_role_def
      live_roles_def split: if_splits)
  done

definition role_rows_replaced :: "access_db \<Rightarrow> nat \<Rightarrow> nat \<Rightarrow> nat list \<Rightarrow> access_db \<Rightarrow> bool" where
  "role_rows_replaced d u oid ids d' \<longleftrightarrow>
     rows_of d' u oid = normalize_user_role_ids ids \<and> other_rows d' u oid = other_rows d u oid"

lemma dwp_assign_role_tx:
  assumes "\<And>d'. rows_of d' uid oid = ids \<Longrightarrow> other_rows d' uid oid = other_rows d uid oid \<Longrightarrow> Q () d'"
  shows "dwp (assign_role_tx en uid oid ids) Q (\<lambda>_ _. True) d"
proof -
  have new: "filter (\<lambda>r. ur_user r = uid \<and> ur_org r = oid) (map (\<lambda>i. \<lparr>ur_user = uid, ur_org = oid, ur_role = i\<rparr>) xs) =
      map (\<lambda>i. \<lparr>ur_user = uid, ur_org = oid, ur_role = i\<rparr>) xs" for xs
    by (induction xs) auto
  have none: "filter (\<lambda>r. \<not> (ur_user r = uid \<and> ur_org r = oid)) (map (\<lambda>i. \<lparr>ur_user = uid, ur_org = oid, ur_role = i\<rparr>) xs) = []"
    for xs by (induction xs) auto
  have id: "map (ur_role \<circ> (\<lambda>i. \<lparr>ur_user = uid, ur_org = oid, ur_role = i\<rparr>)) xs = xs" for xs
    by (induction xs) auto
  show ?thesis
    unfolding assign_role_tx_def role_replace_user_org_def role_delete_user_org_def
    by (intro dwp_intro dwp_outbox TrueI; rule assms)
      (simp_all add: rows_of_def other_rows_def new none id del: de_Morgan_conj)
qed

lemma dwp_assign_role:
  "dwp (assign_role en operator uid oid ids)
     (\<lambda>_ d'. act (ad_members d) uid oid \<and> (\<forall>i \<in> set (normalize_user_role_ids ids). assignable_role d operator oid i) \<and>
        role_rows_replaced d uid oid ids d') (\<lambda>_ _. True) d"
proof -
  have may: "assignable_role d operator oid i"
    if "\<forall>it \<in> set items. mx_assignable it \<longrightarrow> assignable_role d operator oid (ro_id (mx_role it))"
      "check_role_ids items ids = Inr x" "i \<in> set (normalize_user_role_ids ids)" for items x i
    using that normalized_role_ids by blast
  show ?thesis
    unfolding assign_role_def
    by (intro dwp_intro dwp_matrix_levels dwp_atx dwp_assign_role_tx dwp_reads [OF reads_sync] TrueI)
      (auto simp: role_rows_replaced_def intro: may)
qed

subsection \<open>The policy engine after a command\<close>

lemma synchronised_command:
  assumes "m \<in> {leave_org en u oid reason, kick_member en operator oid u reason, assign_role en operator u oid ids}"
    and "m w = (Inr (), w')"
  obtains v where "sync_subject_roles en u oid v = (Inr (), w')"
  using assms
  by (auto simp: leave_org_def kick_member_def assign_role_def awrap_def svc_iffs split: if_splits)

end
