(* ===== verification/Access_Menu_Tree.thy ===== *)
theory Access_Menu_Tree
  imports Access_Admin
begin

text \<open>
  The recursion of the menu tree. The code recurses without a bound; in the model a fuel of one
  more than the number of menus is enough when the keys are distinct and not zero, the key of
  the root: a chain of parents up to the root never meets a menu twice. The tree then holds
  exactly the menus below the root. Menus on a cycle of parents are not below it and are
  left out without an error.
\<close>

subsection \<open>Chains of parents\<close>

inductive parent_chain :: "access_menu list \<Rightarrow> access_menu list \<Rightarrow> nat \<Rightarrow> bool" for ms where
  chain_root: "parent_chain ms [] 0"
| chain_child: "m \<in> set ms \<Longrightarrow> parent_chain ms xs (mu_parent m) \<Longrightarrow> parent_chain ms (m # xs) (mu_id m)"

inductive_cases chain_Nil: "parent_chain ms [] k"
inductive_cases chain_Cons: "parent_chain ms (m # xs) k"

lemma chain_subset: "parent_chain ms xs k \<Longrightarrow> set xs \<subseteq> set ms"
  by (induction rule: parent_chain.induct) auto

lemma chain_unique:
  assumes "distinct (map mu_id ms)" "0 \<notin> mu_id ` set ms"
  shows "parent_chain ms xs k \<Longrightarrow> parent_chain ms ys k \<Longrightarrow> xs = ys"
proof (induction arbitrary: ys rule: parent_chain.induct)
  case chain_root
  then show ?case using assms(2) by (cases ys) (auto elim!: chain_Cons)
next
  case (chain_child m xs)
  then obtain q zs where ys: "ys = q # zs"
    using assms(2) by (cases ys) (force elim!: chain_Nil)+
  with chain_child.prems have "q \<in> set ms" "mu_id q = mu_id m" "parent_chain ms zs (mu_parent q)"
    by (auto elim!: chain_Cons)
  then have "q = m" using assms(1) chain_child.hyps(1) by (auto simp: distinct_map inj_on_def)
  then show ?case using chain_child.IH \<open>parent_chain ms zs (mu_parent q)\<close> ys by simp
qed

lemma chain_suffix: "parent_chain ms xs k \<Longrightarrow> m \<in> set xs \<Longrightarrow> \<exists>ys. parent_chain ms (m # ys) (mu_id m) \<and> length ys < length xs"
proof (induction rule: parent_chain.induct)
  case (chain_child q xs)
  then show ?case
    by (cases "m = q") (auto intro: parent_chain.chain_child less_SucI)
qed simp

lemma chain_distinct:
  assumes "distinct (map mu_id ms)" "0 \<notin> mu_id ` set ms"
  shows "parent_chain ms xs k \<Longrightarrow> distinct xs"
proof (induction rule: parent_chain.induct)
  case (chain_child m xs)
  have "m \<notin> set xs"
  proof
    assume "m \<in> set xs"
    then obtain ys where "parent_chain ms (m # ys) (mu_id m)" "length ys < length xs"
      using chain_suffix [OF chain_child.hyps(2)] by blast
    moreover have "parent_chain ms (m # xs) (mu_id m)"
      using chain_child.hyps by (rule parent_chain.chain_child)
    ultimately show False using chain_unique [OF assms] by blast
  qed
  then show ?case using chain_child.IH by simp
qed simp

lemma chain_length:
  assumes "distinct (map mu_id ms)" "0 \<notin> mu_id ` set ms" "parent_chain ms xs k"
  shows "length xs \<le> length ms"
  using chain_distinct [OF assms] chain_subset [OF assms(3)]
  by (metis card_length card_mono distinct_card finite_set le_trans)

subsection \<open>The fuel is enough\<close>

lemma those_eq_None: "those xs = None \<longleftrightarrow> None \<in> set xs"
  by (induction xs) (auto split: option.splits)

lemma those_eq_Some: "those xs = Some ys \<longleftrightarrow> xs = map Some ys"
  by (induction xs arbitrary: ys) (auto split: option.splits)

lemma build_tree_enough:
  assumes "distinct (map mu_id ms)" "0 \<notin> mu_id ` set ms"
  shows "parent_chain ms xs k \<Longrightarrow> n + length xs = Suc (length ms) \<Longrightarrow> build_tree n ms k \<noteq> None"
proof (induction n arbitrary: xs k)
  case 0
  then show ?case using chain_length [OF assms 0(1)] by simp
next
  case (Suc n)
  have step: "\<exists>ts. build_tree n ms (mu_id m) = Some ts" if "m \<in> set ms" "mu_parent m = k" for m
    unfolding not_None_eq [symmetric]
    using that Suc.prems by (intro Suc.IH [of "m # xs"]) (auto intro: chain_child)
  show ?case by (auto simp: those_eq_None split: if_splits dest!: step)
qed

lemma build_role_menu_tree_enough:
  assumes "distinct (map mu_id ms)" "0 \<notin> mu_id ` set ms"
  shows "parent_chain ms xs k \<Longrightarrow> n + length xs = Suc (length ms) \<Longrightarrow> build_role_menu_tree n ms k depth lim \<noteq> None"
proof (induction n arbitrary: xs k depth)
  case 0
  then show ?case using chain_length [OF assms 0(1)] by simp
next
  case (Suc n)
  have step: "\<exists>ts. build_role_menu_tree n ms (mu_id m) (depth + 1) lim = Some ts" if "m \<in> set ms" "mu_parent m = k" for m
    unfolding not_None_eq [symmetric]
    using that Suc.prems by (intro Suc.IH [of "m # xs"]) (auto intro: chain_child)
  show ?case by (auto simp: those_eq_None split: if_splits dest!: step)
qed

subsection \<open>What the tree holds\<close>

fun tree_menus :: "menu_node \<Rightarrow> access_menu set" where
  "tree_menus (MenuNode m ts) = insert m (\<Union>t \<in> set ts. tree_menus t)"

inductive below :: "access_menu list \<Rightarrow> nat \<Rightarrow> access_menu \<Rightarrow> bool" for ms where
  below_child: "m \<in> set ms \<Longrightarrow> below ms (mu_parent m) m"
| below_step: "below ms (mu_id q) m \<Longrightarrow> q \<in> set ms \<Longrightarrow> below ms (mu_parent q) m"

lemma below_iff:
  "below ms k m \<longleftrightarrow> (\<exists>q \<in> set ms. mu_parent q = k \<and> (m = q \<or> below ms (mu_id q) m))"
  by (auto elim: below.cases intro: below.intros)

lemma build_tree_menus:
  "build_tree n ms k = Some ts \<Longrightarrow> (\<Union>t \<in> set ts. tree_menus t) = {m. below ms k m}"
proof (induction n arbitrary: k ts)
  case (Suc n)
  let ?cs = "filter (\<lambda>m. mu_parent m = k) ms"
  obtain us where us: "map (\<lambda>m. map_option (MenuNode m) (build_tree n ms (mu_id m))) ?cs = map Some us"
    "set ts = set us"
    using Suc.prems by (auto simp: those_eq_Some)
  have node: "\<exists>vs. build_tree n ms (mu_id m) = Some vs \<and> MenuNode m vs \<in> set us" if "m \<in> set ?cs" for m
  proof -
    have "map_option (MenuNode m) (build_tree n ms (mu_id m)) \<in> set (map Some us)"
      unfolding us(1) [symmetric] using that by simp
    then show ?thesis by auto
  qed
  have origin: "\<exists>m \<in> set ?cs. \<exists>vs. u = MenuNode m vs \<and> build_tree n ms (mu_id m) = Some vs" if "u \<in> set us" for u
  proof -
    have "Some u \<in> set (map (\<lambda>m. map_option (MenuNode m) (build_tree n ms (mu_id m))) ?cs)"
      unfolding us(1) using that by simp
    then show ?thesis by (auto simp: image_iff eq_commute [of "Some u"])
  qed
  have "(\<Union>t \<in> set us. tree_menus t) = (\<Union>m \<in> set ?cs. insert m {q. below ms (mu_id m) q})"
  proof
    show "(\<Union>t \<in> set us. tree_menus t) \<subseteq> (\<Union>m \<in> set ?cs. insert m {q. below ms (mu_id m) q})"
      using origin Suc.IH by fastforce
    show "(\<Union>m \<in> set ?cs. insert m {q. below ms (mu_id m) q}) \<subseteq> (\<Union>t \<in> set us. tree_menus t)"
      using node Suc.IH by fastforce
  qed
  then show ?case unfolding us(2) by (subst below_iff) auto
qed simp

end
