(* ===== verification/Access_Properties.thy ===== *)
theory Access_Properties
  imports Access_Effects Access_Menu_Tree
begin

text \<open>
  The properties of accounts, organisations, roles and permissions, each with a witness in a
  small world: user 1 owns organisation 3 and is the super administrator, user 2 is a member of
  it, and the policy engine is the list engine.
\<close>

subsection \<open>A small world\<close>

definition camp_env :: "list_policy access_env" where
  "camp_env =
     \<lparr>ae_engine = list_engine, ae_str_eq = (\<lambda>a b. a = b), ae_like = (\<lambda>_ _. True), ae_parse_uri = (\<lambda>_. None),
      ae_hash = (\<lambda>s. s), ae_hash_check = (\<lambda>a b. a = b), ae_captcha = (\<lambda>_ _. True), ae_upper = (\<lambda>s. s),
      ae_lower = (\<lambda>s. s), ae_default_role = '''', ae_permission_topic = ''permissions'', ae_cache_topic = ''cache'',
      ae_reload_channel = '''', ae_redis = False, ae_cleanup = False, ae_retention_days = 30, ae_routes = []\<rparr>"

definition camp_user :: "nat \<Rightarrow> string \<Rightarrow> nat option \<Rightarrow> access_user" where
  "camp_user k phone oid =
     \<lparr>au_id = k, au_uuid = phone, au_name = phone, au_phone = phone, au_password = '''', au_email = '''',
      au_avatar = '''', au_avatar_id = None, au_address = '''', au_signature = '''', au_register = 1,
      au_freeze = False, au_status = user_active, au_disabled_at = None, au_disabled_by = None,
      au_disabled_reason = '''', au_current_org = oid, au_deleted = False\<rparr>"

definition camp_org :: access_org where
  "camp_org = \<lparr>ag_id = 3, ag_name = ''lab'', ag_desc = '''', ag_code = ''LAB'', ag_avatar = '''', ag_avatar_id = None,
     ag_owner = 1, ag_builtin = False, ag_key = None, ag_deleted = False\<rparr>"

definition camp_role :: "nat \<Rightarrow> string \<Rightarrow> access_role" where
  "camp_role k code = \<lparr>ro_id = k, ro_name = code, ro_code = code, ro_status = 1, ro_desc = '''', ro_deleted = False\<rparr>"

definition camp_menu :: "nat \<Rightarrow> nat \<Rightarrow> access_menu" where
  "camp_menu k parent =
     \<lparr>mu_id = k, mu_parent = parent, mu_name = ''m'', mu_code = ''menu'', mu_icon = '''', mu_type = 1,
      mu_route_name = '''', mu_route_path = '''', mu_route_param = '''', mu_component = '''', mu_status = 1,
      mu_sort = 0, mu_desc = '''', mu_deleted = False\<rparr>"

definition camp_api :: access_api where
  "camp_api = \<lparr>ap_id = 8, ap_path = ''/a'', ap_method = ''GET'', ap_detail = '''', ap_status = 1,
     ap_sync = sync_registered, ap_seen = None, ap_deleted = False\<rparr>"

definition camp_tables :: access_db where
  "camp_tables =
     \<lparr>ad_users = [camp_user 1 ''p1'' (Some 3), camp_user 2 ''p2'' (Some 3)], ad_orgs = [camp_org],
      ad_members = [new_member 3 1 0 source_org_create, new_member 3 2 0 source_invite],
      ad_roles = [camp_role 4 role_super_admin, camp_role 5 role_code_member],
      ad_user_roles = [\<lparr>ur_user = 1, ur_org = 0, ur_role = 4\<rparr>, \<lparr>ur_user = 2, ur_org = 3, ur_role = 5\<rparr>],
      ad_menus = [camp_menu 6 0, camp_menu 7 6], ad_apis = [camp_api], ad_caps = [], ad_role_menus = [],
      ad_menu_apis = [], ad_role_apis = [\<lparr>ra_role = 5, ra_api = 8\<rparr>], ad_role_caps = [], ad_images = [],
      ad_outbox = [], ad_next = 10\<rparr>"

definition camp_access :: "(nat \<Rightarrow> bool) \<Rightarrow> list_policy \<Rightarrow> list_policy access_world" where
  "camp_access fault p =
     \<lparr>aw_db = camp_tables, aw_policy = p, aw_saved = p, aw_sessions = [], aw_step = 0, aw_fault = fault,
      aw_time = (\<lambda>_. 0), aw_draw = (\<lambda>_. ''''), aw_lock = (\<lambda>_. LockTaken)\<rparr>"

lemmas camp_rows = camp_user_def camp_org_def camp_role_def camp_menu_def camp_api_def new_member_def

lemma camp_access_ok: "access_ok camp_env 4 {\<lparr>ur_user = 1, ur_org = 0, ur_role = 4\<rparr>} camp_tables"
  by (auto simp: access_ok_def keys_of_def keys_ok_def membership_def apart_def anchored_def global_rows_def
      camp_tables_def camp_rows act_def own_def cur_def lro_def org_lives_def user_lives_def org_keys_def member_keys_def
      role_super_admin_def role_code_member_def member_active_def camp_env_def)

lemma camp_db: "aw_db (camp_access f p) = camp_tables" "aw_policy (camp_access f p) = p"
  by (simp_all add: camp_access_def)



lemmas camp_run = awrap_def svc_catch_def svc_bind_def svc_wrap_def svc_try_def atx_def acall_def aread_def awrite_def ainsert_def
  acreate_def anow_def adraw_def found_def atick_def Let_def

lemma camp_trims:
  "trim_space ''permissions'' = ''permissions''" "trim_space ''cache'' = ''cache''"
  "trim_space cap_member_kick = cap_member_kick" "cap_member_kick \<noteq> []"
  "trim_space cap_member_assign_role = cap_member_assign_role" "cap_member_assign_role \<noteq> []"
  "trim_space role_super_admin = role_super_admin" "role_super_admin \<noteq> []"
  "trim_space role_code_member = role_code_member" "role_code_member \<noteq> []"
  "trim_space ''/a'' = ''/a''" "trim_space ''GET'' = ''GET''" "trim_space ''/a:GET'' = ''/a:GET''"
  "trim_space action_access = action_access" "action_access \<noteq> []"
  by (simp_all add: trim_space_def is_space_def cap_member_kick_def cap_member_assign_role_def
      role_super_admin_def role_code_member_def action_access_def)

lemmas camp_calls = camp_run repo_defs camp_access_def camp_tables_def camp_rows camp_env_def camp_trims
  org_row_of_def live_orgs_def member_row_of_def user_row_of_def live_users_def role_row_of_def live_roles_def
  active_member_def member_with_status_def member_status_defs active_roles_of_def active_org_ids_def
  authorize_member_action_def capability_for_member_action_def access_authorize_def access_can_operate_def
  publish_subject_binding_def publish_permission_event_def subject_binding_event_def outbox_append_def
  publish_cache_event_def current_org_event_def user_snapshot_event_def new_cache_event_def
  sync_subject_roles_def replace_subject_roles_def policy_call_def add_roles_def

lemma camp_kick: "fst (kick_member camp_env 1 3 2 '''' (camp_access (\<lambda>_. False) p)) = Inr ()"
  by (simp add: kick_member_def kick_member_tx_def drop_member_tx_def is_all_members_org_def
      pick_another_active_org_def camp_calls)

lemma camp_assign: "fst (assign_role camp_env 1 2 3 [5] (camp_access (\<lambda>_. False) p)) = Inr ()"
  by (simp add: assign_role_def assign_role_tx_def build_user_role_matrix_def resolve_operator_level_def
      matrix_role_item_def matrix_assignable_def normalize_user_role_ids_def matrix_sort_weight_def
      collect_user_role_ids_def camp_calls role_super_admin_def role_code_member_def role_code_org_admin_def
      matrix_level_for_role_def)


lemmas camp_rebuilding = rebuild_all_def build_policy_snapshot_def build_subject_roles_def build_permissions_def
  user_org_role_relations_def role_menu_relations_def menu_api_relations_def role_api_relations_def
  role_capability_relations_def rebuild_from_snapshot_def clear_all_policies_def live_apis_def registered_api_def
  add_snapshot_subject_def add_snapshot_permission_def api_permissions_def api_resource_def

lemma camp_rebuild:
  "fst (rebuild_all camp_env (camp_access (\<lambda>_. False) p)) = Inr ()"
  "aw_fault (snd (rebuild_all camp_env (camp_access (\<lambda>_. False) p))) = (\<lambda>_. False)"
  by (simp_all add: camp_rebuilding camp_calls)

lemma camp_direct_grant: "direct_api_grant camp_tables 2 3 (trim_space (api_resource ''/a'' ''GET''))"
  by (simp add: direct_api_grant_def camp_tables_def camp_rows live_roles_def live_apis_def registered_api_def camp_trims)

lemma camp_codes_apart: "codes_apart camp_tables"
  by (simp add: codes_apart_def camp_tables_def camp_rows live_roles_def live_menus_def camp_trims
      role_super_admin_def role_code_member_def trim_space_def is_space_def)

lemma camp_user_row: "user_row_of camp_tables 2 = Some (camp_user 2 ''p2'' (Some 3))"
  by (simp add: camp_tables_def user_row_of_def live_users_def camp_rows)

lemma camp_laws: "policy_laws (ae_engine camp_env) list_groups list_perms"
  using lp.policy_laws_axioms by (simp add: camp_env_def)

lemma camp_rebuilt:
  "rebuild_all camp_env (camp_access (\<lambda>_. False) p) = (Inr (), snd (rebuild_all camp_env (camp_access (\<lambda>_. False) p)))"
  using camp_rebuild(1) by (metis prod.collapse)

lemma camp_granted:
  "en_enforce (ae_engine camp_env) (aw_policy (snd (rebuild_all camp_env (camp_access (\<lambda>_. False) p)))) (build_subject 2 3)
     (trim_space (api_resource ''/a'' ''GET'')) action_access"
proof -
  obtain v where "rebuild_from_snapshot camp_env (snapshot_of camp_tables) v =
      (Inr (), snd (rebuild_all camp_env (camp_access (\<lambda>_. False) p)))"
    using camp_rebuilt [of p] by (rule rebuild_all_cases) (simp_all add: camp_db)
  from policy_laws.rebuild_from_snapshot_run(4) [OF camp_laws refl this] show ?thesis
    using policy_laws.rebuilt_api_access [OF camp_laws _ _ camp_codes_apart] camp_direct_grant camp_user_row by simp
qed

subsection \<open>Properties\<close>





text \<open>
  C8. When a member is removed, the policy engine denies it everything in the organisation:
  the command returns without an error only after the roles are gone from the tables and from
  the engine.
\<close>

theorem removed_member_is_denied:
  assumes "policy_laws (ae_engine en) groups perms" "access_ok en k g (aw_db w)"
    and "\<And>ob a. (build_subject target oid, ob, a) \<notin> perms (aw_policy w)"
    and "kick_member en operator oid target reason w = (Inr (), w')"
  shows "\<not> en_enforce (ae_engine en) (aw_policy w') (build_subject target oid) ob a"
proof -
  note laws = policy_laws.sync_subject_roles_run [OF assms(1) refl]
  obtain v where v: "sync_subject_roles en target oid v = (Inr (), w')" "access_ok en k g (aw_db v)"
    "\<not> act (ad_members (aw_db v)) target oid" "oid \<noteq> 0" "aw_policy v = aw_policy w"
    using assms(4,2) by (rule kick_member_run)
  have "active_roles_of (aw_db v) target oid = []" using v(2-4) by (rule no_member_no_roles)
  then have "(build_subject target oid, q) \<notin> groups (aw_policy w')" for q
    using laws(3) [OF v(1)] by simp
  moreover have "perms (aw_policy w') = perms (aw_policy w)" using laws(2) [OF v(1)] v(5) by simp
  ultimately show ?thesis
    using assms(3) by (intro policy_laws.no_roles_denied [OF assms(1)]) simp_all
qed

theorem removed_member_is_denied_witness:
  "\<not> en_enforce list_engine (aw_policy (snd (kick_member camp_env 1 3 2 '''' (camp_access (\<lambda>_. False)
      ([(build_subject 2 3, role_code_member)], [(role_code_member, ''/a:GET'', action_access)])))))
      (build_subject 2 3) ''/a:GET'' action_access"
proof -
  let ?w = "camp_access (\<lambda>_. False) ([(build_subject 2 3, role_code_member)], [(role_code_member, ''/a:GET'', action_access)])"
  have eng: "ae_engine camp_env = list_engine" by (simp add: camp_env_def)
  have "build_subject 2 3 \<noteq> role_code_member"
    using at_sign_in_subject [of 2 3] by (auto simp: role_code_member_def)
  then have "(build_subject 2 3, ob, a) \<notin> list_perms (aw_policy ?w)" for ob a
    by (simp add: camp_db list_perms_def)
  moreover have "kick_member camp_env 1 3 2 '''' ?w = (Inr (), snd (kick_member camp_env 1 3 2 '''' ?w))"
    using camp_kick [of "aw_policy ?w"] unfolding camp_db by (metis prod.collapse)
  moreover have "access_ok camp_env 4 {\<lparr>ur_user = 1, ur_org = 0, ur_role = 4\<rparr>} (aw_db ?w)"
    unfolding camp_db by (rule camp_access_ok)
  ultimately show ?thesis
    using removed_member_is_denied [of camp_env list_groups list_perms, unfolded eng, OF lp.policy_laws_axioms] by blast
qed

text \<open>
  C10. When leaving, removing or assigning returns without an error, the engine gives the
  subject exactly the codes of its enabled roles in the tables.
\<close>

theorem engine_follows_tables:
  assumes "policy_laws (ae_engine en) groups perms"
    and "m \<in> {leave_org en u oid reason, kick_member en operator oid u reason, assign_role en operator u oid ids}"
    and "m w = (Inr (), w')"
  shows "{q. (build_subject u oid, q) \<in> groups (aw_policy w')} =
     role_names (map ro_code (active_roles_of (aw_db w') u oid))"
proof -
  obtain v where v: "sync_subject_roles en u oid v = (Inr (), w')"
    using assms(2,3) by (rule synchronised_command)
  show ?thesis
    using policy_laws.sync_subject_roles_run [OF assms(1) refl v] by auto
qed

theorem engine_follows_tables_witness:
  "{q. (build_subject 2 3, q) \<in> list_groups (aw_policy (snd (assign_role camp_env 1 2 3 [5] (camp_access (\<lambda>_. False) ([], [])))))} =
     role_names (map ro_code (active_roles_of (aw_db (snd (assign_role camp_env 1 2 3 [5] (camp_access (\<lambda>_. False) ([], []))))) 2 3))"
proof (rule engine_follows_tables)
  show "policy_laws (ae_engine camp_env) list_groups list_perms" by (rule camp_laws)
  show "assign_role camp_env 1 2 3 [5] \<in> {leave_org camp_env 2 3 '''', kick_member camp_env 1 3 2 '''', assign_role camp_env 1 2 3 [5]}"
    by simp
  show "assign_role camp_env 1 2 3 [5] (camp_access (\<lambda>_. False) ([], [])) =
      (Inr (), snd (assign_role camp_env 1 2 3 [5] (camp_access (\<lambda>_. False) ([], []))))"
    using camp_assign by (metis prod.collapse)
qed

text \<open>
  C9. A successful assignment goes to an active member, replaces all its roles in the
  organisation by the requested ones and changes no other row; each of them is enabled, none is
  the super administrator, and an organisation administrator is appointed only by the owner,
  an organisation administrator or a super administrator.
\<close>

theorem assignment_within_level:
  assumes "assign_role en operator u oid ids w = (Inr (), w')"
  shows "act (ad_members (aw_db w)) u oid \<and>
     (\<forall>i \<in> set (normalize_user_role_ids ids). assignable_role (aw_db w) operator oid i) \<and>
     role_rows_replaced (aw_db w) u oid ids (aw_db w')"
  using dwpD [OF dwp_assign_role assms] by simp

theorem assignment_within_level_witness:
  "act (ad_members camp_tables) 2 3 \<and> assignable_role camp_tables 1 3 5 \<and>
     role_rows_replaced camp_tables 2 3 [5] (aw_db (snd (assign_role camp_env 1 2 3 [5] (camp_access (\<lambda>_. False) ([], [])))))"
proof -
  let ?w = "camp_access (\<lambda>_. False) ([], [])"
  have "assign_role camp_env 1 2 3 [5] ?w = (Inr (), snd (assign_role camp_env 1 2 3 [5] ?w))"
    using camp_assign by (metis prod.collapse)
  from assignment_within_level [OF this] show ?thesis
    unfolding camp_db by (simp add: normalize_user_role_ids_def)
qed

text \<open>
  C11. After a rebuild a user may call an API exactly when one of its roles in its current
  organisation, enabled or not, is bound to the API directly; a binding through a menu grants
  nothing. The codes of roles and menus must not be taken for each other or for a subject.
\<close>

theorem api_access_iff_direct_grant:
  assumes "policy_laws (ae_engine en) groups perms" "codes_apart (aw_db w)"
    and "rebuild_all en w = (Inr (), w1)"
    and "user_row_of (aw_db w) u = Some x" "au_current_org x = Some k"
    and "check_user_api_permission en u path method w1 = (Inr b, w2)"
  shows "b \<longleftrightarrow> direct_api_grant (aw_db w) u k (trim_space (api_resource path method))"
proof -
  obtain v where "aw_db v = aw_db w" "rebuild_from_snapshot en (snapshot_of (aw_db w)) v = (Inr (), w1)"
    using assms(3) by (rule rebuild_all_cases) auto
  note built = this(1) policy_laws.rebuild_from_snapshot_run [OF assms(1) refl this(2)]
  have "b = en_enforce (ae_engine en) (aw_policy w1) (build_subject u k) (trim_space (api_resource path method)) action_access"
    using assms(4-6) built(1,2)
    by (auto simp: check_user_api_permission_def get_user_subject_def user_by_id_def svc_iffs aread_run
        policy_has_permission_def acall_def Let_def actions_differ split: if_splits option.splits)
  then show ?thesis
    using policy_laws.rebuilt_api_access [OF assms(1), of "aw_policy w1" "aw_db w" u] built(5) assms(2,4) by simp
qed

theorem api_access_iff_direct_grant_witness:
  "en_enforce list_engine (aw_policy (snd (rebuild_all camp_env (camp_access (\<lambda>_. False) ([], []))))) (build_subject 2 3)
     (trim_space (api_resource ''/a'' ''GET'')) action_access \<longleftrightarrow>
   direct_api_grant camp_tables 2 3 (trim_space (api_resource ''/a'' ''GET''))"
proof -
  let ?w = "camp_access (\<lambda>_. False) ([], [])"
  let ?r = "snd (rebuild_all camp_env ?w)"
  have db: "aw_db ?r = camp_tables"
    using readsD [OF reads_rebuild camp_rebuilt] by (simp add: camp_db)
  have "check_user_api_permission camp_env 2 ''/a'' ''GET'' ?r =
      (Inr (en_enforce list_engine (aw_policy ?r) (build_subject 2 3) (trim_space (api_resource ''/a'' ''GET'')) action_access),
       atick (atick ?r))"
    using camp_user_row db camp_rebuild(2) [of "([], [])"]
    by (simp add: check_user_api_permission_def get_user_subject_def user_by_id_def svc_bind_def aread_run
        policy_has_permission_def acall_def Let_def actions_differ camp_user_def camp_env_def)
  from api_access_iff_direct_grant [OF camp_laws _ camp_rebuilt _ _ this, unfolded camp_db, OF camp_codes_apart camp_user_row]
  show ?thesis by (simp add: camp_user_def)
qed

text \<open>
  C22. A rebuild that fails half-way may take rights away, but grants nobody anything that was
  not granted before and is not granted by the tables.
\<close>

theorem failed_rebuild_grants_nothing_new:
  assumes "policy_laws (ae_engine en) groups perms" "rebuild_all en w = (r, w')"
    and "en_enforce (ae_engine en) (aw_policy w') s ob a"
    and "\<not> en_enforce (ae_engine en) (aw_policy w) s ob a"
  shows "\<exists>q \<in> reachable_roles (snapshot_groups (snapshot_of (aw_db w))) s. (q, ob, a) \<in> snapshot_perms (snapshot_of (aw_db w))"
  using assms(2)
proof (cases rule: rebuild_all_cases)
  case (unbuilt e)
  then show ?thesis using assms(3,4) by simp
next
  case (built v)
  note run = policy_laws.rebuild_from_snapshot_run(2,3) [OF assms(1) refl built(2)]
  show ?thesis using run assms(3) by (rule policy_laws.enforce_mono [OF assms(1)])
qed

theorem failed_rebuild_grants_nothing_new_witness:
  "\<exists>q \<in> reachable_roles (snapshot_groups (snapshot_of camp_tables)) (build_subject 2 3).
     (q, trim_space (api_resource ''/a'' ''GET''), action_access) \<in> snapshot_perms (snapshot_of camp_tables)"
  by (rule failed_rebuild_grants_nothing_new [OF camp_laws camp_rebuilt [of "([], [])"] camp_granted, unfolded camp_db])
    (simp add: camp_env_def list_engine_def)

text \<open>
  C25. The recursion that builds the menu tree ends for every table of menus with distinct
  non-zero keys, cycles of parents included, and the tree holds exactly the menus below the root.
\<close>

theorem menu_tree_complete:
  assumes "get_menu_tree w = (Inr t, w')"
    and "distinct (map mu_id (live_menus (aw_db w)))" "0 \<notin> mu_id ` set (live_menus (aw_db w))"
  shows "\<exists>ts. t = Some ts \<and> (\<Union>n \<in> set ts. tree_menus n) = {m. below (live_menus (aw_db w)) 0 m}"
proof -
  have t: "t = build_tree (tree_fuel (live_menus (aw_db w))) (live_menus (aw_db w)) 0"
    using assms(1) by (auto simp: get_menu_tree_def menu_all_def awrap_def svc_iffs aread_run split: if_splits)
  have "build_tree (tree_fuel (live_menus (aw_db w))) (live_menus (aw_db w)) 0 \<noteq> None"
    using build_tree_enough [OF assms(2,3) chain_root] by (simp add: tree_fuel_def)
  then show ?thesis using t build_tree_menus by auto
qed

theorem menu_tree_complete_witness:
  "\<exists>ts. fst (get_menu_tree (camp_access (\<lambda>_. False) ([], []))) = Inr (Some ts) \<and>
     (\<Union>n \<in> set ts. tree_menus n) = {m. below (live_menus camp_tables) 0 m}"
proof -
  let ?w = "camp_access (\<lambda>_. False) ([], [])"
  obtain t where t: "get_menu_tree ?w = (Inr t, snd (get_menu_tree ?w))"
    by (auto simp: get_menu_tree_def menu_all_def awrap_def svc_wrap_def svc_bind_def aread_run camp_access_def)
  have "distinct (map mu_id (live_menus (aw_db ?w)))" "0 \<notin> mu_id ` set (live_menus (aw_db ?w))"
    by (simp_all add: camp_db live_menus_def camp_tables_def camp_menu_def)
  from menu_tree_complete [OF t this] show ?thesis using t unfolding camp_db by (metis fst_conv)
qed



text \<open>
  C24. In every reachable state the rows of accounts and members are well typed: the status is
  one of the constants of the code and the columns that depend on it agree with it.
\<close>

theorem account_rows_typed:
  assumes "access_reachable en w0 w" "rows_typed (aw_db w0)"
  shows "rows_typed (aw_db w)"
  using assms by (rule access_reachable_typed)

theorem account_rows_typed_witness:
  "rows_typed (aw_db (snd (kick_member camp_env 1 3 2 '''' (camp_access (\<lambda>_. False) ([], [])))))"
proof (rule account_rows_typed [OF reach_step [OF reach_start step_kick_member]])
  show "rows_typed (aw_db (camp_access (\<lambda>_. False) ([], [])))"
    by (simp add: camp_db rows_typed_def camp_tables_def camp_rows user_typed_def member_typed_def user_status_defs)
qed

end
