(* ===== verification/Spec2Isabelle.thy ===== *)
theory Spec2Isabelle
  imports OJ_Properties Infra_Properties AI_Properties Access_Properties
begin

text \<open>
  Verification of the back end of \<open>personal_assistant\<close>: a Go server on a relational database,
  Redis and a policy engine. Four parts are modelled, each with its own state and its own theory
  of properties; they share the errors, the service monad, the outbox and the lock.

  \<^bold>\<open>OJ tasks\<close> (\<open>internal/service/system/ojTask*.go\<close>). A task asks members of organisations to solve
  problems of online judges. Commands write versioned task rows with an execution each; an execution
  is queued by a trigger event in the outbox, claimed by a dispatcher and ends with a snapshot of who
  has solved what.
  \<^item> \<open>OJ_Consts\<close>, \<open>OJ_Store\<close>, \<open>OJ_Repo\<close>: \<open>internal/model/consts/ojTask.go\<close>, the entities, and
    \<open>ojTaskRepo.go\<close> and \<open>ojTaskExecutionRepo.go\<close> over lists of rows (\<open>oj_db\<close> in \<open>oj_world\<close>);
    \<open>Row_Table\<close> is the interface of a table with a primary key.
  \<^item> \<open>Authorization\<close>: \<open>authorizationSvc.go\<close> over the reads of these tables.
  \<^item> \<open>OJ_Resolution\<close>, \<open>OJ_Task_Service\<close>, \<open>OJ_Preflight\<close>: drafts, tokens, all commands, late binding.
  \<^item> \<open>OJ_Snapshot\<close>, \<open>OJ_Dispatch\<close>: the facts, the snapshot, claiming, running and failing.
  \<^item> \<open>OJ_Snapshot_Spec\<close> (the snapshot without loops), \<open>OJ_Invariant\<close>, \<open>OJ_Effects\<close>, \<open>OJ_Commands\<close>,
    \<open>OJ_Run\<close>, \<open>OJ_Lifecycle\<close> (reachable tables under any sequence of steps and any failing calls),
    \<open>OJ_Behaviour\<close>, \<open>OJ_Attempts\<close>, \<open>OJ_Binding\<close>: the lemmas; \<open>OJ_Properties\<close>: the properties.

  \<^bold>\<open>Accounts, organisations and permissions\<close> (\<open>orgSvc.go\<close>, \<open>userSvc.go\<close>, \<open>roleSvc.go\<close>, \<open>menuSvc.go\<close>,
  \<open>apiSvc.go\<close>, \<open>permissionProjectionSvc.go\<close>, \<open>authorizationSvc.go\<close>, \<open>pkg/casbin/casbin.go\<close>). The tables say who
  belongs where with which roles; a projection copies them into the policy engine, which answers
  the checks of requests. Commands announce changes through the outbox and synchronise the subject
  they touch after their transaction.
  \<^item> \<open>Access_Store\<close>, \<open>Access_Repo\<close>: the tables (\<open>access_db\<close>), the world of the services
    (\<open>access_world\<close>: tables, engine in memory and behind its adapter, sessions, clock, faults) and
    the repositories.
  \<^item> \<open>Access_Policy\<close>, \<open>Access_Projection\<close>: the policy service over an external engine whose laws
    are the locale \<open>policy_laws\<close>; events, projection, authorisation.
  \<^item> \<open>Access_Org\<close>, \<open>Access_User\<close>, \<open>Access_Admin\<close>, \<open>Access_Api\<close>: every command, method by method.
  \<^item> \<open>Access_Calls\<close> (weakest preconditions of methods), \<open>Access_Invariant\<close> (\<open>access_ok\<close>),
    \<open>Access_Reachable\<close> (every command keeps it), \<open>Access_Types\<close>, \<open>Access_Effects\<close>,
    \<open>Access_Menu_Tree\<close>, \<open>Access_Policy_Correct\<close> (the list engine as an interpretation of
    \<open>policy_laws\<close>), \<open>Access_Grants\<close> (the engine against the tables): the lemmas;
    \<open>Access_Properties\<close>: the properties.

  \<^bold>\<open>Infrastructure\<close>.
  \<^item> \<open>Redis_Lock\<close>: \<open>pkg/redislock\<close> over the locale \<open>lease_store\<close>, interpreted on the Redis model.
  \<^item> \<open>Outbox_Store\<close>, \<open>Messaging\<close>, \<open>Outbox_Relay\<close>: \<open>outboxRepo.go\<close>, the stream publisher and
    subscriber, and the relay from the one to the other under a lock.
  \<^item> \<open>Sse_Codec\<close>, \<open>Sse_Broker\<close>, \<open>Sse_Registry\<close>, \<open>Sse_Replay\<close>: \<open>internal/infrastructure/sse\<close>;
    \<open>Trace_Context\<close>: \<open>pkg/observability/w3c\<close> and \<open>contextid\<close>; \<open>Infra_Properties\<close>: the properties.

  \<^bold>\<open>Memory of the assistant\<close> (\<open>aiMemory*.go\<close>, \<open>aiHybridContext.go\<close>, \<open>internal/infrastructure/ai/memory\<close>,
  \<open>pkg/ratelimit\<close>). A completed turn is written back as facts, documents and a summary; documents are
  split and indexed; a later turn recalls them.
  \<^item> \<open>Go_Text\<close>, \<open>Text_Chunker\<close>, \<open>Memory_Policy\<close>, \<open>Memory_Store\<close>, \<open>Memory_Writeback\<close>, \<open>Memory_Index\<close>,
    \<open>Memory_Recall\<close>, \<open>Memory_Context\<close>, \<open>Rate_Limit\<close>: the code; \<open>Chunker_Correct\<close>, \<open>Memory_Correct\<close>,
    \<open>Memory_Recall_Correct\<close>: the lemmas; \<open>AI_Properties\<close>: the properties.

  \<^bold>\<open>Shared\<close>: \<open>Go_Prelude\<close> (functions of the Go library, rules for lists and maps), \<open>Svc_Monad\<close> (a method is a
  function from the state to an error or a value, and the state after it), \<open>Biz_Errors\<close>. \<open>Demo_World\<close> and
  \<open>Demo_Memory\<close> are the small worlds on which properties with hypotheses are applied.
\<close>

text \<open>
  \<^bold>\<open>Failing calls.\<close> Every call of a database, of Redis or of the engine takes one numbered step, and a
  function of the world says which steps fail; the theorems hold for every such function, so for
  every combination of failures. A transaction that fails or whose commit fails restores the tables.

  \<^bold>\<open>Bounds and fuel.\<close> Loops of the code are recursions on their data. A fuel stands where the code
  recurses on references: the menu tree takes one more than the number of menus, and
  \<open>menu_tree_complete\<close> shows that this is enough whenever keys are distinct and not zero. The splitter of
  the chunker is a partial function, and \<open>chunking_terminates\<close> shows that it returns. An invitation code is
  drawn at most ten times and a lock tried a configured number of times, as the code does.
  The engine follows at most ten links between roles, its documented bound.

  \<^bold>\<open>Interleaving.\<close> Attempts on executions, connections of the broker, holders of locks, consumers and the
  relay interleave call by call or operation by operation. The commands of the account part and of
  the task service run one after another; races between their transactions are not modelled.

  \<^bold>\<open>Parameters.\<close> What is not in the repository is an argument: the policy engine, the collation and
  pattern match of the database, URL parser, password hashing, captchas, JSON and token codecs, language
  and embedding models, the vector search, random draws, the clock.

  \<^bold>\<open>Not modelled.\<close> The HTTP layer, paged lists and detail responses, fetching from the judges and its
  statistics, image storage, the conversation runtime around the agent library, tokens of sessions,
  observability backends, and start-up. They are transport, queries or wiring around the parts above.
\<close>

text \<open>The codes of the business errors identify them: no two errors share a code.\<close>

theorem biz_codes_unambiguous: "distinct all_biz_codes"
  by (rule all_biz_codes_distinct)

end
